(* ===== verification/Uprise_Prelude.thy ===== *)
theory Uprise_Prelude
  imports Main "HOL-Library.Char_ord"
begin

text \<open>
  The prelude of the development: the error values and results every service returns, the
  JavaScript string operations the sources call, the finite key-value tables that stand for
  database tables and in-memory \<open>Map\<close>s, and the generic list lemmas the components share.

  A JavaScript string is a \<open>string\<close> whose characters are its UTF-16 code units below 256.
  The collections \<open>js_string\<close> (string operations) and \<open>res_simps\<close> (results) are used as
  simplification bundles by every component.
\<close>

named_theorems js_string
named_theorems res_simps

section \<open>Results and exceptions\<close>

text \<open>
  \<open>ApiHttpException code status\<close> is the repository's own exception
  (\<^verbatim>\<open>apps/api/src/common/http/api-response.ts\<close>); the other three are the framework's
  exceptions the services raise; \<open>ThrownError\<close> is any other \<open>Error\<close>. The human-readable message of \<open>ApiHttpException\<close> is not
  kept: no code reads it back.
\<close>

datatype api_error =
    ApiHttpException (err_code: string) nat
  | BadRequestException string
  | NotFoundException string
  | ForbiddenException string
  | UniqueViolation
  | ThrownError string

type_synonym 'a res = "api_error + 'a"

definition HttpStatus_BAD_REQUEST :: nat where
  "HttpStatus_BAD_REQUEST = 400"

definition apiHttpException :: "string \<Rightarrow> nat option \<Rightarrow> api_error" where
  "apiHttpException code status =
     ApiHttpException code (case status of None \<Rightarrow> HttpStatus_BAD_REQUEST | Some s \<Rightarrow> s)"

fun http_status :: "api_error \<Rightarrow> nat" where
  "http_status (ApiHttpException c s) = s"
| "http_status (BadRequestException m) = 400"
| "http_status (NotFoundException m) = 404"
| "http_status (ForbiddenException m) = 403"
| "http_status UniqueViolation = 500"
| "http_status (ThrownError m) = 500"

fun is_ok :: "'a res \<Rightarrow> bool" where
  "is_ok (Inl e) = False"
| "is_ok (Inr x) = True"

fun rbind :: "'a res \<Rightarrow> ('a \<Rightarrow> 'b res) \<Rightarrow> 'b res" where
  "rbind (Inl e) f = Inl e"
| "rbind (Inr x) f = f x"

lemma rbind_Inr_iff [res_simps]: "rbind m f = Inr y \<longleftrightarrow> (\<exists>x. m = Inr x \<and> f x = Inr y)"
  by (cases m) auto

lemma rbind_Inl_iff [res_simps]:
  "rbind m f = Inl e \<longleftrightarrow> m = Inl e \<or> (\<exists>x. m = Inr x \<and> f x = Inl e)"
  by (cases m) auto

lemma is_ok_iff [res_simps]: "is_ok r \<longleftrightarrow> (\<exists>x. r = Inr x)"
  by (cases r) auto

lemma rbind_assoc: "rbind (rbind m f) g = rbind m (\<lambda>x. rbind (f x) g)"
  by (cases m) auto

section \<open>JavaScript strings\<close>

definition js_space :: "char \<Rightarrow> bool" where
  "js_space c \<longleftrightarrow> of_char c \<in> {9, 10, 11, 12, 13, 32, 160 :: nat}"

definition js_trim :: "string \<Rightarrow> string" where
  "js_trim s = rev (dropWhile js_space (rev (dropWhile js_space s)))"

definition lower_char :: "char \<Rightarrow> char" where
  "lower_char c =
     (let n = (of_char c :: nat) in
      if (65 \<le> n \<and> n \<le> 90) \<or> (192 \<le> n \<and> n \<le> 222 \<and> n \<noteq> 215) then char_of (n + 32) else c)"

definition upper_char :: "char \<Rightarrow> char" where
  "upper_char c =
     (let n = (of_char c :: nat) in
      if (97 \<le> n \<and> n \<le> 122) \<or> (224 \<le> n \<and> n \<le> 254 \<and> n \<noteq> 247) then char_of (n - 32) else c)"

definition js_lower :: "string \<Rightarrow> string" where
  "js_lower s = map lower_char s"

definition js_upper :: "string \<Rightarrow> string" where
  "js_upper s = map upper_char s"

definition starts_with :: "string \<Rightarrow> string \<Rightarrow> bool" where
  "starts_with s p \<longleftrightarrow> take (length p) s = p"

definition ends_with :: "string \<Rightarrow> string \<Rightarrow> bool" where
  "ends_with s p \<longleftrightarrow> length p \<le> length s \<and> drop (length s - length p) s = p"

fun str_includes :: "string \<Rightarrow> string \<Rightarrow> bool" where
  "str_includes [] p \<longleftrightarrow> p = []"
| "str_includes (c # s) p \<longleftrightarrow> take (length p) (c # s) = p \<or> str_includes s p"

definition is_digit :: "char \<Rightarrow> bool" where
  "is_digit c \<longleftrightarrow> 48 \<le> (of_char c :: nat) \<and> of_char c \<le> (57 :: nat)"

definition digit_val :: "char \<Rightarrow> nat" where
  "digit_val c = of_char c - 48"

text \<open>\<open>String(n)\<close> of a natural number.\<close>

fun nat_to_string :: "nat \<Rightarrow> string" where
  "nat_to_string n =
     (if n < 10 then [char_of (48 + n)] else nat_to_string (n div 10) @ [char_of (48 + n mod 10)])"

declare nat_to_string.simps [simp del]

lemma nat_to_string_small: "n < 10 \<Longrightarrow> nat_to_string n = [char_of (48 + n)]"
  by (simp add: nat_to_string.simps)

lemma nat_to_string_nonempty [simp]: "nat_to_string n \<noteq> []"
  by (subst nat_to_string.simps) simp

definition digits_val :: "string \<Rightarrow> nat" where
  "digits_val s = foldl (\<lambda>a c. 10 * a + digit_val c) 0 s"

lemma digit_val_char_of [simp]: "d < 10 \<Longrightarrow> digit_val (char_of (48 + d)) = d"
  by (simp add: digit_val_def)

lemma digits_val_nat_to_string: "digits_val (nat_to_string n) = n"
proof (induction n rule: nat_to_string.induct)
  case (1 n)
  show ?case
  proof (cases "n < 10")
    case True
    then show ?thesis by (simp add: nat_to_string_small digits_val_def)
  next
    case False
    then have "digits_val (nat_to_string n) = 10 * digits_val (nat_to_string (n div 10)) + n mod 10"
      by (subst nat_to_string.simps) (simp add: digits_val_def)
    also have "\<dots> = 10 * (n div 10) + n mod 10"
      using "1.IH" [OF False] by simp
    also have "\<dots> = n" by simp
    finally show ?thesis .
  qed
qed

lemma nat_to_string_inject [simp]: "nat_to_string m = nat_to_string n \<longleftrightarrow> m = n"
  by (metis digits_val_nat_to_string)

lemma lower_char_idem [simp]: "lower_char (lower_char c) = lower_char c"
  by (simp add: lower_char_def Let_def)

lemma js_lower_idem [simp]: "js_lower (js_lower s) = js_lower s"
  by (simp add: js_lower_def)

lemma length_js_lower [simp]: "length (js_lower s) = length s"
  by (simp add: js_lower_def)

lemma length_js_upper [simp]: "length (js_upper s) = length s"
  by (simp add: js_upper_def)

lemma length_js_trim: "length (js_trim s) \<le> length s"
  using length_dropWhile_le [of js_space "rev (dropWhile js_space s)"] length_dropWhile_le [of js_space s]
  by (simp add: js_trim_def)

lemma dropWhile_id: "xs = [] \<or> \<not> P (hd xs) \<Longrightarrow> dropWhile P xs = xs"
  by (cases xs) auto

lemma hd_rev_dropWhile_rev:
  "xs = [] \<or> \<not> P (hd xs) \<Longrightarrow> rev (dropWhile P (rev xs)) = [] \<or> \<not> P (hd (rev (dropWhile P (rev xs))))"
proof (induction xs rule: rev_induct)
  case Nil
  then show ?case by simp
next
  case (snoc x xs)
  then show ?case by (cases xs) (auto split: if_splits)
qed

lemma js_trim_idem [simp]: "js_trim (js_trim s) = js_trim s"
proof -
  define t where "t = dropWhile js_space s"
  have t: "t = [] \<or> \<not> js_space (hd t)"
    using hd_dropWhile [of js_space s] by (auto simp: t_def)
  define u where "u = rev (dropWhile js_space (rev t))"
  have u: "u = [] \<or> \<not> js_space (hd u)"
    unfolding u_def using t by (rule hd_rev_dropWhile_rev)
  have "dropWhile js_space (rev u) = rev u"
    using hd_dropWhile [of js_space "rev t"] by (intro dropWhile_id) (auto simp: u_def)
  then show ?thesis
    using dropWhile_id [of u js_space] u by (simp add: js_trim_def u_def t_def)
qed

lemma starts_with_append [js_string]: "starts_with (p @ s) p"
  by (simp add: starts_with_def)

lemma starts_with_Nil [simp, js_string]: "starts_with s []"
  by (simp add: starts_with_def)

text \<open>The truth value of an optional string: \<open>undefined\<close>, \<open>null\<close> and the empty string are false.\<close>

fun truthy :: "string option \<Rightarrow> bool" where
  "truthy None \<longleftrightarrow> False"
| "truthy (Some s) \<longleftrightarrow> s \<noteq> []"

section \<open>Tables\<close>

text \<open>
  A JavaScript \<open>Map\<close> and a database table keyed by a column: an association list in insertion
  order, whose keys stay distinct under the operations below.
\<close>

type_synonym ('k, 'v) table = "('k \<times> 'v) list"

definition tget :: "('k, 'v) table \<Rightarrow> 'k \<Rightarrow> 'v option" where
  "tget t k = map_of t k"

fun tset :: "'k \<Rightarrow> 'v \<Rightarrow> ('k, 'v) table \<Rightarrow> ('k, 'v) table" where
  "tset k v [] = [(k, v)]"
| "tset k v ((k', v') # t) = (if k = k' then (k, v) # t else (k', v') # tset k v t)"

definition tdel :: "'k \<Rightarrow> ('k, 'v) table \<Rightarrow> ('k, 'v) table" where
  "tdel k t = filter (\<lambda>kv. fst kv \<noteq> k) t"

definition tkeys :: "('k, 'v) table \<Rightarrow> 'k list" where
  "tkeys t = map fst t"

definition tvals :: "('k, 'v) table \<Rightarrow> 'v list" where
  "tvals t = map snd t"

lemma tget_Nil [simp]: "tget [] k = None"
  by (simp add: tget_def)

lemma tget_Cons [simp]: "tget ((k', v) # t) k = (if k = k' then Some v else tget t k)"
  by (simp add: tget_def)

lemma tget_tset [simp]: "tget (tset k v t) k' = (if k' = k then Some v else tget t k')"
  by (induction t) auto

lemma tget_tdel [simp]: "tget (tdel k t) k' = (if k' = k then None else tget t k')"
  by (induction t) (auto simp: tdel_def)

lemma tkeys_tset: "tkeys (tset k v t) = (if k \<in> set (tkeys t) then tkeys t else tkeys t @ [k])"
  by (induction k v t rule: tset.induct) (auto simp: tkeys_def)

lemma set_tkeys_tset [simp]: "set (tkeys (tset k v t)) = insert k (set (tkeys t))"
  by (auto simp: tkeys_tset)

lemma set_tkeys_tdel [simp]: "set (tkeys (tdel k t)) = set (tkeys t) - {k}"
  by (auto simp: tkeys_def tdel_def)

lemma distinct_tset [simp]: "distinct (tkeys t) \<Longrightarrow> distinct (tkeys (tset k v t))"
  by (simp add: tkeys_tset)

lemma distinct_tdel [simp]: "distinct (tkeys t) \<Longrightarrow> distinct (tkeys (tdel k t))"
  by (induction t) (auto simp: tkeys_def tdel_def)

lemma tget_None_iff: "tget t k = None \<longleftrightarrow> k \<notin> set (tkeys t)"
  by (simp add: tget_def tkeys_def map_of_eq_None_iff)

lemma tget_in_tvals: "tget t k = Some v \<Longrightarrow> v \<in> set (tvals t)"
  by (induction t) (auto simp: tvals_def split: if_splits)

lemma tvals_tset: "set (tvals (tset k v t)) \<subseteq> insert v (set (tvals t))"
  by (induction k v t rule: tset.induct) (auto simp: tvals_def split: if_splits)

section \<open>Lists\<close>

text \<open>A JavaScript \<open>Set\<close> built from a list: the first occurrence of each element, in order.\<close>

fun js_set :: "'a list \<Rightarrow> 'a list" where
  "js_set [] = []"
| "js_set (x # xs) = x # filter (\<lambda>y. y \<noteq> x) (js_set xs)"

lemma set_js_set [simp]: "set (js_set xs) = set xs"
  by (induction xs) auto

lemma distinct_js_set [simp]: "distinct (js_set xs)"
  by (induction xs) auto

lemma js_set_id: "distinct xs \<Longrightarrow> js_set xs = xs"
  by (induction xs) (auto intro: filter_True)

lemma js_set_filter: "js_set (filter P xs) = filter P (js_set xs)"
  by (induction xs) (auto simp: conj_commute intro!: filter_cong)

lemma find_Some_in: "find P xs = Some x \<Longrightarrow> x \<in> set xs \<and> P x"
  by (induction xs) (auto split: if_splits)

lemma find_None_all: "find P xs = None \<longleftrightarrow> (\<forall>x\<in>set xs. \<not> P x)"
  by (induction xs) auto

text \<open>The position of the first element that satisfies a predicate (\<open>findIndex\<close>).\<close>

fun find_index :: "('a \<Rightarrow> bool) \<Rightarrow> 'a list \<Rightarrow> nat option" where
  "find_index P [] = None"
| "find_index P (x # xs) = (if P x then Some 0 else map_option Suc (find_index P xs))"

definition nth_opt :: "'a list \<Rightarrow> nat \<Rightarrow> 'a option" where
  "nth_opt xs i = (if i < length xs then Some (xs ! i) else None)"

lemma find_index_Some:
  "find_index P xs = Some i \<Longrightarrow> i < length xs \<and> P (xs ! i) \<and> (\<forall>j<i. \<not> P (xs ! j))"
proof (induction xs arbitrary: i)
  case Nil
  then show ?case by simp
next
  case (Cons x xs)
  then show ?case
    by (cases i) (auto split: if_splits simp: less_Suc_eq_0_disj nth_Cons')
qed

lemma find_index_None: "find_index P xs = None \<longleftrightarrow> (\<forall>x\<in>set xs. \<not> P x)"
  by (induction xs) auto

end
