(* ===== verification/Fsm_Core.thy ===== *)
theory Fsm_Core
  imports Uprise_Prelude
begin

text \<open>
  The generic status guard of \<^verbatim>\<open>apps/api/src/common/fsm/assert-transition.ts\<close> and the
  interface every aggregate's state machine offers to the services: a table of edges and a
  guard that accepts exactly the edges of the table. The locale \<open>status_machine\<close> states that
  contract and proves what follows for whole histories of accepted transitions;
  \<open>ranked_machine\<close> adds a rank that every edge lowers and bounds the length of a history.
\<close>

type_synonym 's transition_map = "'s \<Rightarrow> 's list"

definition assertTransition ::
  "'s transition_map \<Rightarrow> 's \<Rightarrow> 's \<Rightarrow> string \<Rightarrow> unit res" where
  "assertTransition m from to code =
     (if to \<notin> set (m from) then Inl (apiHttpException code (Some 409)) else Inr ())"

lemma assertTransition_ok [simp]: "assertTransition m a b c = Inr () \<longleftrightarrow> b \<in> set (m a)"
  by (simp add: assertTransition_def)

lemma assertTransition_err:
  "assertTransition m a b c = Inl e \<longleftrightarrow> b \<notin> set (m a) \<and> e = ApiHttpException c 409"
  by (auto simp: assertTransition_def apiHttpException_def)

section \<open>Histories\<close>

text \<open>
  A service that applies a guard before each write and stops at the first refusal.
\<close>

fun run_guarded :: "('s \<Rightarrow> 's \<Rightarrow> unit res) \<Rightarrow> 's \<Rightarrow> 's list \<Rightarrow> 's res" where
  "run_guarded g s [] = Inr s"
| "run_guarded g s (t # ts) = (case g s t of Inl e \<Rightarrow> Inl e | Inr u \<Rightarrow> run_guarded g t ts)"

text \<open>
  A webhook path consults the non-throwing variant and ignores an illegal transition.
\<close>

fun run_advisory :: "('s \<Rightarrow> 's \<Rightarrow> bool) \<Rightarrow> 's \<Rightarrow> 's list \<Rightarrow> 's" where
  "run_advisory can s [] = s"
| "run_advisory can s (t # ts) = run_advisory can (if can s t then t else s) ts"

inductive fsm_path :: "('s \<Rightarrow> 's list) \<Rightarrow> 's \<Rightarrow> 's list \<Rightarrow> 's \<Rightarrow> bool" for m where
  path_refl: "fsm_path m s [] s"
| path_step: "t \<in> set (m s) \<Longrightarrow> fsm_path m t ts u \<Longrightarrow> fsm_path m s (t # ts) u"

inductive_cases path_NilE [elim!]: "fsm_path m s [] u"
inductive_cases path_ConsE [elim!]: "fsm_path m s (t # ts) u"
inductive_simps fsm_path_simps [simp]: "fsm_path m s [] u" "fsm_path m s (t # ts) u"

lemma fsm_path_append: "fsm_path m s (xs @ ys) u \<longleftrightarrow> (\<exists>t. fsm_path m s xs t \<and> fsm_path m t ys u)"
  by (induction xs arbitrary: s) auto

text \<open>
  A set of states that a history must enter on its way: when every edge into the region
  \<open>R\<close> from outside starts in a gate state, a path that ends in \<open>R\<close> visits the gate.
\<close>

lemma fsm_path_gate:
  assumes "\<And>a b. b \<in> set (m a) \<Longrightarrow> b \<in> R \<Longrightarrow> a \<notin> R \<Longrightarrow> a \<in> avoid \<or> a = g"
    and "fsm_path m s ts u" and "s \<notin> R" and "u \<in> R"
    and "\<forall>x\<in>set (s # ts). x \<notin> avoid"
  shows "g \<in> set (s # ts)"
  using assms(2-)
proof (induction rule: fsm_path.induct)
  case (path_refl s)
  then show ?case by simp
next
  case (path_step t s ts u)
  show ?case
  proof (cases "t \<in> R")
    case True
    with assms(1) [OF path_step.hyps(1)] path_step.prems show ?thesis by auto
  next
    case False
    with path_step show ?thesis by auto
  qed
qed

section \<open>The interface of a status machine\<close>

locale status_machine =
  fixes edges :: "'s \<Rightarrow> 's list"
    and guard :: "'s \<Rightarrow> 's \<Rightarrow> unit res"
    and can :: "'s \<Rightarrow> 's \<Rightarrow> bool"
  assumes guard_iff: "guard a b = Inr () \<longleftrightarrow> b \<in> set (edges a)"
    and can_iff: "can a b \<longleftrightarrow> b \<in> set (edges a)"
begin

lemma guard_can: "guard a b = Inr () \<longleftrightarrow> can a b"
  by (simp add: guard_iff can_iff)

lemma guarded_path: "run_guarded guard s ts = Inr u \<longleftrightarrow> fsm_path edges s ts u"
proof (induction ts arbitrary: s)
  case Nil
  show ?case by auto
next
  case (Cons t ts)
  show ?case
  proof (cases "guard s t")
    case (Inl e)
    then have "t \<notin> set (edges s)" using guard_iff [of s t] by simp
    with Inl show ?thesis by simp
  next
    case (Inr x)
    then have "t \<in> set (edges s)" using guard_iff [of s t] by simp
    with Inr Cons.IH show ?thesis by simp
  qed
qed

lemma terminal_refuses:
  assumes "edges s = []" shows "run_guarded guard s ts = Inr u \<longleftrightarrow> ts = [] \<and> u = s"
  unfolding guarded_path using assms by (cases ts) auto

lemma terminal_stays:
  assumes "edges s = []" shows "run_advisory can s ts = s"
  using assms by (induction ts) (auto simp: can_iff)

text \<open>The advisory run applies exactly the legal steps of the sequence: a path of the table.\<close>

lemma advisory_path: "\<exists>us. fsm_path edges s us (run_advisory can s ts) \<and> length us \<le> length ts"
proof (induction ts arbitrary: s)
  case Nil
  show ?case by (rule exI [of _ "[]"]) simp
next
  case (Cons t ts)
  show ?case
  proof (cases "can s t")
    case True
    obtain us where us: "fsm_path edges t us (run_advisory can t ts)" "length us \<le> length ts"
      using Cons.IH by blast
    with True have "fsm_path edges s (t # us) (run_advisory can s (t # ts))"
      by (simp add: can_iff)
    with us(2) show ?thesis by (intro exI [of _ "t # us"]) simp
  next
    case False
    obtain us where "fsm_path edges s us (run_advisory can s ts)" "length us \<le> length ts"
      using Cons.IH by blast
    with False show ?thesis by (intro exI [of _ us]) simp
  qed
qed

end

locale ranked_machine = status_machine edges guard can
  for edges :: "'s \<Rightarrow> 's list" and guard :: "'s \<Rightarrow> 's \<Rightarrow> unit res" and can :: "'s \<Rightarrow> 's \<Rightarrow> bool" +
  fixes rank :: "'s \<Rightarrow> nat"
  assumes edge_rank: "b \<in> set (edges a) \<Longrightarrow> rank b < rank a"
begin

lemma path_length: "fsm_path edges s ts u \<Longrightarrow> length ts + rank u \<le> rank s"
  by (induction rule: fsm_path.induct) (auto dest!: edge_rank)

lemma guarded_length: "run_guarded guard s ts = Inr u \<Longrightarrow> length ts \<le> rank s"
  using path_length by (fastforce simp: guarded_path)

text \<open>No status is entered twice: a replayed transition is refused.\<close>

lemma path_rank_below: "fsm_path edges s ts u \<Longrightarrow> x \<in> set ts \<Longrightarrow> rank x < rank s"
  by (induction rule: fsm_path.induct) (auto dest: edge_rank)

lemma path_distinct: "fsm_path edges s ts u \<Longrightarrow> distinct (s # ts)"
proof (induction rule: fsm_path.induct)
  case (path_refl s)
  show ?case by simp
next
  case (path_step t s ts u)
  have "s \<notin> set (t # ts)"
    using path_rank_below [of s "t # ts" u s] path_step.hyps by auto
  with path_step.IH show ?case by simp
qed

lemma guarded_distinct: "run_guarded guard s ts = Inr u \<Longrightarrow> distinct (s # ts)"
  by (simp only: guarded_path) (rule path_distinct)

end

end
