(* ===== verification/Fsm_Machines.thy ===== *)
theory Fsm_Machines
  imports Fsm_Core
begin

text \<open>
  The status machines of the services under \<^verbatim>\<open>apps/api/src\<close>: for each, the status
  enumeration, the table of edges exactly as the file writes it, the throwing guard of the
  command path and the advisory check of the webhook or worker path. Constructors are written
  qualified (\<open>CallStatus.RINGING\<close>), as in the source. Every machine is an interpretation of
  \<open>status_machine\<close>; the acyclic ones also of \<open>ranked_machine\<close>.

  Two guards, those of turf and shift assignments, raise their exception without a status, so
  the default of \<open>ApiHttpException\<close> applies (400) where their comments say 409.
\<close>

subsection \<open>\<^verbatim>\<open>calls/call-state.machine.ts\<close>\<close>

datatype CallStatus = INITIATED | RINGING | IN_PROGRESS | COMPLETED | BUSY | NO_ANSWER | FAILED

fun CALL_TRANSITIONS :: "CallStatus transition_map" where
  "CALL_TRANSITIONS CallStatus.INITIATED =
     [CallStatus.RINGING,
      CallStatus.IN_PROGRESS,
      CallStatus.COMPLETED,
      CallStatus.BUSY,
      CallStatus.NO_ANSWER,
      CallStatus.FAILED]"
| "CALL_TRANSITIONS CallStatus.RINGING =
     [CallStatus.IN_PROGRESS,
      CallStatus.COMPLETED,
      CallStatus.BUSY,
      CallStatus.NO_ANSWER,
      CallStatus.FAILED]"
| "CALL_TRANSITIONS CallStatus.IN_PROGRESS = [CallStatus.COMPLETED, CallStatus.FAILED]"
| "CALL_TRANSITIONS CallStatus.COMPLETED = []"
| "CALL_TRANSITIONS CallStatus.BUSY = []"
| "CALL_TRANSITIONS CallStatus.NO_ANSWER = []"
| "CALL_TRANSITIONS CallStatus.FAILED = []"

definition assertValidCallTransition :: "CallStatus \<Rightarrow> CallStatus \<Rightarrow> unit res" where
  "assertValidCallTransition from to =
     assertTransition CALL_TRANSITIONS from to ''INVALID_CALL_TRANSITION''"

definition canTransitionCall :: "CallStatus \<Rightarrow> CallStatus \<Rightarrow> bool" where
  "canTransitionCall from to \<longleftrightarrow> to \<in> set (CALL_TRANSITIONS from)"

subsection \<open>\<^verbatim>\<open>payment/payment-state.machine.ts\<close>\<close>

datatype PaymentStatus = RECORDED | PROCESSING | SUCCEEDED | PARTIALLY_REFUNDED | FAILED | REFUNDED

fun PAYMENT_TRANSITIONS :: "PaymentStatus transition_map" where
  "PAYMENT_TRANSITIONS PaymentStatus.RECORDED =
     [PaymentStatus.PROCESSING,
      PaymentStatus.SUCCEEDED,
      PaymentStatus.FAILED]"
| "PAYMENT_TRANSITIONS PaymentStatus.PROCESSING = [PaymentStatus.SUCCEEDED, PaymentStatus.FAILED]"
| "PAYMENT_TRANSITIONS PaymentStatus.SUCCEEDED =
     [PaymentStatus.REFUNDED,
      PaymentStatus.PARTIALLY_REFUNDED]"
| "PAYMENT_TRANSITIONS PaymentStatus.PARTIALLY_REFUNDED =
     [PaymentStatus.REFUNDED,
      PaymentStatus.PARTIALLY_REFUNDED]"
| "PAYMENT_TRANSITIONS PaymentStatus.FAILED = []"
| "PAYMENT_TRANSITIONS PaymentStatus.REFUNDED = []"

definition assertValidPaymentTransition :: "PaymentStatus \<Rightarrow> PaymentStatus \<Rightarrow> unit res" where
  "assertValidPaymentTransition from to =
     assertTransition PAYMENT_TRANSITIONS from to ''INVALID_PAYMENT_TRANSITION''"

definition canTransitionPayment :: "PaymentStatus \<Rightarrow> PaymentStatus \<Rightarrow> bool" where
  "canTransitionPayment from to \<longleftrightarrow> to \<in> set (PAYMENT_TRANSITIONS from)"

subsection \<open>\<^verbatim>\<open>messaging/tx-sms-state.machine.ts\<close>\<close>

datatype TxSmsStatus = PENDING | QUEUED | SENT | DELIVERED | UNDELIVERED | FAILED

fun TX_SMS_TRANSITIONS :: "TxSmsStatus transition_map" where
  "TX_SMS_TRANSITIONS TxSmsStatus.PENDING = [TxSmsStatus.QUEUED, TxSmsStatus.FAILED]"
| "TX_SMS_TRANSITIONS TxSmsStatus.QUEUED = [TxSmsStatus.SENT, TxSmsStatus.FAILED]"
| "TX_SMS_TRANSITIONS TxSmsStatus.SENT =
     [TxSmsStatus.DELIVERED,
      TxSmsStatus.UNDELIVERED,
      TxSmsStatus.FAILED]"
| "TX_SMS_TRANSITIONS TxSmsStatus.DELIVERED = []"
| "TX_SMS_TRANSITIONS TxSmsStatus.UNDELIVERED = []"
| "TX_SMS_TRANSITIONS TxSmsStatus.FAILED = []"

definition assertValidTxSmsTransition :: "TxSmsStatus \<Rightarrow> TxSmsStatus \<Rightarrow> unit res" where
  "assertValidTxSmsTransition from to =
     assertTransition TX_SMS_TRANSITIONS from to ''INVALID_TX_SMS_TRANSITION''"

definition canTransitionTxSms :: "TxSmsStatus \<Rightarrow> TxSmsStatus \<Rightarrow> bool" where
  "canTransitionTxSms from to \<longleftrightarrow> to \<in> set (TX_SMS_TRANSITIONS from)"

subsection \<open>\<^verbatim>\<open>email/email-state.machine.ts\<close>\<close>

datatype EmailStatus = QUEUED | SENDING | SENT | DELIVERED | BOUNCED | FAILED

fun EMAIL_TRANSITIONS :: "EmailStatus transition_map" where
  "EMAIL_TRANSITIONS EmailStatus.QUEUED = [EmailStatus.SENDING, EmailStatus.FAILED]"
| "EMAIL_TRANSITIONS EmailStatus.SENDING = [EmailStatus.SENT, EmailStatus.FAILED]"
| "EMAIL_TRANSITIONS EmailStatus.SENT =
     [EmailStatus.DELIVERED,
      EmailStatus.BOUNCED,
      EmailStatus.FAILED]"
| "EMAIL_TRANSITIONS EmailStatus.DELIVERED = [EmailStatus.BOUNCED]"
| "EMAIL_TRANSITIONS EmailStatus.BOUNCED = []"
| "EMAIL_TRANSITIONS EmailStatus.FAILED = []"

definition assertValidEmailTransition :: "EmailStatus \<Rightarrow> EmailStatus \<Rightarrow> unit res" where
  "assertValidEmailTransition from to =
     assertTransition EMAIL_TRANSITIONS from to ''INVALID_EMAIL_TRANSITION''"

definition canTransitionEmail :: "EmailStatus \<Rightarrow> EmailStatus \<Rightarrow> bool" where
  "canTransitionEmail from to \<longleftrightarrow> to \<in> set (EMAIL_TRANSITIONS from)"

subsection \<open>\<^verbatim>\<open>actions/action-page-state.machine.ts\<close>\<close>

datatype ActionPageStatus = DRAFT | PUBLISHED | ARCHIVED

fun ACTION_PAGE_TRANSITIONS :: "ActionPageStatus transition_map" where
  "ACTION_PAGE_TRANSITIONS ActionPageStatus.DRAFT =
     [ActionPageStatus.PUBLISHED,
      ActionPageStatus.ARCHIVED]"
| "ACTION_PAGE_TRANSITIONS ActionPageStatus.PUBLISHED =
     [ActionPageStatus.DRAFT,
      ActionPageStatus.ARCHIVED]"
| "ACTION_PAGE_TRANSITIONS ActionPageStatus.ARCHIVED = [ActionPageStatus.DRAFT]"

definition assertValidActionPageTransition :: "ActionPageStatus \<Rightarrow> ActionPageStatus \<Rightarrow> unit res" where
  "assertValidActionPageTransition from to =
     assertTransition ACTION_PAGE_TRANSITIONS from to ''INVALID_ACTION_PAGE_TRANSITION''"

definition canTransitionActionPage :: "ActionPageStatus \<Rightarrow> ActionPageStatus \<Rightarrow> bool" where
  "canTransitionActionPage from to \<longleftrightarrow> to \<in> set (ACTION_PAGE_TRANSITIONS from)"

subsection \<open>\<^verbatim>\<open>autodialer/dialer-campaign-state.machine.ts\<close>\<close>

datatype DialerCampaignStatus = DRAFT | ACTIVE | PAUSED | COMPLETED | ARCHIVED

fun DIALER_CAMPAIGN_TRANSITIONS :: "DialerCampaignStatus transition_map" where
  "DIALER_CAMPAIGN_TRANSITIONS DialerCampaignStatus.DRAFT =
     [DialerCampaignStatus.ACTIVE,
      DialerCampaignStatus.ARCHIVED]"
| "DIALER_CAMPAIGN_TRANSITIONS DialerCampaignStatus.ACTIVE =
     [DialerCampaignStatus.PAUSED,
      DialerCampaignStatus.COMPLETED,
      DialerCampaignStatus.ARCHIVED]"
| "DIALER_CAMPAIGN_TRANSITIONS DialerCampaignStatus.PAUSED =
     [DialerCampaignStatus.ACTIVE,
      DialerCampaignStatus.COMPLETED,
      DialerCampaignStatus.ARCHIVED]"
| "DIALER_CAMPAIGN_TRANSITIONS DialerCampaignStatus.COMPLETED = [DialerCampaignStatus.ARCHIVED]"
| "DIALER_CAMPAIGN_TRANSITIONS DialerCampaignStatus.ARCHIVED = []"

definition assertValidDialerCampaignTransition :: "DialerCampaignStatus \<Rightarrow> DialerCampaignStatus \<Rightarrow> unit res" where
  "assertValidDialerCampaignTransition from to =
     assertTransition DIALER_CAMPAIGN_TRANSITIONS from to ''INVALID_DIALER_CAMPAIGN_TRANSITION''"

definition canTransitionDialerCampaign :: "DialerCampaignStatus \<Rightarrow> DialerCampaignStatus \<Rightarrow> bool" where
  "canTransitionDialerCampaign from to \<longleftrightarrow> to \<in> set (DIALER_CAMPAIGN_TRANSITIONS from)"

subsection \<open>\<^verbatim>\<open>blasts/blast-state.machine.ts\<close>\<close>

datatype BlastStatus = DRAFTED | PROOFED | SCHEDULED | SENDING | SENT | FAILED

fun blast_allowed :: "BlastStatus transition_map" where
  "blast_allowed BlastStatus.DRAFTED =
     [BlastStatus.PROOFED,
      BlastStatus.SCHEDULED,
      BlastStatus.SENDING,
      BlastStatus.FAILED]"
| "blast_allowed BlastStatus.PROOFED =
     [BlastStatus.SCHEDULED,
      BlastStatus.SENDING,
      BlastStatus.FAILED]"
| "blast_allowed BlastStatus.SCHEDULED = [BlastStatus.SENDING, BlastStatus.FAILED]"
| "blast_allowed BlastStatus.SENDING = [BlastStatus.SENT, BlastStatus.FAILED]"
| "blast_allowed BlastStatus.SENT = []"
| "blast_allowed BlastStatus.FAILED = [BlastStatus.SENDING]"

definition assertValidBlastTransition :: "BlastStatus \<Rightarrow> BlastStatus \<Rightarrow> unit res" where
  "assertValidBlastTransition from to =
     (if to \<notin> set (blast_allowed from)
      then Inl (apiHttpException ''INVALID_BLAST_TRANSITION'' (Some 409)) else Inr ())"

subsection \<open>\<^verbatim>\<open>canvassing/turf-assignment-state.machine.ts\<close>\<close>

datatype TurfAssignmentStatus = REQUESTED | ASSIGNED | RELEASED

fun TURF_ASSIGNMENT_TRANSITIONS :: "TurfAssignmentStatus transition_map" where
  "TURF_ASSIGNMENT_TRANSITIONS TurfAssignmentStatus.REQUESTED =
     [TurfAssignmentStatus.ASSIGNED,
      TurfAssignmentStatus.RELEASED]"
| "TURF_ASSIGNMENT_TRANSITIONS TurfAssignmentStatus.ASSIGNED = [TurfAssignmentStatus.RELEASED]"
| "TURF_ASSIGNMENT_TRANSITIONS TurfAssignmentStatus.RELEASED = []"

definition canTransitionTurfAssignment :: "TurfAssignmentStatus \<Rightarrow> TurfAssignmentStatus \<Rightarrow> bool" where
  "canTransitionTurfAssignment from to \<longleftrightarrow> to \<in> set (TURF_ASSIGNMENT_TRANSITIONS from)"

definition assertTurfAssignmentTransition :: "TurfAssignmentStatus \<Rightarrow> TurfAssignmentStatus \<Rightarrow> unit res" where
  "assertTurfAssignmentTransition from to =
     (if \<not> canTransitionTurfAssignment from to
      then Inl (apiHttpException ''INVALID_TURF_TRANSITION'' None) else Inr ())"

subsection \<open>\<^verbatim>\<open>canvassing/shift-assignment-state.machine.ts\<close>\<close>

datatype ShiftAssignmentStatus = REQUESTED | ASSIGNED | RELEASED

fun SHIFT_ASSIGNMENT_TRANSITIONS :: "ShiftAssignmentStatus transition_map" where
  "SHIFT_ASSIGNMENT_TRANSITIONS ShiftAssignmentStatus.REQUESTED =
     [ShiftAssignmentStatus.ASSIGNED,
      ShiftAssignmentStatus.RELEASED]"
| "SHIFT_ASSIGNMENT_TRANSITIONS ShiftAssignmentStatus.ASSIGNED = [ShiftAssignmentStatus.RELEASED]"
| "SHIFT_ASSIGNMENT_TRANSITIONS ShiftAssignmentStatus.RELEASED = []"

definition canTransitionShiftAssignment :: "ShiftAssignmentStatus \<Rightarrow> ShiftAssignmentStatus \<Rightarrow> bool" where
  "canTransitionShiftAssignment from to \<longleftrightarrow> to \<in> set (SHIFT_ASSIGNMENT_TRANSITIONS from)"

definition assertShiftAssignmentTransition :: "ShiftAssignmentStatus \<Rightarrow> ShiftAssignmentStatus \<Rightarrow> unit res" where
  "assertShiftAssignmentTransition from to =
     (if \<not> canTransitionShiftAssignment from to
      then Inl (apiHttpException ''INVALID_SHIFT_TRANSITION'' None) else Inr ())"

subsection \<open>\<^verbatim>\<open>integrations/integration-push-state.machine.ts\<close>\<close>

datatype IntegrationPushStatus = PENDING | SENDING | HELD | FAILED | SUCCEEDED | SKIPPED

fun PUSH_TRANSITIONS :: "IntegrationPushStatus transition_map" where
  "PUSH_TRANSITIONS IntegrationPushStatus.PENDING =
     [IntegrationPushStatus.SENDING,
      IntegrationPushStatus.SKIPPED,
      IntegrationPushStatus.HELD]"
| "PUSH_TRANSITIONS IntegrationPushStatus.SENDING =
     [IntegrationPushStatus.SUCCEEDED,
      IntegrationPushStatus.FAILED,
      IntegrationPushStatus.SKIPPED,
      IntegrationPushStatus.HELD,
      IntegrationPushStatus.PENDING]"
| "PUSH_TRANSITIONS IntegrationPushStatus.HELD =
     [IntegrationPushStatus.PENDING,
      IntegrationPushStatus.SKIPPED]"
| "PUSH_TRANSITIONS IntegrationPushStatus.FAILED = [IntegrationPushStatus.PENDING]"
| "PUSH_TRANSITIONS IntegrationPushStatus.SUCCEEDED = []"
| "PUSH_TRANSITIONS IntegrationPushStatus.SKIPPED = []"

definition canTransitionPushDelivery :: "IntegrationPushStatus \<Rightarrow> IntegrationPushStatus \<Rightarrow> bool" where
  "canTransitionPushDelivery from to \<longleftrightarrow> to \<in> set (PUSH_TRANSITIONS from)"

definition assertPushDeliveryTransition :: "IntegrationPushStatus \<Rightarrow> IntegrationPushStatus \<Rightarrow> unit res" where
  "assertPushDeliveryTransition from to =
     (if \<not> canTransitionPushDelivery from to
      then Inl (apiHttpException ''INVALID_PUSH_TRANSITION'' (Some 409)) else Inr ())"

subsection \<open>\<^verbatim>\<open>telephony/telephony-provisioning-state.machine.ts\<close>\<close>

datatype TelephonyProvisioningStatus = REQUESTED | SUBACCOUNT_CREATED | COMPLIANCE_DRAFT | COMPLIANCE_SUBMITTED | COMPLIANCE_APPROVED | COMPLIANCE_REJECTED | NUMBER_PURCHASED | WEBHOOKS_CONFIGURED | ACTIVE | FAILED

fun telephony_allowed :: "TelephonyProvisioningStatus transition_map" where
  "telephony_allowed TelephonyProvisioningStatus.REQUESTED =
     [TelephonyProvisioningStatus.SUBACCOUNT_CREATED,
      TelephonyProvisioningStatus.FAILED]"
| "telephony_allowed TelephonyProvisioningStatus.SUBACCOUNT_CREATED =
     [TelephonyProvisioningStatus.COMPLIANCE_DRAFT,
      TelephonyProvisioningStatus.FAILED]"
| "telephony_allowed TelephonyProvisioningStatus.COMPLIANCE_DRAFT =
     [TelephonyProvisioningStatus.COMPLIANCE_SUBMITTED,
      TelephonyProvisioningStatus.FAILED]"
| "telephony_allowed TelephonyProvisioningStatus.COMPLIANCE_SUBMITTED =
     [TelephonyProvisioningStatus.COMPLIANCE_APPROVED,
      TelephonyProvisioningStatus.COMPLIANCE_REJECTED,
      TelephonyProvisioningStatus.FAILED]"
| "telephony_allowed TelephonyProvisioningStatus.COMPLIANCE_APPROVED =
     [TelephonyProvisioningStatus.NUMBER_PURCHASED,
      TelephonyProvisioningStatus.FAILED]"
| "telephony_allowed TelephonyProvisioningStatus.COMPLIANCE_REJECTED =
     [TelephonyProvisioningStatus.COMPLIANCE_DRAFT,
      TelephonyProvisioningStatus.FAILED]"
| "telephony_allowed TelephonyProvisioningStatus.NUMBER_PURCHASED =
     [TelephonyProvisioningStatus.WEBHOOKS_CONFIGURED,
      TelephonyProvisioningStatus.FAILED]"
| "telephony_allowed TelephonyProvisioningStatus.WEBHOOKS_CONFIGURED =
     [TelephonyProvisioningStatus.ACTIVE,
      TelephonyProvisioningStatus.FAILED]"
| "telephony_allowed TelephonyProvisioningStatus.ACTIVE = []"
| "telephony_allowed TelephonyProvisioningStatus.FAILED =
     [TelephonyProvisioningStatus.REQUESTED,
      TelephonyProvisioningStatus.SUBACCOUNT_CREATED,
      TelephonyProvisioningStatus.COMPLIANCE_DRAFT,
      TelephonyProvisioningStatus.COMPLIANCE_SUBMITTED,
      TelephonyProvisioningStatus.COMPLIANCE_APPROVED,
      TelephonyProvisioningStatus.COMPLIANCE_REJECTED,
      TelephonyProvisioningStatus.NUMBER_PURCHASED,
      TelephonyProvisioningStatus.WEBHOOKS_CONFIGURED]"

definition canTransitionProvisioning :: "TelephonyProvisioningStatus \<Rightarrow> TelephonyProvisioningStatus \<Rightarrow> bool" where
  "canTransitionProvisioning from to \<longleftrightarrow> to \<in> set (telephony_allowed from)"

definition assertValidProvisioningTransition :: "TelephonyProvisioningStatus \<Rightarrow> TelephonyProvisioningStatus \<Rightarrow> unit res" where
  "assertValidProvisioningTransition from to =
     (if to \<notin> set (telephony_allowed from)
      then Inl (apiHttpException ''INVALID_PROVISIONING_TRANSITION'' (Some 409)) else Inr ())"

subsection \<open>\<^verbatim>\<open>email/email-provisioning-state.machine.ts\<close>\<close>

datatype EmailProvisioningStatus = REQUESTED | SUBUSER_CREATED | DOMAIN_AUTH_CREATED | DNS_CONFIGURED | VALIDATION_FAILED | DOMAIN_VERIFIED | WEBHOOKS_CONFIGURED | ACTIVE | FAILED

fun email_provisioning_allowed :: "EmailProvisioningStatus transition_map" where
  "email_provisioning_allowed EmailProvisioningStatus.REQUESTED =
     [EmailProvisioningStatus.SUBUSER_CREATED,
      EmailProvisioningStatus.FAILED]"
| "email_provisioning_allowed EmailProvisioningStatus.SUBUSER_CREATED =
     [EmailProvisioningStatus.DOMAIN_AUTH_CREATED,
      EmailProvisioningStatus.DOMAIN_VERIFIED,
      EmailProvisioningStatus.FAILED]"
| "email_provisioning_allowed EmailProvisioningStatus.DOMAIN_AUTH_CREATED =
     [EmailProvisioningStatus.DNS_CONFIGURED,
      EmailProvisioningStatus.FAILED]"
| "email_provisioning_allowed EmailProvisioningStatus.DNS_CONFIGURED =
     [EmailProvisioningStatus.DOMAIN_VERIFIED,
      EmailProvisioningStatus.VALIDATION_FAILED,
      EmailProvisioningStatus.FAILED]"
| "email_provisioning_allowed EmailProvisioningStatus.VALIDATION_FAILED =
     [EmailProvisioningStatus.DOMAIN_VERIFIED,
      EmailProvisioningStatus.DNS_CONFIGURED,
      EmailProvisioningStatus.FAILED]"
| "email_provisioning_allowed EmailProvisioningStatus.DOMAIN_VERIFIED =
     [EmailProvisioningStatus.WEBHOOKS_CONFIGURED,
      EmailProvisioningStatus.FAILED]"
| "email_provisioning_allowed EmailProvisioningStatus.WEBHOOKS_CONFIGURED =
     [EmailProvisioningStatus.ACTIVE,
      EmailProvisioningStatus.FAILED]"
| "email_provisioning_allowed EmailProvisioningStatus.ACTIVE = []"
| "email_provisioning_allowed EmailProvisioningStatus.FAILED =
     [EmailProvisioningStatus.REQUESTED,
      EmailProvisioningStatus.SUBUSER_CREATED,
      EmailProvisioningStatus.DOMAIN_AUTH_CREATED,
      EmailProvisioningStatus.DNS_CONFIGURED,
      EmailProvisioningStatus.VALIDATION_FAILED,
      EmailProvisioningStatus.DOMAIN_VERIFIED,
      EmailProvisioningStatus.WEBHOOKS_CONFIGURED]"

definition canTransitionEmailProvisioning :: "EmailProvisioningStatus \<Rightarrow> EmailProvisioningStatus \<Rightarrow> bool" where
  "canTransitionEmailProvisioning from to \<longleftrightarrow> to \<in> set (email_provisioning_allowed from)"

definition assertValidEmailProvisioningTransition :: "EmailProvisioningStatus \<Rightarrow> EmailProvisioningStatus \<Rightarrow> unit res" where
  "assertValidEmailProvisioningTransition from to =
     (if to \<notin> set (email_provisioning_allowed from)
      then Inl (apiHttpException ''INVALID_EMAIL_PROVISIONING_TRANSITION'' (Some 409)) else Inr ())"

subsection \<open>\<^verbatim>\<open>email/email-setup-request-state.machine.ts\<close>\<close>

datatype EmailProvisioningRequestStatus = OPEN | FULFILLED | DECLINED | WITHDRAWN

fun email_request_allowed :: "EmailProvisioningRequestStatus transition_map" where
  "email_request_allowed EmailProvisioningRequestStatus.OPEN =
     [EmailProvisioningRequestStatus.FULFILLED,
      EmailProvisioningRequestStatus.DECLINED,
      EmailProvisioningRequestStatus.WITHDRAWN]"
| "email_request_allowed EmailProvisioningRequestStatus.FULFILLED = []"
| "email_request_allowed EmailProvisioningRequestStatus.DECLINED = []"
| "email_request_allowed EmailProvisioningRequestStatus.WITHDRAWN = []"

definition assertValidEmailSetupRequestTransition :: "EmailProvisioningRequestStatus \<Rightarrow> EmailProvisioningRequestStatus \<Rightarrow> unit res" where
  "assertValidEmailSetupRequestTransition from to =
     (if to \<notin> set (email_request_allowed from)
      then Inl (apiHttpException ''INVALID_REQUEST_TRANSITION'' (Some 409)) else Inr ())"

section \<open>Twilio's call status vocabulary\<close>

definition mapTwilioCallStatus :: "string \<Rightarrow> CallStatus option" where
  "mapTwilioCallStatus raw =
     (if raw = ''ringing'' then Some CallStatus.RINGING
      else if raw = ''in-progress'' then Some CallStatus.IN_PROGRESS
      else if raw = ''completed'' then Some CallStatus.COMPLETED
      else if raw = ''busy'' then Some CallStatus.BUSY
      else if raw = ''no-answer'' then Some CallStatus.NO_ANSWER
      else if raw \<in> {''failed'', ''canceled''} then Some CallStatus.FAILED
      else None)"

section \<open>The machines provide the interface\<close>

definition call_rank :: "CallStatus \<Rightarrow> nat" where
  "call_rank s = (case s of CallStatus.INITIATED \<Rightarrow> 3 | CallStatus.RINGING \<Rightarrow> 2
     | CallStatus.IN_PROGRESS \<Rightarrow> 1 | _ \<Rightarrow> 0)"

definition tx_sms_rank :: "TxSmsStatus \<Rightarrow> nat" where
  "tx_sms_rank s = (case s of TxSmsStatus.PENDING \<Rightarrow> 3 | TxSmsStatus.QUEUED \<Rightarrow> 2
     | TxSmsStatus.SENT \<Rightarrow> 1 | _ \<Rightarrow> 0)"

definition email_rank :: "EmailStatus \<Rightarrow> nat" where
  "email_rank s = (case s of EmailStatus.QUEUED \<Rightarrow> 4 | EmailStatus.SENDING \<Rightarrow> 3
     | EmailStatus.SENT \<Rightarrow> 2 | EmailStatus.DELIVERED \<Rightarrow> 1 | _ \<Rightarrow> 0)"

definition turf_rank :: "TurfAssignmentStatus \<Rightarrow> nat" where
  "turf_rank s = (case s of TurfAssignmentStatus.REQUESTED \<Rightarrow> 2 | TurfAssignmentStatus.ASSIGNED \<Rightarrow> 1
     | TurfAssignmentStatus.RELEASED \<Rightarrow> 0)"

definition shift_rank :: "ShiftAssignmentStatus \<Rightarrow> nat" where
  "shift_rank s = (case s of ShiftAssignmentStatus.REQUESTED \<Rightarrow> 2 | ShiftAssignmentStatus.ASSIGNED \<Rightarrow> 1
     | ShiftAssignmentStatus.RELEASED \<Rightarrow> 0)"

definition email_request_rank :: "EmailProvisioningRequestStatus \<Rightarrow> nat" where
  "email_request_rank s = (case s of EmailProvisioningRequestStatus.OPEN \<Rightarrow> 1 | _ \<Rightarrow> 0)"

lemma call_rank_edge: "b \<in> set (CALL_TRANSITIONS a) \<Longrightarrow> call_rank b < call_rank a"
  by (cases a) (auto simp: call_rank_def)

lemma tx_sms_rank_edge: "b \<in> set (TX_SMS_TRANSITIONS a) \<Longrightarrow> tx_sms_rank b < tx_sms_rank a"
  by (cases a) (auto simp: tx_sms_rank_def)

lemma email_rank_edge: "b \<in> set (EMAIL_TRANSITIONS a) \<Longrightarrow> email_rank b < email_rank a"
  by (cases a) (auto simp: email_rank_def)

lemma turf_rank_edge: "b \<in> set (TURF_ASSIGNMENT_TRANSITIONS a) \<Longrightarrow> turf_rank b < turf_rank a"
  by (cases a) (auto simp: turf_rank_def)

lemma shift_rank_edge: "b \<in> set (SHIFT_ASSIGNMENT_TRANSITIONS a) \<Longrightarrow> shift_rank b < shift_rank a"
  by (cases a) (auto simp: shift_rank_def)

lemma email_request_rank_edge: "b \<in> set (email_request_allowed a) \<Longrightarrow> email_request_rank b < email_request_rank a"
  by (cases a) (auto simp: email_request_rank_def)

interpretation call_fsm: ranked_machine CALL_TRANSITIONS assertValidCallTransition canTransitionCall call_rank
  by unfold_locales
    (auto simp: assertValidCallTransition_def canTransitionCall_def intro: call_rank_edge)

interpretation payment_fsm: status_machine PAYMENT_TRANSITIONS assertValidPaymentTransition canTransitionPayment
  by unfold_locales (auto simp: assertValidPaymentTransition_def canTransitionPayment_def)

interpretation tx_sms_fsm: ranked_machine TX_SMS_TRANSITIONS assertValidTxSmsTransition canTransitionTxSms tx_sms_rank
  by unfold_locales
    (auto simp: assertValidTxSmsTransition_def canTransitionTxSms_def intro: tx_sms_rank_edge)

interpretation email_fsm: ranked_machine EMAIL_TRANSITIONS assertValidEmailTransition canTransitionEmail email_rank
  by unfold_locales
    (auto simp: assertValidEmailTransition_def canTransitionEmail_def intro: email_rank_edge)

interpretation action_page_fsm: status_machine ACTION_PAGE_TRANSITIONS assertValidActionPageTransition canTransitionActionPage
  by unfold_locales (auto simp: assertValidActionPageTransition_def canTransitionActionPage_def)

interpretation dialer_fsm: status_machine DIALER_CAMPAIGN_TRANSITIONS assertValidDialerCampaignTransition canTransitionDialerCampaign
  by unfold_locales (auto simp: assertValidDialerCampaignTransition_def canTransitionDialerCampaign_def)

interpretation blast_fsm: status_machine blast_allowed assertValidBlastTransition
    "\<lambda>a b. is_ok (assertValidBlastTransition a b)"
  by unfold_locales (auto simp: assertValidBlastTransition_def)

interpretation turf_fsm: ranked_machine TURF_ASSIGNMENT_TRANSITIONS assertTurfAssignmentTransition
    canTransitionTurfAssignment turf_rank
  by unfold_locales
    (auto simp: assertTurfAssignmentTransition_def canTransitionTurfAssignment_def intro: turf_rank_edge)

interpretation shift_fsm: ranked_machine SHIFT_ASSIGNMENT_TRANSITIONS assertShiftAssignmentTransition
    canTransitionShiftAssignment shift_rank
  by unfold_locales
    (auto simp: assertShiftAssignmentTransition_def canTransitionShiftAssignment_def intro: shift_rank_edge)

interpretation push_fsm: status_machine PUSH_TRANSITIONS assertPushDeliveryTransition canTransitionPushDelivery
  by unfold_locales (auto simp: assertPushDeliveryTransition_def canTransitionPushDelivery_def)

interpretation telephony_fsm: status_machine telephony_allowed assertValidProvisioningTransition canTransitionProvisioning
  by unfold_locales (auto simp: assertValidProvisioningTransition_def canTransitionProvisioning_def)

interpretation email_provisioning_fsm: status_machine email_provisioning_allowed
    assertValidEmailProvisioningTransition canTransitionEmailProvisioning
  by unfold_locales
    (auto simp: assertValidEmailProvisioningTransition_def canTransitionEmailProvisioning_def)

interpretation email_request_fsm: ranked_machine email_request_allowed assertValidEmailSetupRequestTransition
    "\<lambda>a b. is_ok (assertValidEmailSetupRequestTransition a b)" email_request_rank
  by unfold_locales
    (auto simp: assertValidEmailSetupRequestTransition_def intro: email_request_rank_edge)

section \<open>What the tables enforce\<close>

lemma telephony_gate_edges:
  assumes "b \<in> set (telephony_allowed a)"
    and "b \<in> {TelephonyProvisioningStatus.NUMBER_PURCHASED,
       TelephonyProvisioningStatus.WEBHOOKS_CONFIGURED, TelephonyProvisioningStatus.ACTIVE}"
    and "a \<notin> {TelephonyProvisioningStatus.NUMBER_PURCHASED,
       TelephonyProvisioningStatus.WEBHOOKS_CONFIGURED, TelephonyProvisioningStatus.ACTIVE}"
  shows "a \<in> {TelephonyProvisioningStatus.FAILED} \<or> a = TelephonyProvisioningStatus.COMPLIANCE_APPROVED"
  using assms by (cases a) auto

lemma payment_gate_edges:
  assumes "b \<in> set (PAYMENT_TRANSITIONS a)"
    and "b \<in> {PaymentStatus.PARTIALLY_REFUNDED, PaymentStatus.REFUNDED}"
    and "a \<notin> {PaymentStatus.PARTIALLY_REFUNDED, PaymentStatus.REFUNDED}"
  shows "a \<in> {} \<or> a = PaymentStatus.SUCCEEDED"
  using assms by (cases a) auto

text \<open>A call's recorded states never repeat, and whatever status events arrive, at most three of
  them are accepted after any state.\<close>

lemma call_history_bounded:
  assumes "run_guarded assertValidCallTransition s ts = Inr u"
  shows "distinct (s # ts) \<and> length ts \<le> 3"
  using call_fsm.guarded_distinct [OF assms] call_fsm.guarded_length [OF assms]
  by (auto simp: call_rank_def split: CallStatus.splits)

lemma call_history_bounded_witness:
  "distinct [CallStatus.INITIATED, CallStatus.RINGING, CallStatus.IN_PROGRESS, CallStatus.COMPLETED]"
  using call_history_bounded [of CallStatus.INITIATED "[CallStatus.RINGING, CallStatus.IN_PROGRESS, CallStatus.COMPLETED]"
      CallStatus.COMPLETED]
  by (simp add: assertValidCallTransition_def)

text \<open>A telephony provisioning that becomes active without ever failing has passed through
  compliance approval.\<close>

lemma telephony_active_approved:
  assumes "run_guarded assertValidProvisioningTransition TelephonyProvisioningStatus.REQUESTED ts =
      Inr TelephonyProvisioningStatus.ACTIVE"
    and "TelephonyProvisioningStatus.FAILED \<notin> set ts"
  shows "TelephonyProvisioningStatus.COMPLIANCE_APPROVED \<in> set ts"
proof -
  have "fsm_path telephony_allowed TelephonyProvisioningStatus.REQUESTED ts TelephonyProvisioningStatus.ACTIVE"
    using assms(1) by (simp add: telephony_fsm.guarded_path)
  then have "TelephonyProvisioningStatus.COMPLIANCE_APPROVED \<in> set (TelephonyProvisioningStatus.REQUESTED # ts)"
    by (rule fsm_path_gate [where R = "{TelephonyProvisioningStatus.NUMBER_PURCHASED,
          TelephonyProvisioningStatus.WEBHOOKS_CONFIGURED, TelephonyProvisioningStatus.ACTIVE}"
        and avoid = "{TelephonyProvisioningStatus.FAILED}", rotated])
      (use assms(2) telephony_gate_edges in auto)
  then show ?thesis by simp
qed

lemma telephony_active_approved_witness:
  "TelephonyProvisioningStatus.COMPLIANCE_APPROVED \<in> set [TelephonyProvisioningStatus.SUBACCOUNT_CREATED,
     TelephonyProvisioningStatus.COMPLIANCE_DRAFT, TelephonyProvisioningStatus.COMPLIANCE_SUBMITTED,
     TelephonyProvisioningStatus.COMPLIANCE_APPROVED, TelephonyProvisioningStatus.NUMBER_PURCHASED,
     TelephonyProvisioningStatus.WEBHOOKS_CONFIGURED, TelephonyProvisioningStatus.ACTIVE]"
  by (rule telephony_active_approved) (simp_all add: assertValidProvisioningTransition_def)

end
