(* ===== verification/Js_Values.thy ===== *)
theory Js_Values
  imports Complex_Main Uprise_Prelude
begin

text \<open>
  The values that cross the untrusted boundary as \<open>unknown\<close>: JSON as \<open>JSON.parse\<close> yields
  it. Numbers are the finite doubles, kept as rationals (no arithmetic is done on them); an
  object is the list of its own enumerable properties in insertion order. \<open>jget\<close> reads a
  property, \<open>None\<close> standing for \<open>undefined\<close>.
\<close>

datatype json =
    JNull
  | JBool bool
  | JNum rat
  | JStr string
  | JArr "json list"
  | JObj "(string \<times> json) list"

fun jget :: "json \<Rightarrow> string \<Rightarrow> json option" where
  "jget (JObj kvs) k = map_of kvs k"
| "jget j k = None"

fun is_jobj :: "json \<Rightarrow> bool" where
  "is_jobj (JObj kvs) = True"
| "is_jobj j = False"

fun is_jarr :: "json \<Rightarrow> bool" where
  "is_jarr (JArr xs) = True"
| "is_jarr j = False"

text \<open>\<open>typeof v === "object" \<and> v !== null\<close>, which arrays satisfy too.\<close>

definition is_object :: "json \<Rightarrow> bool" where
  "is_object j \<longleftrightarrow> is_jobj j \<or> is_jarr j"

fun jstring :: "json option \<Rightarrow> string option" where
  "jstring (Some (JStr s)) = Some s"
| "jstring v = None"

lemma jstring_Some [simp]: "jstring v = Some s \<longleftrightarrow> v = Some (JStr s)"
  by (cases v rule: jstring.cases) auto

lemma size_json_child [termination_simp]:
  "x \<in> set xs \<Longrightarrow> size x < Suc (size_list size xs)"
  by (induction xs) auto

lemma map_of_size: "map_of kvs k = Some v \<Longrightarrow> size v < Suc (size_list (size_prod (\<lambda>x. 0) size) kvs)"
  by (induction kvs) (auto split: if_splits)

section \<open>Conversions\<close>

text \<open>
  \<open>js_numString\<close> is \<open>String(n)\<close> of a number, \<open>js_toNumber\<close> is \<open>Number(v)\<close> of a value
  that is not a number (\<open>None\<close> is \<open>NaN\<close>).
\<close>

record JsEnv =
  js_numString :: "rat \<Rightarrow> string"
  js_toNumber :: "json \<Rightarrow> rat option"

fun join_strings :: "string \<Rightarrow> string list \<Rightarrow> string" where
  "join_strings sep [] = []"
| "join_strings sep [s] = s"
| "join_strings sep (s # ss) = s @ sep @ join_strings sep ss"

fun js_String :: "JsEnv \<Rightarrow> json \<Rightarrow> string" where
  "js_String lg JNull = ''null''"
| "js_String lg (JBool b) = (if b then ''true'' else ''false'')"
| "js_String lg (JNum q) = js_numString lg q"
| "js_String lg (JStr s) = s"
| "js_String lg (JArr xs) =
     join_strings '','' (map (\<lambda>x. if x = JNull then [] else js_String lg x) xs)"
| "js_String lg (JObj kvs) = ''[object Object]''"

text \<open>\<open>String(v ?? d)\<close> and \<open>Number(v ?? 0)\<close>\<close>

definition stringOr :: "JsEnv \<Rightarrow> json option \<Rightarrow> string \<Rightarrow> string" where
  "stringOr lg v d = (case v of None \<Rightarrow> d | Some j \<Rightarrow> if j = JNull then d else js_String lg j)"

fun js_Number :: "JsEnv \<Rightarrow> json \<Rightarrow> rat option" where
  "js_Number lg (JNum q) = Some q"
| "js_Number lg j = js_toNumber lg j"

definition numberOr :: "JsEnv \<Rightarrow> json option \<Rightarrow> rat option" where
  "numberOr lg v = (case v of None \<Rightarrow> Some 0 | Some j \<Rightarrow> if j = JNull then Some 0 else js_Number lg j)"

text \<open>\<open>Boolean(v)\<close>\<close>

fun js_truthy :: "json option \<Rightarrow> bool" where
  "js_truthy None \<longleftrightarrow> False"
| "js_truthy (Some JNull) \<longleftrightarrow> False"
| "js_truthy (Some (JBool b)) \<longleftrightarrow> b"
| "js_truthy (Some (JNum q)) \<longleftrightarrow> q \<noteq> 0"
| "js_truthy (Some (JStr s)) \<longleftrightarrow> s \<noteq> []"
| "js_truthy (Some j) \<longleftrightarrow> True"

text \<open>\<open>a ?? b\<close>\<close>

definition js_or :: "json option \<Rightarrow> json option \<Rightarrow> json option" where
  "js_or a b = (case a of None \<Rightarrow> b | Some j \<Rightarrow> if j = JNull then b else a)"

definition js_is_integer :: "rat option \<Rightarrow> bool" where
  "js_is_integer n = (case n of None \<Rightarrow> False | Some q \<Rightarrow> of_int \<lfloor>q\<rfloor> = q)"

text \<open>\<open>Math.trunc\<close>\<close>

definition js_trunc :: "rat \<Rightarrow> int" where
  "js_trunc q = (if q < 0 then \<lceil>q\<rceil> else \<lfloor>q\<rfloor>)"

text \<open>An environment for concrete evaluations.\<close>

definition sample_js :: JsEnv where
  "sample_js = \<lparr>js_numString = (\<lambda>q. []), js_toNumber = (\<lambda>j. None)\<rparr>"

end
