(* ===== verification/Zod_Schema.thy ===== *)
theory Zod_Schema
  imports Js_Values
begin

text \<open>
  The schema language of the third-party package \<open>zod\<close>, as far as
  \<^verbatim>\<open>packages/segmentation\<close> uses it. The schemas of the sources are values of \<open>zschema\<close>,
  written combinator for combinator. The parser itself is not under \<^verbatim>\<open>src/\<close>: it is a parameter
  \<open>safeParse\<close>, and the locale \<open>zod_parser\<close> states its documented behaviour, one law per
  combinator. \<open>dateParse\<close> stands for the test \<open>!Number.isNaN(Date.parse(s))\<close> inside the one
  \<open>.refine\<close>. None of the schemas transforms its input, so success is all a caller observes.

  The laws determine the parser: \<open>zparse\<close> is the parser they describe, \<open>safeParse_eq\<close> says
  that any parser with the documented behaviour is that one, and the interpretation shows that
  the laws can hold.
\<close>

datatype znum_check = ZInt | ZPositive | ZFinite | ZMin rat | ZMax rat

datatype zschema =
    ZLitStr string
  | ZLitNum rat
  | ZEnum "string list"
  | ZString "nat option" "nat option"
  | ZDateString "nat option" "nat option"
  | ZNumber "znum_check list"
  | ZBoolean
  | ZArray zschema "nat option" "nat option"
  | ZObject bool "(string \<times> bool \<times> zschema) list"
  | ZUnion "zschema list"

text \<open>
  \<open>ZObject strict fields\<close>: each field with its name, whether it is \<open>.optional()\<close>, and its
  schema; \<open>strict\<close> refuses unknown keys, otherwise they pass through.
\<close>

fun within_len :: "nat option \<Rightarrow> nat option \<Rightarrow> nat \<Rightarrow> bool" where
  "within_len lo hi n \<longleftrightarrow>
     (case lo of None \<Rightarrow> True | Some l \<Rightarrow> l \<le> n) \<and> (case hi of None \<Rightarrow> True | Some h \<Rightarrow> n \<le> h)"

fun num_check :: "znum_check \<Rightarrow> rat \<Rightarrow> bool" where
  "num_check ZInt q \<longleftrightarrow> of_int (floor q) = q"
| "num_check ZPositive q \<longleftrightarrow> 0 < q"
| "num_check ZFinite q \<longleftrightarrow> True"
| "num_check (ZMin m) q \<longleftrightarrow> m \<le> q"
| "num_check (ZMax m) q \<longleftrightarrow> q \<le> m"

definition known_keys :: "(string \<times> bool \<times> zschema) list \<Rightarrow> (string \<times> json) list \<Rightarrow> bool" where
  "known_keys fs kvs \<longleftrightarrow> (\<forall>k\<in>set (map fst kvs). k \<in> set (map fst fs))"

function zparse :: "(string \<Rightarrow> bool) \<Rightarrow> zschema \<Rightarrow> json \<Rightarrow> bool" where
  "zparse dp (ZLitStr s) j \<longleftrightarrow> j = JStr s"
| "zparse dp (ZLitNum q) j \<longleftrightarrow> j = JNum q"
| "zparse dp (ZEnum ss) j \<longleftrightarrow> (case j of JStr s \<Rightarrow> s \<in> set ss | _ \<Rightarrow> False)"
| "zparse dp (ZString lo hi) j \<longleftrightarrow> (case j of JStr s \<Rightarrow> within_len lo hi (length s) | _ \<Rightarrow> False)"
| "zparse dp (ZDateString lo hi) j \<longleftrightarrow>
     (case j of JStr s \<Rightarrow> within_len lo hi (length s) \<and> dp s | _ \<Rightarrow> False)"
| "zparse dp (ZNumber cs) j \<longleftrightarrow> (case j of JNum q \<Rightarrow> list_all (\<lambda>c. num_check c q) cs | _ \<Rightarrow> False)"
| "zparse dp ZBoolean j \<longleftrightarrow> (case j of JBool b \<Rightarrow> True | _ \<Rightarrow> False)"
| "zparse dp (ZArray z lo hi) j \<longleftrightarrow>
     (case j of JArr xs \<Rightarrow> within_len lo hi (length xs) \<and> list_all (zparse dp z) xs | _ \<Rightarrow> False)"
| "zparse dp (ZObject strict fs) j \<longleftrightarrow>
     (case j of
        JObj kvs \<Rightarrow>
          list_all (\<lambda>f. case map_of kvs (fst f) of
                          None \<Rightarrow> fst (snd f) | Some v \<Rightarrow> zparse dp (snd (snd f)) v) fs \<and>
          (strict \<longrightarrow> known_keys fs kvs)
      | _ \<Rightarrow> False)"
| "zparse dp (ZUnion zs) j \<longleftrightarrow> list_ex (\<lambda>z. zparse dp z j) zs"
  by pat_completeness auto

lemma size_field: "f \<in> set fs \<Longrightarrow> size (snd (snd f)) < Suc (size_list (size_prod (\<lambda>x. 0) (size_prod (\<lambda>x. 0) size)) fs)"
  by (induction fs) auto

termination zparse
  by (relation "measure (\<lambda>(dp, z, j). size z)") (auto simp: size_json_child dest: size_field)

declare zparse.simps [simp]

locale zod_parser =
  fixes safeParse :: "zschema \<Rightarrow> json \<Rightarrow> bool" and dateParse :: "string \<Rightarrow> bool"
  assumes parse_lit_str: "safeParse (ZLitStr s) j \<longleftrightarrow> j = JStr s"
    and parse_lit_num: "safeParse (ZLitNum q) j \<longleftrightarrow> j = JNum q"
    and parse_enum: "safeParse (ZEnum ss) j \<longleftrightarrow> (\<exists>s. j = JStr s \<and> s \<in> set ss)"
    and parse_string: "safeParse (ZString lo hi) j \<longleftrightarrow> (\<exists>s. j = JStr s \<and> within_len lo hi (length s))"
    and parse_date: "safeParse (ZDateString lo hi) j \<longleftrightarrow>
          (\<exists>s. j = JStr s \<and> within_len lo hi (length s) \<and> dateParse s)"
    and parse_number: "safeParse (ZNumber cs) j \<longleftrightarrow> (\<exists>q. j = JNum q \<and> (\<forall>c\<in>set cs. num_check c q))"
    and parse_boolean: "safeParse ZBoolean j \<longleftrightarrow> (\<exists>b. j = JBool b)"
    and parse_array: "safeParse (ZArray z lo hi) j \<longleftrightarrow>
          (\<exists>xs. j = JArr xs \<and> within_len lo hi (length xs) \<and> (\<forall>x\<in>set xs. safeParse z x))"
    and parse_object: "safeParse (ZObject strict fs) j \<longleftrightarrow>
          (\<exists>kvs. j = JObj kvs \<and>
             (\<forall>f\<in>set fs. case map_of kvs (fst f) of
                None \<Rightarrow> fst (snd f) | Some v \<Rightarrow> safeParse (snd (snd f)) v) \<and>
             (strict \<longrightarrow> known_keys fs kvs))"
    and parse_union: "safeParse (ZUnion zs) j \<longleftrightarrow> (\<exists>z\<in>set zs. safeParse z j)"
begin

lemma safeParse_eq: "safeParse z j = zparse dateParse z j"
proof (induction z arbitrary: j rule: measure_induct_rule [where f = size])
  case (less z)
  show ?case
  proof (cases z)
    case (ZArray z' lo hi)
    then have "safeParse z' x = zparse dateParse z' x" for x using less by simp
    then show ?thesis
      by (cases j) (simp_all add: ZArray parse_array list_all_iff)
  next
    case (ZObject strict fs)
    have IH: "safeParse (snd (snd f)) x = zparse dateParse (snd (snd f)) x" if "f \<in> set fs" for f x
      using size_field [OF that] less [of "snd (snd f)" x] by (simp add: ZObject)
    show ?thesis
    proof (cases j)
      case (JObj kvs)
      have "(\<forall>f\<in>set fs. case map_of kvs (fst f) of None \<Rightarrow> fst (snd f) | Some v \<Rightarrow> safeParse (snd (snd f)) v)
        \<longleftrightarrow> (\<forall>f\<in>set fs. case map_of kvs (fst f) of None \<Rightarrow> fst (snd f)
               | Some v \<Rightarrow> zparse dateParse (snd (snd f)) v)"
        by (intro ball_cong refl) (auto simp: IH split: option.splits)
      then show ?thesis by (simp add: ZObject JObj parse_object list_all_iff)
    qed (simp_all add: ZObject parse_object)
  next
    case (ZUnion zs)
    have "safeParse z' j = zparse dateParse z' j" if "z' \<in> set zs" for z'
      using size_json_child less that by (simp add: ZUnion size_list_estimation' less_Suc_eq_le)
    then show ?thesis by (simp add: ZUnion parse_union list_ex_iff)
  qed (cases j; simp add: parse_lit_str parse_lit_num parse_enum parse_string parse_date
        parse_number parse_boolean list_all_iff)+
qed

lemma safeParse_fun: "safeParse = zparse dateParse"
  by (rule ext)+ (rule safeParse_eq)

end

interpretation zod_reference: zod_parser "zparse dp" dp for dp
  by unfold_locales
    (auto simp: list_all_iff list_ex_iff split: json.splits)

section \<open>Facts about the combinators\<close>

lemma zparse_union_Cons: "zparse dp (ZUnion (z # zs)) j \<longleftrightarrow> zparse dp z j \<or> zparse dp (ZUnion zs) j"
  by simp

lemma num_check_int_iff: "num_check ZInt q \<longleftrightarrow> (\<exists>i. q = of_int i)"
  by (auto simp: floor_of_int intro: sym)

end
