(* ===== verification/Seg_Conditions.thy ===== *)
theory Seg_Conditions
  imports Zod_Schema
begin

text \<open>
  The closed vocabulary of the segment engine,
  \<^verbatim>\<open>packages/segmentation/src/definition/types/condition.types.ts\<close> and
  \<^verbatim>\<open>condition-layer.ts\<close>, with its runtime authority \<^verbatim>\<open>validation/condition.schema.ts\<close>.
  \<open>condition\<close> is the discriminated union, \<open>condition_json\<close> the object a member is at run
  time, \<open>ConditionSchema\<close> the schema of the source. \<open>wf_condition\<close> states the operand bounds;
  the lemmas show that the schema accepts exactly the well-formed members of the union.
\<close>

section \<open>The union\<close>

datatype bool_op = Is | IsNot
datatype in_op = In | NotIn
datatype string_op = Eq | Contains
datatype date_operand = Within rat | Before string | After string | Between string string

datatype enum_type =
    ContactState | ContactLocality | ContactTurf | ContactSupportLevel
  | TagTagged | ConsentSms | ConsentWhatsapp | SourceSystem
  | CanvassDispositionCode

datatype bool_type = ContactHasEmail | ContactHasPhone | ContactConsented

datatype date_type =
    ContactCreatedAt
  | ActivityLastActiveWithin | CanvassDoorKnockedAt | EmailOpenedAt | EmailClickedAt

datatype GeoAreaType = Ced | Sed | SedLower | SedUpper | Lga | Ward | Sa1 | Sa2 | Sa3 | Sa4
datatype PollThresholdOp = Gt | Ge | Lt | Le | EqOp
datatype ComplianceChannel = SMS | WHATSAPP

datatype condition =
    EnumCondition enum_type in_op "string list"
  | BoolCondition bool_type bool_op bool
  | EmailDomainCondition string_op string
  | DateCondition date_type date_operand
  | PostcodeSetCondition in_op "string list"
  | PostcodeEqCondition string
  | SurveyRespondedCondition bool_op string
  | SurveyAnsweredCondition string in_op "string list"
  | EventRsvpedCondition bool_op "string option" "string list option"
  | BlastReceivedCondition bool_op "string option" "rat option"
  | BlastRepliedCondition bool_op "string option" "rat option"
  | JourneyEnrolledCondition bool_op "string option" "string list option"
  | GeoAreaCondition GeoAreaType in_op "string list"
  | PollThresholdCondition string string string PollThresholdOp rat GeoAreaType
  | CustomClauseCondition string
  | ChannelConsentCondition ComplianceChannel
  | NotSuppressedCondition ComplianceChannel
  | ReachableCondition ComplianceChannel
  | PolicyIsActiveCondition bool_op

section \<open>Type ids and rosters\<close>

fun enum_type_id :: "enum_type \<Rightarrow> string" where
  "enum_type_id ContactState = ''contact.state''"
| "enum_type_id ContactLocality = ''contact.locality''"
| "enum_type_id ContactTurf = ''contact.turf''"
| "enum_type_id ContactSupportLevel = ''contact.supportLevel''"
| "enum_type_id TagTagged = ''tag.tagged''"
| "enum_type_id ConsentSms = ''consent.sms''"
| "enum_type_id ConsentWhatsapp = ''consent.whatsapp''"
| "enum_type_id SourceSystem = ''source.system''"
| "enum_type_id CanvassDispositionCode = ''canvass.dispositionCode''"

fun bool_type_id :: "bool_type \<Rightarrow> string" where
  "bool_type_id ContactHasEmail = ''contact.hasEmail''"
| "bool_type_id ContactHasPhone = ''contact.hasPhone''"
| "bool_type_id ContactConsented = ''contact.consented''"

fun date_type_id :: "date_type \<Rightarrow> string" where
  "date_type_id ContactCreatedAt = ''contact.createdAt''"
| "date_type_id ActivityLastActiveWithin = ''activity.lastActiveWithin''"
| "date_type_id CanvassDoorKnockedAt = ''canvass.doorKnockedAt''"
| "date_type_id EmailOpenedAt = ''email.openedAt''"
| "date_type_id EmailClickedAt = ''email.clickedAt''"

fun bool_op_id :: "bool_op \<Rightarrow> string" where
  "bool_op_id Is = ''is''"
| "bool_op_id IsNot = ''isNot''"

fun in_op_id :: "in_op \<Rightarrow> string" where
  "in_op_id In = ''in''"
| "in_op_id NotIn = ''notIn''"

fun string_op_id :: "string_op \<Rightarrow> string" where
  "string_op_id Eq = ''eq''"
| "string_op_id Contains = ''contains''"

fun geo_area_id :: "GeoAreaType \<Rightarrow> string" where
  "geo_area_id Ced = ''ced''"
| "geo_area_id Sed = ''sed''"
| "geo_area_id SedLower = ''sed_lower''"
| "geo_area_id SedUpper = ''sed_upper''"
| "geo_area_id Lga = ''lga''"
| "geo_area_id Ward = ''ward''"
| "geo_area_id Sa1 = ''sa1''"
| "geo_area_id Sa2 = ''sa2''"
| "geo_area_id Sa3 = ''sa3''"
| "geo_area_id Sa4 = ''sa4''"

fun poll_op_id :: "PollThresholdOp \<Rightarrow> string" where
  "poll_op_id Gt = ''>''"
| "poll_op_id Ge = ''>=''"
| "poll_op_id Lt = ''<''"
| "poll_op_id Le = ''<=''"
| "poll_op_id EqOp = ''=''"

fun channel_id :: "ComplianceChannel \<Rightarrow> string" where
  "channel_id SMS = ''SMS''"
| "channel_id WHATSAPP = ''WHATSAPP''"

definition GEO_AREA_TYPES :: "string list" where
  "GEO_AREA_TYPES =
     [''ced'', ''sed'', ''sed_lower'', ''sed_upper'', ''lga'', ''ward'', ''sa1'', ''sa2'', ''sa3'', ''sa4'']"

definition POLL_THRESHOLD_OPS :: "string list" where
  "POLL_THRESHOLD_OPS = [''>'', ''>='', ''<'', ''<='', ''='']"

definition COMPLIANCE_CHANNELS :: "string list" where
  "COMPLIANCE_CHANNELS = [''SMS'', ''WHATSAPP'']"

definition CONDITION_TYPES :: "string list" where
  "CONDITION_TYPES =
     [''contact.state'', ''contact.postcode'', ''contact.locality'', ''contact.turf'',
      ''contact.supportLevel'', ''contact.hasEmail'', ''contact.hasPhone'', ''contact.consented'',
      ''contact.emailDomain'', ''contact.createdAt'',
      ''tag.tagged'', ''consent.sms'', ''consent.whatsapp'', ''source.system'',
      ''activity.lastActiveWithin'', ''canvass.doorKnockedAt'', ''canvass.dispositionCode'',
      ''survey.responded'', ''survey.answered'', ''event.rsvped'', ''blast.received'',
      ''blast.replied'', ''journey.enrolled'', ''email.openedAt'', ''email.clickedAt'',
      ''geo.area'', ''insights.pollThreshold'', ''custom.clause'',
      ''compliance.channelConsent'', ''compliance.notSuppressed'', ''compliance.reachable'',
      ''policy.isActive'']"

fun condition_type :: "condition \<Rightarrow> string" where
  "condition_type (EnumCondition t op vs) = enum_type_id t"
| "condition_type (BoolCondition t op v) = bool_type_id t"
| "condition_type (EmailDomainCondition op v) = ''contact.emailDomain''"
| "condition_type (DateCondition t d) = date_type_id t"
| "condition_type (PostcodeSetCondition op vs) = ''contact.postcode''"
| "condition_type (PostcodeEqCondition v) = ''contact.postcode''"
| "condition_type (SurveyRespondedCondition op sid) = ''survey.responded''"
| "condition_type (SurveyAnsweredCondition q op vs) = ''survey.answered''"
| "condition_type (EventRsvpedCondition op e ss) = ''event.rsvped''"
| "condition_type (BlastReceivedCondition op b w) = ''blast.received''"
| "condition_type (BlastRepliedCondition op b w) = ''blast.replied''"
| "condition_type (JourneyEnrolledCondition op j ss) = ''journey.enrolled''"
| "condition_type (GeoAreaCondition a op vs) = ''geo.area''"
| "condition_type (PollThresholdCondition p q r op v g) = ''insights.pollThreshold''"
| "condition_type (CustomClauseCondition ref) = ''custom.clause''"
| "condition_type (ChannelConsentCondition ch) = ''compliance.channelConsent''"
| "condition_type (NotSuppressedCondition ch) = ''compliance.notSuppressed''"
| "condition_type (ReachableCondition ch) = ''compliance.reachable''"
| "condition_type (PolicyIsActiveCondition op) = ''policy.isActive''"

datatype ConditionLayer = L1 | L2 | L3

definition conditionLayer :: "string \<Rightarrow> ConditionLayer" where
  "conditionLayer type =
     (if starts_with type ''policy.'' then L2
      else if starts_with type ''compliance.'' then L3
      else L1)"

definition isAuthorableLayer :: "string \<Rightarrow> bool" where
  "isAuthorableLayer type \<longleftrightarrow> conditionLayer type = L1"

section \<open>The run-time objects\<close>

definition strs :: "string list \<Rightarrow> json" where
  "strs ss = JArr (map JStr ss)"

definition opt_field :: "string \<Rightarrow> ('a \<Rightarrow> json) \<Rightarrow> 'a option \<Rightarrow> (string \<times> json) list" where
  "opt_field k f v = (case v of None \<Rightarrow> [] | Some x \<Rightarrow> [(k, f x)])"

fun date_fields :: "date_operand \<Rightarrow> (string \<times> json) list" where
  "date_fields (Within d) = [(''op'', JStr ''within''), (''days'', JNum d)]"
| "date_fields (Before s) = [(''op'', JStr ''before''), (''date'', JStr s)]"
| "date_fields (After s) = [(''op'', JStr ''after''), (''date'', JStr s)]"
| "date_fields (Between a b) = [(''op'', JStr ''between''), (''from'', JStr a), (''to'', JStr b)]"

fun condition_fields :: "condition \<Rightarrow> (string \<times> json) list" where
  "condition_fields (EnumCondition t op vs) = [(''op'', JStr (in_op_id op)), (''values'', strs vs)]"
| "condition_fields (BoolCondition t op v) = [(''op'', JStr (bool_op_id op)), (''value'', JBool v)]"
| "condition_fields (EmailDomainCondition op v) = [(''op'', JStr (string_op_id op)), (''value'', JStr v)]"
| "condition_fields (DateCondition t d) = date_fields d"
| "condition_fields (PostcodeSetCondition op vs) = [(''op'', JStr (in_op_id op)), (''values'', strs vs)]"
| "condition_fields (PostcodeEqCondition v) = [(''op'', JStr ''eq''), (''value'', JStr v)]"
| "condition_fields (SurveyRespondedCondition op sid) =
     [(''op'', JStr (bool_op_id op)), (''surveyId'', JStr sid)]"
| "condition_fields (SurveyAnsweredCondition q op vs) =
     [(''questionId'', JStr q), (''op'', JStr (in_op_id op)), (''values'', strs vs)]"
| "condition_fields (EventRsvpedCondition op e ss) =
     (''op'', JStr (bool_op_id op)) # opt_field ''eventId'' JStr e @ opt_field ''statuses'' strs ss"
| "condition_fields (BlastReceivedCondition op b w) =
     (''op'', JStr (bool_op_id op)) # opt_field ''blastId'' JStr b @ opt_field ''withinDays'' JNum w"
| "condition_fields (BlastRepliedCondition op b w) =
     (''op'', JStr (bool_op_id op)) # opt_field ''blastId'' JStr b @ opt_field ''withinDays'' JNum w"
| "condition_fields (JourneyEnrolledCondition op j ss) =
     (''op'', JStr (bool_op_id op)) # opt_field ''journeyId'' JStr j @ opt_field ''states'' strs ss"
| "condition_fields (GeoAreaCondition a op vs) =
     [(''areaType'', JStr (geo_area_id a)), (''op'', JStr (in_op_id op)), (''values'', strs vs)]"
| "condition_fields (PollThresholdCondition p q r op v g) =
     [(''pollId'', JStr p), (''questionCode'', JStr q), (''response'', JStr r),
      (''op'', JStr (poll_op_id op)), (''value'', JNum v), (''geoKind'', JStr (geo_area_id g))]"
| "condition_fields (CustomClauseCondition ref) = [(''clauseRef'', JStr ref)]"
| "condition_fields (ChannelConsentCondition ch) = [(''channel'', JStr (channel_id ch))]"
| "condition_fields (NotSuppressedCondition ch) = [(''channel'', JStr (channel_id ch))]"
| "condition_fields (ReachableCondition ch) = [(''channel'', JStr (channel_id ch))]"
| "condition_fields (PolicyIsActiveCondition op) =
     [(''op'', JStr (bool_op_id op)), (''policy'', JStr ''org-default'')]"

definition condition_json :: "condition \<Rightarrow> json" where
  "condition_json c = JObj ((''type'', JStr (condition_type c)) # condition_fields c)"

section \<open>The schema\<close>

definition MAX_CONDITION_VALUES :: nat where "MAX_CONDITION_VALUES = 1000"
definition MAX_OPERAND_VALUE_LENGTH :: nat where "MAX_OPERAND_VALUE_LENGTH = 512"
definition MAX_WINDOW_DAYS :: nat where "MAX_WINDOW_DAYS = 3650"

definition operand :: zschema where
  "operand = ZString (Some 1) (Some MAX_OPERAND_VALUE_LENGTH)"

definition valueSet :: zschema where
  "valueSet = ZArray operand (Some 1) (Some MAX_CONDITION_VALUES)"

definition isoInstant :: zschema where
  "isoInstant = ZDateString (Some 1) (Some MAX_OPERAND_VALUE_LENGTH)"

definition windowDays :: zschema where
  "windowDays = ZNumber [ZInt, ZPositive, ZMax (of_nat MAX_WINDOW_DAYS)]"

definition idRef :: zschema where
  "idRef = ZString (Some 1) (Some MAX_OPERAND_VALUE_LENGTH)"

abbreviation req :: "string \<Rightarrow> zschema \<Rightarrow> string \<times> bool \<times> zschema" where
  "req k z \<equiv> (k, False, z)"

abbreviation opt :: "string \<Rightarrow> zschema \<Rightarrow> string \<times> bool \<times> zschema" where
  "opt k z \<equiv> (k, True, z)"

definition variant :: "string \<Rightarrow> (string \<times> bool \<times> zschema) list \<Rightarrow> zschema" where
  "variant type fs = ZObject True (req ''type'' (ZLitStr type) # fs)"

definition enumVariant :: "string \<Rightarrow> zschema" where
  "enumVariant type =
     variant type [req ''op'' (ZEnum [''in'', ''notIn'']), req ''values'' valueSet]"

definition boolVariant :: "string \<Rightarrow> zschema" where
  "boolVariant type =
     variant type [req ''op'' (ZEnum [''is'', ''isNot'']), req ''value'' ZBoolean]"

definition stringVariant :: "string \<Rightarrow> zschema" where
  "stringVariant type =
     variant type [req ''op'' (ZEnum [''eq'', ''contains'']), req ''value'' operand]"

definition dateVariants :: "string \<Rightarrow> zschema list" where
  "dateVariants type =
     [variant type [req ''op'' (ZLitStr ''within''), req ''days'' windowDays],
      variant type [req ''op'' (ZEnum [''before'', ''after'']), req ''date'' isoInstant],
      variant type [req ''op'' (ZLitStr ''between''), req ''from'' isoInstant, req ''to'' isoInstant]]"

definition condition_variants :: "zschema list" where
  "condition_variants =
     [enumVariant ''contact.state'',
      enumVariant ''contact.locality'',
      enumVariant ''contact.turf'',
      enumVariant ''contact.supportLevel'',
      enumVariant ''contact.postcode'',
      variant ''contact.postcode'' [req ''op'' (ZLitStr ''eq''), req ''value'' operand],
      boolVariant ''contact.hasEmail'',
      boolVariant ''contact.hasPhone'',
      boolVariant ''contact.consented'',
      stringVariant ''contact.emailDomain''] @
     dateVariants ''contact.createdAt'' @
     [enumVariant ''tag.tagged'',
      enumVariant ''consent.sms'',
      enumVariant ''consent.whatsapp'',
      enumVariant ''source.system''] @
     dateVariants ''activity.lastActiveWithin'' @
     dateVariants ''canvass.doorKnockedAt'' @
     [enumVariant ''canvass.dispositionCode''] @
     dateVariants ''email.openedAt'' @
     dateVariants ''email.clickedAt'' @
     [variant ''survey.responded'' [req ''op'' (ZEnum [''is'', ''isNot'']), req ''surveyId'' idRef],
      variant ''survey.answered''
        [req ''questionId'' idRef, req ''op'' (ZEnum [''in'', ''notIn'']), req ''values'' valueSet],
      variant ''event.rsvped''
        [req ''op'' (ZEnum [''is'', ''isNot'']), opt ''eventId'' idRef,
         opt ''statuses'' (ZArray operand (Some 1) (Some 8))],
      variant ''blast.received''
        [req ''op'' (ZEnum [''is'', ''isNot'']), opt ''blastId'' idRef, opt ''withinDays'' windowDays],
      variant ''blast.replied''
        [req ''op'' (ZEnum [''is'', ''isNot'']), opt ''blastId'' idRef, opt ''withinDays'' windowDays],
      variant ''journey.enrolled''
        [req ''op'' (ZEnum [''is'', ''isNot'']), opt ''journeyId'' idRef,
         opt ''states'' (ZArray operand (Some 1) (Some 8))],
      variant ''geo.area''
        [req ''areaType'' (ZEnum GEO_AREA_TYPES), req ''op'' (ZEnum [''in'', ''notIn'']),
         req ''values'' valueSet],
      variant ''insights.pollThreshold''
        [req ''pollId'' idRef, req ''questionCode'' idRef, req ''response'' idRef,
         req ''op'' (ZEnum POLL_THRESHOLD_OPS), req ''value'' (ZNumber [ZFinite]),
         req ''geoKind'' (ZEnum GEO_AREA_TYPES)],
      variant ''custom.clause'' [req ''clauseRef'' idRef],
      variant ''compliance.channelConsent'' [req ''channel'' (ZEnum COMPLIANCE_CHANNELS)],
      variant ''compliance.notSuppressed'' [req ''channel'' (ZEnum COMPLIANCE_CHANNELS)],
      variant ''compliance.reachable'' [req ''channel'' (ZEnum COMPLIANCE_CHANNELS)],
      variant ''policy.isActive''
        [req ''op'' (ZEnum [''is'', ''isNot'']), req ''policy'' (ZLitStr ''org-default'')]]"

definition ConditionSchema :: zschema where
  "ConditionSchema = ZUnion condition_variants"

section \<open>Well-formed members\<close>

definition wf_operand :: "string \<Rightarrow> bool" where
  "wf_operand s \<longleftrightarrow> 1 \<le> length s \<and> length s \<le> 512"

definition wf_values :: "nat \<Rightarrow> string list \<Rightarrow> bool" where
  "wf_values n vs \<longleftrightarrow> 1 \<le> length vs \<and> length vs \<le> n \<and> (\<forall>v\<in>set vs. wf_operand v)"

definition wf_days :: "rat \<Rightarrow> bool" where
  "wf_days d \<longleftrightarrow> of_int (floor d) = d \<and> 0 < d \<and> d \<le> 3650"

fun wf_date :: "(string \<Rightarrow> bool) \<Rightarrow> date_operand \<Rightarrow> bool" where
  "wf_date dp (Within d) \<longleftrightarrow> wf_days d"
| "wf_date dp (Before s) \<longleftrightarrow> wf_operand s \<and> dp s"
| "wf_date dp (After s) \<longleftrightarrow> wf_operand s \<and> dp s"
| "wf_date dp (Between a b) \<longleftrightarrow> wf_operand a \<and> dp a \<and> wf_operand b \<and> dp b"

fun wf_condition :: "(string \<Rightarrow> bool) \<Rightarrow> condition \<Rightarrow> bool" where
  "wf_condition dp (EnumCondition t op vs) \<longleftrightarrow> wf_values 1000 vs"
| "wf_condition dp (BoolCondition t op v) \<longleftrightarrow> True"
| "wf_condition dp (EmailDomainCondition op v) \<longleftrightarrow> wf_operand v"
| "wf_condition dp (DateCondition t d) \<longleftrightarrow> wf_date dp d"
| "wf_condition dp (PostcodeSetCondition op vs) \<longleftrightarrow> wf_values 1000 vs"
| "wf_condition dp (PostcodeEqCondition v) \<longleftrightarrow> wf_operand v"
| "wf_condition dp (SurveyRespondedCondition op sid) \<longleftrightarrow> wf_operand sid"
| "wf_condition dp (SurveyAnsweredCondition q op vs) \<longleftrightarrow> wf_operand q \<and> wf_values 1000 vs"
| "wf_condition dp (EventRsvpedCondition op e ss) \<longleftrightarrow>
     pred_option wf_operand e \<and> pred_option (wf_values 8) ss"
| "wf_condition dp (BlastReceivedCondition op b w) \<longleftrightarrow>
     pred_option wf_operand b \<and> pred_option wf_days w"
| "wf_condition dp (BlastRepliedCondition op b w) \<longleftrightarrow>
     pred_option wf_operand b \<and> pred_option wf_days w"
| "wf_condition dp (JourneyEnrolledCondition op j ss) \<longleftrightarrow>
     pred_option wf_operand j \<and> pred_option (wf_values 8) ss"
| "wf_condition dp (GeoAreaCondition a op vs) \<longleftrightarrow> wf_values 1000 vs"
| "wf_condition dp (PollThresholdCondition p q r op v g) \<longleftrightarrow>
     wf_operand p \<and> wf_operand q \<and> wf_operand r"
| "wf_condition dp (CustomClauseCondition ref) \<longleftrightarrow> wf_operand ref"
| "wf_condition dp (ChannelConsentCondition ch) \<longleftrightarrow> True"
| "wf_condition dp (NotSuppressedCondition ch) \<longleftrightarrow> True"
| "wf_condition dp (ReachableCondition ch) \<longleftrightarrow> True"
| "wf_condition dp (PolicyIsActiveCondition op) \<longleftrightarrow> True"

section \<open>The schema accepts exactly the well-formed members\<close>

lemma zparse_variant:
  "zparse dp (variant type fs) j \<longleftrightarrow>
     jget j ''type'' = Some (JStr type) \<and> zparse dp (variant type fs) j"
  by (cases j) (auto simp: variant_def split: option.splits)

lemma variant_other_type:
  "jget j ''type'' = Some (JStr type') \<Longrightarrow> type' \<noteq> type \<Longrightarrow> \<not> zparse dp (variant type fs) j"
  by (metis json.inject(3) option.inject zparse_variant)

lemmas variant_defs =
  enumVariant_def boolVariant_def stringVariant_def dateVariants_def

lemmas operand_defs =
  operand_def valueSet_def isoInstant_def windowDays_def idRef_def MAX_CONDITION_VALUES_def
  MAX_OPERAND_VALUE_LENGTH_def MAX_WINDOW_DAYS_def strs_def opt_field_def known_keys_def
  wf_operand_def wf_values_def wf_days_def

lemma in_op_id_values [simp]: "in_op_id op = ''in'' \<or> in_op_id op = ''notIn''"
  by (cases op) auto

lemma parse_operand [simp]: "zparse dp operand j \<longleftrightarrow> (\<exists>s. j = JStr s \<and> wf_operand s)"
  by (cases j) (auto simp: operand_defs)

lemma parse_idRef [simp]: "zparse dp idRef j \<longleftrightarrow> (\<exists>s. j = JStr s \<and> wf_operand s)"
  by (cases j) (auto simp: operand_defs)

lemma parse_isoInstant [simp]: "zparse dp isoInstant j \<longleftrightarrow> (\<exists>s. j = JStr s \<and> wf_operand s \<and> dp s)"
  by (cases j) (auto simp: operand_defs)

lemma parse_windowDays [simp]: "zparse dp windowDays j \<longleftrightarrow> (\<exists>d. j = JNum d \<and> wf_days d)"
  by (cases j) (auto simp: operand_defs)

lemma strs_ex: "(\<forall>x\<in>set xs. \<exists>s. x = JStr s \<and> P s) \<longleftrightarrow> (\<exists>ss. JArr xs = strs ss \<and> (\<forall>s\<in>set ss. P s))"
proof
  assume *: "\<forall>x\<in>set xs. \<exists>s. x = JStr s \<and> P s"
  then have "JArr xs = strs (map (\<lambda>x. case x of JStr s \<Rightarrow> s) xs)"
    by (auto simp: strs_def intro!: map_idI [symmetric] split: json.splits)
  with * show "\<exists>ss. JArr xs = strs ss \<and> (\<forall>s\<in>set ss. P s)"
    by (intro exI [of _ "map (\<lambda>x. case x of JStr s \<Rightarrow> s) xs"]) auto
qed (auto simp: strs_def)

lemma parse_strings:
  "zparse dp (ZArray operand (Some 1) (Some n)) j \<longleftrightarrow> (\<exists>ss. j = strs ss \<and> wf_values n ss)"
proof (cases j)
  case (JArr xs)
  have "zparse dp (ZArray operand (Some 1) (Some n)) j \<longleftrightarrow>
      1 \<le> length xs \<and> length xs \<le> n \<and> (\<exists>ss. JArr xs = strs ss \<and> (\<forall>s\<in>set ss. wf_operand s))"
    by (simp add: JArr list_all_iff flip: strs_ex)
  then show ?thesis by (auto simp: JArr wf_values_def strs_def)
qed (auto simp: strs_def)

lemma parse_valueSet [simp]: "zparse dp valueSet j \<longleftrightarrow> (\<exists>ss. j = strs ss \<and> wf_values 1000 ss)"
  unfolding valueSet_def MAX_CONDITION_VALUES_def by (rule parse_strings)

declare zparse.simps(8) [simp del]

text \<open>A strict object is determined by its declared properties.\<close>

definition same_props :: "json \<Rightarrow> json \<Rightarrow> bool" where
  "same_props j j' \<longleftrightarrow> is_jobj j \<and> is_jobj j' \<and> (\<forall>k. jget j k = jget j' k)"

lemma keys_of_map_of: "map_of kvs = map_of kvs' \<Longrightarrow> set (map fst kvs) = set (map fst kvs')"
  by (metis dom_map_of_conv_image_fst list.set_map)

lemma object_same_props:
  "same_props j j' \<Longrightarrow> zparse dp (ZObject strict fs) j = zparse dp (ZObject strict fs) j'"
proof (cases j; cases j')
  fix kvs kvs'
  assume *: "same_props j j'" "j = JObj kvs" "j' = JObj kvs'"
  then have "map_of kvs = map_of kvs'" by (auto simp: same_props_def)
  with keys_of_map_of [OF this] * show ?thesis by (simp add: known_keys_def)
qed (auto simp: same_props_def)

lemma variant_same_props:
  "same_props j j' \<Longrightarrow> zparse dp (variant type fs) j = zparse dp (variant type fs) j'"
  by (simp only: variant_def) (rule object_same_props)

lemma condition_variants_objects: "z \<in> set condition_variants \<Longrightarrow> \<exists>type fs. z = variant type fs"
  by (auto simp: condition_variants_def variant_defs)

lemma schema_same_props:
  assumes "same_props j j'"
  shows "zparse dp ConditionSchema j = zparse dp ConditionSchema j'"
proof -
  have "zparse dp z j = zparse dp z j'" if "z \<in> set condition_variants" for z
    using condition_variants_objects [OF that] variant_same_props [OF assms] by auto
  then show ?thesis by (auto simp: ConditionSchema_def list_ex_iff)
qed

lemma in_op_id_inject [simp]: "in_op_id a = in_op_id b \<longleftrightarrow> a = b"
  by (cases a; cases b) simp_all

lemma set_in_op_id: "set [''in'', ''notIn''] = range in_op_id"
proof
  show "set [''in'', ''notIn''] \<subseteq> range in_op_id"
    by (simp add: image_def) (metis in_op_id.simps)
  show "range in_op_id \<subseteq> set [''in'', ''notIn'']"
  proof (rule image_subsetI)
    fix op show "in_op_id op \<in> set [''in'', ''notIn'']"
      by (cases op) (simp_all)
  qed
qed

lemma parse_in_op_id [simp]: "zparse dp (ZEnum [''in'', ''notIn'']) j \<longleftrightarrow> (\<exists>op. j = JStr (in_op_id op))"
  by (cases j) (auto simp: set_in_op_id simp del: list.set)

lemma bool_op_id_inject [simp]: "bool_op_id a = bool_op_id b \<longleftrightarrow> a = b"
  by (cases a; cases b) simp_all

lemma set_bool_op_id: "set [''is'', ''isNot''] = range bool_op_id"
proof
  show "set [''is'', ''isNot''] \<subseteq> range bool_op_id"
    by (simp add: image_def) (metis bool_op_id.simps)
  show "range bool_op_id \<subseteq> set [''is'', ''isNot'']"
  proof (rule image_subsetI)
    fix op show "bool_op_id op \<in> set [''is'', ''isNot'']"
      by (cases op) (simp_all)
  qed
qed

lemma parse_bool_op_id [simp]: "zparse dp (ZEnum [''is'', ''isNot'']) j \<longleftrightarrow> (\<exists>op. j = JStr (bool_op_id op))"
  by (cases j) (auto simp: set_bool_op_id simp del: list.set)

lemma string_op_id_inject [simp]: "string_op_id a = string_op_id b \<longleftrightarrow> a = b"
  by (cases a; cases b) simp_all

lemma set_string_op_id: "set [''eq'', ''contains''] = range string_op_id"
proof
  show "set [''eq'', ''contains''] \<subseteq> range string_op_id"
    by (simp add: image_def) (metis string_op_id.simps)
  show "range string_op_id \<subseteq> set [''eq'', ''contains'']"
  proof (rule image_subsetI)
    fix op show "string_op_id op \<in> set [''eq'', ''contains'']"
      by (cases op) (simp_all)
  qed
qed

lemma parse_string_op_id [simp]: "zparse dp (ZEnum [''eq'', ''contains'']) j \<longleftrightarrow> (\<exists>op. j = JStr (string_op_id op))"
  by (cases j) (auto simp: set_string_op_id simp del: list.set)

lemma geo_area_id_inject [simp]: "geo_area_id a = geo_area_id b \<longleftrightarrow> a = b"
  by (cases a; cases b) simp_all

lemma set_geo_area_id: "set GEO_AREA_TYPES = range geo_area_id"
proof
  show "set GEO_AREA_TYPES \<subseteq> range geo_area_id"
    by (simp add: GEO_AREA_TYPES_def image_def) (metis geo_area_id.simps)
  show "range geo_area_id \<subseteq> set GEO_AREA_TYPES"
  proof (rule image_subsetI)
    fix op show "geo_area_id op \<in> set GEO_AREA_TYPES"
      by (cases op) (simp_all add: GEO_AREA_TYPES_def)
  qed
qed

lemma parse_geo_area_id [simp]: "zparse dp (ZEnum GEO_AREA_TYPES) j \<longleftrightarrow> (\<exists>op. j = JStr (geo_area_id op))"
  by (cases j) (auto simp: set_geo_area_id simp del: list.set)

lemma poll_op_id_inject [simp]: "poll_op_id a = poll_op_id b \<longleftrightarrow> a = b"
  by (cases a; cases b) simp_all

lemma set_poll_op_id: "set POLL_THRESHOLD_OPS = range poll_op_id"
proof
  show "set POLL_THRESHOLD_OPS \<subseteq> range poll_op_id"
    by (simp add: POLL_THRESHOLD_OPS_def image_def) (metis poll_op_id.simps)
  show "range poll_op_id \<subseteq> set POLL_THRESHOLD_OPS"
  proof (rule image_subsetI)
    fix op show "poll_op_id op \<in> set POLL_THRESHOLD_OPS"
      by (cases op) (simp_all add: POLL_THRESHOLD_OPS_def)
  qed
qed

lemma parse_poll_op_id [simp]: "zparse dp (ZEnum POLL_THRESHOLD_OPS) j \<longleftrightarrow> (\<exists>op. j = JStr (poll_op_id op))"
  by (cases j) (auto simp: set_poll_op_id simp del: list.set)

lemma channel_id_inject [simp]: "channel_id a = channel_id b \<longleftrightarrow> a = b"
  by (cases a; cases b) simp_all

lemma set_channel_id: "set COMPLIANCE_CHANNELS = range channel_id"
proof
  show "set COMPLIANCE_CHANNELS \<subseteq> range channel_id"
    by (simp add: COMPLIANCE_CHANNELS_def image_def) (metis channel_id.simps)
  show "range channel_id \<subseteq> set COMPLIANCE_CHANNELS"
  proof (rule image_subsetI)
    fix op show "channel_id op \<in> set COMPLIANCE_CHANNELS"
      by (cases op) (simp_all add: COMPLIANCE_CHANNELS_def)
  qed
qed

lemma parse_channel_id [simp]: "zparse dp (ZEnum COMPLIANCE_CHANNELS) j \<longleftrightarrow> (\<exists>op. j = JStr (channel_id op))"
  by (cases j) (auto simp: set_channel_id simp del: list.set)

lemma parse_before_after [simp]:
  "zparse dp (ZEnum [''before'', ''after'']) j \<longleftrightarrow> j = JStr ''before'' \<or> j = JStr ''after''"
  by (cases j) auto

declare zparse.simps(3) [simp del]

lemma strs_eq [simp]: "strs ss = strs ts \<longleftrightarrow> ss = ts"
  by (simp add: strs_def inj_map_eq_map inj_def)


lemma parse_bool [simp]: "zparse dp ZBoolean j \<longleftrightarrow> (\<exists>b. j = JBool b)"
  by (cases j) auto

lemma parse_finite [simp]: "zparse dp (ZNumber [ZFinite]) j \<longleftrightarrow> (\<exists>q. j = JNum q)"
  by (cases j) auto

declare zparse.simps(6,7) [simp del]

lemma map_of_opt_field [simp]: "map_of (opt_field k f v) k' = (if k' = k then map_option f v else None)"
  by (cases v) (auto simp: opt_field_def)

lemma map_add_opt_field [simp]:
  "(m ++ map_of (opt_field k f v)) k' = (if k' = k \<and> v \<noteq> None then map_option f v else m k')"
  by (cases v) (auto simp: opt_field_def)

lemma fst_opt_field: "(a, b) \<in> set (opt_field k f v) \<Longrightarrow> a = k"
  by (cases v) (auto simp: opt_field_def)

fun field_ok :: "(string \<Rightarrow> bool) \<Rightarrow> (string \<times> json) list \<Rightarrow> string \<times> bool \<times> zschema \<Rightarrow> bool" where
  "field_ok dp kvs (k, optional, z) \<longleftrightarrow>
     (case map_of kvs k of None \<Rightarrow> optional | Some v \<Rightarrow> zparse dp z v)"

declare field_ok.simps [simp del]

lemma field_required [simp]:
  "field_ok dp kvs (k, False, z) \<longleftrightarrow> (\<exists>v. map_of kvs k = Some v \<and> zparse dp z v)"
  by (simp add: field_ok.simps split: option.split)

lemma field_optional:
  assumes "\<And>v. zparse dp z v \<longleftrightarrow> (\<exists>x. v = f x \<and> P x)"
  shows "field_ok dp kvs (k, True, z) \<longleftrightarrow> (\<exists>x. map_of kvs k = map_option f x \<and> pred_option P x)"
proof (cases "map_of kvs k")
  case None
  then show ?thesis by (auto simp: field_ok.simps intro: exI [of _ None])
next
  case (Some v)
  have "(\<exists>x. Some v = map_option f x \<and> pred_option P x) \<longleftrightarrow> (\<exists>x. v = f x \<and> P x)"
    by (metis map_option_eq_Some option.pred_inject(2))
  with Some show ?thesis by (simp add: assms field_ok.simps)
qed

lemmas field_optionals [simp] =
  field_optional [OF parse_idRef] field_optional [OF parse_windowDays]
  field_optional [OF parse_strings] field_optional [OF parse_strings [unfolded One_nat_def]]

lemma variant_fields:
  "zparse dp (variant type fs) (JObj kvs) \<longleftrightarrow>
     map_of kvs ''type'' = Some (JStr type) \<and> (\<forall>f\<in>set fs. field_ok dp kvs f) \<and>
     known_keys (req ''type'' (ZLitStr type) # fs) kvs"
  by (auto simp: variant_def list_all_iff field_ok.simps split: option.splits)

text \<open>The variant of the schema that accepts a member.\<close>

fun date_variant :: "string \<Rightarrow> date_operand \<Rightarrow> zschema" where
  "date_variant type (Within d) = dateVariants type ! 0"
| "date_variant type (Before s) = dateVariants type ! 1"
| "date_variant type (After s) = dateVariants type ! 1"
| "date_variant type (Between a b) = dateVariants type ! 2"

fun variant_of :: "condition \<Rightarrow> zschema" where
  "variant_of (EnumCondition t op vs) = enumVariant (enum_type_id t)"
| "variant_of (BoolCondition t op v) = boolVariant (bool_type_id t)"
| "variant_of (DateCondition t d) = date_variant (date_type_id t) d"
| "variant_of (EmailDomainCondition op v) = condition_variants ! 9"
| "variant_of (PostcodeSetCondition op vs) = condition_variants ! 4"
| "variant_of (PostcodeEqCondition v) = condition_variants ! 5"
| "variant_of (SurveyRespondedCondition op sid) = condition_variants ! 30"
| "variant_of (SurveyAnsweredCondition q op vs) = condition_variants ! 31"
| "variant_of (EventRsvpedCondition op e ss) = condition_variants ! 32"
| "variant_of (BlastReceivedCondition op b w) = condition_variants ! 33"
| "variant_of (BlastRepliedCondition op b w) = condition_variants ! 34"
| "variant_of (JourneyEnrolledCondition op j ss) = condition_variants ! 35"
| "variant_of (GeoAreaCondition a op vs) = condition_variants ! 36"
| "variant_of (PollThresholdCondition p q r op v g) = condition_variants ! 37"
| "variant_of (CustomClauseCondition ref) = condition_variants ! 38"
| "variant_of (ChannelConsentCondition ch) = condition_variants ! 39"
| "variant_of (NotSuppressedCondition ch) = condition_variants ! 40"
| "variant_of (ReachableCondition ch) = condition_variants ! 41"
| "variant_of (PolicyIsActiveCondition op) = condition_variants ! 42"

lemma length_condition_variants: "length condition_variants = 43"
  by (simp add: condition_variants_def dateVariants_def)

lemma date_variant_in:
  "set (dateVariants type) \<subseteq> set condition_variants \<Longrightarrow> date_variant type d \<in> set condition_variants"
  by (cases d) (auto simp: dateVariants_def)

lemma variant_of_in: "variant_of c \<in> set condition_variants"
proof (cases c)
  case (EnumCondition t op vs)
  then show ?thesis by (cases t) (simp_all add: condition_variants_def)
next
  case (BoolCondition t op v)
  then show ?thesis by (cases t) (simp_all add: condition_variants_def)
next
  case (DateCondition t d)
  have "set (dateVariants (date_type_id t)) \<subseteq> set condition_variants"
    by (cases t) (auto simp: condition_variants_def)
  with DateCondition show ?thesis by (simp add: date_variant_in)
qed (simp_all add: length_condition_variants)

lemma variant_of_accepts:
  "wf_condition dp c \<Longrightarrow> zparse dp (variant_of c) (condition_json c)"
proof (cases c)
  case (DateCondition t d)
  then show "wf_condition dp c \<Longrightarrow> ?thesis"
    by (cases d) (simp_all add: dateVariants_def variant_fields condition_json_def known_keys_def)
qed (auto simp: condition_variants_def dateVariants_def enumVariant_def boolVariant_def
    stringVariant_def variant_fields condition_json_def known_keys_def dest: fst_opt_field)

lemma schema_accepts: "wf_condition dp c \<Longrightarrow> zparse dp ConditionSchema (condition_json c)"
  using variant_of_in [of c] variant_of_accepts [of dp c] by (auto simp: ConditionSchema_def list_ex_iff)

text \<open>Every accepted object is, property for property, a well-formed member.\<close>

definition is_member :: "(string \<Rightarrow> bool) \<Rightarrow> json \<Rightarrow> bool" where
  "is_member dp j \<longleftrightarrow> (\<exists>c. wf_condition dp c \<and> same_props j (condition_json c))"

lemma same_propsI:
  assumes "known_keys fs kvs" "known_keys fs kvs'" "\<forall>k\<in>set (map fst fs). map_of kvs k = map_of kvs' k"
  shows "same_props (JObj kvs) (JObj kvs')"
proof -
  have "map_of kvs k = map_of kvs' k" for k
  proof (cases "k \<in> set (map fst fs)")
    case False
    with assms(1,2) have "k \<notin> set (map fst kvs)" "k \<notin> set (map fst kvs')"
      by (auto simp: known_keys_def)
    then show ?thesis by (metis list.set_map map_of_eq_None_iff)
  qed (use assms(3) in blast)
  then show ?thesis by (simp add: same_props_def)
qed

lemma memberI:
  "zparse dp (variant type fs) (JObj kvs) \<Longrightarrow> wf_condition dp c \<Longrightarrow>
   known_keys (req ''type'' (ZLitStr type) # fs) ((''type'', JStr (condition_type c)) # condition_fields c) \<Longrightarrow>
   condition_type c = type \<Longrightarrow> \<forall>k\<in>set (map fst fs). map_of kvs k = map_of (condition_fields c) k \<Longrightarrow>
   ''type'' \<notin> set (map fst fs) \<Longrightarrow>
   is_member dp (JObj kvs)"
  unfolding is_member_def condition_json_def
  by (intro exI [of _ c] conjI same_propsI [of "req ''type'' (ZLitStr type) # fs"])
    (auto simp: variant_def split: option.splits)

lemma object_cases: "zparse dp (variant type fs) j \<Longrightarrow> (\<And>kvs. j = JObj kvs \<Longrightarrow> thesis) \<Longrightarrow> thesis"
  by (cases j) (auto simp: variant_def)

lemma enum_member:
  assumes "zparse dp (enumVariant (enum_type_id t)) j"
  shows "is_member dp j"
proof -
  from assms obtain kvs where j: "j = JObj kvs"
    unfolding enumVariant_def by (rule object_cases)
  with assms obtain op vs where
    "map_of kvs ''op'' = Some (JStr (in_op_id op))"
    "map_of kvs ''values'' = Some (strs vs)" "wf_values 1000 vs"
    by (auto simp: enumVariant_def variant_fields)
  with assms show ?thesis unfolding j enumVariant_def 
    by (elim memberI [where c = "EnumCondition t op vs"]) (auto simp: known_keys_def dest: fst_opt_field)
qed

lemma postcode_set_member:
  assumes "zparse dp (enumVariant ''contact.postcode'') j"
  shows "is_member dp j"
proof -
  from assms obtain kvs where j: "j = JObj kvs"
    unfolding enumVariant_def by (rule object_cases)
  with assms obtain op vs where
    "map_of kvs ''op'' = Some (JStr (in_op_id op))"
    "map_of kvs ''values'' = Some (strs vs)" "wf_values 1000 vs"
    by (auto simp: enumVariant_def variant_fields)
  with assms show ?thesis unfolding j enumVariant_def 
    by (elim memberI [where c = "PostcodeSetCondition op vs"]) (auto simp: known_keys_def dest: fst_opt_field)
qed

lemma postcode_eq_member:
  assumes "zparse dp (variant ''contact.postcode'' [req ''op'' (ZLitStr ''eq''), req ''value'' operand]) j"
  shows "is_member dp j"
proof -
  from assms obtain kvs where j: "j = JObj kvs"
    by (rule object_cases)
  with assms obtain v where
    "map_of kvs ''op'' = Some (JStr ''eq'')" "map_of kvs ''value'' = Some (JStr v)" "wf_operand v"
    by (auto simp: variant_fields)
  with assms show ?thesis unfolding j 
    by (elim memberI [where c = "PostcodeEqCondition v"]) (auto simp: known_keys_def dest: fst_opt_field)
qed

lemma bool_member:
  assumes "zparse dp (boolVariant (bool_type_id t)) j"
  shows "is_member dp j"
proof -
  from assms obtain kvs where j: "j = JObj kvs"
    unfolding boolVariant_def by (rule object_cases)
  with assms obtain op v where
    "map_of kvs ''op'' = Some (JStr (bool_op_id op))" "map_of kvs ''value'' = Some (JBool v)"
    by (auto simp: boolVariant_def variant_fields)
  with assms show ?thesis unfolding j boolVariant_def 
    by (elim memberI [where c = "BoolCondition t op v"]) (auto simp: known_keys_def dest: fst_opt_field)
qed

lemma email_domain_member:
  assumes "zparse dp (stringVariant ''contact.emailDomain'') j"
  shows "is_member dp j"
proof -
  from assms obtain kvs where j: "j = JObj kvs"
    unfolding stringVariant_def by (rule object_cases)
  with assms obtain op v where
    "map_of kvs ''op'' = Some (JStr (string_op_id op))"
    "map_of kvs ''value'' = Some (JStr v)" "wf_operand v"
    by (auto simp: stringVariant_def variant_fields)
  with assms show ?thesis unfolding j stringVariant_def 
    by (elim memberI [where c = "EmailDomainCondition op v"]) (auto simp: known_keys_def dest: fst_opt_field)
qed

lemma date_within_member:
  assumes "zparse dp (variant (date_type_id t) [req ''op'' (ZLitStr ''within''), req ''days'' windowDays]) j"
  shows "is_member dp j"
proof -
  from assms obtain kvs where j: "j = JObj kvs"
    by (rule object_cases)
  with assms obtain d where
    "map_of kvs ''op'' = Some (JStr ''within'')" "map_of kvs ''days'' = Some (JNum d)" "wf_days d"
    by (auto simp: variant_fields)
  with assms show ?thesis unfolding j 
    by (elim memberI [where c = "DateCondition t (Within d)"]) (auto simp: known_keys_def dest: fst_opt_field)
qed

lemma date_point_member:
  assumes "zparse dp (variant (date_type_id t) [req ''op'' (ZEnum [''before'', ''after'']), req ''date'' isoInstant]) j"
  shows "is_member dp j"
proof -
  from assms obtain kvs where j: "j = JObj kvs" by (rule object_cases)
  with assms obtain s where date: "map_of kvs ''date'' = Some (JStr s)" "wf_operand s" "dp s"
    by (auto simp: variant_fields)
  from assms consider "map_of kvs ''op'' = Some (JStr ''before'')" | "map_of kvs ''op'' = Some (JStr ''after'')"
    by (auto simp: variant_fields j)
  then show ?thesis
  proof cases
    case 1
    with date assms show ?thesis unfolding j
      by (elim memberI [where c = "DateCondition t (Before s)"]) (auto simp: known_keys_def)
  next
    case 2
    with date assms show ?thesis unfolding j
      by (elim memberI [where c = "DateCondition t (After s)"]) (auto simp: known_keys_def)
  qed
qed

lemma date_between_member:
  assumes "zparse dp (variant (date_type_id t) [req ''op'' (ZLitStr ''between''), req ''from'' isoInstant, req ''to'' isoInstant]) j"
  shows "is_member dp j"
proof -
  from assms obtain kvs where j: "j = JObj kvs"
    by (rule object_cases)
  with assms obtain a b where
    "map_of kvs ''op'' = Some (JStr ''between'')"
    "map_of kvs ''from'' = Some (JStr a)" "map_of kvs ''to'' = Some (JStr b)"
    "wf_operand a" "dp a" "wf_operand b" "dp b"
    by (auto simp: variant_fields)
  with assms show ?thesis unfolding j 
    by (elim memberI [where c = "DateCondition t (Between a b)"]) (auto simp: known_keys_def dest: fst_opt_field)
qed

lemma survey_responded_member:
  assumes "zparse dp (variant ''survey.responded'' [req ''op'' (ZEnum [''is'', ''isNot'']), req ''surveyId'' idRef]) j"
  shows "is_member dp j"
proof -
  from assms obtain kvs where j: "j = JObj kvs"
    by (rule object_cases)
  with assms obtain op sid where
    "map_of kvs ''op'' = Some (JStr (bool_op_id op))" "map_of kvs ''surveyId'' = Some (JStr sid)" "wf_operand sid"
    by (auto simp: variant_fields)
  with assms show ?thesis unfolding j 
    by (elim memberI [where c = "SurveyRespondedCondition op sid"]) (auto simp: known_keys_def dest: fst_opt_field)
qed

lemma survey_answered_member:
  assumes "zparse dp (variant ''survey.answered''
    [req ''questionId'' idRef, req ''op'' (ZEnum [''in'', ''notIn'']), req ''values'' valueSet]) j"
  shows "is_member dp j"
proof -
  from assms obtain kvs where j: "j = JObj kvs"
    by (rule object_cases)
  with assms obtain q op vs where
    "map_of kvs ''questionId'' = Some (JStr q)" "wf_operand q"
    "map_of kvs ''op'' = Some (JStr (in_op_id op))"
    "map_of kvs ''values'' = Some (strs vs)" "wf_values 1000 vs"
    by (auto simp: variant_fields)
  with assms show ?thesis unfolding j 
    by (elim memberI [where c = "SurveyAnsweredCondition q op vs"]) (auto simp: known_keys_def dest: fst_opt_field)
qed

lemma event_rsvped_member:
  assumes "zparse dp (variant ''event.rsvped'' [req ''op'' (ZEnum [''is'', ''isNot'']), opt ''eventId'' idRef,
     opt ''statuses'' (ZArray operand (Some 1) (Some 8))]) j"
  shows "is_member dp j"
proof -
  from assms obtain kvs where j: "j = JObj kvs"
    by (rule object_cases)
  with assms obtain op e ss where
    "map_of kvs ''op'' = Some (JStr (bool_op_id op))"
    "map_of kvs ''eventId'' = map_option JStr e" "pred_option wf_operand e"
    "map_of kvs ''statuses'' = map_option strs ss" "pred_option (wf_values 8) ss"
    by (auto simp: variant_fields)
  with assms show ?thesis unfolding j 
    by (elim memberI [where c = "EventRsvpedCondition op e ss"]) (auto simp: known_keys_def dest: fst_opt_field)
qed

lemma journey_enrolled_member:
  assumes "zparse dp (variant ''journey.enrolled'' [req ''op'' (ZEnum [''is'', ''isNot'']), opt ''journeyId'' idRef,
     opt ''states'' (ZArray operand (Some 1) (Some 8))]) j"
  shows "is_member dp j"
proof -
  from assms obtain kvs where j: "j = JObj kvs"
    by (rule object_cases)
  with assms obtain op e ss where
    "map_of kvs ''op'' = Some (JStr (bool_op_id op))"
    "map_of kvs ''journeyId'' = map_option JStr e" "pred_option wf_operand e"
    "map_of kvs ''states'' = map_option strs ss" "pred_option (wf_values 8) ss"
    by (auto simp: variant_fields)
  with assms show ?thesis unfolding j 
    by (elim memberI [where c = "JourneyEnrolledCondition op e ss"]) (auto simp: known_keys_def dest: fst_opt_field)
qed

lemma blast_received_member:
  assumes "zparse dp (variant ''blast.received'' [req ''op'' (ZEnum [''is'', ''isNot'']), opt ''blastId'' idRef,
     opt ''withinDays'' windowDays]) j"
  shows "is_member dp j"
proof -
  from assms obtain kvs where j: "j = JObj kvs"
    by (rule object_cases)
  with assms obtain op b w where
    "map_of kvs ''op'' = Some (JStr (bool_op_id op))"
    "map_of kvs ''blastId'' = map_option JStr b" "pred_option wf_operand b"
    "map_of kvs ''withinDays'' = map_option JNum w" "pred_option wf_days w"
    by (auto simp: variant_fields)
  with assms show ?thesis unfolding j 
    by (elim memberI [where c = "BlastReceivedCondition op b w"]) (auto simp: known_keys_def dest: fst_opt_field)
qed

lemma blast_replied_member:
  assumes "zparse dp (variant ''blast.replied'' [req ''op'' (ZEnum [''is'', ''isNot'']), opt ''blastId'' idRef,
     opt ''withinDays'' windowDays]) j"
  shows "is_member dp j"
proof -
  from assms obtain kvs where j: "j = JObj kvs"
    by (rule object_cases)
  with assms obtain op b w where
    "map_of kvs ''op'' = Some (JStr (bool_op_id op))"
    "map_of kvs ''blastId'' = map_option JStr b" "pred_option wf_operand b"
    "map_of kvs ''withinDays'' = map_option JNum w" "pred_option wf_days w"
    by (auto simp: variant_fields)
  with assms show ?thesis unfolding j 
    by (elim memberI [where c = "BlastRepliedCondition op b w"]) (auto simp: known_keys_def dest: fst_opt_field)
qed

lemma geo_area_member:
  assumes "zparse dp (variant ''geo.area''
    [req ''areaType'' (ZEnum GEO_AREA_TYPES), req ''op'' (ZEnum [''in'', ''notIn'']), req ''values'' valueSet]) j"
  shows "is_member dp j"
proof -
  from assms obtain kvs where j: "j = JObj kvs"
    by (rule object_cases)
  with assms obtain a op vs where
    "map_of kvs ''areaType'' = Some (JStr (geo_area_id a))"
    "map_of kvs ''op'' = Some (JStr (in_op_id op))"
    "map_of kvs ''values'' = Some (strs vs)" "wf_values 1000 vs"
    by (auto simp: variant_fields)
  with assms show ?thesis unfolding j 
    by (elim memberI [where c = "GeoAreaCondition a op vs"]) (auto simp: known_keys_def dest: fst_opt_field)
qed

lemma poll_threshold_member:
  assumes "zparse dp (variant ''insights.pollThreshold''
    [req ''pollId'' idRef, req ''questionCode'' idRef, req ''response'' idRef,
     req ''op'' (ZEnum POLL_THRESHOLD_OPS), req ''value'' (ZNumber [ZFinite]),
     req ''geoKind'' (ZEnum GEO_AREA_TYPES)]) j"
  shows "is_member dp j"
proof -
  from assms obtain kvs where j: "j = JObj kvs"
    by (rule object_cases)
  with assms obtain p q r op v g where
    "map_of kvs ''pollId'' = Some (JStr p)" "map_of kvs ''questionCode'' = Some (JStr q)" "map_of kvs ''response'' = Some (JStr r)"
    "wf_operand p" "wf_operand q" "wf_operand r"
    "map_of kvs ''op'' = Some (JStr (poll_op_id op))" "map_of kvs ''value'' = Some (JNum v)"
    "map_of kvs ''geoKind'' = Some (JStr (geo_area_id g))"
    by (auto simp: variant_fields)
  with assms show ?thesis unfolding j 
    by (elim memberI [where c = "PollThresholdCondition p q r op v g"]) (auto simp: known_keys_def dest: fst_opt_field)
qed

lemma custom_clause_member:
  assumes "zparse dp (variant ''custom.clause'' [req ''clauseRef'' idRef]) j"
  shows "is_member dp j"
proof -
  from assms obtain kvs where j: "j = JObj kvs"
    by (rule object_cases)
  with assms obtain ref where
    "map_of kvs ''clauseRef'' = Some (JStr ref)" "wf_operand ref"
    by (auto simp: variant_fields)
  with assms show ?thesis unfolding j 
    by (elim memberI [where c = "CustomClauseCondition ref"]) (auto simp: known_keys_def dest: fst_opt_field)
qed

lemma channel_consent_member:
  assumes "zparse dp (variant ''compliance.channelConsent'' [req ''channel'' (ZEnum COMPLIANCE_CHANNELS)]) j"
  shows "is_member dp j"
proof -
  from assms obtain kvs where j: "j = JObj kvs"
    by (rule object_cases)
  with assms obtain ch where
    "map_of kvs ''channel'' = Some (JStr (channel_id ch))"
    by (auto simp: variant_fields)
  with assms show ?thesis unfolding j 
    by (elim memberI [where c = "ChannelConsentCondition ch"]) (auto simp: known_keys_def dest: fst_opt_field)
qed

lemma not_suppressed_member:
  assumes "zparse dp (variant ''compliance.notSuppressed'' [req ''channel'' (ZEnum COMPLIANCE_CHANNELS)]) j"
  shows "is_member dp j"
proof -
  from assms obtain kvs where j: "j = JObj kvs"
    by (rule object_cases)
  with assms obtain ch where
    "map_of kvs ''channel'' = Some (JStr (channel_id ch))"
    by (auto simp: variant_fields)
  with assms show ?thesis unfolding j 
    by (elim memberI [where c = "NotSuppressedCondition ch"]) (auto simp: known_keys_def dest: fst_opt_field)
qed

lemma reachable_member:
  assumes "zparse dp (variant ''compliance.reachable'' [req ''channel'' (ZEnum COMPLIANCE_CHANNELS)]) j"
  shows "is_member dp j"
proof -
  from assms obtain kvs where j: "j = JObj kvs"
    by (rule object_cases)
  with assms obtain ch where
    "map_of kvs ''channel'' = Some (JStr (channel_id ch))"
    by (auto simp: variant_fields)
  with assms show ?thesis unfolding j 
    by (elim memberI [where c = "ReachableCondition ch"]) (auto simp: known_keys_def dest: fst_opt_field)
qed

lemma policy_active_member:
  assumes "zparse dp (variant ''policy.isActive''
    [req ''op'' (ZEnum [''is'', ''isNot'']), req ''policy'' (ZLitStr ''org-default'')]) j"
  shows "is_member dp j"
proof -
  from assms obtain kvs where j: "j = JObj kvs"
    by (rule object_cases)
  with assms obtain op where
    "map_of kvs ''op'' = Some (JStr (bool_op_id op))" "map_of kvs ''policy'' = Some (JStr ''org-default'')"
    by (auto simp: variant_fields)
  with assms show ?thesis unfolding j 
    by (elim memberI [where c = "PolicyIsActiveCondition op"]) (auto simp: known_keys_def dest: fst_opt_field)
qed

lemmas members =
  postcode_set_member postcode_eq_member email_domain_member
  survey_responded_member survey_answered_member event_rsvped_member journey_enrolled_member
  blast_received_member blast_replied_member geo_area_member poll_threshold_member
  custom_clause_member channel_consent_member not_suppressed_member reachable_member
  policy_active_member
  enum_member [of _ ContactState, simplified] enum_member [of _ ContactLocality, simplified]
  enum_member [of _ ContactTurf, simplified] enum_member [of _ ContactSupportLevel, simplified]
  enum_member [of _ TagTagged, simplified] enum_member [of _ ConsentSms, simplified]
  enum_member [of _ ConsentWhatsapp, simplified] enum_member [of _ SourceSystem, simplified]
  enum_member [of _ CanvassDispositionCode, simplified]
  bool_member [of _ ContactHasEmail, simplified] bool_member [of _ ContactHasPhone, simplified]
  bool_member [of _ ContactConsented, simplified]

lemma date_member: "z \<in> set (dateVariants (date_type_id t)) \<Longrightarrow> zparse dp z j \<Longrightarrow> is_member dp j"
  by (auto simp only: dateVariants_def list.set dest!: date_within_member date_point_member
      date_between_member)

lemmas date_members =
  date_member [of _ ContactCreatedAt, simplified date_type_id.simps]
  date_member [of _ ActivityLastActiveWithin, simplified date_type_id.simps]
  date_member [of _ CanvassDoorKnockedAt, simplified date_type_id.simps]
  date_member [of _ EmailOpenedAt, simplified date_type_id.simps]
  date_member [of _ EmailClickedAt, simplified date_type_id.simps]

lemma variant_member: "z \<in> set condition_variants \<Longrightarrow> zparse dp z j \<Longrightarrow> is_member dp j"
  unfolding condition_variants_def set_append Un_iff list.set insert_iff empty_iff
  by (elim disjE FalseE) (erule (1) date_members | (simp only:, erule members))+

lemma schema_iff_member: "zparse dp ConditionSchema j \<longleftrightarrow> is_member dp j"
proof
  assume "zparse dp ConditionSchema j"
  then obtain z where "z \<in> set condition_variants" "zparse dp z j"
    unfolding ConditionSchema_def zparse.simps list_ex_iff by blast
  then show "is_member dp j" by (rule variant_member)
next
  assume "is_member dp j"
  then obtain c where "wf_condition dp c" "same_props j (condition_json c)"
    by (auto simp: is_member_def)
  then show "zparse dp ConditionSchema j" by (simp add: schema_same_props schema_accepts)
qed

section \<open>The roster of types\<close>

lemma condition_type_in_roster: "condition_type c \<in> set CONDITION_TYPES"
proof (cases c)
  case (EnumCondition t op vs)
  then show ?thesis by (cases t) (simp_all add: CONDITION_TYPES_def)
next
  case (BoolCondition t op v)
  then show ?thesis by (cases t) (simp_all add: CONDITION_TYPES_def)
next
  case (DateCondition t d)
  then show ?thesis by (cases t) (simp_all add: CONDITION_TYPES_def)
qed (simp_all add: CONDITION_TYPES_def)

lemma member_type_in_roster:
  assumes "is_member dp j"
  shows "\<exists>t\<in>set CONDITION_TYPES. jget j ''type'' = Some (JStr t)"
proof -
  from assms obtain c where "same_props j (condition_json c)" by (auto simp: is_member_def)
  then have "jget j ''type'' = Some (JStr (condition_type c))"
    by (simp add: same_props_def condition_json_def)
  with condition_type_in_roster show ?thesis by blast
qed

section \<open>The schema against the typed union\<close>

text \<open>C31: The condition schema accepts exactly the JSON objects that carry the fields of a
  well-formed condition of the typed union: no member of the union is rejected, nothing else is accepted.\<close>

theorem condition_schema_exact:
  "zparse dp ConditionSchema j \<longleftrightarrow> (\<exists>c. wf_condition dp c \<and> same_props j (condition_json c))"
  using schema_iff_member [of dp j] by (simp add: is_member_def)

end
