(* ===== verification/Seg_Filter.thy ===== *)
theory Seg_Filter
  imports Seg_Conditions
begin

text \<open>
  The segment filter tree and its save-time authority:
  \<^verbatim>\<open>packages/segmentation/src/definition/types/filter.types.ts\<close>,
  \<^verbatim>\<open>validation/filter-bounds.ts\<close> and \<^verbatim>\<open>validation/filter.schema.ts\<close>.
  The validators run on raw JSON. \<open>node_count\<close> and \<open>group_depth\<close> are the recursive
  reference the iterative bound check is compared with; \<open>represents\<close> relates a JSON value to
  the typed tree \<open>filter_node\<close>. A rejection keeps its reason and condition type; of the
  human-readable \<open>detail\<close> only the machine-produced bound reason is kept.
\<close>

section \<open>The typed tree\<close>

datatype group_kind = All | Any | NoneOf

datatype filter_node =
    FilterGroup group_kind "filter_node list"
  | FilterCondition condition

fun group_kind_id :: "group_kind \<Rightarrow> string" where
  "group_kind_id All = ''all''"
| "group_kind_id Any = ''any''"
| "group_kind_id NoneOf = ''none''"

section \<open>The size and depth bound\<close>

definition MAX_FILTER_DEPTH :: nat where "MAX_FILTER_DEPTH = 2"
definition MAX_STRUCTURAL_FILTER_DEPTH :: nat where "MAX_STRUCTURAL_FILTER_DEPTH = 10"
definition MAX_FILTER_NODES :: nat where "MAX_FILTER_NODES = 200"
definition MAX_FILTER_GROUP_CHILDREN :: nat where "MAX_FILTER_GROUP_CHILDREN = MAX_FILTER_NODES"

datatype bound_reason = TooDeep | TooLarge

record FilterBoundsResult =
  bounds_ok :: bool
  bounds_reason :: "bound_reason option"
  bounds_depth :: nat
  bounds_nodeCount :: nat

definition GROUP_KINDS :: "string list" where
  "GROUP_KINDS = [''all'', ''any'', ''none'']"

definition isGroupLike :: "json \<Rightarrow> bool" where
  "isGroupLike node \<longleftrightarrow>
     is_object node \<and>
     (case jget node ''kind'' of Some (JStr k) \<Rightarrow> k \<in> set GROUP_KINDS | _ \<Rightarrow> False) \<and>
     (case jget node ''children'' of Some c \<Rightarrow> is_jarr c | None \<Rightarrow> False)"

definition raw_children :: "json \<Rightarrow> json list" where
  "raw_children node = (case jget node ''children'' of Some (JArr xs) \<Rightarrow> xs | _ \<Rightarrow> [])"

text \<open>
  One turn of the \<open>while\<close> loop per call. The stack's top is the list's head, so pushing the
  children one by one puts them there in reverse.
\<close>

function bounds_loop :: "(json \<times> nat) list \<Rightarrow> nat \<Rightarrow> nat \<Rightarrow> FilterBoundsResult" where
  "bounds_loop [] nodeCount maxDepth =
     \<lparr>bounds_ok = True, bounds_reason = None, bounds_depth = maxDepth, bounds_nodeCount = nodeCount\<rparr>"
| "bounds_loop ((node, groupDepth) # stack) nodeCount maxDepth =
     (let nodeCount = nodeCount + 1 in
      if nodeCount > MAX_FILTER_NODES
      then \<lparr>bounds_ok = False, bounds_reason = Some TooLarge, bounds_depth = maxDepth,
            bounds_nodeCount = nodeCount\<rparr>
      else if isGroupLike node
      then let depth = groupDepth + 1;
               maxDepth = (if depth > maxDepth then depth else maxDepth) in
           if depth > MAX_FILTER_DEPTH
           then \<lparr>bounds_ok = False, bounds_reason = Some TooDeep, bounds_depth = depth,
                 bounds_nodeCount = nodeCount\<rparr>
           else bounds_loop (map (\<lambda>c. (c, depth)) (rev (raw_children node)) @ stack) nodeCount maxDepth
      else bounds_loop stack nodeCount maxDepth)"
  by pat_completeness auto
termination
  by (relation "measure (\<lambda>(stack, nodeCount, maxDepth). MAX_FILTER_NODES - nodeCount)")
    (auto simp: MAX_FILTER_NODES_def)

definition checkFilterBounds :: "json \<Rightarrow> FilterBoundsResult" where
  "checkFilterBounds tree = bounds_loop [(tree, 0)] 0 0"

text \<open>The recursive reference.\<close>

lemma raw_children_size: "x \<in> set (raw_children j) \<Longrightarrow> size x < size j"
proof (cases j)
  case (JObj kvs)
  assume x: "x \<in> set (raw_children j)"
  then obtain xs where xs: "map_of kvs ''children'' = Some (JArr xs)" "x \<in> set xs"
    by (cases "map_of kvs ''children''" rule: option.exhaust)
      (auto simp: raw_children_def JObj split: json.splits)
  from size_json_child [OF xs(2)] have "size x < size (JArr xs)" by simp
  also have "\<dots> < Suc (size_list (size_prod (\<lambda>x. 0) size) kvs)" by (rule map_of_size [OF xs(1)])
  finally show ?thesis by (simp add: JObj)
qed (auto simp: raw_children_def)

function node_count :: "json \<Rightarrow> nat" where
  "node_count j = (if isGroupLike j then 1 + sum_list (map node_count (raw_children j)) else 1)"
  by pat_completeness auto
termination
  by (relation "measure size") (auto simp: raw_children_size)

function group_depth :: "json \<Rightarrow> nat" where
  "group_depth j =
     (if isGroupLike j then 1 + fold max (map group_depth (raw_children j)) 0 else 0)"
  by pat_completeness auto
termination
  by (relation "measure size") (auto simp: raw_children_size)

declare node_count.simps [simp del] group_depth.simps [simp del]

lemma fold_max_le: "fold max ns (m :: nat) \<le> d \<longleftrightarrow> m \<le> d \<and> (\<forall>n\<in>set ns. n \<le> d)"
  by (induction ns arbitrary: m) auto

lemma group_depth_le:
  "g + group_depth j \<le> d \<longleftrightarrow>
     g \<le> d \<and> (isGroupLike j \<longrightarrow> g + 1 \<le> d \<and> (\<forall>x\<in>set (raw_children j). g + 1 + group_depth x \<le> d))"
proof (cases "isGroupLike j")
  case True
  then have "group_depth j = 1 + fold max (map group_depth (raw_children j)) 0"
    by (simp add: group_depth.simps [of j])
  moreover have "fold max (map group_depth (raw_children j)) 0 \<le> d - g - 1 \<longleftrightarrow>
      (\<forall>x\<in>set (raw_children j). group_depth x \<le> d - g - 1)"
    by (simp add: fold_max_le)
  ultimately show ?thesis using True by auto
next
  case False
  then show ?thesis by (simp add: group_depth.simps [of j])
qed

definition stack_count :: "(json \<times> nat) list \<Rightarrow> nat" where
  "stack_count stack = sum_list (map (\<lambda>e. node_count (fst e)) stack)"

definition stack_within :: "(json \<times> nat) list \<Rightarrow> nat \<Rightarrow> bool" where
  "stack_within stack d \<longleftrightarrow> (\<forall>e\<in>set stack. snd e + group_depth (fst e) \<le> d)"

lemma stack_count_push:
  "isGroupLike node \<Longrightarrow>
   stack_count ((node, g) # stack) =
   1 + stack_count (map (\<lambda>c. (c, g + 1)) (rev (raw_children node)) @ stack)"
  by (simp add: stack_count_def node_count.simps [of node] comp_def rev_map [symmetric])

lemma stack_within_push:
  "isGroupLike node \<Longrightarrow>
   stack_within ((node, g) # stack) d \<longleftrightarrow>
   g + 1 \<le> d \<and> stack_within (map (\<lambda>c. (c, g + 1)) (rev (raw_children node)) @ stack) d"
  unfolding stack_within_def list.set ball_simps set_append ball_Un
  by (auto simp: group_depth_le [of g node])

lemma stack_leaf:
  "\<not> isGroupLike node \<Longrightarrow> stack_count ((node, g) # stack) = 1 + stack_count stack"
  "\<not> isGroupLike node \<Longrightarrow> stack_within ((node, g) # stack) d \<longleftrightarrow> g \<le> d \<and> stack_within stack d"
  by (auto simp: stack_count_def stack_within_def node_count.simps [of node] group_depth.simps [of node])

lemma node_count_pos: "1 \<le> node_count j"
  by (simp add: node_count.simps [of j])

lemma bounds_loop_spec:
  assumes "nodeCount \<le> 200" "maxDepth \<le> 2" "\<forall>e\<in>set stack. snd e \<le> maxDepth"
  shows "let r = bounds_loop stack nodeCount maxDepth in
    (bounds_ok r \<longleftrightarrow> nodeCount + stack_count stack \<le> 200 \<and> stack_within stack 2) \<and>
    (bounds_ok r \<longrightarrow> bounds_nodeCount r = nodeCount + stack_count stack \<and>
       (\<forall>d. bounds_depth r \<le> d \<longleftrightarrow> maxDepth \<le> d \<and> stack_within stack d))"
  using assms
proof (induction stack nodeCount maxDepth rule: bounds_loop.induct)
  case (1 nodeCount maxDepth)
  then show ?case by (simp add: stack_count_def stack_within_def)
next
  case (2 node g stack nodeCount maxDepth)
  consider (large) "nodeCount + 1 > 200"
    | (deep) "nodeCount + 1 \<le> 200" "isGroupLike node" "g + 1 > 2"
    | (group) "nodeCount + 1 \<le> 200" "isGroupLike node" "g + 1 \<le> 2"
    | (leaf) "nodeCount + 1 \<le> 200" "\<not> isGroupLike node" by linarith
  then show ?case
  proof cases
    case large
    then show ?thesis
      using node_count_pos [of node]
      by (simp add: MAX_FILTER_NODES_def stack_count_def)
  next
    case deep
    then show ?thesis
      by (simp add: MAX_FILTER_NODES_def MAX_FILTER_DEPTH_def stack_within_push)
  next
    case group
    define m where "m = max maxDepth (g + 1)"
    define stack' where "stack' = map (\<lambda>c. (c, g + 1)) (rev (raw_children node)) @ stack"
    have m: "(if g + 1 > maxDepth then g + 1 else maxDepth) = m" by (simp add: m_def)
    have pre: "\<forall>e\<in>set stack'. snd e \<le> m" "m \<le> 2"
      using "2.prems" group by (auto simp: stack'_def m_def)
    have eq: "bounds_loop ((node, g) # stack) nodeCount maxDepth = bounds_loop stack' (nodeCount + 1) m"
      using group by (simp add: MAX_FILTER_NODES_def MAX_FILTER_DEPTH_def Let_def stack'_def m_def max_def)
    have IH: "let r = bounds_loop stack' (nodeCount + 1) m in
        (bounds_ok r \<longleftrightarrow> nodeCount + 1 + stack_count stack' \<le> 200 \<and> stack_within stack' 2) \<and>
        (bounds_ok r \<longrightarrow> bounds_nodeCount r = nodeCount + 1 + stack_count stack' \<and>
          (\<forall>d. bounds_depth r \<le> d \<longleftrightarrow> m \<le> d \<and> stack_within stack' d))"
      using group "2.prems" pre
      by (intro "2.IH"(1) [OF refl _ _ refl, of "if g + 1 > maxDepth then g + 1 else maxDepth",
            unfolded m, folded stack'_def])
        (auto simp: MAX_FILTER_NODES_def MAX_FILTER_DEPTH_def)
    show ?thesis
      unfolding eq using IH group
      by (auto simp: Let_def stack_count_push [OF group(2)] stack_within_push [OF group(2)]
          stack'_def m_def)
  next
    case leaf
    then show ?thesis
      using "2.IH"(2) [OF refl] "2.prems"
      by (auto simp: MAX_FILTER_NODES_def Let_def stack_leaf)
  qed
qed

lemma checkFilterBounds_ok:
  "bounds_ok (checkFilterBounds j) \<longleftrightarrow> node_count j \<le> 200 \<and> group_depth j \<le> 2"
  using bounds_loop_spec [of 0 0 "[(j, 0)]"]
  by (simp add: checkFilterBounds_def stack_count_def stack_within_def Let_def)

lemma checkFilterBounds_reports_facts:
  assumes "bounds_ok (checkFilterBounds j)"
  shows "bounds_nodeCount (checkFilterBounds j) = node_count j"
    and "bounds_depth (checkFilterBounds j) = group_depth j"
proof -
  note spec = bounds_loop_spec [of 0 0 "[(j, 0)]"]
  show "bounds_nodeCount (checkFilterBounds j) = node_count j"
    using spec assms by (simp add: checkFilterBounds_def stack_count_def Let_def)
  have "\<forall>d. bounds_depth (checkFilterBounds j) \<le> d \<longleftrightarrow> group_depth j \<le> d"
    using spec assms by (simp add: checkFilterBounds_def stack_within_def Let_def)
  then show "bounds_depth (checkFilterBounds j) = group_depth j" by (metis order_antisym order_refl)
qed

text \<open>When the bound check accepts a filter, the node count and depth that its iterative walk reports
  are those of the recursive reference definitions.\<close>

lemma checkFilterBounds_reports:
  assumes "bounds_ok (checkFilterBounds j)"
  shows "bounds_nodeCount (checkFilterBounds j) = node_count j \<and> bounds_depth (checkFilterBounds j) = group_depth j"
  using checkFilterBounds_reports_facts [OF assms] by simp

section \<open>The structural schema\<close>

definition ConditionLeafSchema :: zschema where
  "ConditionLeafSchema =
     ZObject True
       [req ''kind'' (ZLitStr ''condition''),
        req ''condition'' (ZObject False [req ''type'' (ZString (Some 1) None)])]"

fun buildFilterNodeSchema :: "nat \<Rightarrow> zschema" where
  "buildFilterNodeSchema 0 = ConditionLeafSchema"
| "buildFilterNodeSchema (Suc level) =
     ZUnion
       [ConditionLeafSchema,
        ZObject True
          [req ''kind'' (ZEnum GROUP_KINDS),
           req ''children'' (ZArray (buildFilterNodeSchema level) None (Some MAX_FILTER_GROUP_CHILDREN))]]"

definition FilterNodeSchema :: zschema where
  "FilterNodeSchema = buildFilterNodeSchema MAX_STRUCTURAL_FILTER_DEPTH"

section \<open>Collecting the leaves\<close>

definition is_condition_node :: "json \<Rightarrow> bool" where
  "is_condition_node node \<longleftrightarrow> jget node ''kind'' = Some (JStr ''condition'')"

text \<open>
  The loop of \<open>collectLeafConditions\<close>; \<open>None\<close> is the \<open>TypeError\<close> of iterating a missing
  \<open>children\<close>. A collected value is \<open>None\<close> where the property is \<open>undefined\<close>.
\<close>

function collect_loop :: "json list \<Rightarrow> json option list \<Rightarrow> json option list option" where
  "collect_loop [] conditions = Some conditions"
| "collect_loop (node # stack) conditions =
     (if is_condition_node node
      then collect_loop stack (conditions @ [jget node ''condition''])
      else case jget node ''children'' of
             Some (JArr xs) \<Rightarrow> collect_loop (rev xs @ stack) conditions
           | _ \<Rightarrow> None)"
  by pat_completeness auto

lemma sum_Suc_size: "sum_list (map (\<lambda>x. Suc (size x)) xs) = size_list size xs"
  by (induction xs) auto

lemma children_size: "jget j ''children'' = Some (JArr xs) \<Longrightarrow> size_list size xs < size j"
  by (cases j) (auto dest!: map_of_size)

lemma size_list_rev: "size_list f (rev xs) = size_list f xs"
  by (induction xs) (auto simp: size_list_append)

termination collect_loop
  by (relation "measure (\<lambda>(stack, cs). sum_list (map (\<lambda>x. Suc (size x)) stack))")
    (auto simp: sum_Suc_size size_list_rev dest!: children_size)

definition collectLeafConditions :: "json \<Rightarrow> json option list option" where
  "collectLeafConditions tree = collect_loop [tree] []"

definition leafType :: "json option \<Rightarrow> string" where
  "leafType condition =
     (case condition of
        Some c \<Rightarrow>
          if is_object c
          then (case jget c ''type'' of Some (JStr t) \<Rightarrow> t | _ \<Rightarrow> [])
          else []
      | None \<Rightarrow> [])"

section \<open>The save-time guard\<close>

datatype AuthoredFilterRejectionReason =
  DepthBound | Shape | UnknownType | L2InL1 | L3InL1 | DanglingClause

datatype AuthoredFilterResult =
    FilterOk
  | FilterRejected AuthoredFilterRejectionReason "string option" "bound_reason option"
  | FilterTypeError

definition parse_unknown :: "(zschema \<Rightarrow> json \<Rightarrow> bool) \<Rightarrow> zschema \<Rightarrow> json option \<Rightarrow> bool" where
  "parse_unknown safeParse z v = (case v of None \<Rightarrow> False | Some j \<Rightarrow> safeParse z j)"

text \<open>The body of the per-leaf loop: \<open>None\<close> when the leaf passes.\<close>

definition check_leaf ::
  "(zschema \<Rightarrow> json \<Rightarrow> bool) \<Rightarrow> string list option \<Rightarrow> json option \<Rightarrow> AuthoredFilterResult option" where
  "check_leaf safeParse customClauseIds condition =
     (let type = leafType condition in
      if conditionLayer type = L2 then Some (FilterRejected L2InL1 (Some type) None)
      else if conditionLayer type = L3 then Some (FilterRejected L3InL1 (Some type) None)
      else if \<not> parse_unknown safeParse ConditionSchema condition
      then (if type \<in> set CONDITION_TYPES
            then Some (FilterRejected Shape (Some type) None)
            else Some (FilterRejected UnknownType (Some type) None))
      else if type = ''custom.clause''
      then (case customClauseIds of
              Some ids \<Rightarrow>
                (case Option.bind condition (\<lambda>c. jget c ''clauseRef'') of
                   Some (JStr ref) \<Rightarrow>
                     if ref \<in> set ids then None
                     else Some (FilterRejected DanglingClause (Some type) None)
                 | _ \<Rightarrow> Some (FilterRejected DanglingClause (Some type) None))
            | None \<Rightarrow> None)
      else None)"

fun check_leaves ::
  "(zschema \<Rightarrow> json \<Rightarrow> bool) \<Rightarrow> string list option \<Rightarrow> json option list \<Rightarrow> AuthoredFilterResult" where
  "check_leaves safeParse ids [] = FilterOk"
| "check_leaves safeParse ids (c # cs) =
     (case check_leaf safeParse ids c of Some r \<Rightarrow> r | None \<Rightarrow> check_leaves safeParse ids cs)"

definition validateAuthoredFilter ::
  "(zschema \<Rightarrow> json \<Rightarrow> bool) \<Rightarrow> json \<Rightarrow> string list option \<Rightarrow> AuthoredFilterResult" where
  "validateAuthoredFilter safeParse tree customClauseIds =
     (let bounds = checkFilterBounds tree in
      if \<not> bounds_ok bounds
      then FilterRejected DepthBound None
             (Some (case bounds_reason bounds of Some r \<Rightarrow> r | None \<Rightarrow> TooLarge))
      else if \<not> safeParse FilterNodeSchema tree then FilterRejected Shape None None
      else case collectLeafConditions tree of
             None \<Rightarrow> FilterTypeError
           | Some conditions \<Rightarrow> check_leaves safeParse customClauseIds conditions)"

section \<open>The typed reading of a JSON tree\<close>

definition only_keys :: "string list \<Rightarrow> json \<Rightarrow> bool" where
  "only_keys ks j \<longleftrightarrow> (case j of JObj kvs \<Rightarrow> set (map fst kvs) \<subseteq> set ks | _ \<Rightarrow> False)"

fun represents :: "json \<Rightarrow> filter_node \<Rightarrow> bool" where
  "represents j (FilterCondition c) \<longleftrightarrow>
     only_keys [''kind'', ''condition''] j \<and> jget j ''kind'' = Some (JStr ''condition'') \<and>
     (\<exists>jc. jget j ''condition'' = Some jc \<and> same_props jc (condition_json c))"
| "represents j (FilterGroup k ts) \<longleftrightarrow>
     only_keys [''kind'', ''children''] j \<and> jget j ''kind'' = Some (JStr (group_kind_id k)) \<and>
     (\<exists>xs. jget j ''children'' = Some (JArr xs) \<and> list_all2 represents xs ts)"

fun tree_conditions :: "filter_node \<Rightarrow> condition list" where
  "tree_conditions (FilterCondition c) = [c]"
| "tree_conditions (FilterGroup k ts) = concat (map tree_conditions ts)"

fun tree_nodes :: "filter_node \<Rightarrow> nat" where
  "tree_nodes (FilterCondition c) = 1"
| "tree_nodes (FilterGroup k ts) = 1 + sum_list (map tree_nodes ts)"

fun tree_depth :: "filter_node \<Rightarrow> nat" where
  "tree_depth (FilterCondition c) = 0"
| "tree_depth (FilterGroup k ts) = 1 + fold max (map tree_depth ts) 0"

text \<open>What the guard promises of a stored filter.\<close>

definition authorable :: "(string \<Rightarrow> bool) \<Rightarrow> string list option \<Rightarrow> condition \<Rightarrow> bool" where
  "authorable dp ids c \<longleftrightarrow>
     isAuthorableLayer (condition_type c) \<and> wf_condition dp c \<and>
     (case c of CustomClauseCondition ref \<Rightarrow> (case ids of None \<Rightarrow> True | Some rs \<Rightarrow> ref \<in> set rs) | _ \<Rightarrow> True)"

definition authorable_tree :: "(string \<Rightarrow> bool) \<Rightarrow> string list option \<Rightarrow> filter_node \<Rightarrow> bool" where
  "authorable_tree dp ids t \<longleftrightarrow>
     tree_nodes t \<le> 200 \<and> tree_depth t \<le> 2 \<and> (\<forall>c\<in>set (tree_conditions t). authorable dp ids c)"

section \<open>What the guard accepts\<close>

lemma only_keys_strict:
  "only_keys (map fst fs) j \<and> (\<forall>f\<in>set fs. case jget j (fst f) of None \<Rightarrow> fst (snd f) | Some v \<Rightarrow> zparse dp (snd (snd f)) v)
   \<longleftrightarrow> zparse dp (ZObject True fs) j"
  by (cases j) (auto simp: only_keys_def known_keys_def list_all_iff)

lemma parse_leaf_node:
  "zparse dp ConditionLeafSchema j \<longleftrightarrow>
     only_keys [''kind'', ''condition''] j \<and> is_condition_node j \<and>
     (\<exists>kvs t. jget j ''condition'' = Some (JObj kvs) \<and> map_of kvs ''type'' = Some (JStr t) \<and> t \<noteq> [])"
proof -
  have "zparse dp (ZObject False [req ''type'' (ZString (Some 1) None)]) v \<longleftrightarrow>
      (\<exists>kvs t. v = JObj kvs \<and> map_of kvs ''type'' = Some (JStr t) \<and> t \<noteq> [])" for v
    by (cases v) (auto split: json.splits option.splits simp: Suc_le_eq)
  then show ?thesis
    by (simp add: ConditionLeafSchema_def only_keys_strict [symmetric] is_condition_node_def
        del: zparse.simps(9)) (auto split: option.splits)
qed

lemma set_group_kind_id: "set GROUP_KINDS = range group_kind_id"
proof
  show "set GROUP_KINDS \<subseteq> range group_kind_id"
    by (simp add: GROUP_KINDS_def image_def) (metis group_kind_id.simps)
  show "range group_kind_id \<subseteq> set GROUP_KINDS"
  proof (rule image_subsetI)
    fix k show "group_kind_id k \<in> set GROUP_KINDS" by (cases k) (simp_all add: GROUP_KINDS_def)
  qed
qed

lemma parse_group_kind [simp]:
  "zparse dp (ZEnum GROUP_KINDS) j \<longleftrightarrow> (\<exists>k. j = JStr (group_kind_id k))"
  by (cases j) (auto simp: zparse.simps(3) set_group_kind_id)

lemma parse_group_node:
  "zparse dp (ZObject True [req ''kind'' (ZEnum GROUP_KINDS),
      req ''children'' (ZArray z None (Some MAX_FILTER_GROUP_CHILDREN))]) j \<longleftrightarrow>
     only_keys [''kind'', ''children''] j \<and> (\<exists>k. jget j ''kind'' = Some (JStr (group_kind_id k))) \<and>
     (\<exists>xs. jget j ''children'' = Some (JArr xs) \<and> length xs \<le> 200 \<and> (\<forall>x\<in>set xs. zparse dp z x))"
proof -
  have "zparse dp (ZArray z None (Some MAX_FILTER_GROUP_CHILDREN)) v \<longleftrightarrow>
      (\<exists>xs. v = JArr xs \<and> length xs \<le> 200 \<and> (\<forall>x\<in>set xs. zparse dp z x))" for v
    by (cases v) (auto simp: zparse.simps(8) MAX_FILTER_GROUP_CHILDREN_def MAX_FILTER_NODES_def list_all_iff)
  then show ?thesis
    by (simp add: only_keys_strict [symmetric] del: zparse.simps(9)) (auto split: option.splits)
qed

lemma parse_node_Suc:
  "zparse dp (buildFilterNodeSchema (Suc n)) j \<longleftrightarrow>
     zparse dp ConditionLeafSchema j \<or>
     only_keys [''kind'', ''children''] j \<and> (\<exists>k. jget j ''kind'' = Some (JStr (group_kind_id k))) \<and>
     (\<exists>xs. jget j ''children'' = Some (JArr xs) \<and> length xs \<le> 200 \<and>
        (\<forall>x\<in>set xs. zparse dp (buildFilterNodeSchema n) x))"
  unfolding buildFilterNodeSchema.simps zparse.simps(10) list_ex_iff
  using parse_group_node by simp

lemma group_kind_not_condition: "group_kind_id k \<noteq> ''condition''"
  by (cases k) simp_all

lemma is_object_jget: "jget j k = Some v \<Longrightarrow> is_object j"
  by (cases j) (auto simp: is_object_def)

lemma isGroupLike_group:
  "jget j ''kind'' = Some (JStr (group_kind_id k)) \<Longrightarrow> jget j ''children'' = Some (JArr xs) \<Longrightarrow>
   isGroupLike j \<and> raw_children j = xs \<and> \<not> is_condition_node j"
  using group_kind_not_condition [of k] set_group_kind_id
  by (auto simp: isGroupLike_def raw_children_def is_condition_node_def is_object_jget)

lemma not_group_condition: "is_condition_node j \<Longrightarrow> \<not> isGroupLike j"
  by (simp add: is_condition_node_def isGroupLike_def GROUP_KINDS_def)

text \<open>The leaves of a structurally valid value, left to right.\<close>

function leaves :: "json \<Rightarrow> json option list" where
  "leaves j =
     (if is_condition_node j then [jget j ''condition''] else concat (map leaves (raw_children j)))"
  by pat_completeness auto
termination
  by (relation "measure size") (auto simp: raw_children_size)

declare leaves.simps [simp del]

definition structural :: "json \<Rightarrow> bool" where
  "structural j \<longleftrightarrow> (\<exists>dp n. zparse dp (buildFilterNodeSchema n) j)"

lemma structural_cases:
  assumes "structural j"
  obtains (leaf) "is_condition_node j"
    | (group) xs where "jget j ''children'' = Some (JArr xs)" "\<not> is_condition_node j"
        "raw_children j = xs" "\<forall>x\<in>set xs. structural x"
proof -
  from assms obtain dp n where parse: "zparse dp (buildFilterNodeSchema n) j"
    by (auto simp: structural_def)
  show thesis
  proof (cases "zparse dp ConditionLeafSchema j")
    case True
    then show thesis using leaf by (simp add: parse_leaf_node)
  next
    case False
    with parse obtain m where "n = Suc m" by (cases n) auto
    with parse False show thesis
      using group isGroupLike_group unfolding structural_def by (metis parse_node_Suc)
  qed
qed

lemma collect_loop_leaves:
  "\<forall>j\<in>set stack. structural j \<Longrightarrow>
   collect_loop stack cs = Some (cs @ concat (map (\<lambda>j. rev (leaves j)) stack))"
proof (induction stack cs rule: collect_loop.induct)
  case (2 node stack cs)
  from "2.prems" have "structural node" by simp
  then show ?case
  proof (cases rule: structural_cases)
    case leaf
    with 2 show ?thesis by (simp add: leaves.simps [of node])
  next
    case (group xs)
    then have "collect_loop (node # stack) cs = collect_loop (rev xs @ stack) cs" by simp
    also have "\<dots> = Some (cs @ concat (map (\<lambda>j. rev (leaves j)) (rev xs @ stack)))"
      by (rule "2.IH"(2) [OF group(2) group(1) refl]) (use "2.prems" group(4) in auto)
    finally show ?thesis
      using group by (simp add: leaves.simps [of node] rev_concat rev_map comp_def)
  qed
qed simp

lemma collectLeafConditions_leaves:
  "structural j \<Longrightarrow> collectLeafConditions j = Some (rev (leaves j))"
  using collect_loop_leaves [of "[j]" "[]"] by (simp add: collectLeafConditions_def del: collect_loop.simps)

lemma check_leaf_not_ok: "check_leaf sp ids c \<noteq> Some FilterOk"
  by (simp add: check_leaf_def Let_def split: option.splits json.splits)

lemma check_leaves_ok:
  "check_leaves sp ids cs = FilterOk \<longleftrightarrow> (\<forall>c\<in>set cs. check_leaf sp ids c = None)"
  by (induction cs) (auto simp: check_leaf_not_ok split: option.splits)

lemma same_props_type:
  "same_props jc (condition_json c) \<Longrightarrow> jget jc ''type'' = Some (JStr (condition_type c))"
  by (simp add: same_props_def condition_json_def)

lemma same_props_leafType: "same_props jc (condition_json c) \<Longrightarrow> leafType (Some jc) = condition_type c"
  by (simp add: leafType_def same_props_type is_object_jget [OF same_props_type])

lemma custom_clause_type: "condition_type c = ''custom.clause'' \<longleftrightarrow> (\<exists>ref. c = CustomClauseCondition ref)"
proof (cases c)
  case (EnumCondition t op vs)
  then show ?thesis by (cases t) simp_all
next
  case (BoolCondition t op v)
  then show ?thesis by (cases t) simp_all
next
  case (DateCondition t d)
  then show ?thesis by (cases t) simp_all
qed simp_all

lemma same_props_clauseRef:
  "same_props jc (condition_json (CustomClauseCondition ref)) \<Longrightarrow> jget jc ''clauseRef'' = Some (JStr ref)"
  by (simp add: same_props_def condition_json_def)

lemma check_leaf_ok:
  assumes "zod_parser sp dp"
  shows "check_leaf sp ids (Some jc) = None \<longleftrightarrow>
    (\<exists>c. same_props jc (condition_json c) \<and> authorable dp ids c)"
proof -
  have sp: "sp = zparse dp" by (rule zod_parser.safeParse_fun [OF assms])
  have *: "check_leaf sp ids (Some jc) = None \<longleftrightarrow> authorable dp ids c"
    if c: "same_props jc (condition_json c)" "wf_condition dp c" for c
  proof -
    from c have parsed: "zparse dp ConditionSchema jc" by (auto simp: schema_iff_member is_member_def)
    show ?thesis
    proof (cases "condition_type c = ''custom.clause''")
      case True
      then obtain ref where "c = CustomClauseCondition ref" by (auto simp: custom_clause_type)
      then show ?thesis
        using c parsed same_props_clauseRef [of jc ref]
        by (auto simp: check_leaf_def Let_def sp parse_unknown_def same_props_leafType authorable_def
            isAuthorableLayer_def conditionLayer_def starts_with_def split: option.splits)
    next
      case False
      then have "authorable dp ids c \<longleftrightarrow> conditionLayer (condition_type c) = L1"
        using c by (auto simp: authorable_def isAuthorableLayer_def split: condition.splits)
      then show ?thesis
        using c parsed False
        by (cases "conditionLayer (condition_type c)")
          (simp_all add: check_leaf_def Let_def sp parse_unknown_def same_props_leafType)
    qed
  qed
  show ?thesis
  proof
    assume ok: "check_leaf sp ids (Some jc) = None"
    then have "is_member dp jc"
      by (simp add: check_leaf_def Let_def sp parse_unknown_def schema_iff_member split: if_splits)
    then show "\<exists>c. same_props jc (condition_json c) \<and> authorable dp ids c"
      using * ok by (auto simp: is_member_def)
  next
    assume "\<exists>c. same_props jc (condition_json c) \<and> authorable dp ids c"
    then show "check_leaf sp ids (Some jc) = None" using * by (auto simp: authorable_def)
  qed
qed

lemma represents_counts:
  "represents j t \<Longrightarrow> node_count j = tree_nodes t \<and> group_depth j = tree_depth t"
proof (induction t arbitrary: j)
  case (FilterCondition c)
  then have "\<not> isGroupLike j" by (simp add: not_group_condition is_condition_node_def)
  then show ?case by (simp add: node_count.simps [of j] group_depth.simps [of j])
next
  case (FilterGroup k ts)
  then obtain xs where j: "jget j ''kind'' = Some (JStr (group_kind_id k))"
      "jget j ''children'' = Some (JArr xs)" and xs: "list_all2 represents xs ts" by auto
  from xs FilterGroup.IH have "map node_count xs = map tree_nodes ts \<and> map group_depth xs = map tree_depth ts"
    by (induction xs ts rule: list_all2_induct) auto
  then show ?case
    using isGroupLike_group [OF j] by (simp add: node_count.simps [of j] group_depth.simps [of j])
qed

lemma represents_leaves:
  "represents j t \<Longrightarrow>
   list_all2 (\<lambda>v c. \<exists>jc. v = Some jc \<and> same_props jc (condition_json c)) (leaves j) (tree_conditions t)"
proof (induction t arbitrary: j)
  case (FilterCondition c)
  then show ?case by (auto simp: leaves.simps [of j] is_condition_node_def)
next
  case (FilterGroup k ts)
  then obtain xs where j: "jget j ''kind'' = Some (JStr (group_kind_id k))"
      "jget j ''children'' = Some (JArr xs)" and xs: "list_all2 represents xs ts" by auto
  from xs FilterGroup.IH
  have "list_all2 (\<lambda>v c. \<exists>jc. v = Some jc \<and> same_props jc (condition_json c))
      (concat (map leaves xs)) (concat (map tree_conditions ts))"
    by (induction xs ts rule: list_all2_induct) (auto intro: list_all2_appendI)
  then show ?case using isGroupLike_group [OF j] by (simp add: leaves.simps [of j])
qed

text \<open>A structurally valid value whose leaves are members is a typed tree.\<close>

lemma parse_represents:
  assumes "zparse dp (buildFilterNodeSchema n) j"
    and "\<forall>v\<in>set (leaves j). \<exists>jc c. v = Some jc \<and> same_props jc (condition_json c) \<and> P c"
  shows "\<exists>t. represents j t \<and> (\<forall>c\<in>set (tree_conditions t). P c)"
  using assms
proof (induction n arbitrary: j)
  case 0
  then show ?case
    by (auto simp: parse_leaf_node leaves.simps [of j] is_condition_node_def
        intro: exI [of _ "FilterCondition _"])
next
  case (Suc n)
  show ?case
  proof (cases "zparse dp ConditionLeafSchema j")
    case True
    with Suc.prems show ?thesis
      by (auto simp: parse_leaf_node leaves.simps [of j] is_condition_node_def
          intro: exI [of _ "FilterCondition _"])
  next
    case False
    with Suc.prems(1) obtain k xs where j: "only_keys [''kind'', ''children''] j"
        "jget j ''kind'' = Some (JStr (group_kind_id k))" "jget j ''children'' = Some (JArr xs)"
      and xs: "\<forall>x\<in>set xs. zparse dp (buildFilterNodeSchema n) x"
      unfolding parse_node_Suc by blast
    have "leaves j = concat (map leaves xs)"
      using isGroupLike_group [OF j(2,3)] by (simp add: leaves.simps [of j])
    with Suc xs have "\<forall>x\<in>set xs. \<exists>t. represents x t \<and> (\<forall>c\<in>set (tree_conditions t). P c)" by auto
    then obtain f where f: "\<forall>x\<in>set xs. represents x (f x) \<and> (\<forall>c\<in>set (tree_conditions (f x)). P c)"
      by metis
    then have "list_all2 represents xs (map f xs)" by (simp add: list_all2_conv_all_nth)
    with j f have "represents j (FilterGroup k (map f xs))"
      and "\<forall>c\<in>set (tree_conditions (FilterGroup k (map f xs))). P c" by auto
    then show ?thesis by blast
  qed
qed

lemma node_count_child: "x \<in> set xs \<Longrightarrow> node_count x \<le> sum_list (map node_count xs)"
  by (simp add: member_le_sum_list)

lemma length_node_count: "length xs \<le> sum_list (map node_count xs)"
  proof (induction xs)
  case (Cons x xs)
  then show ?case using node_count_pos [of x] by simp
qed simp

lemma represents_parse:
  assumes "represents j t" "node_count j \<le> 200" "tree_depth t \<le> n"
  shows "zparse dp (buildFilterNodeSchema n) j"
  using assms
proof (induction t arbitrary: j n)
  case (FilterCondition c)
  then obtain jc where jc: "jget j ''condition'' = Some jc" "same_props jc (condition_json c)" by auto
  have "condition_type c \<noteq> []" using condition_type_in_roster [of c] by (auto simp: CONDITION_TYPES_def)
  moreover obtain kvs where "jc = JObj kvs" using jc(2) by (cases jc) (auto simp: same_props_def)
  ultimately have leaf: "zparse dp ConditionLeafSchema j"
    using FilterCondition.prems(1) jc same_props_type [OF jc(2)]
    by (auto simp: parse_leaf_node is_condition_node_def)
  then show ?case by (cases n) (simp_all add: parse_node_Suc del: zparse.simps(10) buildFilterNodeSchema.simps(2))
next
  case (FilterGroup k ts)
  then obtain xs where j: "only_keys [''kind'', ''children''] j"
      "jget j ''kind'' = Some (JStr (group_kind_id k))" "jget j ''children'' = Some (JArr xs)"
    and xs: "list_all2 represents xs ts" by auto
  from FilterGroup.prems(3) obtain m where n: "n = Suc m" by (cases n) auto
  have sum: "1 + sum_list (map node_count xs) \<le> 200"
    using FilterGroup.prems(2) isGroupLike_group [OF j(2,3)] by (simp add: node_count.simps [of j])
  have depth: "\<forall>t\<in>set ts. tree_depth t \<le> m"
    using FilterGroup.prems(3) by (simp add: n fold_max_le)
  have "zparse dp (buildFilterNodeSchema m) x" if "x \<in> set xs" for x
  proof -
    from xs that obtain t where "t \<in> set ts" "represents x t"
      by (fastforce simp: list_all2_conv_all_nth in_set_conv_nth)
    with depth node_count_child [OF that] sum FilterGroup.IH show ?thesis by auto
  qed
  moreover have "length xs \<le> 200" using length_node_count [of xs] sum by simp
  ultimately show ?case unfolding n parse_node_Suc using j by blast
qed

lemma guard_accepts_iff:
  assumes "zod_parser sp dp"
  shows "validateAuthoredFilter sp j ids = FilterOk \<longleftrightarrow>
    (\<exists>t. represents j t \<and> authorable_tree dp ids t)"
proof -
  have sp: "sp = zparse dp" by (rule zod_parser.safeParse_fun [OF assms])
  have parsed: "zparse dp FilterNodeSchema j \<Longrightarrow> collectLeafConditions j = Some (rev (leaves j))"
    using collectLeafConditions_leaves unfolding structural_def FilterNodeSchema_def by blast
  have guard: "validateAuthoredFilter sp j ids = FilterOk \<longleftrightarrow>
      node_count j \<le> 200 \<and> group_depth j \<le> 2 \<and> zparse dp FilterNodeSchema j \<and>
      (\<forall>v\<in>set (leaves j). check_leaf sp ids v = None)"
    using checkFilterBounds_ok [of j] parsed
    by (auto simp: validateAuthoredFilter_def Let_def sp check_leaves_ok)
  show ?thesis
  proof
    assume ok: "validateAuthoredFilter sp j ids = FilterOk"
    have leaf: "\<exists>jc c. v = Some jc \<and> same_props jc (condition_json c) \<and> authorable dp ids c"
      if "v \<in> set (leaves j)" for v
    proof (cases v)
      case None
      with that ok guard show ?thesis
        by (auto simp: check_leaf_def leafType_def conditionLayer_def starts_with_def
            parse_unknown_def CONDITION_TYPES_def)
    next
      case (Some jc)
      with that ok guard check_leaf_ok [OF assms, of ids jc] show ?thesis by auto
    qed
    from ok guard leaf obtain t where t: "represents j t"
      and "\<forall>c\<in>set (tree_conditions t). authorable dp ids c"
      using parse_represents [of dp MAX_STRUCTURAL_FILTER_DEPTH j "authorable dp ids"]
      unfolding FilterNodeSchema_def by blast
    with ok guard represents_counts [OF t] show "\<exists>t. represents j t \<and> authorable_tree dp ids t"
      by (auto simp: authorable_tree_def)
  next
    assume "\<exists>t. represents j t \<and> authorable_tree dp ids t"
    then obtain t where t: "represents j t" "authorable_tree dp ids t" by blast
    have "zparse dp FilterNodeSchema j"
      using t represents_counts [OF t(1)]
      by (auto simp: FilterNodeSchema_def authorable_tree_def MAX_STRUCTURAL_FILTER_DEPTH_def
          intro!: represents_parse [OF t(1)] simp del: buildFilterNodeSchema.simps)
    moreover have "check_leaf sp ids v = None" if "v \<in> set (leaves j)" for v
    proof -
      from represents_leaves [OF t(1)] that obtain jc c where
          "v = Some jc" "same_props jc (condition_json c)" "c \<in> set (tree_conditions t)"
        by (fastforce simp: list_all2_conv_all_nth in_set_conv_nth)
      with t(2) check_leaf_ok [OF assms, of ids jc] show ?thesis by (auto simp: authorable_tree_def)
    qed
    ultimately show "validateAuthoredFilter sp j ids = FilterOk"
      using t represents_counts [OF t(1)] guard by (auto simp: authorable_tree_def)
  qed
qed

text \<open>An accepted filter's leaves are the conditions of the typed tree it stands for.\<close>

lemma represents_structural:
  assumes "represents j t" "authorable_tree dp ids t"
  shows "structural j"
proof -
  have "zparse dp (buildFilterNodeSchema 2) j"
    using assms represents_counts [OF assms(1)]
    by (auto simp: authorable_tree_def intro!: represents_parse [OF assms(1)] simp del: buildFilterNodeSchema.simps)
  then show ?thesis unfolding structural_def by blast
qed

lemma represents_leafTypes:
  "represents j t \<Longrightarrow> map leafType (leaves j) = map condition_type (tree_conditions t)"
  using represents_leaves [of j t]
  by (auto simp: list_all2_conv_all_nth same_props_leafType intro!: nth_equalityI)

text \<open>C3: The authoring guard accepts a JSON filter exactly when it is the encoding of a typed filter
  tree within the bounds, whose every condition is well-formed, authorable in the intent layer and
  refers only to the segment's own custom clauses.\<close>

theorem validate_sound_complete:
  assumes "zod_parser sp dp"
  shows "validateAuthoredFilter sp j ids = FilterOk \<longleftrightarrow>
    (\<exists>t. represents j t \<and> authorable_tree dp ids t)"
  by (rule guard_accepts_iff [OF assms])

definition sample_filter :: json where
  "sample_filter = JObj [(''kind'', JStr ''all''), (''children'', JArr [])]"

theorem validate_sound_complete_witness:
  "validateAuthoredFilter (zparse (\<lambda>s. True)) sample_filter None = FilterOk \<longleftrightarrow>
   (\<exists>t. represents sample_filter t \<and> authorable_tree (\<lambda>s. True) None t)"
  by (rule validate_sound_complete) (rule zod_reference.zod_parser_axioms)

theorem checkFilterBounds_reports_witness: "bounds_nodeCount (checkFilterBounds sample_filter) = 1"
  using checkFilterBounds_reports [of sample_filter]
  by (simp add: checkFilterBounds_ok sample_filter_def node_count.simps group_depth.simps isGroupLike_def
      GROUP_KINDS_def raw_children_def)

end
