(* ===== verification/Seg_Definition.thy ===== *)
theory Seg_Definition
  imports Seg_Filter
begin

text \<open>
  The stored segment specification:
  \<^verbatim>\<open>packages/segmentation/src/definition/types/segment-definition.types.ts\<close> and
  \<^verbatim>\<open>validation/segment-definition.schema.ts\<close>. The records are the typed envelope, the
  \<open>zschema\<close> values its runtime authority, and \<open>detectDefinitionFormat\<close> the shape test the
  evaluator routes on. The lemmas tie the router to the schema: what the v2 schema accepts is
  routed to the v2 evaluator, and the defaults a new segment starts with pass the schema.
\<close>

section \<open>The typed envelope\<close>

record FatiguePolicy =
  fatigue_enabled :: bool
  windowHours :: int
  maxSends :: int

record IsActivePolicy =
  isActive_enabled :: bool
  active_predicate :: filter_node

record SegmentPolicy =
  fatigue :: FatiguePolicy
  isActive :: IsActivePolicy

record SegmentCustomClause =
  clause_id :: string
  clause_label :: string
  clause_intent :: string
  clause_predicate :: string

record SegmentDefinitionV2 =
  def_filter :: filter_node
  def_policy :: SegmentPolicy
  def_customClauses :: "SegmentCustomClause list option"

definition DEFAULT_IS_ACTIVE_PREDICATE :: filter_node where
  "DEFAULT_IS_ACTIVE_PREDICATE =
     FilterCondition (DateCondition ActivityLastActiveWithin (Within 365))"

definition DEFAULT_SEGMENT_POLICY :: SegmentPolicy where
  "DEFAULT_SEGMENT_POLICY =
     \<lparr>fatigue = \<lparr>fatigue_enabled = False, windowHours = 72, maxSends = 3\<rparr>,
      isActive = \<lparr>isActive_enabled = False, active_predicate = DEFAULT_IS_ACTIVE_PREDICATE\<rparr>\<rparr>"

section \<open>The schemas\<close>

definition FatigueSchema :: zschema where
  "FatigueSchema =
     ZObject True
       [req ''enabled'' ZBoolean,
        req ''windowHours'' (ZNumber [ZInt, ZMin 1, ZMax 2160]),
        req ''maxSends'' (ZNumber [ZInt, ZMin 1, ZMax 100])]"

definition SegmentPolicySchema :: zschema where
  "SegmentPolicySchema =
     ZObject True
       [req ''fatigue'' FatigueSchema,
        req ''isActive''
          (ZObject True [req ''enabled'' ZBoolean, req ''predicate'' FilterNodeSchema])]"

definition SegmentCustomClauseSchema :: zschema where
  "SegmentCustomClauseSchema =
     ZObject True
       [req ''id'' (ZString (Some 1) (Some 64)),
        req ''label'' (ZString (Some 1) (Some 200)),
        req ''intent'' (ZString (Some 1) (Some 2000)),
        req ''predicate'' (ZString (Some 1) (Some 4000))]"

definition SegmentDefinitionV2Schema :: zschema where
  "SegmentDefinitionV2Schema =
     ZObject True
       [req ''format'' (ZLitNum 2),
        req ''filter'' FilterNodeSchema,
        req ''policy'' SegmentPolicySchema,
        opt ''customClauses'' (ZArray SegmentCustomClauseSchema None (Some 20))]"

datatype DefinitionFormat = Legacy | V2

definition detectDefinitionFormat :: "json \<Rightarrow> DefinitionFormat" where
  "detectDefinitionFormat d =
     (if is_object d \<and> \<not> is_jarr d \<and> jget d ''format'' = Some (JNum 2) then V2 else Legacy)"

section \<open>The run-time objects\<close>

fun filter_json :: "filter_node \<Rightarrow> json" where
  "filter_json (FilterCondition c) =
     JObj [(''kind'', JStr ''condition''), (''condition'', condition_json c)]"
| "filter_json (FilterGroup k ts) =
     JObj [(''kind'', JStr (group_kind_id k)), (''children'', JArr (map filter_json ts))]"

definition policy_json :: "SegmentPolicy \<Rightarrow> json" where
  "policy_json p =
     JObj
       [(''fatigue'',
           JObj [(''enabled'', JBool (fatigue_enabled (fatigue p))),
                 (''windowHours'', JNum (of_int (windowHours (fatigue p)))),
                 (''maxSends'', JNum (of_int (maxSends (fatigue p))))]),
        (''isActive'',
           JObj [(''enabled'', JBool (isActive_enabled (isActive p))),
                 (''predicate'', filter_json (active_predicate (isActive p)))])]"

definition clause_json :: "SegmentCustomClause \<Rightarrow> json" where
  "clause_json c =
     JObj [(''id'', JStr (clause_id c)), (''label'', JStr (clause_label c)),
           (''intent'', JStr (clause_intent c)), (''predicate'', JStr (clause_predicate c))]"

definition definition_json :: "SegmentDefinitionV2 \<Rightarrow> json" where
  "definition_json d =
     JObj ([(''format'', JNum 2), (''filter'', filter_json (def_filter d)),
            (''policy'', policy_json (def_policy d))] @
           opt_field ''customClauses'' (\<lambda>cs. JArr (map clause_json cs)) (def_customClauses d))"

section \<open>The schema and the router agree\<close>

lemma filter_json_represents: "represents (filter_json t) t"
proof (induction t)
  case (FilterCondition c)
  then show ?case by (simp add: only_keys_def same_props_def condition_json_def)
next
  case (FilterGroup k ts)
  then have "list_all2 represents (map filter_json ts) ts" by (simp add: list_all2_conv_all_nth)
  then show ?case by (simp add: only_keys_def)
qed

lemma v2_schema_routes:
  "zparse dp SegmentDefinitionV2Schema j \<Longrightarrow> detectDefinitionFormat j = V2"
  by (cases j)
    (auto simp: SegmentDefinitionV2Schema_def detectDefinitionFormat_def is_object_def
      split: option.splits)

lemma filter_schema_tree:
  "tree_nodes t \<le> 200 \<Longrightarrow> tree_depth t \<le> 10 \<Longrightarrow> zparse dp FilterNodeSchema (filter_json t)"
  unfolding FilterNodeSchema_def MAX_STRUCTURAL_FILTER_DEPTH_def
  using represents_parse [OF filter_json_represents] represents_counts [OF filter_json_represents]
  by simp

definition wf_policy :: "SegmentPolicy \<Rightarrow> bool" where
  "wf_policy p \<longleftrightarrow>
     1 \<le> windowHours (fatigue p) \<and> windowHours (fatigue p) \<le> 2160 \<and>
     1 \<le> maxSends (fatigue p) \<and> maxSends (fatigue p) \<le> 100 \<and>
     tree_nodes (active_predicate (isActive p)) \<le> 200 \<and> tree_depth (active_predicate (isActive p)) \<le> 10"

lemma policy_schema: "wf_policy p \<Longrightarrow> zparse dp SegmentPolicySchema (policy_json p)"
  using filter_schema_tree [of "active_predicate (isActive p)" dp]
  by (auto simp: wf_policy_def SegmentPolicySchema_def FatigueSchema_def policy_json_def known_keys_def
      zparse.simps(6))

lemma default_policy_wf: "wf_policy DEFAULT_SEGMENT_POLICY"
  by (simp add: wf_policy_def DEFAULT_SEGMENT_POLICY_def DEFAULT_IS_ACTIVE_PREDICATE_def)

definition wf_clause :: "SegmentCustomClause \<Rightarrow> bool" where
  "wf_clause c \<longleftrightarrow>
     1 \<le> length (clause_id c) \<and> length (clause_id c) \<le> 64 \<and>
     1 \<le> length (clause_label c) \<and> length (clause_label c) \<le> 200 \<and>
     1 \<le> length (clause_intent c) \<and> length (clause_intent c) \<le> 2000 \<and>
     1 \<le> length (clause_predicate c) \<and> length (clause_predicate c) \<le> 4000"

definition wf_definition :: "SegmentDefinitionV2 \<Rightarrow> bool" where
  "wf_definition d \<longleftrightarrow>
     tree_nodes (def_filter d) \<le> 200 \<and> tree_depth (def_filter d) \<le> 10 \<and>
     wf_policy (def_policy d) \<and>
     pred_option (\<lambda>cs. length cs \<le> 20 \<and> (\<forall>c\<in>set cs. wf_clause c)) (def_customClauses d)"

lemma clause_schema: "wf_clause c \<Longrightarrow> zparse dp SegmentCustomClauseSchema (clause_json c)"
  by (simp add: wf_clause_def SegmentCustomClauseSchema_def clause_json_def known_keys_def)

lemma clauses_schema:
  "length cs \<le> 20 \<Longrightarrow> \<forall>c\<in>set cs. wf_clause c \<Longrightarrow>
   zparse dp (ZArray SegmentCustomClauseSchema None (Some 20)) (JArr (map clause_json cs))"
  by (simp add: zparse.simps(8) list_all_iff clause_schema)

lemma definition_schema:
  "wf_definition d \<Longrightarrow> zparse dp SegmentDefinitionV2Schema (definition_json d)"
  using filter_schema_tree [of "def_filter d" dp] policy_schema [of "def_policy d" dp] clauses_schema
  by (cases "def_customClauses d")
    (auto simp: wf_definition_def SegmentDefinitionV2Schema_def definition_json_def known_keys_def
      opt_field_def)

end
