(* ===== verification/Seg_Compose.thy ===== *)
theory Seg_Compose
  imports Seg_Definition
begin

text \<open>
  The three-layer composition: \<^verbatim>\<open>packages/segmentation/src/composition/context-model.ts\<close>,
  \<^verbatim>\<open>effective-tree.ts\<close> and \<^verbatim>\<open>compose.ts\<close>. An effective node carries its layer and its
  \<open>editable\<close> flag. The lemmas state which layers a composed tree has in each context and that
  exactly the intent nodes are editable.
\<close>

section \<open>The context model\<close>

datatype SegmentationContext = Blast | ListContext
datatype LayerRequiredness = Mandatory | DefaultOn | Optional
datatype StackStatus = Active | Gated

record ContextLayerStack =
  stack_context :: SegmentationContext
  stack_status :: StackStatus
  stack_sending :: bool
  layer_intent :: LayerRequiredness
  layer_policy :: LayerRequiredness
  layer_compliance :: LayerRequiredness

fun CONTEXT_LAYER_STACKS :: "SegmentationContext \<Rightarrow> ContextLayerStack" where
  "CONTEXT_LAYER_STACKS Blast =
     \<lparr>stack_context = Blast, stack_status = Active, stack_sending = True,
      layer_intent = Mandatory, layer_policy = DefaultOn, layer_compliance = Mandatory\<rparr>"
| "CONTEXT_LAYER_STACKS ListContext =
     \<lparr>stack_context = ListContext, stack_status = Gated, stack_sending = False,
      layer_intent = Mandatory, layer_policy = Optional, layer_compliance = Optional\<rparr>"

definition getContextLayerStack :: "SegmentationContext \<Rightarrow> ContextLayerStack" where
  "getContextLayerStack context = CONTEXT_LAYER_STACKS context"

definition isSendingContext :: "SegmentationContext \<Rightarrow> bool" where
  "isSendingContext context = stack_sending (CONTEXT_LAYER_STACKS context)"

definition isComplianceMandatory :: "SegmentationContext \<Rightarrow> bool" where
  "isComplianceMandatory context \<longleftrightarrow> layer_compliance (CONTEXT_LAYER_STACKS context) = Mandatory"

section \<open>The effective tree\<close>

datatype CompositionLayer = Composition | Intent | Policy | Compliance

datatype effective_node =
    EGroup group_kind CompositionLayer bool "effective_node list"
  | ECondition CompositionLayer bool condition
  | EFatigue CompositionLayer bool int int

fun node_layer :: "effective_node \<Rightarrow> CompositionLayer" where
  "node_layer (EGroup k l e cs) = l"
| "node_layer (ECondition l e c) = l"
| "node_layer (EFatigue l e w m) = l"

fun node_editable :: "effective_node \<Rightarrow> bool" where
  "node_editable (EGroup k l e cs) = e"
| "node_editable (ECondition l e c) = e"
| "node_editable (EFatigue l e w m) = e"

fun isEffectiveGroup :: "effective_node \<Rightarrow> bool" where
  "isEffectiveGroup (EGroup k l e cs) = True"
| "isEffectiveGroup node = False"

fun node_children :: "effective_node \<Rightarrow> effective_node list" where
  "node_children (EGroup k l e cs) = cs"
| "node_children node = []"

text \<open>Every node of a tree, the reference for the iterative walks.\<close>

fun nodes_of :: "effective_node \<Rightarrow> effective_node list" where
  "nodes_of (EGroup k l e cs) = EGroup k l e cs # concat (map nodes_of cs)"
| "nodes_of node = [node]"

record LayerCounts =
  count_composition :: nat
  count_intent :: nat
  count_policy :: nat
  count_compliance :: nat

definition zeroCounts :: LayerCounts where
  "zeroCounts = \<lparr>count_composition = 0, count_intent = 0, count_policy = 0, count_compliance = 0\<rparr>"

fun bump :: "CompositionLayer \<Rightarrow> LayerCounts \<Rightarrow> LayerCounts" where
  "bump Composition c = c\<lparr>count_composition := count_composition c + 1\<rparr>"
| "bump Intent c = c\<lparr>count_intent := count_intent c + 1\<rparr>"
| "bump Policy c = c\<lparr>count_policy := count_policy c + 1\<rparr>"
| "bump Compliance c = c\<lparr>count_compliance := count_compliance c + 1\<rparr>"

lemma children_smaller: "size_list size (node_children n) \<le> size n"
  by (cases n) auto

lemma sum_sizes: "sum_list (map (\<lambda>x. Suc (size x)) xs) = size_list size xs"
  by (induction xs) auto

function count_loop :: "effective_node list \<Rightarrow> LayerCounts \<Rightarrow> LayerCounts" where
  "count_loop [] counts = counts"
| "count_loop (node # stack) counts =
     count_loop (rev (node_children node) @ stack) (bump (node_layer node) counts)"
  by pat_completeness auto
termination
  by (relation "measure (\<lambda>(stack, c). sum_list (map (\<lambda>x. Suc (size x)) stack))")
    (auto simp: sum_sizes size_list_rev le_imp_less_Suc children_smaller)

definition countNodesByLayer :: "effective_node \<Rightarrow> LayerCounts" where
  "countNodesByLayer tree = count_loop [tree] zeroCounts"

section \<open>The composition\<close>

record ComposeOptions =
  opt_channel :: "ComplianceChannel option"
  applyPolicy :: "bool option"
  applyCompliance :: "bool option"

record ComposedAudience =
  composed_context :: SegmentationContext
  composed_stack :: ContextLayerStack
  applied_policy :: bool
  applied_compliance :: bool
  composed_tree :: effective_node

definition complianceFloorConditions :: "ComplianceChannel \<Rightarrow> condition list" where
  "complianceFloorConditions channel =
     [ChannelConsentCondition channel, NotSuppressedCondition channel, ReachableCondition channel]"

fun toIntentNode :: "filter_node \<Rightarrow> effective_node" where
  "toIntentNode (FilterCondition c) = ECondition Intent True c"
| "toIntentNode (FilterGroup k ts) = EGroup k Intent True (map toIntentNode ts)"

fun toPolicyNode :: "filter_node \<Rightarrow> effective_node" where
  "toPolicyNode (FilterCondition c) = ECondition Policy False c"
| "toPolicyNode (FilterGroup k ts) = EGroup k Policy False (map toPolicyNode ts)"

definition buildPolicyLayer :: "SegmentPolicy \<Rightarrow> effective_node option" where
  "buildPolicyLayer policy =
     (let leaves =
        (if fatigue_enabled (fatigue policy)
         then [EFatigue Policy False (windowHours (fatigue policy)) (maxSends (fatigue policy))]
         else []) @
        (if isActive_enabled (isActive policy)
         then [toPolicyNode (active_predicate (isActive policy))] else []) in
      if leaves = [] then None else Some (EGroup All Policy False leaves))"

definition buildComplianceLayer :: "ComplianceChannel \<Rightarrow> effective_node" where
  "buildComplianceLayer channel =
     EGroup All Compliance False (map (ECondition Compliance False) (complianceFloorConditions channel))"

definition composeEffectiveTree ::
  "filter_node \<Rightarrow> SegmentPolicy \<Rightarrow> SegmentationContext \<Rightarrow> ComposeOptions \<Rightarrow> ComposedAudience" where
  "composeEffectiveTree tree policy context options =
     (let stack = getContextLayerStack context;
          channel = (case opt_channel options of None \<Rightarrow> SMS | Some c \<Rightarrow> c);
          children = [toIntentNode tree];
          policyInForce =
            (if layer_policy stack = Optional then applyPolicy options = Some True else True);
          policyLayer = (if policyInForce then buildPolicyLayer policy else None);
          policyApplied = (policyLayer \<noteq> None);
          children = children @ (case policyLayer of None \<Rightarrow> [] | Some l \<Rightarrow> [l]);
          complianceInForce =
            (if layer_compliance stack = Mandatory then True else applyCompliance options = Some True);
          children = children @ (if complianceInForce then [buildComplianceLayer channel] else []) in
      \<lparr>composed_context = context, composed_stack = stack, applied_policy = policyApplied,
       applied_compliance = complianceInForce,
       composed_tree = EGroup All Composition False children\<rparr>)"

section \<open>Which layers a composed tree has\<close>

lemma toIntentNode_nodes: "n \<in> set (nodes_of (toIntentNode t)) \<Longrightarrow> node_layer n = Intent \<and> node_editable n"
  by (induction t) auto

lemma toPolicyNode_nodes: "n \<in> set (nodes_of (toPolicyNode t)) \<Longrightarrow> node_layer n = Policy \<and> \<not> node_editable n"
  by (induction t) auto

lemma buildPolicyLayer_nodes:
  "buildPolicyLayer p = Some l \<Longrightarrow> n \<in> set (nodes_of l) \<Longrightarrow> node_layer n = Policy \<and> \<not> node_editable n"
  by (auto simp: buildPolicyLayer_def Let_def dest: toPolicyNode_nodes split: if_splits)

lemma buildComplianceLayer_nodes:
  "n \<in> set (nodes_of (buildComplianceLayer ch)) \<Longrightarrow> node_layer n = Compliance \<and> \<not> node_editable n"
  by (auto simp: buildComplianceLayer_def complianceFloorConditions_def)

lemma compose_tree:
  "composed_tree (composeEffectiveTree t p ctx opts) =
     EGroup All Composition False
       (toIntentNode t #
        (case (if ctx = Blast \<or> applyPolicy opts = Some True then buildPolicyLayer p else None) of
           None \<Rightarrow> [] | Some l \<Rightarrow> [l]) @
        (if ctx = Blast \<or> applyCompliance opts = Some True
         then [buildComplianceLayer (case opt_channel opts of None \<Rightarrow> SMS | Some c \<Rightarrow> c)] else []))"
  by (cases ctx)
    (auto simp: composeEffectiveTree_def getContextLayerStack_def Let_def split: option.splits)

lemma compose_children_cases:
  assumes "c \<in> set (node_children (composed_tree (composeEffectiveTree t p ctx opts)))"
  obtains (intent) "c = toIntentNode t"
    | (policy) "buildPolicyLayer p = Some c"
    | (compliance) ch where "c = buildComplianceLayer ch"
  using assms by (auto simp: compose_tree split: option.splits if_splits)

text \<open>Exactly the nodes of the authored intent layer of a composed audience are editable: no policy or
  compliance node can be changed by the author.\<close>

lemma compose_editable_iff_intent:
  assumes "n \<in> set (nodes_of (composed_tree (composeEffectiveTree t p ctx opts)))"
  shows "node_editable n \<longleftrightarrow> node_layer n = Intent"
proof -
  obtain cs where root: "composed_tree (composeEffectiveTree t p ctx opts) = EGroup All Composition False cs"
    by (simp add: compose_tree)
  with assms consider (root) "n = EGroup All Composition False cs"
    | (child) c where "c \<in> set cs" "n \<in> set (nodes_of c)" by auto
  then show ?thesis
  proof cases
    case child
    from child(1) have "c \<in> set (node_children (composed_tree (composeEffectiveTree t p ctx opts)))"
      by (simp add: root)
    then show ?thesis
    proof (cases rule: compose_children_cases)
      case intent
      with child(2) toIntentNode_nodes show ?thesis by blast
    next
      case policy
      with child(2) buildPolicyLayer_nodes show ?thesis by fastforce
    next
      case compliance
      with child(2) buildComplianceLayer_nodes show ?thesis by fastforce
    qed
  qed simp
qed

lemma compose_blast_floor:
  "\<exists>ch. buildComplianceLayer ch \<in> set (node_children (composed_tree (composeEffectiveTree t p Blast opts))) \<and>
     ch = (case opt_channel opts of None \<Rightarrow> SMS | Some c \<Rightarrow> c)"
  by (auto simp: compose_tree)

lemma compose_applied:
  "applied_compliance (composeEffectiveTree t p ctx opts) \<longleftrightarrow>
     (\<exists>c\<in>set (node_children (composed_tree (composeEffectiveTree t p ctx opts))). node_layer c = Compliance)"
proof -
  have "node_layer (toIntentNode t) = Intent" by (cases t) auto
  moreover have "node_layer l = Policy" if "buildPolicyLayer p = Some l" for l
    using that by (auto simp: buildPolicyLayer_def Let_def split: if_splits)
  moreover have "node_layer (buildComplianceLayer ch) = Compliance" for ch
    by (simp add: buildComplianceLayer_def)
  ultimately show ?thesis
    by (cases ctx)
      (auto simp: composeEffectiveTree_def getContextLayerStack_def Let_def split: option.splits)
qed

section \<open>Counting the nodes of a layer\<close>

definition layer_total :: "CompositionLayer \<Rightarrow> effective_node list \<Rightarrow> nat" where
  "layer_total l ns = length (filter (\<lambda>n. node_layer n = l) ns)"

fun layer_count :: "CompositionLayer \<Rightarrow> LayerCounts \<Rightarrow> nat" where
  "layer_count Composition c = count_composition c"
| "layer_count Intent c = count_intent c"
| "layer_count Policy c = count_policy c"
| "layer_count Compliance c = count_compliance c"

lemma layer_count_bump [simp]:
  "layer_count l (bump l' c) = layer_count l c + (if l = l' then 1 else 0)"
  by (cases l; cases l') auto

lemma nodes_of_children: "nodes_of n = n # concat (map nodes_of (node_children n))"
  by (cases n) auto

lemma layer_total_append [simp]: "layer_total l (xs @ ys) = layer_total l xs + layer_total l ys"
  by (simp add: layer_total_def)

lemma layer_total_concat: "layer_total l (concat xss) = sum_list (map (layer_total l) xss)"
  by (induction xss) (auto simp: layer_total_def)

lemma count_loop_total:
  "layer_count l (count_loop stack c) = layer_count l c + layer_total l (concat (map nodes_of stack))"
proof (induction stack c rule: count_loop.induct)
  case (1 counts)
  then show ?case by (simp add: layer_total_def)
next
  case (2 node stack counts)
  have "layer_total l (nodes_of node) =
      (if l = node_layer node then 1 else 0) + sum_list (map (\<lambda>n. layer_total l (nodes_of n)) (node_children node))"
    by (subst nodes_of_children) (auto simp: layer_total_def length_concat comp_def filter_concat)
  with 2 show ?case by (simp add: layer_total_concat rev_map [symmetric] comp_def)
qed

lemma countNodesByLayer_total: "layer_count l (countNodesByLayer tree) = layer_total l (nodes_of tree)"
  using count_loop_total [of l "[tree]" zeroCounts]
  by (cases l) (auto simp: countNodesByLayer_def zeroCounts_def)

theorem compose_editable_iff_intent_witness:
  "node_editable (composed_tree (composeEffectiveTree DEFAULT_IS_ACTIVE_PREDICATE DEFAULT_SEGMENT_POLICY Blast
       \<lparr>opt_channel = Some SMS, applyPolicy = None, applyCompliance = None\<rparr>)) = False"
proof -
  let ?tree = "composed_tree (composeEffectiveTree DEFAULT_IS_ACTIVE_PREDICATE DEFAULT_SEGMENT_POLICY Blast
       \<lparr>opt_channel = Some SMS, applyPolicy = None, applyCompliance = None\<rparr>)"
  have "?tree \<in> set (nodes_of ?tree)" by (simp add: compose_tree)
  from compose_editable_iff_intent [OF this] have "node_editable ?tree \<longleftrightarrow> node_layer ?tree = Intent" .
  then show ?thesis by (simp add: compose_tree)
qed

end
