(* ===== verification/Seg_Catalogue.thy ===== *)
theory Seg_Catalogue
  imports Seg_Filter Seg_Compose
begin

text \<open>
  The attribute catalogue: \<^verbatim>\<open>packages/segmentation/src/catalogue/uprise-catalogue.ts\<close> with its types
  (\<^verbatim>\<open>catalogue.types.ts\<close>), the describe view \<^verbatim>\<open>describe.ts\<close> and the capability gate
  \<^verbatim>\<open>condition-support.ts\<close>. An entry's \<open>description\<close> is not kept; the ellipsis character of one label is
  written as three dots. The lemmas show the roster invariants the catalogue's comment states.
\<close>

section \<open>The entries\<close>

datatype CatalogueKind =
    KContact | KTag | KConsent | KSource | KActivity | KGeo | KInsights | KCustom | KCompliance

datatype Capability = CapNow | CapPending | CapGated

datatype CatalogueDataType = DEnum | DBool | DString | DDate | DBespoke

datatype ValueInput = VMulti | VSingle | VText | VNumber | VWindow | VToggle | VNone

text \<open>An option is its value and its label.\<close>

type_synonym CatalogueOption = "string \<times> string"

record CatalogueEntry =
  ce_type :: string
  ce_kind :: CatalogueKind
  ce_layer :: ConditionLayer
  ce_group :: string
  ce_label :: string
  ce_keywords :: "string list"
  ce_capability :: Capability
  ce_operators :: "string list"
  ce_dataType :: CatalogueDataType
  ce_valueInput :: ValueInput
  ce_options :: "CatalogueOption list option"
  ce_optionsFeed :: "string option"
  ce_accent :: "string option"

definition ENUM_OPS :: "string list" where "ENUM_OPS = [''in'', ''notIn'']"
definition BOOL_OPS :: "string list" where "BOOL_OPS = [''is'', ''isNot'']"
definition STRING_OPS :: "string list" where "STRING_OPS = [''eq'', ''contains'']"
definition DATE_OPS :: "string list" where "DATE_OPS = [''within'', ''before'', ''after'', ''between'']"
definition SELF_OPS :: "string list" where "SELF_OPS = [''is'', ''isNot'']"

definition AU_STATES :: "CatalogueOption list" where
  "AU_STATES =
     [(''NSW'', ''New South Wales''), (''VIC'', ''Victoria''), (''QLD'', ''Queensland''), 
      (''SA'', ''South Australia''), (''WA'', ''Western Australia''), (''TAS'', ''Tasmania''), 
      (''NT'', ''Northern Territory''), (''ACT'', ''Australian Capital Territory'')]"

definition CONSENT_STATES :: "CatalogueOption list" where
  "CONSENT_STATES =
     [(''OPTED_IN'', ''Opted in''), (''OPTED_OUT'', ''Opted out''), (''UNKNOWN'', ''Unknown'')]"

definition SUPPORT_LEVELS :: "CatalogueOption list" where
  "SUPPORT_LEVELS =
     [(''STRONG_SUPPORT'', ''Strong support''), (''LEAN_SUPPORT'', ''Lean support''), 
      (''UNDECIDED'', ''Undecided''), (''LEAN_OPPOSE'', ''Lean oppose''), 
      (''STRONG_OPPOSE'', ''Strong oppose'')]"

definition RSVP_STATUSES :: "CatalogueOption list" where
  "RSVP_STATUSES =
     [(''GOING'', ''Going''), (''ATTENDED'', ''Attended''), (''WAITLIST'', ''Waitlisted''), 
      (''CANCELLED'', ''Cancelled'')]"

definition ENROLMENT_STATES :: "CatalogueOption list" where
  "ENROLMENT_STATES =
     [(''ACTIVE'', ''Active''), (''WAITING'', ''Waiting''), (''COMPLETED'', ''Completed''), 
      (''EXITED'', ''Exited'')]"

definition GEO_LAYERS :: "CatalogueOption list" where
  "GEO_LAYERS =
     [(''ced'', ''Federal electorate (CED)''), (''sed'', ''State electorate (SED)''), 
      (''sed_lower'', ''State lower house''), (''sed_upper'', ''State upper house''), 
      (''lga'', ''Local government area''), (''ward'', ''Council ward''), (''sa1'', ''SA1''), 
      (''sa2'', ''SA2''), (''sa3'', ''SA3''), (''sa4'', ''SA4'')]"

definition WHO :: string where "WHO = ''Who they are''"
definition DONE :: string where "DONE = ''What they've done''"
definition REACH :: string where "REACH = ''How to reach them''"
definition WHERE :: string where "WHERE = ''Where they are''"
definition ADVANCED :: string where "ADVANCED = ''Advanced''"

text \<open>The constructor derives the layer from the type; the capability defaults to \<open>now\<close>.\<close>

definition catalogue_entry ::
  "string \<Rightarrow> CatalogueKind \<Rightarrow> string \<Rightarrow> string \<Rightarrow> string list \<Rightarrow> string list \<Rightarrow> CatalogueDataType \<Rightarrow> ValueInput \<Rightarrow>
   Capability option \<Rightarrow> CatalogueOption list option \<Rightarrow> string option \<Rightarrow> string option \<Rightarrow> CatalogueEntry" where
  "catalogue_entry type kind grp label keywords operators dataType valueInput capability options feed accent =
     \<lparr>ce_type = type, ce_kind = kind, ce_layer = conditionLayer type, ce_group = grp, ce_label = label,
      ce_keywords = keywords, ce_capability = (case capability of None \<Rightarrow> CapNow | Some c \<Rightarrow> c),
      ce_operators = operators, ce_dataType = dataType, ce_valueInput = valueInput, ce_options = options,
      ce_optionsFeed = feed, ce_accent = accent\<rparr>"

definition CONTACT_ENTRIES :: "CatalogueEntry list" where
  "CONTACT_ENTRIES =
     [catalogue_entry ''contact.state'' KContact WHERE ''State or territory''
        [''state'', ''nsw'', ''vic'', ''qld'', ''sa'', ''wa'', ''tas'', ''nt'', ''act'', ''territory'']
        ENUM_OPS DEnum VMulti None (Some AU_STATES) None (Some ''geo''),
      catalogue_entry ''contact.postcode'' KContact WHERE ''Postcode''
        [''postcode'', ''post code'', ''zip'']
        (ENUM_OPS @ [''eq'']) DEnum VMulti None None None (Some ''geo''),
      catalogue_entry ''contact.locality'' KContact WHERE ''Suburb / locality''
        [''suburb'', ''locality'', ''town'', ''city'']
        ENUM_OPS DEnum VMulti None None None (Some ''geo''),
      catalogue_entry ''contact.turf'' KContact WHERE ''Turf''
        [''turf'', ''walklist'', ''doorknock area'', ''canvass area'']
        ENUM_OPS DEnum VMulti None None (Some ''turfs'') (Some ''canvass''),
      catalogue_entry ''contact.supportLevel'' KContact WHO ''Support level''
        [''support'', ''supporter'', ''oppose'', ''undecided'', ''persuasion'']
        ENUM_OPS DEnum VMulti None (Some SUPPORT_LEVELS) None (Some ''canvass''),
      catalogue_entry ''contact.hasEmail'' KContact REACH ''Has an email address''
        [''email'', ''reachable'', ''has email'']
        BOOL_OPS DBool VToggle None None None (Some ''reach''),
      catalogue_entry ''contact.hasPhone'' KContact REACH ''Has a mobile number''
        [''phone'', ''mobile'', ''sms'', ''number'']
        BOOL_OPS DBool VToggle None None None (Some ''reach''),
      catalogue_entry ''contact.consented'' KContact REACH ''Consented to be kept on file''
        [''consent'', ''consented'', ''privacy'', ''supporter file'', ''app 5'', ''opt in'']
        BOOL_OPS DBool VToggle None None None (Some ''reach''),
      catalogue_entry ''contact.emailDomain'' KContact REACH ''Email domain''
        [''domain'', ''email domain'', ''workplace'']
        STRING_OPS DString VText None None None (Some ''reach''),
      catalogue_entry ''contact.createdAt'' KContact WHO ''Joined''
        [''joined'', ''created'', ''new'', ''signed up'', ''tenure'']
        DATE_OPS DDate VWindow None None None (Some ''contact'')]"

definition ASSIGNMENT_ENTRIES :: "CatalogueEntry list" where
  "ASSIGNMENT_ENTRIES =
     [catalogue_entry ''tag.tagged'' KTag WHO ''Tagged''
        [''tag'', ''tagged'', ''label'', ''interest'']
        ENUM_OPS DEnum VMulti None None (Some ''tags'') (Some ''tag''),
      catalogue_entry ''consent.sms'' KConsent REACH ''SMS consent''
        [''consent'', ''sms'', ''opt in'', ''opt out'', ''subscribed'']
        ENUM_OPS DEnum VMulti None (Some CONSENT_STATES) None (Some ''reach''),
      catalogue_entry ''consent.whatsapp'' KConsent REACH ''WhatsApp consent''
        [''consent'', ''whatsapp'', ''opt in'', ''opt out'']
        ENUM_OPS DEnum VMulti None (Some CONSENT_STATES) None (Some ''reach''),
      catalogue_entry ''source.system'' KSource WHO ''Source system''
        [''source'', ''import'', ''integration'', ''origin'', ''provenance'']
        ENUM_OPS DEnum VMulti None None (Some ''sources'') (Some ''contact'')]"

definition ACTIVITY_ENTRIES :: "CatalogueEntry list" where
  "ACTIVITY_ENTRIES =
     [catalogue_entry ''activity.lastActiveWithin'' KActivity DONE ''Active''
        [''active'', ''engaged'', ''recent'', ''activity'', ''last active'']
        DATE_OPS DDate VWindow None None None (Some ''activity''),
      catalogue_entry ''canvass.doorKnockedAt'' KActivity DONE ''Door knocked''
        [''door'', ''knock'', ''canvass'', ''doorknock'', ''visited'']
        DATE_OPS DDate VWindow None None None (Some ''canvass''),
      catalogue_entry ''canvass.dispositionCode'' KActivity DONE ''Canvass outcome''
        [''disposition'', ''outcome'', ''canvass result'', ''not home'', ''meaningful'']
        ENUM_OPS DEnum VMulti None None (Some ''dispositions'') (Some ''canvass''),
      catalogue_entry ''survey.responded'' KActivity DONE ''Responded to a survey''
        [''survey'', ''responded'', ''answered'', ''questionnaire'']
        SELF_OPS DBespoke VSingle None None (Some ''surveys'') (Some ''survey''),
      catalogue_entry ''survey.answered'' KActivity DONE ''Answered a question with...''
        [''answer'', ''question'', ''response'', ''said'']
        ENUM_OPS DBespoke VMulti None None (Some ''questions'') (Some ''survey''),
      catalogue_entry ''event.rsvped'' KActivity DONE ''RSVPed to an event''
        [''event'', ''rsvp'', ''attended'', ''going'', ''rally'', ''town hall'']
        SELF_OPS DBespoke VSingle None (Some RSVP_STATUSES) (Some ''events'') (Some ''event''),
      catalogue_entry ''blast.received'' KActivity DONE ''Received a blast''
        [''blast'', ''received'', ''sent'', ''message'', ''sms'']
        SELF_OPS DBespoke VSingle None None (Some ''blasts'') (Some ''blast''),
      catalogue_entry ''blast.replied'' KActivity DONE ''Replied to a blast''
        [''reply'', ''replied'', ''responded'', ''inbound'']
        SELF_OPS DBespoke VSingle None None (Some ''blasts'') (Some ''blast''),
      catalogue_entry ''journey.enrolled'' KActivity DONE ''In a journey''
        [''journey'', ''automation'', ''enrolled'', ''flow'']
        SELF_OPS DBespoke VSingle None (Some ENROLMENT_STATES) (Some ''journeys'') (Some ''journey''),
      catalogue_entry ''email.openedAt'' KActivity DONE ''Opened an email''
        [''email'', ''opened'', ''open'', ''engagement'']
        DATE_OPS DDate VWindow None None None (Some ''email''),
      catalogue_entry ''email.clickedAt'' KActivity DONE ''Clicked an email''
        [''email'', ''clicked'', ''click'', ''engagement'', ''link'']
        DATE_OPS DDate VWindow None None None (Some ''email'')]"

definition GEO_ENTRIES :: "CatalogueEntry list" where
  "GEO_ENTRIES =
     [catalogue_entry ''geo.area'' KGeo WHERE ''Electorate / region''
        [''electorate'', ''region'', ''lga'', ''ward'', ''federal'', ''state'', ''seat'', ''division'']
        ENUM_OPS DBespoke VMulti None (Some GEO_LAYERS) None (Some ''geo''),
      catalogue_entry ''insights.pollThreshold'' KInsights WHERE ''Poll threshold''
        [''poll'', ''polling'', ''estimate'', ''threshold'', ''support level'', ''insights'']
        [''>'', ''>='', ''<'', ''<='', ''=''] DBespoke VNumber None None None (Some ''insights'')]"

definition CUSTOM_ENTRIES :: "CatalogueEntry list" where
  "CUSTOM_ENTRIES =
     [catalogue_entry ''custom.clause'' KCustom ADVANCED ''Custom query''
        [''custom'', ''query'', ''sql'', ''advanced'', ''ai'']
        [] DBespoke VNone None None None (Some ''custom'')]"

definition COMPLIANCE_ENTRIES :: "CatalogueEntry list" where
  "COMPLIANCE_ENTRIES =
     [catalogue_entry ''compliance.channelConsent'' KCompliance ADVANCED ''Channel consent floor''
        []
        [] DBespoke VNone None None None None,
      catalogue_entry ''compliance.notSuppressed'' KCompliance ADVANCED ''Suppression floor''
        []
        [] DBespoke VNone None None None None,
      catalogue_entry ''compliance.reachable'' KCompliance ADVANCED ''Reachability floor''
        []
        [] DBespoke VNone None None None None,
      catalogue_entry ''policy.isActive'' KCompliance ADVANCED ''Active members only''
        []
        SELF_OPS DBespoke VNone None None None None]"

definition GATED_ENTRIES :: "CatalogueEntry list" where
  "GATED_ENTRIES =
     [catalogue_entry ''contact.ageBand'' KContact WHO ''Age band''
        [''age'', ''young'', ''old'', ''under'', ''over'', ''cohort'']
        ENUM_OPS DEnum VMulti (Some CapGated) None None (Some ''contact''),
      catalogue_entry ''contact.gender'' KContact WHO ''Gender''
        [''gender'']
        ENUM_OPS DEnum VMulti (Some CapGated) None None (Some ''contact'')]"

definition UPRISE_CATALOGUE :: "CatalogueEntry list" where
  "UPRISE_CATALOGUE = CONTACT_ENTRIES @ ASSIGNMENT_ENTRIES @ ACTIVITY_ENTRIES @ GEO_ENTRIES @ CUSTOM_ENTRIES @
     COMPLIANCE_ENTRIES @ GATED_ENTRIES"

text \<open>A later entry of a type would replace an earlier one in the map.\<close>

definition findCatalogueEntry :: "string \<Rightarrow> CatalogueEntry option" where
  "findCatalogueEntry type = find (\<lambda>e. ce_type e = type) (rev UPRISE_CATALOGUE)"

section \<open>The describe view\<close>

record DescribeConditionsResult =
  dr_version :: nat
  dr_context :: SegmentationContext
  dr_contextStatus :: StackStatus
  dr_sections :: "(string, CatalogueEntry list) table"

definition CATALOGUE_VERSION :: nat where "CATALOGUE_VERSION = 1"

definition add_to_section ::
  "CatalogueEntry \<Rightarrow> (string, CatalogueEntry list) table \<Rightarrow> (string, CatalogueEntry list) table" where
  "add_to_section e sections =
     (case tget sections (ce_group e) of
        Some bucket \<Rightarrow> tset (ce_group e) (bucket @ [e]) sections
      | None \<Rightarrow> tset (ce_group e) [e] sections)"

definition describeConditions :: "SegmentationContext \<Rightarrow> DescribeConditionsResult" where
  "describeConditions ctx =
     \<lparr>dr_version = CATALOGUE_VERSION, dr_context = ctx, dr_contextStatus = stack_status (getContextLayerStack ctx),
      dr_sections = fold (\<lambda>e sections. if ce_layer e \<noteq> L1 then sections else add_to_section e sections)
        UPRISE_CATALOGUE []\<rparr>"

section \<open>The capability gate\<close>

record ConditionSupport =
  cs_type :: string
  cs_capability :: "Capability option"
  cs_supported :: bool

definition getConditionSupport :: "string \<Rightarrow> ConditionSupport" where
  "getConditionSupport type =
     (case findCatalogueEntry type of
        None \<Rightarrow> \<lparr>cs_type = type, cs_capability = None, cs_supported = False\<rparr>
      | Some e \<Rightarrow> \<lparr>cs_type = type, cs_capability = Some (ce_capability e), cs_supported = (ce_capability e = CapNow)\<rparr>)"

text \<open>A condition that is not an object with a string \<open>type\<close> counts under the empty type; \<open>None\<close> is the
  \<open>TypeError\<close> of collecting the leaves.\<close>

definition listUnsupportedConditions :: "json \<Rightarrow> ConditionSupport list option" where
  "listUnsupportedConditions tree =
     map_option (\<lambda>cs. filter (\<lambda>s. \<not> cs_supported s) (map getConditionSupport (js_set (map leafType cs))))
       (collectLeafConditions tree)"

section \<open>The roster invariants\<close>

lemmas entry_lists = CONTACT_ENTRIES_def ASSIGNMENT_ENTRIES_def ACTIVITY_ENTRIES_def GEO_ENTRIES_def
  CUSTOM_ENTRIES_def COMPLIANCE_ENTRIES_def GATED_ENTRIES_def

definition catalogue_types :: "Capability \<Rightarrow> string list" where
  "catalogue_types cap = map ce_type (filter (\<lambda>e. ce_capability e = cap) UPRISE_CATALOGUE)"

lemma now_types: "set (catalogue_types CapNow) = set CONDITION_TYPES"
  by code_simp

lemma gated_types: "set (catalogue_types CapGated) \<inter> set CONDITION_TYPES = {}"
  by code_simp

lemma distinct_types: "distinct (map ce_type UPRISE_CATALOGUE)"
  by code_simp


lemma find_rev_distinct:
  assumes "distinct (map f xs)"
  shows "find (\<lambda>e. f e = k) (rev xs) = Some e \<longleftrightarrow> e \<in> set xs \<and> f e = k"
proof
  assume "find (\<lambda>e. f e = k) (rev xs) = Some e"
  then show "e \<in> set xs \<and> f e = k" by (auto dest: find_Some_in)
next
  assume e: "e \<in> set xs \<and> f e = k"
  then obtain x where x: "find (\<lambda>e. f e = k) (rev xs) = Some x"
    by (cases "find (\<lambda>e. f e = k) (rev xs)") (auto simp: find_None_all)
  then have "x \<in> set xs" "f x = f e" using e by (auto dest: find_Some_in)
  with assms e x show "find (\<lambda>e. f e = k) (rev xs) = Some e"
    by (metis distinct_map inj_onD)
qed

lemma findCatalogueEntry_iff:
  "findCatalogueEntry type = Some e \<longleftrightarrow> e \<in> set UPRISE_CATALOGUE \<and> ce_type e = type"
  unfolding findCatalogueEntry_def by (rule find_rev_distinct [OF distinct_types])

lemma support_iff_roster: "cs_supported (getConditionSupport type) \<longleftrightarrow> type \<in> set CONDITION_TYPES"
proof -
  have "cs_supported (getConditionSupport type) \<longleftrightarrow>
      (\<exists>e. findCatalogueEntry type = Some e \<and> ce_capability e = CapNow)"
    by (cases "findCatalogueEntry type") (simp_all add: getConditionSupport_def)
  also have "\<dots> \<longleftrightarrow> type \<in> set CONDITION_TYPES"
    by (auto simp: findCatalogueEntry_iff catalogue_types_def simp flip: now_types)
  finally show ?thesis .
qed

text \<open>A filter the authoring guard accepts has only conditions the engine can serve: the capability
  gate that runs after the guard never reports anything for it.\<close>

lemma guard_implies_servable:
  assumes "zod_parser sp dp" "validateAuthoredFilter sp j ids = FilterOk"
  shows "listUnsupportedConditions j = Some []"
proof -
  from assms obtain t where t: "represents j t" "authorable_tree dp ids t"
    by (auto simp: guard_accepts_iff)
  have "collectLeafConditions j = Some (rev (leaves j))"
    by (rule collectLeafConditions_leaves [OF represents_structural [OF t]])
  moreover have "map leafType (rev (leaves j)) = rev (map condition_type (tree_conditions t))"
    using represents_leafTypes [OF t(1)] by (simp flip: rev_map)
  ultimately show ?thesis
    using condition_type_in_roster
    by (auto simp: listUnsupportedConditions_def filter_empty_conv support_iff_roster)
qed


text \<open>Grouping in order of first appearance, as a specification of the loop over the catalogue.\<close>

definition in_section :: "string \<Rightarrow> CatalogueEntry list \<Rightarrow> CatalogueEntry list" where
  "in_section g es = filter (\<lambda>e. ce_layer e = L1 \<and> ce_group e = g) es"

definition section_loop :: "CatalogueEntry list \<Rightarrow> (string, CatalogueEntry list) table" where
  "section_loop es = fold (\<lambda>e sections. if ce_layer e \<noteq> L1 then sections else add_to_section e sections) es []"

lemma section_loop_snoc:
  "section_loop (es @ [e]) = (if ce_layer e \<noteq> L1 then section_loop es else add_to_section e (section_loop es))"
  by (simp add: section_loop_def)

lemma js_set_snoc: "js_set (xs @ [x]) = (if x \<in> set xs then js_set xs else js_set xs @ [x])"
  by (induction xs) auto

lemma tget_add_to_section:
  "tget (add_to_section e t) g =
     (if g = ce_group e then Some ((case tget t g of None \<Rightarrow> [] | Some b \<Rightarrow> b) @ [e]) else tget t g)"
  by (simp add: add_to_section_def split: option.split)

lemma tkeys_add_to_section:
  "tkeys (add_to_section e t) = (if ce_group e \<in> set (tkeys t) then tkeys t else tkeys t @ [ce_group e])"
  by (simp add: add_to_section_def tkeys_tset split: option.split)

lemma section_loop_get:
  "tget (section_loop es) g = (if in_section g es = [] then None else Some (in_section g es))"
  by (induction es rule: rev_induct)
    (auto simp: section_loop_snoc tget_add_to_section in_section_def, simp_all add: section_loop_def)

lemma section_loop_keys:
  "tkeys (section_loop es) = js_set (map ce_group (filter (\<lambda>e. ce_layer e = L1) es))"
  by (induction es rule: rev_induct)
    (simp_all add: section_loop_snoc tkeys_add_to_section js_set_snoc,
     simp_all add: section_loop_def tkeys_def)

text \<open>The describe view lists the sections in the order of their first authorable entry, and each
  section holds exactly the intent-layer entries of its group, in catalogue order.\<close>

lemma describe_groups_catalogue:
  "tkeys (dr_sections (describeConditions ctx)) =
     js_set (map ce_group (filter (\<lambda>e. ce_layer e = L1) UPRISE_CATALOGUE)) \<and>
   tget (dr_sections (describeConditions ctx)) g =
     (if in_section g UPRISE_CATALOGUE = [] then None else Some (in_section g UPRISE_CATALOGUE))"
  using section_loop_keys [of UPRISE_CATALOGUE] section_loop_get [of UPRISE_CATALOGUE g]
  by (simp add: describeConditions_def section_loop_def)


theorem guard_implies_servable_witness: "listUnsupportedConditions sample_filter = Some []"
proof -
  have "represents sample_filter (FilterGroup All [])"
    by (simp add: sample_filter_def only_keys_def)
  moreover have "authorable_tree (\<lambda>s. True) None (FilterGroup All [])"
    by (simp add: authorable_tree_def)
  ultimately have "validateAuthoredFilter (zparse (\<lambda>s. True)) sample_filter None = FilterOk"
    using guard_accepts_iff [OF zod_reference.zod_parser_axioms] by blast
  then show ?thesis by (rule guard_implies_servable [OF zod_reference.zod_parser_axioms])
qed

end
