(* ===== verification/Seg_Normalise.thy ===== *)
theory Seg_Normalise
  imports Seg_Catalogue
begin

text \<open>
  The trust boundary of the AI flow: \<^verbatim>\<open>packages/segmentation/src/ai/normalise.ts\<close> turns a loose tree of a
  model into a filter tree whose leaves are snapped to the catalogue, with the residual clauses it could
  not express. The loose tree is any JSON value; \<open>Inl\<close> is the \<open>TypeError\<close> of a field that is no string or
  of children that are no array. The lemmas show that the result always passes the authoring guard, that
  every leaf built is a well-formed condition, and where the boundary drops what it was given.
\<close>

section \<open>Resolving a field\<close>

definition servable_entry :: "CatalogueEntry \<Rightarrow> bool" where
  "servable_entry e \<longleftrightarrow> ce_layer e = L1 \<and> ce_capability e = CapNow"

definition resolveEntry :: "string \<Rightarrow> CatalogueEntry option" where
  "resolveEntry field =
     (let f = js_trim (js_lower field);
          direct = (case findCatalogueEntry f of Some e \<Rightarrow> Some e | None \<Rightarrow> findCatalogueEntry (js_trim field)) in
      case direct of
        Some e \<Rightarrow>
          if servable_entry e then Some e
          else find (\<lambda>e. servable_entry e \<and> (js_lower (ce_type e) = f \<or> js_lower (ce_label e) = f)) UPRISE_CATALOGUE
      | None \<Rightarrow>
          find (\<lambda>e. servable_entry e \<and> (js_lower (ce_type e) = f \<or> js_lower (ce_label e) = f)) UPRISE_CATALOGUE)"

section \<open>Reading the operands\<close>

text \<open>\<open>Array.isArray(raw) ? raw : raw == null ? [] : [raw]\<close>\<close>

definition raw_array :: "json option \<Rightarrow> json list" where
  "raw_array raw =
     (case raw of Some (JArr xs) \<Rightarrow> xs | None \<Rightarrow> [] | Some j \<Rightarrow> if j = JNull then [] else [j])"

definition snap_option :: "CatalogueOption list \<Rightarrow> string \<Rightarrow> string option" where
  "snap_option options v =
     (let lc = js_lower v in
      case find (\<lambda>(val, lab). js_lower val = lc \<or> js_lower lab = lc) options of
        Some (val, lab) \<Rightarrow> Some val
      | None \<Rightarrow>
          map_option fst (find (\<lambda>(val, lab). str_includes (js_lower lab) lc \<or> str_includes (js_lower val) lc \<or>
            str_includes lc (js_lower val)) options))"

definition snapValues :: "JsEnv \<Rightarrow> CatalogueEntry \<Rightarrow> json option \<Rightarrow> string list" where
  "snapValues lg entry raw =
     (let asStrings = filter (\<lambda>v. 0 < length v \<and> length v \<le> 512) (map (js_String lg) (raw_array raw)) in
      case ce_options entry of
        None \<Rightarrow> js_set asStrings
      | Some options \<Rightarrow>
          if options = [] then js_set asStrings
          else js_set (filter (\<lambda>v. v \<noteq> []) (map the (filter (\<lambda>v. v \<noteq> None) (map (snap_option options) asStrings)))))"

text \<open>The regular expression \<open>\b(...)\b\<close> over word alternatives, ignoring case.\<close>

definition word_char :: "char \<Rightarrow> bool" where
  "word_char c \<longleftrightarrow>
     is_digit c \<or> c = CHR ''_'' \<or> (let n = (of_char c :: nat) in (65 \<le> n \<and> n \<le> 90) \<or> (97 \<le> n \<and> n \<le> 122))"

definition boundary :: "char option \<Rightarrow> char option \<Rightarrow> bool" where
  "boundary before next \<longleftrightarrow>
     (case before of None \<Rightarrow> False | Some c \<Rightarrow> word_char c) \<noteq> (case next of None \<Rightarrow> False | Some c \<Rightarrow> word_char c)"

definition first_char :: "string \<Rightarrow> char option" where
  "first_char s = (case s of [] \<Rightarrow> None | c # cs \<Rightarrow> Some c)"

definition word_here :: "char option \<Rightarrow> string \<Rightarrow> string \<Rightarrow> bool" where
  "word_here before s w \<longleftrightarrow>
     boundary before (first_char s) \<and> starts_with (js_lower s) w \<and>
     boundary (Some (last w)) (first_char (drop (length w) s))"

fun has_word :: "string list \<Rightarrow> char option \<Rightarrow> string \<Rightarrow> bool" where
  "has_word ws before [] = list_ex (word_here before []) ws"
| "has_word ws before (c # s) = (list_ex (word_here before (c # s)) ws \<or> has_word ws (Some c) s)"

definition isNegation :: "JsEnv \<Rightarrow> json option \<Rightarrow> bool" where
  "isNegation lg opRaw =
     has_word [''not'', ''n't'', ''exclude'', ''without'', ''never''] None (stringOr lg opRaw '''')"

text \<open>\<open>Number(s)\<close> of the digits and dots is the environment's; \<open>None\<close> stands for a number that is not finite.\<close>

definition math_round :: "rat \<Rightarrow> rat" where
  "math_round q = of_int (floor (q + 1 / 2))"

definition raw_texts :: "JsEnv \<Rightarrow> json option \<Rightarrow> string list" where
  "raw_texts lg raw =
     (case raw of
        Some (JArr xs) \<Rightarrow> map (js_String lg) xs
      | Some j \<Rightarrow> [js_String lg j]
      | None \<Rightarrow> [''undefined''])"

definition text_number :: "JsEnv \<Rightarrow> string \<Rightarrow> rat option" where
  "text_number lg s = js_toNumber lg (JStr (filter (\<lambda>c. is_digit c \<or> c = CHR ''.'') s))"

definition is_positive :: "rat option \<Rightarrow> bool" where
  "is_positive v = (case v of None \<Rightarrow> False | Some n \<Rightarrow> 0 < n)"

definition firstNumber :: "JsEnv \<Rightarrow> json option \<Rightarrow> rat option" where
  "firstNumber lg raw =
     (case find (\<lambda>s. is_positive (text_number lg s)) (raw_texts lg raw) of
        None \<Rightarrow> None
      | Some s \<Rightarrow> map_option math_round (text_number lg s))"

section \<open>Building a leaf\<close>

definition condition_object :: "string \<Rightarrow> (string \<times> json) list \<Rightarrow> json" where
  "condition_object type fs = JObj ((''type'', JStr type) # fs)"

text \<open>\<open>Array.isArray(valueRaw) ? valueRaw[0] : (valueRaw ?? d)\<close>, then \<open>String\<close>\<close>

definition first_string :: "JsEnv \<Rightarrow> json option \<Rightarrow> string \<Rightarrow> string" where
  "first_string lg valueRaw d =
     (case valueRaw of
        Some (JArr []) \<Rightarrow> ''undefined''
      | Some (JArr (x # xs)) \<Rightarrow> js_String lg x
      | v \<Rightarrow> stringOr lg v d)"

definition buildCondition :: "JsEnv \<Rightarrow> CatalogueEntry \<Rightarrow> json option \<Rightarrow> json option \<Rightarrow> (json \<times> bool) option" where
  "buildCondition lg entry opRaw valueRaw =
     (let negate = isNegation lg opRaw; type = ce_type entry in
      case ce_dataType entry of
        DEnum \<Rightarrow>
          (let values = snapValues lg entry valueRaw in
           if values = [] then None
           else Some (condition_object type [(''op'', JStr ''in''), (''values'', strs values)], negate))
      | DBool \<Rightarrow>
          (let raw = js_lower (first_string lg valueRaw ''true'');
               value = (raw \<notin> set [''false'', ''no'', ''0'']) in
           Some (condition_object type [(''op'', JStr ''is''), (''value'', JBool value)], negate))
      | DString \<Rightarrow>
          (let value = js_trim (first_string lg valueRaw '''') in
           if value = [] \<or> 512 < length value then None
           else Some (condition_object type [(''op'', JStr ''contains''), (''value'', JStr value)], negate))
      | DDate \<Rightarrow>
          (case firstNumber lg valueRaw of
             None \<Rightarrow> None
           | Some days \<Rightarrow>
               if days = 0 \<or> 3650 < days then None
               else Some (condition_object type [(''op'', JStr ''within''), (''days'', JNum days)], negate))
      | DBespoke \<Rightarrow>
          (let values = snapValues lg entry valueRaw in
           if type = ''survey.responded'' then
             (if values = [] then None
              else Some (condition_object type [(''op'', JStr ''is''), (''surveyId'', JStr (hd values))], negate))
           else if type = ''event.rsvped'' \<or> type = ''blast.received'' \<or> type = ''blast.replied'' \<or>
             type = ''journey.enrolled'' then Some (condition_object type [(''op'', JStr ''is'')], negate)
           else None))"

section \<open>The walk\<close>

text \<open>A residual clause is its label and its intent.\<close>

record ResidualClause =
  rs_label :: string
  rs_intent :: string

definition is_loose_group :: "json \<Rightarrow> bool" where
  "is_loose_group n \<longleftrightarrow>
     is_jobj n \<and> (jget n ''match'' \<noteq> None \<or> jget n ''children'' \<noteq> None \<or> jget n ''conditions'' \<noteq> None)"

definition EMPTY_ALL :: json where
  "EMPTY_ALL = JObj [(''kind'', JStr ''all''), (''children'', JArr [])]"

definition group_node :: "string \<Rightarrow> json list \<Rightarrow> json" where
  "group_node kind kids = JObj [(''kind'', JStr kind), (''children'', JArr kids)]"

definition leaf_node :: "json \<Rightarrow> json" where
  "leaf_node condition = JObj [(''kind'', JStr ''condition''), (''condition'', condition)]"

definition text_or :: "json option \<Rightarrow> nat \<Rightarrow> string \<Rightarrow> string" where
  "text_or v n d = (case v of Some (JStr s) \<Rightarrow> if s \<noteq> [] then take n s else take n d | _ \<Rightarrow> take n d)"

definition toResidual :: "JsEnv \<Rightarrow> json \<Rightarrow> ResidualClause" where
  "toResidual lg c =
     (let field = (if js_truthy (jget c ''field'') then stringOr lg (jget c ''field'') '''' else ''condition'') in
      \<lparr>rs_label = text_or (jget c ''label'') 200 field, rs_intent = text_or (jget c ''intent'') 2000 field\<rparr>)"

definition type_error :: api_error where
  "type_error = ThrownError ''TypeError''"

definition loose_entry :: "json \<Rightarrow> CatalogueEntry option res" where
  "loose_entry c =
     (if \<not> js_truthy (jget c ''field'') then Inr None
      else case jget c ''field'' of Some (JStr s) \<Rightarrow> Inr (resolveEntry s) | _ \<Rightarrow> Inl type_error)"

definition visit_leaf :: "JsEnv \<Rightarrow> json \<Rightarrow> (json option \<times> ResidualClause list) res" where
  "visit_leaf lg node =
     (if \<not> is_object node then Inr (None, [])
      else rbind (loose_entry node) (\<lambda>e.
        case e of
          None \<Rightarrow>
            Inr (None, if js_truthy (jget node ''field'') \<or> js_truthy (jget node ''intent'')
                       then [toResidual lg node] else [])
        | Some entry \<Rightarrow>
            (case buildCondition lg entry (jget node ''op'') (jget node ''value'') of
               None \<Rightarrow> Inr (None, [toResidual lg node])
             | Some (condition, negate) \<Rightarrow>
                 Inr (Some (if negate then group_node ''none'' [leaf_node condition] else leaf_node condition), []))))"

definition loose_kids :: "json \<Rightarrow> json list res" where
  "loose_kids node =
     (case js_or (js_or (jget node ''children'') (jget node ''conditions'')) (Some (JArr [])) of
        Some (JArr xs) \<Rightarrow> Inr xs
      | _ \<Rightarrow> Inl type_error)"

definition loose_match :: "json \<Rightarrow> string" where
  "loose_match node =
     (if jget node ''match'' = Some (JStr ''any'') then ''any''
      else if jget node ''match'' = Some (JStr ''none'') then ''none'' else ''all'')"

lemma array_field_size: "jget j k = Some (JArr xs) \<Longrightarrow> size_list size xs < size j"
  by (cases j) (auto dest!: map_of_size)

lemma loose_kids_size: "loose_kids node = Inr xs \<Longrightarrow> xs = [] \<or> size_list size xs < size node"
  by (auto simp: loose_kids_def js_or_def split: option.splits json.splits if_splits dest: array_field_size)

lemma loose_group_size: "is_loose_group n \<Longrightarrow> 0 < size n"
  by (cases n) (auto simp: is_loose_group_def)

function visit :: "JsEnv \<Rightarrow> nat \<Rightarrow> json \<Rightarrow> (json option \<times> ResidualClause list) res"
  and visit_kids :: "JsEnv \<Rightarrow> nat \<Rightarrow> json list \<Rightarrow> (json list \<times> ResidualClause list) res" where
  "visit lg depth node =
     (if is_loose_group node
      then (case loose_kids node of
              Inl e \<Rightarrow> Inl e
            | Inr kids \<Rightarrow>
                rbind (visit_kids lg depth kids) (\<lambda>(ks, rs).
                  Inr (if ks = [] then None else Some (group_node (loose_match node) ks), rs)))
      else visit_leaf lg node)"
| "visit_kids lg depth [] = Inr ([], [])"
| "visit_kids lg depth (child # rest) =
     rbind (if is_loose_group child \<and> \<not> depth < 2 then Inr (None, []) else visit lg (depth + 1) child) (\<lambda>(k, r).
       rbind (visit_kids lg depth rest) (\<lambda>(ks, rs).
         Inr ((case k of None \<Rightarrow> ks | Some n \<Rightarrow> n # ks), r @ rs)))"
  by pat_completeness auto
termination
  by (relation "measure (case_sum (\<lambda>(lg, d, node). 2 * size node) (\<lambda>(lg, d, kids). 2 * size_list size kids + 1))")
    (auto dest!: loose_kids_size loose_group_size)

declare visit.simps [simp del]

record NormaliseResult =
  nr_tree :: json
  nr_residual :: "ResidualClause list"

definition visited_tree :: "json option \<Rightarrow> json" where
  "visited_tree built =
     (case built of
        None \<Rightarrow> EMPTY_ALL
      | Some t \<Rightarrow> if jget t ''kind'' = Some (JStr ''condition'') then group_node ''all'' [t] else t)"

definition normaliseAiTree :: "(zschema \<Rightarrow> json \<Rightarrow> bool) \<Rightarrow> JsEnv \<Rightarrow> json \<Rightarrow> NormaliseResult res" where
  "normaliseAiTree safeParse lg raw =
     rbind (visit lg 0 raw) (\<lambda>(built, residual).
       case validateAuthoredFilter safeParse (visited_tree built) None of
         FilterOk \<Rightarrow> Inr \<lparr>nr_tree = visited_tree built, nr_residual = residual\<rparr>
       | FilterRejected r t b \<Rightarrow> Inr \<lparr>nr_tree = EMPTY_ALL, nr_residual = residual\<rparr>
       | FilterTypeError \<Rightarrow> Inl type_error)"


section \<open>The result passes the guard\<close>

lemma represents_empty: "represents EMPTY_ALL (FilterGroup All [])"
  by (simp add: EMPTY_ALL_def only_keys_def)

lemma empty_accepted:
  assumes "zod_parser sp dp"
  shows "validateAuthoredFilter sp EMPTY_ALL ids = FilterOk"
  using represents_empty guard_accepts_iff [OF assms]
  by (auto simp: authorable_tree_def intro!: exI [of _ "FilterGroup All []"])

lemma normaliseAiTree_cases:
  assumes "normaliseAiTree sp lg raw = Inr r"
  obtains built residual where "visit lg 0 raw = Inr (built, residual)" "nr_residual r = residual"
    "nr_tree r = (if validateAuthoredFilter sp (visited_tree built) None = FilterOk
                  then visited_tree built else EMPTY_ALL)"
proof (cases "visit lg 0 raw")
  case (Inr p)
  obtain built residual where p: "p = (built, residual)" by (cases p)
  show ?thesis
    using assms Inr p
    by (intro that [of built residual]; cases "validateAuthoredFilter sp (visited_tree built) None")
      (auto simp: normaliseAiTree_def)
qed (use assms in \<open>simp add: normaliseAiTree_def\<close>)

text \<open>C32: Whatever loose tree the model produces, the filter the AI boundary returns passes the authoring
  guard: no unvalidated model output reaches a stored segment.\<close>

theorem normalised_tree_accepted:
  assumes "zod_parser sp dp" "normaliseAiTree sp lg raw = Inr r"
  shows "validateAuthoredFilter sp (nr_tree r) None = FilterOk"
  using assms(2) by (rule normaliseAiTree_cases) (simp add: empty_accepted [OF assms(1)])

section \<open>Every leaf is a well-formed condition\<close>

lemma enum_entry_types:
  "\<forall>e\<in>set UPRISE_CATALOGUE. servable_entry e \<and> ce_dataType e = DEnum \<longrightarrow>
     ce_type e \<in> set (''contact.postcode'' # map enum_type_id
       [ContactState, ContactLocality, ContactTurf, ContactSupportLevel, TagTagged, ConsentSms,
        ConsentWhatsapp, SourceSystem, CanvassDispositionCode])"
  by code_simp

lemma bool_entry_types:
  "\<forall>e\<in>set UPRISE_CATALOGUE. servable_entry e \<and> ce_dataType e = DBool \<longrightarrow>
     ce_type e \<in> set (map bool_type_id [ContactHasEmail, ContactHasPhone, ContactConsented])"
  by code_simp

lemma string_entry_types:
  "\<forall>e\<in>set UPRISE_CATALOGUE. servable_entry e \<and> ce_dataType e = DString \<longrightarrow> ce_type e = ''contact.emailDomain''"
  by code_simp

lemma date_entry_types:
  "\<forall>e\<in>set UPRISE_CATALOGUE. servable_entry e \<and> ce_dataType e = DDate \<longrightarrow>
     ce_type e \<in> set (map date_type_id [ContactCreatedAt, ActivityLastActiveWithin, CanvassDoorKnockedAt,
       EmailOpenedAt, EmailClickedAt])"
  by code_simp

lemma option_values:
  "\<forall>e\<in>set UPRISE_CATALOGUE. case ce_options e of None \<Rightarrow> True
     | Some options \<Rightarrow> \<forall>p\<in>set options. 1 \<le> length (fst p) \<and> length (fst p) \<le> 512"
  by code_simp

lemma resolveEntry_servable:
  "resolveEntry field = Some e \<Longrightarrow> e \<in> set UPRISE_CATALOGUE \<and> servable_entry e"
  by (auto simp: resolveEntry_def Let_def findCatalogueEntry_iff split: option.splits if_splits dest: find_Some_in)

lemma snap_option_in: "snap_option options v = Some w \<Longrightarrow> \<exists>lab. (w, lab) \<in> set options"
  by (auto simp: snap_option_def Let_def split: option.splits dest!: find_Some_in)

lemma snapValues_operands:
  assumes "e \<in> set UPRISE_CATALOGUE"
  shows "\<forall>v\<in>set (snapValues lg e raw). wf_operand v"
proof (cases "ce_options e = None \<or> ce_options e = Some []")
  case True
  then show ?thesis by (auto simp: snapValues_def wf_operand_def Suc_le_eq)
next
  case False
  then obtain options where o: "ce_options e = Some options" "options \<noteq> []" by auto
  with assms option_values have lens: "\<forall>p\<in>set options. 1 \<le> length (fst p) \<and> length (fst p) \<le> 512" by force
  have "wf_operand v" if "v \<in> set (snapValues lg e raw)" for v
  proof -
    from that o obtain x where "snap_option options x = Some v" by (auto simp: snapValues_def)
    with lens show ?thesis by (auto simp: wf_operand_def dest!: snap_option_in)
  qed
  then show ?thesis by blast
qed

lemma math_round_int: "of_int (floor (math_round q)) = math_round q"
  by (simp add: math_round_def)

lemma math_round_nonneg: "0 < q \<Longrightarrow> 0 \<le> math_round q"
  by (simp add: math_round_def)

lemma firstNumber_nonneg:
  assumes "firstNumber lg raw = Some d"
  shows "of_int (floor d) = d \<and> 0 \<le> d"
proof -
  from assms obtain s q where "is_positive (text_number lg s)" "text_number lg s = Some q" "d = math_round q"
    by (auto simp: firstNumber_def split: option.splits dest!: find_Some_in)
  then show ?thesis by (auto simp: is_positive_def math_round_nonneg math_round_int)
qed

lemma same_props_refl: "same_props (condition_json c) (condition_json c)"
  by (simp add: same_props_def condition_json_def)

lemma buildCondition_wf:
  assumes "e \<in> set UPRISE_CATALOGUE" "servable_entry e" "buildCondition lg e op raw = Some (j, neg)"
    and "length (snapValues lg e raw) \<le> 1000"
  shows "\<exists>c. wf_condition dp c \<and> j = condition_json c \<and> condition_type c = ce_type e \<and>
    (\<forall>ref. c \<noteq> CustomClauseCondition ref)"
proof -
  note vals = snapValues_operands [OF assms(1), of lg raw]
  have vs: "wf_values 1000 (snapValues lg e raw)" if "snapValues lg e raw \<noteq> []"
    using that vals assms(4) by (simp add: wf_values_def Suc_le_eq)
  show ?thesis
  proof (cases "ce_dataType e")
    case DEnum
    with assms(3) have j: "snapValues lg e raw \<noteq> []"
      "j = condition_object (ce_type e) [(''op'', JStr ''in''), (''values'', strs (snapValues lg e raw))]"
      by (auto simp: buildCondition_def Let_def split: if_splits)
    from enum_entry_types assms(1,2) DEnum consider (p) "ce_type e = ''contact.postcode''"
      | (t) t where "ce_type e = enum_type_id t" by (simp only: set_map list.set image_insert) blast
    then show ?thesis
    proof cases
      case p
      then show ?thesis using j vs
        by (intro exI [of _ "PostcodeSetCondition In (snapValues lg e raw)"])
          (simp add: condition_json_def condition_object_def)
    next
      case (t t)
      then show ?thesis using j vs
        by (intro exI [of _ "EnumCondition t In (snapValues lg e raw)"])
          (simp add: condition_json_def condition_object_def)
    qed
  next
    case DBool
    then obtain b where j: "j = condition_object (ce_type e) [(''op'', JStr ''is''), (''value'', JBool b)]"
      using assms(3) by (auto simp: buildCondition_def Let_def)
    from bool_entry_types assms(1,2) DBool obtain t where "ce_type e = bool_type_id t"
      by (simp only: set_map list.set image_insert) blast
    then show ?thesis using j
      by (intro exI [of _ "BoolCondition t Is b"]) (simp add: condition_json_def condition_object_def)
  next
    case DString
    define v where "v = js_trim (first_string lg raw '''')"
    from DString assms(3) have j: "v \<noteq> []" "length v \<le> 512"
      "j = condition_object (ce_type e) [(''op'', JStr ''contains''), (''value'', JStr v)]"
      by (auto simp: buildCondition_def Let_def v_def split: if_splits)
    then show ?thesis using string_entry_types assms(1,2) DString
      by (intro exI [of _ "EmailDomainCondition Contains v"])
        (simp add: condition_json_def condition_object_def wf_operand_def Suc_le_eq)
  next
    case DDate
    then obtain d where d: "firstNumber lg raw = Some d" "d \<noteq> 0" "d \<le> 3650"
      "j = condition_object (ce_type e) [(''op'', JStr ''within''), (''days'', JNum d)]"
      using assms(3) by (auto simp: buildCondition_def Let_def split: option.splits if_splits)
    from date_entry_types assms(1,2) DDate obtain t where "ce_type e = date_type_id t"
      by (simp only: set_map list.set image_insert) blast
    then show ?thesis using d firstNumber_nonneg [OF d(1)]
      by (intro exI [of _ "DateCondition t (Within d)"])
        (simp add: condition_json_def condition_object_def wf_days_def)
  next
    case DBespoke
    have op: "wf_operand (hd vs)" if "vs = snapValues lg e raw" "vs \<noteq> []" for vs
      using vals that by simp
    from DBespoke assms(3) consider
        (survey) "ce_type e = ''survey.responded''" "snapValues lg e raw \<noteq> []"
          "j = condition_object (ce_type e) [(''op'', JStr ''is''), (''surveyId'', JStr (hd (snapValues lg e raw)))]"
      | (rsvp) "ce_type e = ''event.rsvped''" "j = condition_object (ce_type e) [(''op'', JStr ''is'')]"
      | (received) "ce_type e = ''blast.received''" "j = condition_object (ce_type e) [(''op'', JStr ''is'')]"
      | (replied) "ce_type e = ''blast.replied''" "j = condition_object (ce_type e) [(''op'', JStr ''is'')]"
      | (journey) "ce_type e = ''journey.enrolled''" "j = condition_object (ce_type e) [(''op'', JStr ''is'')]"
      by (auto simp: buildCondition_def Let_def split: if_splits)
    then show ?thesis
    proof cases
      case survey
      then show ?thesis using op [OF refl]
        by (intro exI [of _ "SurveyRespondedCondition Is (hd (snapValues lg e raw))"])
          (simp add: condition_json_def condition_object_def)
    next
      case rsvp
      then show ?thesis
        by (intro exI [of _ "EventRsvpedCondition Is None None"])
          (simp add: condition_json_def condition_object_def opt_field_def)
    next
      case received
      then show ?thesis
        by (intro exI [of _ "BlastReceivedCondition Is None None"])
          (simp add: condition_json_def condition_object_def opt_field_def)
    next
      case replied
      then show ?thesis
        by (intro exI [of _ "BlastRepliedCondition Is None None"])
          (simp add: condition_json_def condition_object_def opt_field_def)
    next
      case journey
      then show ?thesis
        by (intro exI [of _ "JourneyEnrolledCondition Is None None"])
          (simp add: condition_json_def condition_object_def opt_field_def)
    qed
  qed
qed

section \<open>A flat tree loses nothing\<close>

text \<open>A loose condition that asks for something: a truthy field or intent.\<close>

definition loose_asks :: "json \<Rightarrow> bool" where
  "loose_asks k \<longleftrightarrow> is_object k \<and> (js_truthy (jget k ''field'') \<or> js_truthy (jget k ''intent''))"

definition flat_kid :: "json \<Rightarrow> bool" where
  "flat_kid k \<longleftrightarrow>
     \<not> is_loose_group k \<and> is_ok (loose_entry k) \<and> length (raw_array (jget k ''value'')) \<le> 1000"

definition flat_kids :: "json list \<Rightarrow> bool" where
  "flat_kids kids \<longleftrightarrow> length kids \<le> 99 \<and> (\<forall>k\<in>set kids. flat_kid k)"

fun small_node :: "filter_node \<Rightarrow> bool" where
  "small_node (FilterCondition c) \<longleftrightarrow> authorable (\<lambda>s. True) None c"
| "small_node (FilterGroup k [FilterCondition c]) \<longleftrightarrow> authorable (\<lambda>s. True) None c"
| "small_node t \<longleftrightarrow> False"

lemma length_js_set: "length (js_set xs) \<le> length xs"
  by (induction xs) (auto intro: order_trans [OF length_filter_le])

lemma snapValues_length: "length (snapValues lg e raw) \<le> length (raw_array raw)"
proof -
  have "length (js_set (filter P ys)) \<le> length ys" for P :: "string \<Rightarrow> bool" and ys
    using length_js_set [of "filter P ys"] length_filter_le [of P ys] by (rule order_trans)
  moreover have "length (map the (filter (\<lambda>v. v \<noteq> None) (map (snap_option os) ys))) \<le> length ys" for os ys
    using length_filter_le [of "\<lambda>v. v \<noteq> None" "map (snap_option os) ys"] by simp
  moreover have "length (filter P (map (js_String lg) (raw_array raw))) \<le> length (raw_array raw)"
    for P :: "string \<Rightarrow> bool"
    using length_filter_le [of P "map (js_String lg) (raw_array raw)"] by simp
  ultimately show ?thesis
    unfolding snapValues_def Let_def
    by (auto split: option.split intro: order_trans length_js_set)
qed

lemma entry_layer: "\<forall>e\<in>set UPRISE_CATALOGUE. ce_layer e = conditionLayer (ce_type e)"
  by code_simp

lemma represents_leaf_node: "represents (leaf_node (condition_json c)) (FilterCondition c)"
  by (simp add: leaf_node_def only_keys_def same_props_refl)

lemma represents_group_node:
  "list_all2 represents ks ts \<Longrightarrow> represents (group_node (group_kind_id k) ks) (FilterGroup k ts)"
  by (simp add: group_node_def only_keys_def)

lemma loose_entry_Some:
  "loose_entry k = Inr (Some e) \<Longrightarrow> js_truthy (jget k ''field'') \<and> (\<exists>s. resolveEntry s = Some e)"
  by (auto simp: loose_entry_def split: if_splits option.splits json.splits)

lemma visit_leaf_Some:
  assumes "visit_leaf lg k = Inr (Some n, rs)"
  obtains s e cond neg where "is_object k" "js_truthy (jget k ''field'')" "resolveEntry s = Some e"
    "buildCondition lg e (jget k ''op'') (jget k ''value'') = Some (cond, neg)"
    "n = (if neg then group_node ''none'' [leaf_node cond] else leaf_node cond)" "rs = []"
proof -
  from assms obtain e where k: "is_object k" "loose_entry k = Inr (Some e)"
    by (cases "loose_entry k") (auto simp: visit_leaf_def split: if_splits option.splits)
  moreover obtain cond neg where "buildCondition lg e (jget k ''op'') (jget k ''value'') = Some (cond, neg)"
    "n = (if neg then group_node ''none'' [leaf_node cond] else leaf_node cond)" "rs = []"
    using assms k by (cases "buildCondition lg e (jget k ''op'') (jget k ''value'')") (auto simp: visit_leaf_def)
  ultimately show thesis using that loose_entry_Some [OF k(2)] by blast
qed

lemma visit_leaf_kept:
  assumes "visit_leaf lg k = Inr (Some n, rs)" "length (raw_array (jget k ''value'')) \<le> 1000"
  shows "loose_asks k \<and> rs = [] \<and> (\<exists>t. represents n t \<and> small_node t)"
proof -
  from assms(1) obtain s e cond neg where k: "is_object k" "js_truthy (jget k ''field'')"
    and e: "resolveEntry s = Some e" and b: "buildCondition lg e (jget k ''op'') (jget k ''value'') = Some (cond, neg)"
    and n: "n = (if neg then group_node ''none'' [leaf_node cond] else leaf_node cond)" "rs = []"
    by (rule visit_leaf_Some)
  note e = resolveEntry_servable [OF e]
  have "length (snapValues lg e (jget k ''value'')) \<le> 1000"
    using snapValues_length assms(2) by (rule order_trans)
  with e b obtain c where c: "wf_condition (\<lambda>s. True) c" "cond = condition_json c" "condition_type c = ce_type e"
      "\<forall>ref. c \<noteq> CustomClauseCondition ref"
    using buildCondition_wf by meson
  from e entry_layer have "conditionLayer (ce_type e) = L1" by (auto simp: servable_entry_def)
  with c have auth: "authorable (\<lambda>s. True) None c"
    by (cases c) (simp_all add: authorable_def isAuthorableLayer_def)
  have "\<exists>t. represents n t \<and> small_node t"
  proof (cases neg)
    case True
    have "represents n (FilterGroup NoneOf [FilterCondition c])"
      using represents_group_node [of "[leaf_node cond]" "[FilterCondition c]" NoneOf] represents_leaf_node [of c]
        True n c(2) by simp
    with auth show ?thesis by (intro exI [of _ "FilterGroup NoneOf [FilterCondition c]"]) simp
  next
    case False
    with auth n c(2) represents_leaf_node [of c] show ?thesis
      by (intro exI [of _ "FilterCondition c"]) simp
  qed
  with k n(2) show ?thesis by (simp add: loose_asks_def)
qed

lemma visit_leaf_dropped:
  assumes "visit_leaf lg k = Inr (None, rs)"
  shows "length rs = (if loose_asks k then 1 else 0)"
proof (cases "is_object k")
  case True
  with assms obtain oe where oe: "loose_entry k = Inr oe" by (cases "loose_entry k") (auto simp: visit_leaf_def)
  show ?thesis
  proof (cases oe)
    case None
    with True oe assms show ?thesis by (auto simp: visit_leaf_def loose_asks_def split: if_splits)
  next
    case (Some e)
    with True oe assms loose_entry_Some [of k e] show ?thesis
      by (cases "buildCondition lg e (jget k ''op'') (jget k ''value'')")
        (auto simp: visit_leaf_def loose_asks_def split: if_splits)
  qed
qed (use assms in \<open>simp add: visit_leaf_def loose_asks_def\<close>)

lemma visit_leaf_total: "is_ok (loose_entry k) \<Longrightarrow> \<exists>n r. visit_leaf lg k = Inr (n, r)"
proof -
  assume "is_ok (loose_entry k)"
  then have "is_ok (visit_leaf lg k)"
    by (cases "loose_entry k") (auto simp: visit_leaf_def split: option.split)
  then show ?thesis by (cases "visit_leaf lg k") auto
qed

lemma visit_flat_kids:
  assumes "\<forall>k\<in>set kids. flat_kid k"
  shows "\<exists>ks rs ts. visit_kids lg d kids = Inr (ks, rs) \<and> list_all2 represents ks ts \<and>
    (\<forall>t\<in>set ts. small_node t) \<and> length ks + length rs = length (filter loose_asks kids)"
  using assms
proof (induction kids)
  case (Cons k kids)
  then obtain ks' rs' ts where v: "visit_kids lg d kids = Inr (ks', rs')"
    and ts: "list_all2 represents ks' ts" "\<forall>t\<in>set ts. small_node t"
      "length ks' + length rs' = length (filter loose_asks kids)"
    by auto
  from Cons.prems have k: "\<not> is_loose_group k" "is_ok (loose_entry k)"
    "length (raw_array (jget k ''value'')) \<le> 1000" by (auto simp: flat_kid_def)
  from visit_leaf_total [OF k(2)] obtain n r where n: "visit_leaf lg k = Inr (n, r)" by blast
  with k v have step: "visit_kids lg d (k # kids) = Inr ((case n of None \<Rightarrow> ks' | Some m \<Rightarrow> m # ks'), r @ rs')"
    by (simp add: visit.simps)
  show ?case
  proof (cases n)
    case None
    with n visit_leaf_dropped have "length r = (if loose_asks k then 1 else 0)" by simp
    with None ts step show ?thesis by (intro exI [of _ ks'] exI [of _ "r @ rs'"] exI [of _ ts]) auto
  next
    case (Some m)
    with n visit_leaf_kept [of lg k m r] k(3) obtain t where
      "loose_asks k" "r = []" "represents m t" "small_node t" by auto
    with Some ts step show ?thesis by (intro exI [of _ "m # ks'"] exI [of _ rs'] exI [of _ "t # ts"]) auto
  qed
qed simp

lemma small_node_size:
  "small_node t \<Longrightarrow> tree_nodes t \<le> 2 \<and> tree_depth t \<le> 1 \<and> length (tree_conditions t) = 1 \<and>
     (\<forall>c\<in>set (tree_conditions t). authorable (\<lambda>s. True) None c)"
  by (cases t rule: small_node.cases) auto

lemma sum_list_le: "\<forall>t\<in>set ts. f t \<le> (b :: nat) \<Longrightarrow> sum_list (map f ts) \<le> b * length ts"
  by (induction ts) auto

lemma small_group_authorable:
  assumes "\<forall>t\<in>set ts. small_node t" "length ts \<le> 99"
  shows "authorable_tree (\<lambda>s. True) None (FilterGroup k ts)"
proof -
  have "sum_list (map tree_nodes ts) \<le> 2 * length ts"
    using assms(1) small_node_size by (intro sum_list_le) auto
  moreover have "fold max (map tree_depth ts) 0 \<le> 1"
    using assms(1) small_node_size by (auto simp: fold_max_le)
  ultimately show ?thesis
    using assms small_node_size by (auto simp: authorable_tree_def)
qed

lemma small_group_leaves:
  "\<forall>t\<in>set ts. small_node t \<Longrightarrow> length (tree_conditions (FilterGroup k ts)) = length ts"
  by (induction ts) (simp_all add: small_node_size)

lemma represents_condition_count: "represents j t \<Longrightarrow> length (leaves j) = length (tree_conditions t)"
  using represents_leaves [of j t] by (auto dest: list_all2_lengthD)

lemma flat_tree_facts:
  assumes "zod_parser sp (\<lambda>s. True)" "is_loose_group raw" "loose_kids raw = Inr kids" "flat_kids kids"
  shows "\<exists>r. normaliseAiTree sp lg raw = Inr r \<and>
    length (leaves (nr_tree r)) + length (nr_residual r) = length (filter loose_asks kids)"
proof -
  obtain ks rs ts where ks: "visit_kids lg 0 kids = Inr (ks, rs)"
    and ts: "list_all2 represents ks ts" "\<forall>t\<in>set ts. small_node t"
      "length ks + length rs = length (filter loose_asks kids)"
    using visit_flat_kids [of kids lg 0] assms(4) by (auto simp: flat_kids_def)
  have v: "visit lg 0 raw = Inr (if ks = [] then None else Some (group_node (loose_match raw) ks), rs)"
    using ks assms(2,3) by (simp add: visit.simps [of _ 0 raw])
  have len: "length ts = length ks" using ts(1) by (simp add: list_all2_lengthD)
  obtain m where m: "loose_match raw = group_kind_id m"
    unfolding loose_match_def by (metis group_kind_id.simps)
  show ?thesis
  proof (cases "ks = []")
    case True
    then show ?thesis using empty_accepted [OF assms(1), of None] ts(3)
      by (simp add: normaliseAiTree_def v visited_tree_def, simp add: EMPTY_ALL_def leaves.simps
          is_condition_node_def raw_children_def is_object_def)
  next
    case False
    let ?g = "group_node (loose_match raw) ks"
    have g: "represents ?g (FilterGroup m ts)" unfolding m by (rule represents_group_node [OF ts(1)])
    have vt: "visited_tree (Some ?g) = ?g"
      using group_kind_not_condition [of m] by (simp add: visited_tree_def group_node_def m)
    have "length ks + length rs \<le> length kids" using ts(3) length_filter_le [of loose_asks kids] by simp
    then have "length ts \<le> 99" using len assms(4) unfolding flat_kids_def by linarith
    then have "authorable_tree (\<lambda>s. True) None (FilterGroup m ts)" by (rule small_group_authorable [OF ts(2)])
    with g have "validateAuthoredFilter sp ?g None = FilterOk" using guard_accepts_iff [OF assms(1)] by blast
    then show ?thesis
      using represents_condition_count [OF g] small_group_leaves [OF ts(2), of m] len ts(3) False
      by (simp add: normaliseAiTree_def v vt)
  qed
qed

text \<open>C24: In a loose tree of one group whose children are fewer than a hundred conditions, none of them itself a group,
  each with a field name the model wrote as a string and with at most a thousand values, every condition that asks for
  something ends either as a leaf of the returned filter or as a residual clause: nothing is dropped and the guard never
  resets the tree.\<close>

theorem flat_tree_keeps_all:
  assumes "zod_parser sp (\<lambda>s. True)" "is_loose_group raw" "loose_kids raw = Inr kids" "flat_kids kids"
  shows "\<exists>r. normaliseAiTree sp lg raw = Inr r \<and>
    length (leaves (nr_tree r)) + length (nr_residual r) = length (filter loose_asks kids)"
  by (rule flat_tree_facts [OF assms])

section \<open>Where the boundary loses what it was given\<close>

definition loose_leaf :: "string \<Rightarrow> string \<Rightarrow> json \<Rightarrow> json" where
  "loose_leaf field op value = JObj [(''field'', JStr field), (''op'', JStr op), (''value'', value)]"

definition nested_negation :: json where
  "nested_negation =
     JObj [(''match'', JStr ''all''), (''children'', JArr
       [JObj [(''match'', JStr ''any''), (''children'', JArr
         [loose_leaf ''contact.state'' ''not in'' (JArr [JStr ''NSW''])])]])]"

lemma nested_negation_visit:
  "visit sample_js 0 nested_negation =
     Inr (Some (group_node ''all'' [group_node ''any'' [group_node ''none'' [leaf_node (condition_object ''contact.state''
       [(''op'', JStr ''in''), (''values'', strs [''NSW''])])]]]), [])"
  by code_simp

text \<open>A negated condition two groups deep makes the whole tree too deep for the guard, and the boundary
  returns the empty "all" group, which reaches everyone, without any residual clause that would tell
  the caller so.\<close>

lemma nested_negation_reaches_everyone:
  "normaliseAiTree sp sample_js nested_negation = Inr \<lparr>nr_tree = EMPTY_ALL, nr_residual = []\<rparr>"
proof -
  let ?t = "visited_tree (Some (group_node ''all'' [group_node ''any'' [group_node ''none'' [leaf_node
    (condition_object ''contact.state'' [(''op'', JStr ''in''), (''values'', strs [''NSW''])])]]]))"
  have "\<not> bounds_ok (checkFilterBounds ?t)" by code_simp
  then show ?thesis
    by (simp add: normaliseAiTree_def nested_negation_visit validateAuthoredFilter_def Let_def)
qed

lemma contraction_not_negation:
  "\<not> isNegation sample_js (Some (JStr ''hasn't'')) \<and> \<not> isNegation sample_js (Some (JStr ''isn't in'')) \<and>
   isNegation sample_js (Some (JStr ''Not In''))"
  by code_simp

definition flat_sample :: json where
  "flat_sample = JObj [(''match'', JStr ''any''), (''children'', JArr
     [loose_leaf ''contact.state'' ''not in'' (JArr [JStr ''NSW'']), loose_leaf ''shoe size'' ''is'' (JNum 9)])]"

lemma flat_sample_facts:
  "\<exists>r. normaliseAiTree (zparse (\<lambda>s. True)) sample_js flat_sample = Inr r \<and>
     length (leaves (nr_tree r)) + length (nr_residual r) =
       length (filter loose_asks [loose_leaf ''contact.state'' ''not in'' (JArr [JStr ''NSW'']),
         loose_leaf ''shoe size'' ''is'' (JNum 9)])" and
  flat_sample_kids:
  "is_loose_group flat_sample" "loose_kids flat_sample = Inr [loose_leaf ''contact.state'' ''not in'' (JArr [JStr ''NSW'']),
      loose_leaf ''shoe size'' ''is'' (JNum 9)]"
    "flat_kids [loose_leaf ''contact.state'' ''not in'' (JArr [JStr ''NSW'']), loose_leaf ''shoe size'' ''is'' (JNum 9)]"
proof -
  let ?kids = "[loose_leaf ''contact.state'' ''not in'' (JArr [JStr ''NSW'']), loose_leaf ''shoe size'' ''is'' (JNum 9)]"
  show g: "is_loose_group flat_sample" and k: "loose_kids flat_sample = Inr ?kids" by code_simp+
  show f: "flat_kids ?kids"
    by (simp add: flat_kids_def flat_kid_def loose_leaf_def is_loose_group_def loose_entry_def raw_array_def)
  show "\<exists>r. normaliseAiTree (zparse (\<lambda>s. True)) sample_js flat_sample = Inr r \<and>
     length (leaves (nr_tree r)) + length (nr_residual r) = length (filter loose_asks ?kids)"
    by (rule flat_tree_facts [OF zod_reference.zod_parser_axioms g k f])
qed

theorem flat_tree_keeps_all_witness:
  "\<exists>r. normaliseAiTree (zparse (\<lambda>s. True)) sample_js flat_sample = Inr r \<and>
     length (leaves (nr_tree r)) + length (nr_residual r) = 2"
proof -
  have "length (filter loose_asks [loose_leaf ''contact.state'' ''not in'' (JArr [JStr ''NSW'']),
      loose_leaf ''shoe size'' ''is'' (JNum 9)]) = 2" by code_simp
  then show ?thesis
    using flat_tree_keeps_all [OF zod_reference.zod_parser_axioms flat_sample_kids, of sample_js] by simp
qed

theorem normalised_tree_accepted_witness:
  "\<exists>r. normaliseAiTree (zparse (\<lambda>s. True)) sample_js flat_sample = Inr r \<and>
     validateAuthoredFilter (zparse (\<lambda>s. True)) (nr_tree r) None = FilterOk"
  using flat_sample_facts normalised_tree_accepted [OF zod_reference.zod_parser_axioms, of "\<lambda>s. True" sample_js flat_sample]
  by blast

end
