(* ===== verification/Seg_Fold.thy ===== *)
theory Seg_Fold
  imports Seg_Compose "HOL-Library.List_Lexorder" "HOL-Library.Product_Lexorder" "HOL-Library.Sublist"
begin

text \<open>
  The evaluation of an effective tree: \<^verbatim>\<open>packages/segmentation/src/evaluation/contact-set.ts\<close>,
  \<^verbatim>\<open>set-fold.ts\<close> and \<^verbatim>\<open>hash-order.ts\<close>. A JavaScript \<open>Set\<close> of contact ids is the list of its
  members in insertion order, without repetitions. \<open>eval_node\<close> is the recursive set semantics;
  the main lemma says that the iterative fold computes it. Node identity, the key of the
  \<open>results\<close> map, is the node's path from the root. \<open>sha256\<close> is a parameter.
\<close>

type_synonym contact_set = "string list"

section \<open>Set algebra\<close>

definition intersect :: "contact_set \<Rightarrow> contact_set \<Rightarrow> contact_set" where
  "intersect a b =
     (let small = (if length a \<le> length b then a else b);
          large = (if length a \<le> length b then b else a) in
      filter (\<lambda>x. x \<in> set large) small)"

definition union_set :: "contact_set \<Rightarrow> contact_set \<Rightarrow> contact_set" where
  "union_set a b = js_set (a @ b)"

definition difference :: "contact_set \<Rightarrow> contact_set \<Rightarrow> contact_set" where
  "difference a b = filter (\<lambda>x. x \<notin> set b) a"

fun intersect_rest :: "contact_set \<Rightarrow> contact_set list \<Rightarrow> contact_set" where
  "intersect_rest acc [] = acc"
| "intersect_rest acc (s # ss) = intersect_rest (intersect acc s) ss"

definition intersectAll :: "contact_set list \<Rightarrow> contact_set \<Rightarrow> contact_set" where
  "intersectAll sets universe =
     (case sort_key length sets of
        [] \<Rightarrow> universe
      | first # rest \<Rightarrow> intersect_rest first rest)"

definition unionAll :: "contact_set list \<Rightarrow> contact_set" where
  "unionAll sets = js_set (concat sets)"

definition countIntersection :: "contact_set \<Rightarrow> contact_set \<Rightarrow> nat" where
  "countIntersection a b =
     (let small = (if length a \<le> length b then a else b);
          large = (if length a \<le> length b then b else a) in
      fold (\<lambda>x count. if x \<in> set large then count + 1 else count) small 0)"

definition countDifference :: "contact_set \<Rightarrow> contact_set \<Rightarrow> nat" where
  "countDifference a b = fold (\<lambda>x count. if x \<notin> set b then count + 1 else count) a 0"

lemma set_intersect [simp]: "set (intersect a b) = set a \<inter> set b"
  by (auto simp: intersect_def)

lemma distinct_intersect [simp]: "distinct a \<Longrightarrow> distinct b \<Longrightarrow> distinct (intersect a b)"
  by (simp add: intersect_def)

lemma set_union_set [simp]: "set (union_set a b) = set a \<union> set b"
  by (simp add: union_set_def)

lemma set_difference [simp]: "set (difference a b) = set a - set b"
  by (auto simp: difference_def)

lemma distinct_difference [simp]: "distinct a \<Longrightarrow> distinct (difference a b)"
  by (simp add: difference_def)

lemma set_unionAll [simp]: "set (unionAll sets) = \<Union> (set ` set sets)"
  by (auto simp: unionAll_def)

lemma distinct_unionAll [simp]: "distinct (unionAll sets)"
  by (simp add: unionAll_def)

lemma set_intersect_rest: "set (intersect_rest acc ss) = set acc \<inter> \<Inter> (set ` set ss)"
  by (induction acc ss rule: intersect_rest.induct) auto

lemma distinct_intersect_rest:
  "distinct acc \<Longrightarrow> \<forall>s\<in>set ss. distinct s \<Longrightarrow> distinct (intersect_rest acc ss)"
  by (induction acc ss rule: intersect_rest.induct) auto

lemma set_intersectAll:
  "set (intersectAll sets universe) = (if sets = [] then set universe else \<Inter> (set ` set sets))"
proof (cases "sort_key length sets")
  case Nil
  then have "sets = []" by (metis length_0_conv length_sort)
  then show ?thesis by (simp add: intersectAll_def)
next
  case (Cons first rest)
  then have "set sets = insert first (set rest)" by (metis list.simps(15) set_sort)
  moreover have "sets \<noteq> []" using Cons by auto
  ultimately show ?thesis using Cons by (simp add: intersectAll_def set_intersect_rest)
qed

lemma distinct_intersectAll:
  assumes "distinct universe" "\<forall>s\<in>set sets. distinct s"
  shows "distinct (intersectAll sets universe)"
proof (cases "sort_key length sets")
  case (Cons first rest)
  then have "set sets = insert first (set rest)" by (metis list.simps(15) set_sort)
  with assms Cons show ?thesis by (auto simp: intersectAll_def intro: distinct_intersect_rest)
qed (simp add: intersectAll_def assms)

lemma fold_count: "fold (\<lambda>x count. if P x then count + 1 else count) xs n = n + length (filter P xs)"
  by (induction xs arbitrary: n) auto

lemma countIntersection_length: "countIntersection a b = length (intersect a b)"
  by (simp add: countIntersection_def intersect_def Let_def fold_count)

lemma countDifference_length: "countDifference a b = length (difference a b)"
  by (simp add: countDifference_def difference_def fold_count)

section \<open>Leaves\<close>

definition isEffectiveLeaf :: "effective_node \<Rightarrow> bool" where
  "isEffectiveLeaf node \<longleftrightarrow> \<not> isEffectiveGroup node"

function collect_leaves_loop :: "effective_node list \<Rightarrow> effective_node list \<Rightarrow> effective_node list" where
  "collect_leaves_loop [] found = found"
| "collect_leaves_loop (node # stack) found =
     (if isEffectiveGroup node
      then collect_leaves_loop (rev (node_children node) @ stack) found
      else collect_leaves_loop stack (found @ [node]))"
  by pat_completeness auto
termination
  by (relation "measure (\<lambda>(stack, c). sum_list (map (\<lambda>x. Suc (size x)) stack))")
    (auto simp: sum_sizes size_list_rev le_imp_less_Suc children_smaller)

definition collectEffectiveLeaves :: "effective_node \<Rightarrow> effective_node list" where
  "collectEffectiveLeaves tree = collect_leaves_loop [tree] []"

definition tree_leaves :: "effective_node \<Rightarrow> effective_node list" where
  "tree_leaves tree = filter isEffectiveLeaf (nodes_of tree)"

lemma tree_leaves_simps [simp]:
  "tree_leaves (EGroup k l e cs) = concat (map tree_leaves cs)"
  "tree_leaves (ECondition l e c) = [ECondition l e c]"
  "tree_leaves (EFatigue l e w m) = [EFatigue l e w m]"
  by (auto simp: tree_leaves_def [abs_def] isEffectiveLeaf_def filter_concat comp_def)

lemma collect_leaves_loop_set:
  "set (collect_leaves_loop stack acc) = set acc \<union> \<Union> (set ` tree_leaves ` set stack)"
proof (induction stack acc rule: collect_leaves_loop.induct)
  case (2 node stack found)
  then show ?case by (cases node) (auto simp: isEffectiveLeaf_def)
qed simp

lemma collectEffectiveLeaves_set: "set (collectEffectiveLeaves tree) = set (tree_leaves tree)"
  by (simp add: collectEffectiveLeaves_def collect_leaves_loop_set del: collect_leaves_loop.simps)

section \<open>The fold\<close>

definition combineGroup :: "group_kind \<Rightarrow> contact_set list \<Rightarrow> contact_set \<Rightarrow> contact_set" where
  "combineGroup kind childSets universe =
     (case kind of
        All \<Rightarrow> intersectAll childSets universe
      | Any \<Rightarrow> unionAll childSets
      | NoneOf \<Rightarrow> difference universe (unionAll childSets))"

type_synonym path = "nat list"

definition push_children :: "path \<Rightarrow> effective_node \<Rightarrow> (path \<times> effective_node) list" where
  "push_children p node =
     map (\<lambda>(i, c). (p @ [i], c)) (enumerate 0 (node_children node))"

lemma map_snd_enumerate: "map (\<lambda>x. f (snd x)) (enumerate k xs) = map f xs"
  by (induction xs arbitrary: k) auto

lemma map_fst_enumerate_fun: "map (\<lambda>x. f (fst x)) (enumerate k xs) = map f [k..<k + length xs]"
  by (induction xs arbitrary: k) (auto simp: upt_rec)

lemma push_children_size:
  "sum_list (map (\<lambda>x. Suc (size (snd x))) (push_children p n)) \<le> size n"
proof -
  have "map (\<lambda>x. Suc (size (snd x))) (push_children p n) = map (\<lambda>x. Suc (size x)) (node_children n)"
    using map_snd_enumerate [of "\<lambda>x. Suc (size x)"]
    by (simp add: push_children_def split_def comp_def)
  then show ?thesis by (simp add: sum_sizes children_smaller)
qed

function preorder_loop ::
  "(path \<times> effective_node) list \<Rightarrow> (path \<times> effective_node) list \<Rightarrow> (path \<times> effective_node) list" where
  "preorder_loop [] preorder = preorder"
| "preorder_loop ((p, node) # stack) preorder =
     preorder_loop (rev (push_children p node) @ stack) (preorder @ [(p, node)])"
  by pat_completeness auto
termination
  by (relation "measure (\<lambda>(stack, c). sum_list (map (\<lambda>x. Suc (size (snd x))) stack))")
    (auto simp: rev_map [symmetric] le_imp_less_Suc push_children_size)

text \<open>
  The loop over \<open>preorder\<close> from its end. \<open>None\<close> is a child without a result, which the code's
  non-null assertion rules out.
\<close>

fun results_loop ::
  "(effective_node \<Rightarrow> contact_set) \<Rightarrow> contact_set \<Rightarrow> (path \<times> effective_node) list \<Rightarrow>
   (path, contact_set) table \<Rightarrow> (path, contact_set) table option" where
  "results_loop resolve universe [] results = Some results"
| "results_loop resolve universe ((p, node) # nodes) results =
     (case node of
        EGroup kind l e children \<Rightarrow>
          (case those (map (\<lambda>(cp, c). tget results cp) (push_children p node)) of
             None \<Rightarrow> None
           | Some childSets \<Rightarrow>
               results_loop resolve universe nodes (tset p (combineGroup kind childSets universe) results))
      | _ \<Rightarrow> results_loop resolve universe nodes (tset p (js_set (resolve node)) results))"

definition foldEffectiveTree ::
  "effective_node \<Rightarrow> (effective_node \<Rightarrow> contact_set) \<Rightarrow> contact_set \<Rightarrow> contact_set option" where
  "foldEffectiveTree tree resolve universe =
     Option.bind (results_loop resolve universe (rev (preorder_loop [([], tree)] [])) [])
       (\<lambda>results. tget results [])"

text \<open>The reference semantics.\<close>

fun eval_node :: "(effective_node \<Rightarrow> contact_set) \<Rightarrow> contact_set \<Rightarrow> effective_node \<Rightarrow> contact_set" where
  "eval_node resolve universe (EGroup kind l e children) =
     combineGroup kind (map (eval_node resolve universe) children) universe"
| "eval_node resolve universe leaf = js_set (resolve leaf)"

section \<open>The iterative fold computes the semantics\<close>

lemma in_push_children: "(cp, c) \<in> set (push_children p n) \<Longrightarrow> c \<in> set (node_children n)"
  by (auto simp: push_children_def in_set_enumerate_eq)

lemma map_snd_push_children [simp]: "map (\<lambda>(cp, c). f c) (push_children p n) = map f (node_children n)"
  using map_snd_enumerate [of f] by (simp add: push_children_def split_def comp_def)

function preorder_of :: "path \<Rightarrow> effective_node \<Rightarrow> (path \<times> effective_node) list" where
  "preorder_of p n = (p, n) # concat (map (\<lambda>(cp, c). preorder_of cp c) (rev (push_children p n)))"
  by pat_completeness auto

lemma child_smaller: "c \<in> set (node_children n) \<Longrightarrow> size c < size n"
  by (cases n) (auto dest: size_list_estimation' [where f = size, OF _ order_refl])

termination preorder_of
  by (relation "measure (\<lambda>(p, n). size n)") (auto dest!: in_push_children child_smaller)

declare preorder_of.simps [simp del]

lemma preorder_loop_eq:
  "preorder_loop stack acc = acc @ concat (map (\<lambda>(p, n). preorder_of p n) stack)"
proof (induction stack acc rule: preorder_loop.induct)
  case (2 p node stack preorder)
  then show ?case by (simp add: preorder_of.simps [of p node])
qed simp

definition siblings :: "path list \<Rightarrow> bool" where
  "siblings ps \<longleftrightarrow> (\<exists>p is. ps = map (\<lambda>i. p @ [i]) is \<and> distinct is)"

lemma siblings_Cons:
  assumes "siblings (q # ps)"
  shows "siblings ps \<and> (\<forall>r\<in>set ps. \<not> prefix r q \<and> \<not> prefix q r)"
proof -
  from assms obtain p i "is" where "q = p @ [i]" "ps = map (\<lambda>i. p @ [i]) is" "distinct (i # is)"
    unfolding siblings_def by (auto simp: Cons_eq_map_conv)
  then show ?thesis by (auto simp: siblings_def)
qed

lemma siblings_push: "siblings (map fst (push_children p n))"
proof -
  have "map fst (push_children p n) = map (\<lambda>i. p @ [i]) [0..<0 + length (node_children n)]"
    using map_fst_enumerate_fun [of "\<lambda>i. p @ [i]" 0] by (simp add: push_children_def split_def comp_def)
  then show ?thesis unfolding siblings_def by (metis distinct_upt)
qed

definition settles ::
  "(effective_node \<Rightarrow> contact_set) \<Rightarrow> contact_set \<Rightarrow> (path \<times> effective_node) list \<Rightarrow>
   (path \<times> effective_node) list \<Rightarrow> bool" where
  "settles resolve universe nodes goals \<longleftrightarrow>
     (\<forall>results. \<exists>results'.
        (\<forall>rest. results_loop resolve universe (nodes @ rest) results =
                results_loop resolve universe rest results') \<and>
        (\<forall>p n. (p, n) \<in> set goals \<longrightarrow> tget results' p = Some (eval_node resolve universe n)) \<and>
        (\<forall>q. (\<forall>p n. (p, n) \<in> set goals \<longrightarrow> \<not> prefix p q) \<longrightarrow> tget results' q = tget results q))"

lemma settlesE:
  assumes "settles resolve universe nodes goals"
  obtains r where
      "\<And>rest. results_loop resolve universe (nodes @ rest) results = results_loop resolve universe rest r"
      "\<And>p n. (p, n) \<in> set goals \<Longrightarrow> tget r p = Some (eval_node resolve universe n)"
      "\<And>q. (\<And>p n. (p, n) \<in> set goals \<Longrightarrow> \<not> prefix p q) \<Longrightarrow> tget r q = tget results q"
proof -
  from assms [unfolded settles_def, THEN spec, of results] obtain r where
      r: "\<forall>rest. results_loop resolve universe (nodes @ rest) results = results_loop resolve universe rest r"
      "\<forall>p n. (p, n) \<in> set goals \<longrightarrow> tget r p = Some (eval_node resolve universe n)"
      "\<forall>q. (\<forall>p n. (p, n) \<in> set goals \<longrightarrow> \<not> prefix p q) \<longrightarrow> tget r q = tget results q"
    by (elim exE conjE)
  show thesis by (rule that [of r]) (use r in blast)+
qed

lemma settlesI:
  assumes "\<And>results. \<exists>r.
      (\<forall>rest. results_loop resolve universe (nodes @ rest) results = results_loop resolve universe rest r) \<and>
      (\<forall>p n. (p, n) \<in> set goals \<longrightarrow> tget r p = Some (eval_node resolve universe n)) \<and>
      (\<forall>q. (\<forall>p n. (p, n) \<in> set goals \<longrightarrow> \<not> prefix p q) \<longrightarrow> tget r q = tget results q)"
  shows "settles resolve universe nodes goals"
  unfolding settles_def using assms by (rule allI)

lemma settles_Nil: "settles resolve universe [] []"
  by (auto simp: settles_def)

lemma settles_Cons:
  assumes g: "settles resolve universe xs [(p, n)]" and gs: "settles resolve universe ys gs"
    and apart: "\<And>p' n'. (p', n') \<in> set gs \<Longrightarrow> \<not> prefix p' p"
  shows "settles resolve universe (xs @ ys) ((p, n) # gs)"
proof (rule settlesI)
  fix results
  from g obtain r1 where r1:
      "\<And>rest. results_loop resolve universe (xs @ rest) results = results_loop resolve universe rest r1"
      "tget r1 p = Some (eval_node resolve universe n)"
      "\<And>q. \<not> prefix p q \<Longrightarrow> tget r1 q = tget results q"
    by (rule settlesE [where results = results]) auto
  from gs obtain r2 where r2:
      "\<And>rest. results_loop resolve universe (ys @ rest) r1 = results_loop resolve universe rest r2"
      "\<And>p n. (p, n) \<in> set gs \<Longrightarrow> tget r2 p = Some (eval_node resolve universe n)"
      "\<And>q. (\<And>p n. (p, n) \<in> set gs \<Longrightarrow> \<not> prefix p q) \<Longrightarrow> tget r2 q = tget r1 q"
    by (rule settlesE [where results = r1]) blast
  have "tget r2 p = tget r1 p" by (rule r2(3)) (rule apart)
  with r1 r2 show "\<exists>r.
      (\<forall>rest. results_loop resolve universe ((xs @ ys) @ rest) results = results_loop resolve universe rest r) \<and>
      (\<forall>p' n'. (p', n') \<in> set ((p, n) # gs) \<longrightarrow> tget r p' = Some (eval_node resolve universe n')) \<and>
      (\<forall>q. (\<forall>p' n'. (p', n') \<in> set ((p, n) # gs) \<longrightarrow> \<not> prefix p' q) \<longrightarrow> tget r q = tget results q)"
    by (intro exI [of _ r2]) auto
qed

lemma settles_siblings:
  "siblings (map fst gs) \<Longrightarrow> (\<And>p n. (p, n) \<in> set gs \<Longrightarrow> settles resolve universe (f p n) [(p, n)]) \<Longrightarrow>
   settles resolve universe (concat (map (\<lambda>(p, n). f p n) gs)) gs"
proof (induction gs)
  case (Cons g gs)
  obtain p n where g: "g = (p, n)" by (cases g)
  from Cons.prems(1) have "siblings (map fst gs)" "\<forall>r\<in>fst ` set gs. \<not> prefix r p"
    using siblings_Cons [of p "map fst gs"] by (auto simp: g)
  then have "settles resolve universe (f p n @ concat (map (\<lambda>(p, n). f p n) gs)) ((p, n) # gs)"
    by (intro settles_Cons Cons.IH Cons.prems(2)) (auto simp: g image_iff)
  then show ?case by (simp add: g)
qed (simp add: settles_Nil)

lemma those_map: "\<forall>x\<in>set xs. f x = Some (g x) \<Longrightarrow> those (map f xs) = Some (map g xs)"
  by (induction xs) auto

lemma prefix_child: "(cp, c) \<in> set (push_children p n) \<Longrightarrow> prefix p cp"
  by (auto simp: push_children_def)

lemma settles_node: "settles resolve universe (rev (preorder_of p n)) [(p, n)]"
proof (induction p n rule: preorder_of.induct)
  case (1 p n)
  let ?cs = "push_children p n"
  have children: "settles resolve universe (concat (map (\<lambda>(cp, c). rev (preorder_of cp c)) ?cs)) ?cs"
    by (intro settles_siblings siblings_push) (use "1.IH" in auto)
  have post: "rev (preorder_of p n) = concat (map (\<lambda>(cp, c). rev (preorder_of cp c)) ?cs) @ [(p, n)]"
    by (subst preorder_of.simps) (simp add: rev_concat rev_map comp_def split_def)
  show ?case
  proof (rule settlesI)
    fix results
    from children obtain r1 where r1:
        "\<And>rest. results_loop resolve universe
           (concat (map (\<lambda>(cp, c). rev (preorder_of cp c)) ?cs) @ rest) results =
           results_loop resolve universe rest r1"
        "\<And>cp c. (cp, c) \<in> set ?cs \<Longrightarrow> tget r1 cp = Some (eval_node resolve universe c)"
        "\<And>q. (\<And>cp c. (cp, c) \<in> set ?cs \<Longrightarrow> \<not> prefix cp q) \<Longrightarrow> tget r1 q = tget results q"
      by (rule settlesE [where results = results]) blast
    have "those (map (\<lambda>(cp, c). tget r1 cp) ?cs) = Some (map (\<lambda>(cp, c). eval_node resolve universe c) ?cs)"
      using those_map [of ?cs "\<lambda>(cp, c). tget r1 cp" "\<lambda>(cp, c). eval_node resolve universe c"] r1(2)
      by (auto simp: split_def)
    then have those: "those (map (\<lambda>(cp, c). tget r1 cp) ?cs) = Some (map (eval_node resolve universe) (node_children n))"
      by simp
    have step: "results_loop resolve universe (rev (preorder_of p n) @ rest) results =
        results_loop resolve universe rest (tset p (eval_node resolve universe n) r1)" for rest
    proof -
      have "results_loop resolve universe (rev (preorder_of p n) @ rest) results =
          results_loop resolve universe ((p, n) # rest) r1"
        unfolding post append_assoc using r1(1) [of "[(p, n)] @ rest"] by simp
      then show ?thesis using those by (cases n) simp_all
    qed
    have keep: "tget r1 q = tget results q" if "\<not> prefix p q" for q
      using that by (intro r1(3)) (auto dest: prefix_child intro: prefix_order.trans)
    show "\<exists>r.
        (\<forall>rest. results_loop resolve universe (rev (preorder_of p n) @ rest) results =
                results_loop resolve universe rest r) \<and>
        (\<forall>p' n'. (p', n') \<in> set [(p, n)] \<longrightarrow> tget r p' = Some (eval_node resolve universe n')) \<and>
        (\<forall>q. (\<forall>p' n'. (p', n') \<in> set [(p, n)] \<longrightarrow> \<not> prefix p' q) \<longrightarrow> tget r q = tget results q)"
      by (intro exI [of _ "tset p (eval_node resolve universe n) r1"]) (auto simp: step keep)
  qed
qed

lemma fold_eq_eval: "foldEffectiveTree tree resolve universe = Some (eval_node resolve universe tree)"
proof -
  have "settles resolve universe (rev (preorder_of [] tree)) [([], tree)]" by (rule settles_node)
  then obtain r where
      "\<And>rest. results_loop resolve universe (rev (preorder_of [] tree) @ rest) [] =
        results_loop resolve universe rest r"
      "tget r [] = Some (eval_node resolve universe tree)"
    by (rule settlesE [where results = "[]"]) auto
  from this(1) [of "[]"] this(2) show ?thesis
    by (simp add: foldEffectiveTree_def preorder_loop_eq)
qed

section \<open>What a fold selects\<close>

lemma distinct_eval: "distinct universe \<Longrightarrow> distinct (eval_node resolve universe n)"
proof (induction n)
  case (EGroup k l e cs)
  then show ?case
    by (cases k) (auto simp: combineGroup_def intro!: distinct_intersectAll)
qed simp_all

lemma eval_within:
  "(\<And>leaf. leaf \<in> set (tree_leaves n) \<Longrightarrow> set (resolve leaf) \<subseteq> set universe) \<Longrightarrow>
   set (eval_node resolve universe n) \<subseteq> set universe"
proof (induction n)
  case (EGroup k l e cs)
  then have IH: "set (eval_node resolve universe c) \<subseteq> set universe" if "c \<in> set cs" for c
    using that by auto
  show ?case
  proof (cases k)
    case All
    then show ?thesis using IH by (cases cs) (auto simp: combineGroup_def set_intersectAll)
  next
    case Any
    then show ?thesis using IH by (auto simp: combineGroup_def)
  next
    case NoneOf
    then show ?thesis by (auto simp: combineGroup_def)
  qed
qed auto

lemma eval_all:
  "cs \<noteq> [] \<Longrightarrow> set (eval_node resolve universe (EGroup All l e cs)) =
     (\<Inter>c\<in>set cs. set (eval_node resolve universe c))"
  by (simp add: combineGroup_def set_intersectAll)

lemma eval_all_child:
  "c \<in> set cs \<Longrightarrow> set (eval_node resolve universe (EGroup All l e cs)) \<subseteq> set (eval_node resolve universe c)"
  by (subst eval_all) auto

lemma eval_compliance_layer:
  "set (eval_node resolve universe (buildComplianceLayer ch)) =
     (\<Inter>c\<in>set (complianceFloorConditions ch). set (resolve (ECondition Compliance False c)))"
  by (simp add: buildComplianceLayer_def complianceFloorConditions_def combineGroup_def set_intersectAll)

lemma blast_within_floor:
  assumes "c \<in> set (complianceFloorConditions (case opt_channel opts of None \<Rightarrow> SMS | Some ch \<Rightarrow> ch))"
  shows "set (eval_node resolve universe (composed_tree (composeEffectiveTree t p Blast opts)))
    \<subseteq> set (resolve (ECondition Compliance False c))"
proof -
  let ?ch = "case opt_channel opts of None \<Rightarrow> SMS | Some ch \<Rightarrow> ch"
  obtain cs where tree: "composed_tree (composeEffectiveTree t p Blast opts) = EGroup All Composition False cs"
    and "buildComplianceLayer ?ch \<in> set cs"
    using compose_blast_floor [of t p opts] by (auto simp: compose_tree)
  then have "set (eval_node resolve universe (EGroup All Composition False cs))
      \<subseteq> set (eval_node resolve universe (buildComplianceLayer ?ch))"
    by (intro eval_all_child)
  also have "\<dots> \<subseteq> set (resolve (ECondition Compliance False c))"
    using assms by (auto simp: eval_compliance_layer)
  finally show ?thesis by (simp add: tree)
qed

text \<open>
  The contract between the composition and whoever resolves the leaves: contacts in all three
  floor leaves may be sent to. It is all a blast needs, whatever the other leaves return.
\<close>

locale sending_floor =
  fixes resolve :: "effective_node \<Rightarrow> contact_set"
    and sendable :: "ComplianceChannel \<Rightarrow> string \<Rightarrow> bool"
  assumes floor: "x \<in> set (resolve (ECondition Compliance False (ChannelConsentCondition ch))) \<Longrightarrow>
      x \<in> set (resolve (ECondition Compliance False (NotSuppressedCondition ch))) \<Longrightarrow>
      x \<in> set (resolve (ECondition Compliance False (ReachableCondition ch))) \<Longrightarrow> sendable ch x"
begin

lemma compliance_layer_sendable:
  "x \<in> set (eval_node resolve universe (buildComplianceLayer ch)) \<Longrightarrow> sendable ch x"
  using floor [of x ch] by (simp add: eval_compliance_layer complianceFloorConditions_def)

lemma blast_sendable:
  assumes "x \<in> set (eval_node resolve universe (composed_tree (composeEffectiveTree t p Blast opts)))"
  shows "sendable (case opt_channel opts of None \<Rightarrow> SMS | Some ch \<Rightarrow> ch) x"
  using assms blast_within_floor [of _ opts resolve universe t p]
  by (intro floor) (auto simp: complianceFloorConditions_def)

end

section \<open>Failing leaves\<close>

text \<open>
  Where a tree has no \<open>none\<close> group, a leaf that resolves to fewer contacts selects fewer; under
  a \<open>none\<close> group it selects more.
\<close>

fun none_free :: "effective_node \<Rightarrow> bool" where
  "none_free (EGroup k l e cs) \<longleftrightarrow> k \<noteq> NoneOf \<and> list_all none_free cs"
| "none_free node \<longleftrightarrow> True"

lemma eval_mono:
  assumes "none_free n" "\<And>leaf. set (resolve leaf) \<subseteq> set (resolve' leaf)"
  shows "set (eval_node resolve universe n) \<subseteq> set (eval_node resolve' universe n)"
  using assms(1)
proof (induction n)
  case (EGroup k l e cs)
  then have IH: "set (eval_node resolve universe c) \<subseteq> set (eval_node resolve' universe c)" if "c \<in> set cs" for c
    using that by (auto simp: list_all_iff)
  show ?case
  proof (cases k)
    case All
    then show ?thesis using IH by (auto simp: combineGroup_def set_intersectAll)
  next
    case Any
    then show ?thesis using IH by (auto simp: combineGroup_def)
  next
    case NoneOf
    then show ?thesis using EGroup.prems by simp
  qed
qed (use assms(2) in auto)

lemma eval_none_unresolved:
  "resolve leaf = [] \<Longrightarrow> \<not> isEffectiveGroup leaf \<Longrightarrow>
   eval_node resolve universe (EGroup NoneOf l e [leaf]) = universe"
  by (cases leaf) (auto simp: combineGroup_def unionAll_def difference_def)

lemma eval_node_cong:
  "(\<And>leaf. leaf \<in> set (tree_leaves n) \<Longrightarrow> resolve leaf = resolve' leaf) \<Longrightarrow>
   eval_node resolve universe n = eval_node resolve' universe n"
proof (induction n)
  case (EGroup k l e cs)
  then have "map (eval_node resolve universe) cs = map (eval_node resolve' universe) cs"
    by (intro map_cong) auto
  then show ?case by (simp only: eval_node.simps)
qed simp_all

section \<open>The draw order\<close>

definition hashContact :: "(string \<Rightarrow> string) \<Rightarrow> string \<Rightarrow> string \<Rightarrow> string" where
  "hashContact sha256 contactId seed = sha256 (seed @ '' '' @ contactId)"

definition orderByHash :: "(string \<Rightarrow> string) \<Rightarrow> contact_set \<Rightarrow> string \<Rightarrow> string list" where
  "orderByHash sha256 contactIds seed =
     map snd (sort_key (\<lambda>e. e) (map (\<lambda>i. (hashContact sha256 i seed, i)) contactIds))"

lemma set_orderByHash [simp]: "set (orderByHash sha256 ids seed) = set ids"
  by (simp add: orderByHash_def image_image)

lemma length_orderByHash [simp]: "length (orderByHash sha256 ids seed) = length ids"
  by (simp add: orderByHash_def)

lemma distinct_orderByHash: "distinct ids \<Longrightarrow> distinct (orderByHash sha256 ids seed)"
  unfolding orderByHash_def by (subst distinct_map) (auto simp: distinct_map inj_on_def)

text \<open>The order is the ids sorted by hash and id, whatever order they arrive in.\<close>

definition draw_key :: "(string \<Rightarrow> string) \<Rightarrow> string \<Rightarrow> string \<Rightarrow> string \<times> string" where
  "draw_key sha256 seed i = (hashContact sha256 i seed, i)"

lemma orderByHash_sorted: "sorted (map (draw_key sha256 seed) (orderByHash sha256 ids seed))"
proof -
  let ?es = "sort_key (\<lambda>e. e) (map (draw_key sha256 seed) ids)"
  have "map (draw_key sha256 seed) (map snd ?es) = ?es" unfolding map_map by (intro map_idI) (auto simp: draw_key_def)
  then show ?thesis by (simp add: orderByHash_def draw_key_def [abs_def])
qed

lemma inj_draw_key: "inj_on (draw_key sha256 seed) A"
  by (auto simp: inj_on_def draw_key_def)

lemma sorted_draw_unique:
  assumes "sorted (map (draw_key sha256 seed) xs)" "sorted (map (draw_key sha256 seed) ys)"
    "distinct xs" "distinct ys" "set xs = set ys"
  shows "xs = ys"
proof -
  have "map (draw_key sha256 seed) xs = map (draw_key sha256 seed) ys"
    using assms by (intro sorted_distinct_set_unique) (auto simp: distinct_map inj_draw_key)
  then show ?thesis using inj_draw_key by (rule map_injective)
qed

lemma orderByHash_restrict:
  assumes "distinct ids"
  shows "filter (\<lambda>i. i \<in> A) (orderByHash sha256 ids seed) =
    orderByHash sha256 (filter (\<lambda>i. i \<in> A) ids) seed"
proof (rule sorted_draw_unique [of sha256 seed])
  show "sorted (map (draw_key sha256 seed) (filter (\<lambda>i. i \<in> A) (orderByHash sha256 ids seed)))"
    by (rule sorted_filter) (rule orderByHash_sorted)
qed (auto simp: assms distinct_orderByHash orderByHash_sorted)

section \<open>Properties of the evaluation\<close>

text \<open>C8: The iterative fold of an effective tree, a walk with a stack and a table of results by path,
  always ends with a set, which is the recursive set semantics of the tree.\<close>

theorem fold_total_exact: "foldEffectiveTree tree resolve universe = Some (eval_node resolve universe tree)"
  by (rule fold_eq_eval)

text \<open>In a tree without a \<open>none\<close> group, a leaf that fails to resolve (and contributes the empty set)
  can only shrink the audience.\<close>

lemma unresolved_leaf_restricts:
  assumes "none_free tree"
  shows "\<exists>s s'. foldEffectiveTree tree (resolve(leaf := [])) universe = Some s \<and>
    foldEffectiveTree tree resolve universe = Some s' \<and> set s \<subseteq> set s'"
  using eval_mono [OF assms, of "resolve(leaf := [])" resolve universe] by (simp add: fold_eq_eval)

theorem unresolved_leaf_restricts_witness:
  "\<exists>s s'. foldEffectiveTree (EFatigue Policy False 24 3) (\<lambda>leaf. []) [''a''] = Some s \<and>
     foldEffectiveTree (EFatigue Policy False 24 3) (\<lambda>leaf. [''a'']) [''a''] = Some s' \<and> set s \<subseteq> set s'"
  using unresolved_leaf_restricts [of "EFatigue Policy False 24 3" "\<lambda>leaf. [''a'']" "EFatigue Policy False 24 3" "[''a'']"]
  by (simp add: fold_eq_eval)

text \<open>Under a \<open>none\<close> group an unresolved leaf widens the audience to the whole universe, although the
  comments of the fold and of the leaf resolver say that an unresolved leaf can only restrict it.\<close>

lemma unresolved_leaf_widens_none:
  assumes "resolve leaf = []" "\<not> isEffectiveGroup leaf"
  shows "foldEffectiveTree (EGroup NoneOf l e [leaf]) resolve universe = Some universe"
  using assms eval_none_unresolved [of resolve leaf universe l e] by (simp add: fold_eq_eval)

lemma unresolved_leaf_widens_none_witness:
  "foldEffectiveTree (EGroup NoneOf Intent True [EFatigue Intent True 24 3]) (\<lambda>leaf. []) [''a'', ''b''] = Some [''a'', ''b'']"
  by (rule unresolved_leaf_widens_none) simp_all

lemma draw_deterministic_facts:
  assumes "distinct ids" "distinct ids'" "set ids = set ids'"
  shows "orderByHash sha256 ids seed = orderByHash sha256 ids' seed"
    and "filter (\<lambda>i. i \<in> A) (orderByHash sha256 ids seed) = orderByHash sha256 (filter (\<lambda>i. i \<in> A) ids) seed"
  using assms orderByHash_sorted [of sha256 seed] distinct_orderByHash [of _ sha256 seed]
  by (auto intro!: sorted_draw_unique orderByHash_restrict)

text \<open>A seeded draw depends only on the set of contacts, not on the order they come in, and the draw
  of a subset is the draw of the whole set restricted to it: contacts do not change places when others leave.\<close>

lemma draw_deterministic:
  assumes "distinct ids" "distinct ids'" "set ids = set ids'"
  shows "orderByHash sha256 ids seed = orderByHash sha256 ids' seed \<and>
    filter (\<lambda>i. i \<in> A) (orderByHash sha256 ids seed) = orderByHash sha256 (filter (\<lambda>i. i \<in> A) ids) seed"
  using draw_deterministic_facts [OF assms] by simp

theorem draw_deterministic_witness:
  "orderByHash (\<lambda>s. s) [''b'', ''a''] ''seed'' = orderByHash (\<lambda>s. s) [''a'', ''b''] ''seed''"
  using draw_deterministic [of "[''b'', ''a'']" "[''a'', ''b'']"] by auto

end
