(* ===== verification/Audience_Db.thy ===== *)
theory Audience_Db
  imports Seg_Fold
begin

text \<open>
  The rows the audience services read, \<^verbatim>\<open>packages/db/prisma/schema.prisma\<close>: one record per model
  with the columns the queries mention, and the database snapshot \<open>AudienceDb\<close>. A table is the
  list of its rows; \<open>None\<close> is SQL \<open>NULL\<close>; an enum column holds the member's name; a relation a
  query filters through (\<open>blast.tenantId\<close>, \<open>question.surveyId\<close>, the poll of a question) is a
  column of the row. Times are milliseconds.
\<close>

record ContactRow =
  ct_id :: string
  ct_tenantId :: string
  ct_phoneE164 :: "string option"
  ct_email :: "string option"
  ct_firstName :: "string option"
  ct_lastName :: "string option"
  ct_createdAt :: rat
  ct_consentAt :: "rat option"
  ct_turfId :: "string option"
  ct_gnafPid :: "string option"

record GnafAddressRow =
  ga_gnafPid :: string
  ga_columns :: "(string \<times> string) list"

record AddressRegionRow =
  ar_gnafPid :: string
  ar_columns :: "(string \<times> string) list"

record DispositionRow =
  di_tenantId :: string
  di_contactId :: string
  di_supportLevel :: "string option"
  di_code :: string

record TagAssignmentRow =
  ta_tenantId :: string
  ta_contactId :: string
  ta_tagId :: string

record ConsentRow =
  cc_tenantId :: string
  cc_contactId :: "string option"
  cc_phoneE164 :: string
  cc_channel :: string
  cc_state :: string

record SourceRecordRow =
  sr_tenantId :: string
  sr_contactId :: string
  sr_sourceSystem :: string

record DoorKnockRow =
  dk_tenantId :: string
  dk_contactId :: string
  dk_createdAt :: rat

record QuestionResponseRow =
  qr_tenantId :: string
  qr_contactId :: string
  qr_questionId :: string
  qr_surveyId :: string
  qr_optionValue :: "string option"
  qr_valueText :: "string option"
  qr_createdAt :: rat

record EventRsvpRow =
  rv_tenantId :: string
  rv_contactId :: "string option"
  rv_eventId :: string
  rv_status :: string
  rv_createdAt :: rat

record InboundMessageRow =
  im_tenantId :: string
  im_contactId :: "string option"
  im_blastId :: "string option"
  im_receivedAt :: rat

record BlastRecipientRow =
  br_tenantId :: string
  br_blastId :: string
  br_contactId :: "string option"
  br_status :: string
  br_sentAt :: "rat option"

record JourneyEnrolmentRow =
  je_tenantId :: string
  je_contactId :: string
  je_journeyId :: string
  je_state :: string

record EmailRow =
  em_tenantId :: string
  em_contactId :: "string option"
  em_openedAt :: "rat option"
  em_clickedAt :: "rat option"

record SuppressionRow =
  su_tenantId :: string
  su_phoneE164 :: "string option"
  su_email :: "string option"

record PollQuestionRow =
  pq_id :: string
  pq_pollId :: string
  pq_code :: string
  pq_pollTenantId :: "string option"
  pq_pollIsPublic :: bool

record PollEstimateRow =
  pe_questionId :: string
  pe_responseLabel :: string
  pe_geoKind :: string
  pe_geoCode :: "string option"
  pe_percent :: "rat option"

record AudienceDb =
  db_contact :: "ContactRow list"
  db_gnafAddress :: "GnafAddressRow list"
  db_addressRegion :: "AddressRegionRow list"
  db_disposition :: "DispositionRow list"
  db_contactTagAssignment :: "TagAssignmentRow list"
  db_contactConsent :: "ConsentRow list"
  db_contactSourceRecord :: "SourceRecordRow list"
  db_doorKnock :: "DoorKnockRow list"
  db_questionResponse :: "QuestionResponseRow list"
  db_eventRsvp :: "EventRsvpRow list"
  db_inboundMessage :: "InboundMessageRow list"
  db_blastRecipient :: "BlastRecipientRow list"
  db_journeyEnrolment :: "JourneyEnrolmentRow list"
  db_email :: "EmailRow list"
  db_suppression :: "SuppressionRow list"
  db_pollQuestion :: "PollQuestionRow list"
  db_pollEstimate :: "PollEstimateRow list"

section \<open>Enum rosters\<close>

definition SupportLevel :: "string list" where
  "SupportLevel =
     [''STRONG_SUPPORT'', ''LEAN_SUPPORT'', ''UNDECIDED'', ''LEAN_OPPOSE'', ''STRONG_OPPOSE'']"

definition ConsentState :: "string list" where
  "ConsentState = [''UNKNOWN'', ''OPTED_IN'', ''OPTED_OUT'']"

definition RsvpStatus :: "string list" where
  "RsvpStatus = [''GOING'', ''WAITLIST'', ''CANCELLED'', ''ATTENDED'']"

definition JourneyEnrolmentState :: "string list" where
  "JourneyEnrolmentState = [''ACTIVE'', ''WAITING'', ''COMPLETED'', ''EXITED'', ''FAILED'']"

definition MessageChannel :: "string list" where
  "MessageChannel = [''SMS'', ''WHATSAPP'', ''VOICE'']"

section \<open>Column filters\<close>

text \<open>A \<open>DateTime\<close> filter \<open>{ gte, lt, lte }\<close>, each bound optional.\<close>

record DateRange =
  gte :: "rat option"
  lt :: "rat option"
  lte :: "rat option"

definition in_range :: "DateRange \<Rightarrow> rat \<Rightarrow> bool" where
  "in_range r t \<longleftrightarrow>
     (case gte r of None \<Rightarrow> True | Some a \<Rightarrow> a \<le> t) \<and>
     (case lt r of None \<Rightarrow> True | Some b \<Rightarrow> t < b) \<and>
     (case lte r of None \<Rightarrow> True | Some b \<Rightarrow> t \<le> b)"

definition opt_in_range :: "DateRange \<Rightarrow> rat option \<Rightarrow> bool" where
  "opt_in_range r t = (case t of None \<Rightarrow> False | Some x \<Rightarrow> in_range r x)"

text \<open>A join of the contacts with an address table: the ids whose address column is accepted.\<close>

definition contacts_at ::
  "AudienceDb \<Rightarrow> string \<Rightarrow> (string \<Rightarrow> (string \<times> string) list list) \<Rightarrow> string \<Rightarrow> (string \<Rightarrow> bool) \<Rightarrow> contact_set"
where
  "contacts_at db tenantId addresses column P =
     js_set (map ct_id (filter
       (\<lambda>c. ct_tenantId c = tenantId \<and>
            (case ct_gnafPid c of
               None \<Rightarrow> False
             | Some pid \<Rightarrow>
                 list_ex (\<lambda>cols. case map_of cols column of None \<Rightarrow> False | Some v \<Rightarrow> P v)
                   (addresses pid)))
       (db_contact db)))"

definition gnaf_columns :: "AudienceDb \<Rightarrow> string \<Rightarrow> (string \<times> string) list list" where
  "gnaf_columns db pid = map ga_columns (filter (\<lambda>g. ga_gnafPid g = pid) (db_gnafAddress db))"

definition region_columns :: "AudienceDb \<Rightarrow> string \<Rightarrow> (string \<times> string) list list" where
  "region_columns db pid = map ar_columns (filter (\<lambda>g. ar_gnafPid g = pid) (db_addressRegion db))"

text \<open>\<open>new Set(rows.map((r) => r.contactId).filter(...))\<close>: the non-null ids.\<close>

definition ids_of :: "('r \<Rightarrow> string option) \<Rightarrow> 'r list \<Rightarrow> contact_set" where
  "ids_of f rows =
     js_set (map the (filter (\<lambda>v. v \<noteq> None \<and> v \<noteq> Some []) (map f rows)))"

definition contact_ids :: "AudienceDb \<Rightarrow> string \<Rightarrow> (ContactRow \<Rightarrow> bool) \<Rightarrow> contact_set" where
  "contact_ids db tenantId P =
     js_set (map ct_id (filter (\<lambda>c. ct_tenantId c = tenantId \<and> P c) (db_contact db)))"

lemma in_contact_ids:
  "x \<in> set (contact_ids db tenantId P) \<longleftrightarrow>
     (\<exists>c\<in>set (db_contact db). ct_id c = x \<and> ct_tenantId c = tenantId \<and> P c)"
  by (auto simp: contact_ids_def)

lemma in_ids_of: "x \<in> set (ids_of f rows) \<longleftrightarrow> x \<noteq> [] \<and> (\<exists>r\<in>set rows. f r = Some x)"
  by (force simp: ids_of_def image_iff)

lemma distinct_ids [simp]:
  "distinct (contact_ids db tenantId P)" "distinct (ids_of f rows)"
  "distinct (contacts_at db tenantId addresses column Q)"
  by (simp_all add: contact_ids_def ids_of_def contacts_at_def)

end
