(* ===== verification/Segment_Leaves.thy ===== *)
theory Segment_Leaves
  imports Custom_Query
begin

text \<open>
  \<^verbatim>\<open>apps/api/src/audiences/segment-leaf-resolver.service.ts\<close>: every leaf of an effective tree
  resolved to the contacts it matches, against one database snapshot. A leaf that throws is
  \<open>None\<close> and resolves to the empty set. \<open>LeafEnv\<close> holds what the code takes from outside: the
  clock, \<open>new Date(s)\<close> (\<open>None\<close> is the invalid date, which the query layer refuses), the SQL
  parser and the executor of custom clauses. Also \<open>resolvePollThresholdToGeoCodes\<close> of
  \<^verbatim>\<open>apps/api/src/insights/insights.service.ts\<close> and the column allowlist \<^verbatim>\<open>geo-columns.ts\<close>.
\<close>

record LeafEnv =
  env_now :: rat
  env_date :: "string \<Rightarrow> rat option"
  env_parse :: "string \<Rightarrow> Statement list option"
  env_execSql :: "string \<Rightarrow> string \<Rightarrow> string list option"

definition GNAF_COLUMN :: "string \<Rightarrow> string option" where
  "GNAF_COLUMN type =
     map_of [(''contact.state'', ''state''), (''contact.postcode'', ''postcode''),
             (''contact.locality'', ''locality'')] type"

definition RECEIVED_STATUSES :: "string list" where
  "RECEIVED_STATUSES = [''SENT'', ''DELIVERED'', ''READ'', ''RESPONDED'']"

definition GEO_REGION_COLUMN :: "string \<Rightarrow> string option" where
  "GEO_REGION_COLUMN kind =
     map_of
       [(''ced'', ''ced_code''), (''sed'', ''sed_code''), (''sed_lower'', ''sed_lower_code''),
        (''sed_upper'', ''sed_upper_code''), (''lga'', ''lga_code''), (''ward'', ''ward_code''),
        (''sa1'', ''sa1_code''), (''sa2'', ''sa2_code''), (''sa3'', ''sa3_code''),
        (''sa4'', ''sa4_code'')] kind"

definition enumSubset :: "string list option \<Rightarrow> string list \<Rightarrow> string list" where
  "enumSubset values all = filter (\<lambda>v. v \<in> set all) (case values of None \<Rightarrow> [] | Some vs \<Rightarrow> vs)"

definition tenant_universe :: "AudienceDb \<Rightarrow> string \<Rightarrow> contact_set" where
  "tenant_universe db tenantId = contact_ids db tenantId (\<lambda>c. True)"

section \<open>Shared helpers\<close>

definition no_range :: DateRange where
  "no_range = \<lparr>gte = None, lt = None, lte = None\<rparr>"

fun dateRange :: "LeafEnv \<Rightarrow> date_operand \<Rightarrow> DateRange option" where
  "dateRange env (Within days) = Some (no_range\<lparr>gte := Some (env_now env - days * 86400000)\<rparr>)"
| "dateRange env (Before d) = map_option (\<lambda>t. no_range\<lparr>lt := Some t\<rparr>) (env_date env d)"
| "dateRange env (After d) = map_option (\<lambda>t. no_range\<lparr>gte := Some t\<rparr>) (env_date env d)"
| "dateRange env (Between a b) =
     Option.bind (env_date env a) (\<lambda>x.
       map_option (\<lambda>y. no_range\<lparr>gte := Some x, lte := Some y\<rparr>) (env_date env b))"

definition wantsPresent :: "bool_op \<Rightarrow> bool \<Rightarrow> bool" where
  "wantsPresent op v = (if op = IsNot then \<not> v else v)"

definition byPresence :: "AudienceDb \<Rightarrow> string \<Rightarrow> (ContactRow \<Rightarrow> bool) \<Rightarrow> bool \<Rightarrow> contact_set" where
  "byPresence db tenantId has present = contact_ids db tenantId (\<lambda>c. if present then has c else \<not> has c)"

definition byGnafColumn :: "AudienceDb \<Rightarrow> string \<Rightarrow> string \<Rightarrow> string list \<Rightarrow> contact_set" where
  "byGnafColumn db tenantId type values =
     (case GNAF_COLUMN type of
        None \<Rightarrow> []
      | Some column \<Rightarrow>
          if values = [] then []
          else contacts_at db tenantId (gnaf_columns db) column
                 (\<lambda>v. js_upper v \<in> set (map js_upper values)))"

definition byConsent :: "AudienceDb \<Rightarrow> string \<Rightarrow> string \<Rightarrow> string list \<Rightarrow> contact_set" where
  "byConsent db tenantId channel states =
     ids_of cc_contactId
       (filter (\<lambda>r. cc_tenantId r = tenantId \<and> cc_channel r = channel \<and> cc_state r \<in> set states)
         (db_contactConsent db))"

definition byAnyActivity :: "AudienceDb \<Rightarrow> string \<Rightarrow> DateRange \<Rightarrow> contact_set" where
  "byAnyActivity db tenantId rng =
     js_set
       (map dk_contactId (filter (\<lambda>r. dk_tenantId r = tenantId \<and> in_range rng (dk_createdAt r)) (db_doorKnock db)) @
        map qr_contactId (filter (\<lambda>r. qr_tenantId r = tenantId \<and> in_range rng (qr_createdAt r)) (db_questionResponse db)) @
        ids_of rv_contactId (filter (\<lambda>r. rv_tenantId r = tenantId \<and> in_range rng (rv_createdAt r)) (db_eventRsvp db)) @
        ids_of im_contactId (filter (\<lambda>r. im_tenantId r = tenantId \<and> in_range rng (im_receivedAt r)) (db_inboundMessage db)))"

definition complement_if :: "bool \<Rightarrow> contact_set \<Rightarrow> contact_set \<Rightarrow> contact_set" where
  "complement_if negated universe matched = (if negated then difference universe matched else matched)"

text \<open>\<open>...(x ? { col: x } : {})\<close>: the filter a truthy optional operand adds.\<close>

definition opt_eq :: "string option \<Rightarrow> string option \<Rightarrow> bool" where
  "opt_eq wanted actual =
     (case wanted of None \<Rightarrow> True | Some w \<Rightarrow> if w = [] then True else actual = Some w)"

definition since_days :: "LeafEnv \<Rightarrow> rat option \<Rightarrow> rat option \<Rightarrow> bool" where
  "since_days env withinDays stamp =
     (case withinDays of
        None \<Rightarrow> True
      | Some d \<Rightarrow>
          if d = 0 then True
          else (case stamp of None \<Rightarrow> False | Some t \<Rightarrow> env_now env - d * 86400000 \<le> t))"

definition byEventRsvp ::
  "AudienceDb \<Rightarrow> string \<Rightarrow> bool_op \<Rightarrow> string option \<Rightarrow> string list option \<Rightarrow> contact_set \<Rightarrow> contact_set" where
  "byEventRsvp db tenantId op eventId statuses universe =
     (let statuses = enumSubset statuses RsvpStatus;
          wanted = (if statuses \<noteq> [] then statuses else [''GOING'', ''ATTENDED'']);
          matched = ids_of rv_contactId
            (filter (\<lambda>r. rv_tenantId r = tenantId \<and> opt_eq eventId (Some (rv_eventId r)) \<and>
               rv_status r \<in> set wanted) (db_eventRsvp db)) in
      complement_if (op = IsNot) universe matched)"

definition byBlastReceived ::
  "LeafEnv \<Rightarrow> AudienceDb \<Rightarrow> string \<Rightarrow> bool_op \<Rightarrow> string option \<Rightarrow> rat option \<Rightarrow> contact_set \<Rightarrow> contact_set" where
  "byBlastReceived env db tenantId op blastId withinDays universe =
     (let matched = ids_of br_contactId
            (filter (\<lambda>r. br_tenantId r = tenantId \<and> opt_eq blastId (Some (br_blastId r)) \<and>
               br_status r \<in> set RECEIVED_STATUSES \<and> since_days env withinDays (br_sentAt r))
              (db_blastRecipient db)) in
      complement_if (op = IsNot) universe matched)"

definition byBlastReplied ::
  "LeafEnv \<Rightarrow> AudienceDb \<Rightarrow> string \<Rightarrow> bool_op \<Rightarrow> string option \<Rightarrow> rat option \<Rightarrow> contact_set \<Rightarrow> contact_set" where
  "byBlastReplied env db tenantId op blastId withinDays universe =
     (let matched = ids_of im_contactId
            (filter (\<lambda>r. im_tenantId r = tenantId \<and> opt_eq blastId (im_blastId r) \<and>
               since_days env withinDays (Some (im_receivedAt r))) (db_inboundMessage db)) in
      complement_if (op = IsNot) universe matched)"

definition byJourneyEnrolled ::
  "AudienceDb \<Rightarrow> string \<Rightarrow> bool_op \<Rightarrow> string option \<Rightarrow> string list option \<Rightarrow> contact_set \<Rightarrow> contact_set" where
  "byJourneyEnrolled db tenantId op journeyId states universe =
     (let states = enumSubset states JourneyEnrolmentState;
          wanted = (if states \<noteq> [] then states else [''ACTIVE'']);
          matched = js_set (map je_contactId
            (filter (\<lambda>r. je_tenantId r = tenantId \<and> opt_eq journeyId (Some (je_journeyId r)) \<and>
               je_state r \<in> set wanted) (db_journeyEnrolment db))) in
      complement_if (op = IsNot) universe matched)"

definition byGeoArea ::
  "AudienceDb \<Rightarrow> string \<Rightarrow> GeoAreaType \<Rightarrow> in_op \<Rightarrow> string list \<Rightarrow> contact_set \<Rightarrow> contact_set" where
  "byGeoArea db tenantId areaType op values universe =
     (case GEO_REGION_COLUMN (geo_area_id areaType) of
        None \<Rightarrow> []
      | Some column \<Rightarrow>
          if values = [] then []
          else complement_if (op = NotIn) universe
                 (contacts_at db tenantId (region_columns db) column (\<lambda>v. v \<in> set values)))"

section \<open>The poll threshold\<close>

fun poll_cmp :: "string \<Rightarrow> rat \<Rightarrow> rat \<Rightarrow> bool" where
  "poll_cmp op a b =
     (if op = ''>'' then a > b else if op = ''>='' then a \<ge> b else if op = ''<'' then a < b
      else if op = ''<='' then a \<le> b else a = b)"

definition poll_visible :: "string \<Rightarrow> PollQuestionRow \<Rightarrow> bool" where
  "poll_visible tenantId q \<longleftrightarrow>
     pq_pollTenantId q = Some tenantId \<or> pq_pollTenantId q = None \<or> pq_pollIsPublic q"

definition resolvePollThresholdToGeoCodes ::
  "AudienceDb \<Rightarrow> string \<Rightarrow> string \<Rightarrow> string \<Rightarrow> string \<Rightarrow> string \<Rightarrow> rat \<Rightarrow> string \<Rightarrow> string list" where
  "resolvePollThresholdToGeoCodes db tenantId pollId questionCode response op value geoKind =
     (case find (\<lambda>q. pq_pollId q = pollId \<and> pq_code q = questionCode \<and> poll_visible tenantId q)
             (db_pollQuestion db) of
        None \<Rightarrow> []
      | Some question \<Rightarrow>
          map (\<lambda>r. the (pe_geoCode r))
            (filter (\<lambda>r. pe_questionId r = pq_id question \<and> pe_responseLabel r = response \<and>
               pe_geoKind r = geoKind \<and>
               (case pe_percent r of None \<Rightarrow> False | Some pct \<Rightarrow> poll_cmp op pct value) \<and>
               (case pe_geoCode r of None \<Rightarrow> False | Some g \<Rightarrow> g \<noteq> [])) (db_pollEstimate db)))"

definition byPollThreshold ::
  "AudienceDb \<Rightarrow> string \<Rightarrow> string \<Rightarrow> string \<Rightarrow> string \<Rightarrow> string \<Rightarrow> rat \<Rightarrow> string \<Rightarrow> contact_set" where
  "byPollThreshold db tenantId pollId questionCode response op value geoKind =
     (case GEO_REGION_COLUMN geoKind of
        None \<Rightarrow> []
      | Some column \<Rightarrow>
          let codes = resolvePollThresholdToGeoCodes db tenantId pollId questionCode response op value geoKind in
          if codes = [] then []
          else contacts_at db tenantId (region_columns db) column (\<lambda>v. v \<in> set codes))"

section \<open>Custom clauses, suppression, fatigue\<close>

datatype clause_reason = ClauseNotFound | ClauseRejected resolve_reason

type_synonym ClauseError = "string \<times> clause_reason list"

definition byCustomClause ::
  "LeafEnv \<Rightarrow> string \<Rightarrow> string \<Rightarrow> SegmentCustomClause list option \<Rightarrow> contact_set \<times> ClauseError list" where
  "byCustomClause env tenantId clauseRef customClauses =
     (case Option.bind customClauses (find (\<lambda>c. clause_id c = clauseRef)) of
        None \<Rightarrow> ([], [(clauseRef, [ClauseNotFound])])
      | Some clause \<Rightarrow>
          let result = resolveContacts (env_parse env) (env_execSql env) tenantId (clause_predicate clause) in
          if \<not> cq_ok result then ([], [(clauseRef, map ClauseRejected (cq_reasons result))])
          else (js_set (cq_contactIds result), []))"

definition suppresses :: "ContactRow \<Rightarrow> SuppressionRow \<Rightarrow> bool" where
  "suppresses c s \<longleftrightarrow>
     (su_phoneE164 s \<noteq> None \<and> su_phoneE164 s = ct_phoneE164 c) \<or>
     (case su_email s of
        None \<Rightarrow> False
      | Some e \<Rightarrow> (case ct_email c of None \<Rightarrow> False | Some e' \<Rightarrow> js_lower e = js_lower e'))"

definition notSuppressedContacts :: "AudienceDb \<Rightarrow> string \<Rightarrow> contact_set" where
  "notSuppressedContacts db tenantId =
     contact_ids db tenantId
       (\<lambda>c. \<not> list_ex (\<lambda>s. su_tenantId s = tenantId \<and> suppresses c s) (db_suppression db))"

definition sends_in_window :: "AudienceDb \<Rightarrow> string \<Rightarrow> rat \<Rightarrow> string \<Rightarrow> nat" where
  "sends_in_window db tenantId windowStart contactId =
     length (filter (\<lambda>r. br_tenantId r = tenantId \<and> br_contactId r = Some contactId \<and>
       (case br_sentAt r of None \<Rightarrow> False | Some t \<Rightarrow> windowStart \<le> t)) (db_blastRecipient db))"

definition passesFatigue ::
  "LeafEnv \<Rightarrow> AudienceDb \<Rightarrow> string \<Rightarrow> int \<Rightarrow> int \<Rightarrow> contact_set \<Rightarrow> contact_set" where
  "passesFatigue env db tenantId window cap universe =
     (let windowStart = env_now env - of_int window * 3600000;
          overCap = filter (\<lambda>i. cap \<le> int (sends_in_window db tenantId windowStart i))
            (ids_of br_contactId
              (filter (\<lambda>r. br_tenantId r = tenantId \<and>
                 (case br_sentAt r of None \<Rightarrow> False | Some t \<Rightarrow> windowStart \<le> t)) (db_blastRecipient db))) in
      difference universe overCap)"

section \<open>One leaf\<close>

fun enum_leaf ::
  "AudienceDb \<Rightarrow> string \<Rightarrow> contact_set \<Rightarrow> enum_type \<Rightarrow> in_op \<Rightarrow> string list \<Rightarrow> contact_set" where
  "enum_leaf db tenantId universe ContactState op values =
     complement_if (op = NotIn) universe (byGnafColumn db tenantId ''contact.state'' values)"
| "enum_leaf db tenantId universe ContactLocality op values =
     complement_if (op = NotIn) universe (byGnafColumn db tenantId ''contact.locality'' values)"
| "enum_leaf db tenantId universe ContactTurf op values =
     complement_if (op = NotIn) universe
       (contact_ids db tenantId (\<lambda>c. case ct_turfId c of None \<Rightarrow> False | Some t \<Rightarrow> t \<in> set values))"
| "enum_leaf db tenantId universe ContactSupportLevel op values =
     (let levels = enumSubset (Some values) SupportLevel in
      if levels = [] then []
      else complement_if (op = NotIn) universe
        (js_set (map di_contactId (filter (\<lambda>r. di_tenantId r = tenantId \<and>
           (case di_supportLevel r of None \<Rightarrow> False | Some l \<Rightarrow> l \<in> set levels)) (db_disposition db)))))"
| "enum_leaf db tenantId universe TagTagged op values =
     complement_if (op = NotIn) universe
       (js_set (map ta_contactId (filter (\<lambda>r. ta_tenantId r = tenantId \<and> ta_tagId r \<in> set values)
         (db_contactTagAssignment db))))"
| "enum_leaf db tenantId universe ConsentSms op values =
     (let states = enumSubset (Some values) ConsentState in
      if states = [] then []
      else complement_if (op = NotIn) universe (byConsent db tenantId ''SMS'' states))"
| "enum_leaf db tenantId universe ConsentWhatsapp op values =
     (let states = enumSubset (Some values) ConsentState in
      if states = [] then []
      else complement_if (op = NotIn) universe (byConsent db tenantId ''WHATSAPP'' states))"
| "enum_leaf db tenantId universe SourceSystem op values =
     (let familyRoots = filter (\<lambda>v. \<not> str_includes v '':'') values in
      complement_if (op = NotIn) universe
        (js_set (map sr_contactId (filter (\<lambda>r. sr_tenantId r = tenantId \<and>
           (sr_sourceSystem r \<in> set values \<or>
            list_ex (\<lambda>v. starts_with (sr_sourceSystem r) (v @ '':'')) familyRoots))
           (db_contactSourceRecord db)))))"
| "enum_leaf db tenantId universe CanvassDispositionCode op values =
     complement_if (op = NotIn) universe
       (js_set (map di_contactId (filter (\<lambda>r. di_tenantId r = tenantId \<and> di_code r \<in> set values)
         (db_disposition db))))"

fun bool_leaf :: "AudienceDb \<Rightarrow> string \<Rightarrow> bool_type \<Rightarrow> bool \<Rightarrow> contact_set" where
  "bool_leaf db tenantId ContactHasEmail present = byPresence db tenantId (\<lambda>c. ct_email c \<noteq> None) present"
| "bool_leaf db tenantId ContactHasPhone present = byPresence db tenantId (\<lambda>c. ct_phoneE164 c \<noteq> None) present"
| "bool_leaf db tenantId ContactConsented present = byPresence db tenantId (\<lambda>c. ct_consentAt c \<noteq> None) present"

fun date_leaf :: "AudienceDb \<Rightarrow> string \<Rightarrow> date_type \<Rightarrow> DateRange \<Rightarrow> contact_set" where
  "date_leaf db tenantId ContactCreatedAt rng = contact_ids db tenantId (\<lambda>c. in_range rng (ct_createdAt c))"
| "date_leaf db tenantId ActivityLastActiveWithin rng = byAnyActivity db tenantId rng"
| "date_leaf db tenantId CanvassDoorKnockedAt rng =
     js_set (map dk_contactId (filter (\<lambda>r. dk_tenantId r = tenantId \<and> in_range rng (dk_createdAt r)) (db_doorKnock db)))"
| "date_leaf db tenantId EmailOpenedAt rng =
     ids_of em_contactId (filter (\<lambda>r. em_tenantId r = tenantId \<and> opt_in_range rng (em_openedAt r)) (db_email db))"
| "date_leaf db tenantId EmailClickedAt rng =
     ids_of em_contactId (filter (\<lambda>r. em_tenantId r = tenantId \<and> opt_in_range rng (em_clickedAt r)) (db_email db))"

text \<open>\<open>value.trim().replace(/^@/, "").toLowerCase()\<close>\<close>

definition email_domain :: "string \<Rightarrow> string" where
  "email_domain value =
     (let t = js_trim value in js_lower (if starts_with t ''@'' then drop 1 t else t))"

fun resolve_condition ::
  "LeafEnv \<Rightarrow> AudienceDb \<Rightarrow> string \<Rightarrow> contact_set \<Rightarrow> SegmentCustomClause list option \<Rightarrow> condition \<Rightarrow>
   contact_set option \<times> ClauseError list" where
  "resolve_condition env db tenantId universe clauses (EnumCondition t op vs) =
     (Some (enum_leaf db tenantId universe t op vs), [])"
| "resolve_condition env db tenantId universe clauses (PostcodeSetCondition op vs) =
     (Some (complement_if (op = NotIn) universe (byGnafColumn db tenantId ''contact.postcode'' vs)), [])"
| "resolve_condition env db tenantId universe clauses (PostcodeEqCondition v) =
     (Some (byGnafColumn db tenantId ''contact.postcode'' [v]), [])"
| "resolve_condition env db tenantId universe clauses (BoolCondition t op v) =
     (Some (bool_leaf db tenantId t (wantsPresent op v)), [])"
| "resolve_condition env db tenantId universe clauses (EmailDomainCondition op v) =
     (let norm = email_domain v in
      (Some
        (if norm = [] then []
         else contact_ids db tenantId
           (\<lambda>c. case ct_email c of
                  None \<Rightarrow> False
                | Some e \<Rightarrow>
                    if op = Eq then ends_with (js_lower e) (js_lower (''@'' @ norm))
                    else str_includes (js_lower e) (js_lower norm))), []))"
| "resolve_condition env db tenantId universe clauses (DateCondition t d) =
     (map_option (date_leaf db tenantId t) (dateRange env d), [])"
| "resolve_condition env db tenantId universe clauses (SurveyRespondedCondition op surveyId) =
     (Some (complement_if (op = IsNot) universe
        (js_set (map qr_contactId (filter (\<lambda>r. qr_tenantId r = tenantId \<and> qr_surveyId r = surveyId)
           (db_questionResponse db))))), [])"
| "resolve_condition env db tenantId universe clauses (SurveyAnsweredCondition questionId op vs) =
     (Some (complement_if (op = NotIn) universe
        (js_set (map qr_contactId (filter (\<lambda>r. qr_tenantId r = tenantId \<and> qr_questionId r = questionId \<and>
           (qr_optionValue r \<in> Some ` set vs \<or> qr_valueText r \<in> Some ` set vs))
           (db_questionResponse db))))), [])"
| "resolve_condition env db tenantId universe clauses (EventRsvpedCondition op e ss) =
     (Some (byEventRsvp db tenantId op e ss universe), [])"
| "resolve_condition env db tenantId universe clauses (BlastReceivedCondition op b w) =
     (Some (byBlastReceived env db tenantId op b w universe), [])"
| "resolve_condition env db tenantId universe clauses (BlastRepliedCondition op b w) =
     (Some (byBlastReplied env db tenantId op b w universe), [])"
| "resolve_condition env db tenantId universe clauses (JourneyEnrolledCondition op j ss) =
     (Some (byJourneyEnrolled db tenantId op j ss universe), [])"
| "resolve_condition env db tenantId universe clauses (GeoAreaCondition a op vs) =
     (Some (byGeoArea db tenantId a op vs universe), [])"
| "resolve_condition env db tenantId universe clauses (PollThresholdCondition p q r op v g) =
     (Some (byPollThreshold db tenantId p q r (poll_op_id op) v (geo_area_id g)), [])"
| "resolve_condition env db tenantId universe clauses (CustomClauseCondition ref) =
     (let (ids, errors) = byCustomClause env tenantId ref clauses in (Some ids, errors))"
| "resolve_condition env db tenantId universe clauses (ChannelConsentCondition ch) =
     (Some
       (if ch = WHATSAPP then byConsent db tenantId ''WHATSAPP'' [''OPTED_IN'']
        else difference universe (byConsent db tenantId ''SMS'' [''OPTED_OUT''])), [])"
| "resolve_condition env db tenantId universe clauses (NotSuppressedCondition ch) =
     (Some (notSuppressedContacts db tenantId), [])"
| "resolve_condition env db tenantId universe clauses (ReachableCondition ch) =
     (Some (intersect (contact_ids db tenantId (\<lambda>c. ct_phoneE164 c \<noteq> None)) universe), [])"
| "resolve_condition env db tenantId universe clauses (PolicyIsActiveCondition op) = (Some [], [])"

fun resolveLeaf ::
  "LeafEnv \<Rightarrow> AudienceDb \<Rightarrow> string \<Rightarrow> contact_set \<Rightarrow> SegmentCustomClause list option \<Rightarrow> effective_node \<Rightarrow>
   contact_set option \<times> ClauseError list" where
  "resolveLeaf env db tenantId universe clauses (EFatigue l e window cap) =
     (Some (passesFatigue env db tenantId window cap universe), [])"
| "resolveLeaf env db tenantId universe clauses (ECondition l e c) =
     resolve_condition env db tenantId universe clauses c"
| "resolveLeaf env db tenantId universe clauses (EGroup k l e cs) = (None, [])"

section \<open>All leaves\<close>

record LeafResolution =
  resolved :: "(effective_node, contact_set) table"
  clauseErrors :: "ClauseError list"

text \<open>The map is keyed by the leaf; equal leaves resolve alike on one snapshot.\<close>

fun resolveLeaves ::
  "LeafEnv \<Rightarrow> AudienceDb \<Rightarrow> string \<Rightarrow> effective_node list \<Rightarrow> contact_set \<Rightarrow>
   SegmentCustomClause list option \<Rightarrow> LeafResolution \<Rightarrow> LeafResolution" where
  "resolveLeaves env db tenantId [] universe clauses acc = acc"
| "resolveLeaves env db tenantId (leaf # rest) universe clauses acc =
     (let (ids, errors) = resolveLeaf env db tenantId universe clauses leaf in
      resolveLeaves env db tenantId rest universe clauses
        \<lparr>resolved = tset leaf (case ids of Some s \<Rightarrow> s | None \<Rightarrow> []) (resolved acc),
         clauseErrors = clauseErrors acc @ errors\<rparr>)"

definition no_resolution :: LeafResolution where
  "no_resolution = \<lparr>resolved = [], clauseErrors = []\<rparr>"

definition resolver_of :: "LeafResolution \<Rightarrow> effective_node \<Rightarrow> contact_set" where
  "resolver_of res leaf = (case tget (resolved res) leaf of Some s \<Rightarrow> s | None \<Rightarrow> [])"

section \<open>What the leaves resolve to\<close>

definition leaf_set ::
  "LeafEnv \<Rightarrow> AudienceDb \<Rightarrow> string \<Rightarrow> SegmentCustomClause list option \<Rightarrow> effective_node \<Rightarrow> contact_set" where
  "leaf_set env db tenantId clauses leaf =
     (case fst (resolveLeaf env db tenantId (tenant_universe db tenantId) clauses leaf) of
        Some s \<Rightarrow> s | None \<Rightarrow> [])"

lemma resolveLeaves_lookup:
  "tget (resolved (resolveLeaves env db tenantId found (tenant_universe db tenantId) clauses acc)) leaf =
     (if leaf \<in> set found then Some (leaf_set env db tenantId clauses leaf) else tget (resolved acc) leaf)"
proof (induction found arbitrary: acc)
  case (Cons l ls)
  then show ?case
    by (auto simp: leaf_set_def split_def Let_def)
qed simp

lemma resolver_of_tree:
  "resolver_of (resolveLeaves env db tenantId found (tenant_universe db tenantId) clauses no_resolution) leaf =
     (if leaf \<in> set found then leaf_set env db tenantId clauses leaf else [])"
  by (simp add: resolver_of_def resolveLeaves_lookup no_resolution_def)

text \<open>The contacts a channel's floor lets through, read off the database.\<close>

definition wf_db :: "AudienceDb \<Rightarrow> bool" where
  "wf_db db \<longleftrightarrow> distinct (map ct_id (db_contact db)) \<and> (\<forall>c\<in>set (db_contact db). ct_id c \<noteq> [])"

definition may_receive :: "AudienceDb \<Rightarrow> string \<Rightarrow> ComplianceChannel \<Rightarrow> string \<Rightarrow> bool" where
  "may_receive db tenantId ch x \<longleftrightarrow>
     (\<exists>c\<in>set (db_contact db). ct_id c = x \<and> ct_tenantId c = tenantId \<and> ct_phoneE164 c \<noteq> None \<and>
        \<not> (\<exists>s\<in>set (db_suppression db). su_tenantId s = tenantId \<and> suppresses c s)) \<and>
     (case ch of
        SMS \<Rightarrow> \<not> (\<exists>r\<in>set (db_contactConsent db). cc_tenantId r = tenantId \<and> cc_channel r = ''SMS'' \<and>
                   cc_contactId r = Some x \<and> cc_state r = ''OPTED_OUT'')
      | WHATSAPP \<Rightarrow> (\<exists>r\<in>set (db_contactConsent db). cc_tenantId r = tenantId \<and> cc_channel r = ''WHATSAPP'' \<and>
                   cc_contactId r = Some x \<and> cc_state r = ''OPTED_IN''))"

lemma same_contact:
  "wf_db db \<Longrightarrow> c \<in> set (db_contact db) \<Longrightarrow> d \<in> set (db_contact db) \<Longrightarrow> ct_id c = ct_id d \<Longrightarrow> c = d"
  by (auto simp: wf_db_def distinct_map inj_on_def)

lemma reachable_leaf:
  "x \<in> set (leaf_set env db tenantId clauses (ECondition l e (ReachableCondition ch))) \<longleftrightarrow>
     (\<exists>c\<in>set (db_contact db). ct_id c = x \<and> ct_tenantId c = tenantId \<and> ct_phoneE164 c \<noteq> None)"
  by (auto simp: leaf_set_def in_contact_ids tenant_universe_def)

lemma not_suppressed_leaf:
  "x \<in> set (leaf_set env db tenantId clauses (ECondition l e (NotSuppressedCondition ch))) \<longleftrightarrow>
     (\<exists>c\<in>set (db_contact db). ct_id c = x \<and> ct_tenantId c = tenantId \<and>
        \<not> (\<exists>s\<in>set (db_suppression db). su_tenantId s = tenantId \<and> suppresses c s))"
  by (auto simp: leaf_set_def notSuppressedContacts_def in_contact_ids list_ex_iff)

lemma in_byConsent:
  "x \<in> set (byConsent db tenantId channel states) \<longleftrightarrow>
     x \<noteq> [] \<and> (\<exists>r\<in>set (db_contactConsent db). cc_tenantId r = tenantId \<and> cc_channel r = channel \<and>
        cc_state r \<in> set states \<and> cc_contactId r = Some x)"
  by (auto simp: byConsent_def in_ids_of)

lemma floor_may_receive:
  assumes "x \<in> set (leaf_set env db tenantId clauses (ECondition l e (ChannelConsentCondition ch)))"
    "x \<in> set (leaf_set env db tenantId clauses (ECondition l e (NotSuppressedCondition ch)))"
    "x \<in> set (leaf_set env db tenantId clauses (ECondition l e (ReachableCondition ch)))" "wf_db db"
  shows "may_receive db tenantId ch x"
proof -
  from assms(2) obtain c where c: "c \<in> set (db_contact db)" "ct_id c = x" "ct_tenantId c = tenantId"
      "\<not> (\<exists>s\<in>set (db_suppression db). su_tenantId s = tenantId \<and> suppresses c s)"
    unfolding not_suppressed_leaf by blast
  from assms(3) obtain d where d: "d \<in> set (db_contact db)" "ct_id d = x" "ct_phoneE164 d \<noteq> None"
    unfolding reachable_leaf by blast
  have "c = d" using same_contact [OF assms(4) c(1) d(1)] c(2) d(2) by simp
  moreover have "x \<noteq> []" using assms(4) c by (auto simp: wf_db_def)
  ultimately show ?thesis
    using assms(1) c d
    by (cases ch) (auto simp: may_receive_def leaf_set_def in_byConsent)
qed

interpretation live_floor: sending_floor "leaf_set env db tenantId clauses"
    "\<lambda>ch x. wf_db db \<longrightarrow> may_receive db tenantId ch x" for env db tenantId clauses
  by unfold_locales (blast intro: floor_may_receive)

text \<open>A leaf whose query throws matches nobody.\<close>

lemma leaf_error_empty:
  "fst (resolveLeaf env db tenantId (tenant_universe db tenantId) clauses leaf) = None \<Longrightarrow>
   leaf_set env db tenantId clauses leaf = []"
  by (simp add: leaf_set_def)

lemma complement_partition:
  assumes "set matched \<subseteq> set universe"
  shows "set (complement_if b universe matched) \<inter> set (complement_if (\<not> b) universe matched) = {}"
    and "set (complement_if b universe matched) \<union> set (complement_if (\<not> b) universe matched) = set universe"
  using assms by (auto simp: complement_if_def)

end
