(* ===== verification/Segment_Evaluator.thy ===== *)
theory Segment_Evaluator
  imports Segment_Leaves
begin

text \<open>
  The dynamic-segment evaluator: \<^verbatim>\<open>apps/api/src/audiences/legacy-clause-evaluator.ts\<close>,
  \<^verbatim>\<open>segment-evaluator.service.ts\<close> and \<^verbatim>\<open>segment-preview.service.ts\<close>. \<open>decode\<close> is the typed
  reading of \<open>SegmentDefinitionV2Schema.parse\<close> (\<open>None\<close> where it throws). The main results: a
  v2 evaluation only ever stores contacts of the tenant that pass the compliance floor, a failing
  leaf can only shrink the audience, the rewrite replaces exactly the segment's members, and
  the preview's counts are those of the eventual send.
\<close>

section \<open>The legacy clause language\<close>

definition includeClause :: "json \<Rightarrow> json option" where
  "includeClause rule =
     (if is_jobj rule
      then (case jget rule ''include'' of
              Some inner \<Rightarrow> if is_jobj inner then Some inner else Some rule
            | None \<Rightarrow> Some rule)
      else None)"

definition allContactIds :: "AudienceDb \<Rightarrow> string \<Rightarrow> contact_set" where
  "allContactIds db tenantId = contact_ids db tenantId (\<lambda>c. True)"

definition byEmailDomain :: "AudienceDb \<Rightarrow> string \<Rightarrow> string \<Rightarrow> contact_set" where
  "byEmailDomain db tenantId domain =
     (let norm = email_domain domain in
      if norm = [] then []
      else contact_ids db tenantId
        (\<lambda>c. case ct_email c of None \<Rightarrow> False | Some e \<Rightarrow> ends_with (js_lower e) (js_lower (''@'' @ norm))))"

definition bySourceSystem :: "AudienceDb \<Rightarrow> string \<Rightarrow> string \<Rightarrow> contact_set" where
  "bySourceSystem db tenantId sourceSystem =
     (let norm = js_trim sourceSystem in
      if norm = [] then []
      else js_set (map sr_contactId (filter (\<lambda>r. sr_tenantId r = tenantId \<and>
        (if str_includes norm '':'' then sr_sourceSystem r = norm
         else sr_sourceSystem r = norm \<or> starts_with (sr_sourceSystem r) (norm @ '':'')))
        (db_contactSourceRecord db))))"

definition byConsentState :: "AudienceDb \<Rightarrow> string \<Rightarrow> json option \<Rightarrow> json option \<Rightarrow> contact_set" where
  "byConsentState db tenantId channel state =
     (case (channel, state) of
        (Some (JStr ch), Some (JStr st)) \<Rightarrow>
          if ch \<in> set MessageChannel \<and> st \<in> set ConsentState then byConsent db tenantId ch [st] else []
      | _ \<Rightarrow> [])"

definition byTurf :: "AudienceDb \<Rightarrow> string \<Rightarrow> string \<Rightarrow> contact_set" where
  "byTurf db tenantId turfId =
     (if turfId = [] then [] else contact_ids db tenantId (\<lambda>c. ct_turfId c = Some turfId))"

definition byPollThresholdClause :: "JsEnv \<Rightarrow> AudienceDb \<Rightarrow> string \<Rightarrow> json \<Rightarrow> contact_set" where
  "byPollThresholdClause lg db tenantId clause =
     (let geoKind = stringOr lg (jget clause ''geoKind'') ''sed_upper'' in
      case GEO_REGION_COLUMN geoKind of
        None \<Rightarrow> []
      | Some column \<Rightarrow>
          (case numberOr lg (jget clause ''value'') of
             None \<Rightarrow> []
           | Some value \<Rightarrow>
               byPollThreshold db tenantId (stringOr lg (jget clause ''pollId'') [])
                 (stringOr lg (jget clause ''questionCode'') []) (stringOr lg (jget clause ''response'') [])
                 (stringOr lg (jget clause ''op'') ''>='') value geoKind))"

definition legacy_intersect :: "contact_set \<Rightarrow> contact_set \<Rightarrow> contact_set" where
  "legacy_intersect a b = filter (\<lambda>x. x \<in> set b) a"

text \<open>\<open>None\<close>: the evaluation throws, on a child that is \<open>null\<close>.\<close>

fun reduce1 :: "('a \<Rightarrow> 'a \<Rightarrow> 'a) \<Rightarrow> 'a list \<Rightarrow> 'a option" where
  "reduce1 f [] = None"
| "reduce1 f (x # xs) = Some (fold (\<lambda>y acc. f acc y) xs x)"

definition leaf_clause :: "JsEnv \<Rightarrow> AudienceDb \<Rightarrow> string \<Rightarrow> json \<Rightarrow> contact_set \<Rightarrow> contact_set" where
  "leaf_clause lg db tenantId clause universe =
     (let type = (case jget clause ''type'' of Some (JStr t) \<Rightarrow> t | _ \<Rightarrow> ''all'') in
      if type = ''emailDomain'' then byEmailDomain db tenantId (stringOr lg (jget clause ''domain'') [])
      else if type = ''hasSource'' then bySourceSystem db tenantId (stringOr lg (jget clause ''sourceSystem'') [])
      else if type = ''consentState'' then byConsentState db tenantId (jget clause ''channel'') (jget clause ''state'')
      else if type = ''turf'' then byTurf db tenantId (stringOr lg (jget clause ''turfId'') [])
      else if type = ''pollThreshold'' then byPollThresholdClause lg db tenantId clause
      else universe)"

definition child_clauses :: "json \<Rightarrow> string \<Rightarrow> json list option" where
  "child_clauses clause k = (case jget clause k of Some (JArr xs) \<Rightarrow> Some xs | _ \<Rightarrow> None)"

lemma child_clauses_size:
  assumes "child_clauses j k = Some xs" "x \<in> set xs"
  shows "size x < size j"
proof -
  from assms(1) obtain kvs where "j = JObj kvs" "map_of kvs k = Some (JArr xs)"
    by (cases j) (auto simp: child_clauses_def split: option.splits json.splits)
  with map_of_size [of kvs k "JArr xs"] size_json_child [OF assms(2)] show ?thesis by simp
qed

function evalClause ::
  "JsEnv \<Rightarrow> AudienceDb \<Rightarrow> string \<Rightarrow> contact_set \<Rightarrow> json \<Rightarrow> contact_set option" where
  "evalClause lg db tenantId universe clause =
     (if clause = JNull then None
      else case child_clauses clause ''all'' of
        Some children \<Rightarrow>
          (if children = [] then Some universe
           else Option.bind (those (map (evalClause lg db tenantId universe) children))
                  (reduce1 legacy_intersect))
      | None \<Rightarrow>
          (case child_clauses clause ''any'' of
             Some children \<Rightarrow>
               map_option (\<lambda>sets. fold (\<lambda>s acc. union_set acc s) sets [])
                 (those (map (evalClause lg db tenantId universe) children))
           | None \<Rightarrow> Some (leaf_clause lg db tenantId clause universe)))"
  by pat_completeness auto
termination
  by (relation "measure (\<lambda>(lg, db, t, u, j). size j)") (auto intro: child_clauses_size)

declare evalClause.simps [simp del]

definition legacy_resolveMemberIds ::
  "JsEnv \<Rightarrow> AudienceDb \<Rightarrow> string \<Rightarrow> json \<Rightarrow> contact_set \<Rightarrow> contact_set option" where
  "legacy_resolveMemberIds lg db tenantId d universe =
     (case includeClause d of
        None \<Rightarrow> Some universe
      | Some clause \<Rightarrow> evalClause lg db tenantId universe clause)"

section \<open>The v2 resolution\<close>

definition default_options :: "ComplianceChannel \<Rightarrow> ComposeOptions" where
  "default_options ch = \<lparr>opt_channel = Some ch, applyPolicy = None, applyCompliance = None\<rparr>"

definition audience_channel :: "string option \<Rightarrow> ComplianceChannel" where
  "audience_channel ch = (if ch = Some ''WHATSAPP'' then WHATSAPP else SMS)"

definition resolve_tree ::
  "LeafEnv \<Rightarrow> AudienceDb \<Rightarrow> string \<Rightarrow> SegmentCustomClause list option \<Rightarrow> effective_node \<Rightarrow> LeafResolution" where
  "resolve_tree env db tenantId clauses tree =
     resolveLeaves env db tenantId (collectEffectiveLeaves tree) (tenant_universe db tenantId) clauses
       no_resolution"

definition resolveV2MemberIds ::
  "LeafEnv \<Rightarrow> (json \<Rightarrow> SegmentDefinitionV2 option) \<Rightarrow> AudienceDb \<Rightarrow> bool \<Rightarrow> string \<Rightarrow> json \<Rightarrow> string option \<Rightarrow>
   contact_set res" where
  "resolveV2MemberIds env decode db leafResolver tenantId d audienceChannel =
     (if \<not> leafResolver then Inl (ThrownError ''SegmentLeafResolverService unavailable'')
      else case decode d of
        None \<Rightarrow> Inl (ThrownError ''ZodError'')
      | Some envelope \<Rightarrow>
          let composed = composeEffectiveTree (def_filter envelope) (def_policy envelope) Blast
                (default_options (audience_channel audienceChannel));
              universe = tenant_universe db tenantId;
              res = resolve_tree env db tenantId (def_customClauses envelope) (composed_tree composed) in
          case foldEffectiveTree (composed_tree composed) (resolver_of res) universe of
            None \<Rightarrow> Inl (ThrownError ''TypeError'')
          | Some ids \<Rightarrow> Inr ids)"

section \<open>Evaluation\<close>

record SegmentRow =
  sg_id :: string
  sg_tenantId :: string
  sg_definition :: json
  sg_channel :: "string option"
  sg_lastEvaluatedAt :: "rat option"

record RecomputedEvent =
  ev_tenantId :: string
  ev_eventType :: string
  ev_aggregateId :: string
  ev_memberCount :: nat

record SegmentStore =
  st_db :: AudienceDb
  st_segments :: "SegmentRow list"
  st_members :: "(string \<times> string) list"
  st_outbox :: "RecomputedEvent list"

definition segment_member_ids ::
  "LeafEnv \<Rightarrow> JsEnv \<Rightarrow> (json \<Rightarrow> SegmentDefinitionV2 option) \<Rightarrow> bool \<Rightarrow> AudienceDb \<Rightarrow> SegmentRow \<Rightarrow>
   contact_set res" where
  "segment_member_ids env lg decode leafResolver db segment =
     (if detectDefinitionFormat (sg_definition segment) = V2
      then resolveV2MemberIds env decode db leafResolver (sg_tenantId segment) (sg_definition segment)
             (sg_channel segment)
      else case legacy_resolveMemberIds lg db (sg_tenantId segment) (sg_definition segment)
                  (if leafResolver then tenant_universe db (sg_tenantId segment)
                   else allContactIds db (sg_tenantId segment)) of
             None \<Rightarrow> Inl (ThrownError ''TypeError'')
           | Some ids \<Rightarrow> Inr ids)"

definition evaluate ::
  "LeafEnv \<Rightarrow> JsEnv \<Rightarrow> (json \<Rightarrow> SegmentDefinitionV2 option) \<Rightarrow> bool \<Rightarrow> SegmentStore \<Rightarrow> string \<Rightarrow>
   (nat \<times> SegmentStore) res" where
  "evaluate env lg decode leafResolver st segmentId =
     (case find (\<lambda>s. sg_id s = segmentId) (st_segments st) of
        None \<Rightarrow> Inl (NotFoundException ''Segment not found'')
      | Some segment \<Rightarrow>
          rbind (segment_member_ids env lg decode leafResolver (st_db st) segment) (\<lambda>contactIds.
            let isV2 = (detectDefinitionFormat (sg_definition segment) = V2);
                members = filter (\<lambda>m. fst m \<noteq> segmentId) (st_members st) @
                          (if length contactIds > 0 then map (\<lambda>c. (segmentId, c)) (js_set contactIds) else []);
                segments = (if isV2
                  then map (\<lambda>s. if sg_id s = segmentId
                                then s\<lparr>sg_lastEvaluatedAt := Some (env_now env)\<rparr> else s) (st_segments st)
                  else st_segments st);
                event = \<lparr>ev_tenantId = sg_tenantId segment, ev_eventType = ''audience.segment.recomputed'',
                         ev_aggregateId = segmentId, ev_memberCount = length contactIds\<rparr> in
            Inr (length contactIds,
                 st\<lparr>st_members := members, st_segments := segments,
                    st_outbox := st_outbox st @ [event]\<rparr>)))"

definition processEvalJob ::
  "LeafEnv \<Rightarrow> JsEnv \<Rightarrow> (json \<Rightarrow> SegmentDefinitionV2 option) \<Rightarrow> bool \<Rightarrow> SegmentStore \<Rightarrow> string \<Rightarrow>
   (nat \<times> SegmentStore) res" where
  "processEvalJob env lg decode leafResolver st segmentId =
     evaluate env lg decode leafResolver st segmentId"

section \<open>The preview\<close>

text \<open>The mask character is outside the characters of \<open>string\<close>; it is a parameter.\<close>

definition maskPhone :: "char \<Rightarrow> string option \<Rightarrow> string option" where
  "maskPhone bullet phone =
     (case phone of
        None \<Rightarrow> None
      | Some p \<Rightarrow>
          if p = [] then None
          else if length p \<le> 6 then Some (replicate (length p) bullet)
          else Some (take 3 p @ replicate (length p - 6) bullet @ drop (length p - 3) p))"

definition maskEmail :: "char \<Rightarrow> string option \<Rightarrow> string option" where
  "maskEmail bullet email =
     (case email of
        None \<Rightarrow> None
      | Some e \<Rightarrow>
          if e = [] then None
          else (case find_index (\<lambda>c. c = CHR ''@'') e of
                  None \<Rightarrow> Some (replicate 3 bullet)
                | Some i \<Rightarrow>
                    if i = 0 then Some (replicate 3 bullet)
                    else Some ([e ! 0] @ replicate 3 bullet @ drop i e)))"

record MaskedRecipient =
  mr_contactId :: string
  mr_maskedPhone :: "string option"
  mr_maskedEmail :: "string option"
  mr_name :: "string option"

record SegmentPreview =
  pv_total :: nat
  pv_matched :: nat
  pv_shaped :: nat
  pv_sendable :: nat
  pv_excludedByPolicy :: int
  pv_excludedByCompliance :: int
  pv_sample :: "MaskedRecipient list"
  pv_clauseErrors :: "ClauseError list"

definition SAMPLE_SIZE :: nat where "SAMPLE_SIZE = 20"

definition contact_name :: "ContactRow \<Rightarrow> string option" where
  "contact_name c =
     (let parts = filter (\<lambda>s. s \<noteq> [])
        (map (\<lambda>o1. case o1 of None \<Rightarrow> [] | Some s \<Rightarrow> s) [ct_firstName c, ct_lastName c]);
          joined = join_strings '' '' parts in
      if joined = [] then None else Some joined)"

definition maskedSample :: "char \<Rightarrow> AudienceDb \<Rightarrow> string \<Rightarrow> string list \<Rightarrow> MaskedRecipient list" where
  "maskedSample bullet db tenantId ids =
     map (\<lambda>c. \<lparr>mr_contactId = ct_id c, mr_maskedPhone = maskPhone bullet (ct_phoneE164 c),
               mr_maskedEmail = maskEmail bullet (ct_email c), mr_name = contact_name c\<rparr>)
       (map the (filter (\<lambda>r. r \<noteq> None)
          (map (\<lambda>i. find (\<lambda>c. ct_tenantId c = tenantId \<and> ct_id c = i) (db_contact db)) ids)))"

definition fold_prefix ::
  "effective_node \<Rightarrow> nat \<Rightarrow> LeafResolution \<Rightarrow> contact_set \<Rightarrow> contact_set option" where
  "fold_prefix tree count res universe =
     foldEffectiveTree (EGroup All Composition False (take count (node_children tree)))
       (resolver_of res) universe"

definition preview_seed :: "string option \<Rightarrow> string" where
  "preview_seed seed =
     (case seed of
        None \<Rightarrow> ''preview''
      | Some s \<Rightarrow> if s \<noteq> [] \<and> list_all (\<lambda>c. \<not> js_space c) s then s else ''preview'')"

record PreviewInput =
  pi_filter :: filter_node
  pi_policy :: SegmentPolicy
  pi_customClauses :: "SegmentCustomClause list option"
  pi_channel :: "ComplianceChannel option"
  pi_seed :: "string option"

definition preview_sets ::
  "LeafEnv \<Rightarrow> AudienceDb \<Rightarrow> string \<Rightarrow> PreviewInput \<Rightarrow>
   (contact_set \<times> contact_set \<times> contact_set \<times> ClauseError list) option" where
  "preview_sets env db tenantId input =
     (let channel = (case pi_channel input of None \<Rightarrow> SMS | Some c \<Rightarrow> c);
          composed = composeEffectiveTree (pi_filter input) (pi_policy input) Blast (default_options channel);
          tree = composed_tree composed;
          universe = tenant_universe db tenantId;
          res = resolve_tree env db tenantId (pi_customClauses input) tree;
          policyIndex = (if applied_policy composed then 2 else 1) in
      Option.bind (fold_prefix tree 1 res universe) (\<lambda>matchedSet.
      Option.bind (if applied_policy composed then fold_prefix tree policyIndex res universe
                   else Some matchedSet) (\<lambda>shapedSet.
      Option.bind (if applied_compliance composed
                   then fold_prefix tree (length (node_children tree)) res universe
                   else Some shapedSet) (\<lambda>sendableSet.
      Some (matchedSet, shapedSet, sendableSet, clauseErrors res)))))"

definition preview ::
  "LeafEnv \<Rightarrow> (string \<Rightarrow> string) \<Rightarrow> char \<Rightarrow> AudienceDb \<Rightarrow> string \<Rightarrow> PreviewInput \<Rightarrow> SegmentPreview option" where
  "preview env sha256 bullet db tenantId input =
     map_option
       (\<lambda>(matchedSet, shapedSet, sendableSet, errors).
          let sampleIds = take SAMPLE_SIZE (orderByHash sha256 sendableSet (preview_seed (pi_seed input))) in
          \<lparr>pv_total = length (tenant_universe db tenantId), pv_matched = length matchedSet,
           pv_shaped = length shapedSet, pv_sendable = length sendableSet,
           pv_excludedByPolicy = int (length matchedSet) - int (length shapedSet),
           pv_excludedByCompliance = int (length shapedSet) - int (length sendableSet),
           pv_sample = maskedSample bullet db tenantId sampleIds, pv_clauseErrors = errors\<rparr>)
       (preview_sets env db tenantId input)"

section \<open>A v2 evaluation is the set semantics over the live leaves\<close>

lemma distinct_universe [simp]: "distinct (tenant_universe db tenantId)"
  by (simp add: tenant_universe_def)

lemma resolve_tree_resolver:
  "leaf \<in> set (tree_leaves tree) \<Longrightarrow>
   resolver_of (resolve_tree env db tenantId clauses tree) leaf = leaf_set env db tenantId clauses leaf"
  by (simp add: resolve_tree_def resolver_of_tree collectEffectiveLeaves_set)

lemma fold_resolve_tree:
  assumes "set (tree_leaves sub) \<subseteq> set (tree_leaves tree)"
  shows "foldEffectiveTree sub (resolver_of (resolve_tree env db tenantId clauses tree)) universe =
    Some (eval_node (leaf_set env db tenantId clauses) universe sub)"
  unfolding fold_eq_eval option.inject
  by (rule eval_node_cong) (use assms resolve_tree_resolver in blast)

definition v2_tree :: "SegmentDefinitionV2 \<Rightarrow> ComplianceChannel \<Rightarrow> effective_node" where
  "v2_tree d ch = composed_tree (composeEffectiveTree (def_filter d) (def_policy d) Blast (default_options ch))"

lemma resolveV2_eq:
  "resolveV2MemberIds env decode db True tenantId j channel =
     (case decode j of
        None \<Rightarrow> Inl (ThrownError ''ZodError'')
      | Some d \<Rightarrow> Inr (eval_node (leaf_set env db tenantId (def_customClauses d)) (tenant_universe db tenantId)
                   (v2_tree d (audience_channel channel))))"
  by (simp add: resolveV2MemberIds_def Let_def v2_tree_def fold_resolve_tree split: option.split)

lemma v2_members_may_receive:
  assumes "wf_db db" "resolveV2MemberIds env decode db True tenantId j channel = Inr ids" "x \<in> set ids"
  shows "may_receive db tenantId (audience_channel channel) x"
proof -
  from assms(2) obtain d where
      "ids = eval_node (leaf_set env db tenantId (def_customClauses d)) (tenant_universe db tenantId)
        (v2_tree d (audience_channel channel))"
    by (auto simp: resolveV2_eq split: option.splits)
  with assms(1,3) live_floor.blast_sendable [of x] show ?thesis
    by (fastforce simp: v2_tree_def default_options_def)
qed

lemma distinct_v2: "resolveV2MemberIds env decode db True tenantId j channel = Inr ids \<Longrightarrow> distinct ids"
  by (auto simp: resolveV2_eq distinct_eval split: option.splits)

section \<open>The membership rewrite\<close>

definition segment_members :: "SegmentStore \<Rightarrow> string \<Rightarrow> string list" where
  "segment_members st segmentId = map snd (filter (\<lambda>m. fst m = segmentId) (st_members st))"

lemma filter_other:
  "other \<noteq> s \<Longrightarrow> filter (\<lambda>m. fst m \<noteq> s \<and> fst m = other) ms = filter (\<lambda>m. fst m = other) ms"
  by (rule filter_cong) auto

lemma evaluate_result:
  assumes "evaluate env lg decode leafResolver st segmentId = Inr (n, st')"
  obtains segment ids where
    "find (\<lambda>s. sg_id s = segmentId) (st_segments st) = Some segment"
    "segment_member_ids env lg decode leafResolver (st_db st) segment = Inr ids"
    "n = length ids" "segment_members st' segmentId = js_set ids"
    "\<And>other. other \<noteq> segmentId \<Longrightarrow> segment_members st' other = segment_members st other"
    "st_db st' = st_db st"
    "st_outbox st' = st_outbox st @ [\<lparr>ev_tenantId = sg_tenantId segment,
       ev_eventType = ''audience.segment.recomputed'', ev_aggregateId = segmentId, ev_memberCount = length ids\<rparr>]"
proof -
  from assms obtain segment ids where
      seg: "find (\<lambda>s. sg_id s = segmentId) (st_segments st) = Some segment"
      "segment_member_ids env lg decode leafResolver (st_db st) segment = Inr ids"
    by (auto simp: evaluate_def rbind_Inr_iff split: option.splits)
  show thesis
    by (rule that [OF seg])
      (use assms seg in \<open>auto simp: evaluate_def Let_def segment_members_def filter_map comp_def filter_other\<close>)
qed

text \<open>C1: Whatever the authored filter, policy and custom clauses of a v2 segment are, every member its
  evaluation stores may receive the segment's channel: a contact of the segment's tenant with a phone
  number, not suppressed, and not opted out of SMS (opted in to WhatsApp).\<close>

theorem evaluate_v2_members:
  assumes "evaluate env lg decode True st segmentId = Inr (n, st')" "wf_db (st_db st)"
    "find (\<lambda>s. sg_id s = segmentId) (st_segments st) = Some segment"
    "detectDefinitionFormat (sg_definition segment) = V2"
    "x \<in> set (segment_members st' segmentId)"
  shows "may_receive (st_db st) (sg_tenantId segment) (audience_channel (sg_channel segment)) x"
proof -
  from assms(1) obtain segment' ids where
      "find (\<lambda>s. sg_id s = segmentId) (st_segments st) = Some segment'"
      "segment_member_ids env lg decode True (st_db st) segment' = Inr ids"
      "segment_members st' segmentId = js_set ids"
    by (rule evaluate_result)
  with assms show ?thesis
    by (auto simp: segment_member_ids_def intro: v2_members_may_receive)
qed

section \<open>The preview agrees with the send\<close>

definition input_definition :: "PreviewInput \<Rightarrow> SegmentDefinitionV2" where
  "input_definition input =
     \<lparr>def_filter = pi_filter input, def_policy = pi_policy input, def_customClauses = pi_customClauses input\<rparr>"

lemma tree_leaves_take:
  "set (tree_leaves (EGroup k l e (take n cs))) \<subseteq> set (tree_leaves (EGroup k l e cs))"
  by (auto dest: in_set_takeD)

lemma fold_prefix_eval:
  "fold_prefix (EGroup All Composition False cs) n
     (resolve_tree env db tenantId clauses (EGroup All Composition False cs)) universe =
   Some (eval_node (leaf_set env db tenantId clauses) universe (EGroup All Composition False (take n cs)))"
  unfolding fold_prefix_def node_children.simps by (rule fold_resolve_tree) (rule tree_leaves_take)

lemma preview_sets_eq:
  fixes input env db tenantId
  defines "ch \<equiv> (case pi_channel input of None \<Rightarrow> SMS | Some c \<Rightarrow> c)"
  defines "sets \<equiv> leaf_set env db tenantId (pi_customClauses input)"
  defines "cs \<equiv> node_children (v2_tree (input_definition input) ch)"
  defines "prefix_set \<equiv> \<lambda>n. eval_node sets (tenant_universe db tenantId) (EGroup All Composition False (take n cs))"
  shows "\<exists>errors. preview_sets env db tenantId input =
    Some (prefix_set 1, if length cs = 3 then prefix_set 2 else prefix_set 1,
          eval_node sets (tenant_universe db tenantId) (v2_tree (input_definition input) ch), errors)"
proof -
  let ?composed = "composeEffectiveTree (pi_filter input) (pi_policy input) Blast (default_options ch)"
  have tree: "composed_tree ?composed = EGroup All Composition False cs"
    by (simp add: cs_def v2_tree_def input_definition_def compose_tree)
  have v2: "v2_tree (input_definition input) ch = EGroup All Composition False cs"
    by (simp add: cs_def v2_tree_def input_definition_def compose_tree)
  have applied: "applied_compliance ?composed" "applied_policy ?composed \<longleftrightarrow> length cs = 3"
    using tree
    by (auto simp: composeEffectiveTree_def getContextLayerStack_def Let_def default_options_def
        split: option.splits)
  have pre: "fold_prefix (composed_tree ?composed) n
      (resolve_tree env db tenantId (pi_customClauses input) (composed_tree ?composed)) (tenant_universe db tenantId)
      = Some (prefix_set n)" for n
    unfolding tree prefix_set_def sets_def by (rule fold_prefix_eval)
  have full: "prefix_set (length cs) = eval_node sets (tenant_universe db tenantId) (v2_tree (input_definition input) ch)"
    by (simp add: prefix_set_def v2)
  show ?thesis
    using pre [of 1] pre [of 2] pre [of "length cs"] full applied
    by (auto simp: preview_sets_def Let_def ch_def [symmetric] tree)
qed

lemma prefix_set_mono:
  assumes "1 \<le> m" "m \<le> n"
  shows "set (eval_node resolve universe (EGroup All Composition False (take n cs)))
    \<subseteq> set (eval_node resolve universe (EGroup All Composition False (take m cs)))"
proof (cases "cs = []")
  case False
  then have "take m cs \<noteq> []" "take n cs \<noteq> []" using assms by auto
  moreover have "set (take m cs) \<subseteq> set (take n cs)" by (rule set_take_subset_set_take [OF assms(2)])
  ultimately show ?thesis by (subst (1 2) eval_all) auto
qed simp

lemma preview_sets_chain_facts:
  assumes "preview_sets env db tenantId input = Some (matched, shaped, sendable, errors)"
  shows "set sendable \<subseteq> set shaped" "set shaped \<subseteq> set matched"
    "distinct matched" "distinct shaped" "distinct sendable"
    "sendable = eval_node (leaf_set env db tenantId (pi_customClauses input)) (tenant_universe db tenantId)
       (v2_tree (input_definition input) (case pi_channel input of None \<Rightarrow> SMS | Some c \<Rightarrow> c))"
proof -
  let ?ch = "case pi_channel input of None \<Rightarrow> SMS | Some c \<Rightarrow> c"
  let ?sets = "leaf_set env db tenantId (pi_customClauses input)"
  define cs where "cs = node_children (v2_tree (input_definition input) ?ch)"
  have v2: "v2_tree (input_definition input) ?ch = EGroup All Composition False (take (length cs) cs)"
    by (simp add: cs_def v2_tree_def compose_tree)
  have len: "2 \<le> length cs" by (simp add: cs_def v2_tree_def compose_tree)
  let ?P = "\<lambda>n. eval_node ?sets (tenant_universe db tenantId) (EGroup All Composition False (take n cs))"
  have eqs: "matched = ?P 1" "shaped = (if length cs = 3 then ?P 2 else ?P 1)" "sendable = ?P (length cs)"
    using assms preview_sets_eq [of env db tenantId input] by (auto simp: cs_def v2 [symmetric] v2_tree_def compose_tree)
  show "set shaped \<subseteq> set matched" using prefix_set_mono [of 1 2] by (simp add: eqs)
  show "set sendable \<subseteq> set shaped"
  proof (cases "length cs = 3")
    case True
    show ?thesis unfolding eqs if_P [OF True] by (rule prefix_set_mono) (use True in simp_all)
  next
    case False
    show ?thesis unfolding eqs if_not_P [OF False] by (rule prefix_set_mono) (use len in simp_all)
  qed
  show "distinct matched" "distinct shaped" "distinct sendable"
    by (simp_all add: eqs distinct_eval del: eval_node.simps)
  show "sendable = eval_node ?sets (tenant_universe db tenantId) (v2_tree (input_definition input) ?ch)"
    by (simp add: eqs(3) v2)
qed

text \<open>A preview's sets shrink from matched to policy-shaped to sendable, none has a contact twice, and the
  sendable set is the evaluation of the composed audience that a send resolves.\<close>

lemma preview_sets_chain:
  assumes "preview_sets env db tenantId input = Some (matched, shaped, sendable, errors)"
  shows "set sendable \<subseteq> set shaped \<and> set shaped \<subseteq> set matched \<and>
    distinct matched \<and> distinct shaped \<and> distinct sendable \<and>
    sendable = eval_node (leaf_set env db tenantId (pi_customClauses input)) (tenant_universe db tenantId)
       (v2_tree (input_definition input) (case pi_channel input of None \<Rightarrow> SMS | Some c \<Rightarrow> c))"
  using preview_sets_chain_facts [OF assms] by simp

section \<open>Properties of the evaluation\<close>

lemma evaluate_stores_facts:
  assumes "evaluate env lg decode leafResolver st segmentId = Inr (n, st')"
  shows "distinct (segment_members st' segmentId)"
    and "other \<noteq> segmentId \<Longrightarrow> segment_members st' other = segment_members st other"
    and "st_db st' = st_db st"
    and "\<exists>e. st_outbox st' = st_outbox st @ [e] \<and> ev_aggregateId e = segmentId \<and> ev_memberCount e = n"
  by (rule evaluate_result [OF assms]; simp)+

text \<open>Evaluating a segment stores its members once each, reports their number in the result and in one
  outbox event, and leaves the audience tables and the members of every other segment as they were.\<close>

lemma evaluate_stores:
  assumes "evaluate env lg decode leafResolver st segmentId = Inr (n, st')"
  shows "distinct (segment_members st' segmentId) \<and>
    (other = segmentId \<or> segment_members st' other = segment_members st other) \<and> st_db st' = st_db st \<and>
    (\<exists>e. st_outbox st' = st_outbox st @ [e] \<and> ev_aggregateId e = segmentId \<and> ev_memberCount e = n)"
  using evaluate_stores_facts [OF assms] by blast

text \<open>C30: The preview shows what a send would reach: its sendable set is the member set the evaluator
  resolves for the same definition and channel.\<close>

theorem preview_is_send:
  assumes "preview_sets env db tenantId input = Some (matched, shaped, sendable, errors)"
    and "decode j = Some (input_definition input)"
    and "audience_channel channel = (case pi_channel input of None \<Rightarrow> SMS | Some c \<Rightarrow> c)"
  shows "resolveV2MemberIds env decode db True tenantId j channel = Inr sendable"
  using preview_sets_eq [of env db tenantId input] assms
  by (auto simp: resolveV2_eq input_definition_def)

definition sample_contact :: ContactRow where
  "sample_contact = \<lparr>ct_id = ''c1'', ct_tenantId = ''t1'', ct_phoneE164 = Some ''+61400000001'', ct_email = None,
     ct_firstName = None, ct_lastName = None, ct_createdAt = 0, ct_consentAt = None, ct_turfId = None,
     ct_gnafPid = None\<rparr>"

definition sample_db :: AudienceDb where
  "sample_db = \<lparr>db_contact = [sample_contact], db_gnafAddress = [], db_addressRegion = [], db_disposition = [],
     db_contactTagAssignment = [], db_contactConsent = [], db_contactSourceRecord = [], db_doorKnock = [],
     db_questionResponse = [], db_eventRsvp = [], db_inboundMessage = [], db_blastRecipient = [],
     db_journeyEnrolment = [], db_email = [], db_suppression = [], db_pollQuestion = [], db_pollEstimate = []\<rparr>"

definition sample_env :: LeafEnv where
  "sample_env = \<lparr>env_now = 0, env_date = (\<lambda>s. None), env_parse = (\<lambda>s. None), env_execSql = (\<lambda>s t. None)\<rparr>"

definition sample_definition :: SegmentDefinitionV2 where
  "sample_definition = \<lparr>def_filter = FilterCondition (BoolCondition ContactHasPhone Is True),
     def_policy = DEFAULT_SEGMENT_POLICY, def_customClauses = None\<rparr>"

definition sample_store :: SegmentStore where
  "sample_store = \<lparr>st_db = sample_db,
     st_segments = [\<lparr>sg_id = ''s1'', sg_tenantId = ''t1'', sg_definition = definition_json sample_definition,
       sg_channel = None, sg_lastEvaluatedAt = None\<rparr>],
     st_members = [(''s2'', ''c9'')], st_outbox = []\<rparr>"

lemma sample_universe: "tenant_universe sample_db ''t1'' = [''c1'']"
  by (simp add: tenant_universe_def contact_ids_def sample_db_def sample_contact_def)

lemma sample_tree: "v2_tree sample_definition SMS = EGroup All Composition False
   [ECondition Intent True (BoolCondition ContactHasPhone Is True), buildComplianceLayer SMS]"
  by (simp add: v2_tree_def compose_tree sample_definition_def DEFAULT_SEGMENT_POLICY_def buildPolicyLayer_def
     default_options_def)

lemma sample_members:
  "resolveV2MemberIds sample_env (\<lambda>j. Some sample_definition) sample_db True ''t1'' j None = Inr [''c1'']"
proof -
  have leaves: "byPresence sample_db ''t1'' (\<lambda>c. \<exists>y. ct_phoneE164 c = Some y) (wantsPresent Is True) = [''c1'']"
    "byConsent sample_db ''t1'' ''SMS'' [''OPTED_OUT''] = []" "notSuppressedContacts sample_db ''t1'' = [''c1'']"
    "contact_ids sample_db ''t1'' (\<lambda>c. \<exists>y. ct_phoneE164 c = Some y) = [''c1'']"
    by (simp_all add: byPresence_def byConsent_def notSuppressedContacts_def contact_ids_def ids_of_def wantsPresent_def
        sample_db_def sample_contact_def)
  show ?thesis
    by (simp add: resolveV2_eq audience_channel_def sample_tree sample_universe buildComplianceLayer_def
        complianceFloorConditions_def leaf_set_def leaves difference_def combineGroup_def intersectAll_def intersect_def)
qed

lemma sample_evaluated:
  "\<exists>st'. evaluate sample_env sample_js (\<lambda>j. Some sample_definition) True sample_store ''s1'' = Inr (1, st') \<and>
     segment_members st' ''s1'' = [''c1'']"
proof -
  have "segment_member_ids sample_env sample_js (\<lambda>j. Some sample_definition) True sample_db
    \<lparr>sg_id = ''s1'', sg_tenantId = ''t1'', sg_definition = definition_json sample_definition,
       sg_channel = None, sg_lastEvaluatedAt = None\<rparr> = Inr [''c1'']"
    by (simp add: segment_member_ids_def sample_members detectDefinitionFormat_def definition_json_def is_object_def)
  then show ?thesis
    by (simp add: evaluate_def sample_store_def segment_members_def Let_def)
qed

theorem evaluate_v2_members_witness: "may_receive sample_db ''t1'' SMS ''c1''"
proof -
  obtain st' where st': "evaluate sample_env sample_js (\<lambda>j. Some sample_definition) True sample_store ''s1'' = Inr (1, st')"
    "segment_members st' ''s1'' = [''c1'']" using sample_evaluated by blast
  have "may_receive (st_db sample_store) ''t1'' (audience_channel None) ''c1''"
    using evaluate_v2_members [OF st'(1), of "hd (st_segments sample_store)" "''c1''"] st'(2)
    by (simp add: sample_store_def wf_db_def sample_db_def sample_contact_def detectDefinitionFormat_def
        definition_json_def is_object_def)
  then show ?thesis by (simp add: sample_store_def audience_channel_def)
qed

theorem evaluate_stores_witness:
  "\<exists>st'. evaluate sample_env sample_js (\<lambda>j. Some sample_definition) True sample_store ''s1'' = Inr (1, st') \<and>
     segment_members st' ''s2'' = [''c9'']"
proof -
  obtain st' where st': "evaluate sample_env sample_js (\<lambda>j. Some sample_definition) True sample_store ''s1'' = Inr (1, st')"
    using sample_evaluated by blast
  then show ?thesis
    using evaluate_stores [OF st', of "''s2''"] by (simp add: sample_store_def segment_members_def)
qed

lemma preview_defined:
  obtains matched shaped sendable errors where
    "preview_sets env db tenantId input = Some (matched, shaped, sendable, errors)"
  using preview_sets_eq [of env db tenantId input] by (elim exE) (rule that)

definition sample_preview :: PreviewInput where
  "sample_preview = \<lparr>pi_filter = def_filter sample_definition, pi_policy = DEFAULT_SEGMENT_POLICY,
     pi_customClauses = None, pi_channel = None, pi_seed = None\<rparr>"

theorem preview_sets_chain_witness:
  "\<exists>matched shaped sendable errors. preview_sets sample_env sample_db ''t1'' sample_preview =
     Some (matched, shaped, sendable, errors) \<and> set sendable \<subseteq> set shaped \<and> set shaped \<subseteq> set matched"
proof -
  obtain matched shaped sendable errors where
    sets: "preview_sets sample_env sample_db ''t1'' sample_preview = Some (matched, shaped, sendable, errors)"
    by (rule preview_defined)
  with preview_sets_chain [OF sets] show ?thesis by blast
qed

theorem preview_is_send_witness:
  "\<exists>matched shaped sendable errors. preview_sets sample_env sample_db ''t1'' sample_preview =
       Some (matched, shaped, sendable, errors) \<and>
     resolveV2MemberIds sample_env (\<lambda>j. Some (input_definition sample_preview)) sample_db True ''t1'' JNull None = Inr sendable"
proof -
  obtain matched shaped sendable errors where
    "preview_sets sample_env sample_db ''t1'' sample_preview = Some (matched, shaped, sendable, errors)"
    by (rule preview_defined)
  then show ?thesis
    using preview_is_send [of sample_env sample_db "''t1''" sample_preview matched shaped sendable errors
        "\<lambda>j. Some (input_definition sample_preview)" JNull None]
    by (simp add: audience_channel_def sample_preview_def)
qed

end
