(* ===== verification/Seg_Describe.thy ===== *)
theory Seg_Describe
  imports Seg_Normalise Segment_Evaluator
begin

text \<open>
  The two other halves of the AI flow: the keyword fallback \<^verbatim>\<open>ai/keyword-matcher.ts\<close> that builds a loose
  tree without a model, and the plain-English summary \<^verbatim>\<open>ai/describe-tree.ts\<close> of a filter. The lemmas show
  that the fallback never makes the boundary raise and that the summary loses the polarity of the boolean
  and membership conditions.
\<close>

section \<open>The summary\<close>

definition OP_WORDS :: "(string \<times> string) list" where
  "OP_WORDS =
     [(''in'', ''is''), (''notIn'', ''is not''), (''is'', ''is''), (''isNot'', ''is not''), (''eq'', ''is''),
      (''contains'', ''contains''), (''within'', ''in the last''), (''before'', ''before''),
      (''after'', ''after''), (''between'', ''between''), (''gt'', ''over''), (''lt'', ''under'')]"

definition list_values :: "string list \<Rightarrow> string" where
  "list_values vs =
     (if length vs \<le> 3 then join_strings '', '' vs
      else join_strings '', '' (take 3 vs) @ '' +'' @ nat_to_string (length vs - 3) @ '' more'')"

definition condition_label :: "json \<Rightarrow> string" where
  "condition_label c =
     (case jget c ''type'' of
        Some (JStr t) \<Rightarrow> (case findCatalogueEntry t of Some e \<Rightarrow> ce_label e | None \<Rightarrow> t)
      | _ \<Rightarrow> [])"

definition op_word :: "JsEnv \<Rightarrow> json \<Rightarrow> string" where
  "op_word lg c =
     (let op = stringOr lg (jget c ''op'') '''' in
      case map_of OP_WORDS op of Some w \<Rightarrow> w | None \<Rightarrow> op)"

fun jarray :: "json option \<Rightarrow> json list option" where
  "jarray (Some (JArr xs)) = Some xs"
| "jarray v = None"

fun jnumber :: "json option \<Rightarrow> rat option" where
  "jnumber (Some (JNum q)) = Some q"
| "jnumber v = None"

definition describe_value :: "JsEnv \<Rightarrow> string \<Rightarrow> string \<Rightarrow> json option \<Rightarrow> string" where
  "describe_value lg label op v =
     (case v of
        Some (JBool b) \<Rightarrow> if b then label else ''not '' @ js_lower label
      | Some (JStr s) \<Rightarrow> label @ '' '' @ op @ '' '' @ [CHR 0x22] @ s @ [CHR 0x22]
      | Some (JNum n) \<Rightarrow> label @ '' '' @ op @ '' '' @ js_numString lg n
      | _ \<Rightarrow> label)"

definition describe_range :: "string \<Rightarrow> string option \<Rightarrow> string option \<Rightarrow> string option" where
  "describe_range label a b =
     (case a of None \<Rightarrow> None | Some x \<Rightarrow>
      (case b of None \<Rightarrow> None | Some y \<Rightarrow> Some (label @ '' between '' @ x @ '' and '' @ y)))"

definition describeCondition :: "JsEnv \<Rightarrow> json \<Rightarrow> string" where
  "describeCondition lg c =
     (let label = condition_label c; op = op_word lg c in
      case jarray (jget c ''values'') of
        Some vs \<Rightarrow> label @ '' '' @ op @ '' '' @ list_values (map (js_String lg) vs)
      | None \<Rightarrow>
     (case jnumber (jget c ''days'') of
        Some d \<Rightarrow> label @ '' in the last '' @ js_numString lg d @ '' days''
      | None \<Rightarrow>
     (case jstring (jget c ''date'') of
        Some d \<Rightarrow> label @ '' '' @ op @ '' '' @ d
      | None \<Rightarrow>
     (case describe_range label (jstring (jget c ''from'')) (jstring (jget c ''to'')) of
        Some t \<Rightarrow> t
      | None \<Rightarrow> describe_value lg label op (jget c ''value'')))))"

fun joiner :: "group_kind \<Rightarrow> string" where
  "joiner All = '' and ''"
| "joiner Any = '' or ''"
| "joiner NoneOf = '' and not ''"

fun is_condition :: "filter_node \<Rightarrow> bool" where
  "is_condition (FilterCondition c) = True"
| "is_condition (FilterGroup k ts) = False"

fun describeTree :: "JsEnv \<Rightarrow> filter_node \<Rightarrow> string" where
  "describeTree lg (FilterCondition c) = describeCondition lg (condition_json c)"
| "describeTree lg (FilterGroup k children) =
     (if children = [] then (if k = Any then ''no one'' else ''everyone'')
      else (let parts = map (\<lambda>t. if is_condition t then describeTree lg t
                                else ''('' @ describeTree lg t @ '')'') children in
            if k = NoneOf then ''not ('' @ join_strings '' or '' parts @ '')''
            else join_strings (joiner k) parts))"

text \<open>A boolean attribute reads the same under \<open>is\<close> and \<open>isNot\<close>, though the two resolve to disjoint sets.\<close>

lemma bool_leaf_presence:
  "\<exists>has. \<forall>p. bool_leaf db tenantId t p = byPresence db tenantId has p"
  by (cases t) auto

text \<open>The plain-English summary of a boolean attribute is the same under "is" and "isNot", although on
  every database the two conditions resolve to disjoint sets of contacts.\<close>

lemma summary_loses_polarity:
  assumes "wf_db db"
  shows "describeTree lg (FilterCondition (BoolCondition t IsNot v)) =
      describeTree lg (FilterCondition (BoolCondition t Is v)) \<and>
    set (bool_leaf db tenantId t (wantsPresent IsNot v)) \<inter> set (bool_leaf db tenantId t (wantsPresent Is v)) = {}"
proof -
  obtain has where "\<forall>p. bool_leaf db tenantId t p = byPresence db tenantId has p"
    using bool_leaf_presence by blast
  moreover have "set (byPresence db tenantId has (\<not> v)) \<inter> set (byPresence db tenantId has v) = {}"
    by (auto simp: byPresence_def in_contact_ids split: if_splits; metis same_contact assms)
  ultimately show ?thesis
    by (simp add: wantsPresent_def describeCondition_def condition_json_def condition_label_def describe_value_def
        describe_range_def)
qed

section \<open>The keyword fallback\<close>

text \<open>\<open>/(\d+)\s*unit/i\<close>: the first run of digits that the unit follows.\<close>

function window_match :: "string \<Rightarrow> string \<Rightarrow> nat option" where
  "window_match unit [] = None"
| "window_match unit (c # cs) =
     (if is_digit c
      then (if starts_with (js_lower (dropWhile js_space (dropWhile is_digit cs))) unit
            then Some (digits_val (c # takeWhile is_digit cs))
            else window_match unit (dropWhile is_digit cs))
      else window_match unit cs)"
  by pat_completeness auto
termination
  by (relation "measure (\<lambda>(u, s). length s)") (auto simp: less_Suc_eq_le length_dropWhile_le)

text \<open>\<open>/this\s+unit/i\<close>\<close>

fun this_unit :: "string \<Rightarrow> string \<Rightarrow> bool" where
  "this_unit unit [] = False"
| "this_unit unit (c # cs) =
     ((starts_with (js_lower (c # cs)) ''this'' \<and>
       (let rest = drop 4 (c # cs) in
        rest \<noteq> [] \<and> js_space (hd rest) \<and> starts_with (js_lower (dropWhile js_space rest)) unit)) \<or>
      this_unit unit cs)"

definition extractWindowDays :: "string \<Rightarrow> nat option" where
  "extractWindowDays prompt =
     (case window_match ''day'' prompt of Some n \<Rightarrow> Some n | None \<Rightarrow>
     (case window_match ''week'' prompt of Some n \<Rightarrow> Some (n * 7) | None \<Rightarrow>
     (case window_match ''month'' prompt of Some n \<Rightarrow> Some (n * 30) | None \<Rightarrow>
      if this_unit ''week'' prompt then Some 7
      else if this_unit ''month'' prompt \<or> str_includes (js_lower prompt) ''active this month'' then Some 30
      else if this_unit ''year'' prompt then Some 365
      else None)))"

text \<open>\<open>(not|n't|without|never|haven't|hasn't)[^.]{0,24}\bkeyword\<close>\<close>

definition NEGATIVES :: "string list" where
  "NEGATIVES = [''not'', ''n't'', ''without'', ''never'', ''haven't'', ''hasn't'']"

fun keyword_within :: "nat \<Rightarrow> char option \<Rightarrow> string \<Rightarrow> string \<Rightarrow> bool" where
  "keyword_within n before keyword [] = False"
| "keyword_within n before keyword (c # s) =
     ((boundary before (Some c) \<and> starts_with (js_lower (c # s)) (js_lower keyword)) \<or>
      (0 < n \<and> c \<noteq> CHR ''.'' \<and> keyword_within (n - 1) (Some c) keyword s))"

fun negated :: "string \<Rightarrow> string \<Rightarrow> bool" where
  "negated keyword [] = False"
| "negated keyword (c # s) =
     (list_ex (\<lambda>n. starts_with (c # s) n \<and>
        keyword_within 24 (Some (last n)) keyword (drop (length n) (c # s))) NEGATIVES \<or>
      negated keyword s)"

definition match_entry :: "string \<Rightarrow> CatalogueEntry \<Rightarrow> string \<Rightarrow> json option" where
  "match_entry prompt entry keyword =
     (let lower = js_lower prompt; field = (''field'', JStr (ce_type entry));
          options = (case ce_options entry of None \<Rightarrow> [] | Some os \<Rightarrow> os) in
      if ce_dataType entry = DEnum \<and> options \<noteq> [] then
        (let values = map fst (filter (\<lambda>(v, lab). str_includes lower (js_lower v) \<or> str_includes lower (js_lower lab)) options) in
         if values = [] then None
         else Some (JObj [field, (''op'', JStr (if negated keyword lower then ''not in'' else ''in'')), (''value'', strs values)]))
      else if ce_dataType entry = DDate then
        Some (JObj [field, (''op'', JStr ''within''),
          (''value'', JNum (of_nat (case extractWindowDays prompt of Some d \<Rightarrow> d | None \<Rightarrow> 90)))])
      else if ce_dataType entry = DBool then
        Some (JObj [field, (''op'', JStr (if negated keyword lower then ''is not'' else ''is'')), (''value'', JBool True)])
      else if ce_dataType entry = DBespoke \<and> ''is'' \<in> set (ce_operators entry) then
        Some (JObj [field, (''op'', JStr (if negated keyword lower then ''is not'' else ''is''))])
      else None)"

fun match_loop :: "string \<Rightarrow> CatalogueEntry list \<Rightarrow> string list \<Rightarrow> json list \<Rightarrow> json list" where
  "match_loop prompt [] claimed conditions = conditions"
| "match_loop prompt (e # es) claimed conditions =
     (if \<not> servable_entry e then match_loop prompt es claimed conditions
      else case find (\<lambda>k. str_includes (js_lower prompt) (js_lower k)) (ce_keywords e) of
             None \<Rightarrow> match_loop prompt es claimed conditions
           | Some keyword \<Rightarrow>
               if ce_type e \<in> set claimed then match_loop prompt es claimed conditions
               else (case match_entry prompt e keyword of
                       None \<Rightarrow> match_loop prompt es claimed conditions
                     | Some c \<Rightarrow> match_loop prompt es (ce_type e # claimed) (conditions @ [c])))"

definition matchKeywords :: "string \<Rightarrow> json" where
  "matchKeywords prompt =
     JObj [(''match'', JStr ''all''), (''conditions'', JArr (match_loop prompt UPRISE_CATALOGUE [] []))]"

definition entry_options :: "CatalogueEntry \<Rightarrow> CatalogueOption list" where
  "entry_options e = (case ce_options e of None \<Rightarrow> [] | Some os \<Rightarrow> os)"

lemma few_options: "\<forall>e\<in>set UPRISE_CATALOGUE. length (entry_options e) \<le> 1000 \<and> ce_type e \<noteq> []"
  by code_simp

lemma match_entry_shape:
  assumes "match_entry prompt e k = Some c"
  shows "\<exists>op rest. c = JObj ((''field'', JStr (ce_type e)) # (''op'', JStr op) # rest) \<and>
    (rest = [] \<or> (\<exists>v. rest = [(''value'', v)] \<and> length (raw_array (Some v)) \<le> max 1 (length (entry_options e))))"
proof -
  define lower where "lower = js_lower prompt"
  define vs where "vs = map fst (filter (\<lambda>(v, lab). str_includes lower (js_lower v) \<or> str_includes lower (js_lower lab))
    (entry_options e))"
  have len: "length (raw_array (Some (strs vs))) \<le> max 1 (length (entry_options e))"
    unfolding vs_def strs_def raw_array_def
    by (simp add: le_max_iff_disj)
  have one: "length (raw_array (Some (JBool True))) \<le> max 1 (length (entry_options e))"
    "length (raw_array (Some (JNum d))) \<le> max 1 (length (entry_options e))" for d
    by (simp_all add: raw_array_def le_max_iff_disj)
  note m = assms [unfolded match_entry_def Let_def, folded lower_def entry_options_def]
  show ?thesis
  proof (cases "ce_dataType e = DEnum \<and> entry_options e \<noteq> []")
    case True
    with m have "c = JObj [(''field'', JStr (ce_type e)),
        (''op'', JStr (if negated k lower then ''not in'' else ''in'')), (''value'', strs vs)]"
      by (simp only: if_True vs_def [symmetric] option.inject split: if_split_asm) simp_all
    with len show ?thesis by blast
  next
    case False
    with m one show ?thesis by (simp only: if_False) (auto simp del: raw_array_def split: if_split_asm)
  qed
qed

lemma match_entry_flat:
  assumes "match_entry prompt e k = Some c" "e \<in> set UPRISE_CATALOGUE"
  shows "flat_kid c \<and> loose_asks c"
proof -
  from assms(2) few_options have e: "ce_type e \<noteq> []" "length (entry_options e) \<le> 1000" by auto
  from match_entry_shape [OF assms(1)] obtain op rest where
    c: "c = JObj ((''field'', JStr (ce_type e)) # (''op'', JStr op) # rest)"
    and rest: "rest = [] \<or> (\<exists>v. rest = [(''value'', v)] \<and> length (raw_array (Some v)) \<le> max 1 (length (entry_options e)))"
    by blast
  from rest e(2) have "length (raw_array (jget c ''value'')) \<le> 1000"
    by (elim disjE exE conjE) (simp_all add: c raw_array_def [of None])
  moreover from rest have "\<not> is_loose_group c" by (auto simp: c is_loose_group_def)
  moreover have "is_ok (loose_entry c)" "loose_asks c"
    using e(1) by (simp_all add: c loose_entry_def loose_asks_def is_object_def)
  ultimately show ?thesis by (simp add: flat_kid_def)
qed

lemma match_loop_step:
  "match_loop prompt (e # es) claimed cs = match_loop prompt es claimed cs \<or>
   (\<exists>k c. match_entry prompt e k = Some c \<and>
      match_loop prompt (e # es) claimed cs = match_loop prompt es (ce_type e # claimed) (cs @ [c]))"
  by (auto split: option.splits)

lemma match_loop_flat:
  assumes "set es \<subseteq> set UPRISE_CATALOGUE" "\<forall>c\<in>set cs. flat_kid c \<and> loose_asks c"
  shows "length (match_loop prompt es claimed cs) \<le> length cs + length es \<and>
    (\<forall>c\<in>set (match_loop prompt es claimed cs). flat_kid c \<and> loose_asks c)"
  using assms
proof (induction es arbitrary: claimed cs)
  case (Cons e es)
  from match_loop_step [of prompt e es claimed cs] show ?case
  proof (elim disjE exE conjE)
    assume "match_loop prompt (e # es) claimed cs = match_loop prompt es claimed cs"
    with Cons.IH [of cs claimed] Cons.prems show ?thesis by (simp del: match_loop.simps)
  next
    fix k c
    assume c: "match_entry prompt e k = Some c"
      and eq: "match_loop prompt (e # es) claimed cs = match_loop prompt es (ce_type e # claimed) (cs @ [c])"
    from match_entry_flat [OF c] Cons.prems have "\<forall>c\<in>set (cs @ [c]). flat_kid c \<and> loose_asks c" by simp
    with Cons.IH [of "cs @ [c]" "ce_type e # claimed"] Cons.prems eq show ?thesis
      by (simp del: match_loop.simps)
  qed
qed simp

text \<open>The keyword fallback composed with the AI boundary never raises: for every prompt it returns a
  filter, and every matched attribute ends as one leaf or one residual clause.\<close>

lemma keyword_fallback_complete:
  assumes "zod_parser sp (\<lambda>s. True)"
  shows "\<exists>r. normaliseAiTree sp lg (matchKeywords prompt) = Inr r \<and>
    length (leaves (nr_tree r)) + length (nr_residual r) = length (match_loop prompt UPRISE_CATALOGUE [] [])"
proof -
  let ?kids = "match_loop prompt UPRISE_CATALOGUE [] []"
  have len: "length UPRISE_CATALOGUE \<le> 99" by code_simp
  from match_loop_flat [of UPRISE_CATALOGUE "[]" prompt "[]"] len
  have k: "length ?kids \<le> 99" "\<forall>c\<in>set ?kids. flat_kid c \<and> loose_asks c" by auto
  have "is_loose_group (matchKeywords prompt)" "loose_kids (matchKeywords prompt) = Inr ?kids"
    by (simp_all add: matchKeywords_def is_loose_group_def loose_kids_def js_or_def)
  moreover have "flat_kids ?kids" "filter loose_asks ?kids = ?kids" using k by (simp_all add: flat_kids_def)
  ultimately show ?thesis using flat_tree_facts [OF assms, of "matchKeywords prompt" ?kids lg] by metis
qed

theorem keyword_fallback_complete_witness:
  "\<exists>r. normaliseAiTree (zparse (\<lambda>s. True)) sample_js (matchKeywords ''Joined in the last 30 days'') = Inr r \<and>
    length (leaves (nr_tree r)) + length (nr_residual r) =
      length (match_loop ''Joined in the last 30 days'' UPRISE_CATALOGUE [] [])"
  by (rule keyword_fallback_complete [OF zod_reference.zod_parser_axioms])

lemma summary_loses_polarity_witness:
  "describeTree sample_js (FilterCondition (BoolCondition ContactHasEmail IsNot True)) =
     describeTree sample_js (FilterCondition (BoolCondition ContactHasEmail Is True)) \<and>
   set (bool_leaf sample_db ''t1'' ContactHasEmail (wantsPresent IsNot True)) \<inter>
     set (bool_leaf sample_db ''t1'' ContactHasEmail (wantsPresent Is True)) = {}"
  by (rule summary_loses_polarity) (simp add: wf_db_def sample_db_def sample_contact_def)

end
