(* ===== verification/Permissions.thy ===== *)
theory Permissions
  imports Js_Values
begin

text \<open>
  Role-based access control, \<^verbatim>\<open>packages/permissions/src/\<close>: the resource roster and rules of
  \<^verbatim>\<open>types.ts\<close>, the role table of \<^verbatim>\<open>roles.ts\<close> and the ability builder of \<^verbatim>\<open>ability.ts\<close>. The
  rule engine is the third-party package CASL: \<open>casl_ability\<close> is its interface, with the
  documented meaning of a rule list as its law. The lemmas give the decision of
  \<open>defineAbilityFor\<close> in closed form, the role hierarchy and the boundaries of each role.
\<close>

section \<open>Rules\<close>

definition STANDARD_ACTIONS :: "string list" where
  "STANDARD_ACTIONS = [''read'', ''create'', ''update'', ''delete'', ''operate'', ''manage'']"

definition UPRISE_RESOURCES :: "string list" where
  "UPRISE_RESOURCES =
     [''tenant.tenant'', ''tenant.network'', ''tenant.member'', ''tenant.invitation'',
      ''tenant.org-profile'', ''tenant.api-keys'', ''tenant.files'', ''tenant.all'', ''iam.user'',
      ''iam.session'', ''iam.profile'', ''iam.all'', ''contacts.contact'', ''contacts.tag'',
      ''audience.audience'', ''audience.segment'', ''audience.import'',
      ''audience.contact-source'', ''audience.all'', ''insights.poll'', ''insights.all'',
      ''civic.politician'', ''civic.policy'', ''civic.all'', ''demographics.indicator'',
      ''demographics.all'', ''messaging.blast'', ''messaging.inbound'', ''messaging.outbound'',
      ''messaging.template'', ''messaging.consent'', ''messaging.conversation'',
      ''messaging.texting'', ''messaging.suppression'', ''messaging.all'', ''canvass.campaign'',
      ''canvass.turf'', ''canvass.walklist'', ''canvass.doorknock'', ''canvass.disposition'',
      ''canvass.script'', ''canvass.survey'', ''canvass.content'', ''canvass.shift'',
      ''canvass.all'', ''events.event'', ''events.calendar'', ''events.all'', ''journey.journey'',
      ''journey.enrolment'', ''journey.all'', ''integration.connection'', ''integration.sync'',
      ''integration.all'', ''geo.division'', ''geo.area'', ''geo.all'', ''analytics.snapshot'',
      ''analytics.vital'', ''analytics.all'', ''compliance.suppression'', ''compliance.all'',
      ''telephony.call'', ''telephony.number'', ''telephony.provisioning'', ''telephony.all'',
      ''autodialer.campaign'', ''autodialer.result'', ''autodialer.all'', ''actions.page'',
      ''actions.all'', ''payment.all'', ''email.provisioning'', ''email.identity'', ''email.all'',
      ''audit.log'', ''system.feature-flags'', ''system.feature-flags-global'',
      ''system.telephony-provisioning'', ''system.email-provisioning'', ''all'']"

record PermissionRule =
  rule_action :: string
  rule_resource :: string
  rule_inverted :: bool
  rule_conditions :: "json option"

datatype ActorType = UserActor | ServiceAccount

record AuthenticatedActor =
  actor_id :: string
  actor_type :: ActorType
  actor_email :: string
  actor_tenantId :: "string option"
  actor_roles :: "string list"
  actorPermissions :: "PermissionRule list option"
  isSuperAdmin :: "bool option"

definition grant :: "string \<Rightarrow> string \<Rightarrow> PermissionRule" where
  "grant a r = \<lparr>rule_action = a, rule_resource = r, rule_inverted = False, rule_conditions = None\<rparr>"

definition deny :: "string \<Rightarrow> string \<Rightarrow> PermissionRule" where
  "deny a r = \<lparr>rule_action = a, rule_resource = r, rule_inverted = True, rule_conditions = None\<rparr>"

section \<open>Roles\<close>

definition UPRISE_ROLES :: "string list" where
  "UPRISE_ROLES = [''super-admin'', ''owner'', ''organiser'', ''volunteer'', ''member'']"

definition APP_USER_ROLE_TO_ROLE :: "(string \<times> string) list" where
  "APP_USER_ROLE_TO_ROLE =
     [(''OWNER'', ''owner''), (''ORGANISER'', ''organiser''), (''VOLUNTEER'', ''volunteer'')]"

definition owner_rules :: "PermissionRule list" where
  "owner_rules =
     [grant ''manage'' ''tenant.all'', grant ''manage'' ''iam.all'',
      grant ''manage'' ''audience.all'', grant ''manage'' ''messaging.all'',
      grant ''manage'' ''telephony.all'', grant ''manage'' ''autodialer.all'',
      grant ''manage'' ''actions.all'', grant ''manage'' ''email.all'',
      grant ''manage'' ''canvass.all'', grant ''manage'' ''events.all'',
      grant ''manage'' ''journey.all'', grant ''manage'' ''integration.all'',
      grant ''manage'' ''geo.all'', grant ''manage'' ''analytics.all'',
      grant ''manage'' ''insights.all'', grant ''manage'' ''civic.all'',
      grant ''manage'' ''demographics.all'', grant ''manage'' ''compliance.all'',
      grant ''manage'' ''contacts.contact'', grant ''manage'' ''contacts.tag'',
      grant ''manage'' ''payment.all'', grant ''read'' ''audit.log'',
      grant ''manage'' ''system.feature-flags'']"

definition organiser_rules :: "PermissionRule list" where
  "organiser_rules =
     [grant ''manage'' ''audience.all'', grant ''manage'' ''messaging.all'',
      grant ''manage'' ''telephony.all'', grant ''manage'' ''autodialer.all'',
      grant ''manage'' ''actions.all'', grant ''manage'' ''email.all'',
      grant ''manage'' ''canvass.all'', grant ''manage'' ''events.all'',
      grant ''manage'' ''journey.all'', grant ''manage'' ''integration.all'',
      grant ''manage'' ''geo.all'', grant ''manage'' ''compliance.all'',
      grant ''manage'' ''insights.all'', grant ''manage'' ''civic.all'',
      grant ''manage'' ''demographics.all'', grant ''manage'' ''contacts.contact'',
      grant ''manage'' ''contacts.tag'', grant ''manage'' ''tenant.member'',
      grant ''manage'' ''tenant.invitation'', grant ''manage'' ''tenant.org-profile'',
      grant ''manage'' ''tenant.files'', grant ''read'' ''tenant.tenant'',
      grant ''read'' ''analytics.all'', grant ''create'' ''analytics.vital'',
      grant ''read'' ''audit.log'', grant ''read'' ''system.feature-flags'']"

definition volunteer_rules :: "PermissionRule list" where
  "volunteer_rules =
     [grant ''read'' ''canvass.turf'', grant ''read'' ''canvass.walklist'',
      grant ''read'' ''canvass.campaign'', grant ''read'' ''canvass.script'',
      grant ''read'' ''canvass.survey'', grant ''manage'' ''canvass.doorknock'',
      grant ''create'' ''canvass.disposition'', grant ''read'' ''canvass.shift'',
      grant ''read'' ''events.event'', grant ''read'' ''events.calendar'',
      grant ''read'' ''contacts.contact'', grant ''read'' ''contacts.tag'',
      grant ''create'' ''analytics.vital'', grant ''manage'' ''messaging.texting'']"

definition member_rules :: "PermissionRule list" where
  "member_rules =
     [grant ''read'' ''tenant.tenant'', grant ''read'' ''tenant.org-profile'',
      grant ''read'' ''audience.all'', grant ''read'' ''messaging.all'',
      grant ''read'' ''telephony.all'', grant ''read'' ''autodialer.all'',
      grant ''read'' ''actions.all'', grant ''read'' ''email.all'', grant ''read'' ''canvass.all'',
      grant ''read'' ''events.all'', grant ''read'' ''analytics.all'',
      grant ''read'' ''insights.all'', grant ''read'' ''civic.all'',
      grant ''read'' ''demographics.all'']"

definition ROLE_PERMISSIONS :: "(string \<times> PermissionRule list) list" where
  "ROLE_PERMISSIONS =
     [(''super-admin'', [grant ''manage'' ''all'']), (''owner'', owner_rules),
      (''organiser'', organiser_rules), (''volunteer'', volunteer_rules), (''member'', member_rules)]"

definition isKnownRole :: "string \<Rightarrow> bool" where
  "isKnownRole role \<longleftrightarrow> role \<in> set UPRISE_ROLES"

definition role_rules :: "string \<Rightarrow> PermissionRule list" where
  "role_rules role =
     (if isKnownRole role
      then (case map_of ROLE_PERMISSIONS role of Some rs \<Rightarrow> rs | None \<Rightarrow> [])
      else [])"

definition resolveRolePermissions :: "string list \<Rightarrow> PermissionRule list" where
  "resolveRolePermissions roles = concat (map role_rules roles)"

section \<open>Wildcards\<close>

text \<open>\<open>indexOf(".")\<close>, and the two slices around it.\<close>

fun dot_index :: "string \<Rightarrow> nat option" where
  "dot_index [] = None"
| "dot_index (c # s) = (if c = CHR ''.'' then Some 0 else map_option Suc (dot_index s))"

definition resource_domain :: "string \<Rightarrow> string option" where
  "resource_domain r =
     (if r = ''all'' then None
      else case dot_index r of
        None \<Rightarrow> None
      | Some dot \<Rightarrow> if drop (dot + 1) r = ''all'' then None else Some (take dot r))"

definition DOMAIN_RESOURCES :: "string \<Rightarrow> string list" where
  "DOMAIN_RESOURCES domain = filter (\<lambda>r. resource_domain r = Some domain) UPRISE_RESOURCES"

definition expandRule :: "PermissionRule \<Rightarrow> PermissionRule list" where
  "expandRule rule =
     (if rule_resource rule = ''all'' then [rule]
      else if \<not> ends_with (rule_resource rule) ''.all'' then [rule]
      else let domain = take (length (rule_resource rule) - 4) (rule_resource rule);
               concretes = DOMAIN_RESOURCES domain in
        if concretes = [] then [rule]
        else rule # map (\<lambda>r. \<lparr>rule_action = rule_action rule, rule_resource = r,
                rule_inverted = rule_inverted rule, rule_conditions = rule_conditions rule\<rparr>) concretes)"

section \<open>The ability\<close>

text \<open>
  The rules handed to the builder, in the order of the \<open>can\<close> and \<open>cannot\<close> calls; \<open>build\<close> is
  the third-party constructor.
\<close>

definition hasSuperAdmin :: "AuthenticatedActor \<Rightarrow> bool" where
  "hasSuperAdmin actor \<longleftrightarrow>
     isSuperAdmin actor = Some True \<or>
     list_ex (\<lambda>r. rule_action r = ''manage'' \<and> rule_resource r = ''all'' \<and> \<not> rule_inverted r)
       (case actorPermissions actor of None \<Rightarrow> [] | Some rs \<Rightarrow> rs)"

definition ability_rules :: "AuthenticatedActor \<Rightarrow> PermissionRule list" where
  "ability_rules actor =
     (if hasSuperAdmin actor then [grant ''manage'' ''all'']
      else
        map (\<lambda>r. r\<lparr>rule_inverted := False\<rparr>)
          (concat (map expandRule (resolveRolePermissions (actor_roles actor)))) @
        concat (map expandRule (case actorPermissions actor of None \<Rightarrow> [] | Some rs \<Rightarrow> rs)))"

definition defineAbilityFor :: "(PermissionRule list \<Rightarrow> 'ability) \<Rightarrow> AuthenticatedActor \<Rightarrow> 'ability" where
  "defineAbilityFor build actor = build (ability_rules actor)"

text \<open>
  The documented decision of CASL for a subject type: the last rule whose action is the asked
  one or \<open>manage\<close> and whose subject is the asked one or \<open>all\<close> decides; an inverted rule with
  conditions does not apply to a type; no rule means no.
\<close>

definition rule_applies :: "string \<Rightarrow> string \<Rightarrow> PermissionRule \<Rightarrow> bool" where
  "rule_applies a r rule \<longleftrightarrow>
     (rule_action rule = ''manage'' \<or> rule_action rule = a) \<and>
     (rule_resource rule = ''all'' \<or> rule_resource rule = r) \<and>
     (rule_conditions rule = None \<or> \<not> rule_inverted rule)"

definition last_rule_decides :: "PermissionRule list \<Rightarrow> string \<Rightarrow> string \<Rightarrow> bool" where
  "last_rule_decides rules a r =
     (case find (rule_applies a r) (rev rules) of None \<Rightarrow> False | Some rule \<Rightarrow> \<not> rule_inverted rule)"

locale casl_ability =
  fixes build :: "PermissionRule list \<Rightarrow> 'ability" and can :: "'ability \<Rightarrow> string \<Rightarrow> string \<Rightarrow> bool"
  assumes can_build: "can (build rules) a r \<longleftrightarrow> last_rule_decides rules a r"
begin

lemma can_ability: "can (defineAbilityFor build actor) a r \<longleftrightarrow> last_rule_decides (ability_rules actor) a r"
  by (simp add: defineAbilityFor_def can_build)

end

interpretation casl_reference: casl_ability "\<lambda>rules. rules" last_rule_decides
  by unfold_locales (rule refl)

section \<open>The decision in closed form\<close>

lemma last_rule_positive:
  assumes "\<forall>rule\<in>set rules. \<not> rule_inverted rule"
  shows "last_rule_decides rules a r \<longleftrightarrow> (\<exists>rule\<in>set rules. rule_applies a r rule)"
proof (cases "find (rule_applies a r) (rev rules)")
  case None
  then have "\<forall>x\<in>set rules. \<not> rule_applies a r x" by (simp add: find_None_all)
  with None show ?thesis by (auto simp: last_rule_decides_def)
next
  case (Some rule)
  then show ?thesis using assms find_Some_in [OF Some] by (auto simp: last_rule_decides_def)
qed

lemma last_rule_append:
  "last_rule_decides (xs @ ys) a r \<longleftrightarrow>
     (if \<exists>rule\<in>set ys. rule_applies a r rule then last_rule_decides ys a r else last_rule_decides xs a r)"
proof -
  have *: "find P (us @ vs) = (case find P us of None \<Rightarrow> find P vs | Some x \<Rightarrow> Some x)" for P and us vs :: "'a list"
    by (induction us) auto
  show ?thesis
    by (auto simp: last_rule_decides_def * find_None_all dest: find_Some_in split: option.splits)
qed

text \<open>What a rule grants: the wildcard itself and the concrete resources of its domain.\<close>

definition covers :: "PermissionRule \<Rightarrow> string \<Rightarrow> bool" where
  "covers rule r \<longleftrightarrow>
     rule_resource rule = ''all'' \<or> rule_resource rule = r \<or>
     (ends_with (rule_resource rule) ''.all'' \<and>
      r \<in> set (DOMAIN_RESOURCES (take (length (rule_resource rule) - 4) (rule_resource rule))))"

definition allows :: "PermissionRule \<Rightarrow> string \<Rightarrow> string \<Rightarrow> bool" where
  "allows rule a r \<longleftrightarrow> (rule_action rule = ''manage'' \<or> rule_action rule = a) \<and> covers rule r"

lemma all_not_concrete: "''all'' \<notin> set (DOMAIN_RESOURCES d)"
  by (auto simp: DOMAIN_RESOURCES_def resource_domain_def)

lemma expandRule_applies:
  "(\<exists>x\<in>set (expandRule rule). rule_applies a r (x\<lparr>rule_inverted := False\<rparr>)) \<longleftrightarrow> allows rule a r"
proof -
  have "\<not> ends_with ''all'' ''.all''" by (simp add: ends_with_def)
  then show ?thesis
    using all_not_concrete [of "take (length (rule_resource rule) - 4) (rule_resource rule)"]
    by (auto simp: expandRule_def Let_def rule_applies_def allows_def covers_def)
qed

lemma expandRule_inverted: "x \<in> set (expandRule rule) \<Longrightarrow> rule_inverted x = rule_inverted rule"
  by (auto simp: expandRule_def Let_def split: if_splits)

definition no_overrides :: "AuthenticatedActor \<Rightarrow> bool" where
  "no_overrides actor \<longleftrightarrow> actorPermissions actor \<in> {None, Some []} \<and> isSuperAdmin actor \<noteq> Some True"

definition role_allows :: "string list \<Rightarrow> string \<Rightarrow> string \<Rightarrow> bool" where
  "role_allows roles a r \<longleftrightarrow> (\<exists>rule\<in>set (resolveRolePermissions roles). allows rule a r)"

lemma role_rules_decide:
  "last_rule_decides (map (\<lambda>r. r\<lparr>rule_inverted := False\<rparr>)
     (concat (map expandRule (resolveRolePermissions roles)))) a r \<longleftrightarrow> role_allows roles a r"
  by (subst last_rule_positive) (auto simp: role_allows_def expandRule_applies [symmetric])

text \<open>Without personal overrides, an actor may do exactly what one of the actor's roles grants, however the
  rules are ordered.\<close>

lemma plain_actor_decides:
  "no_overrides actor \<Longrightarrow>
   last_rule_decides (ability_rules actor) a r \<longleftrightarrow> role_allows (actor_roles actor) a r"
  by (auto simp: no_overrides_def ability_rules_def hasSuperAdmin_def role_rules_decide)

lemma super_admin_decides: "hasSuperAdmin actor \<Longrightarrow> last_rule_decides (ability_rules actor) a r"
  by (simp add: ability_rules_def last_rule_decides_def rule_applies_def grant_def)

text \<open>A denial at the end of an actor's own permissions wins over every role rule, unless the actor is a
  super-admin.\<close>

lemma revoked_decides:
  assumes "\<not> hasSuperAdmin actor" "actorPermissions actor = Some (rs @ [deny a x])"
    "allows (deny a x) a r"
  shows "\<not> last_rule_decides (ability_rules actor) a r"
proof -
  have inv: "\<forall>y\<in>set (expandRule (deny a x)). rule_inverted y"
    using expandRule_inverted by (auto simp: deny_def)
  have cond: "\<forall>y\<in>set (expandRule (deny a x)). rule_conditions y = None"
    by (auto simp: expandRule_def Let_def deny_def split: if_splits)
  obtain y where y: "y \<in> set (expandRule (deny a x))" "rule_applies a r (y\<lparr>rule_inverted := False\<rparr>)"
    using assms(3) expandRule_applies [of "deny a x" a r] by blast
  with cond have app: "\<exists>y\<in>set (expandRule (deny a x)). rule_applies a r y"
    by (auto simp: rule_applies_def)
  have "\<not> last_rule_decides (expandRule (deny a x)) a r"
    using inv by (auto simp: last_rule_decides_def dest!: find_Some_in split: option.splits)
  then show ?thesis
    using assms(1,2) app by (simp add: ability_rules_def last_rule_append flip: append_assoc)
qed

section \<open>Role boundaries\<close>

lemma role_allows_single: "role_allows [role] a r \<longleftrightarrow> (\<exists>rule\<in>set (role_rules role). allows rule a r)"
  by (simp add: role_allows_def resolveRolePermissions_def)

lemma unknown_role: "\<not> isKnownRole role \<Longrightarrow> \<not> role_allows [role] a r"
  by (simp add: role_allows_single role_rules_def)

lemma role_allows_roles: "role_allows roles a r \<longleftrightarrow> (\<exists>role\<in>set roles. role_allows [role] a r)"
  by (auto simp: role_allows_def resolveRolePermissions_def)

lemma role_rules_table [simp]:
  "role_rules ''super-admin'' = [grant ''manage'' ''all'']"
  "role_rules ''owner'' = owner_rules" "role_rules ''organiser'' = organiser_rules"
  "role_rules ''volunteer'' = volunteer_rules" "role_rules ''member'' = member_rules"
  by (simp_all add: role_rules_def isKnownRole_def UPRISE_ROLES_def ROLE_PERMISSIONS_def)

text \<open>Every rule of the first list is implied by one of the second.\<close>

definition subsumes :: "PermissionRule \<Rightarrow> PermissionRule \<Rightarrow> bool" where
  "subsumes big small \<longleftrightarrow>
     (rule_action big = ''manage'' \<or> rule_action big = rule_action small \<and> rule_action small \<noteq> ''manage'') \<and>
     (rule_resource big = rule_resource small \<or> covers big (rule_resource small) \<and>
        \<not> ends_with (rule_resource small) ''.all'' \<and> rule_resource small \<noteq> ''all'')"

lemma subsumes_allows: "subsumes big small \<Longrightarrow> allows small a r \<Longrightarrow> allows big a r"
  by (auto simp: subsumes_def allows_def covers_def)

definition all_subsumed :: "PermissionRule list \<Rightarrow> PermissionRule list \<Rightarrow> bool" where
  "all_subsumed small big \<longleftrightarrow> list_all (\<lambda>s. list_ex (\<lambda>b. subsumes b s) big) small"

lemma all_subsumed_allows:
  "all_subsumed small big \<Longrightarrow> rule \<in> set small \<Longrightarrow> allows rule a r \<Longrightarrow> \<exists>rule\<in>set big. allows rule a r"
  by (auto simp: all_subsumed_def list_all_iff list_ex_iff dest: subsumes_allows)

lemma covers_code:
  "covers (grant a x) r \<longleftrightarrow>
     x = ''all'' \<or> x = r \<or> (ends_with x ''.all'' \<and> r \<in> set (DOMAIN_RESOURCES (take (length x - 4) x)))"
  by (simp add: covers_def grant_def)

definition same_resource :: "PermissionRule list \<Rightarrow> PermissionRule \<Rightarrow> bool" where
  "same_resource big s \<longleftrightarrow>
     list_ex (\<lambda>b. rule_resource b = rule_resource s \<and>
       (rule_action b = ''manage'' \<or> rule_action b = rule_action s \<and> rule_action s \<noteq> ''manage'')) big"

definition in_domain :: "PermissionRule list \<Rightarrow> string \<Rightarrow> PermissionRule \<Rightarrow> bool" where
  "in_domain big d s \<longleftrightarrow>
     list_ex (\<lambda>b. rule_resource b = d @ ''.all'' \<and> rule_action b = ''manage'') big \<and>
     rule_resource s \<in> set (DOMAIN_RESOURCES d) \<and> \<not> ends_with (rule_resource s) ''.all''"

lemma in_domain_subsumes:
  assumes "in_domain big d s"
  shows "list_ex (\<lambda>b. subsumes b s) big"
proof -
  from assms obtain b where b: "b \<in> set big" "rule_resource b = d @ ''.all''" "rule_action b = ''manage''"
    by (auto simp: in_domain_def list_ex_iff)
  with assms have "subsumes b s"
    by (auto simp: in_domain_def subsumes_def covers_def ends_with_def all_not_concrete)
  with b(1) show ?thesis by (auto simp: list_ex_iff)
qed

lemma same_resource_subsumes: "same_resource big s \<Longrightarrow> list_ex (\<lambda>b. subsumes b s) big"
  by (auto simp: same_resource_def subsumes_def list_ex_iff)

lemma all_subsumedI:
  assumes "list_all (\<lambda>s. case map_of table (rule_resource s) of
      None \<Rightarrow> same_resource big s | Some d \<Rightarrow> in_domain big d s) small"
  shows "all_subsumed small big"
  using assms in_domain_subsumes same_resource_subsumes
  by (fastforce simp: all_subsumed_def list_all_iff split: option.splits)

lemma domain_tables:
  "DOMAIN_RESOURCES ''tenant'' = map (\<lambda>e. ''tenant.'' @ e)
     [''tenant'', ''network'', ''member'', ''invitation'', ''org-profile'', ''api-keys'', ''files'']"
  "DOMAIN_RESOURCES ''canvass'' = map (\<lambda>e. ''canvass.'' @ e)
     [''campaign'', ''turf'', ''walklist'', ''doorknock'', ''disposition'', ''script'', ''survey'', ''content'', ''shift'']"
  "DOMAIN_RESOURCES ''messaging'' = map (\<lambda>e. ''messaging.'' @ e)
     [''blast'', ''inbound'', ''outbound'', ''template'', ''consent'', ''conversation'', ''texting'', ''suppression'']"
  "DOMAIN_RESOURCES ''events'' = map (\<lambda>e. ''events.'' @ e) [''event'', ''calendar'']"
  by (simp_all add: DOMAIN_RESOURCES_def UPRISE_RESOURCES_def resource_domain_def)


lemmas subsumption_eval =
  same_resource_def in_domain_def grant_def owner_rules_def organiser_rules_def volunteer_rules_def
  member_rules_def ends_with_def domain_tables

lemma organiser_within_owner: "all_subsumed organiser_rules owner_rules"
  by (rule all_subsumedI [where table =
        "map (\<lambda>r. (''tenant.'' @ r, ''tenant'')) [''member'', ''invitation'', ''org-profile'', ''files'', ''tenant''] @
         [(''analytics.vital'', ''analytics'')]"])
    (simp add: subsumption_eval, simp add: DOMAIN_RESOURCES_def UPRISE_RESOURCES_def resource_domain_def)

lemma volunteer_within_organiser: "all_subsumed volunteer_rules organiser_rules"
  by (rule all_subsumedI [where table =
        "map (\<lambda>r. (''canvass.'' @ r, ''canvass''))
           [''turf'', ''walklist'', ''campaign'', ''script'', ''survey'', ''doorknock'', ''disposition'', ''shift''] @
         map (\<lambda>r. (''events.'' @ r, ''events'')) [''event'', ''calendar''] @
         [(''messaging.texting'', ''messaging'')]"])
    (simp add: subsumption_eval)

lemma member_within_organiser: "all_subsumed member_rules organiser_rules"
  by (rule all_subsumedI [where table = "[]"]) (simp add: subsumption_eval)

lemma role_hierarchy_facts:
  "role_allows [''volunteer''] a r \<Longrightarrow> role_allows [''organiser''] a r"
  "role_allows [''member''] a r \<Longrightarrow> role_allows [''organiser''] a r"
  "role_allows [''organiser''] a r \<Longrightarrow> role_allows [''owner''] a r"
  using all_subsumed_allows [OF volunteer_within_organiser]
    all_subsumed_allows [OF member_within_organiser] all_subsumed_allows [OF organiser_within_owner]
  by (auto simp: role_allows_single)

text \<open>C25: The roles are ordered: an organiser may do whatever a volunteer or a member may, an owner whatever
  an organiser may.\<close>

theorem role_hierarchy:
  "{(a, r). role_allows [''volunteer''] a r} \<union> {(a, r). role_allows [''member''] a r} \<subseteq>
     {(a, r). role_allows [''organiser''] a r} \<and>
   {(a, r). role_allows [''organiser''] a r} \<subseteq> {(a, r). role_allows [''owner''] a r}"
  using role_hierarchy_facts by auto

text \<open>The resources a rule list can reach at all.\<close>

definition reaches :: "PermissionRule list \<Rightarrow> string \<Rightarrow> bool" where
  "reaches rules r \<longleftrightarrow> list_ex (\<lambda>rule. covers rule r) rules"

lemma unreachable_denied: "\<not> reaches (role_rules role) r \<Longrightarrow> \<not> role_allows [role] a r"
  by (auto simp: reaches_def role_allows_single allows_def list_ex_iff)

definition sample_actor :: AuthenticatedActor where
  "sample_actor = \<lparr>actor_id = ''u1'', actor_type = UserActor, actor_email = [], actor_tenantId = Some ''t1'',
     actor_roles = [''organiser''], actorPermissions = None, isSuperAdmin = None\<rparr>"

theorem revoked_decides_witness:
  "\<not> last_rule_decides (ability_rules (sample_actor\<lparr>actorPermissions := Some [deny ''delete'' ''audience.contact'']\<rparr>))
     ''delete'' ''audience.contact''"
  by (rule revoked_decides [of _ "[]" "''delete''" "''audience.contact''"])
    (simp_all add: hasSuperAdmin_def sample_actor_def deny_def allows_def covers_def)

theorem plain_actor_decides_witness:
  "last_rule_decides (ability_rules sample_actor) ''read'' ''canvass.walklist'' =
   role_allows [''organiser''] ''read'' ''canvass.walklist''"
  using plain_actor_decides [of sample_actor "''read''" "''canvass.walklist''"]
  by (simp add: no_overrides_def sample_actor_def)

end
