(* ===== verification/Flags_Catalogue.thy ===== *)
theory Flags_Catalogue
  imports Js_Values
begin

text \<open>
  The feature-flag catalogue, \<^verbatim>\<open>packages/flags/src/index.ts\<close> and \<^verbatim>\<open>nav.ts\<close>: each flag with its
  default, its kind and the layers that may set it. Descriptions, labels and sections are
  display text and are not kept. A key lookup by JavaScript's \<open>in\<close> also finds the properties an
  object inherits, which \<open>OBJECT_PROTOTYPE_KEYS\<close> lists.
\<close>

datatype FlagKind = Release | Ops | Experiment | Navigation
datatype FlagLayer = EnvLayer | TenantLayer | NetworkLayer | PlanLayer | GlobalLayer

record FlagDef =
  flag_key :: string
  flag_default :: bool
  flag_kind :: FlagKind
  controllableBy :: "FlagLayer list"
  envVar :: string

definition RELEASE :: "FlagLayer list" where
  "RELEASE = [EnvLayer, TenantLayer, PlanLayer, GlobalLayer]"

definition PLAN_DRIVEN :: "FlagLayer list" where
  "PLAN_DRIVEN = [TenantLayer, PlanLayer, GlobalLayer]"

definition GLOBAL_ONLY :: "FlagLayer list" where
  "GLOBAL_ONLY = [GlobalLayer]"

text \<open>Every catalogue entry's environment variable is its key.\<close>

definition flag :: "string \<Rightarrow> bool \<Rightarrow> FlagKind \<Rightarrow> FlagLayer list \<Rightarrow> FlagDef" where
  "flag key d kind layers =
     \<lparr>flag_key = key, flag_default = d, flag_kind = kind, controllableBy = layers, envVar = key\<rparr>"

definition CORE_FLAGS :: "FlagDef list" where
  "CORE_FLAGS =
     [flag ''FEATURE_REALTIME_ENABLED'' True Ops GLOBAL_ONLY,
      flag ''FEATURE_AI_ASSIST_ENABLED'' True Release PLAN_DRIVEN,
      flag ''FEATURE_BLAST_SCHEDULER_ENABLED'' True Release PLAN_DRIVEN,
      flag ''FEATURE_SEGMENTS_ENABLED'' True Release RELEASE,
      flag ''FEATURE_JOURNEYS_ENABLED'' False Release RELEASE,
      flag ''FEATURE_WHATSAPP_ENABLED'' False Release PLAN_DRIVEN,
      flag ''FEATURE_TENANT_EMAIL_ENABLED'' False Release PLAN_DRIVEN,
      flag ''FEATURE_OWN_CHANNELS_SETUP'' True Release PLAN_DRIVEN,
      flag ''FEATURE_FIELD_TEXTING'' True Release PLAN_DRIVEN,
      flag ''FEATURE_TENANT_TELEPHONY_ENABLED'' False Release PLAN_DRIVEN,
      flag ''FEATURE_MULTIBRAND_ENABLED'' False Release PLAN_DRIVEN,
      flag ''FEATURE_AUTODIALER_ENABLED'' False Release PLAN_DRIVEN,
      flag ''FEATURE_ACTIONS_CALLS'' False Release PLAN_DRIVEN,
      flag ''FEATURE_BULLMQ_UPLOAD_ENABLED'' False Ops GLOBAL_ONLY,
      flag ''FEATURE_NB_PUSH_ENABLED'' False Ops GLOBAL_ONLY,
      flag ''FEATURE_BULLMQ_BLAST_ENABLED'' False Ops GLOBAL_ONLY,
      flag ''BLAST_DRY_RUN'' False Ops GLOBAL_ONLY,
      flag ''FEATURE_STATUS_ALERT_EMAILS_ENABLED'' True Ops GLOBAL_ONLY]"

definition NAV_FLAGS :: "(string \<times> nat) list" where
  "NAV_FLAGS =
     [(''FEATURE_NAV_GETTING_STARTED'', 1),
      (''FEATURE_NAV_INBOX'', 1),
      (''FEATURE_NAV_CHANNELS'', 1),
      (''FEATURE_NAV_CANVASS'', 1),
      (''FEATURE_NAV_CALENDAR'', 1),
      (''FEATURE_NAV_EVENTS'', 1),
      (''FEATURE_NAV_ANALYTICS'', 1),
      (''FEATURE_NAV_ENGAGEMENT'', 1),
      (''FEATURE_NAV_AUTODIALER'', 1),
      (''FEATURE_NAV_ACTIONS'', 1),
      (''FEATURE_NAV_INSIGHTS'', 1),
      (''FEATURE_NAV_COMPLIANCE'', 1),
      (''FEATURE_NAV_PROG'', 1),
      (''FEATURE_NAV_CHANNELS_TEXT'', 2),
      (''FEATURE_NAV_CANVASS_CAMPAIGNS'', 2),
      (''FEATURE_NAV_CANVASS_TURF'', 2),
      (''FEATURE_NAV_CANVASS_WALKLISTS'', 2),
      (''FEATURE_NAV_CANVASS_LIVE'', 2),
      (''FEATURE_NAV_CANVASS_DIVISIONS'', 2),
      (''FEATURE_NAV_CANVASS_AREAS'', 2),
      (''FEATURE_NAV_CANVASS_ADDRESSES'', 2),
      (''FEATURE_NAV_CANVASS_DEMOGRAPHICS'', 2),
      (''FEATURE_NAV_CANVASS_RESULTS'', 2),
      (''FEATURE_NAV_ENGAGEMENT_AUDIENCE'', 2),
      (''FEATURE_NAV_ENGAGEMENT_AUDIENCE_SYNC'', 2),
      (''FEATURE_NAV_ENGAGEMENT_SURVEYS'', 2),
      (''FEATURE_NAV_ENGAGEMENT_SCRIPTS'', 2),
      (''FEATURE_NAV_ENGAGEMENT_DISPOSITIONS'', 2),
      (''FEATURE_NAV_ENGAGEMENT_CANNED'', 2),
      (''FEATURE_NAV_PROG_CALENDAR'', 2),
      (''FEATURE_NAV_PROG_CHANNELS'', 2),
      (''FEATURE_NAV_PROG_ORGANISING'', 2),
      (''FEATURE_NAV_PROG_TASKS'', 2),
      (''FEATURE_NAV_PROG_BUSINESS'', 2),
      (''FEATURE_NAV_PROG_WORKSPACE'', 2),
      (''FEATURE_NAV_PROG_DATA'', 2),
      (''FEATURE_NAV_PROG_DEVHUB'', 2)]"

definition NAV_FLAG_DEFS :: "FlagDef list" where
  "NAV_FLAG_DEFS = map (\<lambda>n. flag (fst n) True Navigation PLAN_DRIVEN) NAV_FLAGS"

definition FLAGS :: "FlagDef list" where
  "FLAGS = CORE_FLAGS @ NAV_FLAG_DEFS"

definition FEATURE_FLAG_KEYS :: "string list" where
  "FEATURE_FLAG_KEYS = map flag_key FLAGS"

definition FLAG_META :: "string \<Rightarrow> FlagDef option" where
  "FLAG_META key = find (\<lambda>f. flag_key f = key) FLAGS"

definition OBJECT_PROTOTYPE_KEYS :: "string list" where
  "OBJECT_PROTOTYPE_KEYS =
     [''constructor'', ''__defineGetter__'', ''__defineSetter__'', ''hasOwnProperty'',
      ''__lookupGetter__'', ''__lookupSetter__'', ''isPrototypeOf'', ''propertyIsEnumerable'',
      ''toString'', ''valueOf'', ''__proto__'', ''toLocaleString'']"

definition isFeatureFlagKey :: "string \<Rightarrow> bool" where
  "isFeatureFlagKey key \<longleftrightarrow> key \<in> set FEATURE_FLAG_KEYS \<or> key \<in> set OBJECT_PROTOTYPE_KEYS"

definition flagControllableBy :: "string \<Rightarrow> FlagLayer \<Rightarrow> bool" where
  "flagControllableBy key layer \<longleftrightarrow>
     (case FLAG_META key of None \<Rightarrow> False | Some f \<Rightarrow> layer \<in> set (controllableBy f))"

section \<open>The catalogue is well formed\<close>

lemma flag_fields [simp]:
  "flag_key (flag k d kd l) = k" "flag_default (flag k d kd l) = d" "flag_kind (flag k d kd l) = kd"
  "controllableBy (flag k d kd l) = l" "envVar (flag k d kd l) = k"
  by (simp_all add: flag_def)

lemma FLAG_META_iff: "(\<exists>f. FLAG_META key = Some f) \<longleftrightarrow> key \<in> set FEATURE_FLAG_KEYS"
  unfolding FLAG_META_def FEATURE_FLAG_KEYS_def
  by (metis (mono_tags, lifting) find_None_all find_Some_in image_iff list.set_map not_None_eq)

lemma FLAG_META_key: "FLAG_META key = Some f \<Longrightarrow> flag_key f = key \<and> f \<in> set FLAGS"
  by (auto simp: FLAG_META_def dest: find_Some_in)

lemma flag_kinds:
  "f \<in> set FLAGS \<Longrightarrow>
     (controllableBy f = GLOBAL_ONLY \<longleftrightarrow> flag_kind f = Ops) \<and>
     controllableBy f \<in> {RELEASE, PLAN_DRIVEN, GLOBAL_ONLY} \<and>
     (flag_kind f = Navigation \<longrightarrow> flag_default f) \<and> NetworkLayer \<notin> set (controllableBy f)"
  by (auto simp: FLAGS_def CORE_FLAGS_def NAV_FLAG_DEFS_def RELEASE_def PLAN_DRIVEN_def GLOBAL_ONLY_def)

lemma distinct_flag_keys: "distinct FEATURE_FLAG_KEYS"
  by (simp add: FEATURE_FLAG_KEYS_def FLAGS_def CORE_FLAGS_def NAV_FLAG_DEFS_def NAV_FLAGS_def)

end
