(* ===== verification/Flags_Service.thy ===== *)
theory Flags_Service
  imports Flags_Catalogue
begin

text \<open>
  Plans, entitlements and limits: \<^verbatim>\<open>apps/api/src/common/flags/feature-flags.service.ts\<close>,
  \<^verbatim>\<open>plan-limits.service.ts\<close> and \<^verbatim>\<open>plans.service.ts\<close>. \<open>FlagStore\<close> holds the tables they read and
  write and the resolver's in-memory cache. The environment (\<open>process.env\<close>) and the clock are
  arguments. The lemmas cover the precedence chain, the isolation of tenants, read-your-write
  through the cache, the agreement of entitlements and limits on the plan they use, the seat guard
  and the single default plan.
\<close>

section \<open>The tables\<close>

record PlanRow =
  pl_id :: string
  pl_key :: string
  pl_displayName :: string
  pl_featureFlags :: json
  pl_isDefault :: bool
  pl_archivedAt :: "nat option"
  pl_publiclyVisible :: bool
  pl_order :: int
  pl_popular :: bool
  pl_description :: "string option"
  pl_priceMonthly :: "int option"
  pl_priceMonthlyOriginal :: "int option"
  pl_priceAnnually :: "int option"
  pl_priceAnnuallyOriginal :: "int option"
  pl_limits :: "json option"
  pl_features :: "json option"
  pl_createdAt :: nat

record OverrideRow =
  ov_tenantId :: "string option"
  ov_networkId :: "string option"
  ov_flagKey :: string
  ov_enabled :: bool

record FlagEvent =
  fe_tenantId :: string
  fe_aggregateId :: string
  fe_enabled :: "bool option"

type_synonym FeatureFlagMap = "(string, bool) table"

record FlagStore =
  fs_tenants :: "(string, string option) table"
  fs_networks :: "(string, string option) table"
  fs_plans :: "PlanRow list"
  fs_overrides :: "OverrideRow list"
  fs_members :: "(string \<times> string) list"
  fs_contacts :: "(string \<times> string) list"
  fs_events :: "FlagEvent list"
  fs_cache :: "(string, FeatureFlagMap \<times> nat) table"

type_synonym process_env = "string \<Rightarrow> string option"

section \<open>The default plan\<close>

definition defaultPlan :: "FlagStore \<Rightarrow> PlanRow option" where
  "defaultPlan st =
     (case sort_key pl_order (filter (\<lambda>p. pl_isDefault p \<and> pl_archivedAt p = None) (fs_plans st)) of
        [] \<Rightarrow> None | p # ps \<Rightarrow> Some p)"

definition find_plan :: "FlagStore \<Rightarrow> string \<Rightarrow> PlanRow option" where
  "find_plan st key = find (\<lambda>p. pl_key p = key) (fs_plans st)"

text \<open>\<open>named && !named.archivedAt ? named : findFirst(default)\<close>\<close>

definition effective_plan :: "FlagStore \<Rightarrow> string option \<Rightarrow> PlanRow option" where
  "effective_plan st planName =
     (let named = (if truthy planName then find_plan st (the planName) else None) in
      case named of
        Some p \<Rightarrow> if pl_archivedAt p = None then Some p else defaultPlan st
      | None \<Rightarrow> defaultPlan st)"

section \<open>Flag resolution\<close>

record Overrides =
  ovs_tenant :: FeatureFlagMap
  ovs_network :: FeatureFlagMap
  ovs_plan :: FeatureFlagMap
  ovs_global :: FeatureFlagMap

record FlagTarget =
  target_tenantId :: "string option"
  target_networkId :: "string option"

definition CACHE_TTL_MS :: nat where "CACHE_TTL_MS = 30000"

definition envValue :: "process_env \<Rightarrow> FlagDef \<Rightarrow> bool option" where
  "envValue env meta =
     (case env (envVar meta) of
        None \<Rightarrow> None
      | Some raw \<Rightarrow>
          if js_trim raw = [] then None
          else let v = js_lower (js_trim raw) in
            Some (v \<in> {''1'', ''true'', ''yes'', ''on''}))"

definition envOrDefault :: "process_env \<Rightarrow> FlagDef \<Rightarrow> bool" where
  "envOrDefault env meta = (case envValue env meta of Some b \<Rightarrow> b | None \<Rightarrow> flag_default meta)"

fun js_entries :: "json \<Rightarrow> (string \<times> json) list" where
  "js_entries (JObj kvs) = kvs"
| "js_entries (JArr xs) = zip (map nat_to_string [0..<length xs]) xs"
| "js_entries j = []"

definition loadPlanEntitlements :: "FlagStore \<Rightarrow> string option \<Rightarrow> FeatureFlagMap" where
  "loadPlanEntitlements st planName =
     (case effective_plan st planName of
        None \<Rightarrow> []
      | Some plan \<Rightarrow>
          if is_object (pl_featureFlags plan)
          then fold (\<lambda>(k, v) m. case v of JBool b \<Rightarrow> tset k b m | _ \<Rightarrow> m) (js_entries (pl_featureFlags plan)) []
          else [])"

definition tenant_network :: "FlagStore \<Rightarrow> string \<Rightarrow> string option" where
  "tenant_network st tenantId = (case tget (fs_tenants st) tenantId of Some n \<Rightarrow> n | None \<Rightarrow> None)"

definition network_plan :: "FlagStore \<Rightarrow> string \<Rightarrow> string option" where
  "network_plan st networkId = (case tget (fs_networks st) networkId of Some p \<Rightarrow> p | None \<Rightarrow> None)"

text \<open>The three maps the loop over the override rows fills.\<close>

definition scope_rows :: "(OverrideRow \<Rightarrow> bool) \<Rightarrow> OverrideRow list \<Rightarrow> FeatureFlagMap" where
  "scope_rows P rows = fold (\<lambda>r m. if P r then tset (ov_flagKey r) (ov_enabled r) m else m) rows []"

definition loadOverrides :: "FlagStore \<Rightarrow> FlagTarget \<Rightarrow> Overrides" where
  "loadOverrides st target =
     (let tenantId = target_tenantId target;
          networkId = (if truthy tenantId then tenant_network st (the tenantId)
                       else target_networkId target);
          planName = (if truthy networkId then network_plan st (the networkId) else None);
          rows = filter (\<lambda>r. (ov_tenantId r = None \<and> ov_networkId r = None) \<or>
                             (truthy tenantId \<and> ov_tenantId r = tenantId) \<or>
                             (truthy networkId \<and> ov_networkId r = networkId)) (fs_overrides st) in
      \<lparr>ovs_tenant = scope_rows (\<lambda>r. truthy (ov_tenantId r)) rows,
       ovs_network = scope_rows (\<lambda>r. \<not> truthy (ov_tenantId r) \<and> truthy (ov_networkId r)) rows,
       ovs_plan = loadPlanEntitlements st planName,
       ovs_global = scope_rows (\<lambda>r. \<not> truthy (ov_tenantId r) \<and> \<not> truthy (ov_networkId r)) rows\<rparr>)"

definition resolveOne :: "process_env \<Rightarrow> FlagDef \<Rightarrow> Overrides \<Rightarrow> bool \<times> FlagLayer option" where
  "resolveOne env meta ovs =
     (let layers = controllableBy meta; key = flag_key meta in
      case (if EnvLayer \<in> set layers then envValue env meta else None) of
        Some b \<Rightarrow> (b, Some EnvLayer)
      | None \<Rightarrow>
      (case (if TenantLayer \<in> set layers then tget (ovs_tenant ovs) key else None) of
        Some b \<Rightarrow> (b, Some TenantLayer)
      | None \<Rightarrow>
      (case (if TenantLayer \<in> set layers \<or> PlanLayer \<in> set layers then tget (ovs_network ovs) key else None) of
        Some b \<Rightarrow> (b, Some NetworkLayer)
      | None \<Rightarrow>
      (case (if PlanLayer \<in> set layers then tget (ovs_plan ovs) key else None) of
        Some b \<Rightarrow> (b, Some PlanLayer)
      | None \<Rightarrow>
      (case (if GlobalLayer \<in> set layers then tget (ovs_global ovs) key else None) of
        Some b \<Rightarrow> (b, Some GlobalLayer)
      | None \<Rightarrow> (flag_default meta, None))))))"

definition resolve_map :: "process_env \<Rightarrow> Overrides \<Rightarrow> FeatureFlagMap" where
  "resolve_map env ovs = map (\<lambda>f. (flag_key f, fst (resolveOne env f ovs))) FLAGS"

definition tenant_target :: "string option \<Rightarrow> FlagTarget" where
  "tenant_target tenantId = \<lparr>target_tenantId = tenantId, target_networkId = None\<rparr>"

definition cache_key :: "string option \<Rightarrow> string" where
  "cache_key tenantId = (case tenantId of None \<Rightarrow> ''_global'' | Some t \<Rightarrow> t)"

definition resolveAll ::
  "process_env \<Rightarrow> nat \<Rightarrow> FlagStore \<Rightarrow> string option \<Rightarrow> FeatureFlagMap \<times> FlagStore" where
  "resolveAll env now st tenantId =
     (let key = cache_key tenantId;
          fresh = resolve_map env (loadOverrides st (tenant_target tenantId));
          st' = st\<lparr>fs_cache := tset key (fresh, now + CACHE_TTL_MS) (fs_cache st)\<rparr> in
      case tget (fs_cache st) key of
        Some (m, expiry) \<Rightarrow> if expiry > now then (m, st) else (fresh, st')
      | None \<Rightarrow> (fresh, st'))"

definition isEnabled ::
  "process_env \<Rightarrow> nat \<Rightarrow> FlagStore \<Rightarrow> string \<Rightarrow> string option \<Rightarrow> bool option \<times> FlagStore" where
  "isEnabled env now st key tenantId =
     (let (m, st') = resolveAll env now st tenantId in (tget m key, st'))"

record FlagAdminEntry =
  fa_key :: string
  fa_env :: "bool option"
  fa_tenantOverride :: "bool option"
  fa_networkOverride :: "bool option"
  fa_planEntitlement :: "bool option"
  fa_globalOverride :: "bool option"
  fa_effective :: bool
  fa_source :: "FlagLayer option"

definition getAdminView :: "process_env \<Rightarrow> FlagStore \<Rightarrow> FlagTarget \<Rightarrow> FlagAdminEntry list" where
  "getAdminView env st target =
     (let ovs = loadOverrides st target in
      map (\<lambda>meta. let key = flag_key meta; r = resolveOne env meta ovs in
        \<lparr>fa_key = key,
         fa_env = (if EnvLayer \<in> set (controllableBy meta) then envValue env meta else None),
         fa_tenantOverride = tget (ovs_tenant ovs) key,
         fa_networkOverride = tget (ovs_network ovs) key,
         fa_planEntitlement = tget (ovs_plan ovs) key,
         fa_globalOverride = tget (ovs_global ovs) key,
         fa_effective = fst r, fa_source = snd r\<rparr>) FLAGS)"

section \<open>Writing an override\<close>

definition invalidate :: "FlagStore \<Rightarrow> string option \<Rightarrow> FlagStore" where
  "invalidate st tenantId =
     (if truthy tenantId then st\<lparr>fs_cache := tdel (the tenantId) (fs_cache st)\<rparr>
      else st\<lparr>fs_cache := []\<rparr>)"

definition override_allowed :: "FlagDef \<Rightarrow> string option \<Rightarrow> string option \<Rightarrow> bool" where
  "override_allowed meta tenantId networkId \<longleftrightarrow>
     (if truthy tenantId then TenantLayer \<in> set (controllableBy meta)
      else if truthy networkId
      then TenantLayer \<in> set (controllableBy meta) \<or> PlanLayer \<in> set (controllableBy meta)
      else GlobalLayer \<in> set (controllableBy meta))"

definition setOverride ::
  "FlagStore \<Rightarrow> string option \<Rightarrow> string option \<Rightarrow> string \<Rightarrow> bool option \<Rightarrow> FlagStore res" where
  "setOverride st tenantId networkId flagKey enabled =
     (if \<not> isFeatureFlagKey flagKey then Inl (BadRequestException ''Unknown feature flag'')
      else if truthy tenantId \<and> truthy networkId
      then Inl (BadRequestException ''An override is tenant- or network-scoped, not both'')
      else case FLAG_META flagKey of
        None \<Rightarrow> Inl (ThrownError ''TypeError'')
      | Some meta \<Rightarrow>
          if \<not> override_allowed meta tenantId networkId
          then Inl (BadRequestException ''Flag is not controllable at this layer'')
          else
            let kept = filter (\<lambda>r. \<not> (ov_tenantId r = tenantId \<and> ov_networkId r = networkId \<and>
                                      ov_flagKey r = flagKey)) (fs_overrides st);
                created = (case enabled of
                   None \<Rightarrow> []
                 | Some b \<Rightarrow> [\<lparr>ov_tenantId = tenantId, ov_networkId = networkId, ov_flagKey = flagKey,
                               ov_enabled = b\<rparr>]);
                owner = (case tenantId of Some t \<Rightarrow> t | None \<Rightarrow>
                          (case networkId of Some n \<Rightarrow> n | None \<Rightarrow> ''system'')) in
            Inr (invalidate
                  (st\<lparr>fs_overrides := kept @ created,
                      fs_events := fs_events st @
                        [\<lparr>fe_tenantId = owner, fe_aggregateId = flagKey, fe_enabled = enabled\<rparr>]\<rparr>)
                  tenantId))"

section \<open>Plan limits\<close>

record PlanLimits =
  lim_contacts :: "rat option"
  lim_teamMembers :: "rat option"
  lim_segments :: "rat option"

definition UNLIMITED :: PlanLimits where
  "UNLIMITED = \<lparr>lim_contacts = None, lim_teamMembers = None, lim_segments = None\<rparr>"

definition numOrNull :: "json option \<Rightarrow> rat option" where
  "numOrNull v = (case v of Some (JNum q) \<Rightarrow> Some q | _ \<Rightarrow> None)"

definition limits_plan :: "FlagStore \<Rightarrow> string \<Rightarrow> PlanRow option" where
  "limits_plan st tenantId =
     (let tenant = tget (fs_tenants st) tenantId;
          network = (case tenant of
             Some (Some n) \<Rightarrow> if n = [] then None else tget (fs_networks st) n
           | _ \<Rightarrow> None);
          named = (case network of
             Some (Some key) \<Rightarrow> if key = [] then None else find_plan st key
           | _ \<Rightarrow> None) in
      if (case named of None \<Rightarrow> False | Some p \<Rightarrow> pl_archivedAt p = None) then named
      else (case sort_key pl_order (filter (\<lambda>p. pl_isDefault p \<and> pl_archivedAt p = None) (fs_plans st)) of
              [] \<Rightarrow> None | p # ps \<Rightarrow> Some p))"

definition resolveForTenant :: "FlagStore \<Rightarrow> string option \<Rightarrow> PlanLimits" where
  "resolveForTenant st tenantId =
     (if \<not> truthy tenantId then UNLIMITED
      else case limits_plan st (the tenantId) of
          None \<Rightarrow> UNLIMITED
        | Some plan \<Rightarrow>
            (case pl_limits plan of
               None \<Rightarrow> UNLIMITED
             | Some l \<Rightarrow>
                 if \<not> is_object l then UNLIMITED
                 else \<lparr>lim_contacts = numOrNull (jget l ''contacts''),
                       lim_teamMembers = numOrNull (jget l ''teamMembers''),
                       lim_segments = numOrNull (jget l ''segments'')\<rparr>))"

definition count_for :: "(string \<times> string) list \<Rightarrow> string \<Rightarrow> nat" where
  "count_for rows tenantId = length (filter (\<lambda>r. fst r = tenantId) rows)"

definition assertTeamSeatAvailable :: "FlagStore \<Rightarrow> string \<Rightarrow> unit res" where
  "assertTeamSeatAvailable st tenantId =
     (case lim_teamMembers (resolveForTenant st (Some tenantId)) of
        None \<Rightarrow> Inr ()
      | Some teamMembers \<Rightarrow>
          if of_nat (count_for (fs_members st) tenantId) \<ge> teamMembers
          then Inl (ForbiddenException ''Your plan allows no more team members'') else Inr ())"

definition assertCanAddTeamMember :: "FlagStore \<Rightarrow> string option \<Rightarrow> unit res" where
  "assertCanAddTeamMember st tenantId =
     (if \<not> truthy tenantId then Inr ()
      else case lim_teamMembers (resolveForTenant st tenantId) of
        None \<Rightarrow> Inr ()
      | Some teamMembers \<Rightarrow>
          if of_nat (count_for (fs_members st) (the tenantId)) \<ge> teamMembers
          then Inl (ForbiddenException ''Your plan allows no more team members'') else Inr ())"

definition remainingContacts :: "FlagStore \<Rightarrow> string option \<Rightarrow> rat option" where
  "remainingContacts st tenantId =
     (if \<not> truthy tenantId then None
      else case lim_contacts (resolveForTenant st tenantId) of
        None \<Rightarrow> None
      | Some contacts \<Rightarrow> Some (max 0 (contacts - of_nat (count_for (fs_contacts st) (the tenantId)))))"

section \<open>Plans\<close>

text \<open>
  An optional property is \<open>'a option\<close> (\<open>None\<close> is \<open>undefined\<close>); a nullable one is
  \<open>'a option option\<close> (\<open>Some None\<close> is \<open>null\<close>).
\<close>

record PlanWritable =
  pw_displayName :: "string option"
  pw_featureFlags :: "json option"
  pw_isDefault :: "bool option"
  pw_archived :: "bool option"
  pw_publiclyVisible :: "bool option"
  pw_order :: "int option"
  pw_popular :: "bool option"
  pw_description :: "string option option"
  pw_priceMonthly :: "int option option"
  pw_priceMonthlyOriginal :: "int option option"
  pw_priceAnnually :: "int option option"
  pw_priceAnnuallyOriginal :: "int option option"
  pw_limits :: "json option"
  pw_features :: "json option"

definition sanitiseFeatureFlags :: "json \<Rightarrow> json" where
  "sanitiseFeatureFlags input =
     JObj (filter (\<lambda>(k, v). isFeatureFlagKey k \<and> (case v of JBool b \<Rightarrow> True | _ \<Rightarrow> False)) (js_entries input))"

definition patch :: "'a option \<Rightarrow> 'a \<Rightarrow> 'a" where
  "patch new old = (case new of None \<Rightarrow> old | Some v \<Rightarrow> v)"

definition toUpdateData :: "nat \<Rightarrow> PlanWritable \<Rightarrow> PlanRow \<Rightarrow> PlanRow" where
  "toUpdateData now input p =
     p\<lparr>pl_displayName := patch (pw_displayName input) (pl_displayName p),
       pl_featureFlags := patch (map_option sanitiseFeatureFlags (pw_featureFlags input)) (pl_featureFlags p),
       pl_isDefault := patch (pw_isDefault input) (pl_isDefault p),
       pl_archivedAt := patch (map_option (\<lambda>a. if a then Some now else None) (pw_archived input)) (pl_archivedAt p),
       pl_publiclyVisible := patch (pw_publiclyVisible input) (pl_publiclyVisible p),
       pl_order := patch (pw_order input) (pl_order p),
       pl_popular := patch (pw_popular input) (pl_popular p),
       pl_description := patch (pw_description input) (pl_description p),
       pl_priceMonthly := patch (pw_priceMonthly input) (pl_priceMonthly p),
       pl_priceMonthlyOriginal := patch (pw_priceMonthlyOriginal input) (pl_priceMonthlyOriginal p),
       pl_priceAnnually := patch (pw_priceAnnually input) (pl_priceAnnually p),
       pl_priceAnnuallyOriginal := patch (pw_priceAnnuallyOriginal input) (pl_priceAnnuallyOriginal p),
       pl_limits := patch (map_option Some (pw_limits input)) (pl_limits p),
       pl_features := patch (map_option Some (pw_features input)) (pl_features p)\<rparr>"

definition list_plans :: "FlagStore \<Rightarrow> PlanRow list" where
  "list_plans st = sort_key pl_order (sort_key pl_createdAt (fs_plans st))"

definition listPublic :: "FlagStore \<Rightarrow> PlanRow list" where
  "listPublic st =
     sort_key pl_order (sort_key pl_createdAt
       (filter (\<lambda>p. pl_publiclyVisible p \<and> pl_archivedAt p = None) (fs_plans st)))"

definition created_plan :: "nat \<Rightarrow> string \<Rightarrow> string \<Rightarrow> string \<Rightarrow> json \<Rightarrow> PlanWritable \<Rightarrow> PlanRow" where
  "created_plan now newId key displayName featureFlags input =
     \<lparr>pl_id = newId, pl_key = key, pl_displayName = displayName,
      pl_featureFlags = sanitiseFeatureFlags featureFlags,
      pl_isDefault = patch (pw_isDefault input) False, pl_archivedAt = None,
      pl_publiclyVisible = patch (pw_publiclyVisible input) True,
      pl_order = patch (pw_order input) 0, pl_popular = patch (pw_popular input) False,
      pl_description = patch (pw_description input) None,
      pl_priceMonthly = patch (pw_priceMonthly input) None,
      pl_priceMonthlyOriginal = patch (pw_priceMonthlyOriginal input) None,
      pl_priceAnnually = patch (pw_priceAnnually input) None,
      pl_priceAnnuallyOriginal = patch (pw_priceAnnuallyOriginal input) None,
      pl_limits = pw_limits input, pl_features = pw_features input, pl_createdAt = now\<rparr>"

definition upsert_plan ::
  "nat \<Rightarrow> string \<Rightarrow> FlagStore \<Rightarrow> string \<Rightarrow> string \<Rightarrow> json \<Rightarrow> PlanWritable \<Rightarrow> FlagStore" where
  "upsert_plan now newId st key displayName featureFlags input =
     (let input = input\<lparr>pw_displayName := Some displayName, pw_featureFlags := Some featureFlags\<rparr> in
      case find_plan st key of
        None \<Rightarrow> st\<lparr>fs_plans := fs_plans st @ [created_plan now newId key displayName featureFlags input]\<rparr>
      | Some existing \<Rightarrow>
          st\<lparr>fs_plans := map (\<lambda>p. if pl_key p = key
               then (toUpdateData now input p)\<lparr>pl_archivedAt := None\<rparr> else p) (fs_plans st)\<rparr>)"

definition update_plan :: "nat \<Rightarrow> FlagStore \<Rightarrow> string \<Rightarrow> PlanWritable \<Rightarrow> FlagStore res" where
  "update_plan now st planId input =
     (if \<not> list_ex (\<lambda>p. pl_id p = planId) (fs_plans st) then Inl (NotFoundException ''Plan not found'')
      else if pw_isDefault input = Some True
      then Inr (st\<lparr>fs_plans := map (\<lambda>p. if pl_id p = planId then toUpdateData now input p
                                   else if pl_isDefault p then p\<lparr>pl_isDefault := False\<rparr> else p) (fs_plans st)\<rparr>)
      else Inr (st\<lparr>fs_plans := map (\<lambda>p. if pl_id p = planId then toUpdateData now input p else p) (fs_plans st)\<rparr>))"

section \<open>The precedence chain\<close>

text \<open>The values of the layers that may set a flag, highest first.\<close>

definition layer_values :: "process_env \<Rightarrow> FlagDef \<Rightarrow> Overrides \<Rightarrow> (FlagLayer \<times> bool option) list" where
  "layer_values env f ovs =
     filter (\<lambda>(l, v). l \<in> set (controllableBy f) \<or>
         (l = NetworkLayer \<and> (TenantLayer \<in> set (controllableBy f) \<or> PlanLayer \<in> set (controllableBy f))))
       [(EnvLayer, envValue env f), (TenantLayer, tget (ovs_tenant ovs) (flag_key f)),
        (NetworkLayer, tget (ovs_network ovs) (flag_key f)), (PlanLayer, tget (ovs_plan ovs) (flag_key f)),
        (GlobalLayer, tget (ovs_global ovs) (flag_key f))]"

text \<open>A flag's effective value is that of the first layer with a value, among the layers its catalogue
  entry allows, in the order environment, tenant, network, plan, global; without any, it is its default.\<close>

lemma resolveOne_precedence:
  assumes "NetworkLayer \<notin> set (controllableBy f)"
  shows "resolveOne env f ovs =
    (case find (\<lambda>(l, v). v \<noteq> None) (layer_values env f ovs) of
       None \<Rightarrow> (flag_default f, None) | Some (l, v) \<Rightarrow> (the v, Some l))"
  using assms by (auto simp: resolveOne_def Let_def layer_values_def split: option.splits)

lemma map_of_find: "map_of (map (\<lambda>x. (f x, g x)) xs) k = map_option g (find (\<lambda>x. f x = k) xs)"
  by (induction xs) auto

lemma resolve_map_get:
  "FLAG_META key = Some f \<Longrightarrow> tget (resolve_map env ovs) key = Some (fst (resolveOne env f ovs))"
  by (simp add: resolve_map_def tget_def map_of_find FLAG_META_def)

lemma scope_rows_get:
  "tget (scope_rows P rows) k =
     map_option ov_enabled (find (\<lambda>r. P r \<and> ov_flagKey r = k) (rev rows))"
  by (induction rows rule: rev_induct) (auto simp: scope_rows_def)

section \<open>Writing and reading back\<close>

lemma setOverride_result:
  assumes "setOverride st tenantId networkId key enabled = Inr st'"
  obtains f where "FLAG_META key = Some f" "override_allowed f tenantId networkId"
    "\<not> (truthy tenantId \<and> truthy networkId)"
    "fs_overrides st' = filter (\<lambda>r. \<not> (ov_tenantId r = tenantId \<and> ov_networkId r = networkId \<and> ov_flagKey r = key))
        (fs_overrides st) @
      (case enabled of None \<Rightarrow> [] | Some b \<Rightarrow>
        [\<lparr>ov_tenantId = tenantId, ov_networkId = networkId, ov_flagKey = key, ov_enabled = b\<rparr>])"
    "fs_tenants st' = fs_tenants st" "fs_networks st' = fs_networks st" "fs_plans st' = fs_plans st"
    "fs_cache st' = (if truthy tenantId then tdel (the tenantId) (fs_cache st) else [])"
  using assms
  by (auto simp: setOverride_def Let_def invalidate_def split: if_splits option.splits)

lemma loadPlanEntitlements_cong:
  assumes "fs_plans st = fs_plans st'"
  shows "loadPlanEntitlements st n = loadPlanEntitlements st' n"
proof -
  have "defaultPlan st = defaultPlan st'" by (simp add: defaultPlan_def assms)
  then have "effective_plan st n = effective_plan st' n"
    by (simp add: effective_plan_def find_plan_def assms split: option.split)
  then show ?thesis by (simp add: loadPlanEntitlements_def)
qed

text \<open>C29: An accepted tenant override is what the next read of the flag returns for that tenant, whatever
  was cached before, unless the environment fixes the flag.\<close>

theorem tenant_override_read_back:
  assumes set: "setOverride st (Some t) None key (Some b) = Inr st'" and t: "t \<noteq> []"
    and meta: "FLAG_META key = Some f"
  shows "fst (isEnabled env now st' key (Some t)) =
    Some (case (if EnvLayer \<in> set (controllableBy f) then envValue env f else None) of Some e \<Rightarrow> e | None \<Rightarrow> b)"
proof -
  from set obtain f' where f': "FLAG_META key = Some f'" "override_allowed f' (Some t) None"
      "fs_overrides st' = filter (\<lambda>r. \<not> (ov_tenantId r = Some t \<and> ov_networkId r = None \<and> ov_flagKey r = key))
        (fs_overrides st) @ [\<lparr>ov_tenantId = Some t, ov_networkId = None, ov_flagKey = key, ov_enabled = b\<rparr>]"
      "fs_cache st' = tdel t (fs_cache st)"
    by (rule setOverride_result) (use t in auto)
  with meta have f: "f' = f" by simp
  have "tget (ovs_tenant (loadOverrides st' (tenant_target (Some t)))) key = Some b"
    using t by (simp add: loadOverrides_def tenant_target_def Let_def scope_rows_get f'(3))
  moreover have "TenantLayer \<in> set (controllableBy f)"
    using f'(2) t by (simp add: override_allowed_def f)
  moreover have "flag_key f = key" using FLAG_META_key [OF meta] by simp
  ultimately have "fst (resolveOne env f (loadOverrides st' (tenant_target (Some t)))) =
      (case (if EnvLayer \<in> set (controllableBy f) then envValue env f else None) of Some e \<Rightarrow> e | None \<Rightarrow> b)"
    by (simp add: resolveOne_def Let_def split: option.split)
  moreover have "tget (fs_cache st') (cache_key (Some t)) = None" by (simp add: f'(4) cache_key_def)
  ultimately show ?thesis
    by (simp add: isEnabled_def resolveAll_def Let_def resolve_map_get [OF meta])
qed

text \<open>A tenant override changes no flag of another tenant.\<close>

lemma other_tenant_unchanged:
  assumes set: "setOverride st (Some t) None key enabled = Inr st'" and t: "t \<noteq> []" "t' \<noteq> t" "t' \<noteq> []"
  shows "fst (resolveAll env now st' (Some t')) = fst (resolveAll env now st (Some t'))"
proof -
  let ?P = "\<lambda>n r. (ov_tenantId r = None \<and> ov_networkId r = None) \<or> ov_tenantId r = Some t' \<or> (truthy n \<and> ov_networkId r = n)"
  from set obtain f where f:
      "fs_overrides st' = filter (\<lambda>r. \<not> (ov_tenantId r = Some t \<and> ov_networkId r = None \<and> ov_flagKey r = key))
        (fs_overrides st) @
        (case enabled of None \<Rightarrow> [] | Some b \<Rightarrow>
          [\<lparr>ov_tenantId = Some t, ov_networkId = None, ov_flagKey = key, ov_enabled = b\<rparr>])"
      "fs_tenants st' = fs_tenants st" "fs_networks st' = fs_networks st" "fs_plans st' = fs_plans st"
      "fs_cache st' = tdel t (fs_cache st)"
    by (rule setOverride_result) (use t in auto)
  have net: "tenant_network st' t' = tenant_network st t'" "network_plan st' n = network_plan st n" for n
    by (simp_all add: tenant_network_def network_plan_def f)
  define Q where "Q = (\<lambda>r :: OverrideRow. \<not> (ov_tenantId r = Some t \<and> ov_networkId r = None \<and> ov_flagKey r = key))"
  have kept: "filter (?P n) (filter Q rows) = filter (?P n) rows" for n rows
    unfolding filter_filter using t by (intro filter_cong refl) (auto simp: Q_def)
  have rows: "filter (?P n) (fs_overrides st') = filter (?P n) (fs_overrides st)" for n
  proof -
    have "filter (?P n) (case enabled of None \<Rightarrow> [] | Some b \<Rightarrow>
          [\<lparr>ov_tenantId = Some t, ov_networkId = None, ov_flagKey = key, ov_enabled = b\<rparr>]) = []"
      using t by (cases enabled; cases n) simp_all
    then show ?thesis unfolding f(1) Q_def [symmetric] filter_append kept by simp
  qed
  have "loadOverrides st' (tenant_target (Some t')) = loadOverrides st (tenant_target (Some t'))"
    using t rows [of "tenant_network st t'"]
    by (simp add: loadOverrides_def tenant_target_def Let_def net loadPlanEntitlements_cong [OF f(4)])
  moreover have "tget (fs_cache st') (cache_key (Some t')) = tget (fs_cache st) (cache_key (Some t'))"
    using t by (simp add: f(5) cache_key_def)
  ultimately show ?thesis by (simp add: resolveAll_def Let_def split: option.splits if_splits)
qed

lemma ops_flag_refuses_tenant:
  assumes "FLAG_META key = Some f" "flag_kind f = Ops" "t \<noteq> []"
  shows "setOverride st (Some t) networkId key enabled =
    (if truthy networkId then Inl (BadRequestException ''An override is tenant- or network-scoped, not both'')
     else Inl (BadRequestException ''Flag is not controllable at this layer''))"
proof -
  have "controllableBy f = GLOBAL_ONLY" using flag_kinds FLAG_META_key assms by blast
  moreover have "isFeatureFlagKey key" using assms(1) FLAG_META_iff by (auto simp: isFeatureFlagKey_def)
  ultimately show ?thesis using assms by (simp add: setOverride_def override_allowed_def GLOBAL_ONLY_def)
qed

lemma ops_flag_ignores_tenant:
  assumes "FLAG_META key = Some f" "flag_kind f = Ops"
  shows "fst (resolveOne env f ovs) = (case tget (ovs_global ovs) key of Some g \<Rightarrow> g | None \<Rightarrow> flag_default f)"
proof -
  have "controllableBy f = GLOBAL_ONLY" "flag_key f = key" using flag_kinds FLAG_META_key assms by blast+
  then show ?thesis by (simp add: resolveOne_def Let_def GLOBAL_ONLY_def split: option.splits)
qed

text \<open>A key that every JavaScript object inherits (such as \<open>toString\<close>) passes the catalogue check and
  makes the override endpoint fail with a TypeError instead of refusing the key.\<close>

lemma prototype_key_crashes:
  "key \<in> set OBJECT_PROTOTYPE_KEYS \<Longrightarrow> \<not> (truthy tenantId \<and> truthy networkId) \<Longrightarrow>
   setOverride st tenantId networkId key enabled = Inl (ThrownError ''TypeError'')"
proof -
  assume key: "key \<in> set OBJECT_PROTOTYPE_KEYS" "\<not> (truthy tenantId \<and> truthy networkId)"
  then have "key \<notin> set FEATURE_FLAG_KEYS"
    by (auto simp: OBJECT_PROTOTYPE_KEYS_def FEATURE_FLAG_KEYS_def FLAGS_def CORE_FLAGS_def NAV_FLAG_DEFS_def
        NAV_FLAGS_def)
  then have "FLAG_META key = None" using FLAG_META_iff [of key] by simp
  with key show ?thesis by (auto simp: setOverride_def isFeatureFlagKey_def)
qed

section \<open>The cache\<close>

lemma cached_within_ttl:
  "t0 \<le> now \<Longrightarrow> now < t0 + CACHE_TTL_MS \<Longrightarrow>
   tget (fs_cache st) (cache_key tenantId) = Some (m, t0 + CACHE_TTL_MS) \<Longrightarrow>
   resolveAll env now st tenantId = (m, st)"
  by (simp add: resolveAll_def Let_def)

lemma fresh_after_ttl:
  "(\<And>m expiry. tget (fs_cache st) (cache_key tenantId) = Some (m, expiry) \<Longrightarrow> expiry \<le> now) \<Longrightarrow>
   fst (resolveAll env now st tenantId) = resolve_map env (loadOverrides st (tenant_target tenantId))"
  by (fastforce simp: resolveAll_def Let_def split: option.splits)

definition cache_bounded :: "nat \<Rightarrow> FlagStore \<Rightarrow> bool" where
  "cache_bounded now st \<longleftrightarrow>
     (\<forall>k m expiry. tget (fs_cache st) k = Some (m, expiry) \<longrightarrow> expiry \<le> now + CACHE_TTL_MS)"

lemma cache_bounded_resolveAll:
  "cache_bounded now st \<Longrightarrow> cache_bounded now (snd (resolveAll env now st tenantId))"
  by (auto simp: cache_bounded_def resolveAll_def Let_def split: option.splits)

lemma cache_bounded_later: "cache_bounded now st \<Longrightarrow> now \<le> later \<Longrightarrow> cache_bounded later st"
  by (fastforce simp: cache_bounded_def)

section \<open>Entitlements and limits use the same plan\<close>

lemma limits_plan_eq:
  "limits_plan st tenantId =
     effective_plan st
       (if truthy (tenant_network st tenantId) then network_plan st (the (tenant_network st tenantId)) else None)"
  by (auto simp: limits_plan_def effective_plan_def defaultPlan_def tenant_network_def network_plan_def Let_def
      split: option.splits)

section \<open>Seats\<close>

lemma seat_guard_iff:
  "assertTeamSeatAvailable st t = Inr () \<longleftrightarrow>
     (case lim_teamMembers (resolveForTenant st (Some t)) of
        None \<Rightarrow> True | Some n \<Rightarrow> of_nat (count_for (fs_members st) t) < n)"
  by (auto simp: assertTeamSeatAvailable_def split: option.splits)

lemma effective_plan_members: "effective_plan (st\<lparr>fs_members := ms\<rparr>) n = effective_plan st n"
  by (simp add: effective_plan_def find_plan_def defaultPlan_def split: option.split)

lemma resolveForTenant_members: "resolveForTenant (st\<lparr>fs_members := ms\<rparr>) t = resolveForTenant st t"
proof -
  have "limits_plan (st\<lparr>fs_members := ms\<rparr>) t = limits_plan st t" for t
    by (simp add: limits_plan_eq effective_plan_members tenant_network_def network_plan_def)
  then show ?thesis by (simp add: resolveForTenant_def)
qed

text \<open>A member added after the seat guard passed keeps the tenant within its plan's team-member limit.\<close>

lemma seat_guard_bound:
  assumes "assertTeamSeatAvailable st t = Inr ()"
    "lim_teamMembers (resolveForTenant st (Some t)) = Some n"
  shows "int (count_for (fs_members (st\<lparr>fs_members := (t, u) # fs_members st\<rparr>)) t) \<le> \<lceil>n\<rceil>"
proof -
  have "rat_of_int (int (count_for (fs_members st) t)) < n"
    using assms by (simp add: seat_guard_iff)
  then have "int (count_for (fs_members st) t) < \<lceil>n\<rceil>" by (simp add: less_ceiling_iff)
  then show ?thesis by (simp add: count_for_def)
qed

section \<open>One default plan\<close>

definition default_plans :: "FlagStore \<Rightarrow> PlanRow list" where
  "default_plans st = filter pl_isDefault (fs_plans st)"

lemma toUpdateData_default [simp]:
  "pl_isDefault (toUpdateData now input p) = patch (pw_isDefault input) (pl_isDefault p)"
  by (simp add: toUpdateData_def)

lemma length_filter_le_mono:
  "(\<And>x. x \<in> set xs \<Longrightarrow> Q (f x) \<Longrightarrow> P x) \<Longrightarrow> length (filter Q (map f xs)) \<le> length (filter P xs)"
  by (induction xs) auto

lemma one_with_key:
  "distinct (map f xs) \<Longrightarrow> k \<in> set (map f xs) \<Longrightarrow> length (filter (\<lambda>x. f x = k) xs) = 1"
proof (induction xs)
  case (Cons x xs)
  show ?case
  proof (cases "f x = k")
    case True
    with Cons.prems(1) have "filter (\<lambda>x. f x = k) xs = []" by (auto simp: filter_empty_conv) (metis imageI)
    with True show ?thesis by simp
  next
    case False
    with Cons show ?thesis by auto
  qed
qed simp

lemma update_plan_promotes:
  assumes "distinct (map pl_id (fs_plans st))" "pw_isDefault input = Some True"
    "update_plan now st planId input = Inr st'"
  shows "length (default_plans st') = 1"
proof -
  let ?f = "\<lambda>p. if pl_id p = planId then toUpdateData now input p
      else if pl_isDefault p then p\<lparr>pl_isDefault := False\<rparr> else p"
  from assms have plans: "fs_plans st' = map ?f (fs_plans st)" "planId \<in> set (map pl_id (fs_plans st))"
    by (auto simp: update_plan_def list_ex_iff split: if_splits)
  have "filter pl_isDefault (map ?f ps) = map ?f (filter (\<lambda>p. pl_id p = planId) ps)" for ps
    using assms(2) by (induction ps) (auto simp: patch_def)
  then show ?thesis
    using one_with_key [OF assms(1) plans(2)] plans(1) by (simp add: default_plans_def)
qed

text \<open>Updating a plan never leaves two default plans.\<close>

lemma update_plan_default:
  assumes "distinct (map pl_id (fs_plans st))" "length (default_plans st) \<le> 1"
    "update_plan now st planId input = Inr st'"
  shows "length (default_plans st') \<le> 1"
proof (cases "pw_isDefault input = Some True")
  case True
  then show ?thesis using update_plan_promotes [OF assms(1) True assms(3)] by simp
next
  case False
  let ?f = "\<lambda>p. if pl_id p = planId then toUpdateData now input p else p"
  from assms(3) False have "fs_plans st' = map ?f (fs_plans st)"
    by (auto simp: update_plan_def split: if_splits)
  moreover have "length (filter pl_isDefault (map ?f (fs_plans st))) \<le> length (filter pl_isDefault (fs_plans st))"
    using False by (intro length_filter_le_mono) (auto simp: patch_def split: option.splits if_splits)
  ultimately show ?thesis using assms(2) by (simp add: default_plans_def)
qed

text \<open>Creating or updating a plan by key with the default mark does not demote the plan that was
  default before: two default plans remain, and which of them is the baseline depends on their order.\<close>

lemma upsert_two_defaults:
  assumes "p \<in> set (fs_plans st)" "pl_isDefault p" "pl_key p \<noteq> key" "pw_isDefault input = Some True"
  shows "2 \<le> length (default_plans (upsert_plan now newId st key displayName featureFlags input))"
proof -
  let ?st' = "upsert_plan now newId st key displayName featureFlags input"
  have "p \<in> set (default_plans ?st')"
    using assms by (auto simp: default_plans_def upsert_plan_def Let_def split: option.splits)
  moreover have "\<exists>q\<in>set (default_plans ?st'). pl_key q = key"
  proof (cases "find_plan st key")
    case None
    then show ?thesis
      using assms(4) by (simp add: default_plans_def upsert_plan_def Let_def created_plan_def patch_def)
  next
    case (Some q)
    then have "q \<in> set (fs_plans st) \<and> pl_key q = key"
      using find_Some_in [of "\<lambda>p. pl_key p = key" "fs_plans st" q] by (simp add: find_plan_def)
    with Some assms(4) show ?thesis
      by (auto simp: default_plans_def upsert_plan_def Let_def toUpdateData_def patch_def intro!: image_eqI [of _ _ q])
  qed
  ultimately obtain q where "p \<in> set (default_plans ?st')" "q \<in> set (default_plans ?st')" "p \<noteq> q"
    using assms(3) by blast
  then show ?thesis by (cases "default_plans ?st'"; cases "tl (default_plans ?st')") auto
qed

definition sample_flag_store :: FlagStore where
  "sample_flag_store = \<lparr>fs_tenants = [(''t1'', None), (''t2'', None)], fs_networks = [], fs_plans = [], fs_overrides = [],
     fs_members = [], fs_contacts = [], fs_events = [], fs_cache = []\<rparr>"

lemma ai_flag: "FLAG_META ''FEATURE_AI_ASSIST_ENABLED'' = Some (flag ''FEATURE_AI_ASSIST_ENABLED'' True Release PLAN_DRIVEN)"
  by (simp add: FLAG_META_def FLAGS_def CORE_FLAGS_def)

lemma sample_override:
  "\<exists>st'. setOverride sample_flag_store (Some ''t1'') None ''FEATURE_AI_ASSIST_ENABLED'' (Some False) = Inr st'"
  by (simp add: setOverride_def isFeatureFlagKey_def FLAG_META_iff [symmetric] ai_flag override_allowed_def PLAN_DRIVEN_def Let_def)

definition free_plan :: PlanRow where
  "free_plan = \<lparr>pl_id = ''p1'', pl_key = ''free'', pl_displayName = ''Free'',
     pl_featureFlags = JObj [], pl_isDefault = True, pl_archivedAt = None, pl_publiclyVisible = True, pl_order = 0,
     pl_popular = False, pl_description = None, pl_priceMonthly = None, pl_priceMonthlyOriginal = None,
     pl_priceAnnually = None, pl_priceAnnuallyOriginal = None, pl_limits = Some (JObj [(''teamMembers'', JNum 2)]),
     pl_features = None, pl_createdAt = 0\<rparr>"

definition capped_store :: FlagStore where
  "capped_store = sample_flag_store\<lparr>fs_plans := [free_plan], fs_members := [(''t1'', ''u1'')]\<rparr>"

definition promoting_input :: PlanWritable where
  "promoting_input = \<lparr>pw_displayName = None, pw_featureFlags = None, pw_isDefault = Some True, pw_archived = None,
     pw_publiclyVisible = None, pw_order = None, pw_popular = None, pw_description = None, pw_priceMonthly = None,
     pw_priceMonthlyOriginal = None, pw_priceAnnually = None, pw_priceAnnuallyOriginal = None, pw_limits = None,
     pw_features = None\<rparr>"

lemma upsert_two_defaults_witness:
  "2 \<le> length (default_plans (upsert_plan 0 ''p2'' capped_store ''pro'' ''Pro'' JNull promoting_input))"
  by (rule upsert_two_defaults [of free_plan]) (simp_all add: capped_store_def free_plan_def promoting_input_def)

theorem resolveOne_precedence_witness:
  "resolveOne (\<lambda>v. None) (flag ''K'' True Release PLAN_DRIVEN)
     \<lparr>ovs_tenant = [], ovs_network = [(''K'', False)], ovs_plan = [(''K'', True)], ovs_global = []\<rparr> = (False, Some NetworkLayer)"
  using resolveOne_precedence [of "flag ''K'' True Release PLAN_DRIVEN" "\<lambda>v. None"
      "\<lparr>ovs_tenant = [], ovs_network = [(''K'', False)], ovs_plan = [(''K'', True)], ovs_global = []\<rparr>"]
  by (simp add: layer_values_def PLAN_DRIVEN_def tget_def ex_bool_eq all_bool_eq)

theorem tenant_override_read_back_witness:
  "\<exists>st'. setOverride sample_flag_store (Some ''t1'') None ''FEATURE_AI_ASSIST_ENABLED'' (Some False) = Inr st' \<and>
     fst (isEnabled (\<lambda>v. None) 0 st' ''FEATURE_AI_ASSIST_ENABLED'' (Some ''t1'')) = Some False"
proof -
  obtain st' where st': "setOverride sample_flag_store (Some ''t1'') None ''FEATURE_AI_ASSIST_ENABLED'' (Some False) = Inr st'"
    using sample_override by blast
  from tenant_override_read_back [OF st' _ ai_flag, of "\<lambda>v. None" 0] st' show ?thesis
    by (simp add: PLAN_DRIVEN_def)
qed

theorem other_tenant_unchanged_witness:
  "\<exists>st'. setOverride sample_flag_store (Some ''t1'') None ''FEATURE_AI_ASSIST_ENABLED'' (Some False) = Inr st' \<and>
     fst (resolveAll (\<lambda>v. None) 0 st' (Some ''t2'')) = fst (resolveAll (\<lambda>v. None) 0 sample_flag_store (Some ''t2''))"
proof -
  obtain st' where st': "setOverride sample_flag_store (Some ''t1'') None ''FEATURE_AI_ASSIST_ENABLED'' (Some False) = Inr st'"
    using sample_override by blast
  from other_tenant_unchanged [OF st', of "''t2''" "\<lambda>v. None" 0] st' show ?thesis by simp
qed

theorem prototype_key_crashes_witness:
  "setOverride sample_flag_store (Some ''t1'') None ''toString'' (Some True) = Inl (ThrownError ''TypeError'')"
  by (rule prototype_key_crashes) (simp_all add: OBJECT_PROTOTYPE_KEYS_def)

theorem seat_guard_bound_witness:
  "int (count_for (fs_members (capped_store\<lparr>fs_members := (''t1'', ''u2'') # fs_members capped_store\<rparr>)) ''t1'') \<le> \<lceil>2 :: rat\<rceil>"
  by (rule seat_guard_bound)
    (simp_all add: assertTeamSeatAvailable_def resolveForTenant_def limits_plan_def capped_store_def free_plan_def
      sample_flag_store_def tget_def find_plan_def is_object_def numOrNull_def count_for_def)

theorem update_plan_default_witness:
  "\<exists>st'. update_plan 0 capped_store ''p1'' promoting_input = Inr st' \<and> length (default_plans st') \<le> 1"
proof -
  have "\<exists>st'. update_plan 0 capped_store ''p1'' promoting_input = Inr st'"
    by (simp add: update_plan_def capped_store_def free_plan_def promoting_input_def)
  then obtain st' where st': "update_plan 0 capped_store ''p1'' promoting_input = Inr st'" by blast
  from update_plan_default [OF _ _ st'] st' show ?thesis
    by (simp add: capped_store_def default_plans_def)
qed

end
