(* ===== verification/Payments.thy ===== *)
theory Payments
  imports Fsm_Machines Js_Values
begin

text \<open>
  Payments: \<^verbatim>\<open>apps/api/src/payment/payment.service.ts\<close>, \<^verbatim>\<open>billing.service.ts\<close>,
  \<^verbatim>\<open>common/webhooks/webhook-event.service.ts\<close> and the \<open>append\<close> of \<^verbatim>\<open>common/outbox/outbox.service.ts\<close>.
  \<open>PayState\<close> holds the tables. An operation that runs in one transaction returns a result: an
  error leaves the state as it was. A webhook handler makes several commits and returns the
  error, if any, with the state it leaves behind. New rows take their id from the counter
  \<open>ps_nextId\<close>. A number of a provider payload is a \<open>rat option\<close>, \<open>None\<close> being \<open>NaN\<close>. The calls
  that only reach Stripe's API are not modelled. Main results: the ledger invariant, webhook
  idempotency, and what repeated refund events of one charge do.
\<close>

datatype PaymentType = ONE_TIME | SUBSCRIPTION | OtherType string

record Payment =
  pay_id :: string
  pay_tenantId :: string
  pay_networkId :: "string option"
  amountCents :: int
  currency :: string
  customerRef :: "string option"
  providerPaymentId :: "string option"
  pay_status :: PaymentStatus
  pay_type :: PaymentType
  refundedCents :: int
  pay_subscriptionId :: "string option"
  pay_invoiceId :: "string option"
  failureReason :: "string option"

record Refund =
  rf_paymentId :: string
  rf_amountCents :: int
  rf_processorRefundId :: "string option"
  rf_reason :: "string option"

record Customer =
  cu_id :: string
  cu_networkId :: "string option"
  cu_tenantId :: "string option"
  cu_providerCustomerId :: string
  cu_email :: "string option"

record Subscription =
  sub_tenantId :: string
  sub_providerSubscriptionId :: string
  sub_status :: string
  sub_planName :: "string option"
  sub_currentPeriodEnd :: "rat option"

record Invoice =
  inv_tenantId :: string
  inv_providerInvoiceId :: string
  inv_status :: string
  inv_amountCents :: int
  inv_currency :: string

record PaymentMethod =
  pm_customerId :: string
  pm_providerMethodId :: string
  pm_brand :: "string option"
  pm_last4 :: "string option"
  pm_isDefault :: bool

datatype PaymentEvent =
    StatusChanged string PaymentStatus
  | PaymentSucceeded string int
  | PaymentRefunded string int
  | SubscriptionChanged string string

record PayState =
  ps_payments :: "Payment list"
  ps_refunds :: "Refund list"
  ps_customers :: "Customer list"
  ps_subscriptions :: "Subscription list"
  ps_invoices :: "Invoice list"
  ps_methods :: "PaymentMethod list"
  ps_outbox :: "(string \<times> PaymentEvent) list"
  ps_claims :: "(string \<times> string) list"
  ps_nextId :: nat

section \<open>Outbox and webhook claims\<close>

definition append_event :: "string \<Rightarrow> PaymentEvent \<Rightarrow> PayState \<Rightarrow> PayState" where
  "append_event tenantId ev st = st\<lparr>ps_outbox := ps_outbox st @ [(tenantId, ev)]\<rparr>"

definition claim :: "string \<Rightarrow> string \<Rightarrow> PayState \<Rightarrow> bool \<times> PayState" where
  "claim provider eventId st =
     (if eventId = [] then (True, st)
      else if (provider, eventId) \<in> set (ps_claims st) then (False, st)
      else (True, st\<lparr>ps_claims := ps_claims st @ [(provider, eventId)]\<rparr>))"

definition release :: "string \<Rightarrow> string \<Rightarrow> PayState \<Rightarrow> PayState" where
  "release provider eventId st =
     (if eventId = [] then st
      else st\<lparr>ps_claims := filter (\<lambda>c. c \<noteq> (provider, eventId)) (ps_claims st)\<rparr>)"

section \<open>The ledger\<close>

record RecordPaymentInput =
  in_tenantId :: string
  in_amountCents :: "rat option"
  in_currency :: string
  in_type :: PaymentType
  in_customerRef :: "string option"
  in_networkId :: "string option"
  in_providerPaymentId :: "string option"
  in_subscriptionId :: "string option"
  in_invoiceId :: "string option"

definition positive_integer :: "rat option \<Rightarrow> bool" where
  "positive_integer n \<longleftrightarrow> js_is_integer n \<and> 0 < the n"

definition recordPayment :: "RecordPaymentInput \<Rightarrow> PayState \<Rightarrow> (Payment \<times> PayState) res" where
  "recordPayment input st =
     (if \<not> positive_integer (in_amountCents input)
      then Inl (BadRequestException ''amountCents must be a positive integer'')
      else let cur = js_upper (js_trim (in_currency input)) in
      if length cur \<noteq> 3 then Inl (BadRequestException ''currency must be a 3-letter code'')
      else if in_providerPaymentId input \<noteq> None \<and>
              list_ex (\<lambda>p. providerPaymentId p = in_providerPaymentId input) (ps_payments st)
      then Inl UniqueViolation
      else
        let payment = \<lparr>pay_id = nat_to_string (ps_nextId st), pay_tenantId = in_tenantId input,
              pay_networkId = in_networkId input, amountCents = \<lfloor>the (in_amountCents input)\<rfloor>,
              currency = cur, customerRef = in_customerRef input,
              providerPaymentId = in_providerPaymentId input, pay_status = PaymentStatus.RECORDED,
              pay_type = in_type input, refundedCents = 0, pay_subscriptionId = in_subscriptionId input,
              pay_invoiceId = in_invoiceId input, failureReason = None\<rparr>;
            st = st\<lparr>ps_payments := ps_payments st @ [payment], ps_nextId := ps_nextId st + 1\<rparr> in
        Inr (payment, append_event (pay_tenantId payment)
                        (StatusChanged (pay_id payment) PaymentStatus.RECORDED) st))"

definition lockAndLoad :: "string \<Rightarrow> PayState \<Rightarrow> Payment res" where
  "lockAndLoad paymentId st =
     (case find (\<lambda>p. pay_id p = paymentId) (ps_payments st) of
        None \<Rightarrow> Inl (NotFoundException ''Payment not found'')
      | Some p \<Rightarrow> Inr p)"

definition update_payment :: "string \<Rightarrow> (Payment \<Rightarrow> Payment) \<Rightarrow> PayState \<Rightarrow> PayState" where
  "update_payment paymentId f st =
     st\<lparr>ps_payments := map (\<lambda>p. if pay_id p = paymentId then f p else p) (ps_payments st)\<rparr>"

definition markProcessing :: "string \<Rightarrow> PayState \<Rightarrow> PayState res" where
  "markProcessing paymentId st =
     rbind (lockAndLoad paymentId st) (\<lambda>payment.
     rbind (assertValidPaymentTransition (pay_status payment) PaymentStatus.PROCESSING) (\<lambda>u.
     Inr (append_event (pay_tenantId payment) (StatusChanged paymentId PaymentStatus.PROCESSING)
            (update_payment paymentId (\<lambda>p. p\<lparr>pay_status := PaymentStatus.PROCESSING\<rparr>) st))))"

definition markSucceeded :: "string \<Rightarrow> PayState \<Rightarrow> PayState res" where
  "markSucceeded paymentId st =
     rbind (lockAndLoad paymentId st) (\<lambda>payment.
     rbind (assertValidPaymentTransition (pay_status payment) PaymentStatus.SUCCEEDED) (\<lambda>u.
     Inr (append_event (pay_tenantId payment) (PaymentSucceeded paymentId (amountCents payment))
            (update_payment paymentId (\<lambda>p. p\<lparr>pay_status := PaymentStatus.SUCCEEDED\<rparr>) st))))"

definition markFailed :: "string \<Rightarrow> string option \<Rightarrow> PayState \<Rightarrow> PayState res" where
  "markFailed paymentId reason st =
     rbind (lockAndLoad paymentId st) (\<lambda>payment.
     rbind (assertValidPaymentTransition (pay_status payment) PaymentStatus.FAILED) (\<lambda>u.
     Inr (append_event (pay_tenantId payment) (StatusChanged paymentId PaymentStatus.FAILED)
            (update_payment paymentId
               (\<lambda>p. p\<lparr>pay_status := PaymentStatus.FAILED, failureReason := reason\<rparr>) st))))"

definition refund_status :: "Payment \<Rightarrow> int \<Rightarrow> PaymentStatus" where
  "refund_status payment amount =
     (if refundedCents payment + amount = amountCents payment
      then PaymentStatus.REFUNDED else PaymentStatus.PARTIALLY_REFUNDED)"

definition refund_tx ::
  "string \<Rightarrow> int \<Rightarrow> string option \<Rightarrow> string option \<Rightarrow> PayState \<Rightarrow> PayState res" where
  "refund_tx paymentId amount processorRefundId reason st =
     rbind (lockAndLoad paymentId st) (\<lambda>payment.
       let outstanding = amountCents payment - refundedCents payment in
       if amount > outstanding then Inl (BadRequestException ''Refund exceeds the outstanding amount'')
       else
         let nextStatus = refund_status payment amount in
         rbind (assertValidPaymentTransition (pay_status payment) nextStatus) (\<lambda>u.
         if processorRefundId \<noteq> None \<and>
            list_ex (\<lambda>r. rf_paymentId r = paymentId \<and> rf_processorRefundId r = processorRefundId) (ps_refunds st)
         then Inl UniqueViolation
         else
           let st = update_payment paymentId
                 (\<lambda>p. p\<lparr>pay_status := nextStatus, refundedCents := refundedCents p + amount\<rparr>) st;
               st = st\<lparr>ps_refunds := ps_refunds st @ [\<lparr>rf_paymentId = paymentId, rf_amountCents = amount,
                 rf_processorRefundId = processorRefundId, rf_reason = reason\<rparr>]\<rparr> in
           Inr (append_event (pay_tenantId payment) (PaymentRefunded paymentId amount) st)))"

definition refund ::
  "string \<Rightarrow> rat option \<Rightarrow> string option \<Rightarrow> string option \<Rightarrow> PayState \<Rightarrow> PayState res" where
  "refund paymentId amount processorRefundId reason st =
     (if \<not> positive_integer amount
      then Inl (BadRequestException ''refund amountCents must be a positive integer'')
      else case refund_tx paymentId \<lfloor>the amount\<rfloor> processorRefundId reason st of
        Inl UniqueViolation \<Rightarrow> Inr st
      | r \<Rightarrow> r)"

section \<open>Reads\<close>

definition getPayment :: "string \<Rightarrow> string \<Rightarrow> PayState \<Rightarrow> Payment res" where
  "getPayment tenantId paymentId st =
     (case find (\<lambda>p. pay_id p = paymentId \<and> pay_tenantId p = tenantId) (ps_payments st) of
        None \<Rightarrow> Inl (NotFoundException ''Payment not found'')
      | Some p \<Rightarrow> Inr p)"

definition listPayments :: "string \<Rightarrow> int \<Rightarrow> PayState \<Rightarrow> Payment list" where
  "listPayments tenantId limit st =
     take (nat (min (max 1 limit) 200)) (rev (filter (\<lambda>p. pay_tenantId p = tenantId) (ps_payments st)))"

definition listRefunds :: "string \<Rightarrow> string \<Rightarrow> PayState \<Rightarrow> Refund list res" where
  "listRefunds tenantId paymentId st =
     rbind (getPayment tenantId paymentId st) (\<lambda>p.
       Inr (rev (filter (\<lambda>r. rf_paymentId r = paymentId) (ps_refunds st))))"

section \<open>Projections\<close>

definition coalesce :: "'a option \<Rightarrow> 'a option \<Rightarrow> 'a option" where
  "coalesce new old = (case new of None \<Rightarrow> old | Some v \<Rightarrow> new)"

definition projectCustomer :: "string \<Rightarrow> string option \<Rightarrow> string option \<Rightarrow> string option \<Rightarrow> PayState \<Rightarrow> PayState" where
  "projectCustomer providerId tenantId networkId email st =
     (if list_ex (\<lambda>c. cu_providerCustomerId c = providerId) (ps_customers st)
      then st\<lparr>ps_customers := map (\<lambda>c. if cu_providerCustomerId c = providerId
             then c\<lparr>cu_tenantId := coalesce tenantId (cu_tenantId c),
                    cu_networkId := coalesce networkId (cu_networkId c),
                    cu_email := coalesce email (cu_email c)\<rparr> else c) (ps_customers st)\<rparr>
      else st\<lparr>ps_customers := ps_customers st @
             [\<lparr>cu_id = nat_to_string (ps_nextId st), cu_networkId = networkId, cu_tenantId = tenantId,
               cu_providerCustomerId = providerId, cu_email = email\<rparr>],
           ps_nextId := ps_nextId st + 1\<rparr>)"

definition projectSubscription ::
  "string \<Rightarrow> string \<Rightarrow> string \<Rightarrow> string option \<Rightarrow> rat option \<Rightarrow> PayState \<Rightarrow> PayState" where
  "projectSubscription tenantId providerId status planName periodEnd st =
     (if list_ex (\<lambda>s. sub_providerSubscriptionId s = providerId) (ps_subscriptions st)
      then st\<lparr>ps_subscriptions := map (\<lambda>s. if sub_providerSubscriptionId s = providerId
             then s\<lparr>sub_status := status, sub_planName := coalesce planName (sub_planName s),
                    sub_currentPeriodEnd := coalesce periodEnd (sub_currentPeriodEnd s)\<rparr> else s)
             (ps_subscriptions st)\<rparr>
      else st\<lparr>ps_subscriptions := ps_subscriptions st @
             [\<lparr>sub_tenantId = tenantId, sub_providerSubscriptionId = providerId, sub_status = status,
               sub_planName = planName, sub_currentPeriodEnd = periodEnd\<rparr>]\<rparr>)"

definition projectInvoice ::
  "string \<Rightarrow> string \<Rightarrow> string \<Rightarrow> rat option \<Rightarrow> string \<Rightarrow> PayState \<Rightarrow> PayState res" where
  "projectInvoice tenantId providerId status amount cur st =
     (if \<not> js_is_integer amount then Inl (ThrownError ''PrismaClientValidationError'')
      else if list_ex (\<lambda>i. inv_providerInvoiceId i = providerId) (ps_invoices st)
      then Inr (st\<lparr>ps_invoices := map (\<lambda>i. if inv_providerInvoiceId i = providerId
             then i\<lparr>inv_status := status, inv_amountCents := \<lfloor>the amount\<rfloor>, inv_currency := cur\<rparr> else i)
             (ps_invoices st)\<rparr>)
      else Inr (st\<lparr>ps_invoices := ps_invoices st @
             [\<lparr>inv_tenantId = tenantId, inv_providerInvoiceId = providerId, inv_status = status,
               inv_amountCents = \<lfloor>the amount\<rfloor>, inv_currency = cur\<rparr>]\<rparr>))"

definition projectPaymentMethod ::
  "string \<Rightarrow> string \<Rightarrow> string option \<Rightarrow> string option \<Rightarrow> bool option \<Rightarrow> PayState \<Rightarrow> PayState" where
  "projectPaymentMethod customerId providerId brand last4 isDefault st =
     (if list_ex (\<lambda>m. pm_providerMethodId m = providerId) (ps_methods st)
      then st\<lparr>ps_methods := map (\<lambda>m. if pm_providerMethodId m = providerId
             then m\<lparr>pm_brand := coalesce brand (pm_brand m), pm_last4 := coalesce last4 (pm_last4 m),
                    pm_isDefault := (case isDefault of None \<Rightarrow> pm_isDefault m | Some d \<Rightarrow> d)\<rparr> else m)
             (ps_methods st)\<rparr>
      else st\<lparr>ps_methods := ps_methods st @
             [\<lparr>pm_customerId = customerId, pm_providerMethodId = providerId, pm_brand = brand,
               pm_last4 = last4, pm_isDefault = (case isDefault of None \<Rightarrow> False | Some d \<Rightarrow> d)\<rparr>]\<rparr>)"

section \<open>Payment methods\<close>

definition requireCustomer :: "string \<Rightarrow> PayState \<Rightarrow> Customer res" where
  "requireCustomer tenantId st =
     (case find (\<lambda>c. cu_tenantId c = Some tenantId) (ps_customers st) of
        None \<Rightarrow> Inl (BadRequestException ''No billing customer for this tenant'')
      | Some c \<Rightarrow> Inr c)"

definition requireTenantPaymentMethod :: "string \<Rightarrow> string \<Rightarrow> PayState \<Rightarrow> (PaymentMethod \<times> Customer) res" where
  "requireTenantPaymentMethod tenantId providerId st =
     (case find (\<lambda>m. pm_providerMethodId m = providerId) (ps_methods st) of
        None \<Rightarrow> Inl (NotFoundException ''Payment method not found'')
      | Some m \<Rightarrow>
          (case find (\<lambda>c. cu_id c = pm_customerId m \<and> cu_tenantId c = Some tenantId) (ps_customers st) of
             None \<Rightarrow> Inl (NotFoundException ''Payment method not found'')
           | Some c \<Rightarrow> Inr (m, c)))"

text \<open>\<open>attached\<close> is Stripe's answer to the attach call: the method's id, brand and last digits.\<close>

definition attachPaymentMethod ::
  "string \<Rightarrow> string \<times> string option \<times> string option \<Rightarrow> PayState \<Rightarrow> PayState res" where
  "attachPaymentMethod tenantId attached st =
     rbind (requireCustomer tenantId st) (\<lambda>customer.
       Inr (projectPaymentMethod (cu_id customer) (fst attached) (fst (snd attached)) (snd (snd attached)) None st))"

definition detachPaymentMethod :: "string \<Rightarrow> string \<Rightarrow> PayState \<Rightarrow> PayState res" where
  "detachPaymentMethod tenantId providerId st =
     rbind (requireTenantPaymentMethod tenantId providerId st) (\<lambda>mc.
       Inr (st\<lparr>ps_methods := filter (\<lambda>m. pm_providerMethodId m \<noteq> providerId) (ps_methods st)\<rparr>))"

definition setDefaultPaymentMethod :: "string \<Rightarrow> string \<Rightarrow> PayState \<Rightarrow> PayState res" where
  "setDefaultPaymentMethod tenantId providerId st =
     rbind (requireTenantPaymentMethod tenantId providerId st) (\<lambda>mc.
       let cleared = map (\<lambda>m. if pm_customerId m = pm_customerId (fst mc) \<and> pm_isDefault m
                              then m\<lparr>pm_isDefault := False\<rparr> else m) (ps_methods st) in
       Inr (st\<lparr>ps_methods := map (\<lambda>m. if pm_providerMethodId m = providerId
                                  then m\<lparr>pm_isDefault := True\<rparr> else m) cleared\<rparr>))"

section \<open>Stripe webhooks\<close>

record StripeEvent =
  se_id :: string
  se_type :: string
  se_object :: json

text \<open>A provider id that is not a string is refused by the query layer.\<close>

definition resolveByProvider :: "json \<Rightarrow> PayState \<Rightarrow> Payment option res" where
  "resolveByProvider providerId st =
     (case providerId of
        JStr s \<Rightarrow> Inr (find (\<lambda>p. providerPaymentId p = Some s) (ps_payments st))
      | _ \<Rightarrow> Inl (ThrownError ''PrismaClientValidationError''))"

definition resolve_object :: "json option \<Rightarrow> PayState \<Rightarrow> Payment option res" where
  "resolve_object v st = (if js_truthy v then resolveByProvider (the v) st else Inr None)"

definition resolveTenantId :: "JsEnv \<Rightarrow> json \<Rightarrow> PayState \<Rightarrow> string option" where
  "resolveTenantId js object st =
     (let metaTenant = Option.bind (jget object ''metadata'') (\<lambda>m. jget m ''tenantId'') in
      if js_truthy metaTenant then Some (js_String js (the metaTenant))
      else if js_truthy (jget object ''customer'')
      then (case find (\<lambda>c. cu_providerCustomerId c = js_String js (the (jget object ''customer'')))
                  (ps_customers st) of
              None \<Rightarrow> None
            | Some c \<Rightarrow> if truthy (cu_tenantId c) then cu_tenantId c else None)
      else None)"

definition opt_string :: "JsEnv \<Rightarrow> json option \<Rightarrow> string option" where
  "opt_string js v = (if js_truthy v then Some (js_String js (the v)) else None)"

definition null_string :: "json option \<Rightarrow> string option" where
  "null_string v = (case v of Some (JStr s) \<Rightarrow> Some s | _ \<Rightarrow> None)"

type_synonym outcome = "api_error option \<times> PayState"

definition commit :: "PayState res \<Rightarrow> PayState \<Rightarrow> outcome" where
  "commit r st = (case r of Inl e \<Rightarrow> (Some e, st) | Inr st' \<Rightarrow> (None, st'))"

definition on_payment_intent_processing :: "json \<Rightarrow> PayState \<Rightarrow> outcome" where
  "on_payment_intent_processing object st =
     (case resolve_object (jget object ''id'') st of
        Inl e \<Rightarrow> (Some e, st)
      | Inr None \<Rightarrow> (None, st)
      | Inr (Some payment) \<Rightarrow> commit (markProcessing (pay_id payment) st) st)"

definition on_payment_intent_succeeded :: "JsEnv \<Rightarrow> json \<Rightarrow> PayState \<Rightarrow> outcome" where
  "on_payment_intent_succeeded js object st =
     (case resolve_object (jget object ''id'') st of
        Inl e \<Rightarrow> (Some e, st)
      | Inr (Some payment) \<Rightarrow> commit (markSucceeded (pay_id payment) st) st
      | Inr None \<Rightarrow>
          (case resolveTenantId js object st of
             None \<Rightarrow> (None, st)
           | Some tenantId \<Rightarrow>
               if tenantId = [] then (None, st)
               else (case recordPayment
                   \<lparr>in_tenantId = tenantId,
                    in_amountCents = numberOr js (js_or (jget object ''amount_received'') (jget object ''amount'')),
                    in_currency = stringOr js (jget object ''currency'') ''AUD'', in_type = ONE_TIME,
                    in_customerRef = opt_string js (jget object ''customer''), in_networkId = None,
                    in_providerPaymentId = Some (case jget object ''id'' of None \<Rightarrow> ''undefined''
                                                  | Some j \<Rightarrow> js_String js j),
                    in_subscriptionId = None, in_invoiceId = None\<rparr> st of
                 Inl e \<Rightarrow> (Some e, st)
               | Inr (payment, st1) \<Rightarrow> commit (markSucceeded (pay_id payment) st1) st1)))"

definition on_payment_intent_failed :: "json \<Rightarrow> PayState \<Rightarrow> outcome" where
  "on_payment_intent_failed object st =
     (case resolve_object (jget object ''id'') st of
        Inl e \<Rightarrow> (Some e, st)
      | Inr None \<Rightarrow> (None, st)
      | Inr (Some payment) \<Rightarrow>
          commit (markFailed (pay_id payment)
            (null_string (Option.bind (jget object ''last_payment_error'') (\<lambda>e. jget e ''message''))) st) st)"

definition on_charge_refunded :: "JsEnv \<Rightarrow> json \<Rightarrow> PayState \<Rightarrow> outcome" where
  "on_charge_refunded js object st =
     (case (case opt_string js (jget object ''payment_intent'') of
              None \<Rightarrow> Inr None | Some piId \<Rightarrow> resolveByProvider (JStr piId) st) of
        Inl e \<Rightarrow> (Some e, st)
      | Inr None \<Rightarrow> (None, st)
      | Inr (Some payment) \<Rightarrow>
          (case numberOr js (jget object ''amount_refunded'') of
             None \<Rightarrow> (None, st)
           | Some refundedTotal \<Rightarrow>
               let delta = refundedTotal - of_int (refundedCents payment) in
               if delta > 0
               then commit (refund (pay_id payment) (Some delta) (opt_string js (jget object ''id'')) None st) st
               else (None, st)))"

definition json_path :: "json option \<Rightarrow> string \<Rightarrow> json option" where
  "json_path v k = Option.bind v (\<lambda>j. jget j k)"

definition first_item :: "json option \<Rightarrow> json option" where
  "first_item v = (case v of Some (JArr (x # xs)) \<Rightarrow> Some x | _ \<Rightarrow> None)"

definition on_subscription :: "JsEnv \<Rightarrow> json \<Rightarrow> PayState \<Rightarrow> outcome" where
  "on_subscription js object st =
     (case resolveTenantId js object st of
        Some tenantId \<Rightarrow>
          if tenantId \<noteq> [] \<and> js_truthy (jget object ''id'')
          then
            let subId = js_String js (the (jget object ''id''));
                status = stringOr js (jget object ''status'') ''unknown'';
                planName = null_string (json_path (json_path
                  (first_item (json_path (jget object ''items'') ''data'')) ''price'') ''nickname'');
                periodEnd = numberOr js (jget object ''current_period_end'') in
            if js_truthy (jget object ''current_period_end'') \<and> periodEnd = None
            then (Some (ThrownError ''PrismaClientValidationError''), st)
            else
              let st = projectSubscription tenantId subId status planName
                    (if js_truthy (jget object ''current_period_end'')
                     then map_option (\<lambda>n. n * 1000) periodEnd else None) st in
              (None, append_event tenantId (SubscriptionChanged subId status) st)
          else (None, st)
      | None \<Rightarrow> (None, st))"

definition on_invoice_paid :: "JsEnv \<Rightarrow> json \<Rightarrow> PayState \<Rightarrow> outcome" where
  "on_invoice_paid js object st =
     (case resolveTenantId js object st of
        Some tenantId \<Rightarrow>
          if tenantId \<noteq> [] \<and> js_truthy (jget object ''id'')
          then commit (projectInvoice tenantId (js_String js (the (jget object ''id'')))
                 (stringOr js (jget object ''status'') ''paid'')
                 (numberOr js (js_or (jget object ''amount_paid'') (jget object ''total'')))
                 (stringOr js (jget object ''currency'') ''AUD'') st) st
          else (None, st)
      | None \<Rightarrow> (None, st))"

definition on_customer :: "JsEnv \<Rightarrow> json \<Rightarrow> PayState \<Rightarrow> outcome" where
  "on_customer js object st =
     (if js_truthy (jget object ''id'')
      then (None, projectCustomer (js_String js (the (jget object ''id'')))
              (opt_string js (json_path (jget object ''metadata'') ''tenantId'')) None
              (null_string (jget object ''email'')) st)
      else (None, st))"

definition dispatchStripeEvent :: "JsEnv \<Rightarrow> StripeEvent \<Rightarrow> PayState \<Rightarrow> outcome" where
  "dispatchStripeEvent js event st =
     (let object = se_object event; type = se_type event in
      if type = ''payment_intent.processing'' then on_payment_intent_processing object st
      else if type = ''payment_intent.succeeded'' then on_payment_intent_succeeded js object st
      else if type = ''payment_intent.payment_failed'' then on_payment_intent_failed object st
      else if type = ''charge.refunded'' then on_charge_refunded js object st
      else if type \<in> {''customer.subscription.created'', ''customer.subscription.updated'',
                      ''customer.subscription.deleted''} then on_subscription js object st
      else if type = ''invoice.paid'' then on_invoice_paid js object st
      else if type \<in> {''customer.created'', ''customer.updated''} then on_customer js object st
      else (None, st))"

definition processStripeEvent :: "JsEnv \<Rightarrow> StripeEvent \<Rightarrow> PayState \<Rightarrow> outcome" where
  "processStripeEvent js event st =
     (case claim ''stripe'' (se_id event) st of
        (False, st) \<Rightarrow> (None, st)
      | (True, st1) \<Rightarrow>
          (case dispatchStripeEvent js event st1 of
             (None, st2) \<Rightarrow> (None, st2)
           | (Some err, st2) \<Rightarrow> (Some err, release ''stripe'' (se_id event) st2)))"

section \<open>The ledger invariant\<close>

definition refunded_total :: "Refund list \<Rightarrow> string \<Rightarrow> int" where
  "refunded_total rs paymentId =
     sum_list (map rf_amountCents (filter (\<lambda>r. rf_paymentId r = paymentId) rs))"

definition payment_ok :: "Refund list \<Rightarrow> Payment \<Rightarrow> bool" where
  "payment_ok rs p \<longleftrightarrow>
     0 < amountCents p \<and> 0 \<le> refundedCents p \<and> refundedCents p \<le> amountCents p \<and>
     refundedCents p = refunded_total rs (pay_id p) \<and>
     (pay_status p = PaymentStatus.REFUNDED \<longleftrightarrow> refundedCents p = amountCents p) \<and>
     (pay_status p = PaymentStatus.PARTIALLY_REFUNDED \<longleftrightarrow>
        0 < refundedCents p \<and> refundedCents p < amountCents p)"

definition ledger_ok :: "PayState \<Rightarrow> bool" where
  "ledger_ok st \<longleftrightarrow>
     distinct (map pay_id (ps_payments st)) \<and>
     (\<forall>p\<in>set (ps_payments st). payment_ok (ps_refunds st) p \<and>
        (\<exists>n<ps_nextId st. pay_id p = nat_to_string n)) \<and>
     (\<forall>r\<in>set (ps_refunds st). 0 < rf_amountCents r \<and> rf_paymentId r \<in> pay_id ` set (ps_payments st))"

lemma ledger_ok_cong:
  "ps_payments st' = ps_payments st \<Longrightarrow> ps_refunds st' = ps_refunds st \<Longrightarrow> ps_nextId st \<le> ps_nextId st' \<Longrightarrow>
   ledger_ok st \<Longrightarrow> ledger_ok st'"
  unfolding ledger_ok_def by (metis order_less_le_trans)

lemma append_event_tables [simp]:
  "ps_payments (append_event t e st) = ps_payments st" "ps_refunds (append_event t e st) = ps_refunds st"
  "ps_nextId (append_event t e st) = ps_nextId st" "ps_claims (append_event t e st) = ps_claims st"
  by (simp_all add: append_event_def)

lemma ledger_ok_append [simp]: "ledger_ok (append_event t e st) = ledger_ok st"
  by (simp add: ledger_ok_def)

lemma lockAndLoad_ok:
  "lockAndLoad paymentId st = Inr p \<longleftrightarrow> find (\<lambda>p. pay_id p = paymentId) (ps_payments st) = Some p"
  by (auto simp: lockAndLoad_def split: option.splits)

lemma loaded_unique:
  assumes "ledger_ok st" "lockAndLoad paymentId st = Inr p" "q \<in> set (ps_payments st)" "pay_id q = paymentId"
  shows "q = p"
  using assms find_Some_in [of "\<lambda>p. pay_id p = paymentId" "ps_payments st" p]
  by (auto simp: lockAndLoad_ok ledger_ok_def distinct_map inj_on_def)

lemma ledger_update:
  assumes ok: "ledger_ok st" and load: "lockAndLoad paymentId st = Inr p"
    and f: "pay_id (f p) = pay_id p" "payment_ok (ps_refunds st') (f p)"
    and st': "ps_payments st' = map (\<lambda>q. if pay_id q = paymentId then f q else q) (ps_payments st)"
      "ps_nextId st' = ps_nextId st"
    and others: "\<And>q. q \<noteq> paymentId \<Longrightarrow> refunded_total (ps_refunds st') q = refunded_total (ps_refunds st) q"
    and rows: "\<forall>r\<in>set (ps_refunds st'). 0 < rf_amountCents r \<and> rf_paymentId r \<in> pay_id ` set (ps_payments st)"
  shows "ledger_ok st'"
proof -
  have same: "q = p" if "q \<in> set (ps_payments st)" "pay_id q = paymentId" for q
    using loaded_unique [OF ok load that] .
  then have ids: "map pay_id (ps_payments st') = map pay_id (ps_payments st)"
    using f(1) by (auto simp: st')
  have "payment_ok (ps_refunds st') q'" if "q' \<in> set (ps_payments st')" for q'
  proof -
    from that obtain q where q: "q \<in> set (ps_payments st)" "q' = (if pay_id q = paymentId then f q else q)"
      by (auto simp: st')
    show ?thesis
    proof (cases "pay_id q = paymentId")
      case True
      with same [OF q(1)] q f(2) show ?thesis by simp
    next
      case False
      with q ok others [OF False] show ?thesis by (auto simp: ledger_ok_def payment_ok_def)
    qed
  qed
  moreover have "\<exists>n<ps_nextId st'. pay_id q' = nat_to_string n" if "q' \<in> set (ps_payments st')" for q'
  proof -
    from that have "pay_id q' \<in> set (map pay_id (ps_payments st))" by (metis ids image_eqI list.set_map)
    then show ?thesis using ok by (auto simp: ledger_ok_def st')
  qed
  moreover have "pay_id ` set (ps_payments st') = pay_id ` set (ps_payments st)"
    using ids by (metis list.set_map)
  ultimately show ?thesis
    using ok ids rows by (auto simp: ledger_ok_def)
qed

lemma loaded_ok:
  assumes "ledger_ok st" "lockAndLoad paymentId st = Inr p"
  shows "payment_ok (ps_refunds st) p" "pay_id p = paymentId" "p \<in> set (ps_payments st)"
  using assms find_Some_in [of "\<lambda>p. pay_id p = paymentId" "ps_payments st" p]
  by (auto simp: lockAndLoad_ok ledger_ok_def)

lemma ledger_status:
  assumes ok: "ledger_ok st" and load: "lockAndLoad paymentId st = Inr p"
    and f: "\<And>q. pay_id (f q) = pay_id q" "\<And>q. amountCents (f q) = amountCents q"
      "\<And>q. refundedCents (f q) = refundedCents q"
    and status: "pay_status (f p) \<notin> {PaymentStatus.REFUNDED, PaymentStatus.PARTIALLY_REFUNDED}"
      "pay_status p \<notin> {PaymentStatus.REFUNDED, PaymentStatus.PARTIALLY_REFUNDED}"
  shows "ledger_ok (update_payment paymentId f st)"
proof (rule ledger_update [where f = f, OF ok load f(1)])
  have "payment_ok (ps_refunds st) p" by (rule loaded_ok(1) [OF ok load])
  then show "payment_ok (ps_refunds (update_payment paymentId f st)) (f p)"
    using status by (auto simp: payment_ok_def f update_payment_def)
qed (use ok in \<open>auto simp: update_payment_def ledger_ok_def\<close>)

lemma transition_sources:
  "assertValidPaymentTransition s t = Inr u \<Longrightarrow>
   t \<in> {PaymentStatus.PROCESSING, PaymentStatus.SUCCEEDED, PaymentStatus.FAILED} \<Longrightarrow>
   s \<in> {PaymentStatus.RECORDED, PaymentStatus.PROCESSING}"
  by (cases s) (auto simp: assertValidPaymentTransition_def assertTransition_def split: if_splits)

lemma refund_sources:
  "assertValidPaymentTransition s t = Inr u \<Longrightarrow>
   t \<in> {PaymentStatus.REFUNDED, PaymentStatus.PARTIALLY_REFUNDED} \<Longrightarrow>
   s \<in> {PaymentStatus.SUCCEEDED, PaymentStatus.PARTIALLY_REFUNDED}"
  by (cases s) (auto simp: assertValidPaymentTransition_def assertTransition_def split: if_splits)

lemma mark_ledger:
  assumes "ledger_ok st"
  shows "markProcessing paymentId st = Inr st' \<Longrightarrow> ledger_ok st'"
    and "markSucceeded paymentId st = Inr st' \<Longrightarrow> ledger_ok st'"
    and "markFailed paymentId reason st = Inr st' \<Longrightarrow> ledger_ok st'"
proof -
  show "ledger_ok st'" if "markProcessing paymentId st = Inr st'"
    using that by (auto simp: markProcessing_def rbind_Inr_iff dest!: transition_sources
        intro!: ledger_status [OF assms])
  show "ledger_ok st'" if "markSucceeded paymentId st = Inr st'"
    using that by (auto simp: markSucceeded_def rbind_Inr_iff dest!: transition_sources
        intro!: ledger_status [OF assms])
  show "ledger_ok st'" if "markFailed paymentId reason st = Inr st'"
    using that by (auto simp: markFailed_def rbind_Inr_iff dest!: transition_sources
        intro!: ledger_status [OF assms])
qed

lemma nat_to_string_fresh:
  "ledger_ok st \<Longrightarrow> nat_to_string (ps_nextId st) \<notin> pay_id ` set (ps_payments st)"
  by (fastforce simp: ledger_ok_def)

lemma refunded_total_none: "paymentId \<notin> rf_paymentId ` set rs \<Longrightarrow> refunded_total rs paymentId = 0"
  by (induction rs) (auto simp: refunded_total_def)

lemma positive_integer_floor: "positive_integer n \<Longrightarrow> 0 < \<lfloor>the n\<rfloor>"
  by (auto simp: positive_integer_def js_is_integer_def split: option.splits)

lemma recordPayment_ledger:
  assumes ok: "ledger_ok st" and rec: "recordPayment input st = Inr (p, st')"
  shows "ledger_ok st'"
proof -
  let ?id = "nat_to_string (ps_nextId st)"
  from rec have p: "pay_id p = ?id" "refundedCents p = 0" "pay_status p = PaymentStatus.RECORDED"
      "amountCents p = \<lfloor>the (in_amountCents input)\<rfloor>" "positive_integer (in_amountCents input)"
      "ps_payments st' = ps_payments st @ [p]" "ps_refunds st' = ps_refunds st" "ps_nextId st' = ps_nextId st + 1"
    by (auto simp: recordPayment_def Let_def split: if_splits)
  have pos: "0 < amountCents p" using positive_integer_floor p(4,5) by simp
  have fresh: "?id \<notin> pay_id ` set (ps_payments st)" by (rule nat_to_string_fresh [OF ok])
  have "?id \<notin> rf_paymentId ` set (ps_refunds st)" using ok fresh by (auto simp: ledger_ok_def)
  then have "payment_ok (ps_refunds st) p"
    using p(1,2,3,7) pos by (simp add: payment_ok_def refunded_total_none)
  then show ?thesis
    using ok p fresh by (auto simp: ledger_ok_def less_Suc_eq)
qed

lemma refund_tx_Inr:
  assumes "refund_tx paymentId amount processorRefundId reason st = Inr st'"
  obtains p u where "lockAndLoad paymentId st = Inr p" "amount \<le> amountCents p - refundedCents p"
    "assertValidPaymentTransition (pay_status p) (refund_status p amount) = Inr u"
    "ps_payments st' = map (\<lambda>q. if pay_id q = paymentId then
       (q\<lparr>pay_status := refund_status p amount, refundedCents := refundedCents q + amount\<rparr>) else q) (ps_payments st)"
    "ps_refunds st' = ps_refunds st @ [\<lparr>rf_paymentId = paymentId, rf_amountCents = amount,
       rf_processorRefundId = processorRefundId, rf_reason = reason\<rparr>]" "ps_nextId st' = ps_nextId st"
proof -
  obtain p where load: "lockAndLoad paymentId st = Inr p"
    using assms by (auto simp: refund_tx_def rbind_Inr_iff)
  with assms have within: "\<not> amount > amountCents p - refundedCents p"
    by (auto simp: refund_tx_def Let_def split: if_split_asm)
  with assms load obtain u where valid: "assertValidPaymentTransition (pay_status p) (refund_status p amount) = Inr u"
    by (auto simp: refund_tx_def Let_def rbind_Inr_iff)
  from assms load within valid show ?thesis
    by (intro that [OF load _ valid])
      (auto simp: refund_tx_def Let_def update_payment_def split: if_split_asm)
qed

lemma refund_tx_ledger:
  assumes ok: "ledger_ok st" and pos: "0 < amount"
    and tx: "refund_tx paymentId amount processorRefundId reason st = Inr st'"
  shows "ledger_ok st'"
proof -
  from tx obtain p u where load: "lockAndLoad paymentId st = Inr p" and
      within: "amount \<le> amountCents p - refundedCents p" and
      valid: "assertValidPaymentTransition (pay_status p) (refund_status p amount) = Inr u"
    and st': "ps_payments st' = map (\<lambda>q. if pay_id q = paymentId then
          (q\<lparr>pay_status := refund_status p amount, refundedCents := refundedCents q + amount\<rparr>) else q) (ps_payments st)"
      "ps_refunds st' = ps_refunds st @ [\<lparr>rf_paymentId = paymentId, rf_amountCents = amount,
         rf_processorRefundId = processorRefundId, rf_reason = reason\<rparr>]" "ps_nextId st' = ps_nextId st"
    by (rule refund_tx_Inr)
  note p = loaded_ok [OF ok load]
  have row: "payment_ok (ps_refunds st')
        (p\<lparr>pay_status := refund_status p amount, refundedCents := refundedCents p + amount\<rparr>)"
    using p within pos by (auto simp: payment_ok_def st'(2) refunded_total_def refund_status_def)
  have rows: "\<forall>r\<in>set (ps_refunds st'). 0 < rf_amountCents r \<and> rf_paymentId r \<in> pay_id ` set (ps_payments st)"
    using ok p pos by (auto simp: st'(2) ledger_ok_def)
  show ?thesis
    by (rule ledger_update [OF ok load _ row st'(1) st'(3) _ rows]) (simp_all add: st'(2) refunded_total_def)
qed

lemma refund_ledger:
  assumes "ledger_ok st" "refund paymentId amount processorRefundId reason st = Inr st'"
  shows "ledger_ok st'"
proof (cases "refund_tx paymentId \<lfloor>the amount\<rfloor> processorRefundId reason st")
  case (Inl e)
  with assms show ?thesis by (auto simp: refund_def split: if_splits api_error.splits)
next
  case (Inr st2)
  with assms have "st2 = st'" "positive_integer amount" by (auto simp: refund_def split: if_splits)
  moreover from this(2) have "0 < \<lfloor>the amount\<rfloor>" by (rule positive_integer_floor)
  ultimately show ?thesis using refund_tx_ledger [OF assms(1)] Inr by blast
qed

lemma project_tables:
  "ps_payments (projectCustomer a b c d st) = ps_payments st" "ps_refunds (projectCustomer a b c d st) = ps_refunds st"
  "ps_nextId st \<le> ps_nextId (projectCustomer a b c d st)"
  by (simp_all add: projectCustomer_def)

lemma projectSubscription_tables:
  "ps_payments (projectSubscription a b c d e st) = ps_payments st"
  "ps_refunds (projectSubscription a b c d e st) = ps_refunds st"
  "ps_nextId (projectSubscription a b c d e st) = ps_nextId st"
  by (simp_all add: projectSubscription_def)

lemma projectInvoice_tables:
  "projectInvoice a b c d e st = Inr st' \<Longrightarrow>
   ps_payments st' = ps_payments st \<and> ps_refunds st' = ps_refunds st \<and> ps_nextId st' = ps_nextId st"
  by (auto simp: projectInvoice_def split: if_splits)

section \<open>Invariants of the transactions\<close>

text \<open>
  What every transaction of the service keeps, the webhook dispatcher keeps: the contract is
  proved once and interpreted for the ledger, for the payment methods and for the claims.
\<close>

locale tx_invariant =
  fixes P :: "PayState \<Rightarrow> bool"
  assumes record_keeps: "P st \<Longrightarrow> recordPayment input st = Inr (p, st') \<Longrightarrow> P st'"
    and processing_keeps: "P st \<Longrightarrow> markProcessing paymentId st = Inr st' \<Longrightarrow> P st'"
    and succeeded_keeps: "P st \<Longrightarrow> markSucceeded paymentId st = Inr st' \<Longrightarrow> P st'"
    and failed_keeps: "P st \<Longrightarrow> markFailed paymentId reason st = Inr st' \<Longrightarrow> P st'"
    and refund_keeps: "P st \<Longrightarrow> refund paymentId amount processorRefundId reason st = Inr st' \<Longrightarrow> P st'"
    and subscription_keeps: "P st \<Longrightarrow> P (projectSubscription a b c d e st)"
    and invoice_keeps: "P st \<Longrightarrow> projectInvoice a b c n q st = Inr st' \<Longrightarrow> P st'"
    and customer_keeps: "P st \<Longrightarrow> P (projectCustomer a f g h st)"
    and append_keeps: "P st \<Longrightarrow> P (append_event t ev st)"
begin

lemma commit_keeps: "P st \<Longrightarrow> (\<And>st'. r = Inr st' \<Longrightarrow> P st') \<Longrightarrow> P (snd (commit r st))"
  by (auto simp: commit_def split: sum.splits)

lemma on_processing: "P st \<Longrightarrow> P (snd (on_payment_intent_processing obj st))"
  using processing_keeps
  by (auto simp: on_payment_intent_processing_def intro!: commit_keeps split: sum.splits option.splits)

lemma record_then_succeeded:
  "P st \<Longrightarrow> recordPayment input st = Inr (p, st1) \<Longrightarrow> P (snd (commit (markSucceeded (pay_id p) st1) st1))"
  by (rule commit_keeps) (auto intro: record_keeps succeeded_keeps)

lemma on_succeeded: "P st \<Longrightarrow> P (snd (on_payment_intent_succeeded js obj st))"
  using succeeded_keeps record_then_succeeded
  by (auto simp: on_payment_intent_succeeded_def intro: commit_keeps split: sum.splits option.splits)

lemma on_failed: "P st \<Longrightarrow> P (snd (on_payment_intent_failed obj st))"
  using failed_keeps
  by (auto simp: on_payment_intent_failed_def intro!: commit_keeps split: sum.splits option.splits)

lemma on_refunded: "P st \<Longrightarrow> P (snd (on_charge_refunded js obj st))"
  using refund_keeps
  by (auto simp: on_charge_refunded_def Let_def intro!: commit_keeps split: sum.splits option.splits)

lemma on_subscription: "P st \<Longrightarrow> P (snd (on_subscription js obj st))"
  by (auto simp: on_subscription_def Let_def intro: subscription_keeps append_keeps split: option.splits)

lemma on_invoice: "P st \<Longrightarrow> P (snd (on_invoice_paid js obj st))"
  using invoice_keeps
  by (auto simp: on_invoice_paid_def Let_def intro!: commit_keeps split: option.splits)

lemma on_customer: "P st \<Longrightarrow> P (snd (on_customer js obj st))"
  by (simp add: on_customer_def customer_keeps)

lemma dispatch_keeps: "P st \<Longrightarrow> P (snd (dispatchStripeEvent js event st))"
  by (simp add: dispatchStripeEvent_def Let_def on_processing on_succeeded on_failed on_refunded
      on_subscription on_invoice on_customer)

end

locale webhook_invariant = tx_invariant +
  assumes claim_keeps: "P st \<Longrightarrow> P (snd (claim provider eventId st))"
    and release_keeps: "P st \<Longrightarrow> P (release provider eventId st)"
begin

lemma process_keeps: "P st \<Longrightarrow> P (snd (processStripeEvent js event st))"
  using claim_keeps [of st "''stripe''" "se_id event"]
    dispatch_keeps [of "snd (claim ''stripe'' (se_id event) st)" js event]
  by (auto simp: processStripeEvent_def intro: release_keeps split: prod.splits bool.splits option.splits)

end

section \<open>The ledger\<close>

lemma claim_tables:
  "ps_payments (snd (claim a b st)) = ps_payments st" "ps_refunds (snd (claim a b st)) = ps_refunds st"
  "ps_nextId (snd (claim a b st)) = ps_nextId st" "ps_methods (snd (claim a b st)) = ps_methods st"
  by (simp_all add: claim_def)

lemma release_ledger [simp]: "ledger_ok (release a b st) = ledger_ok st"
  by (simp add: release_def ledger_ok_def)

interpretation ledger: webhook_invariant ledger_ok
proof
  show "ledger_ok (snd (claim a b st))" if "ledger_ok st" for st a b
    using ledger_ok_cong [OF _ _ _ that] by (simp add: claim_tables)
  show "ledger_ok (projectSubscription a b c d e st)" if "ledger_ok st" for st a b c d e
    using ledger_ok_cong [OF _ _ _ that] by (simp add: projectSubscription_tables)
  show "ledger_ok (projectCustomer a b c d st)" if "ledger_ok st" for st a b c d
    using ledger_ok_cong [OF _ _ _ that] by (simp add: project_tables)
  show "ledger_ok st'" if "ledger_ok st" "projectInvoice a b c n q st = Inr st'" for st a b c n q st'
    using ledger_ok_cong [OF _ _ _ that(1)] projectInvoice_tables [OF that(2)] by simp
qed (auto intro: recordPayment_ledger mark_ledger refund_ledger)

section \<open>Payment methods\<close>

definition methods_ok :: "PayState \<Rightarrow> bool" where
  "methods_ok st \<longleftrightarrow>
     distinct (map pm_providerMethodId (ps_methods st)) \<and>
     distinct (map pm_customerId (filter pm_isDefault (ps_methods st)))"

lemma methods_ok_cong: "ps_methods st' = ps_methods st \<Longrightarrow> methods_ok st' = methods_ok st"
  by (simp add: methods_ok_def)

lemma methods_ok_append [simp]: "methods_ok (append_event t ev st) = methods_ok st"
  by (simp add: methods_ok_def append_event_def)

lemma update_payment_methods [simp]: "ps_methods (update_payment i f st) = ps_methods st"
  by (simp add: update_payment_def)

lemma refund_methods:
  assumes "refund paymentId amount processorRefundId reason st = Inr st'"
  shows "ps_methods st' = ps_methods st \<and> ps_claims st' = ps_claims st"
proof (cases "refund_tx paymentId \<lfloor>the amount\<rfloor> processorRefundId reason st")
  case (Inl e)
  with assms show ?thesis by (auto simp: refund_def split: if_splits api_error.splits)
next
  case (Inr st2)
  with assms have "refund_tx paymentId \<lfloor>the amount\<rfloor> processorRefundId reason st = Inr st'"
    by (auto simp: refund_def split: if_splits)
  then show ?thesis
    by (auto simp: refund_tx_def rbind_Inr_iff Let_def append_event_def update_payment_def split: if_split_asm)
qed

interpretation methods: webhook_invariant methods_ok
  by standard (auto simp: recordPayment_def markProcessing_def markSucceeded_def markFailed_def rbind_Inr_iff
      projectSubscription_def projectInvoice_def projectCustomer_def Let_def claim_def release_def methods_ok_def
      append_event_def dest: refund_methods split: if_split_asm)


lemma attach_methods:
  assumes ok: "methods_ok st" and attach: "attachPaymentMethod tenantId attached st = Inr st'"
  shows "methods_ok st'"
proof -
  have "\<exists>customer :: Customer. st' = projectPaymentMethod (cu_id customer) (fst attached) (fst (snd attached))
      (snd (snd attached)) None st"
    using attach by (auto simp: attachPaymentMethod_def rbind_Inr_iff)
  then obtain customer :: Customer where st': "st' = projectPaymentMethod (cu_id customer) (fst attached)
      (fst (snd attached)) (snd (snd attached)) None st" ..
  have maps: "map pm_providerMethodId (map f ms) = map pm_providerMethodId ms"
    "map pm_customerId (filter pm_isDefault (map f ms)) = map pm_customerId (filter pm_isDefault ms)"
    if "\<And>m. pm_providerMethodId (f m) = pm_providerMethodId m \<and> pm_customerId (f m) = pm_customerId m \<and>
      pm_isDefault (f m) = pm_isDefault m" for f :: "PaymentMethod \<Rightarrow> PaymentMethod" and ms
    using that by (induction ms) auto
  show ?thesis
  proof (cases "list_ex (\<lambda>m. pm_providerMethodId m = fst attached) (ps_methods st)")
    case True
    then show ?thesis
      using ok by (simp add: st' methods_ok_def projectPaymentMethod_def maps del: map_map filter_map)
  next
    case False
    then have "fst attached \<notin> pm_providerMethodId ` set (ps_methods st)"
      by (auto simp: list_ex_iff)
    with False show ?thesis
      using ok by (simp add: st' methods_ok_def projectPaymentMethod_def)
  qed
qed

lemma detach_methods:
  assumes "methods_ok st" "detachPaymentMethod tenantId providerId st = Inr st'"
  shows "methods_ok st'"
proof -
  have swap: "filter pm_isDefault (filter q ms) = filter q (filter pm_isDefault ms)" for q ms
    by (induction ms) auto
  have "ps_methods st' = filter (\<lambda>m. pm_providerMethodId m \<noteq> providerId) (ps_methods st)"
    using assms(2) by (auto simp: detachPaymentMethod_def rbind_Inr_iff)
  then show ?thesis
    using assms(1) by (simp add: methods_ok_def swap distinct_map_filter del: filter_filter)
qed

lemma default_swap:
  assumes "distinct (map pm_providerMethodId ms)" "distinct (map pm_customerId (filter pm_isDefault ms))"
    "\<forall>m\<in>set ms. pm_providerMethodId m = p \<longrightarrow> pm_customerId m = c"
  shows "distinct (map pm_customerId
    (filter (\<lambda>m. pm_providerMethodId m = p \<or> pm_isDefault m \<and> pm_customerId m \<noteq> c) ms))"
  using assms
proof (induction ms)
  case (Cons m ms)
  let ?Q = "\<lambda>m. pm_providerMethodId m = p \<or> pm_isDefault m \<and> pm_customerId m \<noteq> c"
  have tail: "distinct (map pm_customerId (filter ?Q ms))"
    using Cons.prems by (intro Cons.IH) (auto split: if_split_asm)
  have fresh: "pm_providerMethodId m \<notin> pm_providerMethodId ` set ms"
    using Cons.prems(1) by simp
  have "pm_customerId m \<notin> pm_customerId ` set (filter ?Q ms)" if Q: "?Q m"
  proof
    assume "pm_customerId m \<in> pm_customerId ` set (filter ?Q ms)"
    then obtain x where x: "x \<in> set ms" "?Q x" "pm_customerId x = pm_customerId m" by auto
    show False
    proof (cases "pm_providerMethodId m = p")
      case True
      then have "pm_customerId m = c" "pm_providerMethodId x \<noteq> p"
        using Cons.prems(3) fresh imageI [OF x(1), of pm_providerMethodId] by auto
      with x show False by auto
    next
      case False
      then have m: "pm_isDefault m" "pm_customerId m \<noteq> c" using Q by auto
      then have "pm_isDefault x" using x Cons.prems(3) by auto
      then have "pm_customerId x \<in> pm_customerId ` set (filter pm_isDefault ms)" using x(1) by simp
      moreover have "pm_customerId m \<notin> pm_customerId ` set (filter pm_isDefault ms)"
        using Cons.prems(2) m(1) by simp
      ultimately show False using x(3) by simp
    qed
  qed
  then show ?case using tail by simp
qed simp

lemma default_methods:
  assumes ok: "methods_ok st" and set: "setDefaultPaymentMethod tenantId providerId st = Inr st'"
  shows "methods_ok st'"
proof -
  from set obtain m where m: "m \<in> set (ps_methods st)" "pm_providerMethodId m = providerId" and
    st': "ps_methods st' = map (\<lambda>m. if pm_providerMethodId m = providerId then m\<lparr>pm_isDefault := True\<rparr> else m)
        (map (\<lambda>n. if pm_customerId n = pm_customerId m \<and> pm_isDefault n then n\<lparr>pm_isDefault := False\<rparr> else n) (ps_methods st))"
    by (auto simp: setDefaultPaymentMethod_def requireTenantPaymentMethod_def rbind_Inr_iff Let_def
        split: option.splits dest!: find_Some_in)
  define g where "g = (\<lambda>n :: PaymentMethod. if pm_providerMethodId n = providerId then n\<lparr>pm_isDefault := True\<rparr>
     else if pm_customerId n = pm_customerId m \<and> pm_isDefault n then n\<lparr>pm_isDefault := False\<rparr> else n)"
  have maps: "map pm_providerMethodId (map g ms) = map pm_providerMethodId ms"
    "map pm_customerId (filter pm_isDefault (map g ms)) =
       map pm_customerId (filter (\<lambda>n. pm_providerMethodId n = providerId \<or>
          pm_isDefault n \<and> pm_customerId n \<noteq> pm_customerId m) ms)" for ms
    by (induction ms) (auto simp: g_def)
  have same: "\<forall>n\<in>set (ps_methods st). pm_providerMethodId n = providerId \<longrightarrow> pm_customerId n = pm_customerId m"
    using ok m by (auto simp: methods_ok_def distinct_map inj_on_def)
  have "ps_methods st' = map g (ps_methods st)"
    unfolding st' g_def by (rule nth_equalityI) auto
  then show ?thesis
    using ok default_swap [OF _ _ same]
    by (simp add: methods_ok_def maps del: map_map filter_map)
qed

section \<open>Reachable states\<close>

definition pay_init :: PayState where
  "pay_init = \<lparr>ps_payments = [], ps_refunds = [], ps_customers = [], ps_subscriptions = [], ps_invoices = [],
     ps_methods = [], ps_outbox = [], ps_claims = [], ps_nextId = 0\<rparr>"

text \<open>The transactions of the service: the public operations of \<open>PaymentService\<close> and the webhook. A failed
  operation throws and changes nothing, except the webhook, which answers with its state.\<close>

inductive pay_step :: "JsEnv \<Rightarrow> PayState \<Rightarrow> PayState \<Rightarrow> bool" for js :: JsEnv where
  recorded: "recordPayment input st = Inr (p, st') \<Longrightarrow> pay_step js st st'"
| processing: "markProcessing paymentId st = Inr st' \<Longrightarrow> pay_step js st st'"
| succeeded: "markSucceeded paymentId st = Inr st' \<Longrightarrow> pay_step js st st'"
| failed: "markFailed paymentId reason st = Inr st' \<Longrightarrow> pay_step js st st'"
| refunded: "refund paymentId amount refundId reason st = Inr st' \<Longrightarrow> pay_step js st st'"
| webhook: "processStripeEvent js event st = (err, st') \<Longrightarrow> pay_step js st st'"
| customer: "pay_step js st (projectCustomer providerId tenant network email st)"
| attached: "attachPaymentMethod tenantId answer st = Inr st' \<Longrightarrow> pay_step js st st'"
| detached: "detachPaymentMethod tenantId providerId st = Inr st' \<Longrightarrow> pay_step js st st'"
| defaulted: "setDefaultPaymentMethod tenantId providerId st = Inr st' \<Longrightarrow> pay_step js st st'"

inductive pay_reachable :: "JsEnv \<Rightarrow> PayState \<Rightarrow> bool" for js :: JsEnv where
  initial: "pay_reachable js pay_init"
| step: "pay_reachable js st \<Longrightarrow> pay_step js st st' \<Longrightarrow> pay_reachable js st'"

lemma attach_ledger:
  assumes "attachPaymentMethod tenantId answer st = Inr st' \<or> detachPaymentMethod tenantId providerId st = Inr st' \<or>
     setDefaultPaymentMethod tenantId providerId st = Inr st'"
  shows "ledger_ok st' = ledger_ok st"
  using assms
  by (auto simp: attachPaymentMethod_def detachPaymentMethod_def setDefaultPaymentMethod_def rbind_Inr_iff
      projectPaymentMethod_def ledger_ok_def Let_def split: if_split_asm)

lemma pay_step_ok: "pay_step js st st' \<Longrightarrow> ledger_ok st \<and> methods_ok st \<Longrightarrow> ledger_ok st' \<and> methods_ok st'"
proof (induction rule: pay_step.induct)
  case (webhook event st err st')
  then show ?case
    using ledger.process_keeps [of st js event] methods.process_keeps [of st js event] by simp
next
  case (attached tenantId answer st st')
  then show ?case using attach_methods attach_ledger by metis
next
  case (detached tenantId providerId st st')
  then show ?case using detach_methods attach_ledger by metis
next
  case (defaulted tenantId providerId st st')
  then show ?case using default_methods attach_ledger by metis
qed (blast intro: ledger.record_keeps methods.record_keeps ledger.processing_keeps methods.processing_keeps
    ledger.succeeded_keeps methods.succeeded_keeps ledger.failed_keeps methods.failed_keeps ledger.refund_keeps
    methods.refund_keeps ledger.customer_keeps methods.customer_keeps)+

lemma pay_reachable_ok: "pay_reachable js st \<Longrightarrow> ledger_ok st \<and> methods_ok st"
proof (induction rule: pay_reachable.induct)
  case initial
  show ?case by (simp add: pay_init_def ledger_ok_def methods_ok_def)
qed (rule pay_step_ok)






section \<open>Refund events of a charge\<close>

text \<open>A \<open>charge.refunded\<close> object carries the cumulative refunded amount of its charge.\<close>

definition refund_object :: "json \<Rightarrow> string \<Rightarrow> string \<Rightarrow> int \<Rightarrow> bool" where
  "refund_object object piId chargeId cumulative \<longleftrightarrow>
     jget object ''payment_intent'' = Some (JStr piId) \<and> piId \<noteq> [] \<and>
     jget object ''id'' = Some (JStr chargeId) \<and> chargeId \<noteq> [] \<and>
     jget object ''amount_refunded'' = Some (JNum (of_int cumulative))"

definition charge_recorded :: "PayState \<Rightarrow> string \<Rightarrow> string \<Rightarrow> bool" where
  "charge_recorded st paymentId chargeId \<longleftrightarrow>
     list_ex (\<lambda>r. rf_paymentId r = paymentId \<and> rf_processorRefundId r = Some chargeId) (ps_refunds st)"

lemma on_charge_refunded_delta:
  assumes "refund_object object piId chargeId cumulative"
    "find (\<lambda>p. providerPaymentId p = Some piId) (ps_payments st) = Some p" "refundedCents p < cumulative"
  shows "on_charge_refunded js object st =
    commit (refund (pay_id p) (Some (of_int (cumulative - refundedCents p))) (Some chargeId) None st) st"
  using assms
  by (simp add: on_charge_refunded_def refund_object_def opt_string_def resolveByProvider_def numberOr_def Let_def)

lemma lock_of_provider:
  assumes "ledger_ok st" "find (\<lambda>p. providerPaymentId p = Some piId) (ps_payments st) = Some p"
  shows "lockAndLoad (pay_id p) st = Inr p"
proof -
  have p: "p \<in> set (ps_payments st)" using find_Some_in [OF assms(2)] by simp
  then have "find (\<lambda>q. pay_id q = pay_id p) (ps_payments st) \<noteq> None"
    by (auto simp: find_None_all)
  then obtain q where q: "find (\<lambda>q. pay_id q = pay_id p) (ps_payments st) = Some q" by blast
  then have "q = p" using find_Some_in [OF q] p assms(1) by (auto simp: ledger_ok_def distinct_map inj_on_def)
  with q show ?thesis by (simp add: lockAndLoad_ok)
qed

lemma refund_valid:
  "pay_status p \<in> {PaymentStatus.SUCCEEDED, PaymentStatus.PARTIALLY_REFUNDED} \<Longrightarrow>
   assertValidPaymentTransition (pay_status p) (refund_status p amount) = Inr ()"
  by (auto simp: assertValidPaymentTransition_def refund_status_def)

lemma positive_of_int [simp]: "positive_integer (Some (of_int n)) \<longleftrightarrow> 0 < n"
  by (simp add: positive_integer_def js_is_integer_def)

lemma refund_new_charge:
  assumes "lockAndLoad paymentId st = Inr p" "0 < n" "n \<le> amountCents p - refundedCents p"
    "pay_status p \<in> {PaymentStatus.SUCCEEDED, PaymentStatus.PARTIALLY_REFUNDED}"
    "\<not> charge_recorded st paymentId chargeId"
  shows "refund paymentId (Some (of_int n)) (Some chargeId) reason st =
    Inr (append_event (pay_tenantId p) (PaymentRefunded paymentId n)
      ((update_payment paymentId (\<lambda>q. q\<lparr>pay_status := refund_status p n, refundedCents := refundedCents q + n\<rparr>) st)
         \<lparr>ps_refunds := ps_refunds st @ [\<lparr>rf_paymentId = paymentId, rf_amountCents = n,
            rf_processorRefundId = Some chargeId, rf_reason = reason\<rparr>]\<rparr>))"
  using assms
  by (simp add: refund_def refund_tx_def refund_valid charge_recorded_def Let_def update_payment_def)

lemma refund_known_charge:
  assumes "lockAndLoad paymentId st = Inr p" "0 < n" "n \<le> amountCents p - refundedCents p"
    "pay_status p \<in> {PaymentStatus.SUCCEEDED, PaymentStatus.PARTIALLY_REFUNDED}"
    "charge_recorded st paymentId chargeId"
  shows "refund paymentId (Some (of_int n)) (Some chargeId) reason st = Inr st"
  using assms by (simp add: refund_def refund_tx_def refund_valid charge_recorded_def Let_def)

lemma find_update:
  "(\<And>q. pay_id (f q) = pay_id q) \<Longrightarrow> find (\<lambda>q. pay_id q = i) ps = Some p \<Longrightarrow>
   find (\<lambda>q. pay_id q = i) (map (\<lambda>q. if pay_id q = i then f q else q) ps) = Some (f p)"
  by (induction ps) (auto split: if_splits)

section \<open>Properties\<close>

lemma payments_sound_facts:
  assumes "pay_reachable js st" "p \<in> set (ps_payments st)"
  shows "refundedCents p = refunded_total (ps_refunds st) (pay_id p)"
    and "0 \<le> refundedCents p \<and> refundedCents p \<le> amountCents p"
    and "pay_status p = PaymentStatus.REFUNDED \<longleftrightarrow> refundedCents p = amountCents p"
    and "pay_status p = PaymentStatus.PARTIALLY_REFUNDED \<longleftrightarrow>
       0 < refundedCents p \<and> refundedCents p < amountCents p"
    and "distinct (map pm_customerId (filter pm_isDefault (ps_methods st)))"
  using pay_reachable_ok [OF assms(1)] assms(2) by (auto simp: ledger_ok_def payment_ok_def methods_ok_def)

text \<open>C2: In every state reachable through the service's operations and Stripe's webhooks, a
  payment's refunded amount is the sum of its refund rows, lies between zero and the amount paid, and
  decides its refund status; and no customer has two default payment methods.\<close>

theorem payments_sound:
  assumes "pay_reachable js st" "p \<in> set (ps_payments st)"
  shows "refundedCents p = refunded_total (ps_refunds st) (pay_id p) \<and>
    0 \<le> refundedCents p \<and> refundedCents p \<le> amountCents p \<and>
    (pay_status p = PaymentStatus.REFUNDED \<longleftrightarrow> refundedCents p = amountCents p) \<and>
    (pay_status p = PaymentStatus.PARTIALLY_REFUNDED \<longleftrightarrow>
       0 < refundedCents p \<and> refundedCents p < amountCents p) \<and>
    distinct (map pm_customerId (filter pm_isDefault (ps_methods st)))"
  using payments_sound_facts [OF assms] by simp

definition sample_input :: RecordPaymentInput where
  "sample_input = \<lparr>in_tenantId = ''t'', in_amountCents = Some 500, in_currency = ''AUD'', in_type = ONE_TIME,
     in_customerRef = None, in_networkId = None, in_providerPaymentId = Some ''pi_1'', in_subscriptionId = None,
     in_invoiceId = None\<rparr>"

definition sample_payment :: Payment where
  "sample_payment = \<lparr>pay_id = nat_to_string 0, pay_tenantId = ''t'', pay_networkId = None, amountCents = 500,
     currency = ''AUD'', customerRef = None, providerPaymentId = Some ''pi_1'',
     pay_status = PaymentStatus.RECORDED, pay_type = ONE_TIME, refundedCents = 0, pay_subscriptionId = None,
     pay_invoiceId = None, failureReason = None\<rparr>"

definition sample_state :: PayState where
  "sample_state = pay_init\<lparr>ps_payments := [sample_payment], ps_nextId := 1,
     ps_outbox := [(''t'', StatusChanged (nat_to_string 0) PaymentStatus.RECORDED)]\<rparr>"

lemma sample_recorded: "recordPayment sample_input pay_init = Inr (sample_payment, sample_state)"
  by (simp add: recordPayment_def sample_input_def sample_payment_def sample_state_def pay_init_def
      positive_integer_def js_is_integer_def append_event_def js_upper_def js_trim_def js_space_def upper_char_def Let_def)

theorem payments_sound_witness:
  "refundedCents sample_payment \<le> amountCents sample_payment \<and>
   refundedCents sample_payment = refunded_total (ps_refunds sample_state) (pay_id sample_payment)"
proof -
  have "pay_reachable sample_js sample_state" by (rule pay_reachable.step [OF initial pay_step.recorded [OF sample_recorded]])
  moreover have "sample_payment \<in> set (ps_payments sample_state)" by (simp add: sample_state_def)
  ultimately show ?thesis using payments_sound by blast
qed






text \<open>The first refund event of a charge brings the payment's refunded amount to the cumulative
  total Stripe reports, and marks it refunded exactly when that total is the amount paid.\<close>

lemma charge_refund_synced:
  assumes "ledger_ok st" "find (\<lambda>p. providerPaymentId p = Some piId) (ps_payments st) = Some p"
    and "refund_object object piId chargeId cumulative" "refundedCents p < cumulative" "cumulative \<le> amountCents p"
    and "pay_status p \<in> {PaymentStatus.SUCCEEDED, PaymentStatus.PARTIALLY_REFUNDED}"
    and "\<not> charge_recorded st (pay_id p) chargeId"
  shows "\<exists>st' q. on_charge_refunded js object st = (None, st') \<and> lockAndLoad (pay_id p) st' = Inr q \<and>
    refundedCents q = cumulative \<and>
    pay_status q = (if cumulative = amountCents p then PaymentStatus.REFUNDED else PaymentStatus.PARTIALLY_REFUNDED)"
proof -
  note load = lock_of_provider [OF assms(1,2)]
  let ?n = "cumulative - refundedCents p"
  let ?f = "\<lambda>q. q\<lparr>pay_status := refund_status p ?n, refundedCents := refundedCents q + ?n\<rparr>"
  have n: "0 < ?n" "?n \<le> amountCents p - refundedCents p" using assms(4,5) by simp_all
  note eq = on_charge_refunded_delta [OF assms(3,2,4), unfolded refund_new_charge [OF load n assms(6,7)] commit_def sum.case]
  have found: "find (\<lambda>q. pay_id q = pay_id p)
      (map (\<lambda>q. if pay_id q = pay_id p then ?f q else q) (ps_payments st)) = Some (?f p)"
    by (rule find_update) (use load in \<open>simp_all add: lockAndLoad_ok\<close>)
  show ?thesis
  proof (intro exI conjI)
    show "on_charge_refunded js object st = (None, append_event (pay_tenantId p) (PaymentRefunded (pay_id p) ?n)
      ((update_payment (pay_id p) ?f st)\<lparr>ps_refunds := ps_refunds st @ [\<lparr>rf_paymentId = pay_id p,
          rf_amountCents = ?n, rf_processorRefundId = Some chargeId, rf_reason = None\<rparr>]\<rparr>))"
      by (rule eq)
    show "lockAndLoad (pay_id p) (append_event (pay_tenantId p) (PaymentRefunded (pay_id p) ?n)
      ((update_payment (pay_id p) ?f st)\<lparr>ps_refunds := ps_refunds st @ [\<lparr>rf_paymentId = pay_id p,
          rf_amountCents = ?n, rf_processorRefundId = Some chargeId, rf_reason = None\<rparr>]\<rparr>)) = Inr (?f p)"
      using found by (simp add: lockAndLoad_ok update_payment_def)
  qed (simp_all add: refund_status_def)
qed

definition paid_state :: PayState where
  "paid_state = sample_state\<lparr>ps_payments := [sample_payment\<lparr>pay_status := PaymentStatus.SUCCEEDED\<rparr>]\<rparr>"

definition refund_payload :: "rat \<Rightarrow> json" where
  "refund_payload cumulative = JObj [(''id'', JStr ''ch_1''), (''payment_intent'', JStr ''pi_1''), (''amount_refunded'', JNum cumulative)]"

lemma paid_state_ok: "ledger_ok paid_state"
  by (simp add: ledger_ok_def paid_state_def sample_state_def sample_payment_def pay_init_def payment_ok_def
      refunded_total_def)

theorem charge_refund_synced_witness:
  "\<exists>st' q. on_charge_refunded sample_js (refund_payload (of_int 200)) paid_state = (None, st') \<and>
     lockAndLoad (pay_id sample_payment) st' = Inr q \<and> refundedCents q = 200 \<and>
     pay_status q = PaymentStatus.PARTIALLY_REFUNDED"
  using charge_refund_synced [OF paid_state_ok, of "''pi_1''" "sample_payment\<lparr>pay_status := PaymentStatus.SUCCEEDED\<rparr>"
      "refund_payload (of_int 200)" "''ch_1''" 200 sample_js]
  by (simp add: paid_state_def sample_state_def sample_payment_def pay_init_def refund_object_def refund_payload_def
      charge_recorded_def)

text \<open>C40: A later refund event of a charge that already has a refund row changes nothing, although
  Stripe's cumulative total has grown: the second partial refund is taken for a duplicate of the first.\<close>

theorem second_refund_dropped:
  assumes "ledger_ok st" "find (\<lambda>p. providerPaymentId p = Some piId) (ps_payments st) = Some p"
    and "refund_object object piId chargeId cumulative" "refundedCents p < cumulative" "cumulative \<le> amountCents p"
    and "pay_status p \<in> {PaymentStatus.SUCCEEDED, PaymentStatus.PARTIALLY_REFUNDED}"
    and "charge_recorded st (pay_id p) chargeId"
  shows "on_charge_refunded js object st = (None, st)"
proof -
  note load = lock_of_provider [OF assms(1,2)]
  have "0 < cumulative - refundedCents p" "cumulative - refundedCents p \<le> amountCents p - refundedCents p"
    using assms(4,5) by simp_all
  then show ?thesis
    unfolding on_charge_refunded_delta [OF assms(3,2,4)]
    by (subst refund_known_charge [OF load _ _ assms(6,7)]) (simp_all add: commit_def)
qed

definition refunded_state :: PayState where
  "refunded_state = paid_state\<lparr>
     ps_payments := [sample_payment\<lparr>pay_status := PaymentStatus.PARTIALLY_REFUNDED, refundedCents := 200\<rparr>],
     ps_refunds := [\<lparr>rf_paymentId = nat_to_string 0, rf_amountCents = 200,
       rf_processorRefundId = Some ''ch_1'', rf_reason = None\<rparr>]\<rparr>"

theorem second_refund_dropped_witness:
  "on_charge_refunded sample_js (refund_payload (of_int 300)) refunded_state = (None, refunded_state)"
  by (rule second_refund_dropped [of _ "''pi_1''"
        "sample_payment\<lparr>pay_status := PaymentStatus.PARTIALLY_REFUNDED, refundedCents := 200\<rparr>" _ "''ch_1''" 300])
    (simp_all add: refunded_state_def ledger_ok_def paid_state_def sample_state_def sample_payment_def pay_init_def
      payment_ok_def refunded_total_def refund_object_def refund_payload_def charge_recorded_def)

lemma early_refund_lost_facts:
  assumes "se_type event = ''charge.refunded''" "refund_object (se_object event) piId chargeId cumulative"
    and "find (\<lambda>p. providerPaymentId p = Some piId) (ps_payments st) = None"
    and "se_id event \<noteq> []" "(''stripe'', se_id event) \<notin> set (ps_claims st)"
    and "(''stripe'', se_id event) \<in> set (ps_claims later)"
  shows "processStripeEvent js event st =
      (None, st\<lparr>ps_claims := ps_claims st @ [(''stripe'', se_id event)]\<rparr>)"
    and "processStripeEvent js event later = (None, later)"
  using assms
  by (simp_all add: processStripeEvent_def claim_def dispatchStripeEvent_def on_charge_refunded_def
      refund_object_def opt_string_def resolveByProvider_def)

text \<open>A refund event that arrives before its payment is recorded is claimed and forgotten:
  the state it leaves keeps only the claim, and no redelivery in any later state has an effect.\<close>

lemma early_refund_lost:
  assumes "se_type event = ''charge.refunded''" "refund_object (se_object event) piId chargeId cumulative"
    and "find (\<lambda>p. providerPaymentId p = Some piId) (ps_payments st) = None"
    and "se_id event \<noteq> []" "(''stripe'', se_id event) \<notin> set (ps_claims st)"
    and "(''stripe'', se_id event) \<in> set (ps_claims later)"
  shows "processStripeEvent js event st = (None, st\<lparr>ps_claims := ps_claims st @ [(''stripe'', se_id event)]\<rparr>) \<and>
    processStripeEvent js event later = (None, later)"
  using early_refund_lost_facts [OF assms] by simp

lemma early_refund_lost_witness:
  "processStripeEvent sample_js
      \<lparr>se_id = ''evt_1'', se_type = ''charge.refunded'', se_object = refund_payload (of_int 200)\<rparr> pay_init =
    (None, pay_init\<lparr>ps_claims := [(''stripe'', ''evt_1'')]\<rparr>)"
  using early_refund_lost [of "\<lparr>se_id = ''evt_1'', se_type = ''charge.refunded'',
      se_object = refund_payload (of_int 200)\<rparr>" "''pi_1''" "''ch_1''" 200 pay_init
      "paid_state\<lparr>ps_claims := [(''stripe'', ''evt_1'')]\<rparr>" sample_js]
  by (simp add: refund_object_def refund_payload_def pay_init_def)

end
