(* ===== verification/Field_Outbox.thy ===== *)
theory Field_Outbox
  imports Js_Values
begin

text \<open>
  The offline outbox of the canvassing app: \<^verbatim>\<open>packages/field/src/lib/sync-queue.ts\<close> (the store interface,
  its in-memory implementation and the queue) and \<^verbatim>\<open>packages/field/src/lib/outbox-dispatch.ts\<close> (the submit
  half). The store interface is the record \<open>OutboxStore\<close> of operations; the locale \<open>outbox_store\<close> states
  what the queue relies on, and the in-memory store is its interpretation. The queue is
  the function \<open>flush\<close>. An auxiliary step relation \<open>queue_step\<close> cuts a drain at its awaits, so that the
  volunteer's own actions (an enqueue taken as one step) can happen between its records; it serves the lemmas about
  records that stay in the syncing status.
\<close>

section \<open>Records and results\<close>

datatype OutboxStatus = PENDING | SYNCING | DONE | CONFLICT

datatype OutboxType = DOOR_KNOCK | DOOR_PHOTO | ADD_CONTACT

type_synonym payload = "(string, json) table"

record OutboxRecord =
  ob_localId :: string
  ob_type :: OutboxType
  ob_payload :: payload
  ob_status :: OutboxStatus
  ob_attempts :: nat
  ob_clientCapturedAt :: string
  ob_result :: "json option"

datatype SubmitResult = SubmitOk "json option" | SubmitFailed bool string

section \<open>The store\<close>

text \<open>A patch is the function it applies to the record it finds.\<close>

record 's OutboxStore =
  os_put :: "'s \<Rightarrow> OutboxRecord \<Rightarrow> 's"
  os_get :: "'s \<Rightarrow> string \<Rightarrow> OutboxRecord option"
  os_listByStatus :: "'s \<Rightarrow> OutboxStatus \<Rightarrow> OutboxRecord list"
  os_update :: "'s \<Rightarrow> string \<Rightarrow> (OutboxRecord \<Rightarrow> OutboxRecord) \<Rightarrow> 's"
  os_remove :: "'s \<Rightarrow> string \<Rightarrow> 's"
  os_counts :: "'s \<Rightarrow> OutboxStatus \<Rightarrow> nat"

definition listPending :: "'s OutboxStore \<Rightarrow> 's \<Rightarrow> OutboxRecord list" where
  "listPending ops s = os_listByStatus ops s PENDING"

text \<open>
  The in-memory store. \<open>localeCompare\<close> is the host's collation: \<open>collate\<close> gives its sort key, and the sort
  is stable.
\<close>

type_synonym outbox_map = "(string, OutboxRecord) table"

definition mem_put :: "outbox_map \<Rightarrow> OutboxRecord \<Rightarrow> outbox_map" where
  "mem_put m r = tset (ob_localId r) r m"

definition mem_listByStatus :: "(string \<Rightarrow> rat) \<Rightarrow> outbox_map \<Rightarrow> OutboxStatus \<Rightarrow> OutboxRecord list" where
  "mem_listByStatus collate m st =
     sort_key (\<lambda>r. collate (ob_clientCapturedAt r)) (filter (\<lambda>r. ob_status r = st) (tvals m))"

definition mem_update :: "outbox_map \<Rightarrow> string \<Rightarrow> (OutboxRecord \<Rightarrow> OutboxRecord) \<Rightarrow> outbox_map" where
  "mem_update m localId patch =
     (case tget m localId of None \<Rightarrow> m | Some existing \<Rightarrow> tset localId (patch existing) m)"

definition mem_remove :: "outbox_map \<Rightarrow> string \<Rightarrow> outbox_map" where
  "mem_remove m localId = tdel localId m"

definition mem_counts :: "outbox_map \<Rightarrow> OutboxStatus \<Rightarrow> nat" where
  "mem_counts m st = length (filter (\<lambda>r. ob_status r = st) (tvals m))"

definition InMemoryOutboxStore :: "(string \<Rightarrow> rat) \<Rightarrow> outbox_map OutboxStore" where
  "InMemoryOutboxStore collate =
     \<lparr>os_put = mem_put, os_get = tget, os_listByStatus = mem_listByStatus collate, os_update = mem_update,
      os_remove = mem_remove, os_counts = mem_counts\<rparr>"

section \<open>The queue\<close>

definition fresh_record :: "string \<Rightarrow> payload \<Rightarrow> string \<Rightarrow> OutboxType \<Rightarrow> OutboxRecord" where
  "fresh_record localId payload capturedAt type =
     \<lparr>ob_localId = localId, ob_type = type, ob_payload = payload, ob_status = PENDING, ob_attempts = 0,
      ob_clientCapturedAt = capturedAt, ob_result = None\<rparr>"

definition enqueue :: "'s OutboxStore \<Rightarrow> 's \<Rightarrow> string \<Rightarrow> payload \<Rightarrow> string \<Rightarrow> OutboxType \<Rightarrow> 's" where
  "enqueue ops s localId payload capturedAt type =
     (case os_get ops s localId of
        Some existing \<Rightarrow> s
      | None \<Rightarrow> os_put ops s (fresh_record localId payload capturedAt type))"

definition mark :: "'s OutboxStore \<Rightarrow> OutboxStatus \<Rightarrow> string \<Rightarrow> 's \<Rightarrow> 's" where
  "mark ops st localId s = os_update ops s localId (\<lambda>r. r\<lparr>ob_status := st\<rparr>)"

definition mark_done :: "'s OutboxStore \<Rightarrow> json option \<Rightarrow> string \<Rightarrow> 's \<Rightarrow> 's" where
  "mark_done ops result localId s = os_update ops s localId (\<lambda>r. r\<lparr>ob_status := DONE, ob_result := result\<rparr>)"

definition mark_failed :: "'s OutboxStore \<Rightarrow> OutboxStatus \<Rightarrow> OutboxRecord \<Rightarrow> 's \<Rightarrow> 's" where
  "mark_failed ops st record s =
     os_update ops s (ob_localId record) (\<lambda>r. r\<lparr>ob_status := st, ob_attempts := ob_attempts record + 1\<rparr>)"

text \<open>
  One pass over the pending records. The submit function reads the store and changes a world of its own;
  \<open>Inl\<close> is a rejected promise, which leaves the loop with the record still marked.
\<close>

type_synonym ('s, 'w) submit = "OutboxRecord \<Rightarrow> 's \<Rightarrow> 'w \<Rightarrow> (api_error + SubmitResult) \<times> 'w"

fun drain_loop ::
  "'s OutboxStore \<Rightarrow> ('s, 'w) submit \<Rightarrow> OutboxRecord list \<Rightarrow> nat \<Rightarrow> 's \<Rightarrow> 'w \<Rightarrow> nat res \<times> 's \<times> 'w" where
  "drain_loop ops submit [] synced s w = (Inr synced, s, w)"
| "drain_loop ops submit (record # rest) synced s w =
     (let s1 = mark ops SYNCING (ob_localId record) s;
          (outcome, w1) = submit record s1 w in
      case outcome of
        Inl e \<Rightarrow> (Inl e, s1, w1)
      | Inr (SubmitOk result) \<Rightarrow>
          drain_loop ops submit rest (synced + 1) (mark_done ops result (ob_localId record) s1) w1
      | Inr (SubmitFailed retriable e) \<Rightarrow>
          if retriable then (Inr synced, mark_failed ops PENDING record s1, w1)
          else drain_loop ops submit rest synced (mark_failed ops CONFLICT record s1) w1)"

definition drain :: "'s OutboxStore \<Rightarrow> ('s, 'w) submit \<Rightarrow> 's \<Rightarrow> 'w \<Rightarrow> nat res \<times> 's \<times> 'w" where
  "drain ops submit s w = drain_loop ops submit (listPending ops s) 0 s w"

text \<open>The re-entrancy flag; \<open>finally\<close> clears it whatever the drain did.\<close>

record 's SyncQueue =
  sq_store :: 's
  sq_flushing :: bool

definition flush ::
  "'s OutboxStore \<Rightarrow> ('s, 'w) submit \<Rightarrow> 's SyncQueue \<Rightarrow> 'w \<Rightarrow> nat res \<times> 's SyncQueue \<times> 'w" where
  "flush ops submit q w =
     (if sq_flushing q then (Inr 0, q, w)
      else (let (r, s, w') = drain ops submit (sq_store q) w in
            (r, \<lparr>sq_store = s, sq_flushing = False\<rparr>, w')))"

definition retry :: "'s OutboxStore \<Rightarrow> 's \<Rightarrow> string \<Rightarrow> 's" where
  "retry ops s localId = mark ops PENDING localId s"

definition discard :: "'s OutboxStore \<Rightarrow> 's \<Rightarrow> string \<Rightarrow> 's" where
  "discard ops s localId = os_remove ops s localId"

section \<open>The interleavings\<close>

text \<open>
  The atomic segments of the queue. \<open>mc_drain\<close> is the drain in progress: the record being awaited and the
  rest of the snapshot.
\<close>

datatype QueueEvent =
    EvEnqueue string payload string OutboxType
  | EvFlush
  | EvSubmit
  | EvAnswer SubmitResult
  | EvReject
  | EvEnd
  | EvRetry string
  | EvDiscard string

record 's QueueMachine =
  mc_store :: 's
  mc_drain :: "(OutboxRecord option \<times> OutboxRecord list) option"

definition in_conflict :: "'s OutboxStore \<Rightarrow> 's \<Rightarrow> string \<Rightarrow> bool" where
  "in_conflict ops s i \<longleftrightarrow> (\<exists>r. os_get ops s i = Some r \<and> ob_status r = CONFLICT)"

inductive queue_step :: "'s OutboxStore \<Rightarrow> 's QueueMachine \<Rightarrow> QueueEvent \<Rightarrow> 's QueueMachine \<Rightarrow> bool"
  for ops :: "'s OutboxStore" where
  enqueue: "queue_step ops m (EvEnqueue i p t k) (m\<lparr>mc_store := enqueue ops (mc_store m) i p t k\<rparr>)"
| begin_flush: "mc_drain m = None \<Longrightarrow>
     queue_step ops m EvFlush (m\<lparr>mc_drain := Some (None, listPending ops (mc_store m))\<rparr>)"
| submit: "mc_drain m = Some (None, r # rs) \<Longrightarrow>
     queue_step ops m EvSubmit (m\<lparr>mc_store := mark ops SYNCING (ob_localId r) (mc_store m), mc_drain := Some (Some r, rs)\<rparr>)"
| synced: "mc_drain m = Some (Some r, rs) \<Longrightarrow>
     queue_step ops m (EvAnswer (SubmitOk v))
       (m\<lparr>mc_store := mark_done ops v (ob_localId r) (mc_store m), mc_drain := Some (None, rs)\<rparr>)"
| transient: "mc_drain m = Some (Some r, rs) \<Longrightarrow>
     queue_step ops m (EvAnswer (SubmitFailed True e))
       (m\<lparr>mc_store := mark_failed ops PENDING r (mc_store m), mc_drain := None\<rparr>)"
| terminal: "mc_drain m = Some (Some r, rs) \<Longrightarrow>
     queue_step ops m (EvAnswer (SubmitFailed False e))
       (m\<lparr>mc_store := mark_failed ops CONFLICT r (mc_store m), mc_drain := Some (None, rs)\<rparr>)"
| rejected: "mc_drain m = Some (Some r, rs) \<Longrightarrow> queue_step ops m EvReject (m\<lparr>mc_drain := None\<rparr>)"
| finished: "mc_drain m = Some (None, []) \<Longrightarrow> queue_step ops m EvEnd (m\<lparr>mc_drain := None\<rparr>)"
| retry: "queue_step ops m (EvRetry i) (m\<lparr>mc_store := retry ops (mc_store m) i\<rparr>)"
| discard: "queue_step ops m (EvDiscard i) (m\<lparr>mc_store := discard ops (mc_store m) i\<rparr>)"

definition queue_runs :: "'s OutboxStore \<Rightarrow> 's QueueMachine \<Rightarrow> 's QueueMachine \<Rightarrow> bool" where
  "queue_runs ops = (\<lambda>m m'. \<exists>e. queue_step ops m e m')\<^sup>*\<^sup>*"

text \<open>The sync centre lists the conflicts, and offers \<open>retry\<close> and \<open>discard\<close> for those only.\<close>

fun offered :: "'s OutboxStore \<Rightarrow> 's \<Rightarrow> QueueEvent \<Rightarrow> bool" where
  "offered ops s (EvRetry i) = in_conflict ops s i"
| "offered ops s (EvDiscard i) = in_conflict ops s i"
| "offered ops s e = True"

definition offered_runs :: "'s OutboxStore \<Rightarrow> 's QueueMachine \<Rightarrow> 's QueueMachine \<Rightarrow> bool" where
  "offered_runs ops = (\<lambda>m m'. \<exists>e. queue_step ops m e m' \<and> offered ops (mc_store m) e)\<^sup>*\<^sup>*"

definition awaited_ids :: "'s QueueMachine \<Rightarrow> string set" where
  "awaited_ids m =
     (case mc_drain m of
        None \<Rightarrow> {}
      | Some (cur, rest) \<Rightarrow> ob_localId ` (set_option cur \<union> set rest))"

text \<open>A record marked as syncing that no drain is waiting for.\<close>

definition stranded :: "'s OutboxStore \<Rightarrow> 's QueueMachine \<Rightarrow> string \<Rightarrow> bool" where
  "stranded ops m i \<longleftrightarrow>
     (\<exists>r. os_get ops (mc_store m) i = Some r \<and> ob_status r = SYNCING) \<and> i \<notin> awaited_ids m"

text \<open>What no drain changes: which records there are, and what the volunteer captured.\<close>

definition captured :: "'s OutboxStore \<Rightarrow> 's \<Rightarrow> string \<Rightarrow> (OutboxType \<times> payload \<times> string) option" where
  "captured ops s i = map_option (\<lambda>r. (ob_type r, ob_payload r, ob_clientCapturedAt r)) (os_get ops s i)"

section \<open>What the queue relies on\<close>

locale outbox_store =
  fixes ops :: "'s OutboxStore" and inv :: "'s \<Rightarrow> bool"
  assumes get_put: "os_get ops (os_put ops s r) i = (if i = ob_localId r then Some r else os_get ops s i)"
    and get_update: "os_get ops (os_update ops s i f) j =
          (if j = i then map_option f (os_get ops s j) else os_get ops s j)"
    and get_remove: "os_get ops (os_remove ops s i) j = (if j = i then None else os_get ops s j)"
    and inv_put: "inv s \<Longrightarrow> inv (os_put ops s r)"
    and inv_update: "inv s \<Longrightarrow> (\<forall>r. ob_localId (f r) = ob_localId r) \<Longrightarrow> inv (os_update ops s i f)"
    and inv_remove: "inv s \<Longrightarrow> inv (os_remove ops s i)"
    and get_id: "inv s \<Longrightarrow> os_get ops s i = Some r \<Longrightarrow> ob_localId r = i"
    and list_mem: "inv s \<Longrightarrow>
          r \<in> set (os_listByStatus ops s st) \<longleftrightarrow> os_get ops s (ob_localId r) = Some r \<and> ob_status r = st"
    and list_distinct: "inv s \<Longrightarrow> distinct (map ob_localId (os_listByStatus ops s st))"
    and update_update: "os_update ops (os_update ops s i f) i g = os_update ops s i (\<lambda>r. g (f r))"
    and list_update: "inv s \<Longrightarrow> os_get ops s i = Some x \<Longrightarrow> ob_localId (f x) = i \<Longrightarrow>
          ob_status (f x) = ob_status x \<Longrightarrow> ob_clientCapturedAt (f x) = ob_clientCapturedAt x \<Longrightarrow>
          os_listByStatus ops (os_update ops s i f) st =
            map (\<lambda>r. if ob_localId r = i then f r else r) (os_listByStatus ops s st)"
begin

lemma get_mark [simp]:
  "os_get ops (mark ops st i s) j =
     (if j = i then map_option (\<lambda>r. r\<lparr>ob_status := st\<rparr>) (os_get ops s j) else os_get ops s j)"
  by (simp add: mark_def get_update)

lemma get_mark_done [simp]:
  "os_get ops (mark_done ops v i s) j =
     (if j = i then map_option (\<lambda>r. r\<lparr>ob_status := DONE, ob_result := v\<rparr>) (os_get ops s j) else os_get ops s j)"
  by (simp add: mark_done_def get_update)

lemma get_mark_failed [simp]:
  "os_get ops (mark_failed ops st record s) j =
     (if j = ob_localId record
      then map_option (\<lambda>r. r\<lparr>ob_status := st, ob_attempts := ob_attempts record + 1\<rparr>) (os_get ops s j)
      else os_get ops s j)"
  by (simp add: mark_failed_def get_update)

lemma inv_marks [simp]:
  "inv s \<Longrightarrow> inv (mark ops st i s)" "inv s \<Longrightarrow> inv (mark_done ops v i s)"
  "inv s \<Longrightarrow> inv (mark_failed ops st record s)"
  by (simp_all add: mark_def mark_done_def mark_failed_def inv_update)

lemma captured_marks [simp]:
  "captured ops (mark ops st i s) = captured ops s" "captured ops (mark_done ops v i s) = captured ops s"
  "captured ops (mark_failed ops st record s) = captured ops s"
  by (rule ext, simp add: captured_def option.map_comp comp_def)+

lemma drain_loop_keeps:
  "drain_loop ops submit rs n s w = (r, s', w') \<Longrightarrow> captured ops s' = captured ops s \<and> (inv s \<longrightarrow> inv s')"
proof (induction rs arbitrary: n s w)
  case (Cons rec rest)
  obtain outcome w1 where "submit rec (mark ops SYNCING (ob_localId rec) s) w = (outcome, w1)"
    by (cases "submit rec (mark ops SYNCING (ob_localId rec) s) w")
  with Cons.prems Cons.IH show ?case
    by (auto simp: Let_def split: sum.splits SubmitResult.splits if_splits)
qed simp

text \<open>A pass in which every answer is final empties the queue.\<close>

lemma drain_loop_final:
  assumes "\<And>r s w. \<exists>x. fst (submit r s w) = Inr x \<and> (\<forall>e. x \<noteq> SubmitFailed True e)"
    and "drain_loop ops submit rs n s w = (res, s', w')" "distinct (map ob_localId rs)" "inv s"
    and "\<forall>r\<in>set rs. os_get ops s (ob_localId r) \<noteq> None"
  shows "is_ok res \<and>
    (\<forall>i x. os_get ops s' i = Some x \<and> ob_status x \<in> {PENDING, SYNCING} \<longrightarrow>
       i \<notin> set (map ob_localId rs) \<and> os_get ops s i = Some x)"
  using assms(2-5)
proof (induction rs arbitrary: n s w)
  case (Cons rec rest)
  obtain outcome w1 where sub: "submit rec (mark ops SYNCING (ob_localId rec) s) w = (outcome, w1)"
    by (cases "submit rec (mark ops SYNCING (ob_localId rec) s) w")
  from assms(1) [of rec "mark ops SYNCING (ob_localId rec) s" w] obtain x where
    x: "outcome = Inr x" "\<forall>e. x \<noteq> SubmitFailed True e" by (auto simp: sub)
  define s2 where "s2 = (case x of SubmitOk v \<Rightarrow> mark_done ops v (ob_localId rec) (mark ops SYNCING (ob_localId rec) s)
    | SubmitFailed b e \<Rightarrow> mark_failed ops CONFLICT rec (mark ops SYNCING (ob_localId rec) s))"
  from x Cons.prems(1) obtain m where next_loop: "drain_loop ops submit rest m s2 w1 = (res, s', w')"
    by (cases x) (auto simp: sub s2_def Let_def split: if_splits)
  have s2: "inv s2" "\<forall>r\<in>set rest. os_get ops s2 (ob_localId r) \<noteq> None"
    using Cons.prems(3,4) by (auto simp: s2_def split: SubmitResult.splits)
  have rest: "distinct (map ob_localId rest)" using Cons.prems(2) by simp
  have here: "ob_status y \<notin> {PENDING, SYNCING}" if "os_get ops s2 (ob_localId rec) = Some y" for y
    using that by (auto simp: s2_def split: SubmitResult.splits)
  have other: "os_get ops s2 i = os_get ops s i" if "i \<noteq> ob_localId rec" for i
    using that by (auto simp: s2_def split: SubmitResult.splits)
  from Cons.IH [OF next_loop rest s2] here other show ?case by (metis (no_types, lifting) list.set_intros(1) list.simps(9) set_ConsD)
qed auto

lemma list_pending: "inv s \<Longrightarrow> r \<in> set (listPending ops s) \<Longrightarrow> os_get ops s (ob_localId r) = Some r \<and> ob_status r = PENDING"
  by (simp add: listPending_def list_mem)

lemma inv_enqueue: "inv s \<Longrightarrow> inv (enqueue ops s i p t k)"
  by (simp add: enqueue_def inv_put split: option.split)

lemma get_enqueue:
  "os_get ops (enqueue ops s i p t k) j =
     (if j = i \<and> os_get ops s i = None then Some (fresh_record i p t k) else os_get ops s j)"
  by (auto simp: enqueue_def get_put fresh_record_def split: option.split)

lemma queue_step_inv: "queue_step ops m e m' \<Longrightarrow> inv (mc_store m) \<Longrightarrow> inv (mc_store m')"
  by (cases rule: queue_step.cases, assumption)
    (simp_all add: inv_enqueue retry_def discard_def inv_remove)

lemma stranded_step:
  assumes "queue_step ops m e m'" "inv (mc_store m)" "stranded ops m i" "offered ops (mc_store m) e"
  shows "stranded ops m' i"
  using assms
proof (cases rule: queue_step.cases)
  case begin_flush
  with assms(2,3) show ?thesis
    using list_pending by (fastforce simp: stranded_def awaited_ids_def)
qed (auto simp: stranded_def awaited_ids_def get_enqueue retry_def discard_def in_conflict_def get_remove)

lemma stranded_runs:
  "offered_runs ops m m' \<Longrightarrow> inv (mc_store m) \<Longrightarrow> stranded ops m i \<Longrightarrow> stranded ops m' i \<and> inv (mc_store m')"
  unfolding offered_runs_def
  by (induction rule: rtranclp_induct) (auto intro: stranded_step queue_step_inv)

text \<open>A rejected submit strands its record.\<close>

lemma reject_strands:
  assumes "mc_drain m = Some (Some r, rs)" "os_get ops (mc_store m) (ob_localId r) = Some x" "ob_status x = SYNCING"
  shows "\<exists>m'. queue_step ops m EvReject m' \<and> stranded ops m' (ob_localId r)"
  using assms queue_step.rejected [of m r rs ops]
  by (intro exI [of _ "m\<lparr>mc_drain := None\<rparr>"]) (simp add: stranded_def awaited_ids_def)

text \<open>The function \<open>drain_loop\<close> is a run of the machine.\<close>

lemma runs_step: "queue_step ops m e m' \<Longrightarrow> queue_runs ops m' m'' \<Longrightarrow> queue_runs ops m m''"
  unfolding queue_runs_def by (blast intro: converse_rtranclp_into_rtranclp)

lemma runs_refl: "queue_runs ops m m"
  by (simp add: queue_runs_def)

lemma drain_loop_run:
  "drain_loop ops submit rs n s w = (res, s', w') \<Longrightarrow> mc_drain m = Some (None, rs) \<Longrightarrow> mc_store m = s \<Longrightarrow>
   queue_runs ops m (m\<lparr>mc_store := s', mc_drain := None\<rparr>)"
proof (induction rs arbitrary: n s w m)
  case Nil
  then have "m\<lparr>mc_store := s', mc_drain := None\<rparr> = m\<lparr>mc_drain := None\<rparr>" by simp
  with Nil show ?case using runs_step [OF queue_step.finished runs_refl] by metis
next
  case (Cons rec rest)
  let ?s1 = "mark ops SYNCING (ob_localId rec) s"
  let ?m1 = "m\<lparr>mc_store := ?s1, mc_drain := Some (Some rec, rest)\<rparr>"
  have first: "queue_step ops m EvSubmit ?m1" using queue_step.submit Cons.prems(2,3) by blast
  have d: "mc_drain ?m1 = Some (Some rec, rest)" by simp
  obtain outcome w1 where sub: "submit rec ?s1 w = (outcome, w1)" by (cases "submit rec ?s1 w")
  have "queue_runs ops ?m1 (m\<lparr>mc_store := s', mc_drain := None\<rparr>)"
  proof (cases outcome)
    case (Inl e)
    with Cons.prems(1) sub have "s' = ?s1" by simp
    then show ?thesis using runs_step [OF queue_step.rejected [OF d] runs_refl] by simp
  next
    case (Inr x)
    show ?thesis
    proof (cases x)
      case (SubmitOk v)
      let ?m2 = "?m1\<lparr>mc_store := mark_done ops v (ob_localId rec) (mc_store ?m1), mc_drain := Some (None, rest)\<rparr>"
      from SubmitOk Inr sub Cons.prems(1)
      have "drain_loop ops submit rest (n + 1) (mc_store ?m2) w1 = (res, s', w')" by simp
      from Cons.IH [OF this, of ?m2] show ?thesis
        using runs_step [OF queue_step.synced [OF d, where v = v]] by simp
    next
      case (SubmitFailed b e)
      show ?thesis
      proof (cases b)
        case True
        with SubmitFailed Inr sub Cons.prems(1) have "s' = mark_failed ops PENDING rec (mc_store ?m1)" by simp
        then show ?thesis
          using SubmitFailed True runs_step [OF queue_step.transient [OF d, where e = e] runs_refl] by simp
      next
        case False
        let ?m2 = "?m1\<lparr>mc_store := mark_failed ops CONFLICT rec (mc_store ?m1), mc_drain := Some (None, rest)\<rparr>"
        from SubmitFailed False Inr sub Cons.prems(1)
        have "drain_loop ops submit rest n (mc_store ?m2) w1 = (res, s', w')" by simp
        from Cons.IH [OF this, of ?m2] show ?thesis
          using runs_step [OF queue_step.terminal [OF d, where e = e]] by simp
      qed
    qed
  qed
  with first show ?case by (rule runs_step)
qed

end

section \<open>The in-memory store\<close>

definition mem_inv :: "outbox_map \<Rightarrow> bool" where
  "mem_inv m \<longleftrightarrow> distinct (tkeys m) \<and> (\<forall>(i, r)\<in>set m. ob_localId r = i)"

lemma mem_inv_get: "mem_inv m \<Longrightarrow> tget m i = Some r \<Longrightarrow> ob_localId r = i"
  by (auto simp: mem_inv_def tget_def dest!: map_of_SomeD)

lemma mem_inv_tvals:
  assumes "mem_inv m"
  shows "r \<in> set (tvals m) \<longleftrightarrow> tget m (ob_localId r) = Some r"
proof
  assume "r \<in> set (tvals m)"
  then obtain i where i: "(i, r) \<in> set m" by (auto simp: tvals_def)
  with assms show "tget m (ob_localId r) = Some r"
    by (auto simp: mem_inv_def tget_def tkeys_def intro!: map_of_is_SomeI)
qed (rule tget_in_tvals)

lemma mem_inv_tset: "mem_inv m \<Longrightarrow> ob_localId r = i \<Longrightarrow> mem_inv (tset i r m)"
proof -
  have "set (tset i r m) \<subseteq> insert (i, r) (set m)"
    by (induction i r m rule: tset.induct) auto
  then show "mem_inv m \<Longrightarrow> ob_localId r = i \<Longrightarrow> mem_inv (tset i r m)"
    by (auto simp: mem_inv_def)
qed

lemma mem_inv_tdel: "mem_inv m \<Longrightarrow> mem_inv (tdel i m)"
  unfolding mem_inv_def by (simp add: tdel_def tkeys_def distinct_map_filter)

lemma tset_tset: "tset k v (tset k u t) = tset k v t"
  by (induction k u t rule: tset.induct) auto

lemma sort_key_map: "(\<And>x. x \<in> set xs \<Longrightarrow> f (g x) = f x) \<Longrightarrow> sort_key f (map g xs) = map g (sort_key f xs)"
proof (induction xs)
  case (Cons x xs)
  have "insort_key f (g x) (map g ys) = map g (insort_key f x ys)" if "\<forall>y\<in>set ys. f (g y) = f y" for ys
    using that Cons.prems [of x] by (induction ys) auto
  with Cons show ?case by simp
qed simp

lemma tvals_tset_map:
  "distinct (tkeys t) \<Longrightarrow> tget t k = Some x \<Longrightarrow> \<forall>(i, r)\<in>set t. h r = i \<Longrightarrow>
   tvals (tset k (f x) t) = map (\<lambda>r. if h r = k then f r else r) (tvals t)"
proof (induction t)
  case (Cons p t)
  obtain k' v where p: "p = (k', v)" by (cases p)
  show ?case
  proof (cases "k = k'")
    case True
    with Cons.prems p have "\<forall>r\<in>set (tvals t). h r \<noteq> k" by (force simp: tvals_def tkeys_def)
    then have "map (\<lambda>r. if h r = k then f r else r) (tvals t) = tvals t" by (simp add: map_idI)
    with True Cons.prems p show ?thesis by (simp add: tvals_def)
  next
    case False
    with Cons p show ?thesis by (auto simp: tvals_def tkeys_def)
  qed
qed simp

lemma mem_list_update:
  assumes "mem_inv m" "tget m i = Some x" "ob_status (f x) = ob_status x"
    "ob_clientCapturedAt (f x) = ob_clientCapturedAt x"
  shows "mem_listByStatus collate (mem_update m i f) st =
    map (\<lambda>r. if ob_localId r = i then f r else r) (mem_listByStatus collate m st)"
proof -
  let ?g = "\<lambda>r. if ob_localId r = i then f r else r"
  have vals: "tvals (mem_update m i f) = map ?g (tvals m)"
    using assms(1,2) tvals_tset_map [of m i x ob_localId f] by (simp add: mem_update_def mem_inv_def)
  have same: "ob_status (?g r) = ob_status r \<and> ob_clientCapturedAt (?g r) = ob_clientCapturedAt r"
    if "r \<in> set (tvals m)" for r
  proof (cases "ob_localId r = i")
    case True
    with that mem_inv_tvals [OF assms(1)] assms(2) have "r = x" by simp
    with assms show ?thesis by simp
  qed simp
  then have "filter (\<lambda>r. ob_status r = st) (map ?g (tvals m)) = map ?g (filter (\<lambda>r. ob_status r = st) (tvals m))"
    by (simp add: filter_map comp_def cong: filter_cong)
  then show ?thesis
    unfolding mem_listByStatus_def vals using same
    by (simp only:) (rule sort_key_map, auto)
qed

interpretation memory: outbox_store "InMemoryOutboxStore collate" mem_inv for collate
proof unfold_locales
  fix s :: outbox_map and r st
  assume s: "mem_inv s"
  show "r \<in> set (os_listByStatus (InMemoryOutboxStore collate) s st) \<longleftrightarrow>
      os_get (InMemoryOutboxStore collate) s (ob_localId r) = Some r \<and> ob_status r = st"
    using mem_inv_tvals [OF s, of r] by (auto simp: InMemoryOutboxStore_def mem_listByStatus_def)
  have "distinct (map ob_localId (tvals s))"
  proof -
    have "map ob_localId (tvals s) = tkeys s"
      using s by (auto simp: mem_inv_def tvals_def tkeys_def)
    with s show ?thesis by (simp add: mem_inv_def)
  qed
  then have "distinct (map ob_localId (filter (\<lambda>r. ob_status r = st) (tvals s)))"
    by (rule distinct_map_filter)
  then show "distinct (map ob_localId (os_listByStatus (InMemoryOutboxStore collate) s st))"
    by (simp add: InMemoryOutboxStore_def mem_listByStatus_def distinct_map inj_on_def)
next
  fix s :: outbox_map and i x st and f :: "OutboxRecord \<Rightarrow> OutboxRecord"
  assume "mem_inv s" "os_get (InMemoryOutboxStore collate) s i = Some x" "ob_status (f x) = ob_status x"
    "ob_clientCapturedAt (f x) = ob_clientCapturedAt x"
  then show "os_listByStatus (InMemoryOutboxStore collate) (os_update (InMemoryOutboxStore collate) s i f) st =
      map (\<lambda>r. if ob_localId r = i then f r else r) (os_listByStatus (InMemoryOutboxStore collate) s st)"
    by (simp add: InMemoryOutboxStore_def mem_list_update)
qed (auto simp: InMemoryOutboxStore_def mem_put_def mem_update_def mem_remove_def tset_tset mem_inv_tdel split: option.splits intro: mem_inv_get intro!: mem_inv_tset dest: mem_inv_get)

section \<open>The submit half\<close>

text \<open>
  The network functions and the blob store are injected: each returns its outcome, or \<open>Inl\<close> when its
  promise is rejected, and changes the world. A property that holds \<open>undefined\<close> is absent. \<open>ApiFailed\<close>
  carries the message, the status, \<open>networkError\<close> and \<open>timedOut\<close>.
\<close>

datatype 'a ApiOutcome = ApiOk 'a | ApiFailed string "nat option" bool bool

record ('s, 'w) DispatchDeps =
  uploadPhoto :: "string \<Rightarrow> json option \<Rightarrow> json option \<Rightarrow> 'w \<Rightarrow> string ApiOutcome res \<times> 'w"
  createContact :: "payload \<Rightarrow> 'w \<Rightarrow> string ApiOutcome res \<times> 'w"
  submitKnock :: "payload \<Rightarrow> 'w \<Rightarrow> unit ApiOutcome res \<times> 'w"
  getBlob :: "json option \<Rightarrow> 'w \<Rightarrow> string option res \<times> 'w"
  deleteBlob :: "json option \<Rightarrow> 'w \<Rightarrow> unit res \<times> 'w"
  lookup_ref :: "'s \<Rightarrow> string \<Rightarrow> OutboxRecord option res"

definition classify :: "string \<Rightarrow> nat option \<Rightarrow> bool \<Rightarrow> bool \<Rightarrow> SubmitResult" where
  "classify e status networkError timedOut =
     (if networkError \<or> timedOut then SubmitFailed True e
      else case status of
             Some n \<Rightarrow> SubmitFailed (500 \<le> n \<or> n = 401 \<or> n = 408 \<or> n = 429) e
           | None \<Rightarrow> SubmitFailed True e)"

fun outcome_result :: "('a \<Rightarrow> json option) \<Rightarrow> 'a ApiOutcome \<Rightarrow> SubmitResult" where
  "outcome_result f (ApiOk v) = SubmitOk (f v)"
| "outcome_result f (ApiFailed e status networkError timedOut) = classify e status networkError timedOut"

definition submit_photo :: "('s, 'w) DispatchDeps \<Rightarrow> payload \<Rightarrow> 'w \<Rightarrow> (api_error + SubmitResult) \<times> 'w" where
  "submit_photo deps payload w =
     (case getBlob deps (tget payload ''blobKey'') w of
        (Inl e, w1) \<Rightarrow> (Inl e, w1)
      | (Inr None, w1) \<Rightarrow> (Inr (SubmitFailed False ''PHOTO_DATA_LOST''), w1)
      | (Inr (Some blob), w1) \<Rightarrow>
          (case uploadPhoto deps blob (tget payload ''filename'') (tget payload ''mimeType'') w1 of
             (Inl e, w2) \<Rightarrow> (Inl e, w2)
           | (Inr (ApiOk url), w2) \<Rightarrow>
               (case deleteBlob deps (tget payload ''blobKey'') w2 of
                  (Inl e, w3) \<Rightarrow> (Inl e, w3)
                | (Inr u, w3) \<Rightarrow> (Inr (SubmitOk (Some (JObj [(''url'', JStr url)]))), w3))
           | (Inr (ApiFailed e st n t), w2) \<Rightarrow> (Inr (classify e st n t), w2)))"

definition submit_contact :: "('s, 'w) DispatchDeps \<Rightarrow> payload \<Rightarrow> 'w \<Rightarrow> (api_error + SubmitResult) \<times> 'w" where
  "submit_contact deps payload w =
     (let (r, w1) = createContact deps payload w in
      (map_sum id (outcome_result (\<lambda>i. Some (JObj [(''id'', JStr i)]))) r, w1))"

text \<open>The record a reference names; only a string names one.\<close>

definition find_ref :: "('s, 'w) DispatchDeps \<Rightarrow> 's \<Rightarrow> json option \<Rightarrow> OutboxRecord option res" where
  "find_ref deps s v = (case v of Some (JStr i) \<Rightarrow> lookup_ref deps s i | _ \<Rightarrow> Inr None)"

definition set_or_clear :: "string \<Rightarrow> json option \<Rightarrow> payload \<Rightarrow> payload" where
  "set_or_clear k v p = (case v of None \<Rightarrow> tdel k p | Some j \<Rightarrow> tset k j p)"

definition result_field :: "OutboxRecord \<Rightarrow> string \<Rightarrow> json option" where
  "result_field r k = Option.bind (ob_result r) (\<lambda>j. jget j k)"

text \<open>Each stage ends early with a result (\<open>Inl\<close>) or hands the payload on.\<close>

definition resolve_photo :: "('s, 'w) DispatchDeps \<Rightarrow> 's \<Rightarrow> payload \<Rightarrow> (SubmitResult + payload) res" where
  "resolve_photo deps s p =
     (if \<not> js_truthy (tget p ''photoRef'') then Inr (Inr p)
      else rbind (find_ref deps s (tget p ''photoRef'')) (\<lambda>ref.
        case ref of
          None \<Rightarrow> Inr (Inr (tdel ''photoRef'' p))
        | Some r \<Rightarrow>
            if ob_status r = DONE
            then Inr (Inr (tdel ''photoRef'' (set_or_clear ''photoUrl'' (result_field r ''url'') p)))
            else if ob_status r = PENDING \<or> ob_status r = SYNCING
            then Inr (Inl (SubmitFailed True ''PHOTO_PENDING''))
            else Inr (Inr (tdel ''photoRef'' p))))"

definition resolve_contact :: "('s, 'w) DispatchDeps \<Rightarrow> 's \<Rightarrow> payload \<Rightarrow> (SubmitResult + payload) res" where
  "resolve_contact deps s p =
     (if \<not> js_truthy (tget p ''contactRef'') then Inr (Inr p)
      else rbind (find_ref deps s (tget p ''contactRef'')) (\<lambda>ref.
        case ref of
          None \<Rightarrow> Inr (Inl (SubmitFailed False ''CONTACT_UNRESOLVED''))
        | Some r \<Rightarrow>
            if ob_status r = DONE
            then Inr (Inr (tdel ''contactRef'' (set_or_clear ''contactId'' (result_field r ''id'') p)))
            else if ob_status r = PENDING \<or> ob_status r = SYNCING
            then Inr (Inl (SubmitFailed True ''CONTACT_PENDING''))
            else Inr (Inl (SubmitFailed False ''CONTACT_UNRESOLVED''))))"

definition prepare_knock :: "('s, 'w) DispatchDeps \<Rightarrow> 's \<Rightarrow> payload \<Rightarrow> (SubmitResult + payload) res" where
  "prepare_knock deps s p0 =
     rbind (resolve_photo deps s p0) (\<lambda>r.
       case r of
         Inl x \<Rightarrow> Inr (Inl x)
       | Inr p \<Rightarrow> rbind (resolve_contact deps s p) (\<lambda>r.
           case r of
             Inl x \<Rightarrow> Inr (Inl x)
           | Inr p' \<Rightarrow> if \<not> js_truthy (tget p' ''contactId'') then Inr (Inl (SubmitFailed False ''NO_CONTACT''))
                       else Inr (Inr p')))"

definition submit_knock :: "('s, 'w) DispatchDeps \<Rightarrow> payload \<Rightarrow> 's \<Rightarrow> 'w \<Rightarrow> (api_error + SubmitResult) \<times> 'w" where
  "submit_knock deps payload s w =
     (case prepare_knock deps s payload of
        Inl e \<Rightarrow> (Inl e, w)
      | Inr (Inl x) \<Rightarrow> (Inr x, w)
      | Inr (Inr p) \<Rightarrow>
          (let (r, w1) = submitKnock deps p w in (map_sum id (outcome_result (\<lambda>u. None)) r, w1)))"

definition makeOutboxSubmit :: "('s, 'w) DispatchDeps \<Rightarrow> ('s, 'w) submit" where
  "makeOutboxSubmit deps rec s w =
     (case ob_type rec of
        DOOR_PHOTO \<Rightarrow> submit_photo deps (ob_payload rec) w
      | ADD_CONTACT \<Rightarrow> submit_contact deps (ob_payload rec) w
      | DOOR_KNOCK \<Rightarrow> submit_knock deps (ob_payload rec) s w)"

section \<open>What the outbox guarantees\<close>

lemma rbind_InrE: "rbind m f = Inr y \<Longrightarrow> (\<And>x. m = Inr x \<Longrightarrow> f x = Inr y \<Longrightarrow> P) \<Longrightarrow> P"
  by (cases m) auto

lemma resolved_photo:
  "resolve_photo deps s p = Inr (Inr q) \<Longrightarrow> \<not> js_truthy (tget q ''photoRef'') \<and>
     (\<forall>k. k \<noteq> ''photoRef'' \<and> k \<noteq> ''photoUrl'' \<longrightarrow> tget q k = tget p k)"
  unfolding resolve_photo_def set_or_clear_def
  by (auto elim!: rbind_InrE split: if_split_asm option.split_asm)

lemma resolved_contact:
  assumes "resolve_contact deps s p = Inr (Inr q)"
  shows "\<not> js_truthy (tget q ''contactRef'') \<and>
     (\<forall>k. k \<noteq> ''contactRef'' \<and> k \<noteq> ''contactId'' \<longrightarrow> tget q k = tget p k) \<and>
     (js_truthy (tget p ''contactRef'') \<longrightarrow>
        (\<exists>r. find_ref deps s (tget p ''contactRef'') = Inr (Some r) \<and> ob_status r = DONE \<and>
           tget q ''contactId'' = result_field r ''id''))"
  using assms unfolding resolve_contact_def set_or_clear_def
  by (auto elim!: rbind_InrE split: if_split_asm option.split_asm)

lemma prepare_knock_stages:
  assumes "prepare_knock deps s p = Inr (Inr q)"
  obtains p' where "resolve_photo deps s p = Inr (Inr p')" "resolve_contact deps s p' = Inr (Inr q)"
    "js_truthy (tget q ''contactId'')"
  using assms unfolding prepare_knock_def
  by (auto elim!: rbind_InrE split: if_split_asm sum.split_asm)

text \<open>The API is never sent an unresolved reference.\<close>

lemma knock_sent_resolved:
  assumes "prepare_knock deps s p = Inr (Inr q)"
  shows "\<not> js_truthy (tget q ''photoRef'') \<and> \<not> js_truthy (tget q ''contactRef'') \<and> js_truthy (tget q ''contactId'') \<and>
    (js_truthy (tget p ''contactRef'') \<longrightarrow>
       (\<exists>r. find_ref deps s (tget p ''contactRef'') = Inr (Some r) \<and> ob_status r = DONE \<and>
          tget q ''contactId'' = result_field r ''id''))"
  using assms
proof (rule prepare_knock_stages)
  fix p'
  assume photo: "resolve_photo deps s p = Inr (Inr p')" and contact: "resolve_contact deps s p' = Inr (Inr q)"
    and cid: "js_truthy (tget q ''contactId'')"
  from resolved_photo [OF photo] have "\<not> js_truthy (tget p' ''photoRef'')" "tget p' ''contactRef'' = tget p ''contactRef''"
    by simp_all
  with resolved_contact [OF contact] cid show ?thesis by simp
qed

text \<open>A queue whose first pending record is a knock that waits for a photo marked as syncing.\<close>

definition blocked_by :: "'s OutboxStore \<Rightarrow> 's \<Rightarrow> string \<Rightarrow> bool" where
  "blocked_by ops s i \<longleftrightarrow>
     (\<exists>k rest p. listPending ops s = k # rest \<and> ob_type k = DOOR_KNOCK \<and>
        tget (ob_payload k) ''photoRef'' = Some (JStr i) \<and> i \<noteq> [] \<and>
        os_get ops s i = Some p \<and> ob_status p = SYNCING)"

text \<open>The app flushes on a timer: \<open>n\<close> flushes in a row, with the records they synced.\<close>

primrec flush_times ::
  "'s OutboxStore \<Rightarrow> ('s, 'w) submit \<Rightarrow> nat \<Rightarrow> 's SyncQueue \<Rightarrow> 'w \<Rightarrow> nat \<times> 's SyncQueue \<times> 'w" where
  "flush_times ops submit 0 q w = (0, q, w)"
| "flush_times ops submit (Suc n) q w =
     (let (r, q1, w1) = flush ops submit q w; (m, q2, w2) = flush_times ops submit n q1 w1 in
      ((case r of Inr k \<Rightarrow> k + m | Inl e \<Rightarrow> m), q2, w2))"

context outbox_store
begin

lemma in_image_localId: "ob_localId k \<notin> ob_localId ` set rest \<Longrightarrow> x \<in> set rest \<Longrightarrow> ob_localId x \<noteq> ob_localId k"
  by force

lemma fused_failure:
  "mark_failed ops st rec (mark ops SYNCING (ob_localId rec) s) =
     os_update ops s (ob_localId rec) (\<lambda>r. r\<lparr>ob_status := st, ob_attempts := ob_attempts rec + 1\<rparr>)"
  by (simp add: mark_failed_def mark_def update_update)

lemma blocked_flush:
  assumes "inv (sq_store q)" "\<not> sq_flushing q" "blocked_by ops (sq_store q) i"
    and "\<And>s i. lookup_ref deps s i = Inr (os_get ops s i)"
  shows "\<exists>q'. flush ops (makeOutboxSubmit deps) q w = (Inr 0, q', w) \<and> inv (sq_store q') \<and> \<not> sq_flushing q' \<and>
    blocked_by ops (sq_store q') i \<and>
    map ob_localId (listPending ops (sq_store q')) = map ob_localId (listPending ops (sq_store q))"
proof -
  define s where "s = sq_store q"
  from assms(3) obtain k rest p where lp: "listPending ops s = k # rest" and k: "ob_type k = DOOR_KNOCK"
      "tget (ob_payload k) ''photoRef'' = Some (JStr i)" "i \<noteq> []"
    and p: "os_get ops s i = Some p" "ob_status p = SYNCING"
    by (auto simp: blocked_by_def s_def)
  have s: "inv s" using assms(1) by (simp add: s_def)
  have gk: "os_get ops s (ob_localId k) = Some k" "ob_status k = PENDING"
    using list_pending [OF s, of k] lp by auto
  with p have ne: "i \<noteq> ob_localId k" by auto
  let ?s1 = "mark ops SYNCING (ob_localId k) s"
  let ?f = "\<lambda>r. r\<lparr>ob_status := PENDING, ob_attempts := ob_attempts k + 1\<rparr>"
  define s2 where "s2 = os_update ops s (ob_localId k) ?f"
  have "makeOutboxSubmit deps k ?s1 w = (Inr (SubmitFailed True ''PHOTO_PENDING''), w)"
    using k p ne by (simp add: makeOutboxSubmit_def submit_knock_def prepare_knock_def resolve_photo_def
        find_ref_def assms(4))
  then have fl: "flush ops (makeOutboxSubmit deps) q w = (Inr 0, \<lparr>sq_store = s2, sq_flushing = False\<rparr>, w)"
    using assms(2) by (simp add: flush_def drain_def s_def [symmetric] lp s2_def fused_failure)
  have "distinct (map ob_localId (listPending ops s))" using list_distinct [OF s] by (simp add: listPending_def)
  then have rest: "map (\<lambda>r. if ob_localId r = ob_localId k then ?f r else r) rest = rest"
    by (intro map_idI) (auto simp: lp dest: in_image_localId)
  have lp2: "listPending ops s2 = ?f k # rest"
    using list_update [OF s gk(1), of ?f PENDING] gk(2) rest lp by (simp add: s2_def listPending_def)
  have "blocked_by ops s2 i"
    unfolding blocked_by_def
    using lp2 k p ne by (intro exI [of _ "?f k"] exI [of _ rest] exI [of _ p]) (simp add: s2_def get_update)
  moreover have "inv s2" unfolding s2_def by (rule inv_update [OF s]) simp
  ultimately show ?thesis using fl lp lp2 by (simp add: s_def [symmetric])
qed

lemma blocked_flush_times:
  assumes "inv (sq_store q)" "\<not> sq_flushing q" "blocked_by ops (sq_store q) i"
    and "\<And>s i. lookup_ref deps s i = Inr (os_get ops s i)"
  shows "\<exists>q'. flush_times ops (makeOutboxSubmit deps) n q w = (0, q', w) \<and>
    map ob_localId (listPending ops (sq_store q')) = map ob_localId (listPending ops (sq_store q))"
  using assms(1-3)
proof (induction n arbitrary: q)
  case (Suc n)
  from blocked_flush [OF Suc.prems assms(4)] obtain q1 where q1:
    "flush ops (makeOutboxSubmit deps) q w = (Inr 0, q1, w)" "inv (sq_store q1)" "\<not> sq_flushing q1"
    "blocked_by ops (sq_store q1) i"
    "map ob_localId (listPending ops (sq_store q1)) = map ob_localId (listPending ops (sq_store q))"
    by blast
  from Suc.IH [OF q1(2-4)] q1(1,5) show ?case by auto
qed simp

lemma flush_keeps:
  "inv (sq_store q) \<Longrightarrow> flush ops submit q w = (r, q', w') \<Longrightarrow>
   captured ops (sq_store q') = captured ops (sq_store q) \<and> inv (sq_store q')"
  by (auto simp: flush_def drain_def split: if_splits prod.splits dest: drain_loop_keeps)

lemma flush_final:
  assumes "\<And>r s w. \<exists>x. fst (submit r s w) = Inr x \<and> (\<forall>e. x \<noteq> SubmitFailed True e)"
    and "inv (sq_store q)" "\<not> sq_flushing q" "flush ops submit q w = (res, q', w')"
  shows "is_ok res \<and> listPending ops (sq_store q') = []"
proof -
  let ?s = "sq_store q"
  from assms(3,4) have loop: "drain_loop ops submit (listPending ops ?s) 0 ?s w = (res, sq_store q', w')"
    by (auto simp: flush_def drain_def split: prod.splits)
  have final: "is_ok res \<and> (\<forall>i x. os_get ops (sq_store q') i = Some x \<and> ob_status x \<in> {PENDING, SYNCING} \<longrightarrow>
       i \<notin> set (map ob_localId (listPending ops ?s)) \<and> os_get ops ?s i = Some x)"
    using list_distinct [OF assms(2)] list_pending [OF assms(2)] assms(1,2) loop
    by (intro drain_loop_final [OF assms(1) loop]) (auto simp: listPending_def)
  have inv': "inv (sq_store q')" using drain_loop_keeps [OF loop] assms(2) by simp
  have "r \<notin> set (listPending ops (sq_store q'))" for r
  proof
    assume "r \<in> set (listPending ops (sq_store q'))"
    with list_pending [OF inv'] have r: "os_get ops (sq_store q') (ob_localId r) = Some r" "ob_status r = PENDING" by auto
    with final have "ob_localId r \<notin> set (map ob_localId (listPending ops ?s))" "os_get ops ?s (ob_localId r) = Some r"
      by auto
    with r(2) list_mem [OF assms(2), of r PENDING] show False by (auto simp: listPending_def)
  qed
  with final show ?thesis by (metis list.set_intros(1) list.exhaust)
qed

end

text \<open>C15: A flush, whatever the submit function answers or throws, keeps the store consistent and loses no
  captured record: every record is still there under its id, with its type, its payload and its
  capture time.\<close>

theorem flush_loses_nothing:
  assumes "mem_inv (sq_store q)" "flush (InMemoryOutboxStore collate) submit q w = (r, q', w')"
  shows "mem_inv (sq_store q') \<and> captured (InMemoryOutboxStore collate) (sq_store q') = captured (InMemoryOutboxStore collate) (sq_store q)"
  using memory.flush_keeps [OF assms] by simp

text \<open>C21: When the submit function settles every record (it succeeds or fails for good, never transiently and
  never by throwing), one flush empties the queue of pending records.\<close>

theorem final_answers_empty_queue:
  assumes "\<And>r s w. \<exists>x. fst (submit r s w) = Inr x \<and> (\<forall>e. x \<noteq> SubmitFailed True e)"
    and "mem_inv (sq_store q)" "\<not> sq_flushing q"
    and "flush (InMemoryOutboxStore collate) submit q w = (res, q', w')"
  shows "is_ok res \<and> listPending (InMemoryOutboxStore collate) (sq_store q') = []"
  by (rule memory.flush_final [OF assms(1-4)])

text \<open>The flush function refines the step relation of the queue's atomic segments: the store a flush
  leaves is one a run of steps of the machine reaches from the store it found, with no drain under way
  at the end.\<close>

lemma flush_is_a_run:
  assumes "\<not> sq_flushing q" "flush (InMemoryOutboxStore collate) submit q w = (r, q', w')"
  shows "queue_runs (InMemoryOutboxStore collate) \<lparr>mc_store = sq_store q, mc_drain = None\<rparr>
    \<lparr>mc_store = sq_store q', mc_drain = None\<rparr>"
proof -
  let ?ops = "InMemoryOutboxStore collate"
  let ?m = "\<lparr>mc_store = sq_store q, mc_drain = None\<rparr>"
  let ?m1 = "?m\<lparr>mc_drain := Some (None, listPending ?ops (sq_store q))\<rparr>"
  from assms have "drain_loop ?ops submit (listPending ?ops (sq_store q)) 0 (sq_store q) w = (r, sq_store q', w')"
    by (auto simp: flush_def drain_def split: prod.splits)
  then have "queue_runs ?ops ?m1 (?m1\<lparr>mc_store := sq_store q', mc_drain := None\<rparr>)"
    by (rule memory.drain_loop_run) simp_all
  then show ?thesis using memory.runs_step [OF queue_step.begin_flush [of ?m ?ops]] by simp
qed

text \<open>Through the actions the sync centre offers, a stranded record stays stranded.\<close>

lemma stranded_forever:
  assumes "mem_inv (mc_store m)" "stranded (InMemoryOutboxStore collate) m i"
    and "offered_runs (InMemoryOutboxStore collate) m m'"
  shows "stranded (InMemoryOutboxStore collate) m' i"
  using memory.stranded_runs [OF assms(3,1,2)] by simp

text \<open>Once the first pending record is a door knock whose photo was left in the syncing status (the state
  a rejected submit or a closed app leaves it in), no number of flushes syncs anything: each leaves
  the same queue of pending records, those behind the knock included, and calls no endpoint.\<close>

lemma stranded_photo_blocks_queue:
  assumes "mem_inv (sq_store q)" "\<not> sq_flushing q" "blocked_by (InMemoryOutboxStore collate) (sq_store q) i"
    and "\<And>s i. lookup_ref deps s i = Inr (tget s i)"
  shows "\<exists>q'. flush_times (InMemoryOutboxStore collate) (makeOutboxSubmit deps) n q w = (0, q', w) \<and>
    map ob_localId (listPending (InMemoryOutboxStore collate) (sq_store q')) =
    map ob_localId (listPending (InMemoryOutboxStore collate) (sq_store q))"
proof -
  have "lookup_ref deps s i = Inr (os_get (InMemoryOutboxStore collate) s i)" for s i
    by (simp add: InMemoryOutboxStore_def assms(4))
  from memory.blocked_flush_times [OF assms(1-3) this] show ?thesis by blast
qed

section \<open>A queue that stops\<close>

definition sample_photo :: OutboxRecord where
  "sample_photo = (fresh_record ''p1'' [(''blobKey'', JStr ''b1'')] ''t1'' DOOR_PHOTO)\<lparr>ob_status := SYNCING\<rparr>"

definition sample_knock :: OutboxRecord where
  "sample_knock = fresh_record ''k1'' [(''photoRef'', JStr ''p1''), (''contactId'', JStr ''c1'')] ''t2'' DOOR_KNOCK"

definition sample_outbox :: "outbox_map SyncQueue" where
  "sample_outbox = \<lparr>sq_store = [(''p1'', sample_photo), (''k1'', sample_knock)], sq_flushing = False\<rparr>"

text \<open>A world that counts the calls that reach the network, all of them answered.\<close>

definition sample_deps :: "(outbox_map, nat) DispatchDeps" where
  "sample_deps =
     \<lparr>uploadPhoto = (\<lambda>b f m w. (Inr (ApiOk ''url''), w + 1)), createContact = (\<lambda>p w. (Inr (ApiOk ''c''), w + 1)),
      submitKnock = (\<lambda>p w. (Inr (ApiOk ()), w + 1)), getBlob = (\<lambda>k w. (Inr (Some ''bytes''), w)),
      deleteBlob = (\<lambda>k w. (Inr (), w)), lookup_ref = (\<lambda>s i. Inr (tget s i))\<rparr>"

lemmas sample_outbox_defs = sample_outbox_def sample_photo_def sample_knock_def fresh_record_def

lemma sample_outbox_inv: "mem_inv (sq_store sample_outbox) \<and> \<not> sq_flushing sample_outbox"
  by (simp add: mem_inv_def sample_outbox_defs tkeys_def)

lemma sample_outbox_pending:
  "listPending (InMemoryOutboxStore collate) (sq_store sample_outbox) = [sample_knock]"
  by (simp add: listPending_def InMemoryOutboxStore_def mem_listByStatus_def sample_outbox_defs tvals_def)

lemma sample_outbox_blocked: "blocked_by (InMemoryOutboxStore collate) (sq_store sample_outbox) ''p1''"
  unfolding blocked_by_def sample_outbox_pending
  by (simp add: InMemoryOutboxStore_def sample_outbox_defs)

lemma stranded_photo_blocks_queue_witness:
  "\<exists>q'. flush_times (InMemoryOutboxStore (\<lambda>t. 0)) (makeOutboxSubmit sample_deps) 1000 sample_outbox 0 = (0, q', 0) \<and>
    map ob_localId (listPending (InMemoryOutboxStore (\<lambda>t. 0)) (sq_store q')) = [''k1'']"
proof -
  have "map ob_localId (listPending (InMemoryOutboxStore (\<lambda>t. 0)) (sq_store sample_outbox)) = [''k1'']"
    by (simp add: sample_outbox_pending sample_knock_def fresh_record_def)
  then show ?thesis
    using stranded_photo_blocks_queue [of sample_outbox "\<lambda>t. 0" "''p1''" sample_deps 1000 0]
      sample_outbox_inv sample_outbox_blocked by (simp add: sample_deps_def)
qed

definition sample_machine :: "outbox_map QueueMachine" where
  "sample_machine = \<lparr>mc_store = sq_store sample_outbox, mc_drain = None\<rparr>"

lemma stranded_forever_witness:
  "stranded (InMemoryOutboxStore (\<lambda>t. 0)) (sample_machine\<lparr>mc_drain := Some (None, [sample_knock])\<rparr>) ''p1''"
proof (rule stranded_forever)
  show "mem_inv (mc_store sample_machine)" by (simp add: sample_machine_def sample_outbox_inv)
  show "stranded (InMemoryOutboxStore (\<lambda>t. 0)) sample_machine ''p1''"
    by (simp add: sample_machine_def stranded_def awaited_ids_def InMemoryOutboxStore_def sample_outbox_defs)
  have "queue_step (InMemoryOutboxStore (\<lambda>t. 0)) sample_machine EvFlush (sample_machine\<lparr>mc_drain := Some (None, [sample_knock])\<rparr>)"
    using queue_step.begin_flush [of sample_machine "InMemoryOutboxStore (\<lambda>t. 0)"]
    by (simp add: sample_machine_def sample_outbox_pending)
  then show "offered_runs (InMemoryOutboxStore (\<lambda>t. 0)) sample_machine (sample_machine\<lparr>mc_drain := Some (None, [sample_knock])\<rparr>)"
    unfolding offered_runs_def by (intro r_into_rtranclp exI [of _ EvFlush]) simp
qed

lemma flush_is_a_run_witness:
  "\<exists>q' :: outbox_map SyncQueue. queue_runs (InMemoryOutboxStore (\<lambda>t. 0)) sample_machine \<lparr>mc_store = sq_store q', mc_drain = None\<rparr>"
proof -
  obtain r q' w' where "flush (InMemoryOutboxStore (\<lambda>t. 0)) (makeOutboxSubmit sample_deps) sample_outbox 0 = (r, q', w')"
    by (metis prod_cases3)
  from flush_is_a_run [OF _ this] sample_outbox_inv show ?thesis by (auto simp: sample_machine_def)
qed

theorem flush_loses_nothing_witness:
  "\<exists>q' :: outbox_map SyncQueue. mem_inv (sq_store q') \<and>
     captured (InMemoryOutboxStore (\<lambda>t. 0)) (sq_store q') ''k1'' = captured (InMemoryOutboxStore (\<lambda>t. 0)) (sq_store sample_outbox) ''k1''"
proof -
  obtain r q' w' where "flush (InMemoryOutboxStore (\<lambda>t. 0)) (makeOutboxSubmit sample_deps) sample_outbox 0 = (r, q', w')"
    by (metis prod_cases3)
  from flush_loses_nothing [OF _ this] sample_outbox_inv show ?thesis by auto
qed

theorem final_answers_empty_queue_witness:
  "\<exists>q' :: outbox_map SyncQueue. listPending (InMemoryOutboxStore (\<lambda>t. 0)) (sq_store q') = []"
proof -
  let ?submit = "\<lambda>(r :: OutboxRecord) (s :: outbox_map) (w :: nat). (Inr (SubmitOk None), w)"
  obtain r q' w' where f: "flush (InMemoryOutboxStore (\<lambda>t. 0)) ?submit sample_outbox 0 = (r, q', w')"
    by (metis prod_cases3)
  from final_answers_empty_queue [OF _ _ _ f] sample_outbox_inv show ?thesis by auto
qed

lemma knock_sent_resolved_witness:
  "js_truthy (tget [(''contactId'', JStr ''c1'')] ''contactId'')"
  using knock_sent_resolved [of sample_deps "[]" "[(''contactId'', JStr ''c1'')]" "[(''contactId'', JStr ''c1'')]"]
  by (simp add: prepare_knock_def resolve_photo_def resolve_contact_def)

end
