(* ===== verification/Question_Graph.thy ===== *)
theory Question_Graph
  imports Uprise_Prelude
begin

text \<open>
  The question graph of a dialler survey: \<^verbatim>\<open>apps/api/src/autodialer/question-graph.util.ts\<close>. The two
  graph walks of \<open>validateQuestionGraph\<close> are kept as the code has them: the stack loop that collects the
  reachable keys, and the colouring search for a cycle, which recurses with a bound on its depth. The
  lemmas relate them to the reflexive-transitive and transitive closures of the graph's edges. An issue's
  human-readable \<open>detail\<close> is not kept, nor are the question and answer fields the validator never reads
  (content, script, transfer, audio prompt).
\<close>

section \<open>Graphs\<close>

definition NEXT_OUTRO :: string where "NEXT_OUTRO = ''outro''"

record QuestionGraphAnswer =
  qa_digit :: string
  qa_value :: string
  qa_nextKey :: "string option"

datatype QuestionType = STANDARD | SWITCHBOARD

record QuestionGraphNode =
  qn_key :: string
  qn_name :: "string option"
  qn_type :: "QuestionType option"
  qn_answers :: "QuestionGraphAnswer list"

datatype Severity = SevError | SevWarning

datatype IssueCode =
    EMPTY_GRAPH | DUPLICATE_KEY | MISSING_NAME | DUPLICATE_DIGIT | INVALID_DIGIT | DANGLING_NEXT
  | UNREACHABLE | NO_ANSWERS | CYCLE

record QuestionGraphIssue =
  qi_severity :: Severity
  qi_code :: IssueCode
  qi_key :: "string option"

definition qissue :: "Severity \<Rightarrow> IssueCode \<Rightarrow> string option \<Rightarrow> QuestionGraphIssue" where
  "qissue sev code key = \<lparr>qi_severity = sev, qi_code = code, qi_key = key\<rparr>"

definition VALID_DIGITS :: "string list" where
  "VALID_DIGITS = [''0'', ''1'', ''2'', ''3'', ''4'', ''5'', ''6'', ''7'', ''8'', ''9'']"

section \<open>The checks of one question\<close>

fun digit_issues :: "string \<Rightarrow> string list \<Rightarrow> QuestionGraphAnswer list \<Rightarrow> QuestionGraphIssue list" where
  "digit_issues key digits [] = []"
| "digit_issues key digits (a # as) =
     (if qa_digit a \<notin> set VALID_DIGITS then [qissue SevError INVALID_DIGIT (Some key)] else []) @
     (if qa_digit a \<in> set digits then [qissue SevError DUPLICATE_DIGIT (Some key)] else []) @
     digit_issues key (qa_digit a # digits) as"

fun question_issues :: "string list \<Rightarrow> QuestionGraphNode list \<Rightarrow> QuestionGraphIssue list" where
  "question_issues keys [] = []"
| "question_issues keys (q # qs) =
     (if qn_key q \<in> set keys then [qissue SevError DUPLICATE_KEY (Some (qn_key q))] else []) @
     (if \<not> truthy (map_option js_trim (qn_name q)) then [qissue SevError MISSING_NAME (Some (qn_key q))] else []) @
     (if qn_answers q = [] \<and> qn_type q \<noteq> Some SWITCHBOARD
      then [qissue SevError NO_ANSWERS (Some (qn_key q))] else []) @
     digit_issues (qn_key q) [] (qn_answers q) @
     question_issues (qn_key q # keys) qs"

definition dangling_issues :: "QuestionGraphNode list \<Rightarrow> QuestionGraphIssue list" where
  "dangling_issues qs =
     concat (map (\<lambda>q. concat (map (\<lambda>a.
       case qa_nextKey a of
         None \<Rightarrow> []
       | Some k \<Rightarrow>
           if k \<noteq> NEXT_OUTRO \<and> k \<notin> set (map qn_key qs)
           then [qissue SevError DANGLING_NEXT (Some (qn_key q))] else []) (qn_answers q))) qs)"

section \<open>The walks\<close>

text \<open>A later question of a key replaces an earlier one.\<close>

definition byKey :: "QuestionGraphNode list \<Rightarrow> (string, QuestionGraphNode) table" where
  "byKey qs = fold (\<lambda>q. tset (qn_key q) q) qs []"

definition next_keys :: "(string, QuestionGraphNode) table \<Rightarrow> string \<Rightarrow> string list" where
  "next_keys g key =
     (case tget g key of
        None \<Rightarrow> []
      | Some q \<Rightarrow>
          concat (map (\<lambda>a. case qa_nextKey a of
              None \<Rightarrow> []
            | Some k \<Rightarrow> if k \<noteq> [] \<and> k \<noteq> NEXT_OUTRO \<and> tget g k \<noteq> None then [k] else []) (qn_answers q)))"

definition edges :: "(string, QuestionGraphNode) table \<Rightarrow> (string \<times> string) set" where
  "edges g = {(a, b). b \<in> set (next_keys g a)}"

lemma next_keys_known: "set (next_keys g key) \<subseteq> set (tkeys g)"
  using tget_None_iff [of g] by (auto simp: next_keys_def split: option.splits if_splits)

lemma next_keys_unknown: "key \<notin> set (tkeys g) \<Longrightarrow> next_keys g key = []"
  by (simp add: next_keys_def tget_None_iff [symmetric])

text \<open>The head of the list is the top of the stack.\<close>

function reach_loop :: "(string, QuestionGraphNode) table \<Rightarrow> string list \<Rightarrow> string list \<Rightarrow> string list" where
  "reach_loop g [] reachable = reachable"
| "reach_loop g (key # stack) reachable =
     (if key \<in> set reachable then reach_loop g stack reachable
      else reach_loop g (rev (next_keys g key) @ stack) (reachable @ [key]))"
  by pat_completeness auto
termination
proof (relation "measures [\<lambda>(g, stack, reachable). card (set (tkeys g) - set reachable),
    \<lambda>(g, stack, reachable). length stack]", goal_cases)
  case (3 g key stack reachable)
  show ?case
  proof (cases "key \<in> set (tkeys g)")
    case True
    with 3 have "set (tkeys g) - set (reachable @ [key]) \<subset> set (tkeys g) - set reachable" by auto
    then have "card (set (tkeys g) - set (reachable @ [key])) < card (set (tkeys g) - set reachable)"
      by (simp add: psubset_card_mono)
    then show ?thesis by simp
  next
    case False
    then have "set (tkeys g) - set (reachable @ [key]) = set (tkeys g) - set reachable" by auto
    with next_keys_unknown [OF False] show ?thesis by simp
  qed
qed auto

datatype VisitState = Visiting | Done

type_synonym colouring = "string \<Rightarrow> VisitState option"

text \<open>The recursion depth is bounded by \<open>n\<close>; one more than the number of keys is enough.\<close>

fun visit :: "nat \<Rightarrow> (string, QuestionGraphNode) table \<Rightarrow> string \<Rightarrow> colouring \<Rightarrow> bool \<times> colouring"
  and visit_any :: "nat \<Rightarrow> (string, QuestionGraphNode) table \<Rightarrow> string list \<Rightarrow> colouring \<Rightarrow> bool \<times> colouring" where
  "visit 0 g key state = (False, state)"
| "visit (Suc n) g key state =
     (case state key of
        Some Visiting \<Rightarrow> (True, state)
      | Some Done \<Rightarrow> (False, state)
      | None \<Rightarrow>
          (let (b, st) = visit_any n g (next_keys g key) (state(key \<mapsto> Visiting)) in
           (b, st(key \<mapsto> Done))))"
| "visit_any n g [] state = (False, state)"
| "visit_any n g (key # keys) state =
     (let (b, st) = visit n g key state in
      if b then (True, st) else visit_any n g keys st)"

section \<open>The validator\<close>

definition has_cycle :: "(string, QuestionGraphNode) table \<Rightarrow> string \<Rightarrow> bool" where
  "has_cycle g key = fst (visit (length g + 1) g key (\<lambda>k. None))"

definition validateQuestionGraph :: "QuestionGraphNode list \<Rightarrow> QuestionGraphIssue list" where
  "validateQuestionGraph questions =
     (if questions = [] then [qissue SevError EMPTY_GRAPH None]
      else (let g = byKey questions; first = qn_key (hd questions); reachable = reach_loop g [first] [] in
            question_issues [] questions @
            dangling_issues questions @
            concat (map (\<lambda>q. if qn_key q \<notin> set reachable
                            then [qissue SevWarning UNREACHABLE (Some (qn_key q))] else []) questions) @
            (if has_cycle g first then [qissue SevWarning CYCLE None] else [])))"

definition questionGraphActivatable :: "QuestionGraphNode list \<Rightarrow> bool" where
  "questionGraphActivatable questions \<longleftrightarrow>
     (\<forall>i\<in>set (validateQuestionGraph questions). qi_severity i \<noteq> SevError)"

section \<open>The authoring format\<close>

record AuthoringQuestion =
  aq_key :: "string option"
  aq_question :: string
  aq_options :: "string list"

text \<open>\<open>q.key?.trim() || `q${n}`\<close>\<close>

definition authored_key :: "AuthoringQuestion \<Rightarrow> nat \<Rightarrow> string" where
  "authored_key q n =
     (case map_option js_trim (aq_key q) of
        Some k \<Rightarrow> if k \<noteq> [] then k else ''q'' @ nat_to_string n
      | None \<Rightarrow> ''q'' @ nat_to_string n)"

definition expand_question :: "AuthoringQuestion list \<Rightarrow> nat \<Rightarrow> QuestionGraphNode" where
  "expand_question qs i =
     (let nextKey = (if i + 1 < length qs then authored_key (qs ! (i + 1)) (i + 2) else NEXT_OUTRO) in
      \<lparr>qn_key = authored_key (qs ! i) (i + 1), qn_name = Some (aq_question (qs ! i)), qn_type = Some STANDARD,
       qn_answers = map (\<lambda>j. \<lparr>qa_digit = nat_to_string (j + 1), qa_value = aq_options (qs ! i) ! j,
                              qa_nextKey = Some nextKey\<rparr>) [0..<length (aq_options (qs ! i))]\<rparr>)"

definition expandAuthoringFormat :: "AuthoringQuestion list \<Rightarrow> QuestionGraphNode list" where
  "expandAuthoringFormat authoring = map (expand_question authoring) [0..<length authoring]"

section \<open>The reachable set\<close>

lemma reach_mono: "set reachable \<subseteq> set (reach_loop g stack reachable)"
  by (induction g stack reachable rule: reach_loop.induct) auto

lemma reach_stack: "set stack \<subseteq> set (reach_loop g stack reachable)"
proof (induction g stack reachable rule: reach_loop.induct)
  case (2 g key stack reachable)
  then show ?case
    using reach_mono [of reachable g stack] reach_mono [of "reachable @ [key]" g "rev (next_keys g key) @ stack"] by auto
qed simp

lemma reach_closed:
  "edges g `` set reachable \<subseteq> set reachable \<union> set stack \<Longrightarrow>
   edges g `` set (reach_loop g stack reachable) \<subseteq> set (reach_loop g stack reachable)"
proof (induction g stack reachable rule: reach_loop.induct)
  case (2 g key stack reachable)
  have "edges g `` set (reachable @ [key]) \<subseteq> set (reachable @ [key]) \<union> set (rev (next_keys g key) @ stack)"
    using "2.prems" by (auto simp: edges_def)
  with 2 show ?case by (auto simp: insert_absorb)
qed simp

lemma reach_sound: "set (reach_loop g stack reachable) \<subseteq> set reachable \<union> (edges g)\<^sup>* `` set stack"
proof (induction g stack reachable rule: reach_loop.induct)
  case (2 g key stack reachable)
  define T where "T = (edges g)\<^sup>* `` {key} \<union> (edges g)\<^sup>* `` set stack"
  have "(edges g)\<^sup>* `` set (next_keys g key) \<subseteq> (edges g)\<^sup>* `` {key}"
    by (auto simp: edges_def intro: converse_rtrancl_into_rtrancl)
  then have sub: "(edges g)\<^sup>* `` set (rev (next_keys g key) @ stack) \<subseteq> T" "(edges g)\<^sup>* `` set stack \<subseteq> T"
    unfolding T_def set_append set_rev Image_Un by blast+
  have key: "key \<in> T" by (simp add: T_def)
  have T: "(edges g)\<^sup>* `` set (key # stack) = T"
    unfolding T_def Image_Un [symmetric] by simp
  show ?case
  proof (cases "key \<in> set reachable")
    case True
    have "set (reach_loop g (key # stack) reachable) = set (reach_loop g stack reachable)" using True by simp
    also have "\<dots> \<subseteq> set reachable \<union> (edges g)\<^sup>* `` set stack" by (rule "2.IH"(1) [OF True])
    also have "\<dots> \<subseteq> set reachable \<union> T" by (rule Un_mono [OF subset_refl sub(2)])
    finally show ?thesis unfolding T .
  next
    case False
    have "set (reach_loop g (key # stack) reachable) =
        set (reach_loop g (rev (next_keys g key) @ stack) (reachable @ [key]))" using False by simp
    also have "\<dots> \<subseteq> set (reachable @ [key]) \<union> (edges g)\<^sup>* `` set (rev (next_keys g key) @ stack)"
      by (rule "2.IH"(2) [OF False])
    also have "\<dots> \<subseteq> set reachable \<union> T"
    proof (rule Un_least)
      show "set (reachable @ [key]) \<subseteq> set reachable \<union> T" using key by simp
      show "(edges g)\<^sup>* `` set (rev (next_keys g key) @ stack) \<subseteq> set reachable \<union> T"
        using sub(1) by (rule le_supI2)
    qed
    finally show ?thesis unfolding T .
  qed
qed simp

lemma reach_loop_exact: "set (reach_loop g [key] []) = (edges g)\<^sup>* `` {key}"
proof
  show "set (reach_loop g [key] []) \<subseteq> (edges g)\<^sup>* `` {key}" using reach_sound [of g "[key]" "[]"] by simp
  have closed: "edges g `` set (reach_loop g [key] []) \<subseteq> set (reach_loop g [key] [])" by (rule reach_closed) simp
  show "(edges g)\<^sup>* `` {key} \<subseteq> set (reach_loop g [key] [])"
  proof
    fix y assume "y \<in> (edges g)\<^sup>* `` {key}"
    then have "(key, y) \<in> (edges g)\<^sup>*" by simp
    then show "y \<in> set (reach_loop g [key] [])"
      using closed reach_stack [of "[key]" g "[]"] by (induction rule: rtrancl_induct) auto
  qed
qed

declare reach_loop.simps(2) [simp del]

section \<open>The cycle search\<close>

definition done_keys :: "colouring \<Rightarrow> string set" where "done_keys st = {k. st k = Some Done}"
definition visiting_keys :: "colouring \<Rightarrow> string set" where "visiting_keys st = {k. st k = Some Visiting}"

lemma visit_fresh:
  "st key = None \<Longrightarrow> visit (Suc n) g key st =
     (fst (visit_any n g (next_keys g key) (st(key \<mapsto> Visiting))),
      (snd (visit_any n g (next_keys g key) (st(key \<mapsto> Visiting))))(key \<mapsto> Done))"
  by (simp add: Let_def case_prod_unfold)

lemma visit_known: "st key = Some v \<Longrightarrow> visit (Suc n) g key st = (v = Visiting, st)"
  by (cases v) auto

lemma visit_any_Cons:
  "visit_any n g (key # keys) st =
     (if fst (visit n g key st) then (True, snd (visit n g key st))
      else visit_any n g keys (snd (visit n g key st)))"
  by (simp add: Let_def case_prod_unfold)

lemmas visit_simps = visit_fresh visit_known visit_any_Cons

declare visit.simps(2) [simp del] visit_any.simps(2) [simp del]

lemma visiting_keys_upd: "visiting_keys (st(key \<mapsto> Done)) = visiting_keys st - {key}"
  by (auto simp: visiting_keys_def)

text \<open>The keys being visited are the same before and after a visit.\<close>

lemma visit_visiting:
  "visiting_keys (snd (visit n g key st)) = visiting_keys st"
  "visiting_keys (snd (visit_any n g keys st)) = visiting_keys st"
proof (induction n g key st and n g keys st rule: visit_visit_any.induct)
  case (2 n g key state)
  show ?case
  proof (cases "state key")
    case None
    have "visiting_keys (snd (visit_any n g (next_keys g key) (state(key \<mapsto> Visiting)))) =
        visiting_keys (state(key \<mapsto> Visiting))" by (rule "2.IH" [OF None])
    also have "\<dots> = insert key (visiting_keys state)" by (auto simp: visiting_keys_def)
    finally have "visiting_keys (snd (visit (Suc n) g key state)) = insert key (visiting_keys state) - {key}"
      using None by (simp add: visit_fresh visiting_keys_upd)
    moreover have "key \<notin> visiting_keys state" using None by (simp add: visiting_keys_def)
    ultimately show ?thesis by simp
  qed (simp add: visit_known)
next
  case (4 n g key keys state)
  then show ?case by (auto simp: visit_any_Cons prod_eq_iff)
qed auto

text \<open>A reported cycle is one: every key being visited leads to the key at hand.\<close>

lemma visit_sound:
  "fst (visit n g key st) \<Longrightarrow> \<forall>v\<in>visiting_keys st. (v, key) \<in> (edges g)\<^sup>+ \<Longrightarrow>
     \<exists>x. (key, x) \<in> (edges g)\<^sup>* \<and> (x, x) \<in> (edges g)\<^sup>+"
  "fst (visit_any n g keys st) \<Longrightarrow> \<forall>v\<in>visiting_keys st. \<forall>k\<in>set keys. (v, k) \<in> (edges g)\<^sup>+ \<Longrightarrow>
     \<exists>k\<in>set keys. \<exists>x. (k, x) \<in> (edges g)\<^sup>* \<and> (x, x) \<in> (edges g)\<^sup>+"
proof (induction n g key st and n g keys st rule: visit_visit_any.induct)
  case (2 n g key state)
  show ?case
  proof (cases "state key")
    case None
    have e: "(key, k) \<in> edges g" if "k \<in> set (next_keys g key)" for k using that by (simp add: edges_def)
    have "\<forall>v\<in>visiting_keys (state(key \<mapsto> Visiting)). \<forall>k\<in>set (next_keys g key). (v, k) \<in> (edges g)\<^sup>+"
      using "2.prems"(2) e by (auto simp: visiting_keys_def intro: trancl_into_trancl split: if_splits)
    moreover have "fst (visit_any n g (next_keys g key) (state(key \<mapsto> Visiting)))"
      using "2.prems"(1) None by (simp only: visit_fresh fst_conv)
    ultimately obtain k x where "k \<in> set (next_keys g key)" "(k, x) \<in> (edges g)\<^sup>*" "(x, x) \<in> (edges g)\<^sup>+"
      using "2.IH" [OF None] by blast
    with e show ?thesis by (blast intro: converse_rtrancl_into_rtrancl)
  next
    case (Some v)
    with 2 have "key \<in> visiting_keys state" by (simp add: visit_known visiting_keys_def)
    with "2.prems"(2) show ?thesis by blast
  qed
next
  case (4 n g key keys state)
  show ?case
  proof (cases "fst (visit n g key state)")
    case True
    with 4 show ?thesis by auto
  next
    case False
    with "4.prems" "4.IH"(2) visit_visiting(1) [of n g key state] show ?thesis
      by (auto simp: visit_any_Cons prod_eq_iff)
  qed
qed auto

text \<open>The keys done so far have their successors among them and lie on no cycle.\<close>

definition settled :: "(string, QuestionGraphNode) table \<Rightarrow> colouring \<Rightarrow> bool" where
  "settled g st \<longleftrightarrow> edges g `` done_keys st \<subseteq> done_keys st \<and> (\<forall>k\<in>done_keys st. (k, k) \<notin> (edges g)\<^sup>+)"

lemma settled_trancl: "(a, b) \<in> (edges g)\<^sup>+ \<Longrightarrow> settled g st \<Longrightarrow> a \<in> done_keys st \<Longrightarrow> b \<in> done_keys st"
  by (induction rule: trancl_induct) (auto simp: settled_def)

lemma settled_add:
  assumes "settled g st" "edges g `` {key} \<subseteq> done_keys st" "key \<notin> done_keys st"
  shows "settled g (st(key \<mapsto> Done))"
proof -
  have "done_keys (st(key \<mapsto> Done)) = insert key (done_keys st)" by (auto simp: done_keys_def)
  moreover have "(key, key) \<notin> (edges g)\<^sup>+"
  proof
    assume "(key, key) \<in> (edges g)\<^sup>+"
    then obtain c where c: "(key, c) \<in> edges g" "c = key \<or> (c, key) \<in> (edges g)\<^sup>+"
      by (meson rtranclD tranclD)
    with assms settled_trancl [of c key g st] show False by auto
  qed
  ultimately show ?thesis using assms by (auto simp: settled_def)
qed

definition unseen :: "(string, QuestionGraphNode) table \<Rightarrow> colouring \<Rightarrow> nat" where
  "unseen g st = card (set (tkeys g) - dom st)"

lemma unseen_visiting:
  "st key = None \<Longrightarrow> key \<in> set (tkeys g) \<Longrightarrow> unseen g (st(key \<mapsto> Visiting)) < unseen g st"
  unfolding unseen_def by (rule psubset_card_mono) auto

lemma unseen_mono: "dom st \<subseteq> dom st' \<Longrightarrow> unseen g st' \<le> unseen g st"
  unfolding unseen_def by (rule card_mono) auto

lemma visit_dom:
  "dom st \<subseteq> dom (snd (visit n g key st))"
  "dom st \<subseteq> dom (snd (visit_any n g keys st))"
proof (induction n g key st and n g keys st rule: visit_visit_any.induct)
  case (2 n g key state)
  then show ?case
  proof (cases "state key")
    case None
    define r where "r = snd (visit_any n g (next_keys g key) (state(key \<mapsto> Visiting)))"
    have "dom (state(key \<mapsto> Visiting)) \<subseteq> dom r" unfolding r_def by (rule "2.IH" [OF None])
    then have "dom state \<subseteq> dom (r(key \<mapsto> Done))" by (simp add: dom_fun_upd) blast
    moreover have "snd (visit (Suc n) g key state) = r(key \<mapsto> Done)" using None by (simp add: visit_fresh r_def)
    ultimately show ?thesis by (simp only:)
  qed (auto simp: visit_known)
next
  case (4 n g key keys state)
  have "dom (snd (visit n g key state)) \<subseteq> dom (snd (visit_any n g keys (snd (visit n g key state))))"
    if "\<not> fst (visit n g key state)"
    using "4.IH"(2) [OF refl prod.collapse that] .
  with "4.IH"(1) show ?case by (simp only: visit_any_Cons split: if_split) (metis order_trans snd_conv)
qed auto

text \<open>A visit that reports none has settled the key.\<close>

lemma visit_complete:
  "\<not> fst (visit n g key st) \<Longrightarrow> settled g st \<Longrightarrow> unseen g st < n \<Longrightarrow>
     settled g (snd (visit n g key st)) \<and> key \<in> done_keys (snd (visit n g key st)) \<and>
     done_keys st \<subseteq> done_keys (snd (visit n g key st))"
  "\<not> fst (visit_any n g keys st) \<Longrightarrow> settled g st \<Longrightarrow> unseen g st < n \<or> keys = [] \<Longrightarrow>
     settled g (snd (visit_any n g keys st)) \<and> set keys \<subseteq> done_keys (snd (visit_any n g keys st)) \<and>
     done_keys st \<subseteq> done_keys (snd (visit_any n g keys st))"
proof (induction n g key st and n g keys st rule: visit_visit_any.induct)
  case (2 n g key state)
  show ?case
  proof (cases "state key")
    case None
    let ?st = "state(key \<mapsto> Visiting)"
    define r where "r = snd (visit_any n g (next_keys g key) ?st)"
    have d: "done_keys ?st = done_keys state" using None by (auto simp: done_keys_def)
    have fuel: "unseen g ?st < n \<or> next_keys g key = []"
      using unseen_visiting [of state key g] None "2.prems"(3) next_keys_unknown [of key g] by force
    have "\<not> fst (visit_any n g (next_keys g key) ?st)"
      using "2.prems"(1) None by (simp only: visit_fresh fst_conv not_False_eq_True)
    moreover have "settled g ?st" using "2.prems"(2) unfolding settled_def d .
    ultimately have sub: "settled g r \<and> set (next_keys g key) \<subseteq> done_keys r \<and> done_keys state \<subseteq> done_keys r"
      using "2.IH" [OF None] fuel unfolding r_def d by blast
    have "key \<in> visiting_keys r" unfolding r_def visit_visiting(2) by (simp add: visiting_keys_def)
    then have nd: "key \<notin> done_keys r" by (simp add: visiting_keys_def done_keys_def)
    have "settled g (r(key \<mapsto> Done))"
      using sub nd by (intro settled_add) (auto simp: edges_def)
    moreover have "done_keys (r(key \<mapsto> Done)) = insert key (done_keys r)" by (auto simp: done_keys_def)
    moreover have eq: "snd (visit (Suc n) g key state) = r(key \<mapsto> Done)" using None by (simp add: visit_fresh r_def)
    ultimately show ?thesis unfolding eq using sub by blast
  next
    case (Some v)
    with 2 have "v = Done" by (cases v) (auto simp: visit_known)
    with Some 2 show ?thesis by (simp add: visit_known) (simp add: done_keys_def)
  qed
next
  case (4 n g key keys state)
  from "4.prems"(1) have no: "\<not> fst (visit n g key state)" "\<not> fst (visit_any n g keys (snd (visit n g key state)))"
    by (auto simp: visit_any_Cons split: if_splits)
  from "4.prems"(3) have fuel: "unseen g state < n" by simp
  from fuel unseen_mono [OF visit_dom(1) [of state n g key], of g]
  have fuel2: "unseen g (snd (visit n g key state)) < n" by simp
  have one: "settled g (snd (visit n g key state)) \<and> key \<in> done_keys (snd (visit n g key state)) \<and>
      done_keys state \<subseteq> done_keys (snd (visit n g key state))"
    by (rule "4.IH"(1) [OF no(1) "4.prems"(2) fuel])
  have "visit_any n g (key # keys) state = visit_any n g keys (snd (visit n g key state))"
    using no(1) by (simp add: visit_any_Cons)
  moreover note "4.IH"(2) [OF refl prod.collapse no(1) no(2)] one fuel2
  ultimately show ?case by auto
qed auto

lemma has_cycle_iff:
  assumes "distinct (tkeys g)"
  shows "has_cycle g key \<longleftrightarrow> (\<exists>x. (key, x) \<in> (edges g)\<^sup>* \<and> (x, x) \<in> (edges g)\<^sup>+)"
proof
  assume "has_cycle g key"
  then show "\<exists>x. (key, x) \<in> (edges g)\<^sup>* \<and> (x, x) \<in> (edges g)\<^sup>+"
    unfolding has_cycle_def by (rule visit_sound(1)) (simp add: visiting_keys_def)
next
  assume cyc: "\<exists>x. (key, x) \<in> (edges g)\<^sup>* \<and> (x, x) \<in> (edges g)\<^sup>+"
  show "has_cycle g key"
  proof (rule ccontr)
    assume "\<not> has_cycle g key"
    moreover have "unseen g (\<lambda>k. None) < length g + 1"
      using card_length [of "tkeys g"] by (simp add: unseen_def tkeys_def)
    ultimately obtain st where st: "settled g st" "key \<in> done_keys st"
      unfolding has_cycle_def using visit_complete(1) [of "length g + 1" g key "\<lambda>k. None"]
      by (auto simp: settled_def done_keys_def)
    from cyc obtain x where x: "(key, x) \<in> (edges g)\<^sup>*" "(x, x) \<in> (edges g)\<^sup>+" by blast
    with st settled_trancl [of key x g st] have "x \<in> done_keys st" by (auto dest: rtranclD)
    with st x(2) show False by (auto simp: settled_def)
  qed
qed

section \<open>What the validator reports\<close>

lemma distinct_byKey: "distinct (tkeys (byKey qs))"
proof -
  have "distinct (tkeys t) \<Longrightarrow> distinct (tkeys (fold (\<lambda>q. tset (qn_key q) q) qs t))" for t
    by (induction qs arbitrary: t) simp_all
  then show ?thesis by (simp add: byKey_def tkeys_def)
qed

lemma digit_issues_codes:
  "i \<in> set (digit_issues key ds as) \<Longrightarrow> qi_severity i = SevError \<and> qi_code i \<in> {INVALID_DIGIT, DUPLICATE_DIGIT}"
  by (induction key ds as rule: digit_issues.induct) (auto simp: qissue_def split: if_splits)

lemma question_issues_codes: "i \<in> set (question_issues keys qs) \<Longrightarrow> qi_severity i = SevError"
  by (induction keys qs rule: question_issues.induct) (auto simp: qissue_def dest: digit_issues_codes split: if_splits)

lemma dangling_issues_codes: "i \<in> set (dangling_issues qs) \<Longrightarrow> qi_severity i = SevError"
  by (auto simp: dangling_issues_def qissue_def split: option.splits if_splits)

definition leads_to :: "QuestionGraphNode list \<Rightarrow> string \<Rightarrow> string \<Rightarrow> bool" where
  "leads_to qs a b \<longleftrightarrow> (a, b) \<in> (edges (byKey qs))\<^sup>*"

text \<open>C23: The two graph walks of the validator are exact: it warns that a key is unreachable exactly when the
  key names a question no path of answers leads to from the first one, and it warns of a cycle exactly
  when some question reachable from the first one leads back to itself.\<close>

theorem walk_warnings_exact:
  assumes "qs \<noteq> []"
  shows "(qissue SevWarning UNREACHABLE (Some k) \<in> set (validateQuestionGraph qs) \<longleftrightarrow>
      k \<in> set (map qn_key qs) \<and> \<not> leads_to qs (qn_key (hd qs)) k) \<and>
    (qissue SevWarning CYCLE None \<in> set (validateQuestionGraph qs) \<longleftrightarrow>
      (\<exists>x. leads_to qs (qn_key (hd qs)) x \<and> (x, x) \<in> (edges (byKey qs))\<^sup>+))"
proof -
  have no: "qissue SevWarning c v \<notin> set (question_issues [] qs)" "qissue SevWarning c v \<notin> set (dangling_issues qs)" for c v
    by (auto simp: qissue_def dest!: question_issues_codes dangling_issues_codes)
  show ?thesis
    using assms no
    by (auto simp: validateQuestionGraph_def Let_def reach_loop_exact has_cycle_iff [OF distinct_byKey] leads_to_def
        qissue_def split: if_splits)
qed

text \<open>The graphs that may be activated, without the walks.\<close>

definition answers_ok :: "QuestionGraphNode list \<Rightarrow> QuestionGraphNode \<Rightarrow> bool" where
  "answers_ok qs q \<longleftrightarrow>
     distinct (map qa_digit (qn_answers q)) \<and> set (map qa_digit (qn_answers q)) \<subseteq> set VALID_DIGITS \<and>
     (\<forall>a\<in>set (qn_answers q). \<forall>k. qa_nextKey a = Some k \<longrightarrow> k = NEXT_OUTRO \<or> k \<in> set (map qn_key qs))"

definition survey_ok :: "QuestionGraphNode list \<Rightarrow> bool" where
  "survey_ok qs \<longleftrightarrow>
     qs \<noteq> [] \<and> distinct (map qn_key qs) \<and>
     (\<forall>q\<in>set qs. truthy (map_option js_trim (qn_name q)) \<and> (qn_answers q \<noteq> [] \<or> qn_type q = Some SWITCHBOARD) \<and>
        answers_ok qs q)"

lemma digit_issues_none:
  "digit_issues key ds as = [] \<longleftrightarrow>
     distinct (map qa_digit as) \<and> set (map qa_digit as) \<inter> set ds = {} \<and> set (map qa_digit as) \<subseteq> set VALID_DIGITS"
  by (induction key ds as rule: digit_issues.induct) auto

lemma question_issues_none:
  "question_issues keys qs = [] \<longleftrightarrow>
     distinct (map qn_key qs) \<and> set (map qn_key qs) \<inter> set keys = {} \<and>
     (\<forall>q\<in>set qs. truthy (map_option js_trim (qn_name q)) \<and> (qn_answers q \<noteq> [] \<or> qn_type q = Some SWITCHBOARD) \<and>
        distinct (map qa_digit (qn_answers q)) \<and> set (map qa_digit (qn_answers q)) \<subseteq> set VALID_DIGITS)"
  by (induction keys qs rule: question_issues.induct) (auto simp: digit_issues_none)

lemma dangling_issues_none:
  "dangling_issues qs = [] \<longleftrightarrow>
     (\<forall>q\<in>set qs. \<forall>a\<in>set (qn_answers q). \<forall>k. qa_nextKey a = Some k \<longrightarrow> k = NEXT_OUTRO \<or> k \<in> set (map qn_key qs))"
  by (auto simp: dangling_issues_def split: option.splits if_splits)

lemma activatable_iff: "questionGraphActivatable qs \<longleftrightarrow> survey_ok qs"
proof (cases "qs = []")
  case False
  have "(\<forall>i\<in>set xs. qi_severity i \<noteq> SevError) \<longleftrightarrow> xs = []" if "\<And>i. i \<in> set xs \<Longrightarrow> qi_severity i = SevError" for xs
    using that by (cases xs) auto
  note none = this [of "question_issues [] qs", OF question_issues_codes]
    this [of "dangling_issues qs", OF dangling_issues_codes]
  have "questionGraphActivatable qs \<longleftrightarrow> question_issues [] qs = [] \<and> dangling_issues qs = []"
    using False none by (auto simp: questionGraphActivatable_def validateQuestionGraph_def Let_def qissue_def split: if_splits)
  also have "\<dots> \<longleftrightarrow> survey_ok qs"
    using False unfolding question_issues_none dangling_issues_none survey_ok_def answers_ok_def ball_conj_distrib
    by (simp only: list.set Int_empty_right simp_thms) blast
  finally show ?thesis .
qed (simp add: questionGraphActivatable_def validateQuestionGraph_def survey_ok_def qissue_def)

text \<open>C34: A dialler survey may be activated exactly when it is well formed: it has questions, with distinct
  keys, each with a name and with answers (unless it only switches), whose digits are distinct valid
  keypad digits and which lead to a question of the survey or to the outro.\<close>

theorem activatable_is_wellformed: "questionGraphActivatable qs \<longleftrightarrow> survey_ok qs"
  by (rule activatable_iff)

section \<open>An expanded poll is a chain\<close>

definition authored_keys :: "AuthoringQuestion list \<Rightarrow> string list" where
  "authored_keys qs = map (\<lambda>i. authored_key (qs ! i) (i + 1)) [0..<length qs]"

definition poll_ok :: "AuthoringQuestion list \<Rightarrow> bool" where
  "poll_ok qs \<longleftrightarrow>
     qs \<noteq> [] \<and> distinct (authored_keys qs) \<and> NEXT_OUTRO \<notin> set (authored_keys qs) \<and>
     (\<forall>q\<in>set qs. js_trim (aq_question q) \<noteq> [] \<and> 1 \<le> length (aq_options q) \<and> length (aq_options q) \<le> 9)"

lemma authored_key_nonempty: "authored_key q n \<noteq> []"
  by (simp add: authored_key_def split: option.split)

lemma expand_keys: "map qn_key (expandAuthoringFormat qs) = authored_keys qs"
  by (simp add: expandAuthoringFormat_def authored_keys_def expand_question_def Let_def)

lemma length_authored_keys [simp]: "length (authored_keys qs) = length qs"
  by (simp add: authored_keys_def)

lemma nth_authored_keys [simp]: "i < length qs \<Longrightarrow> authored_keys qs ! i = authored_key (qs ! i) (i + 1)"
  by (simp add: authored_keys_def)

text \<open>With no key supplied the generated keys are distinct and none is the sentinel.\<close>

lemma generated_keys:
  assumes "\<forall>q\<in>set qs. aq_key q = None"
  shows "distinct (authored_keys qs) \<and> NEXT_OUTRO \<notin> set (authored_keys qs)"
proof -
  have k: "authored_key (qs ! i) (i + 1) = ''q'' @ nat_to_string (i + 1)" if "i < length qs" for i
    using assms that by (simp add: authored_key_def)
  then show ?thesis
    by (auto simp: authored_keys_def distinct_map inj_on_def NEXT_OUTRO_def)
qed

lemma byKey_other:
  fixes qs :: "QuestionGraphNode list"
  shows "k \<notin> qn_key ` set qs \<Longrightarrow> tget (fold (\<lambda>q. tset (qn_key q) q) qs t) k = tget t k"
  by (induction qs arbitrary: t) auto

lemma byKey_get:
  fixes qs :: "QuestionGraphNode list"
  assumes "distinct (map qn_key qs)" "q \<in> set qs"
  shows "tget (byKey qs) (qn_key q) = Some q"
proof -
  have "tget (fold (\<lambda>q. tset (qn_key q) q) qs t) (qn_key q) = Some q" for t
    using assms
  proof (induction qs arbitrary: t)
    case (Cons x xs)
    show ?case
    proof (cases "q = x")
      case True
      with Cons.prems show ?thesis by (simp add: byKey_other)
    next
      case False
      with Cons show ?thesis by simp
    qed
  qed simp
  then show ?thesis by (simp add: byKey_def)
qed

lemma byKey_unknown: "k \<notin> set (map qn_key qs) \<Longrightarrow> tget (byKey qs) k = None"
  by (simp add: byKey_def byKey_other)

lemma chain_edges:
  assumes "poll_ok qs" "i < length qs"
  shows "set (next_keys (byKey (expandAuthoringFormat qs)) (authored_keys qs ! i)) =
    (if i + 1 < length qs then {authored_keys qs ! (i + 1)} else {})"
proof -
  let ?g = "byKey (expandAuthoringFormat qs)"
  have d: "distinct (map qn_key (expandAuthoringFormat qs))" using assms by (simp add: expand_keys poll_ok_def)
  have node: "tget ?g (authored_keys qs ! j) = Some (expand_question qs j)" if "j < length qs" for j
    using byKey_get [OF d, of "expand_question qs j"] that
    by (simp add: expandAuthoringFormat_def expand_question_def Let_def)
  have "1 \<le> length (aq_options (qs ! i))" using assms(1) nth_mem [OF assms(2)] unfolding poll_ok_def by blast
  then have opts: "aq_options (qs ! i) \<noteq> []" by auto
  show ?thesis
  proof (cases "i + 1 < length qs")
    case True
    then have "authored_keys qs ! (i + 1) \<noteq> NEXT_OUTRO"
      using assms(1) nth_mem [of "i + 1" "authored_keys qs"] by (force simp: poll_ok_def)
    then show ?thesis
      using node [OF assms(2)] node [OF True] opts True authored_key_nonempty
      by (auto simp: next_keys_def expand_question_def Let_def)
  next
    case False
    then show ?thesis using node [OF assms(2)] by (simp add: next_keys_def expand_question_def Let_def)
  qed
qed

lemma chain_index:
  assumes "poll_ok qs" "(a, b) \<in> edges (byKey (expandAuthoringFormat qs))"
  shows "\<exists>i. i + 1 < length qs \<and> a = authored_keys qs ! i \<and> b = authored_keys qs ! (i + 1)"
proof -
  from assms(2) have b: "b \<in> set (next_keys (byKey (expandAuthoringFormat qs)) a)" by (simp add: edges_def)
  then have "a \<in> set (authored_keys qs)"
    using byKey_unknown [of a "expandAuthoringFormat qs"] by (force simp: next_keys_def expand_keys)
  then obtain i where "i < length qs" "a = authored_keys qs ! i" by (metis in_set_conv_nth length_authored_keys)
  with b chain_edges [OF assms(1), of i] show ?thesis by (auto split: if_splits)
qed

lemma chain_trancl:
  assumes "poll_ok qs" "(a, b) \<in> (edges (byKey (expandAuthoringFormat qs)))\<^sup>+"
  shows "\<exists>i j. i < j \<and> j < length qs \<and> a = authored_keys qs ! i \<and> b = authored_keys qs ! j"
  using assms(2)
proof (induction rule: trancl_induct)
  case (base y)
  with chain_index [OF assms(1)] show ?case by (metis less_add_one)
next
  case (step y z)
  then obtain i j where ij: "i < j" "j < length qs" "a = authored_keys qs ! i" "y = authored_keys qs ! j" by blast
  from chain_index [OF assms(1) step.hyps(2)] obtain m where
    m: "m + 1 < length qs" "y = authored_keys qs ! m" "z = authored_keys qs ! (m + 1)" by blast
  from assms(1) ij m have "m = j"
    using nth_eq_iff_index_eq [of "authored_keys qs" m j] by (simp add: poll_ok_def)
  with ij m show ?case by (metis less_SucI Suc_eq_plus1)
qed

lemma chain_reaches:
  assumes "poll_ok qs" "i < length qs"
  shows "leads_to (expandAuthoringFormat qs) (authored_keys qs ! 0) (authored_keys qs ! i)"
  using assms(2)
proof (induction i)
  case (Suc i)
  then have "(authored_keys qs ! i, authored_keys qs ! Suc i) \<in> edges (byKey (expandAuthoringFormat qs))"
    using chain_edges [OF assms(1), of i] by (simp add: edges_def)
  with Suc show ?case by (auto simp: leads_to_def intro: rtrancl_into_rtrancl)
qed (simp add: leads_to_def)

lemma digits_of_options:
  "n \<le> 9 \<Longrightarrow> distinct (map (\<lambda>j. nat_to_string (j + 1)) [0..<n]) \<and>
     set (map (\<lambda>j. nat_to_string (j + 1)) [0..<n]) \<subseteq> set VALID_DIGITS"
proof
  show "distinct (map (\<lambda>j. nat_to_string (j + 1)) [0..<n])" by (simp add: distinct_map inj_on_def)
  have "set (map (\<lambda>j. nat_to_string (j + 1)) [0..<9]) \<subseteq> set VALID_DIGITS" by code_simp
  moreover assume "n \<le> 9"
  ultimately show "set (map (\<lambda>j. nat_to_string (j + 1)) [0..<n]) \<subseteq> set VALID_DIGITS"
    by (auto simp: image_subset_iff)
qed

lemma expanded_survey_ok:
  assumes "poll_ok qs"
  shows "survey_ok (expandAuthoringFormat qs)"
proof -
  have q: "truthy (map_option js_trim (qn_name (expand_question qs i))) \<and> qn_answers (expand_question qs i) \<noteq> [] \<and>
      answers_ok (expandAuthoringFormat qs) (expand_question qs i)" if i: "i < length qs" for i
  proof -
    let ?q = "qs ! i"
    from assms nth_mem [OF i] have ok: "js_trim (aq_question ?q) \<noteq> []" "1 \<le> length (aq_options ?q)"
        "length (aq_options ?q) \<le> 9"
      unfolding poll_ok_def by blast+
    have digits: "map qa_digit (qn_answers (expand_question qs i)) =
        map (\<lambda>j. nat_to_string (j + 1)) [0..<length (aq_options ?q)]"
      by (simp add: expand_question_def Let_def)
    have nexts: "a \<in> set (qn_answers (expand_question qs i)) \<Longrightarrow> qa_nextKey a = Some k \<Longrightarrow>
        k = NEXT_OUTRO \<or> k \<in> set (map qn_key (expandAuthoringFormat qs))" for a k
      unfolding expand_keys
      by (cases "i + 1 < length qs") (auto simp: expand_question_def Let_def in_set_conv_nth intro!: exI [of _ "i + 1"])
    have "truthy (map_option js_trim (qn_name (expand_question qs i)))" "qn_answers (expand_question qs i) \<noteq> []"
      using ok by (auto simp: expand_question_def Let_def)
    then show ?thesis
      using digits_of_options [OF ok(3)] nexts unfolding answers_ok_def digits by blast
  qed
  then show ?thesis
    using assms expand_keys [of qs] by (auto simp: survey_ok_def poll_ok_def expandAuthoringFormat_def)
qed

text \<open>The quick-poll authoring format expands to a graph the validator has nothing to say of, no warning
  either: every question is reachable, there is no cycle and every answer leads on, provided the keys
  do not clash and each question has a text and between one and nine options.\<close>

lemma expanded_poll_clean:
  assumes "poll_ok qs"
  shows "validateQuestionGraph (expandAuthoringFormat qs) = []"
proof -
  let ?e = "expandAuthoringFormat qs"
  have ne: "?e \<noteq> []" using assms by (simp add: poll_ok_def expandAuthoringFormat_def)
  have first: "qn_key (hd ?e) = authored_keys qs ! 0"
    using ne expand_keys [of qs] by (metis hd_conv_nth length_greater_0_conv list.map_disc_iff nth_map)
  from expanded_survey_ok [OF assms] have "question_issues [] ?e = []" "dangling_issues ?e = []"
    unfolding survey_ok_def answers_ok_def question_issues_none dangling_issues_none by auto
  moreover have "qn_key q \<in> set (reach_loop (byKey ?e) [qn_key (hd ?e)] [])" if "q \<in> set ?e" for q
  proof -
    from that have "qn_key q \<in> set (authored_keys qs)" using expand_keys [of qs] by (metis imageI list.set_map)
    then obtain i where "i < length qs" "qn_key q = authored_keys qs ! i" by (metis in_set_conv_nth length_authored_keys)
    with chain_reaches [OF assms, of i] show ?thesis by (simp only: reach_loop_exact first leads_to_def) simp
  qed
  moreover have "\<not> has_cycle (byKey ?e) (qn_key (hd ?e))"
    using chain_trancl [OF assms] assms nth_eq_iff_index_eq [of "authored_keys qs"]
    unfolding has_cycle_iff [OF distinct_byKey] poll_ok_def
    by (metis length_authored_keys less_trans nat_neq_iff)
  ultimately show ?thesis using ne by (simp add: validateQuestionGraph_def Let_def)
qed

definition sample_poll :: "AuthoringQuestion list" where
  "sample_poll = [\<lparr>aq_key = None, aq_question = ''Will you vote?'', aq_options = [''Yes'', ''No'']\<rparr>,
     \<lparr>aq_key = None, aq_question = ''For whom?'', aq_options = [''A'', ''B'', ''C'']\<rparr>]"

lemma expanded_poll_clean_witness: "validateQuestionGraph (expandAuthoringFormat sample_poll) = []"
proof (rule expanded_poll_clean)
  have "\<forall>q\<in>set sample_poll. aq_key q = None" by (simp add: sample_poll_def)
  moreover have "\<forall>q\<in>set sample_poll. js_trim (aq_question q) \<noteq> [] \<and> 1 \<le> length (aq_options q) \<and> length (aq_options q) \<le> 9"
    by code_simp
  ultimately show "poll_ok sample_poll"
    using generated_keys [of sample_poll] by (simp add: poll_ok_def) (simp add: sample_poll_def)
qed

text \<open>A tenth option becomes the digit \<open>10\<close>, which the validator rejects.\<close>

lemma ten_options_rejected:
  "\<not> questionGraphActivatable (expandAuthoringFormat [\<lparr>aq_key = None, aq_question = ''Pick one'',
     aq_options = replicate 10 ''x''\<rparr>])"
  by code_simp

theorem walk_warnings_exact_witness:
  "qissue SevWarning CYCLE None \<in> set (validateQuestionGraph (expandAuthoringFormat sample_poll)) \<longleftrightarrow>
     (\<exists>x. leads_to (expandAuthoringFormat sample_poll) (qn_key (hd (expandAuthoringFormat sample_poll))) x \<and>
        (x, x) \<in> (edges (byKey (expandAuthoringFormat sample_poll)))\<^sup>+)"
  using walk_warnings_exact [of "expandAuthoringFormat sample_poll"]
  by (simp add: expandAuthoringFormat_def sample_poll_def)

end
