(* ===== verification/Contact_Tags.thy ===== *)
theory Contact_Tags
  imports Audience_Db
begin

text \<open>
  Contact tags: \<^verbatim>\<open>apps/api/src/tags/tags.service.ts\<close>. \<open>TagStore\<close> holds the contacts, the tags, their
  assignments and the outbox; a new tag takes its id from a counter. The lemmas give the shape of a tag
  key, the idempotence of \<open>applyTag\<close> and the case in which assigning a tag assigns another one.
\<close>

section \<open>Keys and labels\<close>

definition slug_char :: "char \<Rightarrow> bool" where
  "slug_char c \<longleftrightarrow> is_digit c \<or> (97 \<le> (of_char c :: nat) \<and> of_char c \<le> (122 :: nat))"

text \<open>\<open>replace(/[^a-z0-9]+/g, "_")\<close>\<close>

fun collapse :: "bool \<Rightarrow> string \<Rightarrow> string" where
  "collapse run [] = []"
| "collapse run (c # cs) =
     (if slug_char c then c # collapse False cs
      else if run then collapse True cs
      else CHR ''_'' # collapse True cs)"

definition strip_underscores :: "string \<Rightarrow> string" where
  "strip_underscores s = rev (dropWhile (\<lambda>c. c = CHR ''_'') (rev (dropWhile (\<lambda>c. c = CHR ''_'') s)))"

definition slugifyTag :: "string \<Rightarrow> string" where
  "slugifyTag label =
     (let s = take 64 (strip_underscores (collapse False (js_lower label))) in
      if s = [] then ''tag'' else s)"

definition word_char :: "char \<Rightarrow> bool" where
  "word_char c \<longleftrightarrow> slug_char c \<or> c = CHR ''_'' \<or> (65 \<le> (of_char c :: nat) \<and> of_char c \<le> (90 :: nat))"

text \<open>\<open>replace(/\b\w/g, upper case)\<close>; the flag says whether the previous character is a word character.\<close>

fun capitalise :: "bool \<Rightarrow> string \<Rightarrow> string" where
  "capitalise prev [] = []"
| "capitalise prev (c # cs) = (if word_char c \<and> \<not> prev then upper_char c else c) # capitalise (word_char c) cs"

definition humanize :: "string \<Rightarrow> string" where
  "humanize key = capitalise False (map (\<lambda>c. if c = CHR ''_'' then CHR '' '' else c) key)"

section \<open>The store\<close>

record TagRow =
  tg_id :: string
  tg_tenantId :: string
  tg_key :: string
  tg_label :: string
  tg_color :: "string option"

record TagAssignment =
  as_tenantId :: string
  as_contactId :: string
  as_tagId :: string
  as_source :: string

record TagAdded =
  te_tenantId :: string
  te_contactId :: string
  te_tagId :: string
  te_key :: string
  te_source :: string

record TagStore =
  tt_contacts :: "ContactRow list"
  tt_tags :: "TagRow list"
  tt_assignments :: "TagAssignment list"
  tt_outbox :: "TagAdded list"
  tt_nextId :: nat

definition tag_id :: "nat \<Rightarrow> string" where
  "tag_id n = ''tag'' @ nat_to_string n"

definition find_tag :: "TagStore \<Rightarrow> string \<Rightarrow> string \<Rightarrow> TagRow option" where
  "find_tag st tenantId key = find (\<lambda>t. tg_tenantId t = tenantId \<and> tg_key t = key) (tt_tags st)"

definition create_tag_row ::
  "TagStore \<Rightarrow> string \<Rightarrow> string \<Rightarrow> string \<Rightarrow> string option \<Rightarrow> TagRow \<times> TagStore" where
  "create_tag_row st tenantId key label color =
     (let row = \<lparr>tg_id = tag_id (tt_nextId st), tg_tenantId = tenantId, tg_key = key, tg_label = label,
                 tg_color = color\<rparr> in
      (row, st\<lparr>tt_tags := tt_tags st @ [row], tt_nextId := tt_nextId st + 1\<rparr>))"

definition createTag ::
  "TagStore \<Rightarrow> string \<Rightarrow> string \<Rightarrow> string option \<Rightarrow> string option \<Rightarrow> TagRow \<times> TagStore" where
  "createTag st tenantId label key color =
     (let key' = (if truthy key then slugifyTag (the key) else slugifyTag label) in
      case find_tag st tenantId key' of
        Some existing \<Rightarrow> (existing, st)
      | None \<Rightarrow> create_tag_row st tenantId key' label color)"

text \<open>Deleting a tag cascades to its assignments.\<close>

definition deleteTag :: "TagStore \<Rightarrow> string \<Rightarrow> string \<Rightarrow> TagStore res" where
  "deleteTag st tenantId i =
     (if \<not> list_ex (\<lambda>t. tg_id t = i \<and> tg_tenantId t = tenantId) (tt_tags st)
      then Inl (apiHttpException ''TAG_NOT_FOUND'' (Some 404))
      else Inr (st\<lparr>tt_tags := filter (\<lambda>t. tg_id t \<noteq> i) (tt_tags st),
                   tt_assignments := filter (\<lambda>a. as_tagId a \<noteq> i) (tt_assignments st)\<rparr>))"

definition getContactTags :: "TagStore \<Rightarrow> string \<Rightarrow> string \<Rightarrow> TagAssignment list" where
  "getContactTags st tenantId contactId =
     rev (filter (\<lambda>a. as_tenantId a = tenantId \<and> as_contactId a = contactId) (tt_assignments st))"

definition removeTag :: "TagStore \<Rightarrow> string \<Rightarrow> string \<Rightarrow> string \<Rightarrow> TagStore" where
  "removeTag st tenantId contactId tagId =
     st\<lparr>tt_assignments := filter (\<lambda>a. \<not> (as_tenantId a = tenantId \<and> as_contactId a = contactId \<and> as_tagId a = tagId))
          (tt_assignments st)\<rparr>"

text \<open>The transaction of \<open>applyTag\<close>.\<close>

definition assign_slug :: "TagStore \<Rightarrow> string \<Rightarrow> string \<Rightarrow> string \<Rightarrow> string \<Rightarrow> TagStore" where
  "assign_slug st tenantId contactId slug source =
     (let (tag, st1) = (case find_tag st tenantId slug of
                          Some t \<Rightarrow> (t, st)
                        | None \<Rightarrow> create_tag_row st tenantId slug (humanize slug) None) in
      if list_ex (\<lambda>a. as_tenantId a = tenantId \<and> as_contactId a = contactId \<and> as_tagId a = tg_id tag) (tt_assignments st1)
      then st1
      else st1\<lparr>tt_assignments := tt_assignments st1 @
                 [\<lparr>as_tenantId = tenantId, as_contactId = contactId, as_tagId = tg_id tag, as_source = source\<rparr>],
               tt_outbox := tt_outbox st1 @
                 [\<lparr>te_tenantId = tenantId, te_contactId = contactId, te_tagId = tg_id tag, te_key = slug,
                   te_source = source\<rparr>]\<rparr>)"

definition applyTag :: "TagStore \<Rightarrow> string \<Rightarrow> string \<Rightarrow> string \<Rightarrow> string \<Rightarrow> TagStore res" where
  "applyTag st tenantId contactId key source =
     (if key = [] \<or> js_trim key = [] then Inr st
      else if \<not> list_ex (\<lambda>c. ct_id c = contactId \<and> ct_tenantId c = tenantId) (tt_contacts st)
      then Inl (apiHttpException ''CONTACT_NOT_FOUND'' (Some 404))
      else Inr (assign_slug st tenantId contactId (slugifyTag key) source))"

definition assignTag :: "TagStore \<Rightarrow> string \<Rightarrow> string \<Rightarrow> string \<Rightarrow> string \<Rightarrow> TagStore res" where
  "assignTag st tenantId contactId tagId source =
     (case find (\<lambda>t. tg_id t = tagId \<and> tg_tenantId t = tenantId) (tt_tags st) of
        None \<Rightarrow> Inl (apiHttpException ''TAG_NOT_FOUND'' (Some 404))
      | Some tag \<Rightarrow> applyTag st tenantId contactId (tg_key tag) source)"

section \<open>The shape of a key\<close>

lemma underscore_no_slug [simp]: "\<not> slug_char (CHR ''_'')"
  by (simp add: slug_char_def is_digit_def)

lemma slug_char_lower [simp]: "slug_char c \<Longrightarrow> lower_char c = c"
  by (auto simp: slug_char_def is_digit_def lower_char_def Let_def)

lemma lower_underscore [simp]: "lower_char (CHR ''_'') = CHR ''_''"
  by (simp add: lower_char_def Let_def)

lemma collapse_chars: "c \<in> set (collapse r s) \<Longrightarrow> slug_char c \<or> c = CHR ''_''"
  by (induction r s rule: collapse.induct) (auto split: if_splits)

lemma collapse_hd: "collapse True s = [] \<or> hd (collapse True s) \<noteq> CHR ''_''"
  by (induction s) auto

text \<open>No two underscores in a row.\<close>

definition single_underscores :: "string \<Rightarrow> bool" where
  "single_underscores s \<longleftrightarrow> successively (\<lambda>a b. \<not> (a = CHR ''_'' \<and> b = CHR ''_'')) s"

lemma collapse_single: "single_underscores (collapse r s)"
proof (induction r s rule: collapse.induct)
  case (2 run c cs)
  then show ?case
    using collapse_hd [of cs]
    by (auto simp: single_underscores_def successively_Cons)
qed (simp add: single_underscores_def)

lemma single_sublist: "single_underscores s \<Longrightarrow> s = us @ vs @ ws \<Longrightarrow> single_underscores vs"
  by (simp add: single_underscores_def successively_append_iff)

lemma strip_sublist: "\<exists>us ws. s = us @ strip_underscores s @ ws"
proof -
  let ?P = "\<lambda>c. c = CHR ''_''"
  define t where "t = dropWhile ?P s"
  have "s = takeWhile ?P s @ t" by (simp add: t_def)
  moreover have "t = rev (dropWhile ?P (rev t)) @ rev (takeWhile ?P (rev t))"
    by (metis rev_append rev_rev_ident takeWhile_dropWhile_id)
  ultimately show ?thesis unfolding strip_underscores_def t_def by metis
qed

lemma strip_hd: "strip_underscores s = [] \<or> hd (strip_underscores s) \<noteq> CHR ''_''"
  unfolding strip_underscores_def
  by (rule hd_rev_dropWhile_rev) (use hd_dropWhile [of "\<lambda>c. c = CHR ''_''" s] in auto)

lemma strip_last: "strip_underscores s = [] \<or> last (strip_underscores s) \<noteq> CHR ''_''"
  unfolding strip_underscores_def
  using hd_dropWhile [of "\<lambda>c. c = CHR ''_''" "rev (dropWhile (\<lambda>c. c = CHR ''_'') s)"] by (auto simp: last_rev)

lemma strip_id:
  assumes "s = [] \<or> hd s \<noteq> CHR ''_''" "s = [] \<or> last s \<noteq> CHR ''_''"
  shows "strip_underscores s = s"
  proof -
  have "dropWhile (\<lambda>c. c = CHR ''_'') s = s" "dropWhile (\<lambda>c. c = CHR ''_'') (rev s) = rev s"
    using assms by (auto intro!: dropWhile_id simp: hd_rev)
  then show ?thesis by (simp add: strip_underscores_def)
qed

lemma collapse_id:
  assumes "\<forall>c\<in>set s. slug_char c \<or> c = CHR ''_''" "single_underscores s" "r \<longrightarrow> s = [] \<or> hd s \<noteq> CHR ''_''"
  shows "collapse r s = s"
  using assms
proof (induction s arbitrary: r)
  case (Cons c s)
  then show ?case
    by (cases "slug_char c") (auto simp: single_underscores_def successively_Cons)
qed simp

lemma slug_raw:
  defines "raw l \<equiv> strip_underscores (collapse False (js_lower l))"
  shows "single_underscores (take 64 (raw l))" "take 64 (raw l) = [] \<or> hd (take 64 (raw l)) \<noteq> CHR ''_''"
    "\<forall>c\<in>set (take 64 (raw l)). slug_char c \<or> c = CHR ''_''"
proof -
  obtain us ws where s: "collapse False (js_lower l) = us @ raw l @ ws"
    using strip_sublist unfolding raw_def by blast
  have "raw l = take 64 (raw l) @ drop 64 (raw l)" by simp
  then have "collapse False (js_lower l) = us @ take 64 (raw l) @ (drop 64 (raw l) @ ws)"
    using s by (metis append.assoc)
  then show "single_underscores (take 64 (raw l))" by (rule single_sublist [OF collapse_single])
  show "take 64 (raw l) = [] \<or> hd (take 64 (raw l)) \<noteq> CHR ''_''"
    using strip_hd [of "collapse False (js_lower l)"] by (auto simp: raw_def hd_take)
  have "set (raw l) \<subseteq> set (collapse False (js_lower l))" unfolding s by auto
  then show "\<forall>c\<in>set (take 64 (raw l)). slug_char c \<or> c = CHR ''_''"
    using collapse_chars in_set_takeD by fastforce
qed

lemma slugify_chars:
  "single_underscores (slugifyTag l)" "hd (slugifyTag l) \<noteq> CHR ''_''"
  "\<forall>c\<in>set (slugifyTag l). slug_char c \<or> c = CHR ''_''" "slugifyTag l \<noteq> []" "length (slugifyTag l) \<le> 64"
proof -
  have "single_underscores ''tag'' \<and> (\<forall>c\<in>set ''tag''. slug_char c \<or> c = CHR ''_'')"
    by (simp add: single_underscores_def slug_char_def)
  then show "single_underscores (slugifyTag l)" "hd (slugifyTag l) \<noteq> CHR ''_''"
    "\<forall>c\<in>set (slugifyTag l). slug_char c \<or> c = CHR ''_''" "slugifyTag l \<noteq> []" "length (slugifyTag l) \<le> 64"
    using slug_raw [of l] by (auto simp: slugifyTag_def Let_def)
qed

text \<open>A key is its own slug unless cutting it at 64 characters left a trailing underscore, which a second
  pass removes.\<close>

lemma slugify_slugify:
  "slugifyTag (slugifyTag l) =
     (if last (slugifyTag l) = CHR ''_'' then butlast (slugifyTag l) else slugifyTag l)"
proof -
  define s where "s = slugifyTag l"
  note s = slugify_chars [of l, folded s_def]
  have low: "js_lower s = s" using s(3) unfolding js_lower_def by (intro map_idI) auto
  have col: "collapse False s = s" using s(1,3) by (intro collapse_id) auto
  have slug: "slugifyTag s = (if take 64 (strip_underscores s) = [] then ''tag'' else take 64 (strip_underscores s))"
    by (simp only: slugifyTag_def low col Let_def)
  have "slugifyTag s = (if last s = CHR ''_'' then butlast s else s)"
  proof (cases "last s = CHR ''_''")
    case False
    then have "strip_underscores s = s" using s(2) by (intro strip_id) auto
    then show ?thesis using False s(4,5) by (simp add: slug)
  next
    case True
    have ne: "butlast s \<noteq> []"
    proof
      assume "butlast s = []"
      then have "s = [last s]" using s(4) by (metis append_Nil append_butlast_last_id)
      with True s(2) show False by (metis list.sel(1))
    qed
    have sp: "s = butlast s @ [CHR ''_'']" using True s(4) by (metis append_butlast_last_id)
    have last: "last (butlast s) \<noteq> CHR ''_''"
      using s(1) ne by (subst (asm) sp) (simp add: single_underscores_def successively_append_iff)
    have hd: "hd (butlast s) \<noteq> CHR ''_''" using s(2) ne by (metis hd_append2 sp)
    have "dropWhile (\<lambda>c. c = CHR ''_'') s = s" using s(2) by (intro dropWhile_id) auto
    moreover have "dropWhile (\<lambda>c. c = CHR ''_'') (rev s) = dropWhile (\<lambda>c. c = CHR ''_'') (rev (butlast s))"
      by (subst sp) simp
    moreover have "dropWhile (\<lambda>c. c = CHR ''_'') (rev (butlast s)) = rev (butlast s)"
      using last ne by (intro dropWhile_id) (simp add: hd_rev)
    ultimately have "strip_underscores s = butlast s" by (simp add: strip_underscores_def)
    then show ?thesis using True ne s(5) by (simp add: slug)
  qed
  then show ?thesis by (simp only: s_def)
qed

lemma slug_of_short: "length (slugifyTag l) < 64 \<Longrightarrow> slugifyTag (slugifyTag l) = slugifyTag l"
proof -
  assume short: "length (slugifyTag l) < 64"
  have "last (slugifyTag l) \<noteq> CHR ''_''"
  proof (cases "strip_underscores (collapse False (js_lower l)) = []")
    case False
    then have "slugifyTag l = strip_underscores (collapse False (js_lower l))"
      using short by (auto simp: slugifyTag_def Let_def)
    then show ?thesis using strip_last False by metis
  qed (simp add: slugifyTag_def)
  then show ?thesis by (simp add: slugify_slugify)
qed

section \<open>Applying a tag\<close>

definition has_tag :: "TagStore \<Rightarrow> string \<Rightarrow> string \<Rightarrow> string \<Rightarrow> bool" where
  "has_tag st tenantId contactId key \<longleftrightarrow>
     (\<exists>t\<in>set (tt_tags st). \<exists>a\<in>set (tt_assignments st). tg_tenantId t = tenantId \<and> tg_key t = key \<and>
        as_tenantId a = tenantId \<and> as_contactId a = contactId \<and> as_tagId a = tg_id t)"

text \<open>The constraints of the tables: one tag per tenant and key, fresh ids, and assignments of existing tags,
  at most one per contact and tag.\<close>

definition tag_inv :: "TagStore \<Rightarrow> bool" where
  "tag_inv st \<longleftrightarrow>
     distinct (map (\<lambda>t. (tg_tenantId t, tg_key t)) (tt_tags st)) \<and> distinct (map tg_id (tt_tags st)) \<and>
     (\<forall>t\<in>set (tt_tags st). \<exists>n<tt_nextId st. tg_id t = tag_id n) \<and>
     distinct (map (\<lambda>a. (as_tenantId a, as_contactId a, as_tagId a)) (tt_assignments st)) \<and>
     (\<forall>a\<in>set (tt_assignments st). \<exists>t\<in>set (tt_tags st). tg_id t = as_tagId a)"

lemma find_snoc: "find P (xs @ [x]) = (case find P xs of Some y \<Rightarrow> Some y | None \<Rightarrow> if P x then Some x else None)"
  by (induction xs) auto

lemma tag_id_inject [simp]: "tag_id m = tag_id n \<longleftrightarrow> m = n"
  by (simp add: tag_id_def)

lemma find_tag_Some: "find_tag st ten k = Some t \<Longrightarrow> t \<in> set (tt_tags st) \<and> tg_tenantId t = ten \<and> tg_key t = k"
  by (auto simp: find_tag_def dest: find_Some_in)

lemma find_tag_None: "find_tag st ten k = None \<longleftrightarrow> (ten, k) \<notin> (\<lambda>t. (tg_tenantId t, tg_key t)) ` set (tt_tags st)"
  by (auto simp: find_tag_def find_None_all image_iff)

lemma tag_inv_create:
  assumes "tag_inv st" "find_tag st ten k = None" "create_tag_row st ten k l c = (t, st')"
  shows "tag_inv st'" "find_tag st' ten k = Some t" "tt_assignments st' = tt_assignments st" "tt_outbox st' = tt_outbox st"
    "tg_id t \<notin> as_tagId ` set (tt_assignments st)" "tt_contacts st' = tt_contacts st"
    "tt_tags st' = tt_tags st @ [t]" "tg_tenantId t = ten \<and> tg_key t = k"
proof -
  have t: "t = \<lparr>tg_id = tag_id (tt_nextId st), tg_tenantId = ten, tg_key = k, tg_label = l, tg_color = c\<rparr>"
    "st' = st\<lparr>tt_tags := tt_tags st @ [t], tt_nextId := tt_nextId st + 1\<rparr>"
    using assms(3) by (auto simp: create_tag_row_def Let_def)
  have fresh: "tag_id (tt_nextId st) \<notin> tg_id ` set (tt_tags st)"
    using assms(1) by (fastforce simp: tag_inv_def)
  show "tag_inv st'"
    using assms(1,2) fresh by (fastforce simp: tag_inv_def t find_tag_None less_Suc_eq)
  show "find_tag st' ten k = Some t"
    using assms(2) by (simp add: find_tag_def t find_snoc)
  show "tg_id t \<notin> as_tagId ` set (tt_assignments st)"
  proof
    assume "tg_id t \<in> as_tagId ` set (tt_assignments st)"
    then obtain u where "u \<in> set (tt_tags st)" "tg_id u = tg_id t"
      using assms(1) by (auto simp: tag_inv_def)
    moreover have "tg_id t = tag_id (tt_nextId st)" by (subst t(1)) simp
    ultimately show False using fresh by (metis imageI)
  qed
qed (use assms in \<open>auto simp: create_tag_row_def Let_def\<close>)

definition tag_store_of :: "TagStore \<Rightarrow> string \<Rightarrow> string \<Rightarrow> TagRow \<times> TagStore" where
  "tag_store_of st ten slug =
     (case find_tag st ten slug of Some t \<Rightarrow> (t, st) | None \<Rightarrow> create_tag_row st ten slug (humanize slug) None)"

lemma tag_store_of:
  assumes "tag_inv st" "tag_store_of st ten k = (t, st1)"
  shows "tag_inv st1" "find_tag st1 ten k = Some t" "tt_assignments st1 = tt_assignments st" "tt_outbox st1 = tt_outbox st"
    "tt_contacts st1 = tt_contacts st" "t \<in> set (tt_tags st1)" "tg_tenantId t = ten" "tg_key t = k"
    "has_tag st ten c k \<longleftrightarrow> (\<exists>a\<in>set (tt_assignments st). as_tenantId a = ten \<and> as_contactId a = c \<and> as_tagId a = tg_id t)"
    "\<And>k'. k' \<noteq> k \<Longrightarrow> has_tag st1 ten' c' k' = has_tag st ten' c' k'"
proof -
  have all: "tag_inv st1 \<and> find_tag st1 ten k = Some t \<and> tt_assignments st1 = tt_assignments st \<and> tt_outbox st1 = tt_outbox st \<and>
     tt_contacts st1 = tt_contacts st \<and> (\<forall>ten' c' k'. k' \<noteq> k \<longrightarrow> has_tag st1 ten' c' k' = has_tag st ten' c' k') \<and>
     (find_tag st ten k = None \<longrightarrow> tg_id t \<notin> as_tagId ` set (tt_assignments st)) \<and>
     (find_tag st ten k \<noteq> None \<longrightarrow> st1 = st)"
  proof (cases "find_tag st ten k")
    case None
    then have c: "create_tag_row st ten k (humanize k) None = (t, st1)" using assms(2) by (simp add: tag_store_of_def)
    show ?thesis using tag_inv_create [OF assms(1) None c] None by (auto simp: has_tag_def)
  next
    case (Some u)
    then show ?thesis using assms by (simp add: tag_store_of_def)
  qed
  then show "tag_inv st1" and f: "find_tag st1 ten k = Some t" and "tt_assignments st1 = tt_assignments st"
    "tt_outbox st1 = tt_outbox st" "tt_contacts st1 = tt_contacts st"
    "\<And>k'. k' \<noteq> k \<Longrightarrow> has_tag st1 ten' c' k' = has_tag st ten' c' k'"
    by auto
  from find_tag_Some [OF f] show t: "t \<in> set (tt_tags st1)" "tg_tenantId t = ten" "tg_key t = k" by auto
  show "has_tag st ten c k \<longleftrightarrow> (\<exists>a\<in>set (tt_assignments st). as_tenantId a = ten \<and> as_contactId a = c \<and> as_tagId a = tg_id t)"
  proof (cases "find_tag st ten k")
    case None
    moreover have "\<not> has_tag st ten c k" using None by (auto simp: has_tag_def find_tag_None image_iff)
    ultimately show ?thesis using all by (auto simp: image_iff)
  next
    case (Some u)
    then have st: "st1 = st" using all by auto
    have "t' = t" if "t' \<in> set (tt_tags st)" "tg_tenantId t' = ten" "tg_key t' = k" for t'
    proof -
      have "inj_on (\<lambda>t. (tg_tenantId t, tg_key t)) (set (tt_tags st))"
        using assms(1) by (simp add: tag_inv_def distinct_map)
      then show ?thesis by (rule inj_onD) (use that t st in auto)
    qed
    then show ?thesis using t st unfolding has_tag_def by metis
  qed
qed

text \<open>The transaction in closed form: it makes the assignment and emits the event unless the contact has the tag.\<close>

lemma assign_slug_closed:
  assumes "tag_inv st" "tag_store_of st ten k = (t, st1)"
  shows "assign_slug st ten c k src =
    (if has_tag st ten c k then st1
     else st1\<lparr>tt_assignments := tt_assignments st1 @
                [\<lparr>as_tenantId = ten, as_contactId = c, as_tagId = tg_id t, as_source = src\<rparr>],
              tt_outbox := tt_outbox st1 @
                [\<lparr>te_tenantId = ten, te_contactId = c, te_tagId = tg_id t, te_key = k, te_source = src\<rparr>]\<rparr>)"
  using assms(2)
  by (auto simp: assign_slug_def tag_store_of_def [symmetric] tag_store_of(9) [OF assms] list_ex_iff
      tag_store_of(3) [OF assms])

lemma assign_slug_facts:
  assumes "tag_inv st" "assign_slug st ten c k src = st'"
  shows "tag_inv st'" "has_tag st' ten c k" "tt_contacts st' = tt_contacts st"
    "tt_outbox st' = tt_outbox st \<longleftrightarrow> has_tag st ten c k"
    "length (tt_outbox st') = length (tt_outbox st) + (if has_tag st ten c k then 0 else 1)"
    "\<And>k'. k' \<noteq> k \<Longrightarrow> has_tag st' ten' c' k' = has_tag st ten' c' k'"
    "assign_slug st' ten c k src' = st'"
proof -
  obtain t st1 where t: "tag_store_of st ten k = (t, st1)" by (cases "tag_store_of st ten k")
  note f = tag_store_of [OF assms(1) t] and cl = assign_slug_closed [OF assms(1) t, of c src, unfolded assms(2)]
  show inv: "tag_inv st'"
    using f(1,3,6) f(9) [of c] unfolding cl
    by (auto simp: tag_inv_def image_iff)
  have tags: "tt_tags st' = tt_tags st1" by (simp add: cl)
  show has: "has_tag st' ten c k"
    using f(3,6,7,8) f(9) [of c] by (auto simp: cl has_tag_def)
  show "tt_contacts st' = tt_contacts st" "tt_outbox st' = tt_outbox st \<longleftrightarrow> has_tag st ten c k"
    "length (tt_outbox st') = length (tt_outbox st) + (if has_tag st ten c k then 0 else 1)"
    using f(4,5) by (auto simp: cl)
  have uniq: "t' = t" if "t' \<in> set (tt_tags st1)" "tg_id t' = tg_id t" for t'
  proof -
    have "inj_on tg_id (set (tt_tags st1))" using f(1) by (simp add: tag_inv_def distinct_map)
    then show ?thesis by (rule inj_onD) (use that f(6) in auto)
  qed
  show "has_tag st' ten' c' k' = has_tag st ten' c' k'" if "k' \<noteq> k" for k'
  proof -
    have "has_tag st' ten' c' k' = has_tag st1 ten' c' k'"
      proof (cases "has_tag st ten c k")
        case False
        show ?thesis
        proof
          assume "has_tag st' ten' c' k'"
          then obtain u a where u: "u \<in> set (tt_tags st1)" "a \<in> set (tt_assignments st')" "tg_key u = k'" "tg_tenantId u = ten'"
              "as_tenantId a = ten'" "as_contactId a = c'" "as_tagId a = tg_id u"
            unfolding has_tag_def tags by blast
          moreover have "tg_id u \<noteq> tg_id t" using uniq [OF u(1)] u(3) that f(8) by blast
          ultimately have "a \<in> set (tt_assignments st1)" using False by (auto simp: cl)
          with u show "has_tag st1 ten' c' k'" unfolding has_tag_def by blast
        qed (auto simp: cl has_tag_def)
      qed (simp add: cl)
    then show ?thesis using f(10) [OF that] by simp
  qed
  have "find_tag st' ten k = Some t" using f(2) tags by (simp add: find_tag_def)
  then have t': "tag_store_of st' ten k = (t, st')" by (simp add: tag_store_of_def)
  show "assign_slug st' ten c k src' = st'"
    using assign_slug_closed [OF inv t', of c src'] has by simp
qed

text \<open>Applying a tag is idempotent and tenant-safe: it keeps the tables' constraints, a second application
  changes nothing, the contact ends up with the tag under its slug, exactly one event is emitted when
  the contact did not have it, none otherwise, and no other key of any contact is touched.\<close>

lemma applyTag_idempotent:
  assumes "tag_inv st" "applyTag st ten c key src = Inr st'" "js_trim key \<noteq> []"
  shows "tag_inv st' \<and> applyTag st' ten c key src' = Inr st' \<and> has_tag st' ten c (slugifyTag key) \<and>
    length (tt_outbox st') = length (tt_outbox st) + (if has_tag st ten c (slugifyTag key) then 0 else 1) \<and>
    (\<forall>ten' c' k. k \<noteq> slugifyTag key \<longrightarrow> has_tag st' ten' c' k = has_tag st ten' c' k)"
proof -
  have key: "key \<noteq> []" using assms(3) by (auto simp: js_trim_def)
  then have ex: "list_ex (\<lambda>x. ct_id x = c \<and> ct_tenantId x = ten) (tt_contacts st)"
    and st': "assign_slug st ten c (slugifyTag key) src = st'"
    using assms(2,3) by (auto simp: applyTag_def split: if_splits)
  note f = assign_slug_facts [OF assms(1) st']
  show ?thesis using f(1,2,5,6,7) ex key assms(3) by (simp add: applyTag_def f(3))
qed

text \<open>When cutting a label at 64 characters left an underscore at the end of the tag's key, assigning that
  tag assigns another one: the contact gets the key without the underscore, and has the chosen tag
  afterwards exactly if it had it before.\<close>

lemma assign_gives_another_tag:
  assumes "tag_inv st" "t \<in> set (tt_tags st)" "tg_tenantId t = ten" "tg_key t = slugifyTag l" "last (tg_key t) = CHR ''_''"
    and "assignTag st ten c (tg_id t) src = Inr st'"
  shows "has_tag st' ten c (butlast (tg_key t)) \<and> has_tag st' ten c (tg_key t) = has_tag st ten c (tg_key t)"
proof -
  have "find (\<lambda>u. tg_id u = tg_id t \<and> tg_tenantId u = ten) (tt_tags st) = Some t"
  proof (cases "find (\<lambda>u. tg_id u = tg_id t \<and> tg_tenantId u = ten) (tt_tags st)")
    case None
    then show ?thesis using assms(2,3) by (auto simp: find_None_all)
  next
    case (Some u)
    then have "u \<in> set (tt_tags st)" "tg_id u = tg_id t" by (auto dest: find_Some_in)
    moreover have "inj_on tg_id (set (tt_tags st))" using assms(1) by (simp add: tag_inv_def distinct_map)
    ultimately have "u = t" using assms(2) by (auto dest: inj_onD)
    with Some show ?thesis by simp
  qed
  then have ap: "applyTag st ten c (tg_key t) src = Inr st'" using assms(6) by (simp add: assignTag_def)
  have ne: "tg_key t \<noteq> []" using slugify_chars(4) [of l] assms(4) by simp
  have sl: "slugifyTag (tg_key t) = butlast (tg_key t)" using slugify_slugify [of l] assms(4,5) by simp
  have "js_trim (tg_key t) \<noteq> []"
  proof
    assume "js_trim (tg_key t) = []"
    then have "\<forall>x\<in>set (dropWhile js_space (tg_key t)). js_space x"
      by (simp add: js_trim_def dropWhile_eq_Nil_conv)
    then have "dropWhile js_space (tg_key t) = []"
      by (metis hd_dropWhile list.set_sel(1))
    then have "js_space (last (tg_key t))" using ne by (simp add: dropWhile_eq_Nil_conv)
    then show False using assms(5) by (simp add: js_space_def)
  qed
  then have st': "assign_slug st ten c (butlast (tg_key t)) src = st'"
    using ap ne sl by (auto simp: applyTag_def split: if_splits)
  have "butlast (tg_key t) \<noteq> tg_key t" using ne by (metis append_butlast_last_id append_self_conv not_Cons_self2)
  then show ?thesis using assign_slug_facts(2,6) [OF assms(1) st'] by metis
qed

section \<open>Concrete instances\<close>

definition tagged_contact :: ContactRow where
  "tagged_contact = \<lparr>ct_id = ''c1'', ct_tenantId = ''t1'', ct_phoneE164 = None, ct_email = None, ct_firstName = None,
     ct_lastName = None, ct_createdAt = 0, ct_consentAt = None, ct_turfId = None, ct_gnafPid = None\<rparr>"

definition no_tags :: TagStore where
  "no_tags = \<lparr>tt_contacts = [tagged_contact], tt_tags = [], tt_assignments = [], tt_outbox = [], tt_nextId = 0\<rparr>"

definition long_label :: string where
  "long_label = replicate 63 (CHR ''a'') @ '' volunteers''"

definition long_tag :: TagRow where
  "long_tag = \<lparr>tg_id = tag_id 0, tg_tenantId = ''t1'', tg_key = replicate 63 (CHR ''a'') @ ''_'', tg_label = long_label,
     tg_color = None\<rparr>"

definition long_tags :: TagStore where
  "long_tags = no_tags\<lparr>tt_tags := [long_tag], tt_nextId := 1\<rparr>"

lemma long_tag_created: "createTag no_tags ''t1'' long_label None None = (long_tag, long_tags)"
proof -
  have "slugifyTag long_label = replicate 63 (CHR ''a'') @ ''_''" by code_simp
  then show ?thesis
    by (simp add: createTag_def find_tag_def create_tag_row_def no_tags_def long_tags_def long_tag_def Let_def)
qed

lemma no_tags_inv: "tag_inv no_tags"
  by (simp add: tag_inv_def no_tags_def)

lemma long_tags_inv: "tag_inv long_tags"
  by (simp add: tag_inv_def long_tags_def no_tags_def long_tag_def)

lemma applyTag_idempotent_witness:
  "\<exists>st'. applyTag no_tags ''t1'' ''c1'' '' Door knocker! '' ''journey'' = Inr st' \<and> has_tag st' ''t1'' ''c1'' ''door_knocker'' \<and>
     applyTag st' ''t1'' ''c1'' '' Door knocker! '' ''manual'' = Inr st'"
proof -
  have sl: "slugifyTag '' Door knocker! '' = ''door_knocker''" and tr: "js_trim '' Door knocker! '' \<noteq> []"
    by code_simp+
  then obtain st' where st': "applyTag no_tags ''t1'' ''c1'' '' Door knocker! '' ''journey'' = Inr st'"
    by (simp add: applyTag_def no_tags_def tagged_contact_def)
  show ?thesis
    using applyTag_idempotent [OF no_tags_inv st' tr, of "''manual''"] st' by (simp add: sl)
qed

lemma assign_gives_another_tag_witness:
  "\<exists>st'. assignTag long_tags ''t1'' ''c1'' (tag_id 0) ''manual'' = Inr st' \<and>
     has_tag st' ''t1'' ''c1'' (replicate 63 (CHR ''a'')) \<and> \<not> has_tag st' ''t1'' ''c1'' (replicate 63 (CHR ''a'') @ ''_'')"
proof -
  have l: "long_tag \<in> set (tt_tags long_tags)" "tg_tenantId long_tag = ''t1''" "last (tg_key long_tag) = CHR ''_''"
    by (simp_all add: long_tags_def long_tag_def)
  have k: "tg_key long_tag = slugifyTag long_label" by code_simp
  have tr: "js_trim (replicate 63 (CHR ''a'') @ ''_'') \<noteq> []" by code_simp
  obtain st' where st': "assignTag long_tags ''t1'' ''c1'' (tg_id long_tag) ''manual'' = Inr st'"
    using tr by (simp add: assignTag_def applyTag_def long_tags_def long_tag_def no_tags_def tagged_contact_def)
  have "\<not> has_tag long_tags ''t1'' ''c1'' (tg_key long_tag)" by (simp add: has_tag_def long_tags_def no_tags_def)
  then show ?thesis
    using assign_gives_another_tag [OF long_tags_inv l(1,2) k l(3) st'] st'
    by (intro exI [of _ st']) (simp add: long_tag_def)
qed

end
