(* ===== verification/Messaging_Consent.thy ===== *)
theory Messaging_Consent
  imports Audience_Db Seg_Conditions
begin

text \<open>
  Messaging consent: \<^verbatim>\<open>apps/api/src/messaging/consent.service.ts\<close>, the consent step of
  \<^verbatim>\<open>inbox/inbox.service.ts\<close> (\<open>recordInbound\<close>), the WhatsApp session window
  \<^verbatim>\<open>messaging/session-window.service.ts\<close>, the phone helpers \<^verbatim>\<open>common/utils/phone.utils.ts\<close> and
  \<open>isContactable\<close> of \<^verbatim>\<open>audiences/audience-recipients.resolver.ts\<close>. The consent rows are those of the
  segmentation database; the \<open>source\<close> column is kept in the events only. The lemmas relate the outbox to
  the state it reports.
\<close>

section \<open>Keywords\<close>

definition STOP_KEYWORDS :: "string list" where
  "STOP_KEYWORDS = [''stop'', ''stopall'', ''unsubscribe'', ''cancel'', ''end'', ''quit'', ''stop all'']"

definition START_KEYWORDS :: "string list" where
  "START_KEYWORDS = [''start'', ''yes'', ''unstop'', ''resume'']"

definition classifyConsentKeyword :: "string \<Rightarrow> string option" where
  "classifyConsentKeyword body =
     (let text = js_lower (js_trim body) in
      if text = [] then None
      else if text \<in> set STOP_KEYWORDS then Some ''OPTED_OUT''
      else if text \<in> set START_KEYWORDS then Some ''OPTED_IN''
      else None)"

section \<open>The consent table\<close>

datatype MessageChannel = Sms | Whatsapp | Voice

fun MessageChannel_id :: "MessageChannel \<Rightarrow> string" where
  "MessageChannel_id Sms = ''SMS''"
| "MessageChannel_id Whatsapp = ''WHATSAPP''"
| "MessageChannel_id Voice = ''VOICE''"

record ConsentChanged =
  ce_tenantId :: string
  ce_contactId :: "string option"
  ce_phoneE164 :: string
  ce_channel :: string
  ce_state :: string
  ce_previousState :: string
  ce_source :: "string option"

record ConsentStore =
  cs_rows :: "ConsentRow list"
  cs_outbox :: "ConsentChanged list"

record ConsentInput =
  in_tenantId :: string
  in_phoneE164 :: string
  in_channel :: string
  in_state :: string
  in_contactId :: "string option"
  in_source :: "string option"

definition consent_key :: "ConsentRow \<Rightarrow> string \<times> string \<times> string" where
  "consent_key r = (cc_tenantId r, cc_phoneE164 r, cc_channel r)"

definition find_consent :: "ConsentRow list \<Rightarrow> string \<times> string \<times> string \<Rightarrow> ConsentRow option" where
  "find_consent rows k = find (\<lambda>r. consent_key r = k) rows"

definition getState :: "ConsentRow list \<Rightarrow> string \<Rightarrow> string \<Rightarrow> string \<Rightarrow> string" where
  "getState rows tenantId phone channel =
     (case find_consent rows (tenantId, phone, channel) of None \<Rightarrow> ''UNKNOWN'' | Some r \<Rightarrow> cc_state r)"

definition non_empty :: "string option \<Rightarrow> bool" where
  "non_empty v \<longleftrightarrow> truthy v"

definition upsert_consent :: "ConsentRow list \<Rightarrow> ConsentInput \<Rightarrow> ConsentRow list" where
  "upsert_consent rows i =
     (let k = (in_tenantId i, in_phoneE164 i, in_channel i) in
      if find_consent rows k = None
      then rows @ [\<lparr>cc_tenantId = in_tenantId i, cc_contactId = in_contactId i, cc_phoneE164 = in_phoneE164 i,
                    cc_channel = in_channel i, cc_state = in_state i\<rparr>]
      else map (\<lambda>r. if consent_key r = k
                    then r\<lparr>cc_state := in_state i,
                           cc_contactId := (if non_empty (in_contactId i) then in_contactId i else cc_contactId r)\<rparr>
                    else r) rows)"

definition setState :: "ConsentStore \<Rightarrow> ConsentInput \<Rightarrow> ConsentStore" where
  "setState st i =
     (let previousState = getState (cs_rows st) (in_tenantId i) (in_phoneE164 i) (in_channel i);
          rows = upsert_consent (cs_rows st) i;
          event = \<lparr>ce_tenantId = in_tenantId i, ce_contactId = in_contactId i, ce_phoneE164 = in_phoneE164 i,
                   ce_channel = in_channel i, ce_state = in_state i, ce_previousState = previousState,
                   ce_source = in_source i\<rparr> in
      \<lparr>cs_rows = rows, cs_outbox = (if previousState \<noteq> in_state i then cs_outbox st @ [event] else cs_outbox st)\<rparr>)"

definition canSend :: "string \<Rightarrow> MessageChannel \<Rightarrow> bool" where
  "canSend state channel =
     (if state = ''OPTED_OUT'' then False
      else if channel = Whatsapp then state = ''OPTED_IN''
      else True)"

definition getStatesForPhones :: "ConsentRow list \<Rightarrow> string \<Rightarrow> MessageChannel \<Rightarrow> string list \<Rightarrow> (string, string) table" where
  "getStatesForPhones rows tenantId channel phones =
     (if phones = [] then []
      else fold (\<lambda>r. tset (cc_phoneE164 r) (cc_state r))
        (filter (\<lambda>r. cc_tenantId r = tenantId \<and> cc_channel r = MessageChannel_id channel \<and> cc_phoneE164 r \<in> set phones) rows) [])"

section \<open>Inbound messages\<close>

text \<open>The consent step of \<open>recordInbound\<close>: a STOP keyword opts out of both channels, anything else opts in.\<close>

definition inbound_consent ::
  "ConsentStore \<Rightarrow> string \<Rightarrow> string \<Rightarrow> MessageChannel \<Rightarrow> string \<Rightarrow> string \<Rightarrow> ConsentStore" where
  "inbound_consent st tenantId phone channel contactId body =
     (let keyword = classifyConsentKeyword body;
          input = (\<lambda>ch s src. \<lparr>in_tenantId = tenantId, in_phoneE164 = phone, in_channel = MessageChannel_id ch, in_state = s,
                              in_contactId = Some contactId, in_source = Some src\<rparr>) in
      if keyword = Some ''OPTED_OUT''
      then setState (setState st (input Sms ''OPTED_OUT'' ''stop_keyword'')) (input Whatsapp ''OPTED_OUT'' ''stop_keyword'')
      else setState st (input channel ''OPTED_IN''
             (if keyword = Some ''OPTED_IN'' then ''start_keyword'' else ''inbound'')))"

section \<open>The session window\<close>

text \<open>\<open>hours\<close> is \<open>Number(...)\<close> of the configured value, \<open>None\<close> when it is \<open>NaN\<close>; times are milliseconds.\<close>

definition windowMs :: "rat option \<Rightarrow> rat" where
  "windowMs hours =
     (let h = (case hours of Some q \<Rightarrow> if q = 0 then 24 else q | None \<Rightarrow> 24) in
      min 24 (max 1 h) * 60 * 60 * 1000)"

record InboundRow =
  ib_tenantId :: string
  ib_fromPhone :: string
  ib_channel :: MessageChannel
  ib_receivedAt :: rat

definition lastInboundAt :: "InboundRow list \<Rightarrow> string \<Rightarrow> string \<Rightarrow> rat option" where
  "lastInboundAt rows tenantId phone =
     (case map ib_receivedAt (filter (\<lambda>r. ib_tenantId r = tenantId \<and> ib_fromPhone r = phone \<and> ib_channel r = Whatsapp) rows) of
        [] \<Rightarrow> None
      | t # ts \<Rightarrow> Some (fold max ts t))"

definition isOpen :: "InboundRow list \<Rightarrow> rat option \<Rightarrow> rat \<Rightarrow> string \<Rightarrow> string \<Rightarrow> MessageChannel \<Rightarrow> bool" where
  "isOpen rows hours now tenantId phone channel =
     (if channel \<noteq> Whatsapp then True
      else case lastInboundAt rows tenantId phone of
             None \<Rightarrow> False
           | Some t \<Rightarrow> now - t < windowMs hours)"

section \<open>Phones\<close>

definition plus_digits :: "nat \<Rightarrow> nat \<Rightarrow> string \<Rightarrow> bool" where
  "plus_digits lo hi s \<longleftrightarrow>
     (case s of [] \<Rightarrow> False
      | c # ds \<Rightarrow> c = CHR ''+'' \<and> list_all is_digit ds \<and> lo \<le> length ds \<and> length ds \<le> hi)"

definition normalizePhoneE164 :: "string \<Rightarrow> string res" where
  "normalizePhoneE164 input =
     (let cleaned = filter (\<lambda>c. is_digit c \<or> c = CHR ''+'') (js_trim input) in
      if \<not> starts_with cleaned ''+'' then Inl (apiHttpException ''INVALID_PHONE'' None)
      else if \<not> plus_digits 8 15 cleaned then Inl (apiHttpException ''INVALID_PHONE'' None)
      else Inr cleaned)"

text \<open>\<open>contactable\<close> is the metadata flag of that name, when it is a boolean.\<close>

definition isContactable :: "string \<Rightarrow> bool option \<Rightarrow> bool" where
  "isContactable phone contactable \<longleftrightarrow> contactable \<noteq> Some False \<and> plus_digits 7 15 phone"

section \<open>What the table keeps\<close>

definition consent_inv :: "ConsentRow list \<Rightarrow> bool" where
  "consent_inv rows \<longleftrightarrow> distinct (map consent_key rows)"

lemma find_consent_Some: "find_consent rows k = Some r \<Longrightarrow> r \<in> set rows \<and> consent_key r = k"
  unfolding find_consent_def by (rule find_Some_in)

lemma find_consent_None: "find_consent rows k = None \<longleftrightarrow> k \<notin> set (map consent_key rows)"
  by (auto simp: find_consent_def find_None_all)

lemma find_map_key:
  "(\<And>r. consent_key (f r) = consent_key r) \<Longrightarrow> find_consent (map f rows) k = map_option f (find_consent rows k)"
  unfolding find_consent_def by (induction rows) auto

lemma find_append: "find_consent (rows @ [r]) k =
  (case find_consent rows k of Some x \<Rightarrow> Some x | None \<Rightarrow> if consent_key r = k then Some r else None)"
  unfolding find_consent_def by (induction rows) auto

lemma getState_upsert:
  "getState (upsert_consent rows i) t p c =
     (if (t, p, c) = (in_tenantId i, in_phoneE164 i, in_channel i) then in_state i else getState rows t p c)"
proof (cases "find_consent rows (in_tenantId i, in_phoneE164 i, in_channel i)")
  case None
  then show ?thesis
    by (auto simp: upsert_consent_def Let_def getState_def find_append consent_key_def split: option.split)
next
  case (Some r)
  let ?f = "\<lambda>r. if consent_key r = (in_tenantId i, in_phoneE164 i, in_channel i)
    then r\<lparr>cc_state := in_state i, cc_contactId := (if non_empty (in_contactId i) then in_contactId i else cc_contactId r)\<rparr> else r"
  have "find_consent (map ?f rows) k = map_option ?f (find_consent rows k)" for k
    by (rule find_map_key) (simp add: consent_key_def)
  with Some show ?thesis
    by (auto simp: upsert_consent_def Let_def getState_def split: option.split dest: find_consent_Some)
qed

lemma getState_setState:
  "getState (cs_rows (setState st i)) t p c =
     (if (t, p, c) = (in_tenantId i, in_phoneE164 i, in_channel i) then in_state i else getState (cs_rows st) t p c)"
  by (simp add: setState_def Let_def getState_upsert)

lemma consent_inv_upsert: "consent_inv rows \<Longrightarrow> consent_inv (upsert_consent rows i)"
proof -
  have "map consent_key (upsert_consent rows i) =
      (if find_consent rows (in_tenantId i, in_phoneE164 i, in_channel i) = None
       then map consent_key rows @ [(in_tenantId i, in_phoneE164 i, in_channel i)] else map consent_key rows)"
    by (auto simp: upsert_consent_def Let_def consent_key_def)
  then show "consent_inv rows \<Longrightarrow> ?thesis" by (simp add: consent_inv_def find_consent_None)
qed

section \<open>The outbox is the table's history\<close>

definition event_key :: "ConsentChanged \<Rightarrow> string \<times> string \<times> string" where
  "event_key e = (ce_tenantId e, ce_phoneE164 e, ce_channel e)"

text \<open>The state a subscriber reconstructs from the events alone.\<close>

definition replay :: "ConsentChanged list \<Rightarrow> string \<times> string \<times> string \<Rightarrow> string" where
  "replay evs k = fold (\<lambda>e s. if event_key e = k then ce_state e else s) evs ''UNKNOWN''"

text \<open>Each event is a transition from the state the earlier events lead to.\<close>

fun transitions :: "ConsentChanged list \<Rightarrow> ConsentChanged list \<Rightarrow> bool" where
  "transitions past [] = True"
| "transitions past (e # evs) =
     (ce_previousState e = replay past (event_key e) \<and> ce_state e \<noteq> ce_previousState e \<and> transitions (past @ [e]) evs)"

definition empty_consent :: ConsentStore where
  "empty_consent = \<lparr>cs_rows = [], cs_outbox = []\<rparr>"

definition setStates :: "ConsentInput list \<Rightarrow> ConsentStore \<Rightarrow> ConsentStore" where
  "setStates is st = fold (\<lambda>i s. setState s i) is st"

definition log_faithful :: "ConsentStore \<Rightarrow> bool" where
  "log_faithful st \<longleftrightarrow>
     consent_inv (cs_rows st) \<and> transitions [] (cs_outbox st) \<and>
     (\<forall>t p c. getState (cs_rows st) t p c = replay (cs_outbox st) (t, p, c))"

lemma replay_snoc: "replay (evs @ [e]) k = (if event_key e = k then ce_state e else replay evs k)"
  by (simp add: replay_def)

lemma transitions_snoc:
  "transitions past (evs @ [e]) \<longleftrightarrow>
     transitions past evs \<and> ce_previousState e = replay (past @ evs) (event_key e) \<and> ce_state e \<noteq> ce_previousState e"
  by (induction past evs rule: transitions.induct) auto

lemma setState_faithful: "log_faithful st \<Longrightarrow> log_faithful (setState st i)"
proof -
  assume st: "log_faithful st"
  let ?k = "(in_tenantId i, in_phoneE164 i, in_channel i)"
  have g: "getState (cs_rows (setState st i)) t p c =
      (if (t, p, c) = ?k then in_state i else replay (cs_outbox st) (t, p, c))" for t p c
    using st by (simp add: getState_setState log_faithful_def)
  show ?thesis
    unfolding log_faithful_def g
    using st consent_inv_upsert
    by (auto simp: setState_def Let_def log_faithful_def replay_snoc transitions_snoc event_key_def)
qed

text \<open>C39: Where every write of the consent table goes through \<open>ConsentService.setState\<close>, whatever the writes and their
  order: there is one row per tenant, phone and channel, every emitted event reports a real change from the state the
  earlier events lead to (no event for a repeated write), and replaying the events gives the state the table answers
  for every phone. (Two other writers, the star key of the phone survey and the demo seed, write the table and no
  event; the statement is about the service, not about them.)\<close>

theorem consent_log_faithful: "log_faithful (setStates is empty_consent)"
proof -
  have "log_faithful st \<Longrightarrow> log_faithful (setStates is st)" for st
    unfolding setStates_def by (induction "is" arbitrary: st) (simp_all add: setState_faithful)
  moreover have "log_faithful empty_consent"
    by (simp add: log_faithful_def empty_consent_def consent_inv_def getState_def find_consent_def replay_def)
  ultimately show ?thesis by blast
qed

section \<open>STOP and what follows it\<close>

record InboundText =
  it_tenantId :: string
  it_phone :: string
  it_channel :: MessageChannel
  it_contactId :: string
  it_body :: string

definition inbound_texts :: "InboundText list \<Rightarrow> ConsentStore \<Rightarrow> ConsentStore" where
  "inbound_texts ms st =
     fold (\<lambda>m s. inbound_consent s (it_tenantId m) (it_phone m) (it_channel m) (it_contactId m) (it_body m)) ms st"

definition blocked_for :: "ConsentStore \<Rightarrow> string \<Rightarrow> string \<Rightarrow> bool" where
  "blocked_for st t p \<longleftrightarrow> (\<forall>ch. ch \<noteq> Voice \<longrightarrow> \<not> canSend (getState (cs_rows st) t p (MessageChannel_id ch)) ch)"

lemma stop_blocks: "classifyConsentKeyword body = Some ''OPTED_OUT'' \<Longrightarrow> blocked_for (inbound_consent st t p ch c body) t p"
  unfolding blocked_for_def
proof (intro allI impI)
  fix ch' assume "classifyConsentKeyword body = Some ''OPTED_OUT''" "ch' \<noteq> Voice"
  then show "\<not> canSend (getState (cs_rows (inbound_consent st t p ch c body)) t p (MessageChannel_id ch')) ch'"
    by (cases ch') (simp_all add: inbound_consent_def Let_def getState_setState canSend_def)
qed

lemma inbound_other:
  "(t', p') \<noteq> (t, p) \<Longrightarrow> getState (cs_rows (inbound_consent st t p ch c body)) t' p' k = getState (cs_rows st) t' p' k"
  by (auto simp: inbound_consent_def Let_def getState_setState)

lemma blocked_step:
  assumes "blocked_for st t p" "(t', p') = (t, p) \<longrightarrow> classifyConsentKeyword body = Some ''OPTED_OUT''"
  shows "blocked_for (inbound_consent st t' p' ch c body) t p"
proof (cases "(t', p') = (t, p)")
  case True
  then show ?thesis using assms(2) stop_blocks by simp
next
  case False
  then have "(t, p) \<noteq> (t', p')" by auto
  then show ?thesis using assms(1) by (simp add: blocked_for_def inbound_other)
qed

lemma blocked_texts:
  "blocked_for st t p \<Longrightarrow>
   \<forall>m\<in>set ms. (it_tenantId m, it_phone m) = (t, p) \<longrightarrow> classifyConsentKeyword (it_body m) = Some ''OPTED_OUT'' \<Longrightarrow>
   blocked_for (inbound_texts ms st) t p"
  unfolding inbound_texts_def by (induction ms arbitrary: st) (simp_all add: blocked_step)

text \<open>C33: After a message that is a STOP keyword the consent check refuses SMS and WhatsApp to its sender, whichever of
  the two channels it arrived on and whatever was recorded before, and goes on refusing both through any sequence of
  inbound messages, from whomever, until the sender sends a message that is not a STOP keyword; that message, whatever
  it says, opens the channel it came on again. No other phone, no other tenant and no voice consent is touched by the
  STOP.\<close>

theorem stop_blocks_both_channels:
  assumes "classifyConsentKeyword body = Some ''OPTED_OUT''"
    and "\<forall>m\<in>set ms. (it_tenantId m, it_phone m) = (t, p) \<longrightarrow> classifyConsentKeyword (it_body m) = Some ''OPTED_OUT''"
    and "classifyConsentKeyword body' \<noteq> Some ''OPTED_OUT''"
  shows "(ch' \<noteq> Voice \<longrightarrow>
      \<not> canSend (getState (cs_rows (inbound_texts ms (inbound_consent st t p ch c body))) t p (MessageChannel_id ch')) ch') \<and>
    canSend (getState (cs_rows (inbound_consent (inbound_texts ms (inbound_consent st t p ch c body)) t p ch' c' body')) t p
      (MessageChannel_id ch')) ch' \<and>
    ((t', p') \<noteq> (t, p) \<or> k = ''VOICE'' \<longrightarrow>
      getState (cs_rows (inbound_consent st t p ch c body)) t' p' k = getState (cs_rows st) t' p' k)"
proof (intro conjI impI)
  show "\<not> canSend (getState (cs_rows (inbound_texts ms (inbound_consent st t p ch c body))) t p (MessageChannel_id ch')) ch'"
    if "ch' \<noteq> Voice"
    using blocked_texts [OF stop_blocks [OF assms(1)] assms(2)] that by (simp add: blocked_for_def)
  show "canSend (getState (cs_rows (inbound_consent (inbound_texts ms (inbound_consent st t p ch c body)) t p ch' c' body')) t p
      (MessageChannel_id ch')) ch'"
    using assms(3) by (simp add: inbound_consent_def [of _ t p ch'] Let_def getState_setState canSend_def)
  show "getState (cs_rows (inbound_consent st t p ch c body)) t' p' k = getState (cs_rows st) t' p' k"
    if "(t', p') \<noteq> (t, p) \<or> k = ''VOICE''"
    using that assms(1) by (auto simp: inbound_consent_def Let_def getState_setState)
qed

text \<open>A STOP by text, then a second one on WhatsApp, then a message of somebody else.\<close>

definition demo_texts :: "InboundText list" where
  "demo_texts =
     [\<lparr>it_tenantId = ''t1'', it_phone = ''+61400000000'', it_channel = Whatsapp, it_contactId = ''c1'', it_body = ''unsubscribe''\<rparr>,
      \<lparr>it_tenantId = ''t1'', it_phone = ''+61400000001'', it_channel = Sms, it_contactId = ''c2'', it_body = ''hello''\<rparr>]"

theorem stop_blocks_both_channels_witness:
  "\<not> canSend (getState (cs_rows (inbound_texts demo_texts
      (inbound_consent empty_consent ''t1'' ''+61400000000'' Sms ''c1'' '' Stop ''))) ''t1'' ''+61400000000'' ''WHATSAPP'') Whatsapp \<and>
   getState (cs_rows (inbound_consent empty_consent ''t1'' ''+61400000000'' Sms ''c1'' '' Stop '')) ''t2'' ''+61400000000'' ''SMS''
     = getState (cs_rows empty_consent) ''t2'' ''+61400000000'' ''SMS''"
proof -
  have k: "classifyConsentKeyword '' Stop '' = Some ''OPTED_OUT''" "classifyConsentKeyword ''unsubscribe'' = Some ''OPTED_OUT''"
    "classifyConsentKeyword ''stop it'' \<noteq> Some ''OPTED_OUT''" by code_simp+
  have "\<forall>m\<in>set demo_texts. (it_tenantId m, it_phone m) = (''t1'', ''+61400000000'') \<longrightarrow>
      classifyConsentKeyword (it_body m) = Some ''OPTED_OUT''"
    using k(2) by (simp add: demo_texts_def)
  from stop_blocks_both_channels [OF k(1) this k(3), of Whatsapp empty_consent Sms "''c1''" "''c1''"
      "''t2''" "''+61400000000''" "''SMS''"]
  show ?thesis by simp
qed

text \<open>After a STOP, any reply that is not itself a STOP keyword opts the sender in again on the channel it
  came on, a sentence asking to be left alone included.\<close>

lemma any_reply_opts_in:
  assumes "classifyConsentKeyword body \<noteq> Some ''OPTED_OUT''"
  shows "canSend (getState (cs_rows (inbound_consent (inbound_consent st t p ch c ''STOP'') t p ch c body)) t p
    (MessageChannel_id ch)) ch"
  using assms by (simp add: inbound_consent_def Let_def getState_setState canSend_def)

lemma any_reply_opts_in_witness:
  "canSend (getState (cs_rows (inbound_consent (inbound_consent empty_consent ''t1'' ''+61400000000'' Sms ''c1'' ''STOP'')
     ''t1'' ''+61400000000'' Sms ''c1'' ''Please stop texting me'')) ''t1'' ''+61400000000'' ''SMS'') Sms"
proof -
  have k: "classifyConsentKeyword ''Please stop texting me'' \<noteq> Some ''OPTED_OUT''" by code_simp
  show ?thesis
    using any_reply_opts_in [OF k, of empty_consent "''t1''" "''+61400000000''" Sms "''c1''"] by simp
qed

end
