(* ===== verification/Journeys.thy ===== *)
theory Journeys
  imports Contact_Tags Messaging_Consent
begin

text \<open>
  Journeys: \<^verbatim>\<open>apps/api/src/journeys/journeys.service.ts\<close>, \<^verbatim>\<open>single-send.service.ts\<close> and
  \<^verbatim>\<open>journeys.controller.ts\<close>, with the queue \<^verbatim>\<open>common/queue/bullmq-dispatch.queue.ts\<close> and the worker's
  delivery of a rung job (\<^verbatim>\<open>apps/worker/src/main.ts\<close>).

  A handler makes several commits, and the process may die between any two of them. Handlers are therefore
  written in a monad over the store whose field \<open>jn_budget\<close> counts the commits left before the process
  dies (\<open>None\<close>: it does not die); each database write, queue write and text sent is a \<open>commit\<close>. What the
  provider and the sender resolver answer is an argument, and so is whether the flag is on. \<open>journey_step\<close> is the machine in which
  triggers, deliveries, sweeps, edits and the clock interleave. Times are milliseconds.
\<close>

section \<open>Rows\<close>

datatype JourneyStatus = DRAFT | ACTIVE | PAUSED | ARCHIVED

datatype JourneyRungType = RungWait | RungCondition | RungAction

datatype JourneyTriggerType =
  disposition_set | message_received | tag_added | survey_answer | no_answer_after

datatype JourneyEnrolmentState = ACTIVE | WAITING | COMPLETED | EXITED | FAILED

record JourneyRung =
  ru_rungIndex :: int
  ru_type :: JourneyRungType
  ru_config :: json

record Journey =
  jo_id :: string
  jo_tenantId :: string
  jo_name :: string
  jo_status :: JourneyStatus
  jo_triggerType :: JourneyTriggerType
  jo_triggerConfig :: json
  jo_reentryCooldownMinutes :: int
  jo_maxActivePerContact :: int
  jo_rungs :: "JourneyRung list"

record JourneyTriggerPayload =
  tp_tenantId :: string
  tp_contactId :: string
  tp_code :: "string option"
  tp_questionId :: "string option"
  tp_optionId :: "string option"
  tp_surveyId :: "string option"
  tp_campaignId :: "string option"
  tp_tag :: "string option"
  tp_blastId :: "string option"

record JourneyEnrolment =
  en_id :: string
  en_tenantId :: string
  en_journeyId :: string
  en_contactId :: string
  en_currentRungIndex :: int
  en_state :: JourneyEnrolmentState
  en_context :: JourneyTriggerPayload
  en_resumeAt :: "rat option"
  en_lastRungAt :: "rat option"
  en_rungExecCount :: int
  en_enrolledAt :: rat
  en_completedAt :: "rat option"

record RungJob =
  jb_id :: string
  jb_enrolmentId :: string
  jb_rungIndex :: int
  jb_availableAt :: rat
  jb_failed :: bool

record ConversationRow =
  cv_tenantId :: string
  cv_contactId :: "string option"
  cv_resolved :: bool

record OutboundMessageRow =
  om_tenantId :: string
  om_contactId :: string
  om_toPhone :: string
  om_fromPhone :: string
  om_body :: string
  om_twilioMessageSid :: string
  om_sentAt :: rat

datatype JourneyEvent =
    EnrolmentUpdated string string JourneyEnrolmentState
  | InboxInbound string string
  | JourneyTagEvent string string string
  | DoorTask string string
  | MessageSent string string string

record JourneyStore =
  jn_journeys :: "Journey list"
  jn_enrolments :: "JourneyEnrolment list"
  jn_jobs :: "RungJob list"
  jn_tags :: TagStore
  jn_dispositions :: "DispositionRow list"
  jn_responses :: "QuestionResponseRow list"
  jn_conversations :: "ConversationRow list"
  jn_messages :: "OutboundMessageRow list"
  jn_texts :: "(string \<times> string \<times> string) list"
  jn_events :: "JourneyEvent list"
  jn_nextId :: nat
  jn_now :: rat
  jn_budget :: "nat option"

text \<open>\<open>jn_texts\<close> is what left the building: tenant, phone and body of each message the provider took.\<close>

record SentMessage =
  sm_sid :: string
  sm_to :: "string option"
  sm_from :: "string option"
  sm_body :: "string option"
  sm_dateSent :: "rat option"
  sm_dateCreated :: rat

record JourneyEnv =
  jv_js :: JsEnv
  jv_enabled :: bool
  jv_contactTags :: bool
  jv_sender :: "string \<Rightarrow> string option res"
  jv_twilio :: "nat \<Rightarrow> string \<Rightarrow> string \<Rightarrow> string option \<Rightarrow> SentMessage res"

section \<open>Handlers\<close>

datatype stop = Crashed | Thrown api_error

type_synonym 'a job = "JourneyStore \<Rightarrow> (stop + 'a) \<times> JourneyStore"

definition jret :: "'a \<Rightarrow> 'a job" where
  "jret x = (\<lambda>st. (Inr x, st))"

definition andThen :: "'a job \<Rightarrow> ('a \<Rightarrow> 'b job) \<Rightarrow> 'b job" where
  "andThen m f = (\<lambda>st. case m st of (Inl e, st') \<Rightarrow> (Inl e, st') | (Inr x, st') \<Rightarrow> f x st')"

definition jlift :: "'a res \<Rightarrow> 'a job" where
  "jlift r = (\<lambda>st. (case r of Inl e \<Rightarrow> Inl (Thrown e) | Inr x \<Rightarrow> Inr x, st))"

definition commit :: "(JourneyStore \<Rightarrow> JourneyStore) \<Rightarrow> unit job" where
  "commit f = (\<lambda>st.
     case jn_budget st of
       None \<Rightarrow> (Inr (), f st)
     | Some 0 \<Rightarrow> (Inl Crashed, st)
     | Some (Suc n) \<Rightarrow> (Inr (), (f st)\<lparr>jn_budget := Some n\<rparr>))"

definition emit :: "JourneyEvent \<Rightarrow> unit job" where
  "emit ev = (\<lambda>st. (Inr (), st\<lparr>jn_events := jn_events st @ [ev]\<rparr>))"

section \<open>The queue\<close>

definition getJourneyRungJobId :: "string \<Rightarrow> int \<Rightarrow> string" where
  "getJourneyRungJobId enrolmentId rungIndex =
     ''journey-run_'' @ enrolmentId @ ''_'' @ (if rungIndex < 0 then ''-'' else []) @ nat_to_string (nat \<bar>rungIndex\<bar>)"

definition enqueue_job :: "string \<Rightarrow> string \<Rightarrow> int \<Rightarrow> rat option \<Rightarrow> JourneyStore \<Rightarrow> JourneyStore" where
  "enqueue_job jobId enrolmentId rungIndex runAt st =
     (if list_ex (\<lambda>j. jb_id j = jobId) (jn_jobs st) then st
      else let now = jn_now st; delay = max 0 ((case runAt of None \<Rightarrow> now | Some t \<Rightarrow> t) - now) in
        st\<lparr>jn_jobs := jn_jobs st @
             [\<lparr>jb_id = jobId, jb_enrolmentId = enrolmentId, jb_rungIndex = rungIndex, jb_availableAt = now + delay,
               jb_failed = False\<rparr>]\<rparr>)"

definition enqueueRung :: "string \<Rightarrow> int \<Rightarrow> rat option \<Rightarrow> unit job" where
  "enqueueRung enrolmentId rungIndex runAt =
     commit (enqueue_job (getJourneyRungJobId enrolmentId rungIndex) enrolmentId rungIndex runAt)"

section \<open>Triggers\<close>

definition out_of_scope :: "json \<Rightarrow> string \<Rightarrow> string option \<Rightarrow> bool" where
  "out_of_scope cfg key v \<longleftrightarrow> js_truthy (jget cfg key) \<and> jget cfg key \<noteq> map_option JStr v"

definition triggerConfigMatches :: "json \<Rightarrow> JourneyTriggerType \<Rightarrow> JourneyTriggerPayload \<Rightarrow> bool" where
  "triggerConfigMatches cfg type payload =
     (case type of
        disposition_set \<Rightarrow>
          if out_of_scope cfg ''campaignId'' (tp_campaignId payload) then False
          else if out_of_scope cfg ''blastId'' (tp_blastId payload) then False
          else \<not> out_of_scope cfg ''code'' (tp_code payload)
      | survey_answer \<Rightarrow>
          if out_of_scope cfg ''surveyId'' (tp_surveyId payload) then False
          else if out_of_scope cfg ''campaignId'' (tp_campaignId payload) then False
          else if out_of_scope cfg ''blastId'' (tp_blastId payload) then False
          else if out_of_scope cfg ''questionId'' (tp_questionId payload) then False
          else if out_of_scope cfg ''optionId'' (tp_optionId payload) then False
          else True
      | tag_added \<Rightarrow> \<not> out_of_scope cfg ''tag'' (tp_tag payload)
      | message_received \<Rightarrow> \<not> out_of_scope cfg ''blastId'' (tp_blastId payload)
      | no_answer_after \<Rightarrow> True)"

definition enrolment_id :: "nat \<Rightarrow> string" where
  "enrolment_id n = ''enrolment'' @ nat_to_string n"

definition is_live :: "JourneyEnrolmentState \<Rightarrow> bool" where
  "is_live s \<longleftrightarrow> s = ACTIVE \<or> s = WAITING"

definition enrolments_of :: "JourneyStore \<Rightarrow> string \<Rightarrow> string \<Rightarrow> JourneyEnrolment list" where
  "enrolments_of st journeyId contactId =
     filter (\<lambda>e. en_journeyId e = journeyId \<and> en_contactId e = contactId) (jn_enrolments st)"

definition active_count :: "JourneyStore \<Rightarrow> string \<Rightarrow> string \<Rightarrow> nat" where
  "active_count st journeyId contactId = length (filter (\<lambda>e. is_live (en_state e)) (enrolments_of st journeyId contactId))"

definition new_enrolment :: "JourneyStore \<Rightarrow> Journey \<Rightarrow> JourneyTriggerPayload \<Rightarrow> JourneyEnrolment" where
  "new_enrolment st journey payload =
     \<lparr>en_id = enrolment_id (jn_nextId st), en_tenantId = jo_tenantId journey, en_journeyId = jo_id journey,
      en_contactId = tp_contactId payload, en_currentRungIndex = 0, en_state = ACTIVE, en_context = payload,
      en_resumeAt = None, en_lastRungAt = None, en_rungExecCount = 0, en_enrolledAt = jn_now st, en_completedAt = None\<rparr>"

definition tryEnrol :: "Journey \<Rightarrow> JourneyTriggerPayload \<Rightarrow> unit job" where
  "tryEnrol journey payload = (\<lambda>st.
     if int (active_count st (jo_id journey) (tp_contactId payload)) \<ge> jo_maxActivePerContact journey then jret () st
     else if jo_reentryCooldownMinutes journey > 0 \<and>
       list_ex (\<lambda>e. en_enrolledAt e \<ge> jn_now st - rat_of_int (jo_reentryCooldownMinutes journey) * 60000)
         (enrolments_of st (jo_id journey) (tp_contactId payload)) then jret () st
     else
       (let enrolment = new_enrolment st journey payload in
        andThen (commit (\<lambda>st. st\<lparr>jn_enrolments := jn_enrolments st @ [enrolment], jn_nextId := jn_nextId st + 1\<rparr>)) (\<lambda>_.
        andThen (enqueueRung (en_id enrolment) 0 None) (\<lambda>_.
        emit (EnrolmentUpdated (jo_tenantId journey) (en_id enrolment) (en_state enrolment))))) st)"

fun trigger_loop :: "JourneyTriggerType \<Rightarrow> JourneyTriggerPayload \<Rightarrow> Journey list \<Rightarrow> unit job" where
  "trigger_loop type payload [] = jret ()"
| "trigger_loop type payload (journey # journeys) =
     (if \<not> triggerConfigMatches (jo_triggerConfig journey) type payload then trigger_loop type payload journeys
      else andThen (tryEnrol journey payload) (\<lambda>_. trigger_loop type payload journeys))"

definition handleTrigger :: "JourneyEnv \<Rightarrow> JourneyTriggerType \<Rightarrow> JourneyTriggerPayload \<Rightarrow> unit job" where
  "handleTrigger env type payload = (\<lambda>st.
     if \<not> jv_enabled env then jret () st
     else trigger_loop type payload
       (filter (\<lambda>j. jo_tenantId j = tp_tenantId payload \<and> jo_status j = JourneyStatus.ACTIVE \<and> jo_triggerType j = type)
         (jn_journeys st)) st)"

section \<open>Rungs\<close>

definition RUNG_EXEC_CEILING :: int where "RUNG_EXEC_CEILING = 200"

definition MAX_INLINE_WAIT_MINUTES :: rat where "MAX_INLINE_WAIT_MINUTES = 180"

definition update_enrolment :: "string \<Rightarrow> (JourneyEnrolment \<Rightarrow> JourneyEnrolment) \<Rightarrow> unit job" where
  "update_enrolment i f =
     commit (\<lambda>st. st\<lparr>jn_enrolments := map (\<lambda>e. if en_id e = i then f e else e) (jn_enrolments st)\<rparr>)"

definition hasRung :: "JourneyRung list \<Rightarrow> int \<Rightarrow> bool" where
  "hasRung rungs index = list_ex (\<lambda>r. ru_rungIndex r = index) rungs"

definition advance :: "string \<Rightarrow> int \<Rightarrow> unit job" where
  "advance enrolmentId fromIndex = update_enrolment enrolmentId (\<lambda>e. e\<lparr>en_currentRungIndex := fromIndex + 1\<rparr>)"

definition finish :: "string \<Rightarrow> string \<Rightarrow> JourneyEnrolmentState \<Rightarrow> JourneyEnrolmentState job" where
  "finish tenantId enrolmentId state = (\<lambda>st.
     andThen (update_enrolment enrolmentId (\<lambda>e. e\<lparr>en_state := state, en_completedAt := Some (jn_now st)\<rparr>)) (\<lambda>_.
     andThen (emit (EnrolmentUpdated tenantId enrolmentId state)) (\<lambda>_. jret state)) st)"

definition advanceOrComplete ::
  "string \<Rightarrow> string \<Rightarrow> int \<Rightarrow> JourneyRung list \<Rightarrow> JourneyEnrolmentState job" where
  "advanceOrComplete tenantId enrolmentId fromIndex rungs =
     (let nextIndex = fromIndex + 1 in
      andThen (advance enrolmentId fromIndex) (\<lambda>_.
      if \<not> hasRung rungs nextIndex then finish tenantId enrolmentId COMPLETED
      else andThen (enqueueRung enrolmentId nextIndex None) (\<lambda>_. jret ACTIVE)))"

definition evaluateCondition :: "JourneyEnv \<Rightarrow> JourneyStore \<Rightarrow> string \<Rightarrow> string \<Rightarrow> json \<Rightarrow> bool" where
  "evaluateCondition env st tenantId contactId cfg =
     (if jget cfg ''kind'' = Some (JStr ''disposition'')
      then list_ex (\<lambda>d. di_tenantId d = tenantId \<and> di_contactId d = contactId \<and>
             (js_truthy (jget cfg ''code'') \<longrightarrow> di_code d = js_String (jv_js env) (the (jget cfg ''code''))))
             (jn_dispositions st)
      else if jget cfg ''kind'' = Some (JStr ''answered'')
      then list_ex (\<lambda>q. qr_tenantId q = tenantId \<and> qr_contactId q = contactId \<and>
             (js_truthy (jget cfg ''questionId'') \<longrightarrow> qr_questionId q = js_String (jv_js env) (the (jget cfg ''questionId''))))
             (jn_responses st)
      else True)"

text \<open>The text goes out when the provider takes it, whatever happens to the process afterwards.\<close>

definition twilio_send :: "JourneyEnv \<Rightarrow> string \<Rightarrow> string \<Rightarrow> string \<Rightarrow> string option \<Rightarrow> SentMessage job" where
  "twilio_send env tenantId to body sender = (\<lambda>st.
     case jv_twilio env (length (jn_texts st)) to body sender of
       Inl e \<Rightarrow> andThen (commit (\<lambda>st. st)) (\<lambda>_. jlift (Inl e)) st
     | Inr sent \<Rightarrow>
         andThen (commit (\<lambda>st. st\<lparr>jn_texts := jn_texts st @ [(tenantId, to, body)]\<rparr>)) (\<lambda>_. jret sent) st)"

text \<open>The columns \<open>fromPhone\<close> and \<open>twilioMessageSid\<close> of a message: the one is not null, the other is unique; an
  insert that breaks either throws, after the provider has taken the text.\<close>

definition stored_from :: "string option \<Rightarrow> string res" where
  "stored_from from =
     (case from of
        None \<Rightarrow> Inl (ThrownError ''Argument fromPhone must not be null.'')
      | Some p \<Rightarrow> if p = [] then Inr p else normalizePhoneE164 p)"

definition create_message :: "OutboundMessageRow \<Rightarrow> unit job" where
  "create_message row = (\<lambda>st.
     if list_ex (\<lambda>m. om_twilioMessageSid m = om_twilioMessageSid row) (jn_messages st) then jlift (Inl UniqueViolation) st
     else commit (\<lambda>st. st\<lparr>jn_messages := jn_messages st @ [row]\<rparr>) st)"

definition send_text :: "JourneyEnv \<Rightarrow> string \<Rightarrow> string \<Rightarrow> string \<Rightarrow> string \<Rightarrow> bool job" where
  "send_text env tenantId contactId body phone =
     andThen (jlift (normalizePhoneE164 phone)) (\<lambda>to.
     andThen (jlift (jv_sender env tenantId)) (\<lambda>sender.
     andThen (twilio_send env tenantId to body sender) (\<lambda>sent.
     andThen (jlift (if truthy (sm_to sent) then normalizePhoneE164 (the (sm_to sent)) else Inr to)) (\<lambda>toPhone.
     andThen (jlift (stored_from (sm_from sent))) (\<lambda>fromPhone.
     andThen (create_message
        \<lparr>om_tenantId = tenantId, om_contactId = contactId, om_toPhone = toPhone, om_fromPhone = fromPhone,
         om_body = (if truthy (sm_body sent) then the (sm_body sent) else body), om_twilioMessageSid = sm_sid sent,
         om_sentAt = (case sm_dateSent sent of Some d \<Rightarrow> d | None \<Rightarrow> sm_dateCreated sent)\<rparr>) (\<lambda>_.
     andThen (emit (MessageSent tenantId contactId to)) (\<lambda>_. jret True)))))))"

definition sendToContact :: "JourneyEnv \<Rightarrow> string \<Rightarrow> string \<Rightarrow> string \<Rightarrow> bool job" where
  "sendToContact env tenantId contactId body = (\<lambda>st.
     case Option.bind (find (\<lambda>c. ct_id c = contactId \<and> ct_tenantId c = tenantId) (tt_contacts (jn_tags st))) ct_phoneE164 of
       None \<Rightarrow> jret False st
     | Some phone \<Rightarrow> if phone = [] then jret False st else send_text env tenantId contactId body phone st)"

definition apply_tag_port :: "string \<Rightarrow> string \<Rightarrow> string \<Rightarrow> unit job" where
  "apply_tag_port tenantId contactId key = (\<lambda>st.
     case applyTag (jn_tags st) tenantId contactId key ''journey'' of
       Inl e \<Rightarrow> jlift (Inl e) st
     | Inr tags \<Rightarrow> commit (\<lambda>st. st\<lparr>jn_tags := tags\<rparr>) st)"

definition executeAction :: "JourneyEnv \<Rightarrow> string \<Rightarrow> string \<Rightarrow> json \<Rightarrow> unit job" where
  "executeAction env tenantId contactId cfg =
     (case jstring (jget cfg ''kind'') of
        None \<Rightarrow> jret ()
      | Some kind \<Rightarrow>
          if kind = ''p2p_text''
          then andThen (sendToContact env tenantId contactId (stringOr (jv_js env) (jget cfg ''body'') [])) (\<lambda>_. jret ())
          else if kind = ''to_inbox''
          then andThen (commit (\<lambda>st. st\<lparr>jn_conversations :=
                  map (\<lambda>c. if cv_tenantId c = tenantId \<and> cv_contactId c = Some contactId then c\<lparr>cv_resolved := False\<rparr> else c)
                    (jn_conversations st)\<rparr>)) (\<lambda>_.
               emit (InboxInbound tenantId contactId))
          else if kind = ''tag''
          then andThen (if jv_contactTags env
                        then apply_tag_port tenantId contactId (stringOr (jv_js env) (jget cfg ''tag'') []) else jret ()) (\<lambda>_.
               emit (JourneyTagEvent tenantId contactId (stringOr (jv_js env) (jget cfg ''tag'') [])))
          else if kind = ''door_task'' then emit (DoorTask tenantId contactId)
          else jret ())"

definition wait_minutes :: "JourneyEnv \<Rightarrow> json \<Rightarrow> rat" where
  "wait_minutes env cfg = (case numberOr (jv_js env) (jget cfg ''minutes'') of None \<Rightarrow> 0 | Some m \<Rightarrow> m)"

definition run_wait ::
  "JourneyEnv \<Rightarrow> string \<Rightarrow> string \<Rightarrow> int \<Rightarrow> JourneyRung list \<Rightarrow> json \<Rightarrow> JourneyEnrolmentState job" where
  "run_wait env tenantId enrolmentId rungIndex rungs cfg = (\<lambda>st.
     (let minutes = wait_minutes env cfg; resumeAt = jn_now st + minutes * 60000; nextIndex = rungIndex + 1 in
      andThen (advance enrolmentId rungIndex) (\<lambda>_.
      if \<not> hasRung rungs nextIndex then finish tenantId enrolmentId COMPLETED
      else
        andThen (update_enrolment enrolmentId (\<lambda>e. e\<lparr>en_state := WAITING, en_resumeAt := Some resumeAt\<rparr>)) (\<lambda>_.
        andThen (if minutes \<le> MAX_INLINE_WAIT_MINUTES then enqueueRung enrolmentId nextIndex (Some resumeAt) else jret ()) (\<lambda>_.
        jret WAITING)))) st)"

definition run_rung :: "JourneyEnv \<Rightarrow> JourneyEnrolment \<Rightarrow> JourneyRung list \<Rightarrow> JourneyRung \<Rightarrow> JourneyEnrolmentState job" where
  "run_rung env enrolment rungs rung =
     (let cfg = ru_config rung; tenantId = en_tenantId enrolment; contactId = en_contactId enrolment; i = en_id enrolment;
          index = en_currentRungIndex enrolment in
      case ru_type rung of
        RungWait \<Rightarrow> run_wait env tenantId i index rungs cfg
      | RungCondition \<Rightarrow> (\<lambda>st.
          if \<not> evaluateCondition env st tenantId contactId cfg then finish tenantId i EXITED st
          else advanceOrComplete tenantId i index rungs st)
      | RungAction \<Rightarrow>
          andThen (executeAction env tenantId contactId cfg) (\<lambda>_. advanceOrComplete tenantId i index rungs))"

definition find_enrolment :: "JourneyStore \<Rightarrow> string \<Rightarrow> JourneyEnrolment option" where
  "find_enrolment st i = find (\<lambda>e. en_id e = i) (jn_enrolments st)"

definition rungs_of :: "JourneyStore \<Rightarrow> string \<Rightarrow> JourneyRung list" where
  "rungs_of st journeyId =
     (case find (\<lambda>j. jo_id j = journeyId) (jn_journeys st) of None \<Rightarrow> [] | Some j \<Rightarrow> jo_rungs j)"

definition begin_rung :: "string \<Rightarrow> unit job" where
  "begin_rung i = (\<lambda>st. update_enrolment i (\<lambda>e. e\<lparr>en_rungExecCount := en_rungExecCount e + 1,
     en_lastRungAt := Some (jn_now st), en_state := ACTIVE\<rparr>) st)"

definition processRungJob :: "JourneyEnv \<Rightarrow> string \<Rightarrow> int \<Rightarrow> JourneyEnrolmentState job" where
  "processRungJob env enrolmentId rungIndex = (\<lambda>st.
     case find_enrolment st enrolmentId of
       None \<Rightarrow> jret EXITED st
     | Some enrolment \<Rightarrow>
         if (en_state enrolment \<noteq> ACTIVE \<and> en_state enrolment \<noteq> WAITING) \<or> en_currentRungIndex enrolment \<noteq> rungIndex
         then jret (en_state enrolment) st
         else if en_rungExecCount enrolment \<ge> RUNG_EXEC_CEILING
         then finish (en_tenantId enrolment) (en_id enrolment) FAILED st
         else let rungs = rungs_of st (en_journeyId enrolment) in
           (case find (\<lambda>r. ru_rungIndex r = rungIndex) rungs of
              None \<Rightarrow> finish (en_tenantId enrolment) (en_id enrolment) COMPLETED st
            | Some rung \<Rightarrow>
                andThen (begin_rung (en_id enrolment)) (\<lambda>_. run_rung env enrolment rungs rung) st))"

section \<open>The sweep\<close>

definition due_enrolments :: "JourneyStore \<Rightarrow> nat \<Rightarrow> JourneyEnrolment list" where
  "due_enrolments st bounded =
     take bounded (sort_key (\<lambda>e. the (en_resumeAt e))
       (filter (\<lambda>e. en_state e = WAITING \<and> (case en_resumeAt e of None \<Rightarrow> False | Some t \<Rightarrow> t \<le> jn_now st)) (jn_enrolments st)))"

fun enqueue_due :: "JourneyEnrolment list \<Rightarrow> unit job" where
  "enqueue_due [] = jret ()"
| "enqueue_due (e # es) = andThen (enqueueRung (en_id e) (en_currentRungIndex e) None) (\<lambda>_. enqueue_due es)"

definition sweepDue :: "JourneyEnv \<Rightarrow> rat \<Rightarrow> nat job" where
  "sweepDue env limit = (\<lambda>st.
     if \<not> jv_enabled env then jret 0 st
     else (let bounded = nat (min (max 1 (js_trunc limit)) 100); due = due_enrolments st bounded in
           andThen (enqueue_due due) (\<lambda>_. jret (length due)) st))"

section \<open>The controller\<close>

record JourneyRungDto =
  rd_rungIndex :: "int option"
  rd_type :: JourneyRungType
  rd_config :: "json option"

record CreateJourneyDto =
  cj_name :: string
  cj_triggerType :: JourneyTriggerType
  cj_triggerConfig :: "json option"
  cj_reentryCooldownMinutes :: "int option"
  cj_maxActivePerContact :: "int option"
  cj_rungs :: "JourneyRungDto list option"

record UpdateJourneyDto =
  uj_name :: "string option"
  uj_triggerType :: "JourneyTriggerType option"
  uj_triggerConfig :: "json option"
  uj_reentryCooldownMinutes :: "int option"
  uj_maxActivePerContact :: "int option"
  uj_rungs :: "JourneyRungDto list option"

definition or_else :: "'a option \<Rightarrow> 'a \<Rightarrow> 'a" where
  "or_else v d = (case v of None \<Rightarrow> d | Some x \<Rightarrow> x)"

definition rung_rows :: "JourneyRungDto list \<Rightarrow> JourneyRung list" where
  "rung_rows dtos =
     map (\<lambda>(i, r). \<lparr>ru_rungIndex = or_else (rd_rungIndex r) (int i), ru_type = rd_type r, ru_config = or_else (rd_config r) (JObj [])\<rparr>)
       (enumerate 0 dtos)"

text \<open>A read orders the rungs by their index, which is unique within a journey.\<close>

definition ordered_rungs :: "JourneyRung list \<Rightarrow> JourneyRung list res" where
  "ordered_rungs rungs =
     (if distinct (map ru_rungIndex rungs) then Inr (sort_key ru_rungIndex rungs) else Inl UniqueViolation)"

definition create_journey :: "JourneyStore \<Rightarrow> string \<Rightarrow> string \<Rightarrow> CreateJourneyDto \<Rightarrow> (Journey \<times> JourneyStore) res" where
  "create_journey st newId tenantId dto =
     rbind (ordered_rungs (case cj_rungs dto of None \<Rightarrow> [] | Some rs \<Rightarrow> rung_rows rs)) (\<lambda>rungs.
       let journey = \<lparr>jo_id = newId, jo_tenantId = tenantId, jo_name = cj_name dto, jo_status = DRAFT,
             jo_triggerType = cj_triggerType dto, jo_triggerConfig = or_else (cj_triggerConfig dto) (JObj []),
             jo_reentryCooldownMinutes = or_else (cj_reentryCooldownMinutes dto) 0,
             jo_maxActivePerContact = or_else (cj_maxActivePerContact dto) 1, jo_rungs = rungs\<rparr> in
       Inr (journey, st\<lparr>jn_journeys := jn_journeys st @ [journey]\<rparr>))"

definition set_journey_status :: "JourneyStore \<Rightarrow> string \<Rightarrow> string \<Rightarrow> JourneyStatus \<Rightarrow> nat \<times> JourneyStore" where
  "set_journey_status st tenantId i status =
     (let hit = (\<lambda>j. jo_id j = i \<and> jo_tenantId j = tenantId) in
      (length (filter hit (jn_journeys st)),
       st\<lparr>jn_journeys := map (\<lambda>j. if hit j then j\<lparr>jo_status := status\<rparr> else j) (jn_journeys st)\<rparr>))"

definition update_journey :: "JourneyStore \<Rightarrow> string \<Rightarrow> string \<Rightarrow> UpdateJourneyDto \<Rightarrow> JourneyStore res" where
  "update_journey st tenantId i dto =
     (if \<not> list_ex (\<lambda>j. jo_id j = i \<and> jo_tenantId j = tenantId) (jn_journeys st)
      then Inl (apiHttpException ''JOURNEY_NOT_FOUND'' (Some 404))
      else
        let patch = (\<lambda>j. j\<lparr>jo_name := or_else (uj_name dto) (jo_name j),
              jo_triggerType := or_else (uj_triggerType dto) (jo_triggerType j),
              jo_triggerConfig := or_else (uj_triggerConfig dto) (jo_triggerConfig j),
              jo_reentryCooldownMinutes := or_else (uj_reentryCooldownMinutes dto) (jo_reentryCooldownMinutes j),
              jo_maxActivePerContact := or_else (uj_maxActivePerContact dto) (jo_maxActivePerContact j)\<rparr>) in
        case uj_rungs dto of
          None \<Rightarrow> Inr (st\<lparr>jn_journeys := map (\<lambda>j. if jo_id j = i then patch j else j) (jn_journeys st)\<rparr>)
        | Some rs \<Rightarrow>
            rbind (ordered_rungs (rung_rows rs)) (\<lambda>rungs.
              Inr (st\<lparr>jn_journeys := map (\<lambda>j. if jo_id j = i then (patch j)\<lparr>jo_rungs := rungs\<rparr> else j) (jn_journeys st)\<rparr>)))"

text \<open>Deleting a journey cascades to its rungs and enrolments; its queued jobs stay.\<close>

definition remove_journey :: "JourneyStore \<Rightarrow> string \<Rightarrow> string \<Rightarrow> JourneyStore res" where
  "remove_journey st tenantId i =
     (if \<not> list_ex (\<lambda>j. jo_id j = i \<and> jo_tenantId j = tenantId) (jn_journeys st)
      then Inl (apiHttpException ''JOURNEY_NOT_FOUND'' (Some 404))
      else Inr (st\<lparr>jn_journeys := filter (\<lambda>j. jo_id j \<noteq> i) (jn_journeys st),
                   jn_enrolments := filter (\<lambda>e. en_journeyId e \<noteq> i) (jn_enrolments st)\<rparr>))"

text \<open>Deleting a contact cascades to its enrolments too.\<close>

definition forget_contact :: "string \<Rightarrow> JourneyStore \<Rightarrow> JourneyStore" where
  "forget_contact contactId st = st\<lparr>jn_enrolments := filter (\<lambda>e. en_contactId e \<noteq> contactId) (jn_enrolments st)\<rparr>"

record JourneyStats =
  js_enrolled :: nat
  js_active :: nat
  js_waiting :: nat
  js_completed :: nat
  js_exited :: nat
  js_failed :: nat
  js_conversionPct :: int

definition js_round :: "rat \<Rightarrow> int" where
  "js_round q = \<lfloor>q + 1 / 2\<rfloor>"

definition journey_stats :: "JourneyStore \<Rightarrow> string \<Rightarrow> string \<Rightarrow> JourneyStats res" where
  "journey_stats st tenantId i =
     (if \<not> list_ex (\<lambda>j. jo_id j = i \<and> jo_tenantId j = tenantId) (jn_journeys st)
      then Inl (apiHttpException ''JOURNEY_NOT_FOUND'' (Some 404))
      else
        let mine = filter (\<lambda>e. en_journeyId e = i) (jn_enrolments st);
            count = (\<lambda>s. length (filter (\<lambda>e. en_state e = s) mine));
            enrolled = length mine; completed = count COMPLETED in
        Inr \<lparr>js_enrolled = enrolled, js_active = count ACTIVE, js_waiting = count WAITING, js_completed = completed,
             js_exited = count EXITED, js_failed = count FAILED,
             js_conversionPct = (if enrolled > 0 then js_round (of_nat completed / of_nat enrolled * 100) else 0)\<rparr>)"

text \<open>The funnel partitions the enrolments, and the conversion is a percentage.\<close>

lemma stats_partition:
  assumes "journey_stats st tenantId i = Inr s"
  shows "js_enrolled s = js_active s + js_waiting s + js_completed s + js_exited s + js_failed s \<and>
    0 \<le> js_conversionPct s \<and> js_conversionPct s \<le> 100"
proof -
  define mine where "mine = filter (\<lambda>e. en_journeyId e = i) (jn_enrolments st)"
  define c where "c = length (filter (\<lambda>e. en_state e = COMPLETED) mine)"
  have le: "c \<le> length mine" by (simp add: c_def)
  have pct: "0 \<le> js_round (of_nat c / of_nat n * 100) \<and> js_round (of_nat c / of_nat n * 100) \<le> 100" if "c \<le> n" "0 < n" for n
  proof -
    have "(of_nat c :: rat) / of_nat n \<le> 1" using that by simp
    moreover have "0 \<le> (of_nat c :: rat) / of_nat n" by simp
    ultimately show ?thesis unfolding js_round_def by (auto simp: floor_le_iff)
  qed
  have s: "s = \<lparr>js_enrolled = length mine, js_active = length (filter (\<lambda>e. en_state e = ACTIVE) mine),
      js_waiting = length (filter (\<lambda>e. en_state e = WAITING) mine), js_completed = c,
      js_exited = length (filter (\<lambda>e. en_state e = EXITED) mine), js_failed = length (filter (\<lambda>e. en_state e = FAILED) mine),
      js_conversionPct = (if length mine > 0 then js_round (of_nat c / of_nat (length mine) * 100) else 0)\<rparr>"
    using assms unfolding journey_stats_def Let_def mine_def c_def by (simp split: if_split_asm)
  have part: "length es = length (filter (\<lambda>e. en_state e = ACTIVE) es) + length (filter (\<lambda>e. en_state e = WAITING) es) +
      length (filter (\<lambda>e. en_state e = COMPLETED) es) + length (filter (\<lambda>e. en_state e = EXITED) es) +
      length (filter (\<lambda>e. en_state e = FAILED) es)" for es :: "JourneyEnrolment list"
  proof (induction es)
    case (Cons e es)
    then show ?case by (cases "en_state e") simp_all
  qed simp
  show ?thesis using part [of mine] pct [OF le] le by (simp add: s c_def)
qed

section \<open>What a handler may leave behind\<close>

text \<open>The weakest precondition of a postcondition on the answer and the store; a commit may crash.\<close>

definition wp :: "'a job \<Rightarrow> (stop + 'a \<Rightarrow> JourneyStore \<Rightarrow> bool) \<Rightarrow> JourneyStore \<Rightarrow> bool" where
  "wp m Q st \<longleftrightarrow> (case m st of (r, st') \<Rightarrow> Q r st')"

named_theorems wp_intro

lemma wp_jret [wp_intro]: "Q (Inr x) st \<Longrightarrow> wp (jret x) Q st"
  by (simp add: wp_def jret_def)

lemma wp_andThen [wp_intro]:
  "wp m (\<lambda>r s. case r of Inl e \<Rightarrow> Q (Inl e) s | Inr x \<Rightarrow> wp (f x) Q s) st \<Longrightarrow> wp (andThen m f) Q st"
  by (auto simp: wp_def andThen_def split: prod.splits sum.splits)

lemma wp_commit [wp_intro]:
  "(jn_budget st \<noteq> None \<Longrightarrow> Q (Inl Crashed) st) \<Longrightarrow>
   (\<And>b. (b = None) = (jn_budget st = None) \<Longrightarrow> Q (Inr ()) ((f st)\<lparr>jn_budget := b\<rparr>)) \<Longrightarrow>
   (jn_budget (f st) = jn_budget st) \<Longrightarrow> wp (commit f) Q st"
proof -
  assume a: "jn_budget st \<noteq> None \<Longrightarrow> Q (Inl Crashed) st"
    "\<And>b. (b = None) = (jn_budget st = None) \<Longrightarrow> Q (Inr ()) ((f st)\<lparr>jn_budget := b\<rparr>)" "jn_budget (f st) = jn_budget st"
  show ?thesis
  proof (cases "jn_budget st")
    case None
    then have "(f st)\<lparr>jn_budget := None\<rparr> = f st" using a(3) by (cases "f st") simp
    then show ?thesis using a(2) [of None] None by (simp add: wp_def commit_def)
  next
    case (Some n)
    then show ?thesis using a(1) a(2) [of "Some (n - 1)"] by (cases n) (simp_all add: wp_def commit_def)
  qed
qed

lemma wp_emit [wp_intro]: "Q (Inr ()) (st\<lparr>jn_events := jn_events st @ [ev]\<rparr>) \<Longrightarrow> wp (emit ev) Q st"
  by (simp add: wp_def emit_def)

lemma wp_jlift [wp_intro]:
  "(\<And>e. r = Inl e \<Longrightarrow> Q (Inl (Thrown e)) st) \<Longrightarrow> (\<And>x. r = Inr x \<Longrightarrow> Q (Inr x) st) \<Longrightarrow> wp (jlift r) Q st"
  by (auto simp: wp_def jlift_def split: sum.splits)

lemma wp_mono: "wp m Q st \<Longrightarrow> (\<And>r s. Q r s \<Longrightarrow> Q' r s) \<Longrightarrow> wp m Q' st"
  by (auto simp: wp_def)

lemma wpD: "wp m Q st \<Longrightarrow> m st = (r, st') \<Longrightarrow> Q r st'"
  by (simp add: wp_def)

text \<open>The part of the store the enrolments' life depends on.\<close>

definition same_core :: "JourneyStore \<Rightarrow> JourneyStore \<Rightarrow> bool" where
  "same_core s s' \<longleftrightarrow> jn_enrolments s' = jn_enrolments s \<and> jn_jobs s' = jn_jobs s \<and> jn_journeys s' = jn_journeys s \<and>
     jn_nextId s' = jn_nextId s \<and> jn_now s' = jn_now s \<and> (jn_budget s' = None \<longleftrightarrow> jn_budget s = None)"

lemma same_core_refl [simp]: "same_core s s"
  by (simp add: same_core_def)

lemma same_core_trans: "same_core s s' \<Longrightarrow> same_core s' s'' \<Longrightarrow> same_core s s''"
  by (simp add: same_core_def)

definition keeps_core :: "'a job \<Rightarrow> bool" where
  "keeps_core m \<longleftrightarrow> (\<forall>st. wp m (\<lambda>r s. same_core st s \<and> (jn_budget st = None \<longrightarrow> r \<noteq> Inl Crashed)) st)"

lemma keeps_jret [simp]: "keeps_core (jret x)"
  by (simp add: keeps_core_def wp_def jret_def)

lemma keeps_jlift [simp]: "keeps_core (jlift r)"
  by (auto simp: keeps_core_def wp_def jlift_def split: sum.split)

lemma keeps_emit [simp]: "keeps_core (emit ev)"
  by (simp add: keeps_core_def wp_def emit_def same_core_def)

lemma keeps_commit:
  "(\<And>s. same_core s (f s) \<and> jn_budget (f s) = jn_budget s) \<Longrightarrow> keeps_core (commit f)"
  unfolding keeps_core_def
proof (intro allI wp_commit)
  fix st :: JourneyStore and b :: "nat option"
  assume f: "\<And>s. same_core s (f s) \<and> jn_budget (f s) = jn_budget s" and "(b = None) = (jn_budget st = None)"
  then show "same_core st ((f st)\<lparr>jn_budget := b\<rparr>) \<and> (jn_budget st = None \<longrightarrow> Inr () \<noteq> Inl Crashed)"
    using f [of st] by (simp add: same_core_def)
qed auto

lemma keeps_andThen:
  assumes "keeps_core m" "\<And>x. keeps_core (f x)"
  shows "keeps_core (andThen m f)"
  unfolding keeps_core_def
proof (intro allI wp_andThen)
  fix st
  obtain r s where m: "m st = (r, s)" by (cases "m st")
  have k: "same_core st s" "jn_budget st = None \<longrightarrow> r \<noteq> Inl Crashed"
    using assms(1) [unfolded keeps_core_def wp_def, rule_format, of st] m by simp_all
  have "wp (f x) (\<lambda>r s'. same_core st s' \<and> (jn_budget st = None \<longrightarrow> r \<noteq> Inl Crashed)) s" for x
    by (rule wp_mono [OF assms(2) [unfolded keeps_core_def, rule_format]])
      (use k(1) in \<open>auto simp: same_core_def\<close>)
  then show "wp m (\<lambda>r s. case r of
        Inl e \<Rightarrow> same_core st s \<and> (jn_budget st = None \<longrightarrow> Inl e \<noteq> Inl Crashed)
      | Inr x \<Rightarrow> wp (f x) (\<lambda>r s. same_core st s \<and> (jn_budget st = None \<longrightarrow> r \<noteq> Inl Crashed)) s) st"
    using k by (cases r) (auto simp: wp_def [of m] m)
qed

text \<open>A handler that reads the store first: its body at the store it reads keeps the core.\<close>

lemma keeps_at: "(\<And>st. \<exists>m'. m st = m' st \<and> keeps_core m') \<Longrightarrow> keeps_core m"
  unfolding keeps_core_def wp_def by metis

lemma keeps_twilio: "keeps_core (twilio_send env ten to body sender)"
proof (rule keeps_at)
  fix st :: JourneyStore
  let ?r = "jv_twilio env (length (jn_texts st)) to body sender"
  let ?m = "case ?r of Inl e \<Rightarrow> andThen (commit (\<lambda>st. st)) (\<lambda>_. jlift (Inl e))
    | Inr sent \<Rightarrow> andThen (commit (\<lambda>st. st\<lparr>jn_texts := jn_texts st @ [(ten, to, body)]\<rparr>)) (\<lambda>_. jret sent)"
  have "twilio_send env ten to body sender st = ?m st" by (simp add: twilio_send_def split: sum.split)
  moreover have "keeps_core ?m"
    by (auto split: sum.split intro!: keeps_andThen keeps_commit simp: same_core_def)
  ultimately show "\<exists>m'. twilio_send env ten to body sender st = m' st \<and> keeps_core m'" by blast
qed

lemma keeps_create_message: "keeps_core (create_message row)"
proof (rule keeps_at)
  fix st :: JourneyStore
  have "create_message row st = jlift (Inl UniqueViolation) st \<or>
      create_message row st = commit (\<lambda>st. st\<lparr>jn_messages := jn_messages st @ [row]\<rparr>) st"
    by (simp add: create_message_def)
  moreover have "keeps_core (commit (\<lambda>st. st\<lparr>jn_messages := jn_messages st @ [row]\<rparr>))"
    by (rule keeps_commit) (simp add: same_core_def)
  ultimately show "\<exists>m'. create_message row st = m' st \<and> keeps_core m'"
    by (elim disjE) (rule exI, rule conjI, assumption, simp)+
qed

lemma keeps_send_text: "keeps_core (send_text env ten c body phone)"
  unfolding send_text_def
  by (intro keeps_andThen keeps_jlift keeps_twilio keeps_emit keeps_jret keeps_create_message)

lemma keeps_sendToContact: "keeps_core (sendToContact env ten c body)"
proof (rule keeps_at)
  fix st :: JourneyStore
  have "sendToContact env ten c body st = jret False st \<or> (\<exists>phone. sendToContact env ten c body st = send_text env ten c body phone st)"
    by (auto simp: sendToContact_def split: option.split)
  then show "\<exists>m'. sendToContact env ten c body st = m' st \<and> keeps_core m'"
    using keeps_jret keeps_send_text by metis
qed

lemma keeps_apply_tag: "keeps_core (apply_tag_port ten c key)"
proof (rule keeps_at)
  fix st :: JourneyStore
  let ?m = "case applyTag (jn_tags st) ten c key ''journey'' of Inl e \<Rightarrow> jlift (Inl e)
    | Inr tags \<Rightarrow> commit (\<lambda>st. st\<lparr>jn_tags := tags\<rparr>)"
  have "apply_tag_port ten c key st = ?m st" by (simp add: apply_tag_port_def split: sum.split)
  moreover have "keeps_core ?m" by (auto split: sum.split intro!: keeps_commit simp: same_core_def)
  ultimately show "\<exists>m'. apply_tag_port ten c key st = m' st \<and> keeps_core m'" by blast
qed

lemma keeps_reopen:
  "keeps_core (commit (\<lambda>st. st\<lparr>jn_conversations := map f (jn_conversations st)\<rparr>))"
  by (rule keeps_commit) (simp add: same_core_def)

lemma keeps_executeAction: "keeps_core (executeAction env ten c cfg)"
proof -
  have t: "keeps_core (if b then apply_tag_port ten c key else jret ())" for b key
    by (simp add: keeps_apply_tag)
  show ?thesis
    unfolding executeAction_def
    by (cases "jstring (jget cfg ''kind'')")
      (simp_all add: keeps_andThen keeps_sendToContact keeps_reopen t)
qed

section \<open>The shapes of a rung job\<close>

datatype enrolment_write = Begin | Advance int | Finish JourneyEnrolmentState | Park rat

fun apply_write :: "rat \<Rightarrow> enrolment_write \<Rightarrow> JourneyEnrolment \<Rightarrow> JourneyEnrolment" where
  "apply_write now Begin e =
     e\<lparr>en_rungExecCount := en_rungExecCount e + 1, en_lastRungAt := Some now, en_state := ACTIVE\<rparr>"
| "apply_write now (Advance index) e = e\<lparr>en_currentRungIndex := index + 1\<rparr>"
| "apply_write now (Finish s) e = e\<lparr>en_state := s, en_completedAt := Some now\<rparr>"
| "apply_write now (Park t) e = e\<lparr>en_state := WAITING, en_resumeAt := Some t\<rparr>"

definition apply_writes :: "rat \<Rightarrow> enrolment_write list \<Rightarrow> JourneyEnrolment \<Rightarrow> JourneyEnrolment" where
  "apply_writes now ws e = fold (apply_write now) ws e"

text \<open>The store after the writes \<open>ws\<close> to the enrolment \<open>i\<close> and the enqueueing, if any, of the rung \<open>k\<close>.\<close>

definition effect ::
  "JourneyStore \<Rightarrow> string \<Rightarrow> enrolment_write list \<Rightarrow> (int \<times> rat option) option \<Rightarrow> JourneyStore \<Rightarrow> bool" where
  "effect st i ws add st' \<longleftrightarrow>
     jn_enrolments st' = map (\<lambda>e. if en_id e = i then apply_writes (jn_now st) ws e else e) (jn_enrolments st) \<and>
     jn_jobs st' = (case add of None \<Rightarrow> jn_jobs st
                    | Some (k, ra) \<Rightarrow> jn_jobs (enqueue_job (getJourneyRungJobId i k) i k ra st)) \<and>
     jn_journeys st' = jn_journeys st \<and> jn_nextId st' = jn_nextId st \<and> jn_now st' = jn_now st \<and>
     (jn_budget st' = None \<longleftrightarrow> jn_budget st = None)"

lemma effect_refl: "effect st i [] None st"
  by (simp add: effect_def apply_writes_def map_idI)

lemma effect_core: "effect st i ws add s \<Longrightarrow> same_core s s' \<Longrightarrow> effect st i ws add s'"
  by (simp add: effect_def same_core_def)

lemma apply_write_id [simp]: "en_id (apply_write now w e) = en_id e"
  by (cases w) auto

lemma apply_writes_id [simp]: "en_id (apply_writes now ws e) = en_id e"
  unfolding apply_writes_def by (induction ws arbitrary: e) auto

lemma apply_writes_simps [simp]:
  "apply_writes now [] e = e" "apply_writes now (w # ws) e = apply_writes now ws (apply_write now w e)"
  by (simp_all add: apply_writes_def)

lemma apply_writes_snoc: "apply_writes now (ws @ [w]) e = apply_write now w (apply_writes now ws e)"
  by (simp add: apply_writes_def)

lemma wp_update:
  assumes "effect st i ws None s" "\<And>e. f e = apply_write (jn_now s) w e"
    and "jn_budget s \<noteq> None \<Longrightarrow> Q (Inl Crashed) s"
    and "\<And>s'. effect st i (ws @ [w]) None s' \<Longrightarrow> Q (Inr ()) s'"
  shows "wp (update_enrolment i f) Q s"
  unfolding update_enrolment_def
  by (rule wp_commit) (use assms(1-3) in \<open>auto simp: effect_def apply_writes_snoc intro!: assms(4)\<close>)

lemma wp_enqueue:
  assumes "effect st i ws None s" "jn_budget s \<noteq> None \<Longrightarrow> Q (Inl Crashed) s"
    and "\<And>s'. effect st i ws (Some (k, ra)) s' \<Longrightarrow> Q (Inr ()) s'"
  shows "wp (enqueueRung i k ra) Q s"
  unfolding enqueueRung_def
  by (rule wp_commit)
    (use assms(1,2) in \<open>auto simp: effect_def enqueue_job_def Let_def intro!: assms(3) split: option.splits\<close>)

text \<open>The shapes in which a job leaves its enrolment, for the rungs of its journey and the index it runs.\<close>

inductive rung_shape ::
  "rat \<Rightarrow> JourneyRung list \<Rightarrow> int \<Rightarrow> int \<Rightarrow> enrolment_write list \<Rightarrow> (int \<times> rat option) option \<Rightarrow>
   stop + JourneyEnrolmentState \<Rightarrow> bool"
  for now :: rat and rungs :: "JourneyRung list" and execs :: int and k :: int where
  died: "rung_shape now rungs execs k [] None (Inl Crashed)"
| ceiling: "execs \<ge> RUNG_EXEC_CEILING \<Longrightarrow> rung_shape now rungs execs k [Finish FAILED] None (Inr FAILED)"
| ended: "\<not> hasRung rungs k \<Longrightarrow> rung_shape now rungs execs k [Finish COMPLETED] None (Inr COMPLETED)"
| begun: "execs < RUNG_EXEC_CEILING \<Longrightarrow> hasRung rungs k \<Longrightarrow> rung_shape now rungs execs k [Begin] None (Inl e)"
| exited: "execs < RUNG_EXEC_CEILING \<Longrightarrow> hasRung rungs k \<Longrightarrow>
     rung_shape now rungs execs k [Begin, Finish EXITED] None (Inr EXITED)"
| advanced: "execs < RUNG_EXEC_CEILING \<Longrightarrow> hasRung rungs k \<Longrightarrow>
     rung_shape now rungs execs k [Begin, Advance k] None (Inl Crashed)"
| completed: "execs < RUNG_EXEC_CEILING \<Longrightarrow> hasRung rungs k \<Longrightarrow> \<not> hasRung rungs (k + 1) \<Longrightarrow>
     rung_shape now rungs execs k [Begin, Advance k, Finish COMPLETED] None (Inr COMPLETED)"
| moved: "execs < RUNG_EXEC_CEILING \<Longrightarrow> hasRung rungs k \<Longrightarrow> hasRung rungs (k + 1) \<Longrightarrow>
     rung_shape now rungs execs k [Begin, Advance k] (Some (k + 1, None)) (Inr ACTIVE)"
| parked: "execs < RUNG_EXEC_CEILING \<Longrightarrow> hasRung rungs k \<Longrightarrow> r \<in> {Inl Crashed, Inr WAITING} \<Longrightarrow>
     rung_shape now rungs execs k [Begin, Advance k, Park t] None r"
| timed: "execs < RUNG_EXEC_CEILING \<Longrightarrow> hasRung rungs k \<Longrightarrow>
     rung_shape now rungs execs k [Begin, Advance k, Park t] (Some (k + 1, Some t)) (Inr WAITING)"

definition shaped ::
  "JourneyStore \<Rightarrow> JourneyEnrolment \<Rightarrow> stop + JourneyEnrolmentState \<Rightarrow> JourneyStore \<Rightarrow> bool" where
  "shaped st e r st' \<longleftrightarrow>
     (\<exists>ws add. rung_shape (jn_now st) (rungs_of st (en_journeyId e)) (en_rungExecCount e) (en_currentRungIndex e) ws add r \<and>
        effect st (en_id e) ws add st' \<and> (jn_budget st = None \<longrightarrow> r \<noteq> Inl Crashed))"

lemma shapedI:
  "rung_shape (jn_now st) (rungs_of st (en_journeyId e)) (en_rungExecCount e) (en_currentRungIndex e) ws add r \<Longrightarrow>
   effect st (en_id e) ws add st' \<Longrightarrow> (jn_budget st' = None \<Longrightarrow> r \<noteq> Inl Crashed) \<Longrightarrow> shaped st e r st'"
  unfolding shaped_def by (metis effect_def)

lemma wp_finish:
  assumes "effect st i ws None s" "jn_budget s \<noteq> None \<Longrightarrow> Q (Inl Crashed) s"
    and "\<And>s'. effect st i (ws @ [Finish x]) None s' \<Longrightarrow> Q (Inr x) s'"
  shows "wp (finish ten i x) Q s"
proof -
  have "wp (andThen (update_enrolment i (\<lambda>e. e\<lparr>en_state := x, en_completedAt := Some (jn_now s)\<rparr>)) (\<lambda>_.
     andThen (emit (EnrolmentUpdated ten i x)) (\<lambda>_. jret x))) Q s"
    by (rule wp_andThen, rule wp_update [OF assms(1), where w = "Finish x"])
      (auto intro!: wp_andThen wp_emit wp_jret assms(2,3) elim!: effect_core simp: same_core_def)
  then show ?thesis by (simp add: wp_def finish_def)
qed

lemma wp_advance:
  assumes "effect st i ws None s" "jn_budget s \<noteq> None \<Longrightarrow> Q (Inl Crashed) s"
    and "\<And>s'. effect st i (ws @ [Advance k]) None s' \<Longrightarrow> Q (Inr ()) s'"
  shows "wp (advance i k) Q s"
  unfolding advance_def using assms by (intro wp_update [where w = "Advance k"]) auto

lemma wp_action:
  assumes "effect st i ws None s" "\<And>e s'. effect st i ws None s' \<Longrightarrow> (jn_budget s' = None \<Longrightarrow> e \<noteq> Crashed) \<Longrightarrow> Q (Inl e) s'"
    and "\<And>s'. effect st i ws None s' \<Longrightarrow> Q (Inr ()) s'"
  shows "wp (executeAction env ten c cfg) Q s"
proof (rule wp_mono [OF keeps_executeAction [unfolded keeps_core_def, rule_format]])
  fix r :: "stop + unit" and s' assume k: "same_core s s' \<and> (jn_budget s = None \<longrightarrow> r \<noteq> Inl Crashed)"
  then have eff: "effect st i ws None s'" using effect_core assms(1) by blast
  show "Q r s'"
  proof (cases r)
    case (Inl x)
    then show ?thesis using assms(2) [OF eff, of x] k by (auto simp: same_core_def)
  qed (simp add: assms(3) [OF eff])
qed

lemma crash_shaped:
  "rung_shape (jn_now st) (rungs_of st (en_journeyId e)) (en_rungExecCount e) (en_currentRungIndex e) ws None (Inl Crashed) \<Longrightarrow>
   effect st (en_id e) ws None s \<Longrightarrow> jn_budget s \<noteq> None \<Longrightarrow> shaped st e (Inl Crashed) s"
  by (rule shapedI) auto

lemma advanceOrComplete_shaped:
  assumes "effect st (en_id e) [Begin] None s"
    and g: "en_rungExecCount e < RUNG_EXEC_CEILING" "hasRung (rungs_of st (en_journeyId e)) (en_currentRungIndex e)"
  shows "wp (advanceOrComplete ten (en_id e) (en_currentRungIndex e) (rungs_of st (en_journeyId e))) (shaped st e) s"
proof -
  let ?rungs = "rungs_of st (en_journeyId e)" and ?k = "en_currentRungIndex e"
  have "wp (if \<not> hasRung ?rungs (?k + 1) then finish ten (en_id e) COMPLETED
      else andThen (enqueueRung (en_id e) (?k + 1) None) (\<lambda>_. jret ACTIVE)) (shaped st e) s'"
    if s': "effect st (en_id e) [Begin, Advance ?k] None s'" for s'
  proof (cases "hasRung ?rungs (?k + 1)")
    case False
    have "wp (finish ten (en_id e) COMPLETED) (shaped st e) s'"
      by (rule wp_finish [OF s'])
        (auto intro: crash_shaped [OF rung_shape.advanced [OF g] s'] shapedI [OF rung_shape.completed [OF g False]])
    then show ?thesis using False by simp
  next
    case True
    have "wp (andThen (enqueueRung (en_id e) (?k + 1) None) (\<lambda>_. jret ACTIVE)) (shaped st e) s'"
      by (rule wp_andThen, rule wp_enqueue [OF s'])
        (auto intro!: wp_jret intro: crash_shaped [OF rung_shape.advanced [OF g] s'] shapedI [OF rung_shape.moved [OF g True]])
    then show ?thesis using True by simp
  qed
  then show ?thesis
    unfolding advanceOrComplete_def Let_def
    by (intro wp_andThen wp_advance [OF assms(1)]) (auto intro: crash_shaped [OF rung_shape.begun [OF g] assms(1)])
qed

lemma run_wait_shaped:
  assumes "effect st (en_id e) [Begin] None s"
    and g: "en_rungExecCount e < RUNG_EXEC_CEILING" "hasRung (rungs_of st (en_journeyId e)) (en_currentRungIndex e)"
  shows "wp (run_wait env ten (en_id e) (en_currentRungIndex e) (rungs_of st (en_journeyId e)) cfg) (shaped st e) s"
proof -
  let ?rungs = "rungs_of st (en_journeyId e)" and ?k = "en_currentRungIndex e"
  define t where "t = jn_now s + wait_minutes env cfg * 60000"
  have *: "wp (if \<not> hasRung ?rungs (?k + 1) then finish ten (en_id e) COMPLETED
      else andThen (update_enrolment (en_id e) (\<lambda>e. e\<lparr>en_state := WAITING, en_resumeAt := Some t\<rparr>)) (\<lambda>_.
        andThen (if b then enqueueRung (en_id e) (?k + 1) (Some t) else jret ()) (\<lambda>_. jret WAITING))) (shaped st e) s'"
    if s': "effect st (en_id e) [Begin, Advance ?k] None s'" for s' b
  proof (cases "hasRung ?rungs (?k + 1)")
    case False
    have "wp (finish ten (en_id e) COMPLETED) (shaped st e) s'"
      by (rule wp_finish [OF s'])
        (auto intro: crash_shaped [OF rung_shape.advanced [OF g] s'] shapedI [OF rung_shape.completed [OF g False]])
    then show ?thesis using False by simp
  next
    case True
    have q: "wp (andThen (enqueueRung (en_id e) (?k + 1) (Some t)) (\<lambda>_. jret WAITING)) (shaped st e) s''"
      "wp (andThen (jret ()) (\<lambda>_. jret WAITING)) (shaped st e) s''"
      if s'': "effect st (en_id e) [Begin, Advance ?k, Park t] None s''" for s''
    proof -
      show "wp (andThen (enqueueRung (en_id e) (?k + 1) (Some t)) (\<lambda>_. jret WAITING)) (shaped st e) s''"
        by (rule wp_andThen, rule wp_enqueue [OF s''])
          (auto intro!: wp_jret intro: crash_shaped [OF rung_shape.parked [OF g] s''] shapedI [OF rung_shape.timed [OF g]])
      show "wp (andThen (jret ()) (\<lambda>_. jret WAITING)) (shaped st e) s''"
        by (auto intro!: wp_andThen wp_jret intro: shapedI [OF rung_shape.parked [OF g] s''])
    qed
    have "wp (andThen (update_enrolment (en_id e) (\<lambda>e. e\<lparr>en_state := WAITING, en_resumeAt := Some t\<rparr>)) (\<lambda>_.
        andThen (if b then enqueueRung (en_id e) (?k + 1) (Some t) else jret ()) (\<lambda>_. jret WAITING))) (shaped st e) s'"
      by (intro wp_andThen wp_update [OF s', where w = "Park t"])
        (auto intro: q crash_shaped [OF rung_shape.advanced [OF g] s'])
    then show ?thesis using True by simp
  qed
  have "wp (andThen (advance (en_id e) ?k) (\<lambda>_. if \<not> hasRung ?rungs (?k + 1) then finish ten (en_id e) COMPLETED
      else andThen (update_enrolment (en_id e) (\<lambda>e. e\<lparr>en_state := WAITING, en_resumeAt := Some t\<rparr>)) (\<lambda>_.
        andThen (if b then enqueueRung (en_id e) (?k + 1) (Some t) else jret ()) (\<lambda>_. jret WAITING)))) (shaped st e) s" for b
    by (intro wp_andThen wp_advance [OF assms(1)]) (auto simp: * intro: crash_shaped [OF rung_shape.begun [OF g] assms(1)])
  then show ?thesis unfolding wp_def run_wait_def Let_def t_def .
qed

lemma find_rung: "find (\<lambda>r. ru_rungIndex r = k) rungs = Some rung \<Longrightarrow> hasRung rungs k"
  "find (\<lambda>r. ru_rungIndex r = k) rungs = None \<Longrightarrow> \<not> hasRung rungs k"
  by (auto simp: hasRung_def list_ex_iff find_None_all dest: find_Some_in)

text \<open>A job on a live enrolment at its own index leaves one of the shapes; any other job changes nothing.\<close>

lemma process_shaped:
  assumes "find_enrolment st i = Some e" "is_live (en_state e)" "en_currentRungIndex e = k"
  shows "wp (processRungJob env i k) (shaped st e) st"
proof -
  let ?rungs = "rungs_of st (en_journeyId e)"
  have i: "en_id e = i" using assms(1) by (auto simp: find_enrolment_def dest: find_Some_in)
  have none: "effect st (en_id e) [] None st" by (rule effect_refl)
  have died: "shaped st e (Inl Crashed) st" if "jn_budget st \<noteq> None"
    by (rule crash_shaped [OF rung_shape.died none that])
  show ?thesis
  proof (cases "en_rungExecCount e \<ge> RUNG_EXEC_CEILING")
    case True
    have "wp (finish (en_tenantId e) (en_id e) FAILED) (shaped st e) st"
      by (rule wp_finish [OF none]) (auto intro: died shapedI [OF rung_shape.ceiling [OF True]])
    moreover have "processRungJob env i k st = finish (en_tenantId e) (en_id e) FAILED st"
      using assms True by (auto simp: processRungJob_def is_live_def)
    ultimately show ?thesis by (simp add: wp_def)
  next
    case False
    then have lt: "en_rungExecCount e < RUNG_EXEC_CEILING" by simp
    show ?thesis
    proof (cases "find (\<lambda>r. ru_rungIndex r = k) ?rungs")
      case None
      have "wp (finish (en_tenantId e) (en_id e) COMPLETED) (shaped st e) st"
        by (rule wp_finish [OF none])
          (use find_rung(2) [OF None] assms(3) in \<open>auto intro: died shapedI [OF rung_shape.ended]\<close>)
      moreover have "processRungJob env i k st = finish (en_tenantId e) (en_id e) COMPLETED st"
        using assms None False by (auto simp: processRungJob_def is_live_def Let_def)
      ultimately show ?thesis by (simp add: wp_def)
    next
      case (Some rung)
      have g: "hasRung ?rungs (en_currentRungIndex e)" using find_rung(1) [OF Some] assms(3) by simp
      have run: "wp (run_rung env e ?rungs rung) (shaped st e) s" if s: "effect st (en_id e) [Begin] None s" for s
      proof (cases "ru_type rung")
        case RungWait
        then show ?thesis using run_wait_shaped [OF s lt g] by (simp add: run_rung_def)
      next
        case RungCondition
        have "wp (finish (en_tenantId e) (en_id e) EXITED) (shaped st e) s"
          by (rule wp_finish [OF s])
            (auto intro: crash_shaped [OF rung_shape.begun [OF lt g] s] shapedI [OF rung_shape.exited [OF lt g]])
        then show ?thesis
          using advanceOrComplete_shaped [OF s lt g] RungCondition by (simp add: run_rung_def wp_def Let_def)
      next
        case RungAction
        have "wp (andThen (executeAction env (en_tenantId e) (en_contactId e) (ru_config rung)) (\<lambda>_.
            advanceOrComplete (en_tenantId e) (en_id e) (en_currentRungIndex e) ?rungs)) (shaped st e) s"
          by (rule wp_andThen, rule wp_action [OF s])
            (auto intro: shapedI [OF rung_shape.begun [OF lt g]] advanceOrComplete_shaped [OF _ lt g])
        then show ?thesis using RungAction by (simp add: run_rung_def Let_def)
      qed
      have "wp (andThen (begin_rung (en_id e)) (\<lambda>_. run_rung env e ?rungs rung)) (shaped st e) st"
      proof (rule wp_andThen)
        have "wp (update_enrolment (en_id e) (\<lambda>e. e\<lparr>en_rungExecCount := en_rungExecCount e + 1,
            en_lastRungAt := Some (jn_now st), en_state := ACTIVE\<rparr>))
          (\<lambda>r s. case r of Inl e' \<Rightarrow> shaped st e (Inl e') s | Inr x \<Rightarrow> wp (run_rung env e ?rungs rung) (shaped st e) s) st"
          by (rule wp_update [OF none, where w = Begin]) (auto intro: died run)
        then show "wp (begin_rung (en_id e))
          (\<lambda>r s. case r of Inl e' \<Rightarrow> shaped st e (Inl e') s | Inr x \<Rightarrow> wp (run_rung env e ?rungs rung) (shaped st e) s) st"
          by (simp add: wp_def begin_rung_def)
      qed
      moreover have "processRungJob env i k st = andThen (begin_rung (en_id e)) (\<lambda>_. run_rung env e ?rungs rung) st"
        using assms Some False by (auto simp: processRungJob_def is_live_def Let_def)
      ultimately show ?thesis by (simp add: wp_def)
    qed
  qed
qed

lemma process_stale:
  assumes "find_enrolment st i = Some e" "\<not> (is_live (en_state e) \<and> en_currentRungIndex e = k)"
  shows "processRungJob env i k st = (Inr (en_state e), st)"
  using assms by (auto simp: processRungJob_def jret_def is_live_def)

lemma process_gone: "find_enrolment st i = None \<Longrightarrow> processRungJob env i k st = (Inr EXITED, st)"
  by (simp add: processRungJob_def jret_def)

section \<open>The machine\<close>

text \<open>A delivery's end: a job that answered is removed; one that threw or died is retried, or given up and kept
  as failed.\<close>

definition settle :: "RungJob \<Rightarrow> bool \<Rightarrow> stop + JourneyEnrolmentState \<Rightarrow> JourneyStore \<Rightarrow> JourneyStore" where
  "settle j gaveUp r st =
     (case r of
        Inr s \<Rightarrow> st\<lparr>jn_jobs := filter (\<lambda>x. jb_id x \<noteq> jb_id j) (jn_jobs st)\<rparr>
      | Inl e \<Rightarrow> st\<lparr>jn_jobs := map (\<lambda>x. if jb_id x = jb_id j then x\<lparr>jb_failed := jb_failed x \<or> gaveUp\<rparr> else x) (jn_jobs st)\<rparr>)"

definition deliverable :: "JourneyStore \<Rightarrow> RungJob \<Rightarrow> bool" where
  "deliverable st j \<longleftrightarrow> j \<in> set (jn_jobs st) \<and> \<not> jb_failed j \<and> jb_availableAt j \<le> jn_now st"

definition deliver :: "JourneyEnv \<Rightarrow> RungJob \<Rightarrow> bool \<Rightarrow> JourneyStore \<Rightarrow> JourneyStore" where
  "deliver env j gaveUp st = (case processRungJob env (jb_enrolmentId j) (jb_rungIndex j) st of (r, st') \<Rightarrow> settle j gaveUp r st')"

text \<open>Between two steps the budget is free: a step starts with any number of commits to go. An edit is any change
  of the journeys by their owners, the deletion of one taken apart, which cascades, as a contact's does; \<open>world\<close> any
  change of the tables the rungs read.\<close>

inductive journey_step :: "JourneyEnv \<Rightarrow> JourneyStore \<Rightarrow> JourneyStore \<Rightarrow> bool" for env :: JourneyEnv where
  trigger: "journey_step env st (snd (handleTrigger env type payload (st\<lparr>jn_budget := b\<rparr>)))"
| delivery: "deliverable st j \<Longrightarrow> journey_step env st (deliver env j gaveUp (st\<lparr>jn_budget := b\<rparr>))"
| sweep: "journey_step env st (snd (sweepDue env limit (st\<lparr>jn_budget := b\<rparr>)))"
| tick: "jn_now st \<le> t \<Longrightarrow> journey_step env st (st\<lparr>jn_now := t\<rparr>)"
| edit: "journey_step env st (st\<lparr>jn_journeys := js\<rparr>)"
| removal: "remove_journey st tenantId i = Inr st' \<Longrightarrow> journey_step env st st'"
| forgetting: "journey_step env st (forget_contact c st)"
| world: "journey_step env st (st\<lparr>jn_tags := t, jn_dispositions := d, jn_responses := q, jn_conversations := c\<rparr>)"

definition journey_runs :: "JourneyEnv \<Rightarrow> JourneyStore \<Rightarrow> JourneyStore \<Rightarrow> bool" where
  "journey_runs env = (journey_step env)\<^sup>*\<^sup>*"

definition journey_start :: "JourneyStore \<Rightarrow> bool" where
  "journey_start st \<longleftrightarrow> jn_enrolments st = [] \<and> jn_jobs st = []"

section \<open>Job ids\<close>

lemma nat_to_string_digits: "c \<in> set (nat_to_string n) \<Longrightarrow> is_digit c"
proof (induction n rule: nat_to_string.induct)
  case (1 n)
  have d: "is_digit (char_of (48 + d))" if "d < 10" for d :: nat
    using that by (simp add: is_digit_def)
  show ?case
  proof (cases "n < 10")
    case True
    then show ?thesis using 1(2) d by (simp add: nat_to_string_small)
  next
    case False
    then have "c \<in> set (nat_to_string (n div 10)) \<or> c = char_of (48 + n mod 10)"
      using 1(2) by (subst (asm) nat_to_string.simps) auto
    then show ?thesis using 1(1) [OF False] d [of "n mod 10"] by auto
  qed
qed

lemma rung_job_id_inject: "getJourneyRungJobId i k = getJourneyRungJobId i' k' \<longleftrightarrow> i = i' \<and> k = k'"
proof
  assume eq: "getJourneyRungJobId i k = getJourneyRungJobId i' k'"
  define d where "d k = rev (nat_to_string (nat \<bar>k\<bar>))" for k :: int
  define t where "t i k = (if k < 0 then ''-'' else []) @ ''_'' @ rev i" for i :: string and k :: int
  have r: "rev (getJourneyRungJobId i k) = d k @ t i k @ rev ''journey-run_''" for i k
    by (simp add: getJourneyRungJobId_def d_def t_def)
  have dig: "\<forall>c\<in>set (d k). is_digit c" for k using nat_to_string_digits by (auto simp: d_def)
  have nod: "t i k @ z \<noteq> [] \<and> \<not> is_digit (hd (t i k @ z))" for i k z by (auto simp: t_def is_digit_def)
  have tw: "takeWhile is_digit (rev (getJourneyRungJobId i k)) = d k" for i k
    unfolding r using dig [of k] nod [of i k "rev ''journey-run_''"]
    by (subst takeWhile_append2) (auto simp: takeWhile_eq_Nil_iff)
  have dd: "d k = d k'" using tw [of i k] tw [of i' k'] eq by simp
  then have abs: "\<bar>k\<bar> = \<bar>k'\<bar>" by (simp add: d_def eq_nat_nat_iff)
  have "rev (getJourneyRungJobId i k) = rev (getJourneyRungJobId i' k')" using eq by simp
  then have "t i k = t i' k'" unfolding r dd by simp
  then show "i = i' \<and> k = k'" using abs by (auto simp: t_def split: if_split_asm)
qed simp

section \<open>The invariant\<close>

definition jobs_ok :: "JourneyStore \<Rightarrow> JourneyEnrolment \<Rightarrow> bool" where
  "jobs_ok st e \<longleftrightarrow>
     (\<forall>j\<in>set (jn_jobs st). jb_enrolmentId j = en_id e \<longrightarrow> jb_rungIndex j \<le> en_currentRungIndex e \<and>
        (en_state e = WAITING \<and> jb_rungIndex j = en_currentRungIndex e \<longrightarrow>
           (\<exists>t. en_resumeAt e = Some t \<and> (t \<le> jb_availableAt j \<or> t \<le> jn_now st))))"

definition enrolments_ok :: "JourneyStore \<Rightarrow> bool" where
  "enrolments_ok st \<longleftrightarrow>
     distinct (map en_id (jn_enrolments st)) \<and>
     (\<forall>e\<in>set (jn_enrolments st). (\<exists>n<jn_nextId st. en_id e = enrolment_id n) \<and>
        en_rungExecCount e \<le> RUNG_EXEC_CEILING \<and> jobs_ok st e)"

definition queue_ok :: "JourneyStore \<Rightarrow> bool" where
  "queue_ok st \<longleftrightarrow>
     distinct (map jb_id (jn_jobs st)) \<and>
     (\<forall>j\<in>set (jn_jobs st). jb_id j = getJourneyRungJobId (jb_enrolmentId j) (jb_rungIndex j) \<and>
        (\<exists>n<jn_nextId st. jb_enrolmentId j = enrolment_id n))"

definition journey_inv :: "JourneyStore \<Rightarrow> bool" where
  "journey_inv st \<longleftrightarrow> enrolments_ok st \<and> queue_ok st"

definition job_for :: "JourneyStore \<Rightarrow> string \<Rightarrow> int \<Rightarrow> rat option \<Rightarrow> RungJob" where
  "job_for st i k ra =
     \<lparr>jb_id = getJourneyRungJobId i k, jb_enrolmentId = i, jb_rungIndex = k,
      jb_availableAt = max (jn_now st) (case ra of None \<Rightarrow> jn_now st | Some t \<Rightarrow> t), jb_failed = False\<rparr>"

lemma jobs_enqueue:
  "jn_jobs (enqueue_job (getJourneyRungJobId i k) i k ra st) =
     (if \<exists>j\<in>set (jn_jobs st). jb_id j = getJourneyRungJobId i k then jn_jobs st else jn_jobs st @ [job_for st i k ra])"
  by (auto simp: enqueue_job_def Let_def job_for_def list_ex_iff max_def split: option.split)

lemma enrolment_id_inject [simp]: "enrolment_id m = enrolment_id n \<longleftrightarrow> m = n"
  by (simp add: enrolment_id_def)

lemma find_enrolment_iff:
  "enrolments_ok st \<Longrightarrow> find_enrolment st i = Some e \<longleftrightarrow> e \<in> set (jn_enrolments st) \<and> en_id e = i"
proof -
  assume ok: "enrolments_ok st"
  have inj: "inj_on en_id (set (jn_enrolments st))" using ok by (simp add: enrolments_ok_def distinct_map)
  show ?thesis
  proof (cases "find_enrolment st i")
    case None
    then show ?thesis by (auto simp: find_enrolment_def find_None_all dest: find_Some_in)
  next
    case (Some e')
    then have "e' \<in> set (jn_enrolments st)" "en_id e' = i" by (auto simp: find_enrolment_def dest: find_Some_in)
    then show ?thesis using Some inj by (auto dest: inj_onD)
  qed
qed

lemma queue_unique:
  "queue_ok st \<Longrightarrow> j \<in> set (jn_jobs st) \<Longrightarrow> j' \<in> set (jn_jobs st) \<Longrightarrow>
   jb_enrolmentId j = jb_enrolmentId j' \<Longrightarrow> jb_rungIndex j = jb_rungIndex j' \<Longrightarrow> j = j'"
  unfolding queue_ok_def distinct_map by (metis inj_onD)

lemma inv_core: "journey_inv st \<Longrightarrow> jn_enrolments st' = jn_enrolments st \<Longrightarrow> jn_jobs st' = jn_jobs st \<Longrightarrow>
  jn_nextId st' = jn_nextId st \<Longrightarrow> jn_now st \<le> jn_now st' \<Longrightarrow> journey_inv st'"
  unfolding journey_inv_def enrolments_ok_def queue_ok_def jobs_ok_def by (simp; meson order_trans)

text \<open>The one changed enrolment of an effect.\<close>

lemma effect_enrolments:
  assumes "enrolments_ok st" "e \<in> set (jn_enrolments st)" "effect st (en_id e) ws add st'"
  shows "jn_enrolments st' = map (\<lambda>x. if en_id x = en_id e then apply_writes (jn_now st) ws e else x) (jn_enrolments st)"
proof -
  have "x = e" if "x \<in> set (jn_enrolments st)" "en_id x = en_id e" for x
    using assms(1,2) that unfolding enrolments_ok_def distinct_map by (metis inj_onD)
  then show ?thesis using assms(3) by (auto simp: effect_def)
qed

lemma effect_inv:
  assumes inv: "journey_inv st" and e: "e \<in> set (jn_enrolments st)" and eff: "effect st (en_id e) ws add st'"
    and e': "e' = apply_writes (jn_now st) ws e"
    and exec: "en_rungExecCount e' \<le> RUNG_EXEC_CEILING" and cur: "en_currentRungIndex e \<le> en_currentRungIndex e'"
    and park: "en_state e' = WAITING \<Longrightarrow> en_currentRungIndex e < en_currentRungIndex e'"
    and add: "\<And>k ra. add = Some (k, ra) \<Longrightarrow> k = en_currentRungIndex e' \<and> en_currentRungIndex e < k \<and>
      (en_state e' = WAITING \<longrightarrow> ra = en_resumeAt e' \<and> ra \<noteq> None)"
  shows "journey_inv st'"
proof -
  have ok: "enrolments_ok st" and q: "queue_ok st" using inv by (auto simp: journey_inv_def)
  note en = effect_enrolments [OF ok e eff, folded e']
  have now: "jn_now st' = jn_now st" "jn_nextId st' = jn_nextId st" using eff by (auto simp: effect_def)
  have old: "jb_rungIndex j \<le> en_currentRungIndex e" if "j \<in> set (jn_jobs st)" "jb_enrolmentId j = en_id e" for j
    using ok e that by (auto simp: enrolments_ok_def jobs_ok_def)
  have jobs: "jn_jobs st' = jn_jobs st \<and> add = None \<or>
      (\<exists>k ra. add = Some (k, ra) \<and> jn_jobs st' = jn_jobs st @ [job_for st (en_id e) k ra] \<and>
         getJourneyRungJobId (en_id e) k \<notin> jb_id ` set (jn_jobs st))"
  proof (cases add)
    case None
    then show ?thesis using eff by (simp add: effect_def)
  next
    case (Some p)
    obtain k ra where p: "p = (k, ra)" by (cases p)
    have "jb_id j \<noteq> getJourneyRungJobId (en_id e) k" if "j \<in> set (jn_jobs st)" for j
      using q that old [OF that] add [of k ra] Some p by (auto simp: queue_ok_def rung_job_id_inject)
    then have new: "getJourneyRungJobId (en_id e) k \<notin> jb_id ` set (jn_jobs st)" by (metis imageE)
    moreover have "jn_jobs st' = jn_jobs (enqueue_job (getJourneyRungJobId (en_id e) k) (en_id e) k ra st)"
      using eff Some p by (simp add: effect_def)
    moreover have "\<not> (\<exists>j\<in>set (jn_jobs st). jb_id j = getJourneyRungJobId (en_id e) k)" using new by (auto simp: image_iff)
    ultimately show ?thesis using Some p by (simp add: jobs_enqueue)
  qed
  have id': "en_id e' = en_id e" by (simp add: e')
  have ids: "map en_id (jn_enrolments st') = map en_id (jn_enrolments st)" by (simp add: en id')
  have n: "\<exists>n<jn_nextId st. en_id e = enrolment_id n" using ok e by (auto simp: enrolments_ok_def)
  have "enrolments_ok st'"
    unfolding enrolments_ok_def
  proof (intro conjI ballI)
    show "distinct (map en_id (jn_enrolments st'))" using ok ids by (simp add: enrolments_ok_def)
    fix x assume "x \<in> set (jn_enrolments st')"
    then consider "x = e'" | "x \<in> set (jn_enrolments st)" "en_id x \<noteq> en_id e"
      unfolding en by auto
    then show "\<exists>n<jn_nextId st'. en_id x = enrolment_id n" "en_rungExecCount x \<le> RUNG_EXEC_CEILING" "jobs_ok st' x"
    proof (atomize (full), cases)
      case 1
      have "jobs_ok st' e'"
        unfolding jobs_ok_def using jobs old add cur park
        by (force simp: id' now job_for_def)
      then show "(\<exists>n<jn_nextId st'. en_id x = enrolment_id n) \<and> en_rungExecCount x \<le> RUNG_EXEC_CEILING \<and> jobs_ok st' x"
        using 1 n exec by (simp add: id' now)
    next
      case 2
      then have x: "jobs_ok st x" "(\<exists>n<jn_nextId st. en_id x = enrolment_id n) \<and> en_rungExecCount x \<le> RUNG_EXEC_CEILING"
        using ok by (auto simp: enrolments_ok_def)
      then have "jobs_ok st' x" using jobs 2 by (auto simp: jobs_ok_def now job_for_def)
      then show "(\<exists>n<jn_nextId st'. en_id x = enrolment_id n) \<and> en_rungExecCount x \<le> RUNG_EXEC_CEILING \<and> jobs_ok st' x"
        using x by (simp add: now)
    qed
  qed
  moreover have "queue_ok st'"
    using q jobs n by (auto simp: queue_ok_def now job_for_def)
  ultimately show ?thesis by (simp add: journey_inv_def)
qed

lemma shaped_inv:
  assumes inv: "journey_inv st" and e: "e \<in> set (jn_enrolments st)" and live: "is_live (en_state e)" and sh: "shaped st e r st'"
  shows "journey_inv st'"
proof -
  obtain ws add where s: "rung_shape (jn_now st) (rungs_of st (en_journeyId e)) (en_rungExecCount e) (en_currentRungIndex e) ws add r"
    and eff: "effect st (en_id e) ws add st'" using sh by (auto simp: shaped_def)
  have ex: "en_rungExecCount e \<le> RUNG_EXEC_CEILING" using inv e by (auto simp: journey_inv_def enrolments_ok_def)
  show ?thesis
  proof (cases "ws = []")
    case True
    then have "add = None" using s by (auto elim: rung_shape.cases)
    then show ?thesis using inv_core [OF inv] eff True by (simp add: effect_def map_idI)
  next
    case False
    show ?thesis
      by (rule effect_inv [OF inv e eff refl]; use s ex False in \<open>cases rule: rung_shape.cases\<close>) auto
  qed
qed

lemma process_inv:
  assumes inv: "journey_inv st" and r: "processRungJob env i k st = (r, st')"
  shows "journey_inv st'"
proof (cases "find_enrolment st i")
  case None
  then show ?thesis using inv r by (simp add: process_gone)
next
  case (Some e)
  have e: "e \<in> set (jn_enrolments st)" using Some by (auto simp: find_enrolment_def dest: find_Some_in)
  show ?thesis
  proof (cases "is_live (en_state e) \<and> en_currentRungIndex e = k")
    case True
    then have "shaped st e r st'" using wpD [OF process_shaped [OF Some] r] by simp
    then show ?thesis using shaped_inv [OF inv e] True by simp
  next
    case False
    then show ?thesis using inv r by (simp add: process_stale [OF Some])
  qed
qed

lemma settle_inv:
  assumes "journey_inv st"
  shows "journey_inv (settle j g r st)"
proof -
  have e: "jn_enrolments (settle j g r st) = jn_enrolments st" "jn_nextId (settle j g r st) = jn_nextId st"
    "jn_now (settle j g r st) = jn_now st"
    by (auto simp: settle_def split: sum.split)
  have "\<exists>y\<in>set (jn_jobs st). jb_id y = jb_id x \<and> jb_enrolmentId y = jb_enrolmentId x \<and>
      jb_rungIndex y = jb_rungIndex x \<and> jb_availableAt y = jb_availableAt x" if "x \<in> set (jn_jobs (settle j g r st))" for x
    using that by (auto simp: settle_def split: sum.splits)
  moreover have "distinct (map jb_id (jn_jobs (settle j g r st)))"
    using assms
    by (auto simp: settle_def journey_inv_def queue_ok_def comp_def distinct_map_filter if_distrib cong: if_cong split: sum.split)
  ultimately show ?thesis
    using assms unfolding journey_inv_def enrolments_ok_def queue_ok_def jobs_ok_def e by metis
qed

lemma inv_budget [simp]: "journey_inv (st\<lparr>jn_budget := b\<rparr>) = journey_inv st"
  by (simp add: journey_inv_def enrolments_ok_def queue_ok_def jobs_ok_def)

lemma inv_events [simp]: "journey_inv (st\<lparr>jn_events := b\<rparr>) = journey_inv st"
  by (simp add: journey_inv_def enrolments_ok_def queue_ok_def jobs_ok_def)

lemma deliver_inv: "journey_inv st \<Longrightarrow> journey_inv (deliver env j g st)"
  unfolding deliver_def by (cases "processRungJob env (jb_enrolmentId j) (jb_rungIndex j) st")
    (auto intro: settle_inv process_inv)

text \<open>A new enrolment and its first job.\<close>

definition add_enrolment :: "JourneyEnrolment \<Rightarrow> JourneyStore \<Rightarrow> JourneyStore" where
  "add_enrolment e st = st\<lparr>jn_enrolments := jn_enrolments st @ [e], jn_nextId := jn_nextId st + 1\<rparr>"

lemma fresh_enrolment:
  assumes "journey_inv st" "en_id e = enrolment_id (jn_nextId st)"
  shows "en_id e \<notin> en_id ` set (jn_enrolments st)" "en_id e \<notin> jb_enrolmentId ` set (jn_jobs st)"
  using assms by (force simp: journey_inv_def enrolments_ok_def queue_ok_def image_iff)+

lemma inv_add_enrolment:
  assumes "journey_inv st" "en_id e = enrolment_id (jn_nextId st)" "en_state e = ACTIVE" "en_rungExecCount e = 0"
  shows "journey_inv (add_enrolment e st)"
proof -
  have "\<exists>n<Suc (jn_nextId st). x = enrolment_id n" if "\<exists>n<jn_nextId st. x = enrolment_id n" for x
    using that less_Suc_eq by blast
  then show ?thesis
    using assms fresh_enrolment [OF assms(1,2)]
    unfolding journey_inv_def enrolments_ok_def queue_ok_def jobs_ok_def add_enrolment_def
    by (auto simp: image_iff RUNG_EXEC_CEILING_def)
qed

text \<open>Enqueueing the current rung of an enrolment that does not wait, or whose wait is over.\<close>

lemma jinv_enqueue:
  assumes inv: "journey_inv st" and e: "e \<in> set (jn_enrolments st)" "k = en_currentRungIndex e"
    and w: "en_state e = WAITING \<Longrightarrow> \<exists>t. en_resumeAt e = Some t \<and> t \<le> jn_now st"
  shows "journey_inv (enqueue_job (getJourneyRungJobId (en_id e) k) (en_id e) k None st)"
proof (cases "\<exists>j\<in>set (jn_jobs st). jb_id j = getJourneyRungJobId (en_id e) k")
  case True
  then show ?thesis using inv by (auto simp: enqueue_job_def list_ex_iff)
next
  case False
  define s where "s = enqueue_job (getJourneyRungJobId (en_id e) k) (en_id e) k None st"
  have st: "jn_enrolments s = jn_enrolments st" "jn_nextId s = jn_nextId st" "jn_now s = jn_now st"
    "jn_jobs s = jn_jobs st @ [job_for st (en_id e) k None]"
    using False by (auto simp: s_def enqueue_job_def Let_def jobs_enqueue job_for_def list_ex_iff)
  have uniq: "x = e" if "x \<in> set (jn_enrolments st)" "en_id x = en_id e" for x
    using inv e that unfolding journey_inv_def enrolments_ok_def distinct_map by (metis inj_onD)
  have n: "\<exists>n<jn_nextId st. en_id e = enrolment_id n"
    using inv e by (auto simp: journey_inv_def enrolments_ok_def)
  have "jobs_ok s x" if x: "x \<in> set (jn_enrolments st)" for x
  proof -
    have "jobs_ok st x" using inv x by (auto simp: journey_inv_def enrolments_ok_def)
    moreover have "jb_enrolmentId (job_for st (en_id e) k None) = en_id x \<Longrightarrow> x = e"
      using uniq [OF x] by (simp add: job_for_def)
    moreover have "jb_rungIndex (job_for st (en_id e) k None) = en_currentRungIndex e" by (simp add: job_for_def e(2))
    ultimately show ?thesis using w unfolding jobs_ok_def st by auto
  qed
  moreover have "getJourneyRungJobId (en_id e) k \<notin> jb_id ` set (jn_jobs st)" using False by (metis imageE)
  ultimately have "journey_inv s"
    using inv n by (auto simp: journey_inv_def enrolments_ok_def queue_ok_def st job_for_def)
  then show ?thesis by (simp add: s_def)
qed

lemma inv_budget_enqueue:
  "journey_inv (f st) \<Longrightarrow> journey_inv ((f st)\<lparr>jn_budget := b\<rparr>)"
  by simp

text \<open>What the handlers of a trigger and of the sweep keep, crash or not: the invariant, the clock, and every
  enrolment there was. New enrolments are active at rung 0 with fresh ids.\<close>

definition only_adds :: "JourneyStore \<Rightarrow> JourneyStore \<Rightarrow> bool" where
  "only_adds st st' \<longleftrightarrow> journey_inv st' \<and> jn_now st' = jn_now st \<and> jn_journeys st' = jn_journeys st \<and>
     jn_nextId st \<le> jn_nextId st' \<and>
     (\<exists>es. jn_enrolments st' = jn_enrolments st @ es \<and>
        (\<forall>e\<in>set es. (\<exists>n\<ge>jn_nextId st. en_id e = enrolment_id n))) \<and>
     (\<forall>j\<in>set (jn_jobs st'). j \<in> set (jn_jobs st) \<or> (\<exists>n\<ge>jn_nextId st. jb_enrolmentId j = enrolment_id n) \<or>
        (\<exists>d\<in>set (jn_enrolments st). en_state d = WAITING \<and> en_id d = jb_enrolmentId j))"

lemma only_adds_refl: "journey_inv st \<Longrightarrow> only_adds st st"
  by (auto simp: only_adds_def)

lemma only_adds_trans: "only_adds st s \<Longrightarrow> only_adds s s' \<Longrightarrow> only_adds st s'"
proof -
  assume a: "only_adds st s" "only_adds s s'"
  obtain es es' where es: "jn_enrolments s = jn_enrolments st @ es" "jn_enrolments s' = jn_enrolments st @ es @ es'"
      "\<forall>e\<in>set es. \<exists>n\<ge>jn_nextId st. en_id e = enrolment_id n" "\<forall>e\<in>set es'. \<exists>n\<ge>jn_nextId s. en_id e = enrolment_id n"
    using a unfolding only_adds_def by force
  have le: "jn_nextId st \<le> jn_nextId s" using a(1) by (simp add: only_adds_def)
  have "\<exists>n\<ge>jn_nextId st. en_id e = enrolment_id n" if e: "e \<in> set es'" for e
  proof -
    obtain n where "n \<ge> jn_nextId s" "en_id e = enrolment_id n" using es(4) e by blast
    then show ?thesis using le by (intro exI [of _ n]) simp
  qed
  with es(3) have "\<forall>e\<in>set (es @ es'). \<exists>n\<ge>jn_nextId st. en_id e = enrolment_id n" by (metis Un_iff set_append)
  moreover have "j \<in> set (jn_jobs st) \<or> (\<exists>n\<ge>jn_nextId st. jb_enrolmentId j = enrolment_id n) \<or>
      (\<exists>d\<in>set (jn_enrolments st). en_state d = WAITING \<and> en_id d = jb_enrolmentId j)" if "j \<in> set (jn_jobs s')" for j
  proof -
    have "\<forall>j\<in>set (jn_jobs s'). j \<in> set (jn_jobs s) \<or> (\<exists>n\<ge>jn_nextId s. jb_enrolmentId j = enrolment_id n) \<or>
        (\<exists>d\<in>set (jn_enrolments s). en_state d = WAITING \<and> en_id d = jb_enrolmentId j)"
      using a(2) unfolding only_adds_def by (elim conjE)
    with that consider "j \<in> set (jn_jobs s)" | n where "n \<ge> jn_nextId s" "jb_enrolmentId j = enrolment_id n"
      | d where "d \<in> set (jn_enrolments s)" "en_state d = WAITING" "en_id d = jb_enrolmentId j"
      by (elim ballE) auto
    then show ?thesis
    proof cases
      case 1
      then show ?thesis using a(1) by (simp add: only_adds_def)
    next
      case 2
      then show ?thesis using le order_trans by blast
    next
      case 3
      then have "d \<in> set (jn_enrolments st) \<or> d \<in> set es" using es(1) by simp
      then show ?thesis
      proof
        assume "d \<in> set es"
        then show ?thesis using es(3) 3(3) by metis
      qed (use 3 in blast)
    qed
  qed
  moreover have "\<exists>es. jn_enrolments s' = jn_enrolments st @ es \<and> (\<forall>e\<in>set es. \<exists>n\<ge>jn_nextId st. en_id e = enrolment_id n)"
    using es(2) calculation(1) by blast
  moreover have "journey_inv s' \<and> jn_now s' = jn_now st \<and> jn_journeys s' = jn_journeys st \<and> jn_nextId st \<le> jn_nextId s'"
    using a le by (simp add: only_adds_def)
  ultimately show ?thesis unfolding only_adds_def by blast
qed

lemma only_adds_budget [simp]: "only_adds st (s\<lparr>jn_budget := b\<rparr>) = only_adds st s"
  by (simp add: only_adds_def)

lemma only_adds_budget' [simp]: "only_adds (s\<lparr>jn_budget := b\<rparr>) st = only_adds s st"
  by (simp add: only_adds_def)

lemma only_adds_events [simp]: "only_adds st (s\<lparr>jn_events := b\<rparr>) = only_adds st s"
  by (simp add: only_adds_def)

lemma enqueue_keeps [simp]:
  "jn_enrolments (enqueue_job a i k ra st) = jn_enrolments st" "jn_nextId (enqueue_job a i k ra st) = jn_nextId st"
  "jn_now (enqueue_job a i k ra st) = jn_now st" "jn_journeys (enqueue_job a i k ra st) = jn_journeys st"
  "jn_budget (enqueue_job a i k ra st) = jn_budget st"
  by (auto simp: enqueue_job_def Let_def)

lemma tryEnrol_adds:
  assumes "journey_inv st"
  shows "wp (tryEnrol journey payload) (\<lambda>r s. only_adds st s) st"
proof -
  let ?e = "new_enrolment st journey payload"
  let ?add = "commit (\<lambda>s. s\<lparr>jn_enrolments := jn_enrolments s @ [?e], jn_nextId := jn_nextId s + 1\<rparr>)"
  have e: "en_id ?e = enrolment_id (jn_nextId st)" "en_state ?e = ACTIVE" "en_rungExecCount ?e = 0"
    "en_currentRungIndex ?e = 0"
    by (simp_all add: new_enrolment_def)
  have a: "only_adds st (add_enrolment ?e st)"
    using inv_add_enrolment [OF assms e(1-3)] e(1) by (auto simp: only_adds_def add_enrolment_def)
  have b: "only_adds st (enqueue_job (getJourneyRungJobId (en_id ?e) 0) (en_id ?e) 0 None ((add_enrolment ?e st)\<lparr>jn_budget := n\<rparr>))" for n
  proof -
    have "journey_inv ((add_enrolment ?e st)\<lparr>jn_budget := n\<rparr>)" using a by (simp add: only_adds_def)
    moreover have "?e \<in> set (jn_enrolments ((add_enrolment ?e st)\<lparr>jn_budget := n\<rparr>))" by (simp add: add_enrolment_def)
    ultimately have "journey_inv (enqueue_job (getJourneyRungJobId (en_id ?e) 0) (en_id ?e) 0 None ((add_enrolment ?e st)\<lparr>jn_budget := n\<rparr>))"
      by (rule jinv_enqueue) (simp_all add: e)
    then show ?thesis using a e(1) by (auto simp: only_adds_def jobs_enqueue job_for_def add_enrolment_def)
  qed
  have "wp (andThen ?add (\<lambda>_. andThen (enqueueRung (en_id ?e) 0 None) (\<lambda>_.
      emit (EnrolmentUpdated (jo_tenantId journey) (en_id ?e) (en_state ?e))))) (\<lambda>r s. only_adds st s) st"
    unfolding enqueueRung_def
    by (intro wp_andThen wp_commit)
      (use a b only_adds_refl [OF assms] in \<open>auto intro!: wp_andThen wp_commit wp_emit simp: add_enrolment_def\<close>)
  moreover have "wp (jret ()) (\<lambda>r s. only_adds st s) st" by (rule wp_jret) (rule only_adds_refl [OF assms])
  ultimately show ?thesis
    by (simp add: wp_def tryEnrol_def Let_def)
qed

lemma trigger_loop_adds: "journey_inv st \<Longrightarrow> wp (trigger_loop type payload js) (\<lambda>r s. only_adds st s) st"
proof (induction js arbitrary: st)
  case Nil
  then show ?case by (auto intro: wp_jret only_adds_refl)
next
  case (Cons j js)
  have rest: "wp (trigger_loop type payload js) (\<lambda>r s'. only_adds st s') s" if "only_adds st s" for s
  proof (rule wp_mono [OF Cons.IH])
    show "journey_inv s" using that by (simp add: only_adds_def)
  qed (rule only_adds_trans [OF that])
  have "wp (andThen (tryEnrol j payload) (\<lambda>_. trigger_loop type payload js)) (\<lambda>r s. only_adds st s) st"
    by (rule wp_andThen, rule wp_mono [OF tryEnrol_adds [OF Cons.prems]]) (auto split: sum.split intro: rest)
  then show ?case using Cons by simp
qed

lemma handleTrigger_adds:
  assumes "journey_inv st" shows "only_adds st (snd (handleTrigger env type payload st))"
proof -
  have "wp (handleTrigger env type payload) (\<lambda>r s. only_adds st s) st"
    using trigger_loop_adds [OF assms] only_adds_refl [OF assms]
    by (auto simp: wp_def handleTrigger_def jret_def)
  then show ?thesis by (auto simp: wp_def split: prod.splits)
qed

lemma due_enrolments_due:
  assumes "e \<in> set (due_enrolments st n)"
  shows "e \<in> set (jn_enrolments st)" "en_state e = WAITING" "\<exists>t. en_resumeAt e = Some t \<and> t \<le> jn_now st"
  using assms by (auto simp: due_enrolments_def dest!: in_set_takeD split: option.splits)

lemma enqueue_due_adds:
  assumes "journey_inv st" "\<forall>e\<in>set es. e \<in> set (jn_enrolments st) \<and> en_state e = WAITING \<and> (\<exists>t. en_resumeAt e = Some t \<and> t \<le> jn_now st)"
  shows "wp (enqueue_due es) (\<lambda>r s. only_adds st s \<and> jn_enrolments s = jn_enrolments st) st"
  using assms
proof (induction es arbitrary: st)
  case Nil
  then show ?case by (auto intro: wp_jret only_adds_refl)
next
  case (Cons e es)
  have j: "journey_inv (enqueue_job (getJourneyRungJobId (en_id e) (en_currentRungIndex e)) (en_id e) (en_currentRungIndex e) None st)"
    by (rule jinv_enqueue) (use Cons.prems in auto)
  define q where "q b = (enqueue_job (getJourneyRungJobId (en_id e) (en_currentRungIndex e)) (en_id e)
    (en_currentRungIndex e) None st)\<lparr>jn_budget := b\<rparr>" for b
  have q: "journey_inv (q b)" "jn_enrolments (q b) = jn_enrolments st" "jn_now (q b) = jn_now st" for b
    using j by (simp_all add: q_def)
  have "only_adds st (q b)" for b
    using j Cons.prems(2) by (auto simp: q_def only_adds_def jobs_enqueue job_for_def)
  note q = q this
  have rest: "wp (enqueue_due es) (\<lambda>r s'. only_adds st s' \<and> jn_enrolments s' = jn_enrolments st) (q b)" for b
    by (rule wp_mono [OF Cons.IH]) (use q [of b] Cons.prems only_adds_trans in auto)
  have "wp (enqueueRung (en_id e) (en_currentRungIndex e) None)
     (\<lambda>r s. case r of Inl e \<Rightarrow> only_adds st s \<and> jn_enrolments s = jn_enrolments st
        | Inr x \<Rightarrow> wp (enqueue_due es) (\<lambda>r s. only_adds st s \<and> jn_enrolments s = jn_enrolments st) s) st"
    unfolding enqueueRung_def
    by (rule wp_commit) (use rest only_adds_refl [OF Cons.prems(1)] in \<open>auto simp: q_def\<close>)
  then show ?case by (simp add: wp_andThen)
qed

lemma sweepDue_adds:
  assumes "journey_inv st"
  shows "only_adds st (snd (sweepDue env limit st)) \<and> jn_enrolments (snd (sweepDue env limit st)) = jn_enrolments st"
proof -
  let ?P = "\<lambda>s. only_adds st s \<and> jn_enrolments s = jn_enrolments st"
  have "wp (andThen (enqueue_due (due_enrolments st n)) (\<lambda>_. jret m)) (\<lambda>r s. ?P s) st" for n m
    by (rule wp_andThen, rule wp_mono [OF enqueue_due_adds [OF assms]])
      (use due_enrolments_due in \<open>auto split: sum.split intro: wp_jret\<close>)
  moreover have "wp (jret (0::nat)) (\<lambda>r s. ?P s) st" by (rule wp_jret) (simp add: only_adds_refl assms)
  ultimately have "wp (sweepDue env limit) (\<lambda>r s. ?P s) st"
    by (cases "jv_enabled env") (simp_all only: wp_def sweepDue_def Let_def not_True_eq_False not_False_eq_True if_True if_False)
  then show ?thesis by (auto simp: wp_def split: prod.splits)
qed

lemma inv_filter:
  "journey_inv st \<Longrightarrow> journey_inv (st\<lparr>jn_journeys := js, jn_enrolments := filter P (jn_enrolments st)\<rparr>)"
  by (auto simp: journey_inv_def enrolments_ok_def queue_ok_def jobs_ok_def distinct_map_filter)

lemma remove_journey_run:
  "remove_journey st t i = Inr st' \<Longrightarrow> st' = st\<lparr>jn_journeys := filter (\<lambda>j. jo_id j \<noteq> i) (jn_journeys st),
     jn_enrolments := filter (\<lambda>e. en_journeyId e \<noteq> i) (jn_enrolments st)\<rparr>"
  by (simp add: remove_journey_def split: if_splits)

lemma journey_step_inv: "journey_step env st st' \<Longrightarrow> journey_inv st \<Longrightarrow> journey_inv st'"
proof (induction rule: journey_step.induct)
  case (trigger st type payload b)
  then show ?case using handleTrigger_adds [of "st\<lparr>jn_budget := b\<rparr>"] by (simp add: only_adds_def)
next
  case (sweep st limit b)
  then show ?case using sweepDue_adds [of "st\<lparr>jn_budget := b\<rparr>"] by (simp add: only_adds_def)
next
  case (delivery st j g b)
  then show ?case by (simp add: deliver_inv)
next
  case (removal st t i st')
  then show ?case using inv_filter remove_journey_run by metis
next
  case (forgetting st c)
  then show ?case
    using inv_filter [where st = st and js = "jn_journeys st" and P = "\<lambda>e. en_contactId e \<noteq> c"] by (simp add: forget_contact_def)
qed (auto intro: inv_core)

lemma journey_runs_inv: "journey_runs env st st' \<Longrightarrow> journey_inv st \<Longrightarrow> journey_inv st'"
  unfolding journey_runs_def by (induction rule: rtranclp_induct) (auto intro: journey_step_inv)

lemma journey_start_inv: "journey_start st \<Longrightarrow> journey_inv st"
  by (simp add: journey_start_def journey_inv_def enrolments_ok_def queue_ok_def)

end
