(* ===== verification/Journey_Life.thy ===== *)
theory Journey_Life
  imports Journeys
begin

text \<open>
  The life of an enrolment under the machine of \<open>Journeys\<close>, until its journey or its contact is deleted: waits are
  respected, finished enrolments are final, progress is bounded, redelivery is harmless, a crash between two commits
  abandons an enrolment for good, the caps on active enrolments hold, and an undisturbed enrolment comes to rest.
\<close>

section \<open>Waiting\<close>

text \<open>C26: No wait is cut short: in every state the machine reaches, whatever crashed before, a job that may be
  delivered to an enrolment waiting at its rung comes after the enrolment's wait has run out.\<close>

theorem wait_respected:
  assumes "journey_start st0" "journey_runs env st0 st" "deliverable st j"
    and "find_enrolment st (jb_enrolmentId j) = Some e" "en_state e = WAITING" "en_currentRungIndex e = jb_rungIndex j"
  shows "\<exists>t. en_resumeAt e = Some t \<and> t \<le> jn_now st"
proof -
  have inv: "journey_inv st" using assms(1,2) journey_runs_inv journey_start_inv by blast
  have "e \<in> set (jn_enrolments st)" "en_id e = jb_enrolmentId j"
    using assms(4) by (auto simp: find_enrolment_def dest: find_Some_in)
  then have "jobs_ok st e" using inv by (auto simp: journey_inv_def enrolments_ok_def)
  then show ?thesis
    using assms(3,5,6) \<open>en_id e = jb_enrolmentId j\<close> unfolding jobs_ok_def deliverable_def by (metis order_trans)
qed

section \<open>One enrolment's life\<close>

text \<open>What one step does to an enrolment that exists before it.\<close>

definition next_life :: "JourneyEnrolment \<Rightarrow> JourneyEnrolment \<Rightarrow> bool" where
  "next_life e e' \<longleftrightarrow> e' = e \<or>
     is_live (en_state e) \<and> en_id e' = en_id e \<and> en_journeyId e' = en_journeyId e \<and> en_contactId e' = en_contactId e \<and>
     en_currentRungIndex e \<le> en_currentRungIndex e' \<and> en_currentRungIndex e' \<le> en_currentRungIndex e + 1 \<and>
     en_rungExecCount e \<le> en_rungExecCount e'"

lemma shaped_life:
  assumes inv: "journey_inv st" and e: "e \<in> set (jn_enrolments st)" and live: "is_live (en_state e)" and sh: "shaped st e r st'"
  shows "\<exists>e'. jn_enrolments st' = map (\<lambda>x. if en_id x = en_id e then e' else x) (jn_enrolments st) \<and> next_life e e'"
proof -
  obtain ws add where s: "rung_shape (jn_now st) (rungs_of st (en_journeyId e)) (en_rungExecCount e) (en_currentRungIndex e) ws add r"
    and eff: "effect st (en_id e) ws add st'" using sh by (auto simp: shaped_def)
  have "next_life e (apply_writes (jn_now st) ws e)"
    using s live by (cases rule: rung_shape.cases) (auto simp: next_life_def)
  then show ?thesis using effect_enrolments [OF _ e eff] inv by (auto simp: journey_inv_def)
qed

lemma process_life:
  assumes inv: "journey_inv st" and r: "processRungJob env i k st = (r, st')" and e: "e \<in> set (jn_enrolments st)"
  shows "\<exists>e'\<in>set (jn_enrolments st'). next_life e e' \<and> (e' \<noteq> e \<longrightarrow> en_id e = i \<and> en_currentRungIndex e = k)"
proof (cases "find_enrolment st i")
  case None
  then show ?thesis using e r by (auto simp: process_gone next_life_def)
next
  case (Some d)
  have d: "d \<in> set (jn_enrolments st)" "en_id d = i" using Some by (auto simp: find_enrolment_def dest: find_Some_in)
  show ?thesis
  proof (cases "is_live (en_state d) \<and> en_currentRungIndex d = k")
    case True
    then have "shaped st d r st'" using wpD [OF process_shaped [OF Some] r] by simp
    then obtain d' where d': "jn_enrolments st' = map (\<lambda>x. if en_id x = en_id d then d' else x) (jn_enrolments st)" "next_life d d'"
      using shaped_life [OF inv d(1)] True by blast
    show ?thesis
    proof (cases "en_id e = i")
      case True
      then have "e = d" using inv e d unfolding journey_inv_def enrolments_ok_def distinct_map by (metis inj_onD)
      then show ?thesis using d' d \<open>is_live (en_state d) \<and> _\<close> by (auto intro!: bexI [of _ d'] simp: image_iff)
    next
      case False
      then show ?thesis using d' d e by (auto intro!: bexI [of _ e] simp: next_life_def image_iff)
    qed
  next
    case False
    then show ?thesis using e r by (auto simp: process_stale [OF Some] next_life_def)
  qed
qed

lemma settle_enrolments [simp]: "jn_enrolments (settle j g r st) = jn_enrolments st"
  by (simp add: settle_def split: sum.split)

text \<open>The two deletions that cascade to an enrolment.\<close>

definition erasure :: "JourneyEnrolment \<Rightarrow> JourneyStore \<Rightarrow> JourneyStore \<Rightarrow> bool" where
  "erasure e st st' \<longleftrightarrow>
     (\<exists>tenantId. remove_journey st tenantId (en_journeyId e) = Inr st') \<or> st' = forget_contact (en_contactId e) st"

lemma step_life:
  assumes "journey_step env st st'" "journey_inv st" "e \<in> set (jn_enrolments st)" "\<not> erasure e st st'"
  shows "\<exists>e'\<in>set (jn_enrolments st'). next_life e e' \<and>
    (e' \<noteq> e \<longrightarrow> (\<exists>j. deliverable st j \<and> jb_enrolmentId j = en_id e \<and> jb_rungIndex j = en_currentRungIndex e))"
  using assms
proof (induction rule: journey_step.induct)
  case (trigger st type payload b)
  then show ?case using handleTrigger_adds [of "st\<lparr>jn_budget := b\<rparr>" env type payload] by (auto simp: only_adds_def next_life_def)
next
  case (sweep st limit b)
  then show ?case using sweepDue_adds [of "st\<lparr>jn_budget := b\<rparr>" env limit] by (auto simp: next_life_def)
next
  case (delivery st j g b)
  obtain r s where r: "processRungJob env (jb_enrolmentId j) (jb_rungIndex j) (st\<lparr>jn_budget := b\<rparr>) = (r, s)"
    by (cases "processRungJob env (jb_enrolmentId j) (jb_rungIndex j) (st\<lparr>jn_budget := b\<rparr>)")
  then show ?case using process_life [OF _ r, of e] delivery by (fastforce simp: deliver_def)
next
  case (removal st t i st')
  have "en_journeyId e \<noteq> i" using removal.hyps removal.prems(3) by (auto simp: erasure_def)
  then show ?case using removal.prems(2) remove_journey_run [OF removal.hyps] by (auto simp: next_life_def)
next
  case (forgetting st c)
  then have "en_contactId e \<noteq> c" by (auto simp: erasure_def)
  then show ?case using forgetting.prems(2) by (auto simp: forget_contact_def next_life_def)
qed (auto simp: next_life_def)

section \<open>Until it is erased\<close>

definition same_subject :: "JourneyEnrolment \<Rightarrow> JourneyEnrolment \<Rightarrow> bool" where
  "same_subject d e \<longleftrightarrow> en_id d = en_id e \<and> en_journeyId d = en_journeyId e \<and> en_contactId d = en_contactId e"

text \<open>Some step of the run deleted the journey or the contact of the enrolment, and its record is gone for good.\<close>

definition erased_between :: "JourneyEnv \<Rightarrow> JourneyStore \<Rightarrow> JourneyStore \<Rightarrow> JourneyEnrolment \<Rightarrow> bool" where
  "erased_between env st st' e \<longleftrightarrow> en_id e \<notin> en_id ` set (jn_enrolments st') \<and>
     (\<exists>s s'. journey_runs env st s \<and> erasure e s s' \<and> journey_runs env s' st')"

definition gone :: "string \<Rightarrow> JourneyStore \<Rightarrow> bool" where
  "gone i st \<longleftrightarrow> i \<notin> en_id ` set (jn_enrolments st) \<and> (\<exists>n<jn_nextId st. i = enrolment_id n)"

lemma same_id:
  "journey_inv st \<Longrightarrow> e \<in> set (jn_enrolments st) \<Longrightarrow> x \<in> set (jn_enrolments st) \<Longrightarrow> en_id x = en_id e \<Longrightarrow> x = e"
  unfolding journey_inv_def enrolments_ok_def distinct_map by (metis inj_onD)

text \<open>What a delivery makes of the enrolments.\<close>

lemma process_map:
  assumes inv: "journey_inv st" and r: "processRungJob env i k st = (r, s)"
  shows "jn_nextId s = jn_nextId st \<and>
    (\<exists>f. jn_enrolments s = map f (jn_enrolments st) \<and> (\<forall>e\<in>set (jn_enrolments st). next_life e (f e)))"
proof (cases "find_enrolment st i")
  case None
  then show ?thesis using r by (intro conjI exI [of _ id]) (simp_all add: process_gone next_life_def)
next
  case (Some e)
  have e: "e \<in> set (jn_enrolments st)" using Some by (auto simp: find_enrolment_def dest: find_Some_in)
  show ?thesis
  proof (cases "is_live (en_state e) \<and> en_currentRungIndex e = k")
    case True
    then have sh: "shaped st e r s" using wpD [OF process_shaped [OF Some] r] by simp
    then obtain e' where e': "jn_enrolments s = map (\<lambda>x. if en_id x = en_id e then e' else x) (jn_enrolments st)" "next_life e e'"
      using shaped_life [OF inv e] True by blast
    have "jn_nextId s = jn_nextId st" using sh by (auto simp: shaped_def effect_def)
    then show ?thesis
      using e' same_id [OF inv e] by (intro conjI exI [of _ "\<lambda>x. if en_id x = en_id e then e' else x"]) (auto simp: next_life_def)
  next
    case False
    then show ?thesis using r by (intro conjI exI [of _ id]) (simp_all add: process_stale [OF Some] next_life_def)
  qed
qed

lemma next_life_id: "next_life e e' \<Longrightarrow> same_subject e' e"
  by (auto simp: next_life_def same_subject_def)

lemma settle_nextId [simp]: "jn_nextId (settle j g r st) = jn_nextId st"
  by (simp add: settle_def split: sum.split)

lemma gone_adds: "gone i st \<Longrightarrow> only_adds st s \<Longrightarrow> gone i s"
proof -
  assume i: "gone i st" and s: "only_adds st s"
  obtain n where n: "n < jn_nextId st" "i = enrolment_id n" using i by (auto simp: gone_def)
  obtain es where es: "jn_enrolments s = jn_enrolments st @ es" "\<forall>e\<in>set es. \<exists>m\<ge>jn_nextId st. en_id e = enrolment_id m"
    using s by (auto simp: only_adds_def)
  have "i \<notin> en_id ` set es" using es(2) n by (metis enrolment_id_inject imageE not_less)
  moreover have "jn_nextId st \<le> jn_nextId s" using s by (simp add: only_adds_def)
  ultimately show "gone i s" using i n es(1) by (auto simp: gone_def image_Un)
qed

lemma gone_step: "journey_step env st st' \<Longrightarrow> journey_inv st \<Longrightarrow> gone i st \<Longrightarrow> gone i st'"
proof (induction rule: journey_step.induct)
  case (trigger st type payload b)
  have "only_adds (st\<lparr>jn_budget := b\<rparr>) (snd (handleTrigger env type payload (st\<lparr>jn_budget := b\<rparr>)))"
    using trigger.prems(1) by (intro handleTrigger_adds) simp
  then show ?case unfolding only_adds_budget' by (rule gone_adds [OF trigger.prems(2)])
next
  case (sweep st limit b)
  have "only_adds (st\<lparr>jn_budget := b\<rparr>) (snd (sweepDue env limit (st\<lparr>jn_budget := b\<rparr>)))"
    using sweepDue_adds [of "st\<lparr>jn_budget := b\<rparr>" env limit] sweep.prems(1) by simp
  then show ?case unfolding only_adds_budget' by (rule gone_adds [OF sweep.prems(2)])
next
  case (delivery st j g b)
  obtain r s where r: "processRungJob env (jb_enrolmentId j) (jb_rungIndex j) (st\<lparr>jn_budget := b\<rparr>) = (r, s)"
    by (cases "processRungJob env (jb_enrolmentId j) (jb_rungIndex j) (st\<lparr>jn_budget := b\<rparr>)")
  have "journey_inv (st\<lparr>jn_budget := b\<rparr>)" using delivery.prems(1) by simp
  from process_map [OF this r] obtain f where f: "jn_nextId s = jn_nextId st" "jn_enrolments s = map f (jn_enrolments st)"
    "\<forall>e\<in>set (jn_enrolments st). next_life e (f e)" by auto
  have "en_id ` set (jn_enrolments s) = en_id ` set (jn_enrolments st)"
    using f(3) next_life_id by (force simp: f(2) image_image same_subject_def)
  then show ?case using delivery.prems(2) f(1) by (simp add: gone_def deliver_def r)
next
  case (removal st t i' st')
  then show ?case using remove_journey_run [OF removal.hyps] by (auto simp: gone_def)
qed (auto simp: gone_def forget_contact_def)

lemma gone_runs: "journey_runs env st st' \<Longrightarrow> journey_inv st \<Longrightarrow> gone i st \<Longrightarrow> gone i st' \<and> journey_inv st'"
  unfolding journey_runs_def by (induction rule: rtranclp_induct) (auto intro: gone_step journey_step_inv)

lemma erasure_gone:
  assumes "erasure e st st'" "journey_inv st" "e \<in> set (jn_enrolments st)"
  shows "gone (en_id e) st'"
proof -
  have "x = e" if "x \<in> set (jn_enrolments st)" "en_id x = en_id e" for x using same_id assms(2,3) that by blast
  then have "en_id e \<notin> en_id ` set (jn_enrolments st')" "jn_nextId st' = jn_nextId st"
    using assms(1) by (auto simp: erasure_def forget_contact_def dest!: remove_journey_run)
  moreover have "\<exists>n<jn_nextId st. en_id e = enrolment_id n" using assms(2,3) by (auto simp: journey_inv_def enrolments_ok_def)
  ultimately show ?thesis by (simp add: gone_def)
qed

lemma erasure_subject: "same_subject d e \<Longrightarrow> erasure d st st' \<Longrightarrow> erasure e st st'"
  by (simp add: same_subject_def erasure_def)

lemma journey_runs_step: "journey_runs env st s \<Longrightarrow> journey_step env s s' \<Longrightarrow> journey_runs env st s'"
  unfolding journey_runs_def by (rule rtranclp.rtrancl_into_rtrancl)

lemma nextId_step: "journey_step env st st' \<Longrightarrow> journey_inv st \<Longrightarrow> jn_nextId st \<le> jn_nextId st'"
proof (induction rule: journey_step.induct)
  case (trigger st type payload b)
  then show ?case using handleTrigger_adds [of "st\<lparr>jn_budget := b\<rparr>" env type payload] by (simp add: only_adds_def)
next
  case (sweep st limit b)
  then show ?case using sweepDue_adds [of "st\<lparr>jn_budget := b\<rparr>" env limit] by (simp add: only_adds_def)
next
  case (delivery st j g b)
  obtain r s where r: "processRungJob env (jb_enrolmentId j) (jb_rungIndex j) (st\<lparr>jn_budget := b\<rparr>) = (r, s)"
    by (cases "processRungJob env (jb_enrolmentId j) (jb_rungIndex j) (st\<lparr>jn_budget := b\<rparr>)")
  have "journey_inv (st\<lparr>jn_budget := b\<rparr>)" using delivery.prems by simp
  from process_map [OF this r] show ?case by (simp add: deliver_def r)
qed (auto simp: forget_contact_def dest!: remove_journey_run)

lemma nextId_runs: "journey_runs env st st' \<Longrightarrow> journey_inv st \<Longrightarrow> jn_nextId st \<le> jn_nextId st'"
  unfolding journey_runs_def
proof (induction rule: rtranclp_induct)
  case (step s s')
  have "journey_inv s" using step.hyps(1) step.prems journey_runs_inv by (auto simp: journey_runs_def)
  then have "jn_nextId s \<le> jn_nextId s'" by (rule nextId_step [OF step.hyps(2)])
  then show ?case using step.IH [OF step.prems] by simp
qed simp

text \<open>What every step keeps of a record holds of it through a run, up to its erasure.\<close>

lemma runs_until_erased:
  assumes "journey_runs env st st'" "journey_inv st" "e \<in> set (jn_enrolments st)" "Q st e"
    and step: "\<And>s s' d. journey_step env s s' \<Longrightarrow> journey_inv s \<Longrightarrow> d \<in> set (jn_enrolments s) \<Longrightarrow> Q s d \<Longrightarrow>
      \<not> erasure d s s' \<Longrightarrow> \<exists>d'\<in>set (jn_enrolments s'). Q s' d' \<and> same_subject d' d"
  shows "(\<exists>d\<in>set (jn_enrolments st'). Q st' d \<and> same_subject d e) \<or> erased_between env st st' e"
  using assms(1) [unfolded journey_runs_def]
proof (induction rule: rtranclp_induct)
  case base
  show ?case using assms(3,4) by (auto simp: same_subject_def)
next
  case (step s s')
  have runs: "journey_runs env st s" using step.hyps(1) by (simp add: journey_runs_def)
  have inv: "journey_inv s" using runs assms(2) journey_runs_inv by blast
  from step.IH show ?case
  proof
    assume "\<exists>d\<in>set (jn_enrolments s). Q s d \<and> same_subject d e"
    then obtain d where d: "d \<in> set (jn_enrolments s)" "Q s d" "same_subject d e" by blast
    show ?thesis
    proof (cases "erasure d s s'")
      case True
      have "gone (en_id e) s'" using erasure_gone [OF True inv d(1)] d(3) by (simp add: same_subject_def)
      moreover have "erasure e s s'" using True d(3) erasure_subject by blast
      moreover have "journey_runs env s' s'" by (simp add: journey_runs_def)
      ultimately show ?thesis using runs unfolding erased_between_def gone_def by blast
    next
      case False
      from assms(5) [OF step.hyps(2) inv d(1,2) False] d(3) show ?thesis by (auto simp: same_subject_def)
    qed
  next
    assume er: "erased_between env st s e"
    then obtain s1 s2 where s: "journey_runs env st s1" "erasure e s1 s2" "journey_runs env s2 s"
      "en_id e \<notin> en_id ` set (jn_enrolments s)" by (auto simp: erased_between_def)
    have n: "\<exists>n<jn_nextId s. en_id e = enrolment_id n"
    proof -
      have "jn_nextId st \<le> jn_nextId s" using runs assms(2) by (rule nextId_runs)
      then show ?thesis using assms(2,3) by (auto simp: journey_inv_def enrolments_ok_def intro: less_le_trans)
    qed
    then have "gone (en_id e) s'" using gone_step [OF step.hyps(2) inv] s(4) by (simp add: gone_def)
    moreover have "journey_runs env s2 s'" using s(3) step.hyps(2) by (rule journey_runs_step)
    ultimately show ?thesis using s(1,2) unfolding erased_between_def gone_def by blast
  qed
qed

lemma next_life_trans: "next_life e e' \<Longrightarrow> \<not> is_live (en_state e) \<Longrightarrow> e' = e"
  by (auto simp: next_life_def)

text \<open>C12: A finished enrolment is final: once completed, exited or failed, its record never changes again, whatever
  jobs are redelivered, sweeps run and triggers fire. Only the deletion of its journey or of its contact, which
  cascades, takes it away, and then for good.\<close>

theorem finished_is_final:
  assumes "journey_start st0" "journey_runs env st0 st" "journey_runs env st st'"
    and "e \<in> set (jn_enrolments st)" "en_state e \<in> {COMPLETED, EXITED, FAILED}"
  shows "e \<in> set (jn_enrolments st') \<or> erased_between env st st' e"
proof -
  have inv: "journey_inv st" using assms(1,2) journey_runs_inv journey_start_inv by blast
  have dead: "\<not> is_live (en_state e)" using assms(5) by (auto simp: is_live_def)
  have "(\<exists>d\<in>set (jn_enrolments st'). d = e \<and> same_subject d e) \<or> erased_between env st st' e"
  proof (rule runs_until_erased [OF assms(3) inv assms(4), where Q = "\<lambda>s d. d = e"])
    fix s s' d
    assume "journey_step env s s'" "journey_inv s" "d \<in> set (jn_enrolments s)" "d = e" "\<not> erasure d s s'"
    then show "\<exists>d'\<in>set (jn_enrolments s'). d' = e \<and> same_subject d' d"
      using step_life [of env s s' d] next_life_trans [OF _ dead] by (auto simp: same_subject_def)
  qed simp
  then show ?thesis by blast
qed

text \<open>C35: Progress is bounded and never undone: an enrolment has run at most 200 rungs in every state the machine
  reaches, and whatever happens later its record is still there, at the same rung or a later one, until its journey or
  its contact is deleted.\<close>

theorem enrolment_progress:
  assumes "journey_start st0" "journey_runs env st0 st" "journey_runs env st st'" "e \<in> set (jn_enrolments st)"
  shows "en_rungExecCount e \<le> 200 \<and>
    ((\<exists>e'\<in>set (jn_enrolments st'). en_id e' = en_id e \<and> en_currentRungIndex e \<le> en_currentRungIndex e' \<and>
        en_rungExecCount e \<le> en_rungExecCount e') \<or> erased_between env st st' e)"
proof -
  have inv: "journey_inv st" using assms(1,2) journey_runs_inv journey_start_inv by blast
  let ?Q = "\<lambda>d. en_currentRungIndex e \<le> en_currentRungIndex d \<and> en_rungExecCount e \<le> en_rungExecCount d"
  have "(\<exists>d\<in>set (jn_enrolments st'). ?Q d \<and> same_subject d e) \<or> erased_between env st st' e"
  proof (rule runs_until_erased [OF assms(3) inv assms(4), where Q = "\<lambda>s d. ?Q d"])
    fix s s' d
    assume "journey_step env s s'" "journey_inv s" "d \<in> set (jn_enrolments s)" "?Q d" "\<not> erasure d s s'"
    moreover from this obtain d' where "d' \<in> set (jn_enrolments s')" "next_life d d'" using step_life by blast
    ultimately show "\<exists>d'\<in>set (jn_enrolments s'). ?Q d' \<and> same_subject d' d"
      by (auto simp: next_life_def same_subject_def intro!: bexI [of _ d'])
  qed simp
  then show ?thesis using inv assms(4) by (auto simp: journey_inv_def enrolments_ok_def RUNG_EXEC_CEILING_def same_subject_def)
qed

section \<open>Redelivery\<close>

text \<open>C14: Redelivering a job that was processed is a no-op: once the handler has answered for an enrolment and a
  rung, running it again for the same pair changes nothing at all.\<close>

theorem redelivery_no_op:
  assumes "journey_start st0" "journey_runs env st0 st" "processRungJob env i k (st\<lparr>jn_budget := b\<rparr>) = (Inr s, st')"
  shows "\<exists>s'. processRungJob env i k st' = (Inr s', st')"
proof -
  let ?st = "st\<lparr>jn_budget := b\<rparr>"
  have inv: "journey_inv ?st" using assms(1,2) journey_runs_inv journey_start_inv by (metis inv_budget)
  show ?thesis
  proof (cases "find_enrolment ?st i")
    case None
    then show ?thesis using assms(3) by (auto simp: process_gone)
  next
    case (Some e)
    have e: "e \<in> set (jn_enrolments ?st)" "en_id e = i" using Some by (auto simp: find_enrolment_def dest: find_Some_in)
    show ?thesis
    proof (cases "is_live (en_state e) \<and> en_currentRungIndex e = k")
      case True
      then have "shaped ?st e (Inr s) st'" using wpD [OF process_shaped [OF Some] assms(3)] by simp
      then obtain ws add where sh: "rung_shape (jn_now ?st) (rungs_of ?st (en_journeyId e)) (en_rungExecCount e)
          (en_currentRungIndex e) ws add (Inr s)" and eff: "effect ?st (en_id e) ws add st'" by (auto simp: shaped_def)
      let ?e = "apply_writes (jn_now ?st) ws e"
      have ok: "enrolments_ok st'"
        using process_inv [OF inv assms(3)] by (simp add: journey_inv_def)
      have "?e \<in> set (jn_enrolments st')"
        using effect_enrolments [OF _ e(1) eff] inv e(1) by (auto simp: journey_inv_def image_iff)
      then have f: "find_enrolment st' i = Some ?e" using find_enrolment_iff [OF ok] e(2) by simp
      have "\<not> (is_live (en_state ?e) \<and> en_currentRungIndex ?e = k)"
        using sh True by (cases rule: rung_shape.cases) (auto simp: is_live_def)
      then show ?thesis using process_stale [OF f] by blast
    next
      case False
      then show ?thesis using assms(3) by (auto simp: process_stale [OF Some])
    qed
  qed
qed

section \<open>Abandoned enrolments\<close>

text \<open>An enrolment that is active at a rung no live job in the queue stands for.\<close>

definition abandoned :: "JourneyStore \<Rightarrow> JourneyEnrolment \<Rightarrow> bool" where
  "abandoned st e \<longleftrightarrow> e \<in> set (jn_enrolments st) \<and> en_state e = ACTIVE \<and>
     (\<forall>j\<in>set (jn_jobs st). jb_enrolmentId j = en_id e \<and> jb_rungIndex j = en_currentRungIndex e \<longrightarrow> jb_failed j)"

lemma process_other_jobs:
  assumes "processRungJob env i k st = (r, st')" "j \<in> set (jn_jobs st')"
  shows "j \<in> set (jn_jobs st) \<or> jb_enrolmentId j = i \<and> jb_rungIndex j = k + 1 \<and>
     (\<exists>e. find_enrolment st i = Some e \<and> is_live (en_state e) \<and> en_currentRungIndex e = k)"
proof (cases "find_enrolment st i")
  case None
  then show ?thesis using assms by (simp add: process_gone)
next
  case (Some e)
  have i: "en_id e = i" using Some by (auto simp: find_enrolment_def dest: find_Some_in)
  show ?thesis
  proof (cases "is_live (en_state e) \<and> en_currentRungIndex e = k")
    case True
    then have "shaped st e r st'" using wpD [OF process_shaped [OF Some] assms(1)] by simp
    then obtain ws add where sh: "rung_shape (jn_now st) (rungs_of st (en_journeyId e)) (en_rungExecCount e)
        (en_currentRungIndex e) ws add r" and eff: "effect st (en_id e) ws add st'" by (auto simp: shaped_def)
    have "add = None \<or> (\<exists>ra. add = Some (k + 1, ra))" using sh True by (cases rule: rung_shape.cases) auto
    then show ?thesis using eff assms(2) i Some True by (auto simp: effect_def jobs_enqueue job_for_def split: if_splits)
  next
    case False
    then show ?thesis using assms by (auto simp: process_stale [OF Some])
  qed
qed

lemma settle_jobs:
  assumes "x \<in> set (jn_jobs (settle j g r st))"
  shows "\<exists>y\<in>set (jn_jobs st). jb_enrolmentId x = jb_enrolmentId y \<and> jb_rungIndex x = jb_rungIndex y \<and> (jb_failed y \<longrightarrow> jb_failed x)"
  using assms by (auto simp: settle_def split: sum.splits)

lemma abandoned_step:
  assumes step: "journey_step env st st'" and inv: "journey_inv st" and ab: "abandoned st e" and kept: "\<not> erasure e st st'"
  shows "abandoned st' e"
proof -
  have e: "e \<in> set (jn_enrolments st)" "en_state e = ACTIVE" using ab by (auto simp: abandoned_def)
  have "e \<in> set (jn_enrolments st')"
    using step_life [OF step inv e(1) kept] ab by (auto simp: abandoned_def deliverable_def)
  moreover have uniq: "x = e" if "x \<in> set (jn_enrolments st)" "en_id x = en_id e" for x
    using inv e that unfolding journey_inv_def enrolments_ok_def distinct_map by (metis inj_onD)
  have add: "jb_failed j" if "only_adds st s" "j \<in> set (jn_jobs s)" "jb_enrolmentId j = en_id e" "jb_rungIndex j = en_currentRungIndex e"
    for s j
  proof -
    obtain n where "n < jn_nextId st" "en_id e = enrolment_id n" using inv e by (auto simp: journey_inv_def enrolments_ok_def)
    then show ?thesis using that ab uniq e(2) unfolding only_adds_def abandoned_def
      by (metis JourneyEnrolmentState.distinct(1) enrolment_id_inject not_less)
  qed
  have "jb_failed j"
    if j: "j \<in> set (jn_jobs st')" "jb_enrolmentId j = en_id e" "jb_rungIndex j = en_currentRungIndex e" for j
    using step
  proof cases
    case (trigger type payload b)
    then have "only_adds st st'" using handleTrigger_adds [of "st\<lparr>jn_budget := b\<rparr>" env type payload] inv by simp
    then show ?thesis using add j by blast
  next
    case (sweep limit b)
    then have "only_adds st st'" using sweepDue_adds [of "st\<lparr>jn_budget := b\<rparr>" env limit] inv by simp
    then show ?thesis using add j by blast
  next
    case (delivery d g b)
    obtain r s where r: "processRungJob env (jb_enrolmentId d) (jb_rungIndex d) (st\<lparr>jn_budget := b\<rparr>) = (r, s)"
      by (cases "processRungJob env (jb_enrolmentId d) (jb_rungIndex d) (st\<lparr>jn_budget := b\<rparr>)")
    then have "st' = settle d g r s" using delivery(1) by (simp add: deliver_def)
    then obtain y where y: "y \<in> set (jn_jobs s)" "jb_enrolmentId j = jb_enrolmentId y" "jb_rungIndex j = jb_rungIndex y"
        "jb_failed y \<longrightarrow> jb_failed j"
      using settle_jobs [of j d g r s] j(1) by blast
    have "y \<in> set (jn_jobs st)"
    proof (rule ccontr)
      assume "y \<notin> set (jn_jobs st)"
      then obtain x where x: "jb_enrolmentId y = jb_enrolmentId d" "jb_rungIndex y = jb_rungIndex d + 1"
          "find_enrolment (st\<lparr>jn_budget := b\<rparr>) (jb_enrolmentId d) = Some x" "en_currentRungIndex x = jb_rungIndex d"
        using process_other_jobs [OF r y(1)] by auto
      then have "x \<in> set (jn_enrolments st)" "en_id x = jb_enrolmentId d"
        by (auto simp: find_enrolment_def dest: find_Some_in)
      then have "x = e" using uniq x(1) y(2) j(2) by simp
      then show False using x y j by simp
    qed
    then show ?thesis using ab y j by (auto simp: abandoned_def)
  qed (use ab j in \<open>auto simp: abandoned_def forget_contact_def dest!: remove_journey_run\<close>)
  ultimately show ?thesis using e(2) by (auto simp: abandoned_def)
qed

lemma abandoned_runs:
  assumes "journey_runs env st st'" "journey_inv st" "abandoned st e"
  shows "abandoned st' e \<or> erased_between env st st' e"
proof -
  have "(\<exists>d\<in>set (jn_enrolments st'). (d = e \<and> abandoned st' d) \<and> same_subject d e) \<or> erased_between env st st' e"
  proof (rule runs_until_erased [OF assms(1,2), where Q = "\<lambda>s d. d = e \<and> abandoned s d"])
    fix s s' d
    assume "journey_step env s s'" "journey_inv s" "d \<in> set (jn_enrolments s)" "d = e \<and> abandoned s d" "\<not> erasure d s s'"
    then have "abandoned s' d" "d = e" using abandoned_step by blast+
    then show "\<exists>d'\<in>set (jn_enrolments s'). (d' = e \<and> abandoned s' d') \<and> same_subject d' d"
      by (auto simp: abandoned_def same_subject_def)
  qed (use assms(3) in \<open>auto simp: abandoned_def\<close>)
  then show ?thesis by blast
qed

section \<open>A crash that abandons an enrolment\<close>

definition crash_after :: "nat \<Rightarrow> JourneyStore \<Rightarrow> JourneyStore" where
  "crash_after n st = st\<lparr>jn_budget := Some n\<rparr>"

text \<open>A process that dies between the advance and the enqueueing of a condition rung that held.\<close>

lemma crash_on_condition:
  assumes inv: "journey_inv st" and e: "find_enrolment st i = Some e" "is_live (en_state e)" "en_rungExecCount e < RUNG_EXEC_CEILING"
    and rung: "find (\<lambda>r. ru_rungIndex r = en_currentRungIndex e) (rungs_of st (en_journeyId e)) = Some rung"
      "ru_type rung = RungCondition" "evaluateCondition env st (en_tenantId e) (en_contactId e) (ru_config rung)"
    and more: "hasRung (rungs_of st (en_journeyId e)) (en_currentRungIndex e + 1)"
  shows "fst (processRungJob env i (en_currentRungIndex e) (crash_after 2 st)) = Inl Crashed \<and>
    effect st i [Begin, Advance (en_currentRungIndex e)] None
      ((snd (processRungJob env i (en_currentRungIndex e) (crash_after 2 st)))\<lparr>jn_budget := jn_budget st\<rparr>)"
proof -
  have i: "en_id e = i" using e(1) by (auto simp: find_enrolment_def dest: find_Some_in)
  have rb: "rungs_of (st\<lparr>jn_budget := b\<rparr>) k = rungs_of st k" "find_enrolment (st\<lparr>jn_budget := b\<rparr>) k = find_enrolment st k"
    for b k by (simp_all add: rungs_of_def find_enrolment_def)
  have cond: "evaluateCondition env (st\<lparr>jn_enrolments := es, jn_budget := b\<rparr>) (en_tenantId e) (en_contactId e) (ru_config rung)"
    for es b using rung(3) by (simp add: evaluateCondition_def split: if_split_asm)
  have not: "\<not> (en_state e \<noteq> ACTIVE \<and> en_state e \<noteq> WAITING \<or> False)" "\<not> en_rungExecCount e \<ge> RUNG_EXEC_CEILING"
    using e(2,3) by (auto simp: is_live_def)
  define begun where "begun = st\<lparr>jn_enrolments := map (\<lambda>x. if en_id x = i then apply_write (jn_now st) Begin x else x)
    (jn_enrolments st), jn_budget := Some 1\<rparr>"
  define moved where "moved = begun\<lparr>jn_enrolments := map (\<lambda>x. if en_id x = i
    then apply_write (jn_now st) (Advance (en_currentRungIndex e)) x else x) (jn_enrolments begun), jn_budget := Some 0\<rparr>"
  have "processRungJob env i (en_currentRungIndex e) (crash_after 2 st) =
      andThen (begin_rung i) (\<lambda>_. run_rung env e (rungs_of st (en_journeyId e)) rung) (crash_after 2 st)"
    using e not rung(1) by (auto simp: processRungJob_def crash_after_def rb Let_def i)
  also have "\<dots> = run_rung env e (rungs_of st (en_journeyId e)) rung begun"
    by (simp add: andThen_def begin_rung_def update_enrolment_def commit_def crash_after_def begun_def numeral_2_eq_2
        if_distrib cong: if_cong)
  also have "\<dots> = advanceOrComplete (en_tenantId e) i (en_currentRungIndex e) (rungs_of st (en_journeyId e)) begun"
    using rung(2) cond by (simp add: run_rung_def begun_def i Let_def)
  also have "\<dots> = (Inl Crashed, moved)"
    using more by (simp add: advanceOrComplete_def andThen_def advance_def update_enrolment_def commit_def enqueueRung_def
        moved_def begun_def Let_def)
  finally have p: "processRungJob env i (en_currentRungIndex e) (crash_after 2 st) = (Inl Crashed, moved)" .
  have "effect st i [Begin, Advance (en_currentRungIndex e)] None (moved\<lparr>jn_budget := jn_budget st\<rparr>)"
    by (auto simp: effect_def moved_def begun_def)
  then show ?thesis by (simp add: p)
qed

text \<open>C11: A worker that dies after the commit that advanced an enrolment to its next rung and before that rung's job
  was queued, or the wait was recorded, abandons it, whatever the kind of the rung: the retried job is a no-op and the
  sweep looks at waiting enrolments only, so the record stays as it is, active, in every later state, and a contact
  capped at one active enrolment never enters the journey again, until the journey or the contact is deleted.\<close>

theorem crash_abandons_enrolment:
  assumes "journey_start st0" "journey_runs env st0 st" "deliverable st j"
    and "processRungJob env (jb_enrolmentId j) (jb_rungIndex j) (st\<lparr>jn_budget := b\<rparr>) = (Inl Crashed, s)"
    and "find_enrolment s (jb_enrolmentId j) = Some e'" "en_state e' = ACTIVE" "en_currentRungIndex e' = jb_rungIndex j + 1"
    and "\<forall>x\<in>set (jn_jobs s). jb_enrolmentId x = jb_enrolmentId j \<longrightarrow> jb_rungIndex x \<noteq> jb_rungIndex j + 1"
    and "journey_runs env (deliver env j gaveUp (st\<lparr>jn_budget := b\<rparr>)) st'"
  shows "e' \<in> set (jn_enrolments st') \<and>
      (\<forall>journey payload. jo_id journey = en_journeyId e' \<and> tp_contactId payload = en_contactId e' \<and>
         jo_maxActivePerContact journey \<le> 1 \<longrightarrow> tryEnrol journey payload st' = (Inr (), st')) \<or>
    erased_between env (deliver env j gaveUp (st\<lparr>jn_budget := b\<rparr>)) st' e'"
proof -
  have inv: "journey_inv st" using assms(1,2) journey_runs_inv journey_start_inv by blast
  let ?st = "deliver env j gaveUp (st\<lparr>jn_budget := b\<rparr>)"
  have d: "?st = settle j gaveUp (Inl Crashed) s" by (simp add: deliver_def assms(4))
  have e': "e' \<in> set (jn_enrolments s)" "en_id e' = jb_enrolmentId j"
    using assms(5) by (auto simp: find_enrolment_def dest: find_Some_in)
  have "abandoned ?st e'"
    using e' assms(6-8) settle_jobs [of _ j gaveUp "Inl Crashed" s] unfolding abandoned_def d by fastforce
  moreover have "journey_inv ?st" using inv by (intro deliver_inv) simp
  ultimately consider "abandoned st' e'" | "erased_between env ?st st' e'" using abandoned_runs [OF assms(9)] by blast
  then show ?thesis
  proof cases
    case 1
    have "tryEnrol journey payload st' = (Inr (), st')"
      if "jo_id journey = en_journeyId e'" "tp_contactId payload = en_contactId e'" "jo_maxActivePerContact journey \<le> 1"
      for journey payload
    proof -
      have "e' \<in> set (filter (\<lambda>e. is_live (en_state e)) (enrolments_of st' (jo_id journey) (tp_contactId payload)))"
        using 1 that by (simp add: enrolments_of_def abandoned_def is_live_def)
      then have "0 < active_count st' (jo_id journey) (tp_contactId payload)"
        unfolding active_count_def by (metis length_pos_if_in_set)
      then show ?thesis using that(3) by (simp add: tryEnrol_def jret_def)
    qed
    then show ?thesis using 1 by (simp add: abandoned_def)
  qed blast
qed

section \<open>Caps\<close>

definition caps :: "JourneyStore \<Rightarrow> bool" where
  "caps st \<longleftrightarrow> (\<forall>journey\<in>set (jn_journeys st). \<forall>c. int (active_count st (jo_id journey) c) \<le> jo_maxActivePerContact journey)"

lemma active_count_map:
  assumes "\<And>e. e \<in> set (jn_enrolments st) \<Longrightarrow> en_journeyId (f e) = en_journeyId e \<and> en_contactId (f e) = en_contactId e \<and>
      (is_live (en_state (f e)) \<longrightarrow> is_live (en_state e))"
    and "jn_enrolments st' = map f (jn_enrolments st)"
  shows "active_count st' j c \<le> active_count st j c"
proof -
  have "length (filter (\<lambda>e. is_live (en_state e)) (filter (\<lambda>e. en_journeyId e = j \<and> en_contactId e = c) (map f es))) \<le>
      length (filter (\<lambda>e. is_live (en_state e)) (filter (\<lambda>e. en_journeyId e = j \<and> en_contactId e = c) es))"
    if "set es \<subseteq> set (jn_enrolments st)" for es
    using that by (induction es) (use assms(1) in auto)
  then show ?thesis by (simp add: active_count_def enrolments_of_def assms(2))
qed

lemma deliver_counts:
  assumes "journey_inv st"
  shows "active_count (deliver env d g st) j c \<le> active_count st j c"
proof -
  obtain r s where r: "processRungJob env (jb_enrolmentId d) (jb_rungIndex d) st = (r, s)"
    by (cases "processRungJob env (jb_enrolmentId d) (jb_rungIndex d) st")
  have "\<exists>f. jn_enrolments s = map f (jn_enrolments st) \<and> (\<forall>e\<in>set (jn_enrolments st). next_life e (f e))"
    using process_map [OF assms r] by blast
  then obtain f where f: "jn_enrolments s = map f (jn_enrolments st)" "\<forall>e\<in>set (jn_enrolments st). next_life e (f e)" by blast
  have "active_count s j c \<le> active_count st j c"
    by (rule active_count_map [of st f s]) (use f in \<open>auto simp: next_life_def\<close>)
  then show ?thesis by (simp add: deliver_def r active_count_def enrolments_of_def)
qed

lemma fewer_active:
  "jn_enrolments st' = filter P (jn_enrolments st) \<Longrightarrow> active_count st' j c \<le> active_count st j c"
proof -
  have "length (filter A (filter B (filter P es))) \<le> length (filter A (filter B es))" for A B and es :: "JourneyEnrolment list"
    by (induction es) auto
  then show "jn_enrolments st' = filter P (jn_enrolments st) \<Longrightarrow> ?thesis" by (simp add: active_count_def enrolments_of_def)
qed

definition journeys_distinct :: "JourneyStore \<Rightarrow> bool" where
  "journeys_distinct st \<longleftrightarrow> distinct (map jo_id (jn_journeys st))"

lemma caps_keeps: "jn_enrolments s = jn_enrolments st \<Longrightarrow> jn_journeys s = jn_journeys st \<Longrightarrow> caps s = caps st"
  by (simp add: caps_def active_count_def enrolments_of_def)

lemma active_count_add:
  "active_count (add_enrolment e st) j c =
     active_count st j c + (if en_journeyId e = j \<and> en_contactId e = c \<and> is_live (en_state e) then 1 else 0)"
  by (simp add: active_count_def enrolments_of_def add_enrolment_def)

lemma tryEnrol_caps:
  assumes "journeys_distinct st" "caps st" "journey \<in> set (jn_journeys st)"
  shows "wp (tryEnrol journey payload) (\<lambda>r s. caps s \<and> jn_journeys s = jn_journeys st) st"
proof (cases "int (active_count st (jo_id journey) (tp_contactId payload)) \<ge> jo_maxActivePerContact journey \<or>
    jo_reentryCooldownMinutes journey > 0 \<and>
       list_ex (\<lambda>e. en_enrolledAt e \<ge> jn_now st - rat_of_int (jo_reentryCooldownMinutes journey) * 60000)
         (enrolments_of st (jo_id journey) (tp_contactId payload))")
  case True
  then have "tryEnrol journey payload st = (Inr (), st)" by (auto simp: tryEnrol_def jret_def)
  then show ?thesis using assms by (simp add: wp_def)
next
  case False
  let ?e = "new_enrolment st journey payload"
  have same: "journey' = journey" if "journey' \<in> set (jn_journeys st)" "jo_id journey' = jo_id journey" for journey'
    using assms(1,3) that unfolding journeys_distinct_def distinct_map by (metis inj_onD)
  have c: "caps (add_enrolment ?e st)"
    unfolding caps_def
  proof (intro ballI allI)
    fix journey' c assume "journey' \<in> set (jn_journeys (add_enrolment ?e st))"
    then have j: "journey' \<in> set (jn_journeys st)" by (simp add: add_enrolment_def)
    then have old: "int (active_count st (jo_id journey') c) \<le> jo_maxActivePerContact journey'"
      using assms(2) by (simp add: caps_def)
    show "int (active_count (add_enrolment ?e st) (jo_id journey') c) \<le> jo_maxActivePerContact journey'"
    proof (cases "jo_id journey' = jo_id journey \<and> tp_contactId payload = c")
      case True
      then have "journey' = journey" using same [OF j] by simp
      then show ?thesis using True False by (auto simp: active_count_add new_enrolment_def is_live_def)
    next
      case other: False
      then show ?thesis using old by (auto simp: active_count_add new_enrolment_def)
    qed
  qed
  have keep: "caps s" if "jn_enrolments s = jn_enrolments st @ [?e]" "jn_journeys s = jn_journeys st" for s
    using c caps_keeps [of s "add_enrolment ?e st"] that by (simp add: add_enrolment_def)
  have "wp (andThen (commit (\<lambda>s. s\<lparr>jn_enrolments := jn_enrolments s @ [?e], jn_nextId := jn_nextId s + 1\<rparr>)) (\<lambda>_.
      andThen (enqueueRung (en_id ?e) 0 None) (\<lambda>_.
      emit (EnrolmentUpdated (jo_tenantId journey) (en_id ?e) (en_state ?e)))))
    (\<lambda>r s. caps s \<and> jn_journeys s = jn_journeys st) st"
    unfolding enqueueRung_def
    by (intro wp_andThen wp_commit)
      (use assms(2) keep in \<open>auto intro!: wp_andThen wp_commit wp_emit simp: add_enrolment_def\<close>)
  moreover have "tryEnrol journey payload st =
      andThen (commit (\<lambda>s. s\<lparr>jn_enrolments := jn_enrolments s @ [?e], jn_nextId := jn_nextId s + 1\<rparr>)) (\<lambda>_.
      andThen (enqueueRung (en_id ?e) 0 None) (\<lambda>_.
      emit (EnrolmentUpdated (jo_tenantId journey) (en_id ?e) (en_state ?e)))) st"
    using False by (auto simp: tryEnrol_def Let_def)
  ultimately show ?thesis by (simp add: wp_def)
qed

lemma trigger_loop_caps:
  assumes "journeys_distinct st" "caps st" "set js \<subseteq> set (jn_journeys st)"
  shows "wp (trigger_loop type payload js) (\<lambda>r s. caps s \<and> jn_journeys s = jn_journeys st) st"
  using assms
proof (induction js arbitrary: st)
  case Nil
  then show ?case by (auto intro: wp_jret)
next
  case (Cons j js)
  have rest: "wp (trigger_loop type payload js) (\<lambda>r s'. caps s' \<and> jn_journeys s' = jn_journeys st) s"
    if "caps s \<and> jn_journeys s = jn_journeys st" for s
    by (rule wp_mono [OF Cons.IH]) (use that Cons.prems in \<open>auto simp: journeys_distinct_def\<close>)
  have "wp (andThen (tryEnrol j payload) (\<lambda>_. trigger_loop type payload js)) (\<lambda>r s. caps s \<and> jn_journeys s = jn_journeys st) st"
    by (rule wp_andThen, rule wp_mono [OF tryEnrol_caps]) (use Cons.prems rest in \<open>auto split: sum.split\<close>)
  then show ?case using Cons by simp
qed

text \<open>C27: Unless the owner edits the journeys, no step of the machine, whatever its crash point, lifts a contact
  above a journey's cap on active enrolments.\<close>

theorem caps_kept:
  assumes "journey_start st0" "journey_runs env st0 st" "journeys_distinct st" "caps st"
    and "journey_step env st st'" "jn_journeys st' = jn_journeys st"
  shows "caps st'"
proof -
  have inv: "journey_inv st" using assms(1,2) journey_runs_inv journey_start_inv by blast
  from assms(5) show ?thesis
  proof cases
    case (trigger type payload b)
    let ?st = "st\<lparr>jn_budget := b\<rparr>"
    have c: "journeys_distinct ?st" "caps ?st" using assms(3,4) caps_keeps [of ?st st] by (simp_all add: journeys_distinct_def)
    have "wp (handleTrigger env type payload) (\<lambda>r s. caps s) ?st"
    proof (cases "jv_enabled env")
      case True
      then show ?thesis
        using wp_mono [OF trigger_loop_caps [OF c, of "filter (\<lambda>j. jo_tenantId j = tp_tenantId payload \<and>
            jo_status j = JourneyStatus.ACTIVE \<and> jo_triggerType j = type) (jn_journeys ?st)" type payload], of "\<lambda>r s. caps s"]
        by (auto simp: wp_def handleTrigger_def)
    next
      case False
      then show ?thesis using c by (simp add: wp_def handleTrigger_def jret_def)
    qed
    then show ?thesis using trigger by (auto simp: wp_def split: prod.splits)
  next
    case (delivery j g b)
    have "active_count st' i c \<le> active_count st i c" for i c
      using deliver_counts [of "st\<lparr>jn_budget := b\<rparr>" env j g i c] inv delivery(1)
      by (simp add: active_count_def enrolments_of_def)
    then show ?thesis using assms(4,6) unfolding caps_def by (metis of_nat_le_iff order_trans)
  next
    case (sweep limit b)
    then show ?thesis
      using sweepDue_adds [of "st\<lparr>jn_budget := b\<rparr>" env limit] inv assms(4,6) caps_keeps [of st' st] by simp
  next
    case (removal t i)
    have st': "jn_enrolments st' = filter (\<lambda>e. en_journeyId e \<noteq> i) (jn_enrolments st)"
      using remove_journey_run [OF removal] by simp
    show ?thesis using assms(4,6) fewer_active [OF st'] unfolding caps_def by (metis of_nat_le_iff order_trans)
  next
    case (forgetting c)
    then have st': "jn_enrolments st' = filter (\<lambda>e. en_contactId e \<noteq> c) (jn_enrolments st)" by (simp add: forget_contact_def)
    show ?thesis using assms(4,6) fewer_active [OF st'] unfolding caps_def by (metis of_nat_le_iff order_trans)
  qed (use assms(4,6) in \<open>auto simp: caps_def active_count_def enrolments_of_def\<close>)
qed

section \<open>An undisturbed enrolment comes to rest\<close>

text \<open>The worker delivers the current rung of one enrolment as long as there is a job for it.\<close>

fun drive :: "JourneyEnv \<Rightarrow> nat \<Rightarrow> string \<Rightarrow> unit job" where
  "drive env 0 i = jret ()"
| "drive env (Suc n) i = (\<lambda>st.
     case find_enrolment st i of
       None \<Rightarrow> jret () st
     | Some e \<Rightarrow>
         if en_state e \<noteq> ACTIVE then jret () st
         else (case find (\<lambda>j. jb_enrolmentId j = i \<and> jb_rungIndex j = en_currentRungIndex e \<and> \<not> jb_failed j \<and>
                         jb_availableAt j \<le> jn_now st) (jn_jobs st) of
            None \<Rightarrow> jret () st
          | Some j \<Rightarrow>
              (case processRungJob env i (en_currentRungIndex e) st of
                 (Inl x, st') \<Rightarrow> (Inl x, settle j False (Inl x) st')
               | (Inr s, st') \<Rightarrow> drive env n i (settle j False (Inr s) st'))))"

definition rungs_left :: "JourneyRung list \<Rightarrow> int \<Rightarrow> nat" where
  "rungs_left rungs k = card {x \<in> ru_rungIndex ` set rungs. k \<le> x}"

lemma rungs_left_bound: "rungs_left rungs k \<le> length rungs"
proof -
  have "rungs_left rungs k \<le> card (ru_rungIndex ` set rungs)"
    unfolding rungs_left_def by (rule card_mono) auto
  also have "\<dots> \<le> length rungs" using card_image_le [of "set rungs" ru_rungIndex] card_length [of rungs] by simp
  finally show ?thesis .
qed

lemma rungs_left_less: "hasRung rungs k \<Longrightarrow> rungs_left rungs (k + 1) < rungs_left rungs k"
proof -
  assume h: "hasRung rungs k"
  have "{x \<in> ru_rungIndex ` set rungs. k + 1 \<le> x} \<subset> {x \<in> ru_rungIndex ` set rungs. k \<le> x}"
    using h by (auto simp: hasRung_def list_ex_iff image_iff psubset_eq) force
  then show ?thesis unfolding rungs_left_def by (rule psubset_card_mono [rotated]) simp
qed

definition ready :: "JourneyStore \<Rightarrow> JourneyEnrolment \<Rightarrow> bool" where
  "ready st e \<longleftrightarrow> (\<exists>j. deliverable st j \<and> jb_enrolmentId j = en_id e \<and> jb_rungIndex j = en_currentRungIndex e)"

text \<open>One delivery to an active enrolment that has its job: it throws, or the enrolment rests, or it is active at
  the next rung, which exists, with that rung's job ready.\<close>

lemma drive_one:
  assumes inv: "journey_inv st" and b: "jn_budget st = None" and f: "find_enrolment st i = Some e" and a: "en_state e = ACTIVE"
    and r: "processRungJob env i (en_currentRungIndex e) st = (Inr s, st')" and j: "deliverable st j" "jb_enrolmentId j = i"
      "jb_rungIndex j = en_currentRungIndex e"
  defines "st2 \<equiv> settle j False (Inr s) st'"
  shows "journey_inv st2 \<and> jn_budget st2 = None \<and> jn_journeys st2 = jn_journeys st \<and>
    (\<exists>e'. find_enrolment st2 i = Some e' \<and> en_journeyId e' = en_journeyId e \<and>
      (en_state e' = ACTIVE \<longrightarrow> en_currentRungIndex e' = en_currentRungIndex e + 1 \<and>
         hasRung (rungs_of st (en_journeyId e)) (en_currentRungIndex e) \<and> ready st2 e'))"
proof -
  have e: "e \<in> set (jn_enrolments st)" "en_id e = i" using f by (auto simp: find_enrolment_def dest: find_Some_in)
  have "shaped st e (Inr s) st'" using wpD [OF process_shaped [OF f] r] a by (simp add: is_live_def)
  then obtain ws add where sh: "rung_shape (jn_now st) (rungs_of st (en_journeyId e)) (en_rungExecCount e)
      (en_currentRungIndex e) ws add (Inr s)" and eff: "effect st i ws add st'" using e(2) by (auto simp: shaped_def)
  let ?e = "apply_writes (jn_now st) ws e"
  have inv': "journey_inv st'" by (rule process_inv [OF inv r])
  have "?e \<in> set (jn_enrolments st')"
    using effect_enrolments [OF _ e(1) eff [folded e(2)]] inv e(1) by (auto simp: journey_inv_def image_iff)
  then have fe: "find_enrolment st' i = Some ?e"
    using find_enrolment_iff [of st' i ?e] inv' e(2) by (simp add: journey_inv_def)
  have st2: "find_enrolment st2 i = Some ?e" "jn_budget st2 = None" "jn_journeys st2 = jn_journeys st" "jn_now st2 = jn_now st"
    "jn_jobs st2 = filter (\<lambda>x. jb_id x \<noteq> jb_id j) (jn_jobs st')"
    using fe eff b by (auto simp: st2_def settle_def find_enrolment_def effect_def)
  have inv2: "journey_inv st2" using settle_inv [OF inv'] by (simp add: st2_def)
  have jid: "jb_id j = getJourneyRungJobId i (en_currentRungIndex e)"
    using inv j by (auto simp: journey_inv_def queue_ok_def deliverable_def)
  have step: "en_currentRungIndex ?e = en_currentRungIndex e + 1 \<and>
      hasRung (rungs_of st (en_journeyId e)) (en_currentRungIndex e) \<and> ready st2 ?e" if act: "en_state ?e = ACTIVE"
    using sh act
  proof (cases rule: rung_shape.cases)
    case moved
    let ?k = "en_currentRungIndex e + 1"
    have ok: "jobs_ok st e" "queue_ok st" using inv e by (auto simp: journey_inv_def enrolments_ok_def)
    have "jb_id x \<noteq> getJourneyRungJobId i ?k" if x: "x \<in> set (jn_jobs st)" for x
    proof
      assume "jb_id x = getJourneyRungJobId i ?k"
      then have "jb_enrolmentId x = i" "jb_rungIndex x = ?k"
        using ok(2) x by (auto simp: queue_ok_def rung_job_id_inject)
      then show False using ok(1) x e(2) by (auto simp: jobs_ok_def)
    qed
    then have "jn_jobs st' = jn_jobs st @ [job_for st i ?k None]"
      using eff moved by (auto simp: effect_def jobs_enqueue)
    then have "job_for st i ?k None \<in> set (jn_jobs st2)" by (simp add: st2(5) jid job_for_def rung_job_id_inject)
    then have "ready st2 ?e"
      using moved e(2) by (auto simp: ready_def deliverable_def job_for_def st2(4) intro!: exI [of _ "job_for st i ?k None"])
    then show ?thesis using moved by simp
  qed auto
  have "en_journeyId ?e = en_journeyId e" using sh by (cases rule: rung_shape.cases) auto
  then show ?thesis using inv2 st2(1-3) step by blast
qed

lemma drive_stops: "find_enrolment st i = Some e \<Longrightarrow> en_state e \<noteq> ACTIVE \<Longrightarrow> drive env n i st = (Inr (), st)"
  by (cases n) (simp_all add: jret_def)

lemma drive_rests:
  "journey_inv st \<Longrightarrow> jn_budget st = None \<Longrightarrow> find_enrolment st i = Some e \<Longrightarrow> (en_state e = ACTIVE \<Longrightarrow> ready st e) \<Longrightarrow>
   rungs_left (rungs_of st (en_journeyId e)) (en_currentRungIndex e) < n \<Longrightarrow> drive env n i st = (r, st') \<Longrightarrow>
   (\<exists>x. r = Inl (Thrown x)) \<or> r = Inr () \<and> (\<exists>e'. find_enrolment st' i = Some e' \<and> en_state e' \<noteq> ACTIVE)"
proof (induction n arbitrary: st e)
  case 0
  then show ?case by simp
next
  case (Suc n)
  show ?case
  proof (cases "en_state e = ACTIVE")
    case False
    then show ?thesis using Suc.prems(3,6) drive_stops [OF Suc.prems(3) False, of env "Suc n"] by auto
  next
    case True
    let ?P = "\<lambda>j. jb_enrolmentId j = i \<and> jb_rungIndex j = en_currentRungIndex e \<and> \<not> jb_failed j \<and> jb_availableAt j \<le> jn_now st"
    have i: "en_id e = i" using Suc.prems(3) by (auto simp: find_enrolment_def dest: find_Some_in)
    have "find ?P (jn_jobs st) \<noteq> None"
      using Suc.prems(4) [OF True] i unfolding find_None_all ready_def deliverable_def by blast
    then obtain j where j: "find ?P (jn_jobs st) = Some j" by auto
    then have d: "deliverable st j" "jb_enrolmentId j = i" "jb_rungIndex j = en_currentRungIndex e"
      by (auto simp: deliverable_def dest: find_Some_in)
    obtain q s where q: "processRungJob env i (en_currentRungIndex e) st = (q, s)"
      by (cases "processRungJob env i (en_currentRungIndex e) st")
    show ?thesis
    proof (cases q)
      case (Inl x)
      have "shaped st e q s" using wpD [OF process_shaped [OF Suc.prems(3)] q] True by (simp add: is_live_def)
      then have "x \<noteq> Crashed" using Inl Suc.prems(2) by (auto simp: shaped_def)
      then obtain y where "x = Thrown y" by (cases x) auto
      moreover have "r = Inl x" using Suc.prems(3,6) True j q Inl by simp
      ultimately show ?thesis by simp
    next
      case (Inr z)
      let ?st = "settle j False (Inr z) s"
      have dr: "drive env n i ?st = (r, st')" using Suc.prems(3,6) True j q Inr by simp
      have one: "journey_inv ?st \<and> jn_budget ?st = None \<and> jn_journeys ?st = jn_journeys st \<and>
        (\<exists>e'. find_enrolment ?st i = Some e' \<and> en_journeyId e' = en_journeyId e \<and>
          (en_state e' = ACTIVE \<longrightarrow> en_currentRungIndex e' = en_currentRungIndex e + 1 \<and>
             hasRung (rungs_of st (en_journeyId e)) (en_currentRungIndex e) \<and> ready ?st e'))"
        by (rule drive_one [OF Suc.prems(1-3) True q [unfolded Inr] d])
      then obtain e' where e': "find_enrolment ?st i = Some e'" "en_journeyId e' = en_journeyId e"
          "en_state e' = ACTIVE \<longrightarrow> en_currentRungIndex e' = en_currentRungIndex e + 1 \<and>
             hasRung (rungs_of st (en_journeyId e)) (en_currentRungIndex e) \<and> ready ?st e'" by blast
      show ?thesis
      proof (cases "en_state e' = ACTIVE")
        case False
        then show ?thesis using drive_stops [OF e'(1) False, of env n] dr e'(1) by auto
      next
        case True
        have "rungs_of ?st (en_journeyId e') = rungs_of st (en_journeyId e)" using one e'(2) by (simp add: rungs_of_def)
        then have "rungs_left (rungs_of ?st (en_journeyId e')) (en_currentRungIndex e') < n"
          using rungs_left_less [of "rungs_of st (en_journeyId e)" "en_currentRungIndex e"] e'(3) True Suc.prems(5) by simp
        then show ?thesis using one e' True by (intro Suc.IH [OF _ _ e'(1) _ _ dr]) auto
      qed
    qed
  qed
qed

text \<open>C6: While no worker dies and no other operation comes in between, a journey terminates: from any reachable state
  in which an active enrolment has its job, one consecutive delivery per rung of the journey, and one more, either ends
  in an error that an action threw or leaves the enrolment waiting, completed, exited or failed. (What a worker's death
  can do is \<open>crash_abandons_enrolment\<close>.)\<close>

theorem journey_comes_to_rest:
  assumes "journey_start st0" "journey_runs env st0 st"
    and "find_enrolment st i = Some e" "en_state e = ACTIVE" "ready st e"
    and "drive env (length (rungs_of st (en_journeyId e)) + 1) i (st\<lparr>jn_budget := None\<rparr>) = (r, st')"
  shows "(\<exists>x. r = Inl (Thrown x)) \<or> r = Inr () \<and> (\<exists>e'. find_enrolment st' i = Some e' \<and> en_state e' \<noteq> ACTIVE)"
proof -
  have "journey_inv (st\<lparr>jn_budget := None\<rparr>)" using assms(1,2) journey_runs_inv journey_start_inv by (metis inv_budget)
  moreover have "ready (st\<lparr>jn_budget := None\<rparr>) e" using assms(5) by (simp add: ready_def deliverable_def)
  moreover have same: "find_enrolment (st\<lparr>jn_budget := None\<rparr>) i = find_enrolment st i"
      "rungs_of (st\<lparr>jn_budget := None\<rparr>) (en_journeyId e) = rungs_of st (en_journeyId e)"
    by (simp_all add: find_enrolment_def rungs_of_def)
  moreover have "rungs_left (rungs_of (st\<lparr>jn_budget := None\<rparr>) (en_journeyId e)) (en_currentRungIndex e) <
      length (rungs_of st (en_journeyId e)) + 1"
    unfolding same using rungs_left_bound [of "rungs_of st (en_journeyId e)" "en_currentRungIndex e"] by linarith
  ultimately show ?thesis
    using assms(3) by (intro drive_rests [where e = e, OF _ _ _ _ _ assms(6)]) simp_all
qed

section \<open>Concrete runs\<close>

definition demo_env :: JourneyEnv where
  "demo_env = \<lparr>jv_js = sample_js, jv_enabled = True, jv_contactTags = False, jv_sender = (\<lambda>t. Inr None),
     jv_twilio = (\<lambda>n to body s. Inl (ThrownError ''offline''))\<rparr>"

definition demo_journey :: Journey where
  "demo_journey = \<lparr>jo_id = ''j1'', jo_tenantId = ''t1'', jo_name = ''Welcome'', jo_status = JourneyStatus.ACTIVE,
     jo_triggerType = tag_added, jo_triggerConfig = JObj [], jo_reentryCooldownMinutes = 0, jo_maxActivePerContact = 1,
     jo_rungs = [\<lparr>ru_rungIndex = 0, ru_type = RungCondition, ru_config = JObj []\<rparr>,
                 \<lparr>ru_rungIndex = 1, ru_type = RungWait, ru_config = JObj [(''minutes'', JNum 5)]\<rparr>,
                 \<lparr>ru_rungIndex = 2, ru_type = RungAction, ru_config = JObj [(''kind'', JStr ''door_task'')]\<rparr>]\<rparr>"

definition demo_payload :: JourneyTriggerPayload where
  "demo_payload = \<lparr>tp_tenantId = ''t1'', tp_contactId = ''c1'', tp_code = None, tp_questionId = None, tp_optionId = None,
     tp_surveyId = None, tp_campaignId = None, tp_tag = Some ''volunteer'', tp_blastId = None\<rparr>"

definition demo0 :: JourneyStore where
  "demo0 = \<lparr>jn_journeys = [demo_journey], jn_enrolments = [], jn_jobs = [], jn_tags = no_tags, jn_dispositions = [],
     jn_responses = [], jn_conversations = [], jn_messages = [], jn_texts = [], jn_events = [], jn_nextId = 0, jn_now = 0,
     jn_budget = None\<rparr>"

text \<open>The contact is enrolled; the condition holds; the wait parks it; five minutes pass; the last action completes it.\<close>

definition demo1 :: JourneyStore where
  "demo1 = snd (handleTrigger demo_env tag_added demo_payload (demo0\<lparr>jn_budget := None\<rparr>))"

definition demo_deliver :: "JourneyStore \<Rightarrow> JourneyStore" where
  "demo_deliver st = deliver demo_env (hd (jn_jobs st)) False (st\<lparr>jn_budget := None\<rparr>)"

definition demo3 :: JourneyStore where
  "demo3 = demo_deliver (demo_deliver demo1)"

definition demo4 :: JourneyStore where
  "demo4 = demo3\<lparr>jn_now := 300000\<rparr>"

definition demo5 :: JourneyStore where
  "demo5 = demo_deliver demo4"

definition demo_enrolment :: JourneyEnrolment where
  "demo_enrolment = new_enrolment demo0 demo_journey demo_payload"

lemma demo_facts:
  "deliverable demo1 (hd (jn_jobs demo1))" "deliverable (demo_deliver demo1) (hd (jn_jobs (demo_deliver demo1)))"
  "deliverable demo4 (hd (jn_jobs demo4))"
  by code_simp+

lemma demo1_enrolment: "find_enrolment demo1 (jb_enrolmentId (hd (jn_jobs demo1))) = Some demo_enrolment"
  by code_simp

lemma demo_start: "journey_start demo0"
  by (simp add: journey_start_def demo0_def)

lemma demo_runs:
  "journey_runs demo_env demo0 demo0" "journey_runs demo_env demo0 demo1" "journey_runs demo_env demo0 demo3"
  "journey_runs demo_env demo0 demo4" "journey_runs demo_env demo0 demo5"
proof -
  show 0: "journey_runs demo_env demo0 demo0" by (simp add: journey_runs_def)
  show 1: "journey_runs demo_env demo0 demo1"
    unfolding demo1_def by (rule journey_runs_step [OF 0 journey_step.trigger])
  have "journey_runs demo_env demo0 (demo_deliver demo1)"
    unfolding demo_deliver_def by (rule journey_runs_step [OF 1 journey_step.delivery [OF demo_facts(1)]])
  then show 3: "journey_runs demo_env demo0 demo3"
    unfolding demo3_def demo_deliver_def [of "demo_deliver demo1"] by (rule journey_runs_step [OF _ journey_step.delivery [OF demo_facts(2)]])
  have "jn_now demo3 \<le> 300000" by code_simp
  then show 4: "journey_runs demo_env demo0 demo4"
    unfolding demo4_def by (rule journey_runs_step [OF 3 journey_step.tick])
  show "journey_runs demo_env demo0 demo5"
    unfolding demo5_def demo_deliver_def by (rule journey_runs_step [OF 4 journey_step.delivery [OF demo_facts(3)]])
qed

lemma demo4_waiting:
  "\<exists>e. find_enrolment demo4 (jb_enrolmentId (hd (jn_jobs demo4))) = Some e \<and> en_state e = WAITING \<and>
     en_currentRungIndex e = jb_rungIndex (hd (jn_jobs demo4)) \<and> en_resumeAt e = Some 300000"
proof -
  have "(case find_enrolment demo4 (jb_enrolmentId (hd (jn_jobs demo4))) of None \<Rightarrow> False
      | Some e \<Rightarrow> en_state e = WAITING \<and> en_currentRungIndex e = jb_rungIndex (hd (jn_jobs demo4)) \<and> en_resumeAt e = Some 300000)"
    by code_simp
  then show ?thesis by (auto split: option.splits)
qed

theorem wait_respected_witness:
  "\<exists>e t. find_enrolment demo4 (jb_enrolmentId (hd (jn_jobs demo4))) = Some e \<and> en_resumeAt e = Some t \<and> t \<le> jn_now demo4"
  using demo4_waiting wait_respected [OF demo_start demo_runs(4) demo_facts(3)] by blast

lemma demo5_completed: "map en_state (jn_enrolments demo5) = [COMPLETED]"
  by code_simp

theorem finished_is_final_witness:
  "\<exists>e. e \<in> set (jn_enrolments demo5) \<and> en_state e = COMPLETED \<and>
     (\<forall>st'. journey_runs demo_env demo5 st' \<longrightarrow> e \<in> set (jn_enrolments st') \<or> erased_between demo_env demo5 st' e)"
proof -
  obtain e where "jn_enrolments demo5 = [e]" "en_state e = COMPLETED" using demo5_completed by auto
  then show ?thesis using finished_is_final [OF demo_start demo_runs(5)] by auto
qed

theorem enrolment_progress_witness:
  "en_rungExecCount demo_enrolment \<le> 200 \<and>
     ((\<exists>e'\<in>set (jn_enrolments demo1). en_id e' = en_id demo_enrolment \<and>
        en_currentRungIndex demo_enrolment \<le> en_currentRungIndex e' \<and> en_rungExecCount demo_enrolment \<le> en_rungExecCount e') \<or>
      erased_between demo_env demo1 demo1 demo_enrolment)"
proof (rule enrolment_progress [OF demo_start demo_runs(2)])
  show "journey_runs demo_env demo1 demo1" by (simp add: journey_runs_def)
  show "demo_enrolment \<in> set (jn_enrolments demo1)"
    using demo1_enrolment by (auto simp: find_enrolment_def dest: find_Some_in)
qed

theorem redelivery_no_op_witness:
  "\<exists>s' st'. processRungJob demo_env (en_id demo_enrolment) 0 (demo1\<lparr>jn_budget := None\<rparr>) = (Inr ACTIVE, st') \<and>
     processRungJob demo_env (en_id demo_enrolment) 0 st' = (Inr s', st')"
proof -
  obtain r st' where p: "processRungJob demo_env (en_id demo_enrolment) 0 (demo1\<lparr>jn_budget := None\<rparr>) = (r, st')"
    by (cases "processRungJob demo_env (en_id demo_enrolment) 0 (demo1\<lparr>jn_budget := None\<rparr>)")
  moreover have "fst (processRungJob demo_env (en_id demo_enrolment) 0 (demo1\<lparr>jn_budget := None\<rparr>)) = Inr ACTIVE"
    by code_simp
  ultimately have "processRungJob demo_env (en_id demo_enrolment) 0 (demo1\<lparr>jn_budget := None\<rparr>) = (Inr ACTIVE, st')" by simp
  then show ?thesis using redelivery_no_op [OF demo_start demo_runs(2)] by blast
qed

lemma demo1_rung:
  "is_live (en_state demo_enrolment) \<and> en_rungExecCount demo_enrolment < 200 \<and>
   en_currentRungIndex demo_enrolment = jb_rungIndex (hd (jn_jobs demo1)) \<and> en_state demo_enrolment = ACTIVE \<and>
   hasRung (rungs_of demo1 (en_journeyId demo_enrolment)) (jb_rungIndex (hd (jn_jobs demo1)) + 1)"
  by code_simp

definition demo_crashed :: JourneyStore where
  "demo_crashed = snd (processRungJob demo_env (jb_enrolmentId (hd (jn_jobs demo1))) (jb_rungIndex (hd (jn_jobs demo1)))
     (demo1\<lparr>jn_budget := Some 2\<rparr>))"

lemma demo_crashed_facts:
  "fst (processRungJob demo_env (jb_enrolmentId (hd (jn_jobs demo1))) (jb_rungIndex (hd (jn_jobs demo1)))
     (demo1\<lparr>jn_budget := Some 2\<rparr>)) = Inl Crashed"
  "find_enrolment demo_crashed (jb_enrolmentId (hd (jn_jobs demo1))) =
     Some (demo_enrolment\<lparr>en_rungExecCount := 1, en_lastRungAt := Some 0, en_currentRungIndex := 1\<rparr>)"
  "list_all (\<lambda>x. jb_rungIndex x \<noteq> jb_rungIndex (hd (jn_jobs demo1)) + 1) (jn_jobs demo_crashed)"
  by code_simp+

theorem crash_abandons_enrolment_witness:
  "\<exists>e'. en_id e' = en_id demo_enrolment \<and> en_state e' = ACTIVE \<and>
    (\<forall>st'. journey_runs demo_env (deliver demo_env (hd (jn_jobs demo1)) False (demo1\<lparr>jn_budget := Some 2\<rparr>)) st' \<longrightarrow>
       e' \<in> set (jn_enrolments st') \<and> tryEnrol demo_journey demo_payload st' = (Inr (), st') \<or>
       erased_between demo_env (deliver demo_env (hd (jn_jobs demo1)) False (demo1\<lparr>jn_budget := Some 2\<rparr>)) st' e')"
proof -
  let ?e = "demo_enrolment\<lparr>en_rungExecCount := 1, en_lastRungAt := Some 0, en_currentRungIndex := 1\<rparr>"
  have p: "processRungJob demo_env (jb_enrolmentId (hd (jn_jobs demo1))) (jb_rungIndex (hd (jn_jobs demo1)))
     (demo1\<lparr>jn_budget := Some 2\<rparr>) = (Inl Crashed, demo_crashed)"
    using demo_crashed_facts(1) by (simp add: demo_crashed_def prod_eq_iff)
  have e: "en_state ?e = ACTIVE" "en_currentRungIndex ?e = jb_rungIndex (hd (jn_jobs demo1)) + 1" by code_simp+
  have jobs: "\<forall>x\<in>set (jn_jobs demo_crashed). jb_enrolmentId x = jb_enrolmentId (hd (jn_jobs demo1)) \<longrightarrow>
      jb_rungIndex x \<noteq> jb_rungIndex (hd (jn_jobs demo1)) + 1"
    using demo_crashed_facts(3) by (simp add: list_all_iff)
  note c = crash_abandons_enrolment [OF demo_start demo_runs(2) demo_facts(1) p demo_crashed_facts(2) e jobs, of False]
  have j: "jo_id demo_journey = en_journeyId ?e \<and> tp_contactId demo_payload = en_contactId ?e \<and>
      jo_maxActivePerContact demo_journey \<le> 1"
    by (simp add: demo_enrolment_def new_enrolment_def demo_journey_def)
  show ?thesis
  proof (intro exI [of _ ?e] conjI allI impI)
    fix st'
    assume "journey_runs demo_env (deliver demo_env (hd (jn_jobs demo1)) False (demo1\<lparr>jn_budget := Some 2\<rparr>)) st'"
    from c [OF this] j show "?e \<in> set (jn_enrolments st') \<and> tryEnrol demo_journey demo_payload st' = (Inr (), st') \<or>
       erased_between demo_env (deliver demo_env (hd (jn_jobs demo1)) False (demo1\<lparr>jn_budget := Some 2\<rparr>)) st' ?e" by blast
  qed (use e(1) in simp_all)
qed

theorem caps_kept_witness: "caps demo1"
proof (rule caps_kept [OF demo_start demo_runs(1)])
  show "journeys_distinct demo0" by (simp add: journeys_distinct_def demo0_def)
  show "caps demo0" by (simp add: caps_def demo0_def active_count_def enrolments_of_def demo_journey_def)
  show "journey_step demo_env demo0 demo1" unfolding demo1_def by (rule journey_step.trigger)
  show "jn_journeys demo1 = jn_journeys demo0" by code_simp
qed

theorem journey_comes_to_rest_witness:
  "\<exists>st' e'. drive demo_env 4 (en_id demo_enrolment) (demo1\<lparr>jn_budget := None\<rparr>) = (Inr (), st') \<and>
     find_enrolment st' (en_id demo_enrolment) = Some e' \<and> en_state e' \<noteq> ACTIVE"
proof -
  have i: "jb_enrolmentId (hd (jn_jobs demo1)) = en_id demo_enrolment"
    using demo1_enrolment by (auto simp: find_enrolment_def dest: find_Some_in)
  then have "ready demo1 demo_enrolment" using demo_facts(1) demo1_rung unfolding ready_def by metis
  moreover obtain r st' where d: "drive demo_env 4 (en_id demo_enrolment) (demo1\<lparr>jn_budget := None\<rparr>) = (r, st')"
    by (cases "drive demo_env 4 (en_id demo_enrolment) (demo1\<lparr>jn_budget := None\<rparr>)")
  moreover have "fst (drive demo_env 4 (en_id demo_enrolment) (demo1\<lparr>jn_budget := None\<rparr>)) = Inr ()" by code_simp
  moreover have "length (rungs_of demo1 (en_journeyId demo_enrolment)) + 1 = 4" by code_simp
  ultimately show ?thesis
    using journey_comes_to_rest [OF demo_start demo_runs(2) demo1_enrolment [unfolded i], of r st'] demo1_rung by auto
qed

end
