(* ===== verification/Failure_Scope.thy ===== *)
theory Failure_Scope
  imports Contact_Tags
begin

text \<open>
  How a failed send is classified: \<^verbatim>\<open>apps/api/src/blasts/twilio-failure-scope.ts\<close>. The regular
  expressions are the searches they stand for, on the lower-cased text where they carry the \<open>i\<close> flag;
  \<open>error\<close> is \<open>String(error)\<close>. The lemmas show that the stored category keeps the scope.
\<close>

datatype FailureScope = INTERNAL | EXTERNAL

record ClassifiedFailure =
  cf_scope :: FailureScope
  cf_code :: "string option"
  cf_category :: string
  cf_normalizedCategory :: string

record FailureInput =
  fi_errorCode :: "string option"
  fi_errorMessage :: "string option"
  fi_messageStatus :: "string option"
  fi_error :: "string option"

definition EXTERNAL_CODE_CATEGORY :: "(string \<times> string) list" where
  "EXTERNAL_CODE_CATEGORY =
     [(''21211'', ''INVALID_DESTINATION''), (''21214'', ''UNREACHABLE_DESTINATION''), (''21217'', ''INVALID_DESTINATION''),
      (''21265'', ''SHORT_CODE_DESTINATION''), (''21408'', ''REGION_PERMISSION_BLOCK''), (''21610'', ''RECIPIENT_OPTOUT''),
      (''21612'', ''ROUTING_COMBINATION_BLOCK''), (''21614'', ''INVALID_MOBILE_DESTINATION''), (''63033'', ''RECIPIENT_OPTOUT''),
      (''63016'', ''WHATSAPP_SESSION_WINDOW_CLOSED''), (''63051'', ''WHATSAPP_RECIPIENT_UNAVAILABLE'')]"

definition is_code :: "string \<Rightarrow> bool" where
  "is_code s \<longleftrightarrow> list_all is_digit s \<and> 3 \<le> length s \<and> length s \<le> 6"

definition normalizeErrorCode :: "string option \<Rightarrow> string option" where
  "normalizeErrorCode raw =
     (case raw of None \<Rightarrow> None
      | Some s \<Rightarrow> if s = [] then None else if is_code (js_trim s) then Some (js_trim s) else None)"

text \<open>\<open>/(?:error(?:\s*code)?|code)\D*(\d{3,6})/i\<close>: what may stand between the word and the digits is anything that
  is not a digit, so the optional part makes no difference.\<close>

definition code_after :: "string \<Rightarrow> string option" where
  "code_after rest =
     (let ds = takeWhile is_digit (dropWhile (\<lambda>c. \<not> is_digit c) rest) in
      if 3 \<le> length ds then Some (take 6 ds) else None)"

fun explicit_code :: "string \<Rightarrow> string option" where
  "explicit_code [] = None"
| "explicit_code (c # cs) =
     (let hit = (if starts_with (c # cs) ''error'' then code_after (drop 5 (c # cs))
                 else if starts_with (c # cs) ''code'' then code_after (drop 4 (c # cs)) else None) in
      case hit of Some d \<Rightarrow> Some d | None \<Rightarrow> explicit_code cs)"

text \<open>\<open>/\b([1-9]\d{3,5})\b/\<close>; the flag says whether the previous character is a word character.\<close>

fun bare_code :: "bool \<Rightarrow> string \<Rightarrow> string option" where
  "bare_code prev [] = None"
| "bare_code prev (c # cs) =
     (let ds = takeWhile is_digit (c # cs); rest = dropWhile is_digit (c # cs) in
      if \<not> prev \<and> is_digit c \<and> c \<noteq> CHR ''0'' \<and> 4 \<le> length ds \<and> length ds \<le> 6 \<and>
         (rest = [] \<or> \<not> word_char (hd rest))
      then Some ds else bare_code (word_char c) cs)"

definition extractCodeFromText :: "string \<Rightarrow> string option" where
  "extractCodeFromText txt =
     (case explicit_code (js_lower txt) of Some d \<Rightarrow> Some d | None \<Rightarrow> bare_code False txt)"

definition classifyExternalByCode :: "string \<Rightarrow> string option" where
  "classifyExternalByCode code =
     (case map_of EXTERNAL_CODE_CATEGORY code of
        Some c \<Rightarrow> Some c
      | None \<Rightarrow>
          (let numeric = digits_val code in
           if 30000 \<le> numeric \<and> numeric \<le> 39999 then Some ''CARRIER_OR_DESTINATION''
           else if 63000 \<le> numeric \<and> numeric \<le> 63999 then Some ''WHATSAPP_CHANNEL''
           else None))"

text \<open>\<open>/24.?hour window/\<close>: the dot is any character but a line terminator.\<close>

fun hour_window :: "string \<Rightarrow> bool" where
  "hour_window [] = False"
| "hour_window (c # cs) =
     (starts_with (c # cs) ''24'' \<and>
        (starts_with (drop 2 (c # cs)) ''hour window'' \<or>
         (drop 2 (c # cs) \<noteq> [] \<and> (of_char (hd (drop 2 (c # cs))) :: nat) \<notin> {10, 13} \<and>
          starts_with (drop 3 (c # cs)) ''hour window'')) \<or>
      hour_window cs)"

definition any_of :: "string list \<Rightarrow> string \<Rightarrow> bool" where
  "any_of ps s = list_ex (\<lambda>p. str_includes s p) ps"

definition classifyExternalByText :: "string \<Rightarrow> string option" where
  "classifyExternalByText txt =
     (let s = js_lower txt in
      if any_of [''unreachable'', ''unknown destination handset'', ''landline'', ''destination handset'',
                 ''carrier network congestion'', ''message filtered'', ''message blocked''] s
      then Some ''CARRIER_OR_DESTINATION''
      else if any_of [''opted out'', ''unsubscribed recipient'', ''reply stop''] s then Some ''RECIPIENT_OPTOUT''
      else if any_of [''outside the allowed window'', ''session window'', ''reengagement'', ''re-engagement''] s \<or> hour_window s
      then Some ''WHATSAPP_SESSION_WINDOW_CLOSED''
      else if any_of [''short code'', ''not a valid mobile'', ''invalid '' @ [CHR 39] @ ''to'' @ [CHR 39] @ '' phone number'',
                      [CHR 39] @ ''to'' @ [CHR 39] @ '' phone number cannot be reached''] s
      then Some ''INVALID_DESTINATION''
      else if any_of [''destination region permissions disabled''] s then Some ''REGION_PERMISSION_BLOCK''
      else None)"

definition classifyInternalByText :: "string \<Rightarrow> string" where
  "classifyInternalByText txt =
     (let s = js_lower txt in
      if any_of [''auth'', ''permission denied'', ''unauthorized'', ''invalid token'', ''401'', ''403''] s then ''AUTH''
      else if any_of [''timeout'', ''timed out'', ''network'', ''fetch'', ''econn'', ''enotfound'', ''socket hang up''] s
      then ''NETWORK''
      else if any_of [''bad request'', ''invalid request'', ''validation'', ''malformed'', ''400''] s then ''INVALID_REQUEST''
      else if any_of [''internal error'', ''service unavailable'', ''provider timeout'', ''503''] s then ''PROVIDER''
      else ''UNKNOWN'')"

definition failure_text :: "FailureInput \<Rightarrow> string" where
  "failure_text i =
     js_trim (join_strings '' ''
       [case fi_messageStatus i of None \<Rightarrow> [] | Some s \<Rightarrow> s, case fi_errorMessage i of None \<Rightarrow> [] | Some s \<Rightarrow> s,
        case fi_error i of None \<Rightarrow> [] | Some s \<Rightarrow> s])"

definition external_failure :: "string option \<Rightarrow> string \<Rightarrow> ClassifiedFailure" where
  "external_failure code category =
     \<lparr>cf_scope = EXTERNAL, cf_code = code, cf_category = category, cf_normalizedCategory = ''EXTERNAL_'' @ category\<rparr>"

definition classifyFailureScope :: "FailureInput \<Rightarrow> ClassifiedFailure" where
  "classifyFailureScope i =
     (let txt = failure_text i;
          normalizedCode = (case normalizeErrorCode (fi_errorCode i) of
            Some c \<Rightarrow> Some c | None \<Rightarrow> normalizeErrorCode (extractCodeFromText txt)) in
      case Option.bind normalizedCode classifyExternalByCode of
        Some category \<Rightarrow> external_failure normalizedCode category
      | None \<Rightarrow>
          (case classifyExternalByText txt of
             Some category \<Rightarrow> external_failure normalizedCode category
           | None \<Rightarrow>
               (let category = classifyInternalByText txt in
                \<lparr>cf_scope = INTERNAL, cf_code = normalizedCode, cf_category = category,
                 cf_normalizedCategory = ''INTERNAL_'' @ category\<rparr>)))"

definition scopeFromStoredFailure :: "string option \<Rightarrow> string option \<Rightarrow> string option \<Rightarrow> FailureScope" where
  "scopeFromStoredFailure failureCategory errorCode errorMessage =
     (let existing = js_upper (js_trim (case failureCategory of None \<Rightarrow> [] | Some c \<Rightarrow> c)) in
      if starts_with existing ''EXTERNAL_'' then EXTERNAL
      else if starts_with existing ''INTERNAL_'' then INTERNAL
      else cf_scope (classifyFailureScope
             \<lparr>fi_errorCode = errorCode, fi_errorMessage = errorMessage, fi_messageStatus = None, fi_error = None\<rparr>))"

section \<open>The stored category keeps the scope\<close>

lemma js_trim_word_append:
  assumes "p \<noteq> []" "\<not> list_ex js_space p"
  shows "\<exists>q. js_trim (p @ s) = p @ q"
proof -
  from assms obtain c p' where p: "p = c # p'" "\<not> js_space c" by (cases p) auto
  have "dropWhile js_space (rev (p @ s)) = dropWhile js_space (rev s) @ rev p"
  proof (cases "\<forall>x\<in>set s. js_space x")
    case True
    have l: "\<not> js_space (last p)" using assms by (auto simp: list_ex_iff)
    have "dropWhile js_space (rev p) = rev p"
      using l assms(1) by (intro dropWhile_id) (simp add: hd_rev)
    moreover have "dropWhile js_space (rev s @ rev p) = dropWhile js_space (rev p)"
      using True by (intro dropWhile_append2) simp
    moreover have "dropWhile js_space (rev s) = []" using True by (simp add: dropWhile_eq_Nil_conv)
    ultimately show ?thesis by simp
  next
    case False
    then show ?thesis by (auto simp: dropWhile_append1)
  qed
  then show ?thesis using p by (auto simp: js_trim_def)
qed

lemma trimmed_prefix:
  assumes "p \<noteq> []" "\<not> list_ex js_space p"
  shows "starts_with (js_upper (js_trim (p @ s))) (js_upper p)"
  using js_trim_word_append [OF assms, of s] by (auto simp: starts_with_def js_upper_def)

lemma stored_scope_external: "scopeFromStoredFailure (Some (''EXTERNAL_'' @ c)) code msg = EXTERNAL"
proof -
  have "\<not> list_ex js_space ''EXTERNAL_''" "js_upper ''EXTERNAL_'' = ''EXTERNAL_''" by code_simp+
  with trimmed_prefix [of "''EXTERNAL_''" c] show ?thesis by (simp add: scopeFromStoredFailure_def Let_def)
qed

lemma stored_scope_internal: "scopeFromStoredFailure (Some (''INTERNAL_'' @ c)) code msg = INTERNAL"
proof -
  have "\<not> list_ex js_space ''INTERNAL_''" "js_upper ''INTERNAL_'' = ''INTERNAL_''" by code_simp+
  with js_trim_word_append [of "''INTERNAL_''" c] trimmed_prefix [of "''INTERNAL_''" c] show ?thesis
    by (auto simp: scopeFromStoredFailure_def Let_def starts_with_def js_upper_def)
qed

lemma classified_category:
  "cf_normalizedCategory (classifyFailureScope i) =
     (case cf_scope (classifyFailureScope i) of EXTERNAL \<Rightarrow> ''EXTERNAL_'' | INTERNAL \<Rightarrow> ''INTERNAL_'') @
     cf_category (classifyFailureScope i)"
  by (simp add: classifyFailureScope_def external_failure_def Let_def split: option.split)

lemma stored_scope_classified:
  "scopeFromStoredFailure (Some (cf_normalizedCategory (classifyFailureScope i))) code msg =
     cf_scope (classifyFailureScope i)"
  unfolding classified_category
  by (cases "cf_scope (classifyFailureScope i)") (simp_all only: FailureScope.case stored_scope_external stored_scope_internal)

text \<open>An error text that quotes the destination yields the first six digits of the phone as its error code.\<close>

lemma phone_read_as_error_code:
  assumes "list_all (\<lambda>c. \<not> is_digit c) msg" "list_all is_digit phone" "3 \<le> length phone"
  shows "extractCodeFromText (''Error: '' @ msg @ phone) = Some (take 6 phone)"
proof -
  have d: "is_digit (lower_char c) = is_digit c \<and> (is_digit c \<longrightarrow> lower_char c = c)" for c
    by (auto simp: is_digit_def lower_char_def Let_def)
  have e: "js_lower ''Error: '' = ''error: ''" by code_simp
  have p: "map lower_char phone = phone" using assms(2) d by (induction phone) auto
  have m: "list_all (\<lambda>c. \<not> is_digit c) (map lower_char msg)" using assms(1) d by (induction msg) auto
  have s: "\<not> is_digit CHR '':''" "\<not> is_digit CHR '' ''" by code_simp+
  have dw: "dropWhile (\<lambda>c. \<not> is_digit c) (map lower_char msg @ phone) = phone"
  proof -
    have "dropWhile (\<lambda>c. \<not> is_digit c) phone = phone"
      using assms(2,3) by (intro dropWhile_id) (cases phone; auto)
    moreover have "dropWhile (\<lambda>c. \<not> is_digit c) (map lower_char msg @ phone) = dropWhile (\<lambda>c. \<not> is_digit c) phone"
      using m by (intro dropWhile_append2) (auto simp: list_all_iff)
    ultimately show ?thesis by simp
  qed
  have tw: "takeWhile is_digit phone = phone" using assms(2) by (auto simp: takeWhile_eq_all_conv list_all_iff)
  have "code_after (drop 5 (''error: '' @ map lower_char msg @ phone)) = Some (take 6 phone)"
    using assms(3) dw tw s by (simp add: code_after_def Let_def del: takeWhile_eq_all_conv)
  then have "explicit_code (''error: '' @ map lower_char msg @ phone) = Some (take 6 phone)"
    by (simp add: starts_with_def)
  then show ?thesis using e p by (simp add: extractCodeFromText_def js_lower_def)
qed

end
