(* ===== verification/Blast_Rendering.thy ===== *)
theory Blast_Rendering
  imports Failure_Scope Messaging_Consent Js_Values
begin

text \<open>
  What a blast's text is made of, and what is recorded beside it: the context of
  \<^verbatim>\<open>apps/api/src/blasts/template-renderer.service.ts\<close>, the warnings of \<^verbatim>\<open>compliance.service.ts\<close> with the quiet
  hours of \<^verbatim>\<open>common/utils/date.utils.ts\<close>, and the bounded trace that \<^verbatim>\<open>blasts.service.ts\<close> keeps in a recipient's
  metadata (\<open>appendRecipientTrace\<close>). Handlebars is an argument: \<open>compile\<close> takes the template and the context and may
  throw.
\<close>

section \<open>The rendering context\<close>

definition pickFirstNonEmptyString :: "json option list \<Rightarrow> string option" where
  "pickFirstNonEmptyString values =
     (case filter (\<lambda>s. s \<noteq> []) (map js_trim (List.map_filter jstring values)) of [] \<Rightarrow> None | s # _ \<Rightarrow> Some s)"

definition object_at :: "json \<Rightarrow> string \<Rightarrow> json option" where
  "object_at j k = (case jget j k of Some v \<Rightarrow> if is_jobj v then Some v else None | None \<Rightarrow> None)"

definition opt_get :: "json option \<Rightarrow> string \<Rightarrow> json option" where
  "opt_get j k = (case j of None \<Rightarrow> None | Some v \<Rightarrow> jget v k)"

text \<open>\<open>{ ...source }\<close>\<close>

fun index_keys :: "nat \<Rightarrow> 'a list \<Rightarrow> (string \<times> 'a) list" where
  "index_keys i [] = []"
| "index_keys i (x # xs) = (nat_to_string i, x) # index_keys (i + 1) xs"

fun spread :: "json \<Rightarrow> (string \<times> json) list" where
  "spread (JObj kvs) = kvs"
| "spread (JArr xs) = index_keys 0 xs"
| "spread (JStr s) = index_keys 0 (map (\<lambda>c. JStr [c]) s)"
| "spread j = []"

definition normalizeContext :: "json \<Rightarrow> (string \<times> json) list" where
  "normalizeContext source =
     (let person = (case object_at source ''actionNetwork'' of None \<Rightarrow> None | Some an \<Rightarrow> object_at an ''person'');
          firstName = (case pickFirstNonEmptyString
              [jget source ''first_name'', jget source ''firstname'', jget source ''firstName'',
               opt_get person ''given_name'', opt_get person ''first_name''] of None \<Rightarrow> ''friend'' | Some s \<Rightarrow> s);
          address = (case opt_get person ''postal_addresses'' of Some (JArr (a # _)) \<Rightarrow> Some a | _ \<Rightarrow> None);
          location = (case pickFirstNonEmptyString
              [jget source ''location'', jget source ''suburb'', jget source ''locality'', jget source ''city'',
               jget source ''town'', opt_get address ''locality''] of None \<Rightarrow> ''your area'' | Some s \<Rightarrow> s) in
      tset ''location'' (JStr location)
        (tset ''firstName'' (JStr firstName)
          (tset ''firstname'' (JStr firstName) (tset ''first_name'' (JStr firstName) (spread source)))))"

definition render ::
  "(string \<Rightarrow> (string \<times> json) list \<Rightarrow> string res) \<Rightarrow> string \<Rightarrow> json \<Rightarrow> string res" where
  "render compile template context = compile template (normalizeContext context)"

section \<open>Compliance warnings\<close>

definition isWithinQuietHours :: "int \<Rightarrow> int \<Rightarrow> int \<Rightarrow> bool" where
  "isWithinQuietHours hour quietStartHour quietEndHour =
     (if quietStartHour = quietEndHour then False
      else if quietStartHour > quietEndHour then hour \<ge> quietStartHour \<or> hour < quietEndHour
      else hour \<ge> quietStartHour \<and> hour < quietEndHour)"

text \<open>\<open>/reply\s+stop/i\<close>\<close>

fun has_reply_stop :: "string \<Rightarrow> bool" where
  "has_reply_stop [] = False"
| "has_reply_stop (c # cs) =
     (let rest = drop 5 (c # cs) in
      starts_with (c # cs) ''reply'' \<and> rest \<noteq> [] \<and> js_space (hd rest) \<and> starts_with (dropWhile js_space rest) ''stop'' \<or>
      has_reply_stop cs)"

record ComplianceConfig =
  co_requireOptOut :: bool
  co_quietStart :: int
  co_quietEnd :: int

definition validateMessageForSend :: "ComplianceConfig \<Rightarrow> string \<Rightarrow> int \<Rightarrow> bool \<times> string list" where
  "validateMessageForSend cfg body hour =
     (let warnings =
        (if co_requireOptOut cfg \<and> \<not> has_reply_stop (js_lower body)
         then [''Message is missing opt-out language (e.g. Reply STOP to opt out).''] else []) @
        (if isWithinQuietHours hour (co_quietStart cfg) (co_quietEnd cfg)
         then [''Current local time is inside configured quiet hours.''] else []) in
      (warnings = [], warnings))"

section \<open>The recipient trace\<close>

record RecipientTraceInput =
  ti_status :: string
  ti_source :: string
  ti_scope :: "string option"
  ti_category :: "string option"
  ti_reason :: "string option"
  ti_code :: "string option"
  ti_detail :: "string option"

definition trace_field :: "string \<Rightarrow> string option \<Rightarrow> (string \<times> json) list" where
  "trace_field k v = (case v of Some s \<Rightarrow> if s = [] then [] else [(k, JStr s)] | None \<Rightarrow> [])"

definition trace_entry :: "string \<Rightarrow> RecipientTraceInput \<Rightarrow> json" where
  "trace_entry when i =
     JObj ([(''at'', JStr when), (''status'', JStr (ti_status i)), (''source'', JStr (ti_source i))] @
           trace_field ''scope'' (ti_scope i) @ trace_field ''category'' (ti_category i) @
           trace_field ''reason'' (ti_reason i) @ trace_field ''code'' (ti_code i) @ trace_field ''detail'' (ti_detail i))"

definition existing_trace :: "(string \<times> json) list \<Rightarrow> json list" where
  "existing_trace base = (case map_of base ''trace'' of Some (JArr xs) \<Rightarrow> filter is_jobj xs | _ \<Rightarrow> [])"

definition object_fields :: "json option \<Rightarrow> (string \<times> json) list" where
  "object_fields metadata = (case metadata of Some (JObj kvs) \<Rightarrow> kvs | _ \<Rightarrow> [])"

definition appendRecipientTrace :: "json option \<Rightarrow> RecipientTraceInput \<Rightarrow> string \<Rightarrow> json" where
  "appendRecipientTrace metadata i when =
     (let base = object_fields metadata; existing = existing_trace base in
      JObj (tset ''trace'' (JArr (drop (length existing - 49) existing @ [trace_entry when i])) base))"

definition extractRecipientContext :: "json option \<Rightarrow> json" where
  "extractRecipientContext metadata =
     (case map_of (object_fields metadata) ''context'' of Some (JObj kvs) \<Rightarrow> JObj kvs | _ \<Rightarrow> JObj [])"

text \<open>The trace holds at most 50 entries, the last of which is the new one, and nothing else of the metadata changes.\<close>

lemma trace_bounded:
  "\<exists>xs. map_of (object_fields (Some (appendRecipientTrace m i when))) ''trace'' = Some (JArr (xs @ [trace_entry when i])) \<and>
     length (xs @ [trace_entry when i]) \<le> 50"
  by (intro exI [of _ "drop (length (existing_trace (object_fields m)) - 49) (existing_trace (object_fields m))"])
    (simp add: appendRecipientTrace_def object_fields_def Let_def tget_tset [unfolded tget_def])

lemma trace_keeps:
  "k \<noteq> ''trace'' \<Longrightarrow>
   map_of (object_fields (Some (appendRecipientTrace m i when))) k = map_of (object_fields m) k"
  by (simp add: appendRecipientTrace_def Let_def tget_tset [unfolded tget_def])
    (simp add: object_fields_def tget_tset [unfolded tget_def])

lemma context_kept [simp]:
  "extractRecipientContext (Some (appendRecipientTrace m i when)) = extractRecipientContext m"
  unfolding extractRecipientContext_def by (subst trace_keeps) simp_all

section \<open>Content variables\<close>

text \<open>The variables of a WhatsApp template. The context's own properties are read.\<close>

definition buildContentVariables :: "JsEnv \<Rightarrow> json option \<Rightarrow> json \<Rightarrow> (string \<times> string) list option" where
  "buildContentVariables lg m context =
     (case m of
        Some (JObj kvs) \<Rightarrow>
          (let out = map (\<lambda>(slot, key). (slot,
                 case jget context (js_String lg key) of None \<Rightarrow> [] | Some v \<Rightarrow> if v = JNull then [] else js_String lg v)) kvs in
           if out = [] then None else Some out)
      | _ \<Rightarrow> None)"

end
