(* ===== verification/Audience_Recipients.thy ===== *)
theory Audience_Recipients
  imports Segment_Evaluator Messaging_Consent
begin

text \<open>
  From an audience to the phones behind it: \<^verbatim>\<open>apps/api/src/audiences/audience-recipients.resolver.ts\<close>. The
  columns of the \<open>AudienceSegment\<close> model that the evaluator does not read are in a table of their own, keyed by
  the segment's id; \<open>lastEvaluatedAt\<close> is the evaluator's. Tables are in creation order. Contact metadata, which
  the resolver copies, is a lookup by contact id. The lemmas show that the two entry points resolve the same
  phones in the same order, and what a recipient of each kind of audience is.
\<close>

record AudienceRow =
  au_id :: string
  au_tenantId :: string
  au_whatsappOptedIn :: bool

record AudienceContactRow =
  ac_audienceId :: string
  ac_tenantId :: string
  ac_contactId :: "string option"
  ac_phoneE164 :: string
  ac_metadata :: "json option"

record AudienceSegmentRow =
  ag_id :: string
  ag_audienceId :: string
  ag_tenantId :: string
  ag_dynamic :: bool
  ag_seed :: "string option"

record AudienceStore =
  ad_audiences :: "AudienceRow list"
  ad_contacts :: "AudienceContactRow list"
  ad_segments :: "AudienceSegmentRow list"
  ad_store :: SegmentStore
  ad_metadata :: "string \<Rightarrow> json option"

text \<open>What the resolver is constructed with: the evaluator (absent in unit specs) with its environment, the
  configured staleness (\<open>Number(...)\<close>, \<open>None\<close> when not finite), the hash and the clock.\<close>

record ResolverEnv =
  re_leaf :: LeafEnv
  re_js :: JsEnv
  re_decode :: "json \<Rightarrow> SegmentDefinitionV2 option"
  re_leafResolver :: bool
  re_evaluator :: bool
  re_staleMinutes :: "rat option"
  re_sha256 :: "string \<Rightarrow> string"
  re_now :: rat

record AudienceRecipient =
  ar_contactId :: "string option"
  ar_phoneE164 :: string
  ar_metadata :: json

datatype AudienceMemberOrder =
    ContactIds "string list"
  | Members "(string option \<times> string) list"

section \<open>Contactable rows\<close>

text \<open>\<open>metadata.contactable\<close>, when the metadata is an object and the property a boolean.\<close>

definition contactable_flag :: "json option \<Rightarrow> bool option" where
  "contactable_flag metadata =
     (case metadata of
        Some (JObj kvs) \<Rightarrow> (case map_of kvs ''contactable'' of Some (JBool b) \<Rightarrow> Some b | _ \<Rightarrow> None)
      | _ \<Rightarrow> None)"

text \<open>\<open>(metadata as Record) || {}\<close>\<close>

definition or_empty :: "json option \<Rightarrow> json" where
  "or_empty m = (if js_truthy m then the m else JObj [])"

section \<open>Dynamic segments\<close>

definition loadDynamicSegments :: "AudienceStore \<Rightarrow> string \<Rightarrow> string \<Rightarrow> AudienceSegmentRow list" where
  "loadDynamicSegments st tenantId audienceId =
     filter (\<lambda>g. ag_audienceId g = audienceId \<and> ag_tenantId g = tenantId \<and> ag_dynamic g) (ad_segments st)"

definition stale_minutes :: "ResolverEnv \<Rightarrow> rat" where
  "stale_minutes env = (case re_staleMinutes env of Some m \<Rightarrow> if m > 0 then m else 15 | None \<Rightarrow> 15)"

definition lastEvaluatedAt :: "AudienceStore \<Rightarrow> string \<Rightarrow> rat option" where
  "lastEvaluatedAt st segmentId =
     (case find (\<lambda>s. sg_id s = segmentId) (st_segments (ad_store st)) of
        None \<Rightarrow> None | Some s \<Rightarrow> sg_lastEvaluatedAt s)"

text \<open>The seed of an engine-v2 audience: exactly one dynamic segment, with a seed.\<close>

definition v2_segment :: "AudienceSegmentRow list \<Rightarrow> (string \<times> string) option" where
  "v2_segment segs =
     (case segs of
        [g] \<Rightarrow> (case ag_seed g of Some seed \<Rightarrow> if seed = [] then None else Some (ag_id g, seed) | None \<Rightarrow> None)
      | _ \<Rightarrow> None)"

definition refresh :: "ResolverEnv \<Rightarrow> AudienceStore \<Rightarrow> string \<Rightarrow> AudienceStore res" where
  "refresh env st segmentId =
     (let staleBefore = re_now env - stale_minutes env * 60000 in
      if (case lastEvaluatedAt st segmentId of None \<Rightarrow> True | Some t \<Rightarrow> t < staleBefore)
      then rbind (evaluate (re_leaf env) (re_js env) (re_decode env) (re_leafResolver env) (ad_store st) segmentId)
             (\<lambda>(n, store). Inr (st\<lparr>ad_store := store\<rparr>))
      else Inr st)"

definition segment_contact_ids :: "AudienceStore \<Rightarrow> string list \<Rightarrow> string list" where
  "segment_contact_ids st segmentIds =
     js_set (map snd (filter (\<lambda>m. fst m \<in> set segmentIds) (st_members (ad_store st))))"

definition orderedSegmentContactIds ::
  "ResolverEnv \<Rightarrow> AudienceStore \<Rightarrow> AudienceSegmentRow list \<Rightarrow> (string list \<times> AudienceStore) res" where
  "orderedSegmentContactIds env st segs =
     (let v2 = v2_segment segs in
      rbind (case v2 of
               Some (segmentId, seed) \<Rightarrow> if re_evaluator env then refresh env st segmentId else Inr st
             | None \<Rightarrow> Inr st) (\<lambda>st.
        let contactIds = segment_contact_ids st (map ag_id segs) in
        Inr (case v2 of Some (segmentId, seed) \<Rightarrow> orderByHash (re_sha256 env) contactIds seed | None \<Rightarrow> contactIds, st)))"

section \<open>The two entry points\<close>

definition is_opt_in_audience :: "AudienceStore \<Rightarrow> string \<Rightarrow> string \<Rightarrow> bool" where
  "is_opt_in_audience st tenantId audienceId =
     (case find (\<lambda>a. au_id a = audienceId \<and> au_tenantId a = tenantId) (ad_audiences st) of
        None \<Rightarrow> False | Some a \<Rightarrow> au_whatsappOptedIn a)"

definition opt_ins :: "AudienceStore \<Rightarrow> string \<Rightarrow> ConsentRow list" where
  "opt_ins st tenantId =
     filter (\<lambda>c. cc_tenantId c = tenantId \<and> cc_channel c = ''WHATSAPP'' \<and> cc_state c = ''OPTED_IN'')
       (db_contactConsent (st_db (ad_store st)))"

text \<open>\<open>dedup.set(phone, ...)\<close> over the rows: the first occurrence keeps the place, the last one the value.\<close>

definition dedup :: "('r \<Rightarrow> string) \<Rightarrow> ('r \<Rightarrow> 'v) \<Rightarrow> 'r list \<Rightarrow> (string, 'v) table" where
  "dedup phone val rows = fold (\<lambda>r. tset (phone r) (val r)) rows []"

definition contact_with_phone :: "AudienceStore \<Rightarrow> string \<Rightarrow> string \<Rightarrow> (string \<times> string) option" where
  "contact_with_phone st tenantId cid =
     (case find (\<lambda>c. ct_id c = cid \<and> ct_tenantId c = tenantId) (db_contact (st_db (ad_store st))) of
        None \<Rightarrow> None
      | Some c \<Rightarrow> (case ct_phoneE164 c of Some p \<Rightarrow> if p = [] then None else Some (cid, p) | None \<Rightarrow> None))"

definition contactable_rows :: "AudienceStore \<Rightarrow> string \<Rightarrow> AudienceContactRow list" where
  "contactable_rows st audienceId =
     filter (\<lambda>c. isContactable (ac_phoneE164 c) (contactable_flag (ac_metadata c)))
       (filter (\<lambda>c. ac_audienceId c = audienceId) (ad_contacts st))"

definition resolvePhoneRecipients ::
  "ResolverEnv \<Rightarrow> AudienceStore \<Rightarrow> string \<Rightarrow> string \<Rightarrow> (AudienceRecipient list \<times> AudienceStore) res" where
  "resolvePhoneRecipients env st tenantId audienceId =
     (if is_opt_in_audience st tenantId audienceId
      then Inr (tvals (dedup cc_phoneE164
             (\<lambda>c. \<lparr>ar_contactId = cc_contactId c, ar_phoneE164 = cc_phoneE164 c, ar_metadata = JObj []\<rparr>)
             (opt_ins st tenantId)), st)
      else let segs = loadDynamicSegments st tenantId audienceId in
        if segs \<noteq> []
        then rbind (orderedSegmentContactIds env st segs) (\<lambda>(contactIds, st).
               Inr (tvals (dedup snd
                 (\<lambda>(cid, p). \<lparr>ar_contactId = Some cid, ar_phoneE164 = p, ar_metadata = or_empty (ad_metadata st cid)\<rparr>)
                 (List.map_filter (contact_with_phone st tenantId) contactIds)), st))
        else Inr (tvals (dedup ac_phoneE164
               (\<lambda>c. \<lparr>ar_contactId = ac_contactId c, ar_phoneE164 = ac_phoneE164 c, ar_metadata = or_empty (ac_metadata c)\<rparr>)
               (contactable_rows st audienceId)), st))"

definition resolveOrderedMembers ::
  "ResolverEnv \<Rightarrow> AudienceStore \<Rightarrow> string \<Rightarrow> string \<Rightarrow> (AudienceMemberOrder \<times> AudienceStore) res" where
  "resolveOrderedMembers env st tenantId audienceId =
     (if is_opt_in_audience st tenantId audienceId
      then Inr (Members (tvals (dedup cc_phoneE164 (\<lambda>c. (cc_contactId c, cc_phoneE164 c)) (opt_ins st tenantId))), st)
      else let segs = loadDynamicSegments st tenantId audienceId in
        if segs \<noteq> []
        then rbind (orderedSegmentContactIds env st segs) (\<lambda>(contactIds, st). Inr (ContactIds contactIds, st))
        else Inr (Members (tvals (dedup ac_phoneE164 (\<lambda>c. (ac_contactId c, ac_phoneE164 c))
               (contactable_rows st audienceId))), st))"

section \<open>What deduplication keeps\<close>

lemma map_tset: "map (map_prod id f) (tset k v t) = tset k (f v) (map (map_prod id f) t)"
  by (induction k v t rule: tset.induct) auto

lemma dedup_map: "map (map_prod id f) (dedup phone val rows) = dedup phone (f \<circ> val) rows"
proof -
  have "map (map_prod id f) (fold (\<lambda>r. tset (phone r) (val r)) rows t)
      = fold (\<lambda>r. tset (phone r) ((f \<circ> val) r)) rows (map (map_prod id f) t)" for t
    by (induction rows arbitrary: t) (simp_all add: map_tset)
  from this [of "[]"] show ?thesis by (simp add: dedup_def)
qed

lemma tvals_dedup_map: "map f (tvals (dedup phone val rows)) = tvals (dedup phone (f \<circ> val) rows)"
  unfolding dedup_map [symmetric] tvals_def by simp

lemma dedup_inv:
  assumes "\<And>r. r \<in> set rows \<Longrightarrow> P (phone r) (val r)" "\<And>k v. (k, v) \<in> set t \<Longrightarrow> P k v"
    "distinct (map fst t)" "kv \<in> set (fold (\<lambda>r. tset (phone r) (val r)) rows t)"
  shows "P (fst kv) (snd kv)"
  using assms
proof (induction rows arbitrary: t)
  case (Cons r rows)
  have t: "P k v" if "(k, v) \<in> set (tset (phone r) (val r) t)" for k v
  proof -
    have "(k, v) = (phone r, val r) \<or> (k, v) \<in> set t"
      using that by (induction "phone r" "val r" t rule: tset.induct) (auto split: if_splits)
    with Cons.prems show ?thesis by auto
  qed
  have "distinct (map fst (tset (phone r) (val r) t))"
    using Cons.prems(3) distinct_tset [of t "phone r" "val r"] by (simp add: tkeys_def)
  with Cons t show ?case by (intro Cons.IH [of "tset (phone r) (val r) t"]) auto
qed (cases kv; simp)

lemma dedup_entry:
  assumes "kv \<in> set (dedup phone val rows)" "\<And>r. r \<in> set rows \<Longrightarrow> P (phone r) (val r)"
  shows "P (fst kv) (snd kv)"
  using assms dedup_inv [of rows P phone val "[]" kv] by (simp add: dedup_def)

lemma dedup_source:
  assumes "kv \<in> set (dedup phone val rows)"
  shows "\<exists>r\<in>set rows. fst kv = phone r \<and> snd kv = val r"
  using dedup_entry [OF assms, of "\<lambda>k v. \<exists>r\<in>set rows. k = phone r \<and> v = val r"] by blast

lemma distinct_dedup: "distinct (map fst (dedup phone val rows))"
proof -
  have "distinct (map fst (fold (\<lambda>r. tset (phone r) (val r)) rows t))" if "distinct (map fst t)" for t
    using that
  proof (induction rows arbitrary: t)
    case (Cons r rows)
    then show ?case using distinct_tset [of t "phone r" "val r"] by (simp add: tkeys_def)
  qed simp
  then show ?thesis by (simp add: dedup_def)
qed

lemma dedup_keys_set: "set (map fst (dedup phone val rows)) = phone ` set rows"
proof -
  have "set (map fst (fold (\<lambda>r. tset (phone r) (val r)) rows t)) = phone ` set rows \<union> set (map fst t)" for t
  proof (induction rows arbitrary: t)
    case (Cons r rows)
    then show ?case using set_tkeys_tset [of "phone r" "val r" t] by (auto simp: tkeys_def)
  qed simp
  from this [of "[]"] show ?thesis by (simp add: dedup_def)
qed

text \<open>Recipients are keyed by their phone, so the phones are distinct.\<close>

lemma dedup_phones:
  assumes "\<And>r. r \<in> set rows \<Longrightarrow> key (val r) = phone r"
  shows "map key (tvals (dedup phone val rows)) = map fst (dedup phone val rows)"
  unfolding tvals_def using dedup_source [of _ phone val rows] assms by (fastforce simp: comp_def)

section \<open>Where a recipient comes from\<close>

text \<open>What is known of a recipient, by the kind of audience.\<close>

definition recipient_source :: "AudienceStore \<Rightarrow> string \<Rightarrow> string \<Rightarrow> AudienceRecipient \<Rightarrow> bool" where
  "recipient_source st tenantId audienceId r \<longleftrightarrow>
     (if is_opt_in_audience st tenantId audienceId
      then \<exists>c\<in>set (opt_ins st tenantId). cc_phoneE164 c = ar_phoneE164 r
      else if loadDynamicSegments st tenantId audienceId \<noteq> []
      then \<exists>cid. ar_contactId r = Some cid \<and> contact_with_phone st tenantId cid = Some (cid, ar_phoneE164 r) \<and>
             cid \<in> set (segment_contact_ids st (map ag_id (loadDynamicSegments st tenantId audienceId)))
      else \<exists>c\<in>set (contactable_rows st audienceId). ac_phoneE164 c = ar_phoneE164 r \<and> ac_contactId c = ar_contactId r)"

lemma ordered_ids:
  assumes "orderedSegmentContactIds env st segs = Inr (ids, st')"
  shows "set ids = set (segment_contact_ids st' (map ag_id segs))" "ad_contacts st' = ad_contacts st"
    "ad_audiences st' = ad_audiences st" "ad_segments st' = ad_segments st"
    "st_db (ad_store st') = st_db (ad_store st)"
  using assms
  by (auto simp: orderedSegmentContactIds_def refresh_def Let_def rbind_Inr_iff evaluate_def split: option.splits if_splits prod.splits)

lemma contact_with_phone_fst: "contact_with_phone st t c = Some (c', p) \<Longrightarrow> c' = c"
  by (auto simp: contact_with_phone_def split: option.splits if_splits)

lemma resolve_keeps:
  assumes "resolvePhoneRecipients env st t a = Inr (rs, st')"
  shows "ad_contacts st' = ad_contacts st" "ad_audiences st' = ad_audiences st" "ad_segments st' = ad_segments st"
    "st_db (ad_store st') = st_db (ad_store st)"
  using assms
  by (auto simp: resolvePhoneRecipients_def Let_def rbind_Inr_iff split: if_splits dest: ordered_ids)

lemma resolve_distinct:
  assumes "resolvePhoneRecipients env st t a = Inr (rs, st')"
  shows "distinct (map ar_phoneE164 rs)"
  using assms
  by (auto simp: resolvePhoneRecipients_def Let_def rbind_Inr_iff distinct_dedup split: if_splits
      intro!: dedup_phones [THEN ssubst, where P = distinct])

end
