(* ===== verification/Blasts.thy ===== *)
theory Blasts
  imports Blast_Rendering Audience_Recipients Fsm_Machines
begin

text \<open>
  Blasts: \<^verbatim>\<open>apps/api/src/blasts/blasts.service.ts\<close> and the replies to them
  (\<open>recordInbound\<close> of \<^verbatim>\<open>inbox/inbox.service.ts\<close>). A method makes several commits, so it is a function from the
  store to its result or error and the store it leaves behind. Tables are in creation order. \<open>bs_texts\<close> is what the
  provider took: it is not a table. What Twilio, the sender resolver and Handlebars answer, the flags and the
  configured numbers are in the environment; \<open>be_elapsed n\<close> is the time a batch has run when its \<open>n\<close>-th
  recipient is reached. Times are milliseconds.
\<close>

section \<open>Rows\<close>

datatype BlastRecipientStatus =
  PENDING | QUEUED | SENT | DELIVERED | READ | RESPONDED | FAILED | UNDELIVERED | SKIPPED

fun recipient_status :: "BlastRecipientStatus \<Rightarrow> string" where
  "recipient_status PENDING = ''PENDING''"
| "recipient_status QUEUED = ''QUEUED''"
| "recipient_status SENT = ''SENT''"
| "recipient_status DELIVERED = ''DELIVERED''"
| "recipient_status READ = ''READ''"
| "recipient_status RESPONDED = ''RESPONDED''"
| "recipient_status FAILED = ''FAILED''"
| "recipient_status UNDELIVERED = ''UNDELIVERED''"
| "recipient_status SKIPPED = ''SKIPPED''"

record Blast =
  bl_id :: string
  bl_tenantId :: string
  bl_audienceId :: "string option"
  bl_title :: string
  bl_bodyTemplate :: string
  bl_channel :: MessageChannel
  bl_contentSid :: "string option"
  bl_contentVariableMap :: "json option"
  bl_fromNumberId :: "string option"
  bl_campaignId :: "string option"
  bl_status :: BlastStatus
  bl_scheduledFor :: "rat option"
  bl_proofedAt :: "rat option"
  bl_startedAt :: "rat option"
  bl_completedAt :: "rat option"
  bl_metadata :: "json option"
  bl_updatedAt :: rat

record BlastRecipient =
  rc_id :: string
  rc_blastId :: string
  rc_contactId :: "string option"
  rc_phoneE164 :: string
  rc_renderedBody :: string
  rc_status :: BlastRecipientStatus
  rc_failureCategory :: "string option"
  rc_twilioMessageSid :: "string option"
  rc_sentAt :: "rat option"
  rc_deliveredAt :: "rat option"
  rc_respondedAt :: "rat option"
  rc_errorCode :: "string option"
  rc_errorMessage :: "string option"
  rc_metadata :: "json option"
  rc_assigneeId :: "string option"
  rc_assignedAt :: "rat option"

record OutboundMessage =
  ou_tenantId :: string
  ou_blastId :: "string option"
  ou_recipientId :: "string option"
  ou_channel :: MessageChannel
  ou_transactional :: bool
  ou_txStatus :: "TxSmsStatus option"
  ou_toPhone :: string
  ou_fromPhone :: string
  ou_body :: string
  ou_status :: BlastRecipientStatus
  ou_twilioMessageSid :: "string option"
  ou_sentAt :: rat
  ou_errorCode :: "string option"
  ou_errorMessage :: "string option"

datatype BlastEvent =
    BlastCreated string string string
  | BlastScheduled string string rat
  | BlastSent string string nat

record BlastJob =
  bj_id :: string
  bj_retry :: bool
  bj_blastId :: string
  bj_batchSize :: "rat option"
  bj_availableAt :: rat

record SentText =
  st_blastId :: string
  st_phone :: string
  st_body :: string

record BlastStore =
  bs_blasts :: "Blast list"
  bs_templates :: "(string \<times> nat \<times> string) list"
  bs_recipients :: "BlastRecipient list"
  bs_outbound :: "OutboundMessage list"
  bs_outbox :: "BlastEvent list"
  bs_snapshots :: "(string \<times> string option \<times> string \<times> nat) list"
  bs_jobs :: "BlastJob list"
  bs_claims :: "(string \<times> string) list"
  bs_audience :: AudienceStore
  bs_texts :: "SentText list"
  bs_calls :: nat
  bs_nextId :: nat
  bs_now :: rat

section \<open>The world outside\<close>

record TwilioMessage =
  tm_sid :: string
  tm_to :: "string option"
  tm_from :: "string option"
  tm_body :: "string option"
  tm_dateSent :: "rat option"
  tm_dateCreated :: rat

record SendOptions =
  so_channel :: MessageChannel
  so_contentSid :: "string option"
  so_contentVariables :: "(string \<times> string) list option"
  so_sender :: "string option"

record BlastEnv =
  be_resolver :: ResolverEnv
  be_compile :: "string \<Rightarrow> (string \<times> json) list \<Rightarrow> string res"
  be_compliance :: ComplianceConfig
  be_localHour :: "rat \<Rightarrow> int"
  be_iso :: "rat \<Rightarrow> string"
  be_errorText :: "api_error \<Rightarrow> string"
  be_dryRun :: bool
  be_bullmq :: bool
  be_sendBatchSize :: "rat option"
  be_dispatchBatchSize :: "rat option"
  be_dispatchLimit :: "rat option"
  be_sendMaxRunMs :: "rat option"
  be_senderByNumber :: "string \<Rightarrow> string \<Rightarrow> string option res"
  be_senderFor :: "string \<Rightarrow> string \<Rightarrow> string option res"
  be_twilio :: "nat \<Rightarrow> string \<Rightarrow> string \<Rightarrow> SendOptions \<Rightarrow> string + TwilioMessage"
  be_dryRunFrom :: "MessageChannel \<Rightarrow> string"
  be_dryRunSid :: "nat \<Rightarrow> string \<Rightarrow> string"
  be_elapsed :: "nat \<Rightarrow> rat"

section \<open>Handlers\<close>

type_synonym 'a blast = "BlastStore \<Rightarrow> 'a res \<times> BlastStore"

definition bret :: "'a \<Rightarrow> 'a blast" where
  "bret x = (\<lambda>st. (Inr x, st))"

definition bbind :: "'a blast \<Rightarrow> ('a \<Rightarrow> 'b blast) \<Rightarrow> 'b blast" where
  "bbind m f = (\<lambda>st. case m st of (Inl e, st') \<Rightarrow> (Inl e, st') | (Inr x, st') \<Rightarrow> f x st')"

definition blift :: "'a res \<Rightarrow> 'a blast" where
  "blift r = (\<lambda>st. (r, st))"

definition bmodify :: "(BlastStore \<Rightarrow> BlastStore) \<Rightarrow> unit blast" where
  "bmodify f = (\<lambda>st. (Inr (), f st))"

definition bget :: "(BlastStore \<Rightarrow> 'a) \<Rightarrow> 'a blast" where
  "bget f = (\<lambda>st. (Inr (f st), st))"

section \<open>Blasts by id\<close>

definition BLAST_NOT_FOUND :: api_error where
  "BLAST_NOT_FOUND = NotFoundException ''Blast not found''"

definition find_blast :: "string \<Rightarrow> BlastStore \<Rightarrow> Blast option" where
  "find_blast i st = find (\<lambda>b. bl_id b = i) (bs_blasts st)"

definition getBlastOrThrow :: "string \<Rightarrow> Blast blast" where
  "getBlastOrThrow i = (\<lambda>st. (case find_blast i st of None \<Rightarrow> Inl BLAST_NOT_FOUND | Some b \<Rightarrow> Inr b, st))"

definition getBlastForTenant :: "string \<Rightarrow> string \<Rightarrow> Blast blast" where
  "getBlastForTenant tenantId i = (\<lambda>st.
     (case find (\<lambda>b. bl_id b = i \<and> bl_tenantId b = tenantId) (bs_blasts st) of
        None \<Rightarrow> Inl BLAST_NOT_FOUND | Some b \<Rightarrow> Inr b, st))"

definition recipients_of :: "string \<Rightarrow> BlastStore \<Rightarrow> BlastRecipient list" where
  "recipients_of blastId st = filter (\<lambda>r. rc_blastId r = blastId) (bs_recipients st)"

definition getBlast :: "string \<Rightarrow> string \<Rightarrow> (Blast \<times> nat) blast" where
  "getBlast tenantId i = bbind (getBlastForTenant tenantId i) (\<lambda>b.
     bget (\<lambda>st. (b, length (recipients_of i st))))"

text \<open>The last hundred, with the number of their recipients; the caller may filter further.\<close>

definition listBlasts :: "string \<Rightarrow> (Blast \<Rightarrow> bool) \<Rightarrow> BlastStore \<Rightarrow> (Blast \<times> nat) list" where
  "listBlasts tenantId also_where st = map (\<lambda>b. (b, length (recipients_of (bl_id b) st)))
     (take 100 (rev (filter (\<lambda>b. bl_tenantId b = tenantId \<and> also_where b) (bs_blasts st))))"

definition update_blast :: "string \<Rightarrow> (Blast \<Rightarrow> Blast) \<Rightarrow> unit blast" where
  "update_blast i f = bmodify (\<lambda>st.
     st\<lparr>bs_blasts := map (\<lambda>b. if bl_id b = i then (f b)\<lparr>bl_updatedAt := bs_now st\<rparr> else b) (bs_blasts st)\<rparr>)"

definition update_recipient :: "string \<Rightarrow> (BlastRecipient \<Rightarrow> BlastRecipient) \<Rightarrow> unit blast" where
  "update_recipient i f =
     bmodify (\<lambda>st. st\<lparr>bs_recipients := map (\<lambda>r. if rc_id r = i then f r else r) (bs_recipients st)\<rparr>)"

definition append_outbox :: "BlastEvent \<Rightarrow> unit blast" where
  "append_outbox e = bmodify (\<lambda>st. st\<lparr>bs_outbox := bs_outbox st @ [e]\<rparr>)"

section \<open>Drafts\<close>

record CreateBlastDto =
  cb_title :: string
  cb_audienceId :: "string option"
  cb_bodyTemplate :: string
  cb_channel :: "MessageChannel option"
  cb_contentSid :: "string option"
  cb_contentVariableMap :: "json option"
  cb_fromNumberId :: "string option"
  cb_campaignId :: "string option"
  cb_p2p :: bool

text \<open>\<open>x || null\<close> and the foreign key of \<open>audienceId\<close>.\<close>

definition or_null :: "string option \<Rightarrow> string option" where
  "or_null v = (if truthy v then v else None)"

definition audience_exists :: "BlastStore \<Rightarrow> string option \<Rightarrow> bool" where
  "audience_exists st a =
     (case a of None \<Rightarrow> True | Some i \<Rightarrow> list_ex (\<lambda>x. au_id x = i) (ad_audiences (bs_audience st)))"

definition blast_id :: "nat \<Rightarrow> string" where
  "blast_id n = CHR ''b'' # nat_to_string n"

definition createDraft :: "string \<Rightarrow> CreateBlastDto \<Rightarrow> Blast blast" where
  "createDraft tenantId dto = (\<lambda>st.
     (let blast = \<lparr>bl_id = blast_id (bs_nextId st), bl_tenantId = tenantId, bl_audienceId = or_null (cb_audienceId dto),
            bl_title = cb_title dto, bl_bodyTemplate = cb_bodyTemplate dto,
            bl_channel = (case cb_channel dto of None \<Rightarrow> Sms | Some c \<Rightarrow> c), bl_contentSid = cb_contentSid dto,
            bl_contentVariableMap = cb_contentVariableMap dto, bl_fromNumberId = or_null (cb_fromNumberId dto),
            bl_campaignId = or_null (cb_campaignId dto), bl_status = BlastStatus.DRAFTED, bl_scheduledFor = None,
            bl_proofedAt = None, bl_startedAt = None, bl_completedAt = None,
            bl_metadata = (if cb_p2p dto then Some (JObj [(''p2p'', JBool True)]) else None),
            bl_updatedAt = bs_now st\<rparr> in
      if \<not> audience_exists st (bl_audienceId blast) then (Inl (ThrownError ''P2003''), st)
      else (Inr blast,
            st\<lparr>bs_blasts := bs_blasts st @ [blast],
               bs_templates := bs_templates st @ [(bl_id blast, 1, cb_bodyTemplate dto)],
               bs_outbox := bs_outbox st @ [BlastCreated tenantId (bl_id blast) (bl_title blast)],
               bs_nextId := bs_nextId st + 1\<rparr>)))"

text \<open>A field of the update: absent, or present with a value or \<open>null\<close>.\<close>

record UpdateBlastDto =
  ub_title :: "string option"
  ub_audienceId :: "string option"
  ub_bodyTemplate :: "string option"
  ub_channel :: "MessageChannel option"
  ub_contentSid :: "string option option"
  ub_contentVariableMap :: "json option option"
  ub_fromNumberId :: "string option option"
  ub_campaignId :: "string option option"
  ub_p2p :: "json option"

definition patch_blast :: "UpdateBlastDto \<Rightarrow> Blast \<Rightarrow> Blast" where
  "patch_blast dto blast =
     blast\<lparr>bl_title := (case ub_title dto of None \<Rightarrow> bl_title blast | Some t \<Rightarrow> t),
           bl_audienceId := (case ub_audienceId dto of None \<Rightarrow> bl_audienceId blast | Some a \<Rightarrow> Some a),
           bl_bodyTemplate := (case ub_bodyTemplate dto of None \<Rightarrow> bl_bodyTemplate blast | Some t \<Rightarrow> t),
           bl_channel := (case ub_channel dto of None \<Rightarrow> bl_channel blast | Some c \<Rightarrow> c),
           bl_campaignId := (case ub_campaignId dto of None \<Rightarrow> bl_campaignId blast | Some c \<Rightarrow> or_null c),
           bl_metadata := (case ub_p2p dto of None \<Rightarrow> bl_metadata blast
             | Some p \<Rightarrow> Some (JObj (tset ''p2p'' p (object_fields (bl_metadata blast))))),
           bl_contentSid := (case ub_contentSid dto of None \<Rightarrow> bl_contentSid blast | Some c \<Rightarrow> or_null c),
           bl_contentVariableMap := (case ub_contentVariableMap dto of None \<Rightarrow> bl_contentVariableMap blast | Some m \<Rightarrow> m),
           bl_fromNumberId := (case ub_fromNumberId dto of None \<Rightarrow> bl_fromNumberId blast | Some f \<Rightarrow> or_null f)\<rparr>"

definition updateDraft :: "string \<Rightarrow> string \<Rightarrow> UpdateBlastDto \<Rightarrow> unit blast" where
  "updateDraft tenantId i dto = bbind (getBlastForTenant tenantId i) (\<lambda>blast.
     bbind (case ub_bodyTemplate dto of
              Some body \<Rightarrow>
                if body \<noteq> [] \<and> body \<noteq> bl_bodyTemplate blast
                then bmodify (\<lambda>st. st\<lparr>bs_templates := bs_templates st @
                       [(i, length (filter (\<lambda>t. fst t = i) (bs_templates st)) + 1, body)]\<rparr>)
                else bret ()
            | None \<Rightarrow> bret ()) (\<lambda>_.
     bbind (bget (\<lambda>st. audience_exists st (bl_audienceId (patch_blast dto blast)))) (\<lambda>known.
     if known then update_blast i (\<lambda>_. patch_blast dto blast) else blift (Inl (ThrownError ''P2003'')))))"

definition deleteBlast :: "string \<Rightarrow> string \<Rightarrow> unit blast" where
  "deleteBlast tenantId i = bbind (getBlastForTenant tenantId i) (\<lambda>_.
     bmodify (\<lambda>st. st\<lparr>bs_blasts := filter (\<lambda>b. bl_id b \<noteq> i) (bs_blasts st),
       bs_templates := filter (\<lambda>t. fst t \<noteq> i) (bs_templates st),
       bs_recipients := filter (\<lambda>r. rc_blastId r \<noteq> i) (bs_recipients st),
       bs_outbound := map (\<lambda>m. if ou_blastId m = Some i then m\<lparr>ou_blastId := None\<rparr> else m) (bs_outbound st),
       bs_snapshots := map (\<lambda>(t, b, m, n). (t, if b = Some i then None else b, m, n)) (bs_snapshots st)\<rparr>))"

definition markProofed :: "string \<Rightarrow> string \<Rightarrow> unit blast" where
  "markProofed tenantId i = bbind (getBlastForTenant tenantId i) (\<lambda>blast.
     if bl_status blast = BlastStatus.PROOFED then bret ()
     else bbind (blift (assertValidBlastTransition (bl_status blast) BlastStatus.PROOFED)) (\<lambda>_.
       bbind (bget bs_now) (\<lambda>now.
       update_blast i (\<lambda>b. b\<lparr>bl_status := BlastStatus.PROOFED, bl_proofedAt := Some now\<rparr>))))"

section \<open>The dispatch queue\<close>

definition getBlastSendJobId :: "string \<Rightarrow> string option \<Rightarrow> string" where
  "getBlastSendJobId blastId chunkKey =
     (if truthy chunkKey then ''blast-send_'' @ blastId @ ''_'' @ the chunkKey else ''blast-send_'' @ blastId)"

definition getBlastRetryJobId :: "string \<Rightarrow> string" where
  "getBlastRetryJobId blastId = ''blast-retry_'' @ blastId"

text \<open>The queue drops a job whose id it still holds.\<close>

definition enqueue_blast :: "BlastJob \<Rightarrow> bool blast" where
  "enqueue_blast job = (\<lambda>st.
     if list_ex (\<lambda>j. bj_id j = bj_id job) (bs_jobs st) then (Inr False, st)
     else (Inr True, st\<lparr>bs_jobs := bs_jobs st @ [job]\<rparr>))"

definition enqueueBlastSendBatch :: "string \<Rightarrow> rat option \<Rightarrow> rat option \<Rightarrow> string option \<Rightarrow> bool blast" where
  "enqueueBlastSendBatch blastId requestedBatchSize runAt chunkKey = bbind (bget bs_now) (\<lambda>now.
     enqueue_blast \<lparr>bj_id = getBlastSendJobId blastId chunkKey, bj_retry = False, bj_blastId = blastId,
       bj_batchSize = requestedBatchSize, bj_availableAt = (case runAt of None \<Rightarrow> now | Some t \<Rightarrow> max now t)\<rparr>)"

definition enqueueBlastRetryFailed :: "string \<Rightarrow> bool blast" where
  "enqueueBlastRetryFailed blastId = bbind (bget bs_now) (\<lambda>now.
     enqueue_blast \<lparr>bj_id = getBlastRetryJobId blastId, bj_retry = True, bj_blastId = blastId,
       bj_batchSize = None, bj_availableAt = now\<rparr>)"

definition schedule :: "BlastEnv \<Rightarrow> string \<Rightarrow> string \<Rightarrow> rat \<Rightarrow> unit blast" where
  "schedule env tenantId i runAt = bbind (getBlastForTenant tenantId i) (\<lambda>blast.
     bbind (blift (assertValidBlastTransition (bl_status blast) BlastStatus.SCHEDULED)) (\<lambda>_.
     bbind (update_blast i (\<lambda>b. b\<lparr>bl_status := BlastStatus.SCHEDULED, bl_scheduledFor := Some runAt\<rparr>)) (\<lambda>_.
     bbind (append_outbox (BlastScheduled (bl_tenantId blast) i runAt)) (\<lambda>_.
     if be_bullmq env then bbind (enqueueBlastSendBatch i None (Some runAt) None) (\<lambda>_. bret ()) else bret ()))))"

section \<open>Seeding recipients\<close>

definition with_audience :: "(AudienceStore \<Rightarrow> ('a \<times> AudienceStore) res) \<Rightarrow> 'a blast" where
  "with_audience f = (\<lambda>st. case f (bs_audience st) of
     Inl e \<Rightarrow> (Inl e, st) | Inr (x, au) \<Rightarrow> (Inr x, st\<lparr>bs_audience := au\<rparr>))"

definition consent_rows :: "BlastStore \<Rightarrow> ConsentRow list" where
  "consent_rows st = db_contactConsent (st_db (ad_store (bs_audience st)))"

definition sendable :: "BlastStore \<Rightarrow> string \<Rightarrow> MessageChannel \<Rightarrow> string list \<Rightarrow> string \<Rightarrow> bool" where
  "sendable st tenantId channel phones phone =
     canSend (case tget (getStatesForPhones (consent_rows st) tenantId channel phones) phone of
                None \<Rightarrow> ''UNKNOWN'' | Some s \<Rightarrow> s) channel"

definition getBlastRecipients :: "BlastEnv \<Rightarrow> Blast \<Rightarrow> AudienceRecipient list blast" where
  "getBlastRecipients env blast =
     (case bl_audienceId blast of
        None \<Rightarrow> bret []
      | Some audienceId \<Rightarrow>
          if audienceId = [] then bret []
          else bbind (bget bs_now) (\<lambda>now.
            bbind (with_audience (\<lambda>au. resolvePhoneRecipients ((be_resolver env)\<lparr>re_now := now\<rparr>) au
                     (bl_tenantId blast) audienceId)) (\<lambda>members.
            let phones = map ar_phoneE164 members in
            bget (\<lambda>st. filter (\<lambda>m. sendable st (bl_tenantId blast) (bl_channel blast) phones (ar_phoneE164 m)) members))))"

definition seed_trace :: RecipientTraceInput where
  "seed_trace = \<lparr>ti_status = ''PENDING'', ti_source = ''seed'', ti_scope = None, ti_category = None,
     ti_reason = Some ''Recipient seeded from audience'', ti_code = None, ti_detail = None\<rparr>"

definition seed_row :: "BlastEnv \<Rightarrow> Blast \<Rightarrow> rat \<Rightarrow> AudienceRecipient \<Rightarrow> (string \<Rightarrow> BlastRecipient) res" where
  "seed_row env blast now recipient =
     rbind (normalizePhoneE164 (ar_phoneE164 recipient)) (\<lambda>normalizedPhone.
     rbind (render (be_compile env) (bl_bodyTemplate blast) (ar_metadata recipient)) (\<lambda>renderedBody.
       let warnings = snd (validateMessageForSend (be_compliance env) renderedBody (be_localHour env now)) in
       Inr (\<lambda>i. \<lparr>rc_id = i, rc_blastId = bl_id blast, rc_contactId = ar_contactId recipient,
         rc_phoneE164 = normalizedPhone, rc_renderedBody = renderedBody, rc_status = BlastRecipientStatus.PENDING,
         rc_failureCategory = None, rc_twilioMessageSid = None, rc_sentAt = None, rc_deliveredAt = None,
         rc_respondedAt = None, rc_errorCode = None, rc_errorMessage = None,
         rc_metadata = Some (appendRecipientTrace
           (Some (JObj [(''complianceWarnings'', JArr (map JStr warnings)), (''context'', ar_metadata recipient)]))
           seed_trace (be_iso env now)),
         rc_assigneeId = None, rc_assignedAt = None\<rparr>)))"

fun seed_rows :: "BlastEnv \<Rightarrow> Blast \<Rightarrow> rat \<Rightarrow> AudienceRecipient list \<Rightarrow> (string \<Rightarrow> BlastRecipient) list res" where
  "seed_rows env blast now [] = Inr []"
| "seed_rows env blast now (r # rs) =
     rbind (seed_row env blast now r) (\<lambda>x. rbind (seed_rows env blast now rs) (\<lambda>xs. Inr (x # xs)))"

text \<open>\<open>createMany\<close> with \<open>skipDuplicates\<close> over the unique key (blast, phone); the chunks are written one after the
  other, so their boundaries do not show in the table.\<close>

definition recipient_id :: "nat \<Rightarrow> string" where
  "recipient_id n = CHR ''r'' # nat_to_string n"

definition recipient_key :: "BlastRecipient \<Rightarrow> string \<times> string" where
  "recipient_key r = (rc_blastId r, rc_phoneE164 r)"

fun create_many :: "(string \<Rightarrow> BlastRecipient) list \<Rightarrow> BlastStore \<Rightarrow> BlastStore" where
  "create_many [] st = st"
| "create_many (mk # mks) st =
     (let row = mk (recipient_id (bs_nextId st)) in
      create_many mks
        (if recipient_key row \<in> recipient_key ` set (bs_recipients st) then st
         else st\<lparr>bs_recipients := bs_recipients st @ [row], bs_nextId := bs_nextId st + 1\<rparr>))"

definition ensureBlastRecipientRecords :: "BlastEnv \<Rightarrow> Blast \<Rightarrow> nat blast" where
  "ensureBlastRecipientRecords env blast = bbind (bget (\<lambda>st. length (recipients_of (bl_id blast) st))) (\<lambda>existingCount.
     if existingCount > 0 then bret existingCount
     else bbind (getBlastRecipients env blast) (\<lambda>recipients.
       bbind (bget bs_now) (\<lambda>now.
       bbind (blift (seed_rows env blast now recipients)) (\<lambda>rows.
       bbind (bmodify (create_many rows)) (\<lambda>_.
       bget (\<lambda>st. length (recipients_of (bl_id blast) st)))))))"

end
