(* ===== verification/Blast_Send.thy ===== *)
theory Blast_Send
  imports Blasts "HOL-Library.Product_Lexorder"
begin

text \<open>
  Sending a blast, and what comes back: the batch sender \<open>sendNow\<close>, the cron \<open>dispatchDueScheduled\<close>, the retry, the
  volunteers' single sends, Twilio's status callbacks, and the attribution of a reply; all of
  \<^verbatim>\<open>apps/api/src/blasts/blasts.service.ts\<close> but the last, which is part of \<open>recordInbound\<close> in
  \<^verbatim>\<open>inbox/inbox.service.ts\<close>.
\<close>

section \<open>Configured sizes\<close>

definition bounded :: "int \<Rightarrow> int \<Rightarrow> rat \<Rightarrow> nat" where
  "bounded lo hi q = nat (min (max lo (js_trunc q)) hi)"

definition configured :: "rat \<Rightarrow> rat option \<Rightarrow> rat" where
  "configured fallback v = (case v of None \<Rightarrow> fallback | Some q \<Rightarrow> q)"

definition getSendBatchSize :: "BlastEnv \<Rightarrow> rat option \<Rightarrow> nat" where
  "getSendBatchSize env requestedBatchSize =
     bounded 1 500 (configured (configured 475 (be_sendBatchSize env)) requestedBatchSize)"

definition getDispatchBatchSize :: "BlastEnv \<Rightarrow> nat" where
  "getDispatchBatchSize env = bounded 1 100 (configured 95 (be_dispatchBatchSize env))"

definition getDispatchLimit :: "BlastEnv \<Rightarrow> nat" where
  "getDispatchLimit env = bounded 1 100 (configured 95 (be_dispatchLimit env))"

definition getSendTimeBudgetMs :: "BlastEnv \<Rightarrow> rat" where
  "getSendTimeBudgetMs env = rat_of_nat (bounded 1000 28000 (configured 26600 (be_sendMaxRunMs env)))"

section \<open>The blast's status\<close>

definition SENT_RECIPIENT_STATUSES :: "BlastRecipientStatus list" where
  "SENT_RECIPIENT_STATUSES = [BlastRecipientStatus.SENT, BlastRecipientStatus.DELIVERED, BlastRecipientStatus.READ,
     BlastRecipientStatus.RESPONDED]"

definition SEND_PHASE_RECIPIENT_STATUSES :: "BlastRecipientStatus list" where
  "SEND_PHASE_RECIPIENT_STATUSES = [BlastRecipientStatus.PENDING, BlastRecipientStatus.QUEUED, BlastRecipientStatus.SENT,
     BlastRecipientStatus.DELIVERED]"

definition FAILED_TRANSITIONABLE_STATUSES :: "BlastRecipientStatus list" where
  "FAILED_TRANSITIONABLE_STATUSES = [BlastRecipientStatus.PENDING, BlastRecipientStatus.QUEUED, BlastRecipientStatus.SENT]"

definition is_pending :: "BlastRecipient \<Rightarrow> bool" where
  "is_pending r \<longleftrightarrow> rc_status r \<in> {BlastRecipientStatus.PENDING, BlastRecipientStatus.QUEUED}"

definition isRecipientFailureInternal :: "BlastRecipient \<Rightarrow> bool" where
  "isRecipientFailureInternal r \<longleftrightarrow>
     scopeFromStoredFailure (rc_failureCategory r) (rc_errorCode r) (rc_errorMessage r) = INTERNAL"

definition category_starts :: "string \<Rightarrow> BlastRecipient \<Rightarrow> bool" where
  "category_starts p r = (case rc_failureCategory r of None \<Rightarrow> False | Some c \<Rightarrow> starts_with c p)"

record StatusUpdate =
  su_tenant :: string
  su_status :: BlastStatus
  su_remaining :: nat
  su_internalFailures :: nat

definition internal_failures :: "BlastRecipient list \<Rightarrow> nat" where
  "internal_failures rs =
     (let failed = filter (\<lambda>r. rc_status r = BlastRecipientStatus.FAILED) rs;
          internalPrefixCount = length (filter (category_starts ''INTERNAL_'') failed);
          residualFailures = filter (\<lambda>r. rc_failureCategory r = None \<or>
            \<not> (category_starts ''INTERNAL_'' r \<or> category_starts ''EXTERNAL_'' r)) failed in
      internalPrefixCount + length (filter isRecipientFailureInternal residualFailures))"

definition status_of :: "nat \<Rightarrow> nat \<Rightarrow> BlastStatus" where
  "status_of remaining internalFailures =
     (if remaining > 0 then BlastStatus.SENDING else if internalFailures > 0 then BlastStatus.FAILED else BlastStatus.SENT)"

definition recalculateBlastStatus :: "string \<Rightarrow> StatusUpdate blast" where
  "recalculateBlastStatus blastId = bbind (getBlastOrThrow blastId) (\<lambda>blast.
     bbind (bget (recipients_of blastId)) (\<lambda>rs.
     bbind (bget bs_now) (\<lambda>now.
     (let remaining = length (filter is_pending rs);
          internalFailures = internal_failures rs;
          status = status_of remaining internalFailures;
          shouldUpdateStatus = (bl_status blast \<noteq> status);
          shouldSetCompletedAt = (status \<noteq> BlastStatus.SENDING \<and> bl_completedAt blast = None);
          result = \<lparr>su_tenant = bl_tenantId blast, su_status = status, su_remaining = remaining,
                    su_internalFailures = internalFailures\<rparr> in
      if shouldUpdateStatus \<or> shouldSetCompletedAt
      then bbind (update_blast blastId (\<lambda>b. if status = BlastStatus.SENDING then b\<lparr>bl_status := BlastStatus.SENDING\<rparr>
             else b\<lparr>bl_status := status,
                    bl_completedAt := (case bl_completedAt blast of None \<Rightarrow> Some now | Some t \<Rightarrow> Some t)\<rparr>)) (\<lambda>_.
           if shouldUpdateStatus \<and> status = BlastStatus.SENT
           then bbind (append_outbox (BlastSent (bl_tenantId blast) blastId (length rs))) (\<lambda>_. bret result)
           else bret result)
      else bret result))))"

section \<open>One text\<close>

definition buildSendOptions :: "BlastEnv \<Rightarrow> Blast \<Rightarrow> json \<Rightarrow> string option \<Rightarrow> SendOptions" where
  "buildSendOptions env blast context sender =
     (if bl_channel blast \<noteq> Whatsapp
      then \<lparr>so_channel = Sms, so_contentSid = None, so_contentVariables = None, so_sender = sender\<rparr>
      else if truthy (bl_contentSid blast)
      then \<lparr>so_channel = Whatsapp, so_contentSid = bl_contentSid blast,
            so_contentVariables = buildContentVariables (re_js (be_resolver env)) (bl_contentVariableMap blast) context,
            so_sender = sender\<rparr>
      else \<lparr>so_channel = Whatsapp, so_contentSid = None, so_contentVariables = None, so_sender = sender\<rparr>)"

definition sendOptionsFor :: "BlastEnv \<Rightarrow> Blast \<Rightarrow> json \<Rightarrow> SendOptions res" where
  "sendOptionsFor env blast context =
     rbind (if truthy (bl_fromNumberId blast) \<and> bl_channel blast \<noteq> Whatsapp
            then rbind (be_senderByNumber env (bl_tenantId blast) (the (bl_fromNumberId blast)))
                   (\<lambda>s. case s of Some x \<Rightarrow> Inr (Some x) | None \<Rightarrow> be_senderFor env (bl_tenantId blast) ''marketing'')
            else be_senderFor env (bl_tenantId blast) (if bl_channel blast = Whatsapp then ''whatsapp'' else ''marketing''))
       (\<lambda>sender. Inr (buildSendOptions env blast context sender))"

definition strip_whatsapp :: "string \<Rightarrow> string" where
  "strip_whatsapp s = (if starts_with (js_lower s) ''whatsapp:'' then drop 9 s else s)"

definition createDryRunMessage :: "BlastEnv \<Rightarrow> nat \<Rightarrow> rat \<Rightarrow> string \<Rightarrow> string \<Rightarrow> string \<Rightarrow> MessageChannel \<Rightarrow> TwilioMessage res" where
  "createDryRunMessage env n now to body context channel =
     (let configuredFrom = strip_whatsapp (js_trim (be_dryRunFrom env channel));
          from = (if plus_digits 7 15 configuredFrom then configuredFrom else ''+15550000000'') in
      rbind (normalizePhoneE164 to) (\<lambda>p.
        Inr \<lparr>tm_sid = be_dryRunSid env n context, tm_to = Some p, tm_from = Some from, tm_body = Some body,
             tm_dateSent = Some now, tm_dateCreated = now\<rparr>))"

text \<open>The part of the \<open>try\<close> up to the provider's answer: \<open>Inl\<close> is the text of what was thrown.\<close>

definition send_text :: "BlastEnv \<Rightarrow> Blast \<Rightarrow> string \<Rightarrow> string \<Rightarrow> json \<Rightarrow> string \<Rightarrow> (string + TwilioMessage) blast" where
  "send_text env blast to body context tag = (\<lambda>st.
     case sendOptionsFor env blast context of
       Inl e \<Rightarrow> (Inr (Inl (be_errorText env e)), st)
     | Inr opts \<Rightarrow>
         if be_dryRun env
         then (case createDryRunMessage env (bs_calls st) (bs_now st) to body tag (bl_channel blast) of
                 Inl e \<Rightarrow> (Inr (Inl (be_errorText env e)), st)
               | Inr m \<Rightarrow> (Inr (Inr m), st\<lparr>bs_calls := bs_calls st + 1\<rparr>))
         else (case be_twilio env (bs_calls st) to body opts of
                 Inl e \<Rightarrow> (Inr (Inl e), st\<lparr>bs_calls := bs_calls st + 1\<rparr>)
               | Inr m \<Rightarrow> (Inr (Inr m), st\<lparr>bs_calls := bs_calls st + 1,
                   bs_texts := bs_texts st @ [\<lparr>st_blastId = bl_id blast, st_phone = to, st_body = body\<rparr>]\<rparr>)))"

definition sent_at :: "TwilioMessage \<Rightarrow> rat" where
  "sent_at m = (case tm_dateSent m of None \<Rightarrow> tm_dateCreated m | Some t \<Rightarrow> t)"

definition plain_trace :: "string \<Rightarrow> string \<Rightarrow> string \<Rightarrow> string option \<Rightarrow> RecipientTraceInput" where
  "plain_trace status source reason detail =
     \<lparr>ti_status = status, ti_source = source, ti_scope = None, ti_category = None, ti_reason = Some reason,
      ti_code = None, ti_detail = detail\<rparr>"

definition scope_name :: "FailureScope \<Rightarrow> string" where
  "scope_name s = (case s of INTERNAL \<Rightarrow> ''INTERNAL'' | EXTERNAL \<Rightarrow> ''EXTERNAL'')"

text \<open>Every write of a recipient appends to the trace of the row as it was loaded.\<close>

definition write_recipient ::
  "BlastEnv \<Rightarrow> BlastRecipient \<Rightarrow> RecipientTraceInput \<Rightarrow> (BlastRecipient \<Rightarrow> BlastRecipient) \<Rightarrow> unit blast" where
  "write_recipient env loaded trace f = bbind (bget bs_now) (\<lambda>now.
     update_recipient (rc_id loaded)
       (\<lambda>r. (f r)\<lparr>rc_metadata := Some (appendRecipientTrace (rc_metadata loaded) trace (be_iso env now))\<rparr>))"

definition mark_queued :: "BlastEnv \<Rightarrow> BlastRecipient \<Rightarrow> unit blast" where
  "mark_queued env r = write_recipient env r (plain_trace ''QUEUED'' ''send_now'' ''Recipient queued for send'' None)
     (\<lambda>r. r\<lparr>rc_status := BlastRecipientStatus.QUEUED\<rparr>)"

definition SKIPPED_DUPLICATE_ERROR :: string where
  "SKIPPED_DUPLICATE_ERROR = ''Skipped duplicate recipient: message already sent for this blast.''"

definition mark_skipped :: "BlastEnv \<Rightarrow> BlastRecipient \<Rightarrow> string \<Rightarrow> string \<Rightarrow> unit blast" where
  "mark_skipped env r source reason = write_recipient env r
     \<lparr>ti_status = ''SKIPPED'', ti_source = source, ti_scope = Some ''EXTERNAL'',
      ti_category = Some ''EXTERNAL_DUPLICATE_RECIPIENT'', ti_reason = Some reason, ti_code = None,
      ti_detail = Some SKIPPED_DUPLICATE_ERROR\<rparr>
     (\<lambda>r. r\<lparr>rc_status := BlastRecipientStatus.SKIPPED, rc_failureCategory := Some ''EXTERNAL_DUPLICATE_RECIPIENT'',
           rc_errorMessage := Some SKIPPED_DUPLICATE_ERROR\<rparr>)"

definition mark_sent :: "BlastEnv \<Rightarrow> BlastRecipient \<Rightarrow> string \<Rightarrow> string \<Rightarrow> TwilioMessage \<Rightarrow> unit blast" where
  "mark_sent env r source reason m = write_recipient env r (plain_trace ''SENT'' source reason (Some (tm_sid m)))
     (\<lambda>r. r\<lparr>rc_status := BlastRecipientStatus.SENT, rc_twilioMessageSid := Some (tm_sid m), rc_sentAt := Some (sent_at m)\<rparr>)"

definition classify_error :: "string \<Rightarrow> ClassifiedFailure" where
  "classify_error failureText = classifyFailureScope
     \<lparr>fi_errorCode = None, fi_errorMessage = Some failureText, fi_messageStatus = None, fi_error = Some failureText\<rparr>"

definition mark_failed :: "BlastEnv \<Rightarrow> BlastRecipient \<Rightarrow> string \<Rightarrow> string \<Rightarrow> bool \<Rightarrow> string \<Rightarrow> unit blast" where
  "mark_failed env r source reason withDetail failureText =
     (let c = classify_error failureText in
      write_recipient env r
        \<lparr>ti_status = ''FAILED'', ti_source = source, ti_scope = Some (scope_name (cf_scope c)),
         ti_category = Some (cf_normalizedCategory c), ti_reason = Some reason, ti_code = cf_code c,
         ti_detail = (if withDetail then Some failureText else None)\<rparr>
        (\<lambda>r. r\<lparr>rc_status := BlastRecipientStatus.FAILED, rc_failureCategory := Some (cf_normalizedCategory c),
              rc_errorCode := (if truthy (cf_code c) then cf_code c else rc_errorCode r),
              rc_errorMessage := Some failureText\<rparr>))"

text \<open>\<open>outboundMessage.create\<close>: the channel is left to its default, \<open>SMS\<close>; the message id is unique.\<close>

definition str_or_empty :: "string option \<Rightarrow> string" where
  "str_or_empty v = (case v of None \<Rightarrow> [] | Some s \<Rightarrow> s)"

definition outbound_row :: "Blast \<Rightarrow> BlastRecipient \<Rightarrow> TwilioMessage \<Rightarrow> OutboundMessage res" where
  "outbound_row blast r m =
     rbind (normalizePhoneE164 (str_or_empty (tm_to m))) (\<lambda>to.
     rbind (normalizePhoneE164 (str_or_empty (tm_from m))) (\<lambda>from.
     Inr \<lparr>ou_tenantId = bl_tenantId blast, ou_blastId = Some (bl_id blast), ou_recipientId = Some (rc_id r),
          ou_channel = Sms, ou_transactional = False, ou_txStatus = None, ou_toPhone = to, ou_fromPhone = from,
          ou_body = (if truthy (tm_body m) then the (tm_body m) else rc_renderedBody r),
          ou_status = BlastRecipientStatus.SENT, ou_twilioMessageSid = Some (tm_sid m), ou_sentAt = sent_at m,
          ou_errorCode = None, ou_errorMessage = None\<rparr>))"

definition create_outbound :: "Blast \<Rightarrow> BlastRecipient \<Rightarrow> TwilioMessage \<Rightarrow> unit res blast" where
  "create_outbound blast r m = (\<lambda>st.
     case outbound_row blast r m of
       Inl e \<Rightarrow> (Inr (Inl e), st)
     | Inr row \<Rightarrow>
         if list_ex (\<lambda>o'. ou_twilioMessageSid o' = Some (tm_sid m)) (bs_outbound st) then (Inr (Inl UniqueViolation), st)
         else (Inr (Inr ()), st\<lparr>bs_outbound := bs_outbound st @ [row]\<rparr>))"

definition accepted_reason :: "BlastEnv \<Rightarrow> string" where
  "accepted_reason env =
     (if be_dryRun env then ''Dry run: simulated Twilio acceptance'' else ''Message accepted by Twilio for delivery'')"

definition send_failed_reason :: string where
  "send_failed_reason = ''Send attempt failed before delivery callback''"

text \<open>The \<open>try ... catch\<close> around a send: whether the provider took the text, and whether the attempt counts as failed.\<close>

definition send_recipient ::
  "BlastEnv \<Rightarrow> Blast \<Rightarrow> BlastRecipient \<Rightarrow> string \<Rightarrow> string \<Rightarrow> string \<Rightarrow> bool \<Rightarrow> (TwilioMessage option \<times> string option) blast" where
  "send_recipient env blast r source tag failedReason withDetail =
     bbind (send_text env blast (rc_phoneE164 r) (rc_renderedBody r) (extractRecipientContext (rc_metadata r)) tag) (\<lambda>answer.
     case answer of
       Inl failureText \<Rightarrow>
         bbind (mark_failed env r source failedReason withDetail failureText) (\<lambda>_. bret (None, Some failureText))
     | Inr m \<Rightarrow>
         bbind (mark_sent env r source (accepted_reason env) m) (\<lambda>_.
         bbind (create_outbound blast r m) (\<lambda>created.
         case created of
           Inr _ \<Rightarrow> bret (Some m, None)
         | Inl e \<Rightarrow>
             bbind (mark_failed env r source failedReason withDetail (be_errorText env e)) (\<lambda>_.
             bret (Some m, Some (be_errorText env e))))))"

section \<open>The batch sender\<close>

record SendCounts =
  sc_sent :: nat
  sc_failed :: nat
  sc_skipped :: nat

fun send_loop :: "BlastEnv \<Rightarrow> Blast \<Rightarrow> nat \<Rightarrow> string list \<Rightarrow> BlastRecipient list \<Rightarrow> SendCounts \<Rightarrow> SendCounts blast" where
  "send_loop env blast n sentPhones [] counts = bret counts"
| "send_loop env blast n sentPhones (r # rs) counts =
     (if be_elapsed env n \<ge> getSendTimeBudgetMs env then bret counts
      else if rc_phoneE164 r \<in> set sentPhones
      then bbind (mark_skipped env r ''send_now'' ''Skipped duplicate phone in blast send batch'') (\<lambda>_.
           send_loop env blast (n + 1) sentPhones rs (counts\<lparr>sc_skipped := sc_skipped counts + 1\<rparr>))
      else bbind (mark_queued env r) (\<lambda>_.
           bbind (send_recipient env blast r ''send_now'' (''send-'' @ rc_id r) send_failed_reason True) (\<lambda>(taken, failure).
           send_loop env blast (n + 1) (if taken \<noteq> None then rc_phoneE164 r # sentPhones else sentPhones) rs
             (counts\<lparr>sc_sent := sc_sent counts + (if taken \<noteq> None then 1 else 0),
                     sc_failed := sc_failed counts + (if failure \<noteq> None then 1 else 0)\<rparr>))))"

definition writeSnapshot :: "string \<Rightarrow> string option \<Rightarrow> string \<Rightarrow> nat \<Rightarrow> unit blast" where
  "writeSnapshot orgId blastId metricName n =
     bmodify (\<lambda>st. st\<lparr>bs_snapshots := bs_snapshots st @ [(orgId, blastId, metricName, n)]\<rparr>)"

record SendResult =
  sr_blast :: Blast
  sr_counts :: SendCounts
  sr_remaining :: nat
  sr_batchSize :: nat
  sr_continued :: bool

definition begin_sending :: "Blast \<Rightarrow> unit blast" where
  "begin_sending blast =
     (if bl_status blast \<noteq> BlastStatus.SENDING
      then bbind (blift (assertValidBlastTransition (bl_status blast) BlastStatus.SENDING)) (\<lambda>_.
           bbind (bget bs_now) (\<lambda>now.
           update_blast (bl_id blast) (\<lambda>b. b\<lparr>bl_status := BlastStatus.SENDING,
             bl_startedAt := (case bl_startedAt blast of None \<Rightarrow> Some now | Some t \<Rightarrow> Some t)\<rparr>)))
      else bret ())"

definition pending_batch :: "string \<Rightarrow> nat \<Rightarrow> BlastStore \<Rightarrow> BlastRecipient list" where
  "pending_batch blastId batchSize st = take batchSize (filter is_pending (recipients_of blastId st))"

definition sent_phones :: "string \<Rightarrow> BlastRecipient list \<Rightarrow> BlastStore \<Rightarrow> string list" where
  "sent_phones blastId batch st =
     js_set (map rc_phoneE164 (filter (\<lambda>r. rc_phoneE164 r \<in> rc_phoneE164 ` set batch \<and>
       rc_status r \<in> set SENT_RECIPIENT_STATUSES) (recipients_of blastId st)))"

definition cursor_key :: "BlastStore \<Rightarrow> nat \<Rightarrow> string" where
  "cursor_key st remaining = ''cursor-'' @ nat_to_string remaining @ ''-'' @ nat_to_string (nat \<lfloor>bs_now st\<rfloor>)"

definition sendNow :: "BlastEnv \<Rightarrow> string \<Rightarrow> rat option \<Rightarrow> SendResult blast" where
  "sendNow env i requestedBatchSize = bbind (getBlastOrThrow i) (\<lambda>blast.
     bbind (begin_sending blast) (\<lambda>_.
     bbind (ensureBlastRecipientRecords env blast) (\<lambda>_.
     (let batchSize = getSendBatchSize env requestedBatchSize in
     bbind (bget (pending_batch i batchSize)) (\<lambda>batch.
     bbind (bget (sent_phones i batch)) (\<lambda>sentPhones.
     bbind (send_loop env blast 0 sentPhones batch \<lparr>sc_sent = 0, sc_failed = 0, sc_skipped = 0\<rparr>) (\<lambda>counts.
     bbind (recalculateBlastStatus i) (\<lambda>update.
     bbind (getBlastOrThrow i) (\<lambda>updated.
     bbind (if be_bullmq env \<and> su_remaining update > 0
            then bbind (bget (\<lambda>st. cursor_key st (su_remaining update))) (\<lambda>key.
                 enqueueBlastSendBatch i (Some (rat_of_nat batchSize)) None (Some key))
            else bret False) (\<lambda>continued.
     bbind (writeSnapshot (bl_tenantId blast) (Some i) ''sent'' (sc_sent counts)) (\<lambda>_.
     bbind (writeSnapshot (bl_tenantId blast) (Some i) ''failed'' (sc_failed counts)) (\<lambda>_.
     bret \<lparr>sr_blast = updated, sr_counts = counts, sr_remaining = su_remaining update, sr_batchSize = batchSize,
           sr_continued = continued\<rparr>))))))))))))"

definition requestSendNow :: "BlastEnv \<Rightarrow> string \<Rightarrow> string \<Rightarrow> (SendResult + bool \<times> Blast) blast" where
  "requestSendNow env tenantId i = bbind (getBlastForTenant tenantId i) (\<lambda>_.
     if \<not> be_bullmq env then bbind (sendNow env i None) (\<lambda>r. bret (Inl r))
     else bbind (enqueueBlastSendBatch i None None None) (\<lambda>queued.
          bbind (getBlastOrThrow i) (\<lambda>blast. bret (Inr (queued, blast)))))"

section \<open>The cron\<close>

definition isP2pBlast :: "json option \<Rightarrow> bool" where
  "isP2pBlast metadata \<longleftrightarrow> map_of (object_fields metadata) ''p2p'' = Some (JBool True)"

datatype DispatchResult =
    SkippedP2p string
  | QueuedBatch string bool
  | SentBatch string SendResult
  | FailedBatch string api_error

definition due_blasts :: "BlastStore \<Rightarrow> Blast list" where
  "due_blasts st =
     sort_key (\<lambda>b. (bl_scheduledFor b = None, case bl_scheduledFor b of None \<Rightarrow> 0 | Some t \<Rightarrow> t, bl_updatedAt b))
       (filter (\<lambda>b. (bl_status b = BlastStatus.SCHEDULED \<and>
                     (case bl_scheduledFor b of None \<Rightarrow> False | Some t \<Rightarrow> t \<le> bs_now st)) \<or>
                    bl_status b = BlastStatus.SENDING) (bs_blasts st))"

text \<open>\<open>try ... catch\<close>\<close>

definition battempt :: "'a blast \<Rightarrow> 'a res blast" where
  "battempt m = (\<lambda>st. case m st of (r, st') \<Rightarrow> (Inr r, st'))"

fun dispatch_loop :: "BlastEnv \<Rightarrow> rat \<Rightarrow> Blast list \<Rightarrow> DispatchResult list \<Rightarrow> DispatchResult list blast" where
  "dispatch_loop env batchSize [] results = bret results"
| "dispatch_loop env batchSize (b # bs) results =
     (if isP2pBlast (bl_metadata b) then dispatch_loop env batchSize bs (results @ [SkippedP2p (bl_id b)])
      else if be_bullmq env
      then bbind (bget bs_now) (\<lambda>now.
           bbind (enqueueBlastSendBatch (bl_id b) (Some batchSize)
               (case bl_scheduledFor b of Some t \<Rightarrow> if t > now then Some t else None | None \<Rightarrow> None) None) (\<lambda>queued.
           dispatch_loop env batchSize bs (results @ [QueuedBatch (bl_id b) queued])))
      else bbind (battempt (sendNow env (bl_id b) (Some batchSize))) (\<lambda>outcome.
           dispatch_loop env batchSize bs (results @
             [case outcome of Inr r \<Rightarrow> SentBatch (bl_id b) r | Inl e \<Rightarrow> FailedBatch (bl_id b) e])))"

text \<open>The limit of the query string: absent, or a number (\<open>None\<close>: not a number).\<close>

definition dispatch_limit :: "BlastEnv \<Rightarrow> rat option option \<Rightarrow> nat" where
  "dispatch_limit env limit =
     bounded 1 100 (case limit of None \<Rightarrow> rat_of_nat (getDispatchLimit env)
       | Some None \<Rightarrow> 1 | Some (Some q) \<Rightarrow> if q = 0 then 1 else q)"

definition dispatchDueScheduled :: "BlastEnv \<Rightarrow> rat option option \<Rightarrow> DispatchResult list blast" where
  "dispatchDueScheduled env limit =
     bbind (bget (\<lambda>st. take (dispatch_limit env limit) (due_blasts st))) (\<lambda>due.
     dispatch_loop env (rat_of_nat (getDispatchBatchSize env)) due [])"

section \<open>Proofs\<close>

text \<open>A proof renders the draft for sample recipients and texts the first rendering to a number the author gives. It
  writes no table; a proof is not a text of the blast, so \<open>bs_texts\<close> does not record it.\<close>

definition default_samples :: "json list" where
  "default_samples =
     [JObj [(''first_name'', JStr ''Sarah''), (''city'', JStr ''Chicago''), (''discount_code'', JStr ''RENEW24'')]]"

fun render_samples :: "BlastEnv \<Rightarrow> string \<Rightarrow> json list \<Rightarrow> string list res" where
  "render_samples env template [] = Inr []"
| "render_samples env template (j # js) =
     rbind (render (be_compile env) template j) (\<lambda>x. rbind (render_samples env template js) (\<lambda>xs. Inr (x # xs)))"

definition send_proof :: "BlastEnv \<Rightarrow> Blast \<Rightarrow> string \<Rightarrow> string \<Rightarrow> SendOptions \<Rightarrow> TwilioMessage blast" where
  "send_proof env blast to body opts = (\<lambda>st.
     if be_dryRun env
     then (createDryRunMessage env (bs_calls st) (bs_now st) to body (''proof-'' @ bl_id blast) (bl_channel blast),
           st\<lparr>bs_calls := bs_calls st + 1\<rparr>)
     else (case be_twilio env (bs_calls st) to body opts of Inl e \<Rightarrow> Inl (ThrownError e) | Inr m \<Rightarrow> Inr m,
           st\<lparr>bs_calls := bs_calls st + 1\<rparr>))"

definition previewProof ::
  "BlastEnv \<Rightarrow> string \<Rightarrow> string \<Rightarrow> json list \<Rightarrow> string option \<Rightarrow> (string list \<times> (string option \<times> string) option) blast" where
  "previewProof env tenantId i samples proofNumber = bbind (getBlastForTenant tenantId i) (\<lambda>blast.
     (let sampleRecipients = (if samples \<noteq> [] then samples else default_samples) in
     bbind (blift (render_samples env (bl_bodyTemplate blast) sampleRecipients)) (\<lambda>previews.
     (let number = js_trim (str_or_empty proofNumber) in
     if number = [] \<or> hd previews = [] then bret (previews, None)
     else bbind (blift (normalizePhoneE164 number)) (\<lambda>to.
          bbind (blift (sendOptionsFor env blast (hd sampleRecipients))) (\<lambda>opts.
          bbind (send_proof env blast to (hd previews) opts) (\<lambda>m.
          bret (previews, Some (tm_to m, tm_sid m)))))))))"

section \<open>Retries\<close>

definition retry_one :: "BlastEnv \<Rightarrow> Blast \<Rightarrow> BlastRecipient \<Rightarrow> bool blast" where
  "retry_one env blast r =
     bbind (send_text env blast (rc_phoneE164 r) (rc_renderedBody r) (extractRecipientContext (rc_metadata r))
              (''retry-'' @ rc_id r)) (\<lambda>answer.
     case answer of
       Inl failureText \<Rightarrow>
         bbind (mark_failed env r ''retry_failed'' ''Retry send failed'' True failureText) (\<lambda>_. bret False)
     | Inr m \<Rightarrow>
         bbind (write_recipient env r (plain_trace ''SENT'' ''retry_failed''
             (if be_dryRun env then ''Dry run: simulated retry send success'' else ''Retry send succeeded'') (Some (tm_sid m)))
           (\<lambda>r. r\<lparr>rc_status := BlastRecipientStatus.SENT, rc_twilioMessageSid := Some (tm_sid m),
                 rc_sentAt := Some (sent_at m), rc_failureCategory := None, rc_errorCode := None,
                 rc_errorMessage := None\<rparr>)) (\<lambda>_. bret True))"

fun retry_loop :: "BlastEnv \<Rightarrow> Blast \<Rightarrow> nat \<Rightarrow> BlastRecipient list \<Rightarrow> nat \<Rightarrow> nat blast" where
  "retry_loop env blast n [] retried = bret retried"
| "retry_loop env blast n (r # rs) retried =
     (if be_elapsed env n \<ge> getSendTimeBudgetMs env then bret retried
      else bbind (retry_one env blast r) (\<lambda>ok.
           retry_loop env blast (n + 1) rs (if ok then retried + 1 else retried)))"

definition failed_batch :: "string \<Rightarrow> nat \<Rightarrow> BlastStore \<Rightarrow> BlastRecipient list" where
  "failed_batch blastId batchSize st =
     take batchSize (filter (\<lambda>r. rc_status r = BlastRecipientStatus.FAILED) (recipients_of blastId st))"

definition retryFailed :: "BlastEnv \<Rightarrow> string \<Rightarrow> nat blast" where
  "retryFailed env i = bbind (getBlastOrThrow i) (\<lambda>blast.
     bbind (bget (failed_batch i (getSendBatchSize env None))) (\<lambda>batch.
     bbind (retry_loop env blast 0 batch 0) (\<lambda>retried.
     bbind (recalculateBlastStatus i) (\<lambda>_. bret retried))))"

definition requestRetryFailed :: "BlastEnv \<Rightarrow> string \<Rightarrow> string \<Rightarrow> (nat + bool) blast" where
  "requestRetryFailed env tenantId i = bbind (getBlastForTenant tenantId i) (\<lambda>_.
     if \<not> be_bullmq env then bbind (retryFailed env i) (\<lambda>n. bret (Inl n))
     else bbind (enqueueBlastRetryFailed i) (\<lambda>queued. bret (Inr queued)))"

text \<open>What the worker does with a job.\<close>

definition processBlastJob :: "BlastEnv \<Rightarrow> BlastJob \<Rightarrow> unit blast" where
  "processBlastJob env job =
     (if bj_retry job then bbind (retryFailed env (bj_blastId job)) (\<lambda>_. bret ())
      else bbind (sendNow env (bj_blastId job) (bj_batchSize job)) (\<lambda>_. bret ()))"

section \<open>Volunteers' sends\<close>

definition prepareP2pBlast :: "BlastEnv \<Rightarrow> string \<Rightarrow> string \<Rightarrow> unit blast" where
  "prepareP2pBlast env tenantId blastId = bbind (getBlastForTenant tenantId blastId) (\<lambda>blast.
     if \<not> isP2pBlast (bl_metadata blast) then blift (Inl (apiHttpException ''BLAST_NOT_P2P'' None))
     else bbind (ensureBlastRecipientRecords env blast) (\<lambda>_.
       if bl_status blast \<noteq> BlastStatus.SENDING \<and> bl_status blast \<noteq> BlastStatus.SENT then begin_sending blast else bret ()))"

datatype SingleOutcome = SentSingle string | SkippedDuplicate | FailedSingle string

definition recipient_in_tenant :: "string \<Rightarrow> string \<Rightarrow> BlastStore \<Rightarrow> (BlastRecipient \<times> Blast) option" where
  "recipient_in_tenant tenantId recipientId st =
     (case find (\<lambda>r. rc_id r = recipientId) (bs_recipients st) of
        None \<Rightarrow> None
      | Some r \<Rightarrow> (case find_blast (rc_blastId r) st of
          None \<Rightarrow> None | Some b \<Rightarrow> if bl_tenantId b = tenantId then Some (r, b) else None))"

definition already_sent :: "BlastRecipient \<Rightarrow> BlastStore \<Rightarrow> bool" where
  "already_sent r st = list_ex (\<lambda>x. rc_phoneE164 x = rc_phoneE164 r \<and> rc_status x \<in> set SENT_RECIPIENT_STATUSES \<and>
     rc_id x \<noteq> rc_id r) (recipients_of (rc_blastId r) st)"

definition sendSingleRecipient :: "BlastEnv \<Rightarrow> string \<Rightarrow> string \<Rightarrow> string \<Rightarrow> SingleOutcome blast" where
  "sendSingleRecipient env tenantId recipientId assigneeId = bbind (bget (recipient_in_tenant tenantId recipientId)) (\<lambda>found.
     case found of
       None \<Rightarrow> blift (Inl (apiHttpException ''RECIPIENT_NOT_FOUND'' (Some 404)))
     | Some (r, blast) \<Rightarrow>
         if rc_assigneeId r \<noteq> Some assigneeId then blift (Inl (apiHttpException ''RECIPIENT_NOT_ASSIGNED'' (Some 403)))
         else if \<not> is_pending r then blift (Inl (apiHttpException ''RECIPIENT_ALREADY_SENT'' (Some 409)))
         else bbind (bget (already_sent r)) (\<lambda>dup.
           if dup then bbind (mark_skipped env r ''p2p_send'' ''Skipped duplicate phone in P2P send'') (\<lambda>_. bret SkippedDuplicate)
           else bbind (send_recipient env blast r ''p2p_send'' (''p2p-'' @ rc_id r)
                         ''P2P send attempt failed before delivery callback'' False) (\<lambda>(taken, failure).
                bbind (recalculateBlastStatus (bl_id blast)) (\<lambda>_.
                bret (case failure of Some t \<Rightarrow> FailedSingle t | None \<Rightarrow> SentSingle (tm_sid (the taken)))))))"

section \<open>Status callbacks\<close>

fun mapTwilioToTxStatus :: "string \<Rightarrow> TxSmsStatus option" where
  "mapTwilioToTxStatus status =
     (if status = ''queued'' then Some TxSmsStatus.QUEUED
      else if status = ''sent'' then Some TxSmsStatus.SENT
      else if status = ''delivered'' \<or> status = ''read'' then Some TxSmsStatus.DELIVERED
      else if status = ''undelivered'' then Some TxSmsStatus.UNDELIVERED
      else if status = ''failed'' then Some TxSmsStatus.FAILED
      else None)"

record TwilioStatusCallbackPayload =
  cp_messageSid :: string
  cp_messageStatus :: string
  cp_errorCode :: "string option"
  cp_errorMessage :: "string option"

definition confirmed_statuses :: "string list" where
  "confirmed_statuses = [''delivered'', ''read'']"

definition failed_statuses :: "string list" where
  "failed_statuses = [''failed'', ''undelivered'']"

definition confirmed_status :: "string \<Rightarrow> BlastRecipientStatus" where
  "confirmed_status status = (if status = ''read'' then BlastRecipientStatus.READ else BlastRecipientStatus.DELIVERED)"

definition failed_status :: "string \<Rightarrow> BlastRecipientStatus" where
  "failed_status status = (if status = ''undelivered'' then BlastRecipientStatus.UNDELIVERED else BlastRecipientStatus.FAILED)"

text \<open>\<open>a || b || null\<close>\<close>

definition first_truthy :: "string option \<Rightarrow> string option \<Rightarrow> string option" where
  "first_truthy a b = (if truthy a then a else or_null b)"

text \<open>The row a callback leaves behind; \<open>None\<close> when it changes nothing.\<close>

definition confirm_recipient :: "BlastEnv \<Rightarrow> string \<Rightarrow> string \<Rightarrow> rat \<Rightarrow> BlastRecipient \<Rightarrow> BlastRecipient option" where
  "confirm_recipient env sid status now r =
     (let confirmedStatus = confirmed_status status;
          shouldSetDeliveredAt = (rc_deliveredAt r = None);
          shouldSetDeliveredStatus = (rc_status r \<in> set SEND_PHASE_RECIPIENT_STATUSES \<and> rc_status r \<noteq> confirmedStatus);
          shouldClearError = (truthy (rc_errorCode r) \<or> truthy (rc_errorMessage r)) in
      if shouldSetDeliveredAt \<or> shouldSetDeliveredStatus \<or> shouldClearError
      then Some (r\<lparr>rc_deliveredAt := (if shouldSetDeliveredAt then Some now else rc_deliveredAt r),
             rc_status := (if shouldSetDeliveredStatus then confirmedStatus else rc_status r),
             rc_errorCode := (if shouldClearError then None else rc_errorCode r),
             rc_errorMessage := (if shouldClearError then None else rc_errorMessage r),
             rc_metadata := Some (appendRecipientTrace (rc_metadata r)
               (plain_trace (recipient_status confirmedStatus) ''twilio_callback'' (''Delivery confirmed ('' @ status @ '')'') (Some sid))
               (be_iso env now))\<rparr>)
      else None)"

definition fail_recipient ::
  "BlastEnv \<Rightarrow> string \<Rightarrow> string \<Rightarrow> string option \<Rightarrow> string option \<Rightarrow> rat \<Rightarrow> BlastRecipient \<Rightarrow> BlastRecipient option" where
  "fail_recipient env sid status errorCode errorMessage now r =
     (let codeRaw = first_truthy errorCode (rc_errorCode r);
          message = first_truthy errorMessage (rc_errorMessage r);
          c = classifyFailureScope \<lparr>fi_errorCode = codeRaw, fi_errorMessage = message, fi_messageStatus = Some status,
                fi_error = None\<rparr>;
          shouldSetFailedStatus = (rc_status r \<in> set FAILED_TRANSITIONABLE_STATUSES);
          code = first_truthy (cf_code c) codeRaw;
          category = Some (cf_normalizedCategory c);
          shouldSetCategory = (category \<noteq> rc_failureCategory r);
          shouldSetCode = (truthy code \<and> code \<noteq> rc_errorCode r);
          shouldSetMessage = (truthy message \<and> message \<noteq> rc_errorMessage r) in
      if shouldSetFailedStatus \<or> shouldSetCategory \<or> shouldSetCode \<or> shouldSetMessage
      then Some (r\<lparr>rc_status := (if shouldSetFailedStatus then failed_status status else rc_status r),
             rc_failureCategory := category,
             rc_errorCode := (if shouldSetCode then code else rc_errorCode r),
             rc_errorMessage := (if shouldSetMessage then message else rc_errorMessage r),
             rc_metadata := Some (appendRecipientTrace (rc_metadata r)
               \<lparr>ti_status = recipient_status (failed_status status), ti_source = ''twilio_callback'',
                ti_scope = Some (scope_name (cf_scope c)), ti_category = category,
                ti_reason = Some (''Delivery failed ('' @ status @ '')''), ti_code = code,
                ti_detail = (if truthy message then message else Some sid)\<rparr>
               (be_iso env now))\<rparr>)
      else None)"

definition callback_recipient ::
  "BlastEnv \<Rightarrow> string \<Rightarrow> string \<Rightarrow> string option \<Rightarrow> string option \<Rightarrow> rat \<Rightarrow> BlastRecipient \<Rightarrow> BlastRecipient option" where
  "callback_recipient env sid status errorCode errorMessage now r =
     (if status \<in> set confirmed_statuses then confirm_recipient env sid status now r
      else if status \<in> set failed_statuses then fail_recipient env sid status errorCode errorMessage now r
      else None)"

definition callback_transactional :: "string \<Rightarrow> string option \<Rightarrow> string option \<Rightarrow> OutboundMessage \<Rightarrow> OutboundMessage option" where
  "callback_transactional status errorCode errorMessage m =
     (case mapTwilioToTxStatus status of
        None \<Rightarrow> None
      | Some target \<Rightarrow>
          (let from = (case ou_txStatus m of None \<Rightarrow> TxSmsStatus.SENT | Some s \<Rightarrow> s) in
           if from = target \<or> \<not> canTransitionTxSms from target then None
           else if target = TxSmsStatus.FAILED \<or> target = TxSmsStatus.UNDELIVERED
           then Some (m\<lparr>ou_txStatus := Some target,
                  ou_errorCode := (if truthy errorCode then errorCode else ou_errorCode m),
                  ou_errorMessage := (if truthy errorMessage then errorMessage else ou_errorMessage m)\<rparr>)
           else if target = TxSmsStatus.DELIVERED \<and> (truthy (ou_errorCode m) \<or> truthy (ou_errorMessage m))
           then Some (m\<lparr>ou_txStatus := Some target, ou_errorCode := None, ou_errorMessage := None\<rparr>)
           else Some (m\<lparr>ou_txStatus := Some target\<rparr>)))"

definition callback_marketing :: "string \<Rightarrow> string option \<Rightarrow> string option \<Rightarrow> OutboundMessage \<Rightarrow> OutboundMessage option" where
  "callback_marketing status errorCode errorMessage m =
     (if status \<in> set confirmed_statuses
      then (let setStatus = (ou_status m \<noteq> confirmed_status status \<and> ou_status m \<noteq> BlastRecipientStatus.READ);
                clearError = (truthy (ou_errorCode m) \<or> truthy (ou_errorMessage m)) in
            if setStatus \<or> clearError
            then Some (m\<lparr>ou_status := (if setStatus then confirmed_status status else ou_status m),
                   ou_errorCode := (if clearError then None else ou_errorCode m),
                   ou_errorMessage := (if clearError then None else ou_errorMessage m)\<rparr>)
            else None)
      else if status \<in> set failed_statuses
      then (let setStatus = (ou_status m \<noteq> failed_status status);
                setCode = (truthy errorCode \<and> errorCode \<noteq> ou_errorCode m);
                setMessage = (truthy errorMessage \<and> errorMessage \<noteq> ou_errorMessage m) in
            if setStatus \<or> setCode \<or> setMessage
            then Some (m\<lparr>ou_status := (if setStatus then failed_status status else ou_status m),
                   ou_errorCode := (if setCode then errorCode else ou_errorCode m),
                   ou_errorMessage := (if setMessage then errorMessage else ou_errorMessage m)\<rparr>)
            else None)
      else None)"

definition callback_outbound :: "string \<Rightarrow> string option \<Rightarrow> string option \<Rightarrow> OutboundMessage \<Rightarrow> OutboundMessage option" where
  "callback_outbound status errorCode errorMessage m =
     (if ou_transactional m then callback_transactional status errorCode errorMessage m
      else callback_marketing status errorCode errorMessage m)"

definition apply_where :: "('r \<Rightarrow> bool) \<Rightarrow> ('r \<Rightarrow> 'r option) \<Rightarrow> 'r list \<Rightarrow> 'r list" where
  "apply_where P f rows = map (\<lambda>r. if P r then (case f r of None \<Rightarrow> r | Some r' \<Rightarrow> r') else r) rows"

fun recalculate_all :: "string list \<Rightarrow> StatusUpdate list \<Rightarrow> StatusUpdate list blast" where
  "recalculate_all [] us = bret us"
| "recalculate_all (b # bs) us = bbind (recalculateBlastStatus b) (\<lambda>u. recalculate_all bs (us @ [u]))"

record CallbackResult =
  cr_recipientUpdates :: nat
  cr_outboundUpdates :: nat
  cr_blastStatusUpdates :: "StatusUpdate list"
  cr_ignored :: bool

definition ignored_callback :: CallbackResult where
  "ignored_callback = \<lparr>cr_recipientUpdates = 0, cr_outboundUpdates = 0, cr_blastStatusUpdates = [], cr_ignored = True\<rparr>"

definition trimmed_or_null :: "string option \<Rightarrow> string option" where
  "trimmed_or_null v = (if truthy v then map_option js_trim v else None)"

definition applyTwilioStatusCallback :: "BlastEnv \<Rightarrow> TwilioStatusCallbackPayload \<Rightarrow> CallbackResult blast" where
  "applyTwilioStatusCallback env payload =
     (let sid = js_trim (cp_messageSid payload);
          status = js_lower (js_trim (cp_messageStatus payload));
          errorCode = trimmed_or_null (cp_errorCode payload);
          errorMessage = trimmed_or_null (cp_errorMessage payload) in
      if sid = [] \<or> status = [] then bret ignored_callback
      else bbind (bget (\<lambda>st. st)) (\<lambda>st0.
        (let ofRecipient = callback_recipient env sid status errorCode errorMessage (bs_now st0);
             ofOutbound = callback_outbound status errorCode errorMessage;
             recipients = filter (\<lambda>r. rc_twilioMessageSid r = Some sid \<and> ofRecipient r \<noteq> None) (bs_recipients st0);
             outbound = filter (\<lambda>m. ou_twilioMessageSid m = Some sid \<and> ofOutbound m \<noteq> None) (bs_outbound st0) in
         bbind (bmodify (\<lambda>st. st\<lparr>
             bs_recipients := apply_where (\<lambda>r. rc_twilioMessageSid r = Some sid) ofRecipient (bs_recipients st),
             bs_outbound := apply_where (\<lambda>m. ou_twilioMessageSid m = Some sid) ofOutbound (bs_outbound st)\<rparr>)) (\<lambda>_.
         bbind (recalculate_all (js_set (map rc_blastId recipients)) []) (\<lambda>updates.
         bret \<lparr>cr_recipientUpdates = length recipients, cr_outboundUpdates = length outbound,
               cr_blastStatusUpdates = updates, cr_ignored = False\<rparr>)))))"

definition claim_callback :: "string \<Rightarrow> bool blast" where
  "claim_callback eventId = (\<lambda>st.
     if (''twilio'', eventId) \<in> set (bs_claims st) then (Inr False, st)
     else (Inr True, st\<lparr>bs_claims := bs_claims st @ [(''twilio'', eventId)]\<rparr>))"

definition release_callback :: "string \<Rightarrow> BlastStore \<Rightarrow> BlastStore" where
  "release_callback eventId st = st\<lparr>bs_claims := filter (\<lambda>c. c \<noteq> (''twilio'', eventId)) (bs_claims st)\<rparr>"

definition handleTwilioStatusCallback :: "BlastEnv \<Rightarrow> TwilioStatusCallbackPayload \<Rightarrow> CallbackResult blast" where
  "handleTwilioStatusCallback env payload =
     (let sid = js_trim (cp_messageSid payload);
          st = js_lower (js_trim (cp_messageStatus payload));
          eventId = sid @ '':'' @ st in
      if sid \<noteq> [] \<and> st \<noteq> []
      then bbind (claim_callback eventId) (\<lambda>claimed.
           if \<not> claimed then bret ignored_callback
           else (\<lambda>s. case applyTwilioStatusCallback env payload s of
                   (Inl e, s') \<Rightarrow> (Inl e, release_callback eventId s')
                 | (Inr r, s') \<Rightarrow> (Inr r, s')))
      else applyTwilioStatusCallback env payload)"

section \<open>Replies\<close>

text \<open>The blast and recipient a reply is attributed to: the latest blast message to that phone on the reply's channel.\<close>

definition later :: "OutboundMessage \<Rightarrow> OutboundMessage option \<Rightarrow> OutboundMessage option" where
  "later m best = (case best of None \<Rightarrow> Some m | Some b \<Rightarrow> if ou_sentAt b \<le> ou_sentAt m then Some m else Some b)"

definition attributedOutbound :: "BlastStore \<Rightarrow> string \<Rightarrow> string \<Rightarrow> MessageChannel \<Rightarrow> OutboundMessage option" where
  "attributedOutbound st tenantId fromPhone channel =
     fold later (filter (\<lambda>m. ou_tenantId m = tenantId \<and> ou_toPhone m = fromPhone \<and> ou_channel m = channel \<and>
       (ou_blastId m \<noteq> None \<or> ou_recipientId m \<noteq> None)) (bs_outbound st)) None"

definition responds :: "OutboundMessage \<Rightarrow> string \<Rightarrow> BlastRecipient \<Rightarrow> bool" where
  "responds m fromPhone r \<longleftrightarrow>
     (if truthy (ou_recipientId m) then Some (rc_id r) = ou_recipientId m
      else truthy (ou_blastId m) \<and> Some (rc_blastId r) = ou_blastId m \<and> rc_phoneE164 r = fromPhone) \<and>
     rc_status r \<noteq> BlastRecipientStatus.RESPONDED"

definition recordReply :: "string \<Rightarrow> string \<Rightarrow> MessageChannel \<Rightarrow> unit blast" where
  "recordReply tenantId fromPhone channel = bbind (bget (\<lambda>st. attributedOutbound st tenantId fromPhone channel)) (\<lambda>found.
     case found of
       None \<Rightarrow> bret ()
     | Some m \<Rightarrow> bbind (bget (\<lambda>st. list_ex (responds m fromPhone) (bs_recipients st))) (\<lambda>some_row.
         bbind (bmodify (\<lambda>st. st\<lparr>bs_recipients := map (\<lambda>r. if responds m fromPhone r
                   then r\<lparr>rc_status := BlastRecipientStatus.RESPONDED, rc_respondedAt := Some (bs_now st)\<rparr> else r)
                 (bs_recipients st)\<rparr>)) (\<lambda>_.
         if some_row then writeSnapshot tenantId (or_null (ou_blastId m)) ''responded'' 1 else bret ())))"

end
