(* ===== verification/Blast_Effects.thy ===== *)
theory Blast_Effects
  imports Blast_Send "HOL-Library.Sublist"
begin

text \<open>
  What the operations of a blast do to its recipients: every attempt settles its row for good, the batch sender
  walks through the pending rows in order, and the blast's status is recomputed from them. These are the facts the
  properties of \<open>Blast_Life\<close> rest on.
\<close>

named_theorems blast_run

lemma blast_monad [blast_run]:
  "bret x st = (Inr x, st)" "blift r st = (r, st)" "bmodify f st = (Inr (), f st)" "bget h st = (Inr (h st), st)"
  by (simp_all add: bret_def blift_def bmodify_def bget_def)

lemma bbind_run [blast_run]:
  "bbind m f st = (case m st of (Inl e, st') \<Rightarrow> (Inl e, st') | (Inr x, st') \<Rightarrow> f x st')"
  by (simp add: bbind_def)

lemma bbind_assoc: "bbind (bbind m f) g = bbind m (\<lambda>x. bbind (f x) g)"
  by (auto simp: bbind_def fun_eq_iff split: prod.split sum.split)

section \<open>Row writes\<close>

definition same_rest :: "BlastStore \<Rightarrow> BlastStore \<Rightarrow> bool" where
  "same_rest st st' \<longleftrightarrow>
     bs_blasts st' = bs_blasts st \<and> bs_templates st' = bs_templates st \<and> bs_outbox st' = bs_outbox st \<and>
     bs_snapshots st' = bs_snapshots st \<and> bs_jobs st' = bs_jobs st \<and> bs_claims st' = bs_claims st \<and>
     bs_audience st' = bs_audience st \<and> bs_nextId st' = bs_nextId st \<and> bs_now st' = bs_now st"

lemma same_rest_refl [simp]: "same_rest st st"
  by (simp add: same_rest_def)

lemma same_rest_trans: "same_rest a b \<Longrightarrow> same_rest b c \<Longrightarrow> same_rest a c"
  by (simp add: same_rest_def)

text \<open>A row write that keeps what identifies a recipient.\<close>

definition keeps_identity :: "(BlastRecipient \<Rightarrow> BlastRecipient) \<Rightarrow> bool" where
  "keeps_identity g \<longleftrightarrow> (\<forall>x. rc_id (g x) = rc_id x \<and> recipient_key (g x) = recipient_key x)"

definition settles :: "(BlastRecipient \<Rightarrow> BlastRecipient) \<Rightarrow> bool" where
  "settles g \<longleftrightarrow> keeps_identity g \<and> (\<forall>x. \<not> is_pending (g x))"

definition write_row :: "string \<Rightarrow> (BlastRecipient \<Rightarrow> BlastRecipient) \<Rightarrow> BlastRecipient list \<Rightarrow> BlastRecipient list" where
  "write_row i g rows = map (\<lambda>x. if rc_id x = i then g x else x) rows"

lemma write_row_compose:
  "keeps_identity g \<Longrightarrow> write_row i h (write_row i g rows) = write_row i (h \<circ> g) rows"
  by (auto simp: write_row_def keeps_identity_def)

lemma settles_compose: "keeps_identity g \<Longrightarrow> settles h \<Longrightarrow> settles (h \<circ> g)"
  by (simp add: settles_def keeps_identity_def)

lemma write_row_keys [simp]:
  "keeps_identity g \<Longrightarrow> map rc_id (write_row i g rows) = map rc_id rows"
  "keeps_identity g \<Longrightarrow> map recipient_key (write_row i g rows) = map recipient_key rows"
  by (auto simp: write_row_def keeps_identity_def)

lemma write_recipient_run [blast_run]:
  "write_recipient env r tr f st =
     (Inr (), st\<lparr>bs_recipients := write_row (rc_id r)
        (\<lambda>x. (f x)\<lparr>rc_metadata := Some (appendRecipientTrace (rc_metadata r) tr (be_iso env (bs_now st)))\<rparr>) (bs_recipients st)\<rparr>)"
  by (simp add: write_recipient_def update_recipient_def write_row_def blast_run)

definition text_of :: "Blast \<Rightarrow> BlastRecipient \<Rightarrow> SentText" where
  "text_of blast r = \<lparr>st_blastId = bl_id blast, st_phone = rc_phoneE164 r, st_body = rc_renderedBody r\<rparr>"

section \<open>One attempt\<close>

lemma send_text_run:
  obtains answer n ts where
    "send_text env blast to body context tag st = (Inr answer, st\<lparr>bs_calls := n, bs_texts := bs_texts st @ ts\<rparr>)"
    "ts = (case answer of Inr m \<Rightarrow>
       if be_dryRun env then [] else [\<lparr>st_blastId = bl_id blast, st_phone = to, st_body = body\<rparr>] | Inl e \<Rightarrow> [])"
proof (cases "sendOptionsFor env blast context")
  case (Inl e)
  show thesis by (rule that [where answer = "Inl (be_errorText env e)" and n = "bs_calls st", OF _ refl]) (simp_all add: send_text_def Inl)
next
  case (Inr opts)
  show thesis
  proof (cases "be_dryRun env")
    case True
    show thesis
    proof (cases "createDryRunMessage env (bs_calls st) (bs_now st) to body tag (bl_channel blast)")
      case (Inl e)
      show thesis
        by (rule that [where answer = "Inl (be_errorText env e)" and n = "bs_calls st", OF _ refl]) (simp_all add: send_text_def Inl \<open>sendOptionsFor _ _ _ = _\<close> True)
    next
      case (Inr m)
      show thesis
        by (rule that [where answer = "Inr m" and n = "bs_calls st + 1", OF _ refl]) (simp_all add: send_text_def Inr \<open>sendOptionsFor _ _ _ = _\<close> True)
    qed
  next
    case False
    show thesis
      by (rule that [where answer = "be_twilio env (bs_calls st) to body opts" and n = "bs_calls st + 1", OF _ refl])
        (simp_all add: send_text_def Inr False split: sum.split)
  qed
qed

definition failed_row :: "BlastEnv \<Rightarrow> BlastRecipient \<Rightarrow> string \<Rightarrow> string \<Rightarrow> bool \<Rightarrow> string \<Rightarrow> rat \<Rightarrow> BlastRecipient \<Rightarrow> BlastRecipient" where
  "failed_row env loaded source reason detail failureText now x =
     (let c = classify_error failureText in
      x\<lparr>rc_status := BlastRecipientStatus.FAILED, rc_failureCategory := Some (cf_normalizedCategory c),
        rc_errorCode := (if truthy (cf_code c) then cf_code c else rc_errorCode x),
        rc_errorMessage := Some failureText,
        rc_metadata := Some (appendRecipientTrace (rc_metadata loaded)
          \<lparr>ti_status = ''FAILED'', ti_source = source, ti_scope = Some (scope_name (cf_scope c)),
           ti_category = Some (cf_normalizedCategory c), ti_reason = Some reason, ti_code = cf_code c,
           ti_detail = (if detail then Some failureText else None)\<rparr> (be_iso env now))\<rparr>)"

definition sent_row :: "BlastEnv \<Rightarrow> BlastRecipient \<Rightarrow> string \<Rightarrow> string \<Rightarrow> TwilioMessage \<Rightarrow> rat \<Rightarrow> BlastRecipient \<Rightarrow> BlastRecipient" where
  "sent_row env loaded source reason m now x =
     x\<lparr>rc_status := BlastRecipientStatus.SENT, rc_twilioMessageSid := Some (tm_sid m), rc_sentAt := Some (sent_at m),
       rc_metadata := Some (appendRecipientTrace (rc_metadata loaded)
         (plain_trace ''SENT'' source reason (Some (tm_sid m))) (be_iso env now))\<rparr>"

lemma mark_failed_run [blast_run]:
  "mark_failed env r source reason detail failureText st =
     (Inr (), st\<lparr>bs_recipients := write_row (rc_id r) (failed_row env r source reason detail failureText (bs_now st)) (bs_recipients st)\<rparr>)"
  by (simp add: mark_failed_def blast_run failed_row_def [abs_def] Let_def)

lemma mark_sent_run [blast_run]:
  "mark_sent env r source reason m st =
     (Inr (), st\<lparr>bs_recipients := write_row (rc_id r) (sent_row env r source reason m (bs_now st)) (bs_recipients st)\<rparr>)"
  by (simp add: mark_sent_def blast_run sent_row_def [abs_def])

lemma settles_rows [simp]:
  "settles (failed_row env r source reason detail failureText now)" "settles (sent_row env r source reason m now)"
  by (simp_all add: settles_def keeps_identity_def failed_row_def sent_row_def is_pending_def recipient_key_def Let_def)

lemma settles_keeps [simp]: "settles g \<Longrightarrow> keeps_identity g"
  by (simp add: settles_def)

text \<open>Whatever the provider answers, the attempt returns, settles its row, and writes no other row.\<close>

lemma send_recipient_run:
  obtains taken failure ts g where
    "fst (send_recipient env blast r source tag reason detail st) = Inr (taken, failure)"
    "bs_texts (snd (send_recipient env blast r source tag reason detail st)) = bs_texts st @ ts"
    "bs_recipients (snd (send_recipient env blast r source tag reason detail st)) = write_row (rc_id r) g (bs_recipients st)"
    "same_rest st (snd (send_recipient env blast r source tag reason detail st))"
    "settles g" "ts = (if taken \<noteq> None \<and> \<not> be_dryRun env then [text_of blast r] else [])"
    "bs_outbound (snd (send_recipient env blast r source tag reason detail st)) = bs_outbound st \<or>
     (\<exists>m row. outbound_row blast r m = Inr row \<and>
       bs_outbound (snd (send_recipient env blast r source tag reason detail st)) = bs_outbound st @ [row])"
proof -
  obtain answer n ts where t:
    "send_text env blast (rc_phoneE164 r) (rc_renderedBody r) (extractRecipientContext (rc_metadata r)) tag st =
       (Inr answer, st\<lparr>bs_calls := n, bs_texts := bs_texts st @ ts\<rparr>)"
    "ts = (case answer of Inr m \<Rightarrow> if be_dryRun env then [] else [text_of blast r] | Inl e \<Rightarrow> [])"
    by (rule send_text_run [of env blast "rc_phoneE164 r" "rc_renderedBody r" _ tag st, folded text_of_def])
  note found = that
  let ?fail = "\<lambda>text. failed_row env r source reason detail text (bs_now st)"
  show thesis
  proof (cases answer)
    case (Inl e)
    show thesis
      by (rule that [of None "Some e" "[]" "?fail e"]) (use t Inl in \<open>simp_all add: send_recipient_def blast_run same_rest_def\<close>)
  next
    case (Inr m)
    let ?sent = "sent_row env r source (accepted_reason env) m (bs_now st)"
    have tried: thesis if "\<And>s. bs_outbound s = bs_outbound st \<Longrightarrow> create_outbound blast r m s = (Inr (Inl e), s)" for e
    proof (rule found [of "Some m" "Some (be_errorText env e)" ts "?fail (be_errorText env e) \<circ> ?sent"])
      show "settles (?fail (be_errorText env e) \<circ> ?sent)" by (rule settles_compose) simp_all
    qed (use t Inr that in \<open>simp_all add: send_recipient_def blast_run same_rest_def write_row_compose\<close>)
    show thesis
    proof (cases "outbound_row blast r m")
      case (Inl e)
      then show thesis by (intro tried [of e]) (simp add: create_outbound_def)
    next
      case row: (Inr row)
      show thesis
      proof (cases "list_ex (\<lambda>o'. ou_twilioMessageSid o' = Some (tm_sid m)) (bs_outbound st)")
        case True
        with row show thesis by (intro tried [of UniqueViolation]) (simp add: create_outbound_def)
      next
        case False
        show thesis
          by (rule that [of "Some m" None ts ?sent])
            (use t Inr row False in \<open>simp_all add: send_recipient_def create_outbound_def blast_run same_rest_def exI [of _ m]\<close>)
      qed
    qed
  qed
qed

section \<open>The batch\<close>

text \<open>How many of the loaded rows the time budget lets the loop reach.\<close>

fun reached :: "BlastEnv \<Rightarrow> nat \<Rightarrow> 'a list \<Rightarrow> nat" where
  "reached env n [] = 0"
| "reached env n (r # rs) = (if be_elapsed env n \<ge> getSendTimeBudgetMs env then 0 else Suc (reached env (n + 1) rs))"

definition write_rows ::
  "string set \<Rightarrow> (BlastRecipient \<Rightarrow> BlastRecipient) \<Rightarrow> BlastRecipient list \<Rightarrow> BlastRecipient list" where
  "write_rows ids g rows = map (\<lambda>x. if rc_id x \<in> ids then g x else x) rows"

lemma write_rows_empty [simp]: "write_rows {} g rows = rows"
  by (simp add: write_rows_def)

lemma write_rows_after:
  assumes "settles g" "settles h"
  obtains k where "settles k" "write_rows ids h (write_row i g rows) = write_rows (insert i ids) k rows"
proof
  let ?k = "\<lambda>x. if rc_id x \<in> ids then h (if rc_id x = i then g x else x) else g x"
  show "settles ?k" using assms by (auto simp: settles_def keeps_identity_def)
  show "write_rows ids h (write_row i g rows) = write_rows (insert i ids) ?k rows"
    using assms by (auto simp: write_rows_def write_row_def settles_def keeps_identity_def)
qed

definition queued_row :: "BlastEnv \<Rightarrow> BlastRecipient \<Rightarrow> rat \<Rightarrow> BlastRecipient \<Rightarrow> BlastRecipient" where
  "queued_row env loaded now x =
     x\<lparr>rc_status := BlastRecipientStatus.QUEUED, rc_metadata := Some (appendRecipientTrace (rc_metadata loaded)
       (plain_trace ''QUEUED'' ''send_now'' ''Recipient queued for send'' None) (be_iso env now))\<rparr>"

lemma mark_queued_run [blast_run]:
  "mark_queued env r st = (Inr (), st\<lparr>bs_recipients := write_row (rc_id r) (queued_row env r (bs_now st)) (bs_recipients st)\<rparr>)"
  by (simp add: mark_queued_def blast_run queued_row_def [abs_def])

lemma queued_keeps [simp]: "keeps_identity (queued_row env r now)"
  by (simp add: keeps_identity_def queued_row_def recipient_key_def)

lemma mark_skipped_run:
  obtains g where "settles g"
    "mark_skipped env r source reason st = (Inr (), st\<lparr>bs_recipients := write_row (rc_id r) g (bs_recipients st)\<rparr>)"
  by (rule that [OF _ mark_skipped_def [THEN fun_cong, unfolded blast_run]])
    (simp add: settles_def keeps_identity_def is_pending_def recipient_key_def)

text \<open>One round of the loop: the row is settled, and at most one text is taken.\<close>

definition loop_round :: "BlastEnv \<Rightarrow> Blast \<Rightarrow> string list \<Rightarrow> BlastRecipient \<Rightarrow> (bool \<times> bool \<times> bool) blast" where
  "loop_round env blast phones r =
     (if rc_phoneE164 r \<in> set phones
      then bbind (mark_skipped env r ''send_now'' ''Skipped duplicate phone in blast send batch'') (\<lambda>_. bret (True, False, False))
      else bbind (mark_queued env r) (\<lambda>_.
           bbind (send_recipient env blast r ''send_now'' (''send-'' @ rc_id r) send_failed_reason True) (\<lambda>(taken, failure).
           bret (False, taken \<noteq> None, failure \<noteq> None))))"

definition count_round :: "bool \<times> bool \<times> bool \<Rightarrow> SendCounts \<Rightarrow> SendCounts" where
  "count_round o' c = (case o' of (skipped, taken, failed) \<Rightarrow>
     if skipped then c\<lparr>sc_skipped := sc_skipped c + 1\<rparr>
     else c\<lparr>sc_sent := sc_sent c + (if taken then 1 else 0), sc_failed := sc_failed c + (if failed then 1 else 0)\<rparr>)"

definition next_phones :: "bool \<times> bool \<times> bool \<Rightarrow> string list \<Rightarrow> BlastRecipient \<Rightarrow> string list" where
  "next_phones o' phones r = (if fst (snd o') then rc_phoneE164 r # phones else phones)"

lemma send_loop_Cons:
  "send_loop env blast n phones (r # rs) c =
     (if be_elapsed env n \<ge> getSendTimeBudgetMs env then bret c
      else bbind (loop_round env blast phones r) (\<lambda>o'.
           send_loop env blast (n + 1) (next_phones o' phones r) rs (count_round o' c)))"
proof -
  show ?thesis
    by (auto simp: loop_round_def count_round_def next_phones_def bbind_def bret_def fun_eq_iff split: prod.split sum.split)
qed

declare send_loop.simps(2) [simp del]

lemma loop_round_run:
  obtains o' ts g os where
    "fst (loop_round env blast phones r st) = Inr o'"
    "bs_texts (snd (loop_round env blast phones r st)) = bs_texts st @ ts"
    "bs_recipients (snd (loop_round env blast phones r st)) = write_row (rc_id r) g (bs_recipients st)"
    "same_rest st (snd (loop_round env blast phones r st))"
    "settles g"
    "ts = (if fst (snd o') \<and> \<not> be_dryRun env then [text_of blast r] else [])"
    "fst o' \<longleftrightarrow> rc_phoneE164 r \<in> set phones" "fst o' \<longrightarrow> \<not> fst (snd o')"
    "bs_outbound (snd (loop_round env blast phones r st)) = bs_outbound st @ os"
    "\<forall>row\<in>set os. \<exists>m. outbound_row blast r m = Inr row"
proof (cases "rc_phoneE164 r \<in> set phones")
  case True
  obtain g where g: "settles g" "mark_skipped env r ''send_now'' ''Skipped duplicate phone in blast send batch'' st =
      (Inr (), st\<lparr>bs_recipients := write_row (rc_id r) g (bs_recipients st)\<rparr>)" by (rule mark_skipped_run)
  show thesis
    by (rule that [of "(True, False, False)" "[]" g "[]"])
      (use g True in \<open>simp_all add: loop_round_def blast_run same_rest_def\<close>)
next
  case False
  let ?q = "queued_row env r (bs_now st)"
  let ?s = "st\<lparr>bs_recipients := write_row (rc_id r) ?q (bs_recipients st)\<rparr>"
  let ?m = "send_recipient env blast r ''send_now'' (''send-'' @ rc_id r) send_failed_reason True ?s"
  obtain taken failure ts g where m: "fst ?m = Inr (taken, failure)" "bs_texts (snd ?m) = bs_texts ?s @ ts"
    "bs_recipients (snd ?m) = write_row (rc_id r) g (bs_recipients ?s)" "same_rest ?s (snd ?m)" "settles g"
    "ts = (if taken \<noteq> None \<and> \<not> be_dryRun env then [text_of blast r] else [])"
    "bs_outbound (snd ?m) = bs_outbound ?s \<or>
     (\<exists>m row. outbound_row blast r m = Inr row \<and> bs_outbound (snd ?m) = bs_outbound ?s @ [row])"
    by (rule send_recipient_run)
  obtain s' where s': "?m = (Inr (taken, failure), s')" using m(1) by (cases ?m) auto
  have run: "loop_round env blast phones r st = (Inr (False, taken \<noteq> None, failure \<noteq> None), s')"
    using False s' by (simp add: loop_round_def blast_run)
  from m(7) obtain os where os: "bs_outbound s' = bs_outbound st @ os" "\<forall>row\<in>set os. \<exists>m. outbound_row blast r m = Inr row"
  proof -
    from m(7) show thesis
    proof (elim disjE exE conjE)
      assume "bs_outbound (snd ?m) = bs_outbound ?s"
      then show thesis using that [of "[]"] s' by simp
    next
      fix m row
      assume "outbound_row blast r m = Inr row" "bs_outbound (snd ?m) = bs_outbound ?s @ [row]"
      then show thesis using that [of "[row]"] s' by auto
    qed
  qed
  show thesis
    by (rule that [of "(False, taken \<noteq> None, failure \<noteq> None)" ts "g \<circ> ?q" os])
      (use m s' run os False in \<open>simp_all add: write_row_compose settles_compose same_rest_def\<close>)
qed

text \<open>The whole loop: it returns, and settles exactly the rows it reached; what it sent is a sublist of them.\<close>

lemma send_loop_run:
  obtains c ts sub g os where
    "fst (send_loop env blast n phones rs counts st) = Inr c"
    "bs_texts (snd (send_loop env blast n phones rs counts st)) = bs_texts st @ map (text_of blast) sub"
    "subseq sub (take (reached env n rs) rs)" "distinct (map rc_phoneE164 sub)" "set (map rc_phoneE164 sub) \<inter> set phones = {}"
    "bs_recipients (snd (send_loop env blast n phones rs counts st)) =
       write_rows (rc_id ` set (take (reached env n rs) rs)) g (bs_recipients st)"
    "same_rest st (snd (send_loop env blast n phones rs counts st))" "settles g"
    "bs_outbound (snd (send_loop env blast n phones rs counts st)) = bs_outbound st @ os"
    "\<forall>row\<in>set os. \<exists>r m. outbound_row blast r m = Inr row"
proof -
  have "\<exists>c sub g os. fst (send_loop env blast n phones rs counts st) = Inr c \<and>
    bs_texts (snd (send_loop env blast n phones rs counts st)) = bs_texts st @ map (text_of blast) sub \<and>
    subseq sub (take (reached env n rs) rs) \<and> distinct (map rc_phoneE164 sub) \<and> set (map rc_phoneE164 sub) \<inter> set phones = {} \<and>
    bs_recipients (snd (send_loop env blast n phones rs counts st)) =
       write_rows (rc_id ` set (take (reached env n rs) rs)) g (bs_recipients st) \<and>
    same_rest st (snd (send_loop env blast n phones rs counts st)) \<and> settles g \<and>
    bs_outbound (snd (send_loop env blast n phones rs counts st)) = bs_outbound st @ os \<and>
    (\<forall>row\<in>set os. \<exists>r m. outbound_row blast r m = Inr row)"
  proof (induction rs arbitrary: n phones counts st)
    case Nil
    then show ?case
      by (auto simp: blast_run intro!: exI [of _ "[]"] exI [of _ "failed_row env r s' r' d' t' x'" for r s' r' d' t' x'])
  next
    case (Cons r rs)
    show ?case
    proof (cases "be_elapsed env n \<ge> getSendTimeBudgetMs env")
      case True
      then show ?thesis
        by (auto simp: send_loop_Cons blast_run intro!: exI [of _ "[]"] exI [of _ "failed_row env r s' r' d' t' x'" for r s' r' d' t' x'])
    next
      case False
      let ?m = "loop_round env blast phones r st"
      obtain o' ts g os where m: "fst ?m = Inr o'" "bs_texts (snd ?m) = bs_texts st @ ts"
        "bs_recipients (snd ?m) = write_row (rc_id r) g (bs_recipients st)" "same_rest st (snd ?m)" "settles g"
        "ts = (if fst (snd o') \<and> \<not> be_dryRun env then [text_of blast r] else [])"
        "fst o' \<longleftrightarrow> rc_phoneE164 r \<in> set phones" "fst o' \<longrightarrow> \<not> fst (snd o')"
        "bs_outbound (snd ?m) = bs_outbound st @ os" "\<forall>row\<in>set os. \<exists>m. outbound_row blast r m = Inr row"
        by (rule loop_round_run)
      obtain s' where s': "?m = (Inr o', s')" using m(1) by (cases ?m) auto
      let ?l = "send_loop env blast (n + 1) (next_phones o' phones r) rs (count_round o' counts) s'"
      have run: "send_loop env blast n phones (r # rs) counts st = ?l"
        using False s' by (simp add: send_loop_Cons blast_run)
      obtain c sub h os' where l: "fst ?l = Inr c" "bs_texts (snd ?l) = bs_texts s' @ map (text_of blast) sub"
        "subseq sub (take (reached env (n + 1) rs) rs)" "distinct (map rc_phoneE164 sub)"
        "set (map rc_phoneE164 sub) \<inter> set (next_phones o' phones r) = {}"
        "bs_recipients (snd ?l) = write_rows (rc_id ` set (take (reached env (n + 1) rs) rs)) h (bs_recipients s')"
        "same_rest s' (snd ?l)" "settles h" "bs_outbound (snd ?l) = bs_outbound s' @ os'"
        "\<forall>row\<in>set os'. \<exists>r m. outbound_row blast r m = Inr row"
        using Cons.IH [of "n + 1" "next_phones o' phones r" "count_round o' counts" s'] by blast
      obtain k where k: "settles k"
        "write_rows (rc_id ` set (take (reached env (n + 1) rs) rs)) h (write_row (rc_id r) g (bs_recipients st)) =
         write_rows (insert (rc_id r) (rc_id ` set (take (reached env (n + 1) rs) rs))) k (bs_recipients st)"
        by (rule write_rows_after [OF m(5) l(8)])
      let ?sub = "if fst (snd o') \<and> \<not> be_dryRun env then r # sub else sub"
      have taken: "rc_phoneE164 r \<notin> set phones \<and> rc_phoneE164 r \<notin> set (map rc_phoneE164 sub)" if "fst (snd o')"
        using m(7,8) that l(5) by (auto simp: next_phones_def)
      have "reached env n (r # rs) = Suc (reached env (n + 1) rs)" using False by simp
      moreover have "subseq ?sub (r # take (reached env (n + 1) rs) rs)" using l(3) by auto
      moreover have "distinct (map rc_phoneE164 ?sub)" "set (map rc_phoneE164 ?sub) \<inter> set phones = {}"
        using taken l(4,5) by (auto simp: next_phones_def split: if_splits)
      moreover have "bs_texts (snd ?l) = bs_texts st @ map (text_of blast) ?sub"
        using l(2) m(2,6) s' by simp
      moreover have "bs_recipients (snd ?l) =
          write_rows (rc_id ` set (r # take (reached env (n + 1) rs) rs)) k (bs_recipients st)"
        using l(6) m(3) s' k(2) by simp
      moreover have "same_rest st (snd ?l)" using m(4) l(7) s' by (auto intro: same_rest_trans)
      moreover have "bs_outbound (snd ?l) = bs_outbound st @ (os @ os')" using l(9) m(9) s' by simp
      moreover have "\<forall>row\<in>set (os @ os'). \<exists>r m. outbound_row blast r m = Inr row" using l(10) m(10) by (metis UnE set_append)
      ultimately show ?thesis unfolding run using l(1) k(1) take_Suc_Cons by metis
    qed
  qed
  then show thesis using that by blast
qed

end
