(* ===== verification/Texting.thy ===== *)
theory Texting
  imports Blast_Send
begin

text \<open>
  Volunteer texting: \<^verbatim>\<open>apps/api/src/texting/texting.service.ts\<close> on top of the blasts, and the conversation rows
  it shares with \<^verbatim>\<open>inbox/inbox.service.ts\<close> (\<open>markConversation\<close>, \<open>claimConversation\<close>, \<open>releaseConversation\<close>).
  Whether the workspace has texting enabled is an argument. A claim is one statement, \<open>SKIP LOCKED\<close> included, so it
  is one step here; the thread and the reply behind the ownership gate are the inbox's.
\<close>

datatype AppUserRole = OWNER | ORGANISER | VOLUNTEER

record AuthUser =
  us_id :: string
  us_role :: AppUserRole
  us_isSuperAdmin :: bool

record ConversationState =
  cn_tenantId :: string
  cn_contactPhone :: string
  cn_channel :: MessageChannel
  cn_contactId :: "string option"
  cn_unreadCount :: nat
  cn_resolved :: bool
  cn_ownerId :: "string option"
  cn_lastMessageAt :: "rat option"

datatype EngagementChannel = DoorChannel | SmsChannel | BothChannel | PhoneChannel

record CanvassCampaignRow =
  cm_id :: string
  cm_tenantId :: string
  cm_name :: string
  cm_channel :: EngagementChannel

record TextStore =
  te_blast :: BlastStore
  te_conversations :: "ConversationState list"
  te_campaigns :: "CanvassCampaignRow list"

definition isOrganiser :: "AuthUser \<Rightarrow> bool" where
  "isOrganiser actor \<longleftrightarrow> us_isSuperAdmin actor \<or> us_role actor = ORGANISER \<or> us_role actor = OWNER"

definition assertEnabled :: "(string \<Rightarrow> bool) \<Rightarrow> string \<Rightarrow> unit res" where
  "assertEnabled enabled tenantId = (if enabled tenantId then Inr () else Inl (apiHttpException ''FEATURE_DISABLED'' (Some 403)))"

section \<open>Banks\<close>

record BankBlast =
  bk_id :: string
  bk_title :: string
  bk_status :: "BlastStatus option"
  bk_myAssignedUnsent :: nat
  bk_availableToClaim :: nat

record Bank =
  ba_campaignId :: string
  ba_name :: string
  ba_myUnreadConversations :: nat
  ba_blasts :: "BankBlast list"

definition bank_blast :: "BlastStore \<Rightarrow> AuthUser \<Rightarrow> Blast \<Rightarrow> BankBlast" where
  "bank_blast st actor b =
     \<lparr>bk_id = bl_id b, bk_title = bl_title b, bk_status = (if isOrganiser actor then Some (bl_status b) else None),
      bk_myAssignedUnsent = length (filter (\<lambda>r. rc_assigneeId r = Some (us_id actor) \<and> is_pending r) (recipients_of (bl_id b) st)),
      bk_availableToClaim = length (filter (\<lambda>r. rc_assigneeId r = None \<and> rc_status r = BlastRecipientStatus.PENDING)
        (recipients_of (bl_id b) st))\<rparr>"

text \<open>Rows are in creation order, and the listing wants the newest first.\<close>

definition listBanks :: "(string \<Rightarrow> bool) \<Rightarrow> TextStore \<Rightarrow> string \<Rightarrow> AuthUser \<Rightarrow> Bank list" where
  "listBanks enabled st tenantId actor =
     (if \<not> enabled tenantId then []
      else let campaigns = rev (filter (\<lambda>c. cm_tenantId c = tenantId \<and> (cm_channel c = SmsChannel \<or> cm_channel c = BothChannel))
                 (te_campaigns st));
               p2pBlasts = rev (filter (\<lambda>b. bl_tenantId b = tenantId \<and> isP2pBlast (bl_metadata b)) (bs_blasts (te_blast st)));
               myOwned = length (filter (\<lambda>c. cn_tenantId c = tenantId \<and> cn_channel c = Sms \<and>
                 cn_ownerId c = Some (us_id actor) \<and> cn_unreadCount c > 0) (te_conversations st)) in
        filter (\<lambda>bank. isOrganiser actor \<or> length (ba_blasts bank) > 0)
          (map (\<lambda>c. \<lparr>ba_campaignId = cm_id c, ba_name = cm_name c, ba_myUnreadConversations = myOwned,
                 ba_blasts = map (bank_blast (te_blast st) actor) (filter (\<lambda>b. bl_campaignId b = Some (cm_id c)) p2pBlasts)\<rparr>)
            campaigns))"

section \<open>Claims\<close>

datatype ClaimKind = Initial | Replies

definition claim_take :: "int \<Rightarrow> nat" where
  "claim_take count = nat (min (max 1 count) 25)"

definition claimable :: "string \<Rightarrow> BlastRecipient \<Rightarrow> bool" where
  "claimable blastId r \<longleftrightarrow> rc_blastId r = blastId \<and> rc_assigneeId r = None \<and> rc_status r = BlastRecipientStatus.PENDING"

text \<open>\<open>UPDATE ... WHERE id IN (SELECT ... LIMIT take FOR UPDATE SKIP LOCKED)\<close>\<close>

definition claim_initial :: "string \<Rightarrow> string \<Rightarrow> nat \<Rightarrow> nat blast" where
  "claim_initial actorId blastId n = (\<lambda>st.
     (let ids = map rc_id (take n (filter (claimable blastId) (bs_recipients st))) in
      (Inr (length ids),
       st\<lparr>bs_recipients := map (\<lambda>r. if rc_id r \<in> set ids
            then r\<lparr>rc_assigneeId := Some actorId, rc_assignedAt := Some (bs_now st)\<rparr> else r) (bs_recipients st)\<rparr>)))"

definition open_conversation :: "BlastStore \<Rightarrow> string \<Rightarrow> string \<Rightarrow> ConversationState \<Rightarrow> bool" where
  "open_conversation st tenantId blastId c \<longleftrightarrow>
     cn_tenantId c = tenantId \<and> cn_channel c = Sms \<and> cn_ownerId c = None \<and> cn_unreadCount c > 0 \<and> \<not> cn_resolved c \<and>
     list_ex (\<lambda>r. rc_phoneE164 r = cn_contactPhone c) (recipients_of blastId st)"

definition conversation_key :: "ConversationState \<Rightarrow> string \<times> string \<times> MessageChannel" where
  "conversation_key c = (cn_tenantId c, cn_contactPhone c, cn_channel c)"

definition claim_replies :: "string \<Rightarrow> string \<Rightarrow> string \<Rightarrow> nat \<Rightarrow> TextStore \<Rightarrow> nat \<times> TextStore" where
  "claim_replies actorId tenantId blastId n st =
     (let chosen = take n (sort_key (\<lambda>c. (cn_lastMessageAt c = None, case cn_lastMessageAt c of None \<Rightarrow> 0 | Some t \<Rightarrow> t))
            (filter (open_conversation (te_blast st) tenantId blastId) (te_conversations st)));
          keys = map conversation_key chosen in
      (length keys,
       st\<lparr>te_conversations := map (\<lambda>c. if conversation_key c \<in> set keys then c\<lparr>cn_ownerId := Some actorId\<rparr> else c)
            (te_conversations st)\<rparr>))"

definition claimBatch ::
  "BlastEnv \<Rightarrow> (string \<Rightarrow> bool) \<Rightarrow> string \<Rightarrow> AuthUser \<Rightarrow> string \<Rightarrow> ClaimKind \<Rightarrow> int \<Rightarrow> TextStore \<Rightarrow> nat res \<times> TextStore" where
  "claimBatch env enabled tenantId actor blastId kind count st =
     (case assertEnabled enabled tenantId of
        Inl e \<Rightarrow> (Inl e, st)
      | Inr _ \<Rightarrow>
          (case find (\<lambda>b. bl_id b = blastId \<and> bl_tenantId b = tenantId) (bs_blasts (te_blast st)) of
             None \<Rightarrow> (Inl (apiHttpException ''TEXT_BANK_NOT_FOUND'' (Some 404)), st)
           | Some blast \<Rightarrow>
               if \<not> truthy (bl_campaignId blast) then (Inl (apiHttpException ''TEXT_BANK_NOT_FOUND'' (Some 404)), st)
               else if \<not> isP2pBlast (bl_metadata blast) then (Inl (apiHttpException ''BLAST_NOT_P2P'' None), st)
               else (case kind of
                   Initial \<Rightarrow>
                     (case bbind (prepareP2pBlast env tenantId blastId)
                             (\<lambda>_. claim_initial (us_id actor) blastId (claim_take count)) (te_blast st) of
                        (r, st') \<Rightarrow> (r, st\<lparr>te_blast := st'\<rparr>))
                 | Replies \<Rightarrow>
                     (case claim_replies (us_id actor) tenantId blastId (claim_take count) st of
                        (n, st') \<Rightarrow> (Inr n, st')))))"

section \<open>A volunteer's queue\<close>

text \<open>The caller's unsent messages, and the caller's conversations with people the blast texted.\<close>

definition queue_to_send :: "BlastStore \<Rightarrow> AuthUser \<Rightarrow> string \<Rightarrow> BlastRecipient list" where
  "queue_to_send st actor blastId =
     sort_key (\<lambda>r. case rc_assignedAt r of None \<Rightarrow> 0 | Some t \<Rightarrow> t)
       (filter (\<lambda>r. rc_assigneeId r = Some (us_id actor) \<and> is_pending r) (recipients_of blastId st))"

definition queue_conversations :: "TextStore \<Rightarrow> string \<Rightarrow> AuthUser \<Rightarrow> string \<Rightarrow> ConversationState list" where
  "queue_conversations st tenantId actor blastId =
     filter (\<lambda>c. list_ex (\<lambda>r. rc_phoneE164 r = cn_contactPhone c) (recipients_of blastId (te_blast st)))
       (take 100 (sort_key (\<lambda>c. (- int (cn_unreadCount c), cn_lastMessageAt c \<noteq> None,
            case cn_lastMessageAt c of None \<Rightarrow> 0 | Some t \<Rightarrow> - t))
         (filter (\<lambda>c. cn_tenantId c = tenantId \<and> cn_channel c = Sms \<and> cn_ownerId c = Some (us_id actor) \<and> \<not> cn_resolved c)
           (te_conversations st))))"

definition myQueue :: "TextStore \<Rightarrow> string \<Rightarrow> AuthUser \<Rightarrow> string \<Rightarrow> (BlastRecipient list \<times> ConversationState list) res" where
  "myQueue st tenantId actor blastId =
     (if list_ex (\<lambda>b. bl_id b = blastId \<and> bl_tenantId b = tenantId) (bs_blasts (te_blast st))
      then Inr (queue_to_send (te_blast st) actor blastId, queue_conversations st tenantId actor blastId)
      else Inl (apiHttpException ''TEXT_BANK_NOT_FOUND'' (Some 404)))"

section \<open>Conversations\<close>

definition find_conversation :: "TextStore \<Rightarrow> string \<Rightarrow> string \<Rightarrow> MessageChannel \<Rightarrow> ConversationState option" where
  "find_conversation st tenantId phone channel =
     find (\<lambda>c. conversation_key c = (tenantId, phone, channel)) (te_conversations st)"

definition assertConversationAccess :: "TextStore \<Rightarrow> string \<Rightarrow> AuthUser \<Rightarrow> string \<Rightarrow> unit res" where
  "assertConversationAccess st tenantId actor contactPhone =
     (if isOrganiser actor then Inr ()
      else if (case find_conversation st tenantId contactPhone Sms of None \<Rightarrow> False
                 | Some c \<Rightarrow> cn_ownerId c = Some (us_id actor)) then Inr ()
      else if list_ex (\<lambda>r. rc_phoneE164 r = contactPhone \<and> rc_assigneeId r = Some (us_id actor) \<and>
                 list_ex (\<lambda>b. bl_id b = rc_blastId r \<and> bl_tenantId b = tenantId) (bs_blasts (te_blast st)))
                (bs_recipients (te_blast st)) then Inr ()
      else Inl (apiHttpException ''CONVERSATION_NOT_YOURS'' (Some 404)))"

definition upsert_conversation ::
  "string \<Rightarrow> string \<Rightarrow> MessageChannel \<Rightarrow> (ConversationState \<Rightarrow> ConversationState) \<Rightarrow> ConversationState \<Rightarrow> TextStore \<Rightarrow> TextStore" where
  "upsert_conversation tenantId phone channel f fresh st =
     (case find_conversation st tenantId phone channel of
        None \<Rightarrow> st\<lparr>te_conversations := te_conversations st @ [fresh]\<rparr>
      | Some _ \<Rightarrow> st\<lparr>te_conversations := map (\<lambda>c. if conversation_key c = (tenantId, phone, channel) then f c else c)
                      (te_conversations st)\<rparr>)"

definition new_conversation :: "string \<Rightarrow> string \<Rightarrow> MessageChannel \<Rightarrow> ConversationState" where
  "new_conversation tenantId phone channel =
     \<lparr>cn_tenantId = tenantId, cn_contactPhone = phone, cn_channel = channel, cn_contactId = None, cn_unreadCount = 0,
      cn_resolved = False, cn_ownerId = None, cn_lastMessageAt = None\<rparr>"

definition markConversation :: "string \<Rightarrow> string \<Rightarrow> bool \<Rightarrow> MessageChannel \<Rightarrow> TextStore \<Rightarrow> TextStore res" where
  "markConversation tenantId contactPhone isResolved channel st =
     rbind (normalizePhoneE164 contactPhone) (\<lambda>phone.
       Inr (upsert_conversation tenantId phone channel (\<lambda>c. c\<lparr>cn_unreadCount := 0, cn_resolved := isResolved\<rparr>)
         ((new_conversation tenantId phone channel)\<lparr>cn_resolved := isResolved\<rparr>) st))"

definition claimConversation :: "string \<Rightarrow> string \<Rightarrow> string \<Rightarrow> MessageChannel \<Rightarrow> TextStore \<Rightarrow> TextStore res" where
  "claimConversation tenantId contactPhone ownerId channel st =
     rbind (normalizePhoneE164 contactPhone) (\<lambda>phone.
       Inr (upsert_conversation tenantId phone channel (\<lambda>c. c\<lparr>cn_ownerId := Some ownerId\<rparr>)
         ((new_conversation tenantId phone channel)\<lparr>cn_ownerId := Some ownerId\<rparr>) st))"

definition releaseConversation :: "string \<Rightarrow> string \<Rightarrow> MessageChannel \<Rightarrow> TextStore \<Rightarrow> TextStore res" where
  "releaseConversation tenantId contactPhone channel st =
     rbind (normalizePhoneE164 contactPhone) (\<lambda>phone.
       Inr (st\<lparr>te_conversations := map (\<lambda>c. if conversation_key c = (tenantId, phone, channel)
              then c\<lparr>cn_ownerId := None\<rparr> else c) (te_conversations st)\<rparr>))"

definition texting_resolve :: "string \<Rightarrow> AuthUser \<Rightarrow> string \<Rightarrow> TextStore \<Rightarrow> TextStore res" where
  "texting_resolve tenantId actor contactPhone st =
     rbind (assertConversationAccess st tenantId actor contactPhone) (\<lambda>_. markConversation tenantId contactPhone True Sms st)"

definition sendInitial ::
  "BlastEnv \<Rightarrow> (string \<Rightarrow> bool) \<Rightarrow> string \<Rightarrow> AuthUser \<Rightarrow> string \<Rightarrow> TextStore \<Rightarrow> SingleOutcome res \<times> TextStore" where
  "sendInitial env enabled tenantId actor recipientId st =
     (case assertEnabled enabled tenantId of
        Inl e \<Rightarrow> (Inl e, st)
      | Inr _ \<Rightarrow> (case sendSingleRecipient env tenantId recipientId (us_id actor) (te_blast st) of
          (r, st') \<Rightarrow> (r, st\<lparr>te_blast := st'\<rparr>)))"

end
