(* ===== verification/Blast_Life.thy ===== *)
theory Blast_Life
  imports Blast_Effects Texting
begin

text \<open>
  The life of a workspace's blasts: the operations of \<open>Blasts\<close>, \<open>Blast_Send\<close> and \<open>Texting\<close> in any order, with
  the consents, the audiences and the clock changing between them. \<open>run_ops\<close> executes a list of operations from a
  store. The invariant says that a phone of a blast has one row and that a row whose text was taken is never
  pending again.
\<close>

section \<open>Operations\<close>

datatype blast_op =
    Draft string CreateBlastDto
  | Edit string string UpdateBlastDto
  | Delete string string
  | Proofed string string
  | Schedule string string rat
  | Send string string
  | Cron "rat option option"
  | Prepare string string
  | Press string string string
  | Claim string string nat
  | Callback TwilioStatusCallbackPayload
  | Reply string string MessageChannel
  | Retry string string
  | Work nat
  | World AudienceStore
  | Clock rat

text \<open>The queue holds a job while it runs: it is removed when it succeeds and stays, its id taken, when it fails.\<close>

definition work :: "BlastEnv \<Rightarrow> nat \<Rightarrow> unit blast" where
  "work env n = (\<lambda>st.
     if n < length (bs_jobs st)
     then (let job = bs_jobs st ! n in
           case processBlastJob env job st of
             (Inl e, st') \<Rightarrow> (Inl e, st')
           | (Inr u, st') \<Rightarrow> (Inr u, st'\<lparr>bs_jobs := filter (\<lambda>j. bj_id j \<noteq> bj_id job) (bs_jobs st')\<rparr>))
     else (Inr (), st))"

fun run_op :: "BlastEnv \<Rightarrow> blast_op \<Rightarrow> BlastStore \<Rightarrow> BlastStore" where
  "run_op env (Draft t dto) st = snd (createDraft t dto st)"
| "run_op env (Edit t i dto) st = snd (updateDraft t i dto st)"
| "run_op env (Delete t i) st = snd (deleteBlast t i st)"
| "run_op env (Proofed t i) st = snd (markProofed t i st)"
| "run_op env (Schedule t i runAt) st = snd (schedule env t i runAt st)"
| "run_op env (Send t i) st = snd (requestSendNow env t i st)"
| "run_op env (Cron limit) st = snd (dispatchDueScheduled env limit st)"
| "run_op env (Prepare t i) st = snd (prepareP2pBlast env t i st)"
| "run_op env (Press t r a) st = snd (sendSingleRecipient env t r a st)"
| "run_op env (Claim a b n) st = snd (claim_initial a b n st)"
| "run_op env (Callback p) st = snd (handleTwilioStatusCallback env p st)"
| "run_op env (Reply t p ch) st = snd (recordReply t p ch st)"
| "run_op env (Retry t i) st = snd (requestRetryFailed env t i st)"
| "run_op env (Work n) st = snd (work env n st)"
| "run_op env (World au) st = st\<lparr>bs_audience := au\<rparr>"
| "run_op env (Clock t) st = st\<lparr>bs_now := t\<rparr>"

definition run_ops :: "BlastEnv \<Rightarrow> blast_op list \<Rightarrow> BlastStore \<Rightarrow> BlastStore" where
  "run_ops env ops st = fold (run_op env) ops st"

fun is_retry :: "blast_op \<Rightarrow> bool" where
  "is_retry (Retry t i) = True"
| "is_retry op = False"

definition empty_segments :: SegmentStore where
  "empty_segments = \<lparr>st_db = \<lparr>db_contact = [], db_gnafAddress = [], db_addressRegion = [], db_disposition = [],
     db_contactTagAssignment = [], db_contactConsent = [], db_contactSourceRecord = [], db_doorKnock = [],
     db_questionResponse = [], db_eventRsvp = [], db_inboundMessage = [], db_blastRecipient = [],
     db_journeyEnrolment = [], db_email = [], db_suppression = [], db_pollQuestion = [], db_pollEstimate = []\<rparr>,
     st_segments = [], st_members = [], st_outbox = []\<rparr>"

definition empty_audience :: AudienceStore where
  "empty_audience = \<lparr>ad_audiences = [], ad_contacts = [], ad_segments = [], ad_store = empty_segments,
     ad_metadata = (\<lambda>i. None)\<rparr>"

definition empty_blasts :: BlastStore where
  "empty_blasts = \<lparr>bs_blasts = [], bs_templates = [], bs_recipients = [], bs_outbound = [], bs_outbox = [],
     bs_snapshots = [], bs_jobs = [], bs_claims = [], bs_audience = empty_audience, bs_texts = [], bs_calls = 0,
     bs_nextId = 0, bs_now = 0\<rparr>"

section \<open>The invariant\<close>

definition text_key :: "SentText \<Rightarrow> string \<times> string" where
  "text_key t = (st_blastId t, st_phone t)"

definition fresh_ids :: "(nat \<Rightarrow> string) \<Rightarrow> nat \<Rightarrow> string list \<Rightarrow> bool" where
  "fresh_ids mk n ids \<longleftrightarrow> (\<forall>i\<in>set ids. \<exists>k<n. i = mk k)"

definition rows_ok :: "BlastStore \<Rightarrow> bool" where
  "rows_ok st \<longleftrightarrow>
     distinct (map rc_id (bs_recipients st)) \<and> fresh_ids recipient_id (bs_nextId st) (map rc_id (bs_recipients st)) \<and>
     distinct (map recipient_key (bs_recipients st)) \<and>
     distinct (map bl_id (bs_blasts st)) \<and> fresh_ids blast_id (bs_nextId st) (map bl_id (bs_blasts st))"

definition texts_ok :: "BlastStore \<Rightarrow> bool" where
  "texts_ok st \<longleftrightarrow>
     fresh_ids blast_id (bs_nextId st) (map st_blastId (bs_texts st)) \<and>
     (\<forall>t\<in>set (bs_texts st). st_blastId t \<in> set (map bl_id (bs_blasts st)) \<longrightarrow>
        text_key t \<in> set (map recipient_key (bs_recipients st))) \<and>
     (\<forall>t\<in>set (bs_texts st). \<forall>r\<in>set (bs_recipients st). recipient_key r = text_key t \<longrightarrow> \<not> is_pending r) \<and>
     distinct (map text_key (bs_texts st))"

definition blast_inv :: "BlastStore \<Rightarrow> bool" where
  "blast_inv st \<longleftrightarrow> rows_ok st \<and> texts_ok st \<and> (\<forall>j\<in>set (bs_jobs st). \<not> bj_retry j)"

text \<open>What the invariant reads.\<close>

definition same_blast_core :: "BlastStore \<Rightarrow> BlastStore \<Rightarrow> bool" where
  "same_blast_core st st' \<longleftrightarrow>
     map bl_id (bs_blasts st') = map bl_id (bs_blasts st) \<and> bs_recipients st' = bs_recipients st \<and>
     bs_texts st' = bs_texts st \<and> bs_nextId st' = bs_nextId st \<and>
     (\<forall>j\<in>set (bs_jobs st'). bj_retry j \<longrightarrow> j \<in> set (bs_jobs st))"

lemma blast_core_refl [simp]: "same_blast_core st st"
  by (simp add: same_blast_core_def)

lemma blast_inv_core: "same_blast_core st st' \<Longrightarrow> blast_inv st \<Longrightarrow> blast_inv st'"
  by (auto simp: same_blast_core_def blast_inv_def rows_ok_def texts_ok_def)

lemma fresh_ids_mono: "fresh_ids mk m ids \<Longrightarrow> m \<le> n \<Longrightarrow> fresh_ids mk n ids"
  unfolding fresh_ids_def by (meson less_le_trans)

text \<open>Rewriting rows keeps the invariant when it keeps what identifies them and makes none pending again.\<close>

lemma blast_inv_rows:
  assumes "blast_inv st" "bs_recipients st' = map f (bs_recipients st)"
    "\<And>r. r \<in> set (bs_recipients st) \<Longrightarrow> rc_id (f r) = rc_id r \<and> recipient_key (f r) = recipient_key r \<and> (is_pending (f r) \<longrightarrow> is_pending r)"
    "bs_blasts st' = bs_blasts st" "bs_texts st' = bs_texts st" "bs_nextId st' = bs_nextId st" "bs_jobs st' = bs_jobs st"
  shows "blast_inv st'"
proof -
  have "map rc_id (bs_recipients st') = map rc_id (bs_recipients st)"
    "map recipient_key (bs_recipients st') = map recipient_key (bs_recipients st)"
    using assms(2,3) by simp_all
  moreover have "\<forall>t\<in>set (bs_texts st). \<forall>r\<in>set (bs_recipients st'). recipient_key r = text_key t \<longrightarrow> \<not> is_pending r"
    using assms(1,2,3) by (fastforce simp: blast_inv_def texts_ok_def)
  ultimately show ?thesis using assms unfolding blast_inv_def rows_ok_def texts_ok_def by (simp del: map_map)
qed

section \<open>Preservation\<close>

lemma subseq_set: "subseq xs ys \<Longrightarrow> x \<in> set xs \<Longrightarrow> x \<in> set ys"
  by (induction rule: list_emb.induct) auto

definition keeps :: "(BlastStore \<Rightarrow> bool) \<Rightarrow> 'a blast \<Rightarrow> bool" where
  "keeps P m \<longleftrightarrow> (\<forall>st. P st \<longrightarrow> P (snd (m st)))"

named_theorems keeps_intro

lemma keepsI: "(\<And>st. P st \<Longrightarrow> P (snd (m st))) \<Longrightarrow> keeps P m"
  by (simp add: keeps_def)

lemma keepsD: "keeps P m \<Longrightarrow> P st \<Longrightarrow> P (snd (m st))"
  by (simp add: keeps_def)

lemma keeps_monad [keeps_intro]:
  "keeps P (bret x)" "keeps P (blift r)" "keeps P (bget h)"
  "keeps P (getBlastOrThrow i)" "keeps P (getBlastForTenant t i)"
  by (auto simp: keeps_def blast_run getBlastOrThrow_def getBlastForTenant_def split: prod.split sum.split)

lemma keeps_bind [keeps_intro]: "keeps P m \<Longrightarrow> (\<And>x. keeps P (f x)) \<Longrightarrow> keeps P (bbind m f)"
  by (auto simp: keeps_def bbind_run split: prod.split sum.split) 

lemma keeps_modify: "(\<And>st. P st \<Longrightarrow> P (g st)) \<Longrightarrow> keeps P (bmodify g)"
  by (simp add: keeps_def blast_run)

lemma keeps_core [keeps_intro]: "(\<And>st. same_blast_core st (g st)) \<Longrightarrow> keeps blast_inv (bmodify g)"
  by (rule keeps_modify) (rule blast_inv_core)

lemma keeps_if [keeps_intro]: "(b \<Longrightarrow> keeps P m) \<Longrightarrow> (\<not> b \<Longrightarrow> keeps P m') \<Longrightarrow> keeps P (if b then m else m')"
  by simp

lemma keeps_option [keeps_intro]:
  "keeps P m \<Longrightarrow> (\<And>x. keeps P (f x)) \<Longrightarrow> keeps P (case v of None \<Rightarrow> m | Some x \<Rightarrow> f x)"
  by (cases v) simp_all

lemma same_blast_ops [keeps_intro]:
  "(\<And>b. bl_id (f b) = bl_id b) \<Longrightarrow> keeps blast_inv (update_blast i f)"
  "keeps blast_inv (append_outbox e)"
  "keeps blast_inv (writeSnapshot t b m n)"
  "\<not> bj_retry job \<Longrightarrow> keeps blast_inv (enqueue_blast job)"
  "keeps blast_inv (with_audience h)"
  by (rule keepsI, erule blast_inv_core [rotated],
      auto simp: same_blast_core_def blast_run update_blast_def append_outbox_def writeSnapshot_def enqueue_blast_def with_audience_def
        split: sum.split)+

lemma keeps_enqueue [keeps_intro]: "keeps blast_inv (enqueueBlastSendBatch b q t k)"
  unfolding enqueueBlastSendBatch_def by (intro keeps_intro) simp

subsection \<open>Operations on the blast rows\<close>

lemma keeps_createDraft: "keeps blast_inv (createDraft t dto)"
proof (rule keepsI)
  fix st assume inv: "blast_inv st"
  show "blast_inv (snd (createDraft t dto st))"
  proof (cases "audience_exists st (or_null (cb_audienceId dto))")
    case True
    have no_text: "st_blastId x \<noteq> blast_id (bs_nextId st)" if "x \<in> set (bs_texts st)" for x
      using inv that by (force simp: blast_inv_def texts_ok_def fresh_ids_def blast_id_def)
    have fresh: "blast_id (bs_nextId st) \<notin> bl_id ` set (bs_blasts st)"
      using inv by (force simp: blast_inv_def rows_ok_def fresh_ids_def blast_id_def)
    have mono: "fresh_ids mk (Suc (bs_nextId st)) ids" if "fresh_ids mk (bs_nextId st) ids" for mk ids
      using that by (rule fresh_ids_mono) simp
    have last: "fresh_ids mk (Suc n) (ids @ [mk n])" if "fresh_ids mk (Suc n) ids" for mk n ids
      using that by (auto simp: fresh_ids_def)
    show ?thesis
      using inv True fresh no_text
      by (auto simp: createDraft_def Let_def blast_inv_def rows_ok_def texts_ok_def intro!: mono last)
  qed (use inv in \<open>simp add: createDraft_def Let_def\<close>)
qed

lemma patch_id [simp]: "bl_id (patch_blast dto b) = bl_id b"
  by (simp add: patch_blast_def)

lemma find_blast_id: "find_blast i st = Some b \<Longrightarrow> bl_id b = i \<and> b \<in> set (bs_blasts st)"
  unfolding find_blast_def by (drule find_Some_in) simp

lemma tenant_blast_run:
  "getBlastForTenant t i st = (Inr b, st') \<longleftrightarrow> find (\<lambda>b. bl_id b = i \<and> bl_tenantId b = t) (bs_blasts st) = Some b \<and> st' = st"
  by (auto simp: getBlastForTenant_def split: option.splits)

lemma tenant_blast_id: "find (\<lambda>b. bl_id b = i \<and> bl_tenantId b = t) bs = Some b \<Longrightarrow> bl_id b = i \<and> b \<in> set bs \<and> bl_tenantId b = t"
  by (drule find_Some_in) simp

text \<open>After loading a blast, what follows may rely on its being there.\<close>

lemma keeps_loaded:
  assumes "\<And>b st. P st \<Longrightarrow> bl_id b = i \<Longrightarrow> b \<in> set (bs_blasts st) \<Longrightarrow> P (snd (f b st))"
  shows "keeps P (bbind (getBlastForTenant t i) f)" "keeps P (bbind (getBlastOrThrow i) f)"
  using assms
  by (auto simp: keeps_def bbind_run getBlastForTenant_def getBlastOrThrow_def dest!: tenant_blast_id find_blast_id
      split: option.split)

lemma keeps_update_const:
  assumes "blast_inv st" "bl_id b = i"
  shows "blast_inv (snd (update_blast i (\<lambda>_. b) st))"
  using assms(1)
  by (rule blast_inv_core [rotated]) (use assms(2) in \<open>auto simp: same_blast_core_def update_blast_def blast_run\<close>)

lemma keeps_updateDraft: "keeps blast_inv (updateDraft t i dto)"
  unfolding updateDraft_def
proof (rule keeps_loaded(1))
  fix b st assume "blast_inv st" "bl_id b = i" "b \<in> set (bs_blasts st)"
  let ?body = "case ub_bodyTemplate dto of
      Some body \<Rightarrow>
        if body \<noteq> [] \<and> body \<noteq> bl_bodyTemplate b
        then bmodify (\<lambda>st. st\<lparr>bs_templates := bs_templates st @
               [(i, length (filter (\<lambda>t. fst t = i) (bs_templates st)) + 1, body)]\<rparr>)
        else bret ()
    | None \<Rightarrow> bret ()"
  have "keeps blast_inv (update_blast i (\<lambda>_. patch_blast dto b))"
    by (rule keepsI, rule keeps_update_const) (simp_all add: \<open>bl_id b = i\<close>)
  moreover have "keeps blast_inv ?body"
    by (intro keeps_intro) (simp add: same_blast_core_def)
  ultimately have "keeps blast_inv (bbind ?body (\<lambda>_.
     bbind (bget (\<lambda>st. audience_exists st (bl_audienceId (patch_blast dto b)))) (\<lambda>known.
     if known then update_blast i (\<lambda>_. patch_blast dto b) else blift (Inl (ThrownError ''P2003'')))))"
    by (intro keeps_bind keeps_monad keeps_if)
  then show "blast_inv (snd (bbind ?body (\<lambda>_.
     bbind (bget (\<lambda>st. audience_exists st (bl_audienceId (patch_blast dto b)))) (\<lambda>known.
     if known then update_blast i (\<lambda>_. patch_blast dto b) else blift (Inl (ThrownError ''P2003'')))) st))"
    using \<open>blast_inv st\<close> by (rule keepsD)
qed

lemma keeps_deleteBlast: "keeps blast_inv (deleteBlast t i)"
  unfolding deleteBlast_def
proof (rule keeps_loaded(1), simp add: blast_run)
  fix st assume "blast_inv st"
  then show "blast_inv (st\<lparr>bs_blasts := filter (\<lambda>b. bl_id b \<noteq> i) (bs_blasts st), bs_templates := filter (\<lambda>t. fst t \<noteq> i) (bs_templates st),
      bs_recipients := filter (\<lambda>r. rc_blastId r \<noteq> i) (bs_recipients st),
      bs_outbound := map (\<lambda>m. if ou_blastId m = Some i then m\<lparr>ou_blastId := None\<rparr> else m) (bs_outbound st),
      bs_snapshots := map (\<lambda>(t, b, m, n). (t, if b = Some i then None else b, m, n)) (bs_snapshots st)\<rparr>)"
    unfolding blast_inv_def rows_ok_def texts_ok_def fresh_ids_def
    by (auto simp: distinct_map_filter image_iff text_key_def recipient_key_def) (metis+)
qed

lemma keeps_markProofed: "keeps blast_inv (markProofed t i)"
  unfolding markProofed_def by (intro keeps_intro) simp

lemma keeps_schedule: "keeps blast_inv (schedule env t i runAt)"
  unfolding schedule_def by (intro keeps_intro) simp

lemma keeps_begin [keeps_intro]: "keeps blast_inv (begin_sending b)"
  unfolding begin_sending_def by (intro keeps_intro) simp

lemma keeps_recalculate [keeps_intro]: "keeps blast_inv (recalculateBlastStatus i)"
  unfolding recalculateBlastStatus_def Let_def by (intro keeps_intro) simp

subsection \<open>Sending\<close>

text \<open>The step all senders share: pending rows of one blast are settled, and texts for some of them are taken.\<close>

lemma settle_blast:
  assumes inv: "blast_inv st" and g: "settles g"
    and sub: "\<And>r. r \<in> set sub \<Longrightarrow> r \<in> set (bs_recipients st) \<and> is_pending r \<and> rc_blastId r = bl_id b \<and> rc_id r \<in> ids"
    and phones: "distinct (map rc_phoneE164 sub)" and b: "sub = [] \<or> bl_id b \<in> set (map bl_id (bs_blasts st))"
    and st': "bs_recipients st' = write_rows ids g (bs_recipients st)" "bs_texts st' = bs_texts st @ map (text_of b) sub"
      "bs_blasts st' = bs_blasts st" "bs_nextId st' = bs_nextId st" "bs_jobs st' = bs_jobs st"
  shows "blast_inv st'"
proof -
  have keep: "keeps_identity g" using g by simp
  have keys: "map rc_id (bs_recipients st') = map rc_id (bs_recipients st)"
    "map recipient_key (bs_recipients st') = map recipient_key (bs_recipients st)"
    using keep by (auto simp: st' write_rows_def keeps_identity_def)
  have key: "text_key (text_of b r) = recipient_key r" if "r \<in> set sub" for r
    using sub [OF that] by (simp add: text_key_def text_of_def recipient_key_def)
  have inj: "x = r" if "x \<in> set (bs_recipients st)" "r \<in> set (bs_recipients st)" "recipient_key x = recipient_key r" for x r
    using inv that by (auto simp: blast_inv_def rows_ok_def distinct_map inj_on_def)
  have row: "\<exists>x\<in>set (bs_recipients st). recipient_key x = recipient_key y \<and> rc_id x = rc_id y \<and> (rc_id x \<in> ids \<or> x = y)
      \<and> (rc_id x \<in> ids \<longrightarrow> \<not> is_pending y)"
    if "y \<in> set (bs_recipients st')" for y
    using that g by (force simp: st' write_rows_def settles_def keeps_identity_def split: if_splits)
  have old: "\<not> is_pending y" if h: "t \<in> set (bs_texts st)" "y \<in> set (bs_recipients st')" "recipient_key y = text_key t" for t y
  proof -
    obtain x where x: "x \<in> set (bs_recipients st)" "recipient_key x = recipient_key y" "rc_id x \<in> ids \<or> x = y"
      "rc_id x \<in> ids \<longrightarrow> \<not> is_pending y" using row [OF h(2)] by blast
    moreover have "\<not> is_pending x" using inv h(1,3) x(1,2) by (simp add: blast_inv_def texts_ok_def)
    ultimately show ?thesis by blast
  qed
  have new: "\<not> is_pending y" if h: "r \<in> set sub" "y \<in> set (bs_recipients st')" "recipient_key y = recipient_key r" for r y
  proof -
    obtain x where x: "x \<in> set (bs_recipients st)" "recipient_key x = recipient_key y" "rc_id x \<in> ids \<longrightarrow> \<not> is_pending y"
      using row [OF h(2)] by blast
    then have "x = r" using inj sub [OF h(1)] h(3) by metis
    then show ?thesis using x(3) sub [OF h(1)] by simp
  qed
  have untexted: "text_key t \<noteq> recipient_key r" if "t \<in> set (bs_texts st)" "r \<in> set sub" for t r
    using inv that sub [OF that(2)] by (auto simp: blast_inv_def texts_ok_def)
  have "distinct (map text_key (map (text_of b) sub))"
    using phones by (auto simp: distinct_map text_key_def text_of_def inj_on_def)
  moreover have "set (map text_key (bs_texts st)) \<inter> set (map text_key (map (text_of b) sub)) = {}"
    using untexted key by force
  ultimately have "distinct (map text_key (bs_texts st'))"
    using inv by (simp add: st' blast_inv_def texts_ok_def del: map_map)
  moreover have "fresh_ids blast_id (bs_nextId st') (map st_blastId (bs_texts st'))"
    using inv b by (auto simp: st' blast_inv_def texts_ok_def rows_ok_def fresh_ids_def text_of_def)
  moreover have "\<forall>t\<in>set (bs_texts st'). st_blastId t \<in> set (map bl_id (bs_blasts st')) \<longrightarrow>
      text_key t \<in> set (map recipient_key (bs_recipients st'))"
    unfolding keys using inv key sub by (fastforce simp: st' blast_inv_def texts_ok_def)
  moreover have "\<forall>t\<in>set (bs_texts st'). \<forall>y\<in>set (bs_recipients st'). recipient_key y = text_key t \<longrightarrow> \<not> is_pending y"
    using old new key by (auto simp: st'(2))
  ultimately show ?thesis
    using inv unfolding blast_inv_def rows_ok_def texts_ok_def keys st'(3-5) by blast
qed

lemma take_pending:
  assumes "r \<in> set (take n (pending_batch i k st))"
  shows "r \<in> set (bs_recipients st) \<and> is_pending r \<and> rc_blastId r = i"
  using assms by (auto simp: pending_batch_def recipients_of_def dest!: in_set_takeD)

lemma send_loop_inv:
  assumes inv: "blast_inv st" and b: "bl_id b \<in> set (map bl_id (bs_blasts st))"
  shows "blast_inv (snd (send_loop env b n phones (pending_batch (bl_id b) k st) c st))"
proof -
  let ?batch = "pending_batch (bl_id b) k st"
  obtain c' ts sub g os where l: "fst (send_loop env b n phones ?batch c st) = Inr c'"
    "bs_texts (snd (send_loop env b n phones ?batch c st)) = bs_texts st @ map (text_of b) sub"
    "subseq sub (take (reached env n ?batch) ?batch)" "distinct (map rc_phoneE164 sub)"
    "set (map rc_phoneE164 sub) \<inter> set phones = {}"
    "bs_recipients (snd (send_loop env b n phones ?batch c st)) =
       write_rows (rc_id ` set (take (reached env n ?batch) ?batch)) g (bs_recipients st)"
    "same_rest st (snd (send_loop env b n phones ?batch c st))" "settles g"
    by (rule send_loop_run)
  show ?thesis
  proof (rule settle_blast [OF inv l(8) _ l(4) _ l(6,2)])
    fix r assume "r \<in> set sub"
    then have "r \<in> set (take (reached env n ?batch) ?batch)" using l(3) by (auto dest: subseq_set)
    then show "r \<in> set (bs_recipients st) \<and> is_pending r \<and> rc_blastId r = bl_id b \<and>
        rc_id r \<in> rc_id ` set (take (reached env n ?batch) ?batch)"
      using take_pending [of r "reached env n ?batch" "bl_id b" k st] by simp
  qed (use l(7) b in \<open>simp_all add: same_rest_def\<close>)
qed

lemma create_many_inv:
  assumes "blast_inv st" "b \<in> set (map bl_id (bs_blasts st))" "b \<notin> set (map st_blastId (bs_texts st))"
    "\<And>mk i. mk \<in> set mks \<Longrightarrow> rc_id (mk i) = i \<and> rc_blastId (mk i) = b"
  shows "blast_inv (create_many mks st) \<and> bs_blasts (create_many mks st) = bs_blasts st"
  using assms
proof (induction mks arbitrary: st)
  case (Cons mk mks)
  let ?row = "mk (recipient_id (bs_nextId st))"
  let ?st = "if recipient_key ?row \<in> recipient_key ` set (bs_recipients st) then st
     else st\<lparr>bs_recipients := bs_recipients st @ [?row], bs_nextId := bs_nextId st + 1\<rparr>"
  have row: "rc_id ?row = recipient_id (bs_nextId st)" "rc_blastId ?row = b" using Cons.prems(4) by auto
  have "recipient_id (bs_nextId st) \<notin> rc_id ` set (bs_recipients st)"
    using Cons.prems(1) by (force simp: blast_inv_def rows_ok_def fresh_ids_def recipient_id_def)
  moreover have "recipient_key ?row \<noteq> text_key t" if "t \<in> set (bs_texts st)" for t
    using Cons.prems(3) that row by (force simp: recipient_key_def text_key_def)
  moreover have mono: "fresh_ids mk (Suc (bs_nextId st)) ids" if "fresh_ids mk (bs_nextId st) ids" for mk ids
    using that by (rule fresh_ids_mono) simp
  moreover have "fresh_ids mk (Suc n) (ids @ [mk n])" if "fresh_ids mk (Suc n) ids" for mk n ids
    using that by (auto simp: fresh_ids_def)
  ultimately have "blast_inv ?st"
    using Cons.prems(1,3) row by (auto simp: blast_inv_def rows_ok_def texts_ok_def)
  moreover have "bs_blasts ?st = bs_blasts st" "bs_texts ?st = bs_texts st" by simp_all
  ultimately show ?case
    using Cons.IH [of ?st] Cons.prems by (simp add: Let_def split del: if_split)
qed simp

lemma seed_rows_shape:
  "seed_rows env b now rs = Inr mks \<Longrightarrow> mk \<in> set mks \<Longrightarrow>
   rc_id (mk i) = i \<and> rc_blastId (mk i) = bl_id b \<and> rc_status (mk i) = BlastRecipientStatus.PENDING"
  by (induction rs arbitrary: mks) (auto simp: rbind_Inr_iff seed_row_def Let_def)

text \<open>The invariant at a point where the blast \<open>i\<close> has been loaded.\<close>

definition loaded_inv :: "string \<Rightarrow> BlastStore \<Rightarrow> bool" where
  "loaded_inv i st \<longleftrightarrow> blast_inv st \<and> i \<in> set (map bl_id (bs_blasts st))"

lemma loaded_core: "same_blast_core st st' \<Longrightarrow> loaded_inv i st \<Longrightarrow> loaded_inv i st'"
  by (auto simp: loaded_inv_def intro: blast_inv_core) (metis image_iff image_set same_blast_core_def)

lemma recipients_of_nil: "recipients_of i st = [] \<longleftrightarrow> (\<forall>r\<in>set (bs_recipients st). rc_blastId r \<noteq> i)"
  by (auto simp: recipients_of_def filter_empty_conv)

lemma ensure_inv: "loaded_inv (bl_id b) st \<Longrightarrow> loaded_inv (bl_id b) (snd (ensureBlastRecipientRecords env b st))"
proof (cases "recipients_of (bl_id b) st = []")
  case True
  assume inv: "loaded_inv (bl_id b) st"
  have untexted: "bl_id b \<notin> set (map st_blastId (bs_texts st))"
  proof
    assume "bl_id b \<in> set (map st_blastId (bs_texts st))"
    then obtain t where t: "t \<in> set (bs_texts st)" "st_blastId t = bl_id b" by auto
    then have "text_key t \<in> set (map recipient_key (bs_recipients st))"
      using inv by (simp add: loaded_inv_def blast_inv_def texts_ok_def)
    with True t(2) show False by (auto simp: recipients_of_nil text_key_def recipient_key_def)
  qed
  obtain r st1 where seeds: "getBlastRecipients env b st = (r, st1)" by (cases "getBlastRecipients env b st")
  have "\<exists>au. st1 = st\<lparr>bs_audience := au\<rparr>"
    using seeds
    by (auto simp: getBlastRecipients_def blast_run with_audience_def Let_def split: option.splits if_splits sum.splits
        intro: exI [of _ "bs_audience st"])
  then have st1: "loaded_inv (bl_id b) st1" "bl_id b \<notin> set (map st_blastId (bs_texts st1))"
    using loaded_core [OF _ inv, of st1] untexted by (auto simp: same_blast_core_def)
  show ?thesis
  proof (cases r)
    case (Inl e)
    then show ?thesis using True seeds st1(1) by (simp add: ensureBlastRecipientRecords_def blast_run)
  next
    case (Inr rs)
    show ?thesis
    proof (cases "seed_rows env b (bs_now st1) rs")
      case (Inl e)
      then show ?thesis using True seeds st1(1) \<open>r = Inr rs\<close> by (simp add: ensureBlastRecipientRecords_def blast_run)
    next
      case (Inr mks)
      have "blast_inv (create_many mks st1) \<and> bs_blasts (create_many mks st1) = bs_blasts st1"
        using st1 seed_rows_shape [OF Inr] by (intro create_many_inv [of st1 "bl_id b"]) (auto simp: loaded_inv_def)
      then show ?thesis
        using True seeds st1(1) \<open>r = Inr rs\<close> Inr by (simp add: ensureBlastRecipientRecords_def blast_run loaded_inv_def)
    qed
  qed
qed (simp add: ensureBlastRecipientRecords_def blast_run)

lemma snd_bind_run: "m st = (Inr x, st') \<Longrightarrow> snd (bbind m f st) = snd (f x st')"
  by (simp add: blast_run)

lemma keeps_bget: "(\<And>st. P st \<Longrightarrow> P (snd (f (h st) st))) \<Longrightarrow> keeps P (bbind (bget h) f)"
  by (simp add: keeps_def blast_run)

lemma loaded_ops [keeps_intro]:
  "(\<And>b. bl_id (f b) = bl_id b) \<Longrightarrow> keeps (loaded_inv i) (update_blast k f)"
  "keeps (loaded_inv i) (append_outbox e)"
  "keeps (loaded_inv i) (writeSnapshot t b m n)"
  "\<not> bj_retry job \<Longrightarrow> keeps (loaded_inv i) (enqueue_blast job)"
  by (rule keepsI, erule loaded_core [rotated],
      auto simp: same_blast_core_def blast_run update_blast_def append_outbox_def writeSnapshot_def enqueue_blast_def)+

lemma loaded_enqueue [keeps_intro]: "keeps (loaded_inv i) (enqueueBlastSendBatch b q t k)"
  unfolding enqueueBlastSendBatch_def by (intro keeps_intro) simp

lemma loaded_begin [keeps_intro]: "keeps (loaded_inv i) (begin_sending b)"
  unfolding begin_sending_def by (intro keeps_intro) simp

lemma loaded_recalculate [keeps_intro]: "keeps (loaded_inv i) (recalculateBlastStatus k)"
  unfolding recalculateBlastStatus_def Let_def by (intro keeps_intro) simp

text \<open>The batch sender, from the point where its blast is loaded.\<close>

lemma keeps_after_loop:
  assumes b: "bl_id b = i" and f: "\<And>c. keeps (loaded_inv i) (f c)"
  shows "keeps (loaded_inv i) (bbind (bget (pending_batch i k)) (\<lambda>batch.
     bbind (bget (sent_phones i batch)) (\<lambda>phones. bbind (send_loop env b 0 phones batch c0) f)))"
proof (rule keepsI)
  fix st assume st: "loaded_inv i st"
  let ?m = "send_loop env b 0 (sent_phones i (pending_batch i k st) st) (pending_batch i k st) c0 st"
  obtain c sub where l: "fst ?m = Inr c" "same_rest st (snd ?m)" by (rule send_loop_run)
  then obtain st' where m: "?m = (Inr c, st')" by (cases ?m) auto
  have "blast_inv st'"
    using send_loop_inv [of st b env 0 _ k c0] st b m by (metis loaded_inv_def snd_conv)
  then have "loaded_inv i st'" using l(2) m st by (simp add: loaded_inv_def same_rest_def)
  then show "loaded_inv i (snd (bbind (bget (pending_batch i k)) (\<lambda>batch.
     bbind (bget (sent_phones i batch)) (\<lambda>phones. bbind (send_loop env b 0 phones batch c0) f)) st))"
    using m f [of c] by (simp add: blast_run keeps_def)
qed

lemma keeps_from_loaded:
  assumes "\<And>b. bl_id b = i \<Longrightarrow> keeps (loaded_inv i) (f b)"
  shows "keeps blast_inv (bbind (getBlastOrThrow i) f)" "keeps blast_inv (bbind (getBlastForTenant t i) f)"
proof -
  have step: "blast_inv (snd (f b st))" if "blast_inv st" "bl_id b = i" "b \<in> set (bs_blasts st)" for b st
  proof -
    have "loaded_inv i st" using that by (auto simp: loaded_inv_def)
    with assms [OF that(2)] show ?thesis by (auto simp: keeps_def loaded_inv_def)
  qed
  show "keeps blast_inv (bbind (getBlastOrThrow i) f)" by (rule keeps_loaded(2)) (rule step)
  show "keeps blast_inv (bbind (getBlastForTenant t i) f)" by (rule keeps_loaded(1)) (rule step)
qed

lemma keeps_sendNow: "keeps blast_inv (sendNow env i q)"
proof -
  have ensure: "keeps (loaded_inv i) (ensureBlastRecipientRecords env b)" if "bl_id b = i" for b
    using ensure_inv [of b _ env] that by (auto simp: keeps_def)
  show ?thesis
    unfolding sendNow_def Let_def
    by (rule keeps_from_loaded, rule keeps_bind, rule loaded_begin, rule keeps_bind, erule ensure,
        erule keeps_after_loop) (intro keeps_intro)
qed

lemma keeps_requestSendNow: "keeps blast_inv (requestSendNow env t i)"
  unfolding requestSendNow_def by (intro keeps_intro keeps_sendNow)

lemma keeps_prepare: "keeps blast_inv (prepareP2pBlast env t i)"
proof -
  have ensure: "keeps (loaded_inv i) (ensureBlastRecipientRecords env b)" if "bl_id b = i" for b
    using ensure_inv [of b _ env] that by (auto simp: keeps_def)
  show ?thesis unfolding prepareP2pBlast_def by (rule keeps_from_loaded(2)) (intro keeps_intro ensure)
qed

lemma keeps_dispatch_loop: "keeps blast_inv (dispatch_loop env q bs rs)"
proof (induction bs arbitrary: rs)
  case Nil
  then show ?case by (auto intro: keeps_intro)
next
  case (Cons b bs)
  have "keeps blast_inv (battempt (sendNow env (bl_id b) (Some q)))"
    using keeps_sendNow by (auto simp: keeps_def battempt_def split: prod.split) (metis snd_conv)
  with Cons show ?case by (auto intro!: keeps_intro)
qed

lemma keeps_dispatch: "keeps blast_inv (dispatchDueScheduled env limit)"
  unfolding dispatchDueScheduled_def by (intro keeps_intro keeps_dispatch_loop)

lemma keeps_press: "keeps blast_inv (sendSingleRecipient env t r a)"
proof (rule keepsI)
  fix st assume inv: "blast_inv st"
  show "blast_inv (snd (sendSingleRecipient env t r a st))"
  proof (cases "recipient_in_tenant t r st")
    case None
    then show ?thesis using inv by (simp add: sendSingleRecipient_def blast_run)
  next
    case (Some rb)
    obtain x b where rb: "rb = (x, b)" by (cases rb)
    have x: "x \<in> set (bs_recipients st)" "find_blast (rc_blastId x) st = Some b"
      using Some rb by (auto simp: recipient_in_tenant_def split: option.splits if_splits dest: find_Some_in)
    have b: "bl_id b = rc_blastId x" "bl_id b \<in> set (map bl_id (bs_blasts st))" using find_blast_id [OF x(2)] by (metis, metis image_eqI list.set_map)
    let ?m = "send_recipient env b x ''p2p_send'' (''p2p-'' @ rc_id x) ''P2P send attempt failed before delivery callback'' False st"
    have write_row_rows: "write_row i g rows = write_rows {i} g rows" for i g rows
      by (simp add: write_row_def write_rows_def)
    consider (no) "rc_assigneeId x \<noteq> Some a \<or> \<not> is_pending x"
      | (dup) "rc_assigneeId x = Some a" "is_pending x" "already_sent x st"
      | (send) "rc_assigneeId x = Some a" "is_pending x" "\<not> already_sent x st" by blast
    then show ?thesis
    proof cases
      case no
      then show ?thesis using inv Some rb by (auto simp: sendSingleRecipient_def blast_run)
    next
      case dup
      obtain g where g: "settles g" "mark_skipped env x ''p2p_send'' ''Skipped duplicate phone in P2P send'' st =
          (Inr (), st\<lparr>bs_recipients := write_row (rc_id x) g (bs_recipients st)\<rparr>)" by (rule mark_skipped_run)
      have "blast_inv (st\<lparr>bs_recipients := write_row (rc_id x) g (bs_recipients st)\<rparr>)"
        by (rule settle_blast [OF inv g(1), of "[]" b]) (simp_all add: write_row_rows)
      with dup g(2) Some rb show ?thesis by (simp add: sendSingleRecipient_def blast_run)
    next
      case send
      obtain taken failure ts g where m: "fst ?m = Inr (taken, failure)" "bs_texts (snd ?m) = bs_texts st @ ts"
        "bs_recipients (snd ?m) = write_row (rc_id x) g (bs_recipients st)" "same_rest st (snd ?m)" "settles g"
        "ts = (if taken \<noteq> None \<and> \<not> be_dryRun env then [text_of b x] else [])"
        by (rule send_recipient_run)
      let ?sub = "if taken \<noteq> None \<and> \<not> be_dryRun env then [x] else []"
      have "blast_inv (snd ?m)"
        by (rule settle_blast [OF inv m(5), of ?sub b "{rc_id x}"])
          (use m send(2) x b in \<open>auto simp: write_row_rows same_rest_def split: if_splits\<close>)
      moreover obtain st1 where st1: "?m = (Inr (taken, failure), st1)" using m(1) by (cases ?m) auto
      ultimately have "blast_inv (snd (recalculateBlastStatus (bl_id b) st1))"
        using keepsD [OF keeps_recalculate] by simp
      with send Some rb st1 show ?thesis
        by (auto simp: sendSingleRecipient_def blast_run split: prod.split sum.split)
    qed
  qed
qed

lemma keeps_claim: "keeps blast_inv (claim_initial a i n)"
proof (rule keepsI)
  fix st assume inv: "blast_inv st"
  let ?f = "\<lambda>r. if rc_id r \<in> set (map rc_id (take n (filter (claimable i) (bs_recipients st))))
    then r\<lparr>rc_assigneeId := Some a, rc_assignedAt := Some (bs_now st)\<rparr> else r"
  show "blast_inv (snd (claim_initial a i n st))"
    by (rule blast_inv_rows [OF inv, of _ ?f]) (auto simp: claim_initial_def Let_def recipient_key_def is_pending_def)
qed

lemma callback_recipient_keeps:
  "callback_recipient env sid status code msg now r = Some r' \<Longrightarrow>
   rc_id r' = rc_id r \<and> recipient_key r' = recipient_key r \<and> \<not> (is_pending r' \<and> \<not> is_pending r)"
proof -
  have "rc_id r' = rc_id r \<and> recipient_key r' = recipient_key r \<and> \<not> (is_pending r' \<and> \<not> is_pending r)"
    if "confirm_recipient env sid status now r = Some r'"
    using that unfolding confirm_recipient_def Let_def
    by (simp split: if_split_asm) (force simp: recipient_key_def is_pending_def confirmed_status_def)+
  moreover have "rc_id r' = rc_id r \<and> recipient_key r' = recipient_key r \<and> \<not> (is_pending r' \<and> \<not> is_pending r)"
    if "fail_recipient env sid status code msg now r = Some r'"
    using that unfolding fail_recipient_def Let_def
    by (simp split: if_split_asm) (force simp: recipient_key_def is_pending_def failed_status_def)+
  ultimately show "callback_recipient env sid status code msg now r = Some r' \<Longrightarrow> ?thesis"
    by (simp add: callback_recipient_def split: if_split_asm)
qed

lemma keeps_recalculate_all: "keeps blast_inv (recalculate_all is us)"
  by (induction "is" arbitrary: us) (auto intro!: keeps_intro)

lemma keeps_applyCallback: "keeps blast_inv (applyTwilioStatusCallback env p)"
proof -
  have rows: "blast_inv (st\<lparr>bs_recipients := apply_where P (callback_recipient env sid status code msg now) (bs_recipients st),
      bs_outbound := os\<rparr>)" if inv: "blast_inv st" for st P sid status code msg now os
    by (rule blast_inv_rows [OF inv, where f = "\<lambda>r. if P r then
          (case callback_recipient env sid status code msg now r of None \<Rightarrow> r | Some r' \<Rightarrow> r') else r"])
      (auto simp: apply_where_def dest: callback_recipient_keeps split: option.split)
  show ?thesis
    unfolding applyTwilioStatusCallback_def Let_def
    by (intro keeps_if keeps_monad keeps_bind keeps_modify keeps_recalculate_all rows)
qed

lemma keeps_callback: "keeps blast_inv (handleTwilioStatusCallback env p)"
proof -
  have "keeps blast_inv (\<lambda>s. case applyTwilioStatusCallback env p s of
      (Inl e, s') \<Rightarrow> (Inl e, release_callback k s') | (Inr r, s') \<Rightarrow> (Inr r, s'))" for k
  proof (rule keepsI)
    fix st assume "blast_inv st"
    then have inv: "blast_inv (snd (applyTwilioStatusCallback env p st))" by (rule keepsD [OF keeps_applyCallback])
    obtain r s' where m: "applyTwilioStatusCallback env p st = (r, s')" by (cases "applyTwilioStatusCallback env p st")
    have "blast_inv (release_callback k s')"
      by (rule blast_inv_core [of s']) (use inv m in \<open>auto simp: same_blast_core_def release_callback_def\<close>)
    then show "blast_inv (snd (case applyTwilioStatusCallback env p st of
        (Inl e, s') \<Rightarrow> (Inl e, release_callback k s') | (Inr r, s') \<Rightarrow> (Inr r, s')))"
      using inv m by (simp split: sum.split)
  qed
  moreover have "keeps blast_inv (claim_callback k)" for k
    by (rule keepsI, erule blast_inv_core [rotated]) (simp add: claim_callback_def same_blast_core_def)
  ultimately show ?thesis
    unfolding handleTwilioStatusCallback_def Let_def by (intro keeps_if keeps_monad keeps_bind keeps_applyCallback)
qed

lemma keeps_reply: "keeps blast_inv (recordReply t p ch)"
proof -
  have rows: "blast_inv (st\<lparr>bs_recipients := map (\<lambda>r. if responds m p r
        then r\<lparr>rc_status := BlastRecipientStatus.RESPONDED, rc_respondedAt := Some (bs_now st)\<rparr> else r) (bs_recipients st)\<rparr>)"
    if inv: "blast_inv st" for st m
    by (rule blast_inv_rows [OF inv, where f = "\<lambda>r. if responds m p r
        then r\<lparr>rc_status := BlastRecipientStatus.RESPONDED, rc_respondedAt := Some (bs_now st)\<rparr> else r"])
      (auto simp: recipient_key_def is_pending_def)
  show ?thesis
    unfolding recordReply_def by (intro keeps_bind keeps_monad keeps_option keeps_if keeps_modify rows same_blast_ops)
qed

lemma keeps_work: "keeps blast_inv (work env n)"
proof (rule keepsI)
  fix st assume inv: "blast_inv st"
  show "blast_inv (snd (work env n st))"
  proof (cases "n < length (bs_jobs st)")
    case True
    let ?job = "bs_jobs st ! n"
    have "\<not> bj_retry ?job" using inv True by (simp add: blast_inv_def)
    then have "keeps blast_inv (processBlastJob env ?job)"
      unfolding processBlastJob_def by (intro keeps_if keeps_bind keeps_sendNow keeps_monad) simp
    from keepsD [OF this inv] have run: "blast_inv (snd (processBlastJob env ?job st))" .
    have "blast_inv (s\<lparr>bs_jobs := filter P (bs_jobs s)\<rparr>)" if "blast_inv s" for s P
      by (rule blast_inv_core [OF _ that]) (auto simp: same_blast_core_def)
    with True run show ?thesis by (auto simp: work_def Let_def split: prod.split sum.split)
  qed (use inv in \<open>simp add: work_def\<close>)
qed

lemma run_op_inv:
  assumes "\<not> is_retry op" "blast_inv st"
  shows "blast_inv (run_op env op st)"
proof -
  have world: "blast_inv (st\<lparr>bs_audience := au\<rparr>)" "blast_inv (st\<lparr>bs_now := t\<rparr>)" for au t
    by (rule blast_inv_core [OF _ assms(2)], simp add: same_blast_core_def)+
  show ?thesis
    using assms(1)
    by (cases op)
      (simp_all only: run_op.simps is_retry.simps not_True_eq_False world simp_thms
        assms(2) [THEN keepsD [OF keeps_createDraft]] assms(2) [THEN keepsD [OF keeps_updateDraft]]
        assms(2) [THEN keepsD [OF keeps_deleteBlast]] assms(2) [THEN keepsD [OF keeps_markProofed]]
        assms(2) [THEN keepsD [OF keeps_schedule]] assms(2) [THEN keepsD [OF keeps_requestSendNow]]
        assms(2) [THEN keepsD [OF keeps_dispatch]] assms(2) [THEN keepsD [OF keeps_prepare]]
        assms(2) [THEN keepsD [OF keeps_press]] assms(2) [THEN keepsD [OF keeps_claim]]
        assms(2) [THEN keepsD [OF keeps_callback]] assms(2) [THEN keepsD [OF keeps_reply]]
        assms(2) [THEN keepsD [OF keeps_work]])
qed

lemma run_ops_inv: "\<not> list_ex is_retry ops \<Longrightarrow> blast_inv st \<Longrightarrow> blast_inv (run_ops env ops st)"
  unfolding run_ops_def by (induction ops arbitrary: st) (simp_all add: run_op_inv)

lemma empty_blasts_inv: "blast_inv empty_blasts"
  by (simp add: blast_inv_def rows_ok_def texts_ok_def fresh_ids_def empty_blasts_def)

end
