(* ===== verification/Blast_Demo.thy ===== *)
theory Blast_Demo
  imports Blast_Life
begin

text \<open>
  A small world for concrete evaluations: an audience of one phone, a provider that takes every text, and a
  blast that is drafted, sent, retried and replied to. The facts of \<open>demo_run\<close> evaluate the operations in it.
\<close>

named_theorems demo_run

definition demo_contact :: "string \<Rightarrow> string \<Rightarrow> string \<Rightarrow> AudienceContactRow" where
  "demo_contact a t p = \<lparr>ac_audienceId = a, ac_tenantId = t, ac_contactId = None, ac_phoneE164 = p, ac_metadata = None\<rparr>"

definition demo_audience :: AudienceStore where
  "demo_audience = empty_audience\<lparr>ad_audiences := [\<lparr>au_id = ''a1'', au_tenantId = ''t1'', au_whatsappOptedIn = False\<rparr>],
     ad_contacts := [demo_contact ''a1'' ''t1'' ''+61400000001'']\<rparr>"

definition demo_message :: "nat \<Rightarrow> string \<Rightarrow> string \<Rightarrow> string option \<Rightarrow> TwilioMessage" where
  "demo_message n to body from =
     \<lparr>tm_sid = CHR ''S'' # nat_to_string n, tm_to = Some to, tm_from = from, tm_body = Some body, tm_dateSent = None,
      tm_dateCreated = 0\<rparr>"

definition demo_env :: BlastEnv where
  "demo_env = \<lparr>be_resolver = \<lparr>re_leaf = \<lparr>env_now = 0, env_date = (\<lambda>s. None), env_parse = (\<lambda>s. None), env_execSql = (\<lambda>s t. None)\<rparr>,
       re_js = sample_js, re_decode = (\<lambda>j. None), re_leafResolver = True, re_evaluator = True, re_staleMinutes = None,
       re_sha256 = (\<lambda>s. s), re_now = 0\<rparr>,
     be_compile = (\<lambda>template context. Inr template),
     be_compliance = \<lparr>co_requireOptOut = True, co_quietStart = 21, co_quietEnd = 8\<rparr>,
     be_localHour = (\<lambda>t. 12), be_iso = (\<lambda>t. ''now''), be_errorText = (\<lambda>e. ''ApiHttpException''),
     be_dryRun = False, be_bullmq = False, be_sendBatchSize = None, be_dispatchBatchSize = None, be_dispatchLimit = None,
     be_sendMaxRunMs = None, be_senderByNumber = (\<lambda>t n. Inr None), be_senderFor = (\<lambda>t p. Inr None),
     be_twilio = (\<lambda>n to body opts. Inr (demo_message n to body (Some ''+61400000000''))),
     be_dryRunFrom = (\<lambda>c. []), be_dryRunSid = (\<lambda>n c. ''DRYRUN-'' @ nat_to_string n), be_elapsed = (\<lambda>n. 0)\<rparr>"

definition demo_draft :: CreateBlastDto where
  "demo_draft = \<lparr>cb_title = ''Rally'', cb_audienceId = Some ''a1'', cb_bodyTemplate = ''Hi, reply STOP to opt out'', cb_channel = None,
     cb_contentSid = None, cb_contentVariableMap = None, cb_fromNumberId = None, cb_campaignId = None, cb_p2p = False\<rparr>"

definition demo_ops :: "blast_op list" where
  "demo_ops = [World demo_audience, Draft ''t1'' demo_draft, Send ''t1'' ''b0'', Cron None]"

lemma demo_env_facts [demo_run]:
  "be_elapsed demo_env n = 0" "be_bullmq demo_env = False" "be_dryRun demo_env = False"
  "be_twilio demo_env n to body opts = Inr (demo_message n to body (Some ''+61400000000''))"
  "sendOptionsFor demo_env b c = Inr (buildSendOptions demo_env b c None)"
  "be_compile demo_env template kvs = Inr template"
  by (simp_all add: demo_env_def sendOptionsFor_def)

lemma demo_sizes [demo_run]: "getSendTimeBudgetMs demo_env = 26600" "getSendBatchSize demo_env None = 475"
  by (simp_all add: getSendTimeBudgetMs_def getSendBatchSize_def bounded_def configured_def js_trunc_def demo_env_def)

lemma demo_strings [demo_run]:
  "normalizePhoneE164 ''+61400000001'' = Inr ''+61400000001''" "normalizePhoneE164 ''+61400000000'' = Inr ''+61400000000''"
  "recipient_id (Suc 0) = ''r1''" "blast_id 0 = ''b0''" "nat_to_string 0 = ''0''"
  "isContactable ''+61400000001'' None"
  by code_simp+

definition demo_recipient :: AudienceRecipient where
  "demo_recipient = \<lparr>ar_contactId = None, ar_phoneE164 = ''+61400000001'', ar_metadata = JObj []\<rparr>"

lemma demo_resolve:
  "resolvePhoneRecipients env demo_audience ''t1'' ''a1'' = Inr ([demo_recipient], demo_audience)"
  by (simp add: resolvePhoneRecipients_def is_opt_in_audience_def demo_audience_def empty_audience_def Let_def
      loadDynamicSegments_def dedup_def contactable_rows_def demo_contact_def contactable_flag_def or_empty_def tvals_def
      demo_strings demo_recipient_def)

lemma demo_no_consent: "db_contactConsent (st_db (ad_store demo_audience)) = []"
  by (simp add: demo_audience_def empty_audience_def empty_segments_def)

lemma demo_recipients [demo_run]:
  assumes "bs_audience st = demo_audience" "bl_audienceId b = Some ''a1''" "bl_tenantId b = ''t1''" "bl_channel b = Sms"
  shows "getBlastRecipients demo_env b st = (Inr [demo_recipient], st)"
proof -
  have same: "st\<lparr>bs_audience := demo_audience\<rparr> = st" using assms(1) by (metis BlastStore.surjective BlastStore.update_convs(9))
  have "sendable s t Sms ps p" if "bs_audience s = demo_audience" for s t ps p
    using that by (simp add: sendable_def consent_rows_def demo_no_consent getStatesForPhones_def canSend_def)
  with assms same show ?thesis
    by (simp add: getBlastRecipients_def blast_run with_audience_def demo_resolve Let_def)
qed

definition demo_blast :: Blast where
  "demo_blast = \<lparr>bl_id = ''b0'', bl_tenantId = ''t1'', bl_audienceId = Some ''a1'', bl_title = ''Rally'',
     bl_bodyTemplate = ''Hi, reply STOP to opt out'', bl_channel = Sms, bl_contentSid = None, bl_contentVariableMap = None,
     bl_fromNumberId = None, bl_campaignId = None, bl_status = BlastStatus.DRAFTED, bl_scheduledFor = None,
     bl_proofedAt = None, bl_startedAt = None, bl_completedAt = None, bl_metadata = None, bl_updatedAt = 0\<rparr>"

text \<open>After the draft, and after the blast was sent.\<close>

definition demo_drafted :: BlastStore where
  "demo_drafted = run_ops demo_env [World demo_audience, Draft ''t1'' demo_draft] empty_blasts"

lemma demo_drafted_facts [demo_run]:
  "bs_blasts demo_drafted = [demo_blast]" "bs_audience demo_drafted = demo_audience" "bs_texts demo_drafted = []"
  "bs_recipients demo_drafted = []" "bs_outbound demo_drafted = []" "bs_nextId demo_drafted = 1" "bs_calls demo_drafted = 0"
  "bs_now demo_drafted = 0"
  by (simp_all add: demo_drafted_def run_ops_def createDraft_def demo_draft_def audience_exists_def demo_audience_def
      empty_blasts_def or_null_def Let_def demo_strings demo_blast_def)

lemma demo_blast_facts [demo_run]:
  "bl_id demo_blast = ''b0''" "bl_tenantId demo_blast = ''t1''" "bl_audienceId demo_blast = Some ''a1''"
  "bl_channel demo_blast = Sms" "bl_status demo_blast = BlastStatus.DRAFTED" "bl_startedAt demo_blast = None"
  "bl_completedAt demo_blast = None" "bl_bodyTemplate demo_blast = ''Hi, reply STOP to opt out''"
  by (simp_all add: demo_blast_def)

definition demo_sent :: BlastStore where
  "demo_sent = run_op demo_env (Send ''t1'' ''b0'') demo_drafted"

lemmas demo_unfold =
  requestSendNow_def tenant_blast_run getBlastForTenant_def sendNow_def blast_run getBlastOrThrow_def find_blast_def
  begin_sending_def assertValidBlastTransition_def update_blast_def ensureBlastRecipientRecords_def recipients_of_def
  seed_row_def render_def Let_def recipient_key_def pending_batch_def is_pending_def sent_phones_def SENT_RECIPIENT_STATUSES_def
  send_loop_Cons loop_round_def send_recipient_def send_text_def sent_row_def queued_row_def write_row_def demo_message_def
  create_outbound_def outbound_row_def str_or_empty_def next_phones_def recalculateBlastStatus_def internal_failures_def
  status_of_def writeSnapshot_def append_outbox_def demo_recipient_def

lemma demo_sent_facts [demo_run]:
  "bs_texts demo_sent = [\<lparr>st_blastId = ''b0'', st_phone = ''+61400000001'', st_body = ''Hi, reply STOP to opt out''\<rparr>]"
  "map rc_status (bs_recipients demo_sent) = [BlastRecipientStatus.SENT]"
  "map bl_status (bs_blasts demo_sent) = [BlastStatus.SENT]"
  by (simp_all add: demo_sent_def demo_unfold demo_run)

end
