(* ===== verification/Blast_Seeding.thy ===== *)
theory Blast_Seeding
  imports Blast_Demo
begin

text \<open>
  Whom a blast is seeded with: the members of its audience, by the kind of audience, whose recorded consent allows
  the channel. What the consent lookup over a list of phones answers is what the consent service answers for each.
\<close>

section \<open>Where members come from\<close>

lemma in_tvals_dedup: "r \<in> set (tvals (dedup phone val rows)) \<Longrightarrow> \<exists>x\<in>set rows. r = val x"
  using dedup_source [of _ phone val rows] by (fastforce simp: tvals_def)

lemma resolve_source:
  assumes "resolvePhoneRecipients env st t a = Inr (rs, st')" "r \<in> set rs"
  shows "recipient_source st' t a r"
proof -
  note keep = resolve_keeps [OF assms(1)]
  have same: "is_opt_in_audience st' t a = is_opt_in_audience st t a" "opt_ins st' t = opt_ins st t"
    "loadDynamicSegments st' t a = loadDynamicSegments st t a" "contactable_rows st' a = contactable_rows st a"
    using keep by (simp_all add: is_opt_in_audience_def opt_ins_def loadDynamicSegments_def contactable_rows_def)
  consider (opt) "is_opt_in_audience st t a" | (dyn) "\<not> is_opt_in_audience st t a" "loadDynamicSegments st t a \<noteq> []"
    | (static) "\<not> is_opt_in_audience st t a" "loadDynamicSegments st t a = []" by blast
  then show ?thesis
  proof cases
    case opt
    then have "rs = tvals (dedup cc_phoneE164
        (\<lambda>c. \<lparr>ar_contactId = cc_contactId c, ar_phoneE164 = cc_phoneE164 c, ar_metadata = JObj []\<rparr>) (opt_ins st t))"
      using assms(1) by (auto simp: resolvePhoneRecipients_def)
    from in_tvals_dedup [OF assms(2) [unfolded this]] show ?thesis using opt by (auto simp: recipient_source_def same)
  next
    case dyn
    with assms obtain ids where ids: "orderedSegmentContactIds env st (loadDynamicSegments st t a) = Inr (ids, st')"
      "r \<in> set (tvals (dedup snd (\<lambda>(cid, p). \<lparr>ar_contactId = Some cid, ar_phoneE164 = p, ar_metadata = or_empty (ad_metadata st' cid)\<rparr>)
        (List.map_filter (contact_with_phone st' t) ids)))"
      by (auto simp: resolvePhoneRecipients_def Let_def rbind_Inr_iff)
    from in_tvals_dedup [OF ids(2)] obtain cid p where c: "(cid, p) \<in> set (List.map_filter (contact_with_phone st' t) ids)"
      "r = \<lparr>ar_contactId = Some cid, ar_phoneE164 = p, ar_metadata = or_empty (ad_metadata st' cid)\<rparr>" by auto
    then obtain c' where c': "c' \<in> set ids" "contact_with_phone st' t c' = Some (cid, p)"
      by (auto simp: List.map_filter_def)
    with ordered_ids(1) [OF ids(1)] contact_with_phone_fst [OF c'(2)] c(2) dyn show ?thesis
      by (auto simp: recipient_source_def same)
  next
    case static
    then have "rs = tvals (dedup ac_phoneE164
        (\<lambda>c. \<lparr>ar_contactId = ac_contactId c, ar_phoneE164 = ac_phoneE164 c, ar_metadata = or_empty (ac_metadata c)\<rparr>)
        (contactable_rows st a))"
      using assms(1) by (auto simp: resolvePhoneRecipients_def)
    from in_tvals_dedup [OF assms(2) [unfolded this]] show ?thesis using static by (auto simp: recipient_source_def same)
  qed
qed

section \<open>The consent lookup\<close>

lemma states_fold:
  assumes "distinct (map consent_key rows)" "p \<in> set phones"
  shows "tget (fold (\<lambda>r. tset (cc_phoneE164 r) (cc_state r))
      (filter (\<lambda>r. cc_tenantId r = t \<and> cc_channel r = c \<and> cc_phoneE164 r \<in> set phones) rows) tbl) p =
    (case find_consent rows (t, p, c) of None \<Rightarrow> tget tbl p | Some r \<Rightarrow> Some (cc_state r))"
  using assms(1)
proof (induction rows arbitrary: tbl)
  case (Cons r rows)
  show ?case
  proof (cases "consent_key r = (t, p, c)")
    case True
    then have "find_consent rows (t, p, c) = None" using Cons.prems by (simp add: find_consent_None)
    with True Cons.IH [of "tset p (cc_state r) tbl"] Cons.prems assms(2) show ?thesis
      by (auto simp: consent_key_def find_consent_def)
  next
    case False
    then have "find_consent (r # rows) (t, p, c) = find_consent rows (t, p, c)" by (simp add: find_consent_def)
    moreover have "tget (tset (cc_phoneE164 r) (cc_state r) tbl) p = tget tbl p" if "cc_tenantId r = t" "cc_channel r = c"
      using False that by (auto simp: consent_key_def)
    ultimately show ?thesis using Cons by (auto split: option.split)
  qed
qed (simp add: find_consent_def)

lemma sendable_iff:
  assumes "consent_inv (consent_rows st)" "p \<in> set phones"
  shows "sendable st t ch phones p = canSend (getState (consent_rows st) t p (MessageChannel_id ch)) ch"
proof -
  have "phones \<noteq> []" using assms(2) by auto
  then have "(case tget (getStatesForPhones (consent_rows st) t ch phones) p of None \<Rightarrow> ''UNKNOWN'' | Some s \<Rightarrow> s) =
      getState (consent_rows st) t p (MessageChannel_id ch)"
    using states_fold [OF assms(1) [unfolded consent_inv_def] assms(2), of t "MessageChannel_id ch" "[]"]
    by (auto simp: getStatesForPhones_def getState_def split: option.splits)
  then show ?thesis by (simp add: sendable_def)
qed

section \<open>The seeded rows\<close>

lemma seed_rows_source:
  "seed_rows env b now rs = Inr mks \<Longrightarrow> mk \<in> set mks \<Longrightarrow>
   \<exists>m\<in>set rs. normalizePhoneE164 (ar_phoneE164 m) = Inr (rc_phoneE164 (mk i)) \<and> rc_contactId (mk i) = ar_contactId m \<and>
     is_pending (mk i)"
proof (induction rs arbitrary: mks)
  case (Cons r rs)
  then obtain x xs where x: "seed_row env b now r = Inr x" "seed_rows env b now rs = Inr xs" "mks = x # xs"
    by (auto simp: rbind_Inr_iff)
  show ?case
  proof (cases "mk = x")
    case True
    with x(1) show ?thesis by (auto simp: seed_row_def rbind_Inr_iff Let_def is_pending_def)
  next
    case False
    with Cons.IH [OF x(2)] Cons.prems(2) x(3) show ?thesis by auto
  qed
qed simp

lemma create_many_rows:
  "r \<in> set (bs_recipients (create_many mks st)) \<Longrightarrow> r \<in> set (bs_recipients st) \<or> (\<exists>mk\<in>set mks. \<exists>i. r = mk i)"
proof (induction mks arbitrary: st)
  case (Cons mk mks)
  let ?row = "mk (recipient_id (bs_nextId st))"
  let ?st = "if recipient_key ?row \<in> recipient_key ` set (bs_recipients st) then st
     else st\<lparr>bs_recipients := bs_recipients st @ [?row], bs_nextId := bs_nextId st + 1\<rparr>"
  have "r \<in> set (bs_recipients ?st) \<or> (\<exists>mk\<in>set mks. \<exists>i. r = mk i)"
    using Cons by (simp add: Let_def split del: if_split)
  then show ?case by (auto split: if_splits)
qed simp

lemma members_run:
  assumes "getBlastRecipients env b st = (Inr ms, st')" "m \<in> set ms"
  shows "\<exists>a. bl_audienceId b = Some a \<and> recipient_source (bs_audience st') (bl_tenantId b) a m \<and>
    (consent_inv (consent_rows st) \<longrightarrow>
       canSend (getState (consent_rows st) (bl_tenantId b) (ar_phoneE164 m) (MessageChannel_id (bl_channel b))) (bl_channel b))"
proof -
  from assms obtain a where a: "bl_audienceId b = Some a" "a \<noteq> []"
    by (auto simp: getBlastRecipients_def blast_run split: option.splits if_splits)
  from assms a obtain rs au where rs: "resolvePhoneRecipients ((be_resolver env)\<lparr>re_now := bs_now st\<rparr>) (bs_audience st) (bl_tenantId b) a = Inr (rs, au)"
    "st' = st\<lparr>bs_audience := au\<rparr>"
    "m \<in> set rs" "sendable st' (bl_tenantId b) (bl_channel b) (map ar_phoneE164 rs) (ar_phoneE164 m)"
    by (auto simp: getBlastRecipients_def blast_run with_audience_def Let_def split: sum.splits)
  have "consent_rows st' = consent_rows st" using resolve_keeps(4) [OF rs(1)] rs(2) by (simp add: consent_rows_def)
  then show ?thesis
    using a(1) resolve_source [OF rs(1,3)] rs(2-4) sendable_iff [of st' "ar_phoneE164 m" "map ar_phoneE164 rs"] by auto
qed

text \<open>C7: Every recipient a blast is seeded with is a member of its audience: a consent row of the tenant for an
  opted-in audience, a contact of the tenant in the materialised segment for a dynamic one, a contactable row of
  the audience otherwise; and the consent recorded for that member's phone allows the blast's channel.\<close>

theorem seeded_recipients_consented:
  assumes "ensureBlastRecipientRecords env b st = (Inr n, st')" "recipients_of (bl_id b) st = []"
    "consent_inv (consent_rows st)" "r \<in> set (recipients_of (bl_id b) st')"
  shows "\<exists>a m. bl_audienceId b = Some a \<and> recipient_source (bs_audience st') (bl_tenantId b) a m \<and>
    normalizePhoneE164 (ar_phoneE164 m) = Inr (rc_phoneE164 r) \<and> rc_contactId r = ar_contactId m \<and> is_pending r \<and>
    canSend (getState (consent_rows st) (bl_tenantId b) (ar_phoneE164 m) (MessageChannel_id (bl_channel b))) (bl_channel b)"
proof -
  from assms(1,2) obtain ms st1 mks where run: "getBlastRecipients env b st = (Inr ms, st1)"
    "seed_rows env b (bs_now st1) ms = Inr mks" "st' = create_many mks st1"
    by (auto simp: ensureBlastRecipientRecords_def blast_run split: prod.splits sum.splits)
  have "bs_recipients st1 = bs_recipients st"
    using run(1) by (auto simp: getBlastRecipients_def blast_run with_audience_def Let_def split: option.splits if_splits sum.splits)
  moreover have "r \<in> set (bs_recipients st')" "rc_blastId r = bl_id b" using assms(4) by (auto simp: recipients_of_def)
  ultimately have "r \<notin> set (bs_recipients st1)" using assms(2) by (auto simp: recipients_of_nil)
  then obtain mk i where mk: "mk \<in> set mks" "r = mk i"
    using create_many_rows [of r mks st1] run(3) \<open>r \<in> set (bs_recipients st')\<close> by auto
  then obtain m where m: "m \<in> set ms" "normalizePhoneE164 (ar_phoneE164 m) = Inr (rc_phoneE164 r)"
    "rc_contactId r = ar_contactId m" "is_pending r"
    using seed_rows_source [OF run(2), of mk i] by auto
  have "bs_audience st' = bs_audience st1"
  proof -
    have "bs_audience (create_many mks s) = bs_audience s" for s by (induction mks arbitrary: s) (simp_all add: Let_def)
    then show ?thesis using run(3) by simp
  qed
  with members_run [OF run(1) m(1)] assms(3) m(2-4) show ?thesis by auto
qed

theorem seeded_recipients_consented_witness:
  "\<exists>st'. ensureBlastRecipientRecords demo_env demo_blast demo_drafted = (Inr 1, st') \<and>
     (\<forall>r\<in>set (recipients_of ''b0'' st'). canSend (getState (consent_rows demo_drafted) ''t1'' (rc_phoneE164 r) ''SMS'') Sms)"
proof -
  obtain st' where st': "ensureBlastRecipientRecords demo_env demo_blast demo_drafted = (Inr 1, st')"
    by (simp add: demo_unfold demo_run)
  have "consent_inv (consent_rows demo_drafted)"
    by (simp add: consent_rows_def demo_run demo_no_consent consent_inv_def)
  note seeded = seeded_recipients_consented [OF st' _ this, unfolded demo_blast_facts]
  have "canSend (getState (consent_rows demo_drafted) ''t1'' (rc_phoneE164 r) ''SMS'') Sms" if "r \<in> set (recipients_of ''b0'' st')" for r
  proof -
    from seeded [OF _ that] obtain a m where m: "a = ''a1''" "recipient_source (bs_audience st') ''t1'' a m"
      "normalizePhoneE164 (ar_phoneE164 m) = Inr (rc_phoneE164 r)"
      "canSend (getState (consent_rows demo_drafted) ''t1'' (ar_phoneE164 m) ''SMS'') Sms"
      by (auto simp: recipients_of_def demo_run)
    have "consent_rows demo_drafted = []" by (simp add: consent_rows_def demo_run demo_no_consent)
    then show ?thesis by (simp add: getState_def find_consent_def canSend_def)
  qed
  with st' show ?thesis by blast
qed

end
