(* ===== verification/Blast_Promises.thy ===== *)
theory Blast_Promises
  imports Blast_Demo
begin

text \<open>
  What the blast sender promises: no phone of a blast is texted twice unless somebody retries it; the recomputed
  status is that of the classified failures; a sending blast completes; whom a blast is seeded with; and what the
  status callbacks can do to a recipient.
\<close>

section \<open>At most one text\<close>

text \<open>C4: Whatever drafts, edits, sends, cron runs, volunteers' claims and sends, callbacks, replies, queue deliveries and
  changes of audience or consent follow each other, as long as nobody asks for a retry the provider takes at most
  one text per blast and phone, and a recipient whose text was taken is never pending again.\<close>

theorem texted_at_most_once:
  assumes "\<not> list_ex is_retry ops"
  shows "length (filter (\<lambda>t. text_key t = k) (bs_texts (run_ops env ops empty_blasts))) \<le> 1 \<and>
    (\<forall>t\<in>set (bs_texts (run_ops env ops empty_blasts)). \<forall>r\<in>set (bs_recipients (run_ops env ops empty_blasts)).
       recipient_key r = text_key t \<longrightarrow> \<not> is_pending r)"
proof -
  have inv: "blast_inv (run_ops env ops empty_blasts)" by (rule run_ops_inv [OF assms empty_blasts_inv])
  have "length (filter (\<lambda>t. f t = k) xs) \<le> 1" if "distinct (map f xs)" for f :: "SentText \<Rightarrow> string \<times> string" and xs
    using that by (induction xs) (auto simp: filter_empty_conv, metis image_eqI)
  then show ?thesis using inv by (simp add: blast_inv_def texts_ok_def)
qed

lemma demo_sent_ops:
  "demo_sent = run_ops demo_env [World demo_audience, Draft ''t1'' demo_draft, Send ''t1'' ''b0''] empty_blasts"
  by (simp add: demo_sent_def demo_drafted_def run_ops_def)

theorem texted_at_most_once_witness:
  "length (filter (\<lambda>t. text_key t = (''b0'', ''+61400000001'')) (bs_texts demo_sent)) \<le> 1 \<and> length (bs_texts demo_sent) = 1"
  using texted_at_most_once [of "[World demo_audience, Draft ''t1'' demo_draft, Send ''t1'' ''b0'']" "(''b0'', ''+61400000001'')" demo_env]
  by (simp add: demo_sent_ops [symmetric] demo_run)

section \<open>The recomputed status\<close>

lemma starts_with_split: "starts_with s p \<Longrightarrow> \<exists>q. s = p @ q"
  unfolding starts_with_def by (metis append_take_drop_id)

lemma prefix_decides:
  "category_starts ''INTERNAL_'' r \<Longrightarrow> isRecipientFailureInternal r"
  "category_starts ''EXTERNAL_'' r \<Longrightarrow> \<not> isRecipientFailureInternal r"
  by (auto simp: category_starts_def isRecipientFailureInternal_def stored_scope_internal stored_scope_external
      simp del: append_Cons split: option.splits dest!: starts_with_split)

lemma internal_failures_exact:
  "internal_failures rs = length (filter (\<lambda>r. rc_status r = BlastRecipientStatus.FAILED \<and> isRecipientFailureInternal r) rs)"
proof (induction rs)
  case (Cons r rs)
  have "\<not> (category_starts ''INTERNAL_'' r \<and> rc_failureCategory r = None)" by (auto simp: category_starts_def split: option.splits)
  with Cons prefix_decides [of r] show ?case
    by (cases "category_starts ''INTERNAL_'' r"; cases "category_starts ''EXTERNAL_'' r"; cases "isRecipientFailureInternal r")
      (auto simp: internal_failures_def Let_def category_starts_def)
qed (simp add: internal_failures_def)

definition blast_status :: "string \<Rightarrow> BlastStore \<Rightarrow> BlastStatus option" where
  "blast_status i st = map_option bl_status (find_blast i st)"

lemma find_map_id: "(\<And>b. bl_id (f b) = bl_id b) \<Longrightarrow> find (\<lambda>b. bl_id b = i) (map f bs) = map_option f (find (\<lambda>b. bl_id b = i) bs)"
  by (induction bs) auto

lemma recalculate_run:
  assumes "find_blast i st = Some b"
  obtains st' where
    "recalculateBlastStatus i st = (Inr \<lparr>su_tenant = bl_tenantId b,
       su_status = status_of (length (filter is_pending (recipients_of i st))) (internal_failures (recipients_of i st)),
       su_remaining = length (filter is_pending (recipients_of i st)),
       su_internalFailures = internal_failures (recipients_of i st)\<rparr>, st')"
    "blast_status i st' = Some (status_of (length (filter is_pending (recipients_of i st))) (internal_failures (recipients_of i st)))"
    "bs_recipients st' = bs_recipients st" "bs_texts st' = bs_texts st" "bs_audience st' = bs_audience st"
    "map bl_id (bs_blasts st') = map bl_id (bs_blasts st)" "bs_now st' = bs_now st" "bs_outbound st' = bs_outbound st"
    "map_option bl_tenantId (find_blast i st') = Some (bl_tenantId b)"
proof -
  have find: "find (\<lambda>b. bl_id b = i) (bs_blasts st) = Some b" using assms by (simp add: find_blast_def)
  have id: "bl_id b = i" using find_blast_id [OF assms] by simp
  let ?s = "status_of (length (filter is_pending (recipients_of i st))) (internal_failures (recipients_of i st))"
  have upd: "find (\<lambda>b. bl_id b = i) (map (\<lambda>b. if bl_id b = i then (f b)\<lparr>bl_updatedAt := t\<rparr> else b) (bs_blasts st)) =
      Some ((f b)\<lparr>bl_updatedAt := t\<rparr>)" if "\<And>b. bl_id (f b) = bl_id b" for f t
    using find_map_id [of "\<lambda>b. if bl_id b = i then (f b)\<lparr>bl_updatedAt := t\<rparr> else b" i "bs_blasts st"] that find id by simp
  show thesis
  proof (cases "bl_status b = ?s \<and> \<not> (?s \<noteq> BlastStatus.SENDING \<and> bl_completedAt b = None)")
    case True
    then show thesis
      using assms find
      by (intro that [of st]) (auto simp: recalculateBlastStatus_def blast_run getBlastOrThrow_def Let_def blast_status_def find_blast_def)
  next
    case False
    let ?f = "\<lambda>x. if ?s = BlastStatus.SENDING then x\<lparr>bl_status := BlastStatus.SENDING\<rparr>
      else x\<lparr>bl_status := ?s, bl_completedAt := (case bl_completedAt b of None \<Rightarrow> Some (bs_now st) | Some t \<Rightarrow> Some t)\<rparr>"
    let ?st = "st\<lparr>bs_blasts := map (\<lambda>b. if bl_id b = i then (?f b)\<lparr>bl_updatedAt := bs_now st\<rparr> else b) (bs_blasts st)\<rparr>"
    have st: "find (\<lambda>b. bl_id b = i) (bs_blasts ?st) = Some ((?f b)\<lparr>bl_updatedAt := bs_now st\<rparr>)"
      using upd [of ?f] by simp
    have ids: "map bl_id (bs_blasts ?st) = map bl_id (bs_blasts st)" by simp
    show thesis
    proof (cases "bl_status b \<noteq> ?s \<and> ?s = BlastStatus.SENT")
      case True
      show thesis
        by (rule that [of "?st\<lparr>bs_outbox := bs_outbox st @ [BlastSent (bl_tenantId b) i (length (recipients_of i st))]\<rparr>"])
          (use assms False True st ids in \<open>auto simp: recalculateBlastStatus_def blast_run getBlastOrThrow_def Let_def
            blast_status_def find_blast_def update_blast_def append_outbox_def\<close>)
    next
      case nosent: False
      show thesis
        by (rule that [of ?st])
          (use assms False nosent st ids in \<open>auto simp: recalculateBlastStatus_def blast_run getBlastOrThrow_def Let_def
            blast_status_def find_blast_def update_blast_def append_outbox_def\<close>)
    qed
  qed
qed

text \<open>C10: The status a blast is given after a batch, a callback or a retry is decided by its rows: sending while a row is
  pending, failed when none is and some failed row classifies as internal, sent otherwise. The count through the
  category prefix and the residual query is the count over all failed rows, and no recipient is touched.\<close>

theorem recalculated_status_exact:
  assumes "find_blast i st = Some b"
  defines "rs \<equiv> recipients_of i st"
  shows "\<exists>u st'. recalculateBlastStatus i st = (Inr u, st') \<and> bs_recipients st' = bs_recipients st \<and>
    su_internalFailures u = length (filter (\<lambda>r. rc_status r = BlastRecipientStatus.FAILED \<and> isRecipientFailureInternal r) rs) \<and>
    blast_status i st' = Some (su_status u) \<and>
    su_status u = (if \<exists>r\<in>set rs. is_pending r then BlastStatus.SENDING
      else if \<exists>r\<in>set rs. rc_status r = BlastRecipientStatus.FAILED \<and> isRecipientFailureInternal r then BlastStatus.FAILED
      else BlastStatus.SENT)"
proof -
  obtain st' where r: "recalculateBlastStatus i st = (Inr \<lparr>su_tenant = bl_tenantId b,
       su_status = status_of (length (filter is_pending rs)) (internal_failures rs),
       su_remaining = length (filter is_pending rs), su_internalFailures = internal_failures rs\<rparr>, st')"
    "blast_status i st' = Some (status_of (length (filter is_pending rs)) (internal_failures rs))"
    "bs_recipients st' = bs_recipients st"
    using recalculate_run [OF assms(1)] unfolding rs_def by metis
  have "0 < length (filter P rs) \<longleftrightarrow> (\<exists>r\<in>set rs. P r)" for P by (induction rs) auto
  with r show ?thesis by (auto simp: internal_failures_exact status_of_def)
qed

theorem recalculated_status_exact_witness:
  "\<exists>u st'. recalculateBlastStatus ''b0'' demo_sent = (Inr u, st') \<and> su_status u = BlastStatus.SENT"
proof -
  obtain b where b: "bs_blasts demo_sent = [b]" using demo_sent_facts(3) by auto
  have "bl_id b = ''b0''"
  proof -
    have "map bl_id (bs_blasts demo_sent) = [''b0'']"
      by (simp add: demo_sent_def demo_unfold demo_run)
    then show ?thesis using b by simp
  qed
  then have "find_blast ''b0'' demo_sent = Some b" using b by (simp add: find_blast_def)
  from recalculated_status_exact [OF this] show ?thesis
    using demo_sent_facts(2) by (auto simp: is_pending_def recipients_of_def)
qed

section \<open>A sending blast completes\<close>

lemma writeSnapshot_run [blast_run]:
  "writeSnapshot t b m n st = (Inr (), st\<lparr>bs_snapshots := bs_snapshots st @ [(t, b, m, n)]\<rparr>)"
  by (simp add: writeSnapshot_def blast_run)

lemma enqueue_batch_run:
  obtains q js where "enqueueBlastSendBatch b n t k st = (Inr q, st\<lparr>bs_jobs := js\<rparr>)"
proof (cases "list_ex (\<lambda>j. bj_id j = getBlastSendJobId b k) (bs_jobs st)")
  case True
  show thesis by (rule that [of False "bs_jobs st"]) (use True in \<open>simp add: enqueueBlastSendBatch_def enqueue_blast_def blast_run\<close>)
next
  case False
  show thesis
    by (rule that [of True "bs_jobs st @ [\<lparr>bj_id = getBlastSendJobId b k, bj_retry = False, bj_blastId = b, bj_batchSize = n,
        bj_availableAt = (case t of None \<Rightarrow> bs_now st | Some t \<Rightarrow> max (bs_now st) t)\<rparr>]"])
      (use False in \<open>simp add: enqueueBlastSendBatch_def enqueue_blast_def blast_run\<close>)
qed

text \<open>One run of the batch sender over a blast that is sending and has its recipients.\<close>

definition batch_ids :: "BlastEnv \<Rightarrow> string \<Rightarrow> rat option \<Rightarrow> BlastStore \<Rightarrow> string set" where
  "batch_ids env i q st =
     rc_id ` set (take (reached env 0 (pending_batch i (getSendBatchSize env q) st)) (pending_batch i (getSendBatchSize env q) st))"

lemma sendNow_run:
  assumes "find_blast i st = Some b" "bl_status b = BlastStatus.SENDING" "recipients_of i st \<noteq> []"
  obtains res st' g where "sendNow env i q st = (Inr res, st')" "settles g"
    "bs_recipients st' = write_rows (batch_ids env i q st) g (bs_recipients st)"
    "blast_status i st' = Some (status_of (length (filter is_pending (recipients_of i st'))) (internal_failures (recipients_of i st')))"
proof -
  let ?k = "getSendBatchSize env q"
  let ?batch = "pending_batch i ?k st"
  let ?l = "send_loop env b 0 (sent_phones i ?batch st) ?batch \<lparr>sc_sent = 0, sc_failed = 0, sc_skipped = 0\<rparr> st"
  obtain c sub g where l: "fst ?l = Inr c" "bs_recipients (snd ?l) = write_rows (rc_id ` set (take (reached env 0 ?batch) ?batch)) g (bs_recipients st)"
    "same_rest st (snd ?l)" "settles g" by (rule send_loop_run)
  then obtain s1 where s1: "?l = (Inr c, s1)" by (cases ?l) auto
  have "find_blast i s1 = Some b" using l(3) s1 assms(1) by (simp add: same_rest_def find_blast_def)
  from recalculate_run [OF this] obtain u s2 where s2: "recalculateBlastStatus i s1 = (Inr u, s2)"
    "blast_status i s2 = Some (status_of (length (filter is_pending (recipients_of i s1))) (internal_failures (recipients_of i s1)))"
    "bs_recipients s2 = bs_recipients s1" by metis
  then obtain b2 where b2: "find_blast i s2 = Some b2" by (auto simp: blast_status_def)
  obtain q' js where j: "(if be_bullmq env \<and> 0 < su_remaining u
      then bbind (bget (\<lambda>st. cursor_key st (su_remaining u))) (\<lambda>key. enqueueBlastSendBatch i (Some (rat_of_nat ?k)) None (Some key))
      else bret False) s2 = (Inr q', s2\<lparr>bs_jobs := js\<rparr>)"
  proof (cases "be_bullmq env \<and> 0 < su_remaining u")
    case True
    obtain q' js where "enqueueBlastSendBatch i (Some (rat_of_nat ?k)) None (Some (cursor_key s2 (su_remaining u))) s2 = (Inr q', s2\<lparr>bs_jobs := js\<rparr>)"
      by (rule enqueue_batch_run)
    with True show thesis using that by (simp add: blast_run)
  next
    case False
    show thesis by (rule that [of False "bs_jobs s2"]) (use False in \<open>auto simp: blast_monad\<close>)
  qed
  have rec: "recipients_of i st' = recipients_of i s1" if "bs_recipients st' = bs_recipients s1" for st'
    using that by (simp add: recipients_of_def)
  have load: "getBlastOrThrow i st = (Inr b, st)" "getBlastOrThrow i s2 = (Inr b2, s2)"
    using assms(1) b2 by (simp_all add: getBlastOrThrow_def)
  have ensure: "ensureBlastRecipientRecords env b st = (Inr (length (recipients_of i st)), st)"
    using assms find_blast_id [OF assms(1)] by (simp add: ensureBlastRecipientRecords_def blast_run)
  have "\<exists>res. sendNow env i q st = (Inr res, s2\<lparr>bs_jobs := js, bs_snapshots := bs_snapshots s2 @
      [(bl_tenantId b, Some i, ''sent'', sc_sent c)] @ [(bl_tenantId b, Some i, ''failed'', sc_failed c)]\<rparr>)"
    using assms(2) s1 s2(1) j load ensure
    by (simp add: sendNow_def begin_sending_def Let_def bbind_run blast_monad writeSnapshot_run split del: if_split)
  then obtain res st' where res: "sendNow env i q st = (Inr res, st')" "bs_recipients st' = bs_recipients s2" "bs_blasts st' = bs_blasts s2"
    by auto
  show thesis
  proof (rule that [OF res(1) l(4)])
    show "bs_recipients st' = write_rows (batch_ids env i q st) g (bs_recipients st)"
      using res(2) s2(3) l(2) s1 by (simp add: batch_ids_def)
    show "blast_status i st' = Some (status_of (length (filter is_pending (recipients_of i st'))) (internal_failures (recipients_of i st')))"
      using s2(2,3) res(2,3) rec [of st'] by (simp add: blast_status_def find_blast_def)
  qed
qed

text \<open>The rounds the cron gives a blast: it is sent again while it is sending.\<close>

fun send_rounds :: "BlastEnv \<Rightarrow> string \<Rightarrow> rat option \<Rightarrow> nat \<Rightarrow> BlastStore \<Rightarrow> BlastStore" where
  "send_rounds env i q 0 st = st"
| "send_rounds env i q (Suc k) st =
     (if blast_status i st = Some BlastStatus.SENDING then send_rounds env i q k (snd (sendNow env i q st)) else st)"

definition unsent :: "string \<Rightarrow> BlastStore \<Rightarrow> nat" where
  "unsent i st = length (filter is_pending (recipients_of i st))"

lemma batch_size_pos: "0 < getSendBatchSize env q"
  by (simp add: getSendBatchSize_def bounded_def)

lemma reached_pos: "rs \<noteq> [] \<Longrightarrow> be_elapsed env 0 < getSendTimeBudgetMs env \<Longrightarrow> 0 < reached env 0 rs"
  by (cases rs) auto

lemma recipients_write_rows:
  "keeps_identity g \<Longrightarrow> filter (\<lambda>r. rc_blastId r = i) (write_rows ids g rows) = write_rows ids g (filter (\<lambda>r. rc_blastId r = i) rows)"
  by (induction rows) (auto simp: write_rows_def keeps_identity_def recipient_key_def)

lemma unsent_write_rows:
  assumes "settles g"
  shows "length (filter is_pending (write_rows ids g rows)) = length (filter (\<lambda>r. is_pending r \<and> rc_id r \<notin> ids) rows)"
  using assms by (induction rows) (auto simp: write_rows_def settles_def)

lemma round_progress:
  assumes "blast_status i st = Some BlastStatus.SENDING" "recipients_of i st \<noteq> []" "be_elapsed env 0 < getSendTimeBudgetMs env"
  obtains res st' where "sendNow env i q st = (Inr res, st')" "recipients_of i st' \<noteq> []"
    "unsent i st' \<le> unsent i st - 1"
    "blast_status i st' = Some BlastStatus.SENDING \<and> 0 < unsent i st' \<or>
     blast_status i st' \<in> {Some BlastStatus.SENT, Some BlastStatus.FAILED} \<and> unsent i st' = 0"
proof -
  obtain b where b: "find_blast i st = Some b" "bl_status b = BlastStatus.SENDING"
    using assms(1) by (auto simp: blast_status_def)
  obtain res st' g where r: "sendNow env i q st = (Inr res, st')" "settles g"
    "bs_recipients st' = write_rows (batch_ids env i q st) g (bs_recipients st)"
    "blast_status i st' = Some (status_of (unsent i st') (internal_failures (recipients_of i st')))"
    using sendNow_run [OF b assms(2)] unfolding unsent_def by metis
  let ?ids = "batch_ids env i q st"
  have rows: "recipients_of i st' = write_rows ?ids g (recipients_of i st)"
    using recipients_write_rows [of g i ?ids] r(2,3) by (simp add: recipients_of_def)
  have count: "unsent i st' = length (filter (\<lambda>r. is_pending r \<and> rc_id r \<notin> ?ids) (recipients_of i st))"
    unfolding unsent_def rows by (rule unsent_write_rows [OF r(2)])
  have "unsent i st' \<le> unsent i st - 1"
  proof (cases "filter is_pending (recipients_of i st)")
    case Nil
    then have "filter (\<lambda>r. is_pending r \<and> rc_id r \<notin> ?ids) (recipients_of i st) = []" by (auto simp: filter_empty_conv)
    then show ?thesis using count by simp
  next
    case (Cons r rs)
    have "pending_batch i (getSendBatchSize env q) st \<noteq> []"
      using Cons batch_size_pos [of env q] by (simp add: pending_batch_def)
    then have "rc_id r \<in> ?ids"
      using Cons assms(3) batch_size_pos [of env q]
      by (cases "getSendBatchSize env q") (auto simp: batch_ids_def pending_batch_def gr0_conv_Suc)
    then have "length (filter (\<lambda>r. is_pending r \<and> rc_id r \<notin> ?ids) (recipients_of i st)) \<le> length rs"
    proof -
      have "filter (\<lambda>r. is_pending r \<and> rc_id r \<notin> ?ids) (recipients_of i st) = filter (\<lambda>r. rc_id r \<notin> ?ids) (r # rs)"
        unfolding Cons [symmetric] by (simp add: conj_commute)
      also have "length \<dots> \<le> length rs" using \<open>rc_id r \<in> ?ids\<close> by simp
      finally show ?thesis .
    qed
    moreover have "unsent i st = Suc (length rs)" using Cons by (simp add: unsent_def)
    ultimately show ?thesis using count by simp
  qed
  moreover have "recipients_of i st' \<noteq> []" using assms(2) rows by (simp add: write_rows_def)
  moreover have "blast_status i st' = Some BlastStatus.SENDING \<and> 0 < unsent i st' \<or>
     blast_status i st' \<in> {Some BlastStatus.SENT, Some BlastStatus.FAILED} \<and> unsent i st' = 0"
    using r(4) by (auto simp: status_of_def)
  ultimately show thesis using that r(1) by blast
qed

text \<open>C5: A blast that is sending and has its recipients completes: as long as the time budget lets each run reach its
  first recipient, after as many runs of the batch sender as there are unsent recipients (at least one) it is sent
  or failed, and nobody is left unsent, whatever the provider answers.\<close>

theorem sending_blast_completes:
  assumes "blast_status i st = Some BlastStatus.SENDING" "recipients_of i st \<noteq> []"
    "be_elapsed env 0 < getSendTimeBudgetMs env" "max 1 (unsent i st) \<le> k"
  shows "blast_status i (send_rounds env i q k st) \<in> {Some BlastStatus.SENT, Some BlastStatus.FAILED} \<and>
    unsent i (send_rounds env i q k st) = 0"
  using assms
proof (induction k arbitrary: st)
  case (Suc k)
  obtain res st' where r: "sendNow env i q st = (Inr res, st')" "recipients_of i st' \<noteq> []"
    "unsent i st' \<le> unsent i st - 1"
    "blast_status i st' = Some BlastStatus.SENDING \<and> 0 < unsent i st' \<or>
     blast_status i st' \<in> {Some BlastStatus.SENT, Some BlastStatus.FAILED} \<and> unsent i st' = 0"
    by (rule round_progress [OF Suc.prems(1-3)])
  show ?case
  proof (cases "blast_status i st' = Some BlastStatus.SENDING")
    case True
    then have "max 1 (unsent i st') \<le> k" using r(3,4) Suc.prems(4) by auto
    from Suc.IH [OF True r(2) Suc.prems(3) this] show ?thesis using Suc.prems(1) r(1) by simp
  next
    case False
    then have "send_rounds env i q k st' = st'" by (cases k) simp_all
    with r(1,4) False Suc.prems(1) show ?thesis by simp
  qed
qed simp

text \<open>A blast that is sending, its one recipient seeded.\<close>

definition demo_row :: BlastRecipient where
  "demo_row = \<lparr>rc_id = ''r1'', rc_blastId = ''b0'', rc_contactId = None, rc_phoneE164 = ''+61400000001'',
     rc_renderedBody = ''Hi, reply STOP to opt out'', rc_status = BlastRecipientStatus.PENDING, rc_failureCategory = None,
     rc_twilioMessageSid = None, rc_sentAt = None, rc_deliveredAt = None, rc_respondedAt = None, rc_errorCode = None,
     rc_errorMessage = None, rc_metadata = None, rc_assigneeId = None, rc_assignedAt = None\<rparr>"

definition demo_seeded :: BlastStore where
  "demo_seeded = demo_drafted\<lparr>bs_blasts := [demo_blast\<lparr>bl_status := BlastStatus.SENDING\<rparr>], bs_recipients := [demo_row], bs_nextId := 2\<rparr>"

lemma demo_seeded_facts [demo_run]:
  "find_blast ''b0'' demo_seeded = Some (demo_blast\<lparr>bl_status := BlastStatus.SENDING\<rparr>)"
  "recipients_of ''b0'' demo_seeded = [demo_row]" "unsent ''b0'' demo_seeded = 1" "bs_recipients demo_seeded = [demo_row]"
  "bs_texts demo_seeded = []" "bs_audience demo_seeded = demo_audience" "bs_calls demo_seeded = 0" "bs_outbound demo_seeded = []"
  "bs_now demo_seeded = 0"
  by (simp_all add: demo_seeded_def find_blast_def demo_run recipients_of_def demo_row_def unsent_def is_pending_def)

theorem sending_blast_completes_witness:
  "blast_status ''b0'' (send_rounds demo_env ''b0'' None 1 demo_seeded) \<in> {Some BlastStatus.SENT, Some BlastStatus.FAILED}"
  using sending_blast_completes [of "''b0''" demo_seeded demo_env 1 None]
  by (simp add: blast_status_def demo_run)

end
