(* ===== verification/Blast_Faults.thy ===== *)
theory Blast_Faults
  imports Blast_Seeding Blast_Promises
begin

text \<open>
  Where the sender does what nobody meant: consent is read once, a text sent through a messaging service counts as
  failed and is sent again by a retry, a retry finishes a draft, a phone that is contactable but not addressable
  stops the whole blast, an audience is nobody's, and two overlapping runs text twice.
\<close>

section \<open>Consent is read when a blast is seeded\<close>

definition in_world :: "AudienceStore \<Rightarrow> BlastStore \<Rightarrow> BlastStore" where
  "in_world au st = st\<lparr>bs_audience := au\<rparr>"

definition blind :: "'a blast \<Rightarrow> bool" where
  "blind m \<longleftrightarrow> (\<forall>st au. m (in_world au st) = map_prod id (in_world au) (m st))"

named_theorems blind_intro

lemma blindI: "(\<And>st au. m (in_world au st) = map_prod id (in_world au) (m st)) \<Longrightarrow> blind m"
  by (simp add: blind_def)

lemma blind_monad [blind_intro]: "blind (bret x)" "blind (blift r)"
  by (simp_all add: blind_def blast_run)

lemma blind_bget: "(\<And>st au. h (in_world au st) = h st) \<Longrightarrow> blind (bget h)"
  by (simp add: blind_def blast_run)

lemma blind_bmodify: "(\<And>st au. g (in_world au st) = in_world au (g st)) \<Longrightarrow> blind (bmodify g)"
  by (simp add: blind_def blast_run)

lemma blind_bind [blind_intro]: "blind m \<Longrightarrow> (\<And>x. blind (f x)) \<Longrightarrow> blind (bbind m f)"
  by (auto simp: blind_def blast_run split: prod.split sum.split)

lemma blind_if [blind_intro]: "blind m \<Longrightarrow> blind m' \<Longrightarrow> blind (if b then m else m')"
  by simp

lemma blind_sum [blind_intro]:
  "(\<And>x. blind (f x)) \<Longrightarrow> (\<And>x. blind (g x)) \<Longrightarrow> blind (case v of Inl x \<Rightarrow> f x | Inr x \<Rightarrow> g x)"
  by (cases v) simp_all

lemma blind_prod [blind_intro]: "(\<And>x y. blind (f x y)) \<Longrightarrow> blind (case v of (x, y) \<Rightarrow> f x y)"
  by (cases v) simp

lemma in_world_reads [simp]:
  "bs_now (in_world au st) = bs_now st" "bs_blasts (in_world au st) = bs_blasts st"
  "bs_recipients (in_world au st) = bs_recipients st" "recipients_of i (in_world au st) = recipients_of i st"
  "pending_batch i k (in_world au st) = pending_batch i k st" "sent_phones i b (in_world au st) = sent_phones i b st"
  "cursor_key (in_world au st) n = cursor_key st n" "find_blast i (in_world au st) = find_blast i st"
  by (simp_all add: in_world_def recipients_of_def pending_batch_def sent_phones_def cursor_key_def find_blast_def)

lemma blind_reads [blind_intro]:
  "blind (getBlastOrThrow i)" "blind (bget bs_now)" "blind (bget (recipients_of i))" "blind (bget (pending_batch i k))"
  "blind (bget (sent_phones i b))" "blind (bget (\<lambda>st. cursor_key st n))"
  by (rule blindI; simp add: getBlastOrThrow_def blast_run split: option.split)+

lemma blind_writes [blind_intro]:
  "blind (update_blast i f)" "blind (update_recipient j g)" "blind (append_outbox e)" "blind (writeSnapshot t b m n)"
  unfolding update_blast_def update_recipient_def append_outbox_def writeSnapshot_def
  by (rule blind_bmodify; simp add: in_world_def)+

lemma blind_steps [blind_intro]:
  "blind (enqueue_blast job)" "blind (send_text env b to body c tag)" "blind (create_outbound b r m)"
  by (rule blindI; auto simp: in_world_def enqueue_blast_def send_text_def create_outbound_def split: sum.split)+

lemma blind_marks [blind_intro]:
  "blind (write_recipient env r tr f)" "blind (mark_queued env r)" "blind (mark_skipped env r s w)"
  "blind (mark_sent env r s w m)" "blind (mark_failed env r s w d t)"
  unfolding mark_queued_def mark_skipped_def mark_sent_def mark_failed_def write_recipient_def Let_def
  by (intro blind_intro)+

lemma blind_attempt [blind_intro]: "blind (send_recipient env b r s tag w d)"
  unfolding send_recipient_def by (intro blind_intro)

lemma blind_loop [blind_intro]: "blind (send_loop env b n ps rs c)"
  by (induction rs arbitrary: n ps c) (auto intro!: blind_intro)

lemma blind_status [blind_intro]: "blind (recalculateBlastStatus i)" "blind (begin_sending b)"
  "blind (enqueueBlastSendBatch i q t k)"
  unfolding recalculateBlastStatus_def begin_sending_def enqueueBlastSendBatch_def Let_def by (intro blind_intro)+

lemma seeded_blind:
  assumes "recipients_of (bl_id b) st \<noteq> []"
  shows "ensureBlastRecipientRecords env b st = (Inr (length (recipients_of (bl_id b) st)), st)"
  using assms by (simp add: ensureBlastRecipientRecords_def blast_run)

text \<open>The sender of a blast that has its recipients.\<close>

definition send_seeded :: "BlastEnv \<Rightarrow> string \<Rightarrow> rat option \<Rightarrow> SendResult blast" where
  "send_seeded env i requestedBatchSize = bbind (getBlastOrThrow i) (\<lambda>blast.
     bbind (begin_sending blast) (\<lambda>_.
     (let batchSize = getSendBatchSize env requestedBatchSize in
     bbind (bget (pending_batch i batchSize)) (\<lambda>batch.
     bbind (bget (sent_phones i batch)) (\<lambda>sentPhones.
     bbind (send_loop env blast 0 sentPhones batch \<lparr>sc_sent = 0, sc_failed = 0, sc_skipped = 0\<rparr>) (\<lambda>counts.
     bbind (recalculateBlastStatus i) (\<lambda>update.
     bbind (getBlastOrThrow i) (\<lambda>updated.
     bbind (if be_bullmq env \<and> su_remaining update > 0
            then bbind (bget (\<lambda>st. cursor_key st (su_remaining update))) (\<lambda>key.
                 enqueueBlastSendBatch i (Some (rat_of_nat batchSize)) None (Some key))
            else bret False) (\<lambda>continued.
     bbind (writeSnapshot (bl_tenantId blast) (Some i) ''sent'' (sc_sent counts)) (\<lambda>_.
     bbind (writeSnapshot (bl_tenantId blast) (Some i) ''failed'' (sc_failed counts)) (\<lambda>_.
     bret \<lparr>sr_blast = updated, sr_counts = counts, sr_remaining = su_remaining update, sr_batchSize = batchSize,
           sr_continued = continued\<rparr>)))))))))))"

lemma send_seeded_eq:
  assumes "recipients_of i st \<noteq> []"
  shows "sendNow env i q st = send_seeded env i q st"
proof (cases "find_blast i st")
  case None
  then show ?thesis by (simp add: sendNow_def send_seeded_def getBlastOrThrow_def blast_run)
next
  case (Some b)
  have id: "bl_id b = i" using find_blast_id [OF Some] by simp
  obtain res st' where started: "begin_sending b st = (res, st')" by (cases "begin_sending b st")
  have rows: "recipients_of i st' \<noteq> []"
    using assms started by (auto simp: begin_sending_def blast_run update_blast_def recipients_of_def split: if_splits sum.splits)
  have ensure: "ensureBlastRecipientRecords env b st' = (Inr (length (recipients_of i st')), st')"
    using seeded_blind [of b st'] rows id by simp
  show ?thesis
    by (cases res) (simp_all only: sendNow_def send_seeded_def bbind_run getBlastOrThrow_def Some started ensure prod.case sum.case option.case)
qed

lemma blind_send_seeded: "blind (send_seeded env i q)"
  unfolding send_seeded_def Let_def by (intro blind_intro)

text \<open>C37: Once a blast has its recipients, sending it does not read consent, suppression or audience again: whatever they
  have become, the run sends the same texts to the same phones and returns the same result.\<close>

theorem stop_after_seeding_ignored:
  assumes "recipients_of i st \<noteq> []"
  shows "sendNow env i q (in_world au st) = map_prod id (in_world au) (sendNow env i q st)"
proof -
  have "recipients_of i (in_world au st) \<noteq> []" using assms by simp
  from send_seeded_eq [OF this] send_seeded_eq [OF assms] blind_send_seeded [of env i q]
  show ?thesis by (simp add: blind_def)
qed

text \<open>The recipient says STOP between the seeding and the send.\<close>

definition stopped_audience :: AudienceStore where
  "stopped_audience = demo_audience\<lparr>ad_store := (ad_store demo_audience)\<lparr>st_db := (st_db (ad_store demo_audience))
     \<lparr>db_contactConsent := [\<lparr>cc_tenantId = ''t1'', cc_contactId = None, cc_phoneE164 = ''+61400000001'', cc_channel = ''SMS'',
        cc_state = ''OPTED_OUT''\<rparr>]\<rparr>\<rparr>\<rparr>"

theorem stop_after_seeding_ignored_witness:
  "bs_texts (snd (sendNow demo_env ''b0'' None (in_world stopped_audience demo_seeded))) =
     [\<lparr>st_blastId = ''b0'', st_phone = ''+61400000001'', st_body = ''Hi, reply STOP to opt out''\<rparr>] \<and>
   \<not> canSend (getState (consent_rows (in_world stopped_audience demo_seeded)) ''t1'' ''+61400000001'' ''SMS'') Sms"
proof -
  have "recipients_of ''b0'' demo_seeded \<noteq> []" by (simp add: demo_run)
  note same = stop_after_seeding_ignored [OF this, of demo_env None stopped_audience]
  have "bs_texts (snd (sendNow demo_env ''b0'' None demo_seeded)) =
     [\<lparr>st_blastId = ''b0'', st_phone = ''+61400000001'', st_body = ''Hi, reply STOP to opt out''\<rparr>]"
    by (simp add: demo_unfold demo_seeded_def demo_row_def demo_run)
  then have "bs_texts (snd (sendNow demo_env ''b0'' None (in_world stopped_audience demo_seeded))) =
     [\<lparr>st_blastId = ''b0'', st_phone = ''+61400000001'', st_body = ''Hi, reply STOP to opt out''\<rparr>]"
    unfolding same by (simp add: in_world_def)
  moreover have "\<not> canSend (getState (consent_rows (in_world stopped_audience demo_seeded)) ''t1'' ''+61400000001'' ''SMS'') Sms"
    by (simp add: consent_rows_def in_world_def stopped_audience_def getState_def find_consent_def consent_key_def canSend_def)
  ultimately show ?thesis by blast
qed

section \<open>A text the sender forgets\<close>

lemma outbound_unnamed: "tm_from m = None \<Longrightarrow> \<exists>e. outbound_row b r m = Inl e"
proof -
  assume "tm_from m = None"
  moreover have "normalizePhoneE164 [] = Inl (apiHttpException ''INVALID_PHONE'' None)" by code_simp
  ultimately show ?thesis by (cases "normalizePhoneE164 (str_or_empty (tm_to m))") (auto simp: outbound_row_def str_or_empty_def)
qed

lemma text_taken:
  assumes "\<not> be_dryRun env" "sendOptionsFor env b c = Inr opts" "be_twilio env (bs_calls st) to body opts = Inr m"
  shows "send_text env b to body c tag st = (Inr (Inr m), st\<lparr>bs_calls := bs_calls st + 1,
    bs_texts := bs_texts st @ [\<lparr>st_blastId = bl_id b, st_phone = to, st_body = body\<rparr>]\<rparr>)"
  using assms by (simp add: send_text_def)

lemma filter_write_row:
  "keeps_identity g \<Longrightarrow> filter (\<lambda>x. rc_id x = i) (write_row i g rows) = map g (filter (\<lambda>x. rc_id x = i) rows)"
  by (induction rows) (auto simp: write_row_def keeps_identity_def)

text \<open>C38: A text whose provider answer names no sender, as when it goes out through a messaging service, is taken by the
  provider and yet recorded as failed, with no message row to match its replies; and a retry of that failed
  recipient sends the person the same text again.\<close>

theorem unnamed_sender_texts_twice:
  assumes "\<not> be_dryRun env" "sendOptionsFor env b (extractRecipientContext (rc_metadata r)) = Inr opts"
    "\<And>n. \<exists>m. be_twilio env n (rc_phoneE164 r) (rc_renderedBody r) opts = Inr m \<and> tm_from m = None"
    "filter (\<lambda>x. rc_id x = rc_id r) (bs_recipients st) = [r]"
  shows "\<exists>m e st1 r1 st2. send_recipient env b r source tag why d st = (Inr (Some m, Some e), st1) \<and>
    filter (\<lambda>x. rc_id x = rc_id r) (bs_recipients st1) = [r1] \<and> rc_status r1 = BlastRecipientStatus.FAILED \<and>
    bs_outbound st1 = bs_outbound st \<and> retry_one env b r1 st1 = (Inr True, st2) \<and>
    bs_texts st2 = bs_texts st @ [text_of b r, text_of b r]"
proof -
  obtain m where m: "be_twilio env (bs_calls st) (rc_phoneE164 r) (rc_renderedBody r) opts = Inr m" "tm_from m = None"
    using assms(3) by blast
  obtain e where e: "outbound_row b r m = Inl e" using outbound_unnamed [OF m(2)] by blast
  let ?why = "be_errorText env e"
  let ?sent = "sent_row env r source (accepted_reason env) m (bs_now st)"
  let ?failed = "failed_row env r source why d ?why (bs_now st)"
  let ?r1 = "?failed (?sent r)"
  let ?st1 = "st\<lparr>bs_calls := bs_calls st + 1, bs_texts := bs_texts st @ [text_of b r],
    bs_recipients := write_row (rc_id r) ?failed (write_row (rc_id r) ?sent (bs_recipients st))\<rparr>"
  have run: "send_recipient env b r source tag why d st = (Inr (Some m, Some ?why), ?st1)"
    using text_taken [OF assms(1,2) m(1), of tag] by (simp add: send_recipient_def blast_run create_outbound_def e text_of_def)
  have keep: "keeps_identity ?sent" "keeps_identity ?failed" by (rule settles_keeps, simp)+
  have row: "filter (\<lambda>x. rc_id x = rc_id r) (bs_recipients ?st1) = [?r1]"
    by (simp add: filter_write_row keep assms(4))
  have r1: "rc_status ?r1 = BlastRecipientStatus.FAILED" "rc_phoneE164 ?r1 = rc_phoneE164 r"
    "rc_renderedBody ?r1 = rc_renderedBody r" "extractRecipientContext (rc_metadata ?r1) = extractRecipientContext (rc_metadata r)"
    by (simp_all add: failed_row_def sent_row_def Let_def)
  obtain m' where "be_twilio env (bs_calls ?st1) (rc_phoneE164 ?r1) (rc_renderedBody ?r1) opts = Inr m'"
    using assms(3) [of "bs_calls ?st1"] by (auto simp only: r1)
  from text_taken [OF assms(1) _ this] assms(2)
  obtain st2 where "retry_one env b ?r1 ?st1 = (Inr True, st2)" "bs_texts st2 = bs_texts st @ [text_of b r, text_of b r]"
    by (simp add: retry_one_def blast_run r1 text_of_def)
  moreover have "bs_outbound ?st1 = bs_outbound st" by simp
  ultimately show ?thesis using run row r1(1) by blast
qed

definition unnamed_env :: BlastEnv where
  "unnamed_env = demo_env\<lparr>be_twilio := (\<lambda>n to body opts. Inr (demo_message n to body None))\<rparr>"

theorem unnamed_sender_texts_twice_witness:
  "\<exists>m e st1 r1 st2. send_recipient unnamed_env demo_blast demo_row ''send_now'' ''t'' ''w'' True demo_seeded = (Inr (Some m, Some e), st1) \<and>
     rc_status r1 = BlastRecipientStatus.FAILED \<and> retry_one unnamed_env demo_blast r1 st1 = (Inr True, st2) \<and> length (bs_texts st2) = 2"
proof -
  have options: "sendOptionsFor unnamed_env demo_blast (extractRecipientContext (rc_metadata demo_row)) =
      Inr (buildSendOptions unnamed_env demo_blast (extractRecipientContext (rc_metadata demo_row)) None)"
    by (simp add: sendOptionsFor_def unnamed_env_def demo_env_def)
  have dry: "\<not> be_dryRun unnamed_env" by (simp add: unnamed_env_def demo_run)
  have row: "filter (\<lambda>x. rc_id x = rc_id demo_row) (bs_recipients demo_seeded) = [demo_row]" by (simp add: demo_run)
  have "bs_texts demo_seeded = []" by (simp add: demo_run)
  with unnamed_sender_texts_twice [OF dry options _ row, of "''send_now''" "''t''" "''w''" True]
  show ?thesis by (simp add: unnamed_env_def demo_message_def) (metis length_Cons list.size(3) numeral_2_eq_2)
qed

section \<open>A draft that a retry finishes\<close>

text \<open>Retrying the failures of a blast that was never sent marks it sent although nobody was texted, and from then on
  sending it is refused as an invalid transition.\<close>

lemma retry_finishes_draft:
  assumes "find_blast i st = Some b" "recipients_of i st = []"
  shows "\<exists>st'. retryFailed env i st = (Inr 0, st') \<and> blast_status i st' = Some BlastStatus.SENT \<and> bs_texts st' = bs_texts st \<and>
    sendNow env i q st' = (Inl (apiHttpException ''INVALID_BLAST_TRANSITION'' (Some 409)), st')"
proof -
  obtain u st' where run: "recalculateBlastStatus i st = (Inr u, st')" "blast_status i st' = Some BlastStatus.SENT"
    "bs_texts st' = bs_texts st"
    by (rule recalculate_run [OF assms(1)]) (use assms(2) in \<open>auto simp: internal_failures_def status_of_def\<close>)
  then obtain b' where b': "find_blast i st' = Some b'" "bl_status b' = BlastStatus.SENT" by (auto simp: blast_status_def)
  have "retryFailed env i st = (Inr 0, st')"
    using assms run(1) by (simp add: retryFailed_def blast_run getBlastOrThrow_def failed_batch_def)
  moreover have "sendNow env i q st' = (Inl (apiHttpException ''INVALID_BLAST_TRANSITION'' (Some 409)), st')"
    using b' by (simp add: sendNow_def blast_run getBlastOrThrow_def begin_sending_def assertValidBlastTransition_def)
  ultimately show ?thesis using run(2,3) by blast
qed

lemma retry_finishes_draft_witness:
  "\<exists>st'. retryFailed demo_env ''b0'' demo_drafted = (Inr 0, st') \<and> blast_status ''b0'' st' = Some BlastStatus.SENT"
proof -
  have "find_blast ''b0'' demo_drafted = Some demo_blast" "recipients_of ''b0'' demo_drafted = []"
    by (simp_all add: find_blast_def recipients_of_def demo_run)
  from retry_finishes_draft [OF this] show ?thesis by blast
qed

section \<open>Somebody else's audience\<close>

lemma demo_resolve_any:
  "resolvePhoneRecipients env demo_audience t ''a1'' = Inr ([demo_recipient], demo_audience)"
  by (simp add: resolvePhoneRecipients_def is_opt_in_audience_def demo_audience_def empty_audience_def Let_def
      loadDynamicSegments_def dedup_def contactable_rows_def demo_contact_def contactable_flag_def or_empty_def tvals_def
      demo_strings demo_recipient_def)

lemma demo_recipients_any:
  assumes "bs_audience st = demo_audience" "bl_audienceId b = Some ''a1''" "bl_channel b = Sms"
  shows "getBlastRecipients demo_env b st = (Inr [demo_recipient], st)"
proof -
  have same: "st\<lparr>bs_audience := demo_audience\<rparr> = st" using assms(1) by (metis BlastStore.surjective BlastStore.update_convs(9))
  have "sendable s t Sms ps p" if "bs_audience s = demo_audience" for s t ps p
    using that by (simp add: sendable_def consent_rows_def demo_no_consent getStatesForPhones_def canSend_def)
  with assms same show ?thesis
    by (simp add: getBlastRecipients_def blast_run with_audience_def demo_resolve_any Let_def)
qed

text \<open>A blast takes any audience id that exists: a workspace that names another workspace's audience of plain contacts
  drafts it, sends it, and texts the other workspace's contacts, whose own consent records it never reads.\<close>

lemma foreign_audience_texted:
  "au_tenantId ` set (ad_audiences demo_audience) = {''t1''} \<and> ac_tenantId ` set (ad_contacts demo_audience) = {''t1''} \<and>
   bs_texts (run_ops demo_env [World demo_audience, Draft ''t2'' demo_draft, Send ''t2'' ''b0''] empty_blasts) =
     [\<lparr>st_blastId = ''b0'', st_phone = ''+61400000001'', st_body = ''Hi, reply STOP to opt out''\<rparr>]"
proof -
  let ?b = "demo_blast\<lparr>bl_tenantId := ''t2''\<rparr>"
  define st where "st = run_ops demo_env [World demo_audience, Draft ''t2'' demo_draft] empty_blasts"
  have st: "bs_blasts st = [?b]" "bs_audience st = demo_audience" "bs_texts st = []" "bs_recipients st = []"
    "bs_outbound st = []" "bs_nextId st = 1" "bs_calls st = 0" "bs_now st = 0"
    by (simp_all add: st_def run_ops_def createDraft_def demo_draft_def audience_exists_def demo_audience_def
        empty_blasts_def or_null_def Let_def demo_strings demo_blast_def)
  have "bs_texts (run_op demo_env (Send ''t2'' ''b0'') st) =
     [\<lparr>st_blastId = ''b0'', st_phone = ''+61400000001'', st_body = ''Hi, reply STOP to opt out''\<rparr>]"
    by (simp add: demo_unfold st demo_recipients_any demo_run)
  then show ?thesis
    by (simp add: st_def run_ops_def demo_audience_def demo_contact_def)
qed

section \<open>A phone that stops the blast\<close>

lemma seed_rows_error:
  "m \<in> set ms \<Longrightarrow> normalizePhoneE164 (ar_phoneE164 m) = Inl e \<Longrightarrow> \<exists>e'. seed_rows env b now ms = Inl e'"
proof (induction ms)
  case (Cons x xs)
  show ?case
  proof (cases "seed_row env b now x")
    case (Inr r)
    with Cons have "m \<in> set xs" by (auto simp: seed_row_def)
    with Cons Inr show ?thesis by auto
  qed simp
qed simp

text \<open>One member whose phone counts as contactable but is too short to be addressed stops the whole blast: the run fails
  before anybody is seeded or texted, and leaves the blast sending, so that every later run meets the same end.\<close>

lemma short_phone_stops_blast:
  assumes "find_blast i st = Some b" "bl_status b = BlastStatus.SENDING" "recipients_of i st = []"
    "getBlastRecipients env b st = (Inr ms, st')" "m \<in> set ms" "normalizePhoneE164 (ar_phoneE164 m) = Inl e"
  shows "\<exists>e'. sendNow env i q st = (Inl e', st') \<and> blast_status i st' = Some BlastStatus.SENDING \<and>
    recipients_of i st' = [] \<and> bs_texts st' = bs_texts st"
proof -
  obtain e' where e': "seed_rows env b (bs_now st') ms = Inl e'" using seed_rows_error [OF assms(5,6)] by blast
  have same: "bs_blasts st' = bs_blasts st" "bs_recipients st' = bs_recipients st" "bs_texts st' = bs_texts st"
    using assms(4) by (auto simp: getBlastRecipients_def blast_run with_audience_def Let_def split: option.splits if_splits sum.splits)
  have "bl_id b = i" using find_blast_id [OF assms(1)] by simp
  then have "ensureBlastRecipientRecords env b st = (Inl e', st')"
    using assms(3,4) e' by (simp add: ensureBlastRecipientRecords_def blast_run)
  then have "sendNow env i q st = (Inl e', st')"
    using assms(1,2) by (simp add: sendNow_def blast_run getBlastOrThrow_def begin_sending_def)
  then show ?thesis using assms(1-3) same by (simp add: blast_status_def find_blast_def recipients_of_def)
qed

definition short_audience :: AudienceStore where
  "short_audience = demo_audience\<lparr>ad_contacts := [demo_contact ''a1'' ''t1'' ''+6140000'']\<rparr>"

definition short_seeded :: BlastStore where
  "short_seeded = demo_drafted\<lparr>bs_blasts := [demo_blast\<lparr>bl_status := BlastStatus.SENDING\<rparr>], bs_audience := short_audience\<rparr>"

lemma short_phone_stops_blast_witness:
  "isContactable ''+6140000'' None \<and> (\<exists>e' st'. sendNow demo_env ''b0'' None short_seeded = (Inl e', st') \<and> bs_texts st' = [])"
proof -
  let ?m = "\<lparr>ar_contactId = None, ar_phoneE164 = ''+6140000'', ar_metadata = JObj []\<rparr>"
  have phones: "isContactable ''+6140000'' None" "normalizePhoneE164 ''+6140000'' = Inl (apiHttpException ''INVALID_PHONE'' None)"
    by code_simp+
  have "resolvePhoneRecipients env short_audience t ''a1'' = Inr ([?m], short_audience)" for env t
    by (simp add: resolvePhoneRecipients_def is_opt_in_audience_def demo_audience_def short_audience_def empty_audience_def Let_def
        loadDynamicSegments_def dedup_def contactable_rows_def demo_contact_def contactable_flag_def or_empty_def tvals_def phones)
  moreover have "sendable s t Sms ps p" if "bs_audience s = short_audience" for s t ps p
    using that by (simp add: sendable_def consent_rows_def short_audience_def demo_no_consent getStatesForPhones_def canSend_def)
  ultimately have members: "getBlastRecipients demo_env (demo_blast\<lparr>bl_status := BlastStatus.SENDING\<rparr>) short_seeded = (Inr [?m], short_seeded)"
    by (simp add: getBlastRecipients_def blast_run with_audience_def Let_def short_seeded_def demo_run)
  have "find_blast ''b0'' short_seeded = Some (demo_blast\<lparr>bl_status := BlastStatus.SENDING\<rparr>)" "recipients_of ''b0'' short_seeded = []"
    "bs_texts short_seeded = []"
    by (simp_all add: short_seeded_def find_blast_def recipients_of_def demo_run)
  with short_phone_stops_blast [OF this(1) _ this(2) members, of ?m _ None] phones show ?thesis by auto
qed

section \<open>Overlapping runs\<close>

definition accepts_all :: "BlastEnv \<Rightarrow> Blast \<Rightarrow> bool" where
  "accepts_all env b \<longleftrightarrow> \<not> be_dryRun env \<and> (\<forall>c. \<exists>o'. sendOptionsFor env b c = Inr o') \<and>
     (\<forall>n to body o'. \<exists>m. be_twilio env n to body o' = Inr m) \<and> (\<forall>n. be_elapsed env n < getSendTimeBudgetMs env)"

lemma attempt_texts:
  assumes "accepts_all env b"
  shows "\<exists>m fail st'. send_recipient env b r s tag w d st = (Inr (Some m, fail), st') \<and> bs_texts st' = bs_texts st @ [text_of b r]"
proof -
  obtain opts where o': "sendOptionsFor env b (extractRecipientContext (rc_metadata r)) = Inr opts" using assms unfolding accepts_all_def by blast
  obtain m where m: "be_twilio env (bs_calls st) (rc_phoneE164 r) (rc_renderedBody r) opts = Inr m" using assms unfolding accepts_all_def by blast
  have "\<not> be_dryRun env" using assms by (simp add: accepts_all_def)
  from text_taken [OF this o' m, of tag] show ?thesis
    by (cases "outbound_row b r m") (simp_all add: send_recipient_def blast_run create_outbound_def text_of_def)
qed

lemma loop_texts:
  assumes "accepts_all env b" "distinct (map rc_phoneE164 rs)" "rc_phoneE164 ` set rs \<inter> set ps = {}"
  shows "\<exists>c' st'. send_loop env b n ps rs c st = (Inr c', st') \<and> bs_texts st' = bs_texts st @ map (text_of b) rs"
  using assms(2,3)
proof (induction rs arbitrary: n ps c st)
  case (Cons r rs)
  obtain st0 where queued: "mark_queued env r st = (Inr (), st0)" "bs_texts st0 = bs_texts st" by (simp add: mark_queued_def blast_run)
  obtain m fail st1 where st1: "send_recipient env b r ''send_now'' (''send-'' @ rc_id r) send_failed_reason True st0 = (Inr (Some m, fail), st1)"
    "bs_texts st1 = bs_texts st0 @ [text_of b r]" using attempt_texts [OF assms(1)] by blast
  have "rc_phoneE164 ` set rs \<inter> set (rc_phoneE164 r # ps) = {}" "distinct (map rc_phoneE164 rs)" using Cons.prems by auto
  from Cons.IH [OF this(2,1)] obtain c' st' where
    "send_loop env b (n + 1) (rc_phoneE164 r # ps) rs (c\<lparr>sc_sent := sc_sent c + 1, sc_failed := sc_failed c + (if fail \<noteq> None then 1 else 0)\<rparr>) st1 = (Inr c', st')"
    "bs_texts st' = bs_texts st1 @ map (text_of b) rs" by blast
  moreover have "\<not> getSendTimeBudgetMs env \<le> be_elapsed env n" using assms(1) by (simp add: accepts_all_def not_le)
  moreover have "rc_phoneE164 r \<notin> set ps" using Cons.prems by auto
  ultimately show ?case using queued st1 by (simp add: bbind_run)
qed (simp add: blast_run)

text \<open>Runs do not exclude each other: when two runs have read the same batch before either wrote, as a request and the
  cron may, each texts the whole batch, and every person in it gets the text twice.\<close>

lemma overlapping_runs_text_twice:
  assumes "accepts_all env b" "distinct (map rc_phoneE164 batch)" "rc_phoneE164 ` set batch \<inter> set sentPhones = {}"
  shows "\<exists>c1 st1 c2 st2. send_loop env b 0 sentPhones batch c st = (Inr c1, st1) \<and>
    send_loop env b 0 sentPhones batch c st1 = (Inr c2, st2) \<and>
    bs_texts st2 = bs_texts st @ map (text_of b) batch @ map (text_of b) batch"
proof -
  obtain c1 st1 where first: "send_loop env b 0 sentPhones batch c st = (Inr c1, st1)" "bs_texts st1 = bs_texts st @ map (text_of b) batch"
    using loop_texts [OF assms] by blast
  obtain c2 st2 where "send_loop env b 0 sentPhones batch c st1 = (Inr c2, st2)" "bs_texts st2 = bs_texts st1 @ map (text_of b) batch"
    using loop_texts [OF assms] by blast
  with first show ?thesis by auto
qed

lemma overlapping_runs_text_twice_witness:
  "\<exists>c1 st1 c2 st2. send_loop demo_env demo_blast 0 [] [demo_row] \<lparr>sc_sent = 0, sc_failed = 0, sc_skipped = 0\<rparr> demo_seeded = (Inr c1, st1) \<and>
     send_loop demo_env demo_blast 0 [] [demo_row] \<lparr>sc_sent = 0, sc_failed = 0, sc_skipped = 0\<rparr> st1 = (Inr c2, st2) \<and> length (bs_texts st2) = 2"
proof -
  have "accepts_all demo_env demo_blast" by (simp add: accepts_all_def demo_run)
  note twice = overlapping_runs_text_twice [OF this, of "[demo_row]" "[]" "\<lparr>sc_sent = 0, sc_failed = 0, sc_skipped = 0\<rparr>" demo_seeded]
  then obtain c1 st1 c2 st2 where run: "send_loop demo_env demo_blast 0 [] [demo_row] \<lparr>sc_sent = 0, sc_failed = 0, sc_skipped = 0\<rparr> demo_seeded = (Inr c1, st1)"
    "send_loop demo_env demo_blast 0 [] [demo_row] \<lparr>sc_sent = 0, sc_failed = 0, sc_skipped = 0\<rparr> st1 = (Inr c2, st2)"
    "bs_texts st2 = bs_texts demo_seeded @ map (text_of demo_blast) [demo_row] @ map (text_of demo_blast) [demo_row]"
    by auto
  have "length (bs_texts st2) = 2" unfolding run(3) by (simp add: demo_run)
  with run(1,2) show ?thesis by blast
qed

end
