(* ===== verification/Blast_Rows.thy ===== *)
theory Blast_Rows
  imports Blast_Life
begin

text \<open>
  The shape of the rows a workspace's blasts leave behind, whatever operations ran, retries included: phones are in
  the international format, and the columns a status promises are set. Every message row is an SMS row, whatever
  channel its blast used.
\<close>

definition row_typed :: "BlastRecipient \<Rightarrow> bool" where
  "row_typed r \<longleftrightarrow> plus_digits 8 15 (rc_phoneE164 r) \<and>
     (rc_twilioMessageSid r \<noteq> None \<longrightarrow> rc_sentAt r \<noteq> None) \<and>
     (rc_status r \<in> {BlastRecipientStatus.SENT, BlastRecipientStatus.DELIVERED, BlastRecipientStatus.READ} \<longrightarrow>
        rc_twilioMessageSid r \<noteq> None) \<and>
     (rc_status r \<in> {BlastRecipientStatus.DELIVERED, BlastRecipientStatus.READ} \<longrightarrow> rc_deliveredAt r \<noteq> None) \<and>
     (rc_status r = BlastRecipientStatus.RESPONDED \<longrightarrow> rc_respondedAt r \<noteq> None) \<and>
     (rc_status r \<in> {BlastRecipientStatus.FAILED, BlastRecipientStatus.UNDELIVERED, BlastRecipientStatus.SKIPPED} \<longrightarrow>
        rc_failureCategory r \<noteq> None) \<and>
     (rc_status r = BlastRecipientStatus.SKIPPED \<and> rc_twilioMessageSid r = None \<longrightarrow>
        rc_failureCategory r = Some ''EXTERNAL_DUPLICATE_RECIPIENT'' \<and> rc_errorMessage r = Some SKIPPED_DUPLICATE_ERROR)"

definition message_typed :: "OutboundMessage \<Rightarrow> bool" where
  "message_typed m \<longleftrightarrow> ou_channel m = Sms \<and> \<not> ou_transactional m \<and> ou_recipientId m \<noteq> None \<and>
     ou_twilioMessageSid m \<noteq> None \<and> plus_digits 8 15 (ou_toPhone m) \<and> plus_digits 8 15 (ou_fromPhone m) \<and>
     ou_status m \<in> {BlastRecipientStatus.SENT, BlastRecipientStatus.DELIVERED, BlastRecipientStatus.READ,
       BlastRecipientStatus.FAILED, BlastRecipientStatus.UNDELIVERED}"

definition rows_typed :: "BlastStore \<Rightarrow> bool" where
  "rows_typed st \<longleftrightarrow> (\<forall>r\<in>set (bs_recipients st). row_typed r) \<and> (\<forall>m\<in>set (bs_outbound st). message_typed m)"

lemma row_typed_other [simp]:
  "row_typed (r\<lparr>rc_assigneeId := a\<rparr>) = row_typed r" "row_typed (r\<lparr>rc_assignedAt := t\<rparr>) = row_typed r"
  "row_typed (r\<lparr>rc_metadata := m\<rparr>) = row_typed r"
  by (simp_all add: row_typed_def)

lemma normalized_digits: "normalizePhoneE164 s = Inr p \<Longrightarrow> plus_digits 8 15 p"
  by (auto simp: normalizePhoneE164_def Let_def split: if_splits)

section \<open>Writes that keep the shape\<close>

lemma typed_update [keeps_intro]:
  assumes "\<And>r. row_typed r \<Longrightarrow> row_typed (f r)"
  shows "keeps rows_typed (update_recipient i f)"
  unfolding update_recipient_def by (rule keeps_modify) (use assms in \<open>auto simp: rows_typed_def\<close>)

lemma typed_same [keeps_intro]:
  "(\<And>st. bs_recipients (g st) = bs_recipients st \<and> bs_outbound (g st) = bs_outbound st) \<Longrightarrow> keeps rows_typed (bmodify g)"
  by (rule keeps_modify) (simp add: rows_typed_def)

lemma typed_row_ops [keeps_intro]:
  "keeps rows_typed (mark_queued env r)" "keeps rows_typed (mark_skipped env r s w)"
  "keeps rows_typed (mark_sent env r s w m)" "keeps rows_typed (mark_failed env r s w d t)"
  unfolding mark_queued_def mark_skipped_def mark_sent_def mark_failed_def write_recipient_def Let_def
  by (intro keeps_intro; simp add: row_typed_def)+

lemma typed_other_ops [keeps_intro]:
  "keeps rows_typed (update_blast i g)" "keeps rows_typed (append_outbox e)" "keeps rows_typed (writeSnapshot t b k n)"
  unfolding update_blast_def append_outbox_def writeSnapshot_def by (intro keeps_intro; simp)+

lemma typed_stores [keeps_intro]:
  "keeps rows_typed (enqueue_blast job)" "keeps rows_typed (with_audience h)" "keeps rows_typed (send_text env b to body c tag)"
  by (rule keepsI;
      auto simp: rows_typed_def enqueue_blast_def with_audience_def send_text_def split: sum.split)+

lemma typed_enqueue [keeps_intro]:
  "keeps rows_typed (enqueueBlastSendBatch b q t k)" "keeps rows_typed (enqueueBlastRetryFailed b)"
  unfolding enqueueBlastSendBatch_def enqueueBlastRetryFailed_def by (intro keeps_intro)+

lemma outbound_row_typed: "outbound_row b r m = Inr row \<Longrightarrow> message_typed row"
  by (auto simp: outbound_row_def rbind_Inr_iff message_typed_def dest: normalized_digits)

lemma typed_outbound [keeps_intro]: "keeps rows_typed (create_outbound b r m)"
  by (rule keepsI) (auto simp: rows_typed_def create_outbound_def dest: outbound_row_typed split: sum.split)

lemma keeps_sum [keeps_intro]:
  "(\<And>x. keeps P (f x)) \<Longrightarrow> (\<And>x. keeps P (g x)) \<Longrightarrow> keeps P (case v of Inl x \<Rightarrow> f x | Inr x \<Rightarrow> g x)"
  by (cases v) simp_all

lemma keeps_prod [keeps_intro]: "(\<And>x y. keeps P (f x y)) \<Longrightarrow> keeps P (case v of (x, y) \<Rightarrow> f x y)"
  by (cases v) simp

section \<open>Operations\<close>

lemma typed_send_recipient [keeps_intro]: "keeps rows_typed (send_recipient env b r s tag w d)"
  unfolding send_recipient_def by (intro keeps_intro)

lemma typed_send_loop [keeps_intro]: "keeps rows_typed (send_loop env b n ps rs c)"
  by (induction rs arbitrary: n ps c) (auto intro!: keeps_intro simp del: send_loop.simps(2) simp: send_loop.simps)

lemma typed_recalculate [keeps_intro]: "keeps rows_typed (recalculateBlastStatus i)" "keeps rows_typed (begin_sending b)"
  unfolding recalculateBlastStatus_def begin_sending_def Let_def by (intro keeps_intro)+

lemma seed_row_typed: "seed_row env b now r = Inr mk \<Longrightarrow> row_typed (mk i)"
  unfolding seed_row_def rbind_Inr_iff Let_def
  by (elim exE conjE, drule normalized_digits) (auto simp: row_typed_def)

lemma seed_rows_typed: "seed_rows env b now rs = Inr mks \<Longrightarrow> \<forall>mk\<in>set mks. \<forall>i. row_typed (mk i)"
proof (induction rs arbitrary: mks)
  case (Cons r rs)
  then obtain x xs where "seed_row env b now r = Inr x" "seed_rows env b now rs = Inr xs" "mks = x # xs"
    by (auto simp: rbind_Inr_iff)
  with Cons.IH seed_row_typed show ?case by simp
qed simp

lemma create_many_typed: "\<forall>mk\<in>set mks. \<forall>i. row_typed (mk i) \<Longrightarrow> rows_typed st \<Longrightarrow> rows_typed (create_many mks st)"
proof (induction mks arbitrary: st)
  case (Cons mk mks)
  let ?row = "mk (recipient_id (bs_nextId st))"
  have "rows_typed (if recipient_key ?row \<in> recipient_key ` set (bs_recipients st) then st
      else st\<lparr>bs_recipients := bs_recipients st @ [?row], bs_nextId := bs_nextId st + 1\<rparr>)"
    using Cons.prems by (simp add: rows_typed_def ball_Un)
  from Cons.IH [OF _ this] Cons.prems(1) show ?case by (simp only: create_many.simps Let_def list.set insert_iff) blast
qed simp

lemma typed_ensure [keeps_intro]: "keeps rows_typed (ensureBlastRecipientRecords env b)"
proof -
  have seed: "keeps rows_typed (bbind (blift (seed_rows env b now ms)) (\<lambda>rows. bbind (bmodify (create_many rows)) (\<lambda>_.
      bget (\<lambda>st. length (recipients_of (bl_id b) st)))))" for now ms
  proof (cases "seed_rows env b now ms")
    case (Inr mks)
    from create_many_typed [OF seed_rows_typed [OF this]] show ?thesis by (simp add: Inr keeps_def blast_run)
  qed (simp add: keeps_def blast_run)
  have members: "keeps rows_typed (getBlastRecipients env b)"
    unfolding getBlastRecipients_def Let_def by (intro keeps_intro)
  show ?thesis
    unfolding ensureBlastRecipientRecords_def
    by (intro keeps_bind [OF keeps_monad(3)] keeps_if keeps_monad keeps_bind [OF members] seed)
qed

lemma typed_send [keeps_intro]: "keeps rows_typed (sendNow env i q)"
  unfolding sendNow_def Let_def by (intro keeps_intro)

lemma typed_attempt [keeps_intro]: "keeps P m \<Longrightarrow> keeps P (battempt m)"
  by (simp add: keeps_def battempt_def case_prod_beta)

lemma typed_dispatch_loop [keeps_intro]: "keeps rows_typed (dispatch_loop env q bs rs)"
  by (induction bs arbitrary: rs) (auto intro!: keeps_intro)

lemma typed_retry_one [keeps_intro]: "keeps rows_typed (retry_one env b r)"
  unfolding retry_one_def write_recipient_def by (intro keeps_intro) (simp add: row_typed_def)

lemma typed_retry_loop [keeps_intro]: "keeps rows_typed (retry_loop env b n rs k)"
  by (induction rs arbitrary: n k) (auto intro!: keeps_intro)

lemma typed_retry [keeps_intro]: "keeps rows_typed (retryFailed env i)"
  unfolding retryFailed_def by (intro keeps_intro)

lemma typed_claim: "keeps rows_typed (claim_initial a i n)"
  by (rule keepsI) (auto simp: claim_initial_def Let_def rows_typed_def)

lemma confirm_fields:
  assumes "confirm_recipient env sid status now r = Some r'"
  shows "rc_phoneE164 r' = rc_phoneE164 r" "rc_twilioMessageSid r' = rc_twilioMessageSid r" "rc_sentAt r' = rc_sentAt r"
    "rc_respondedAt r' = rc_respondedAt r" "rc_failureCategory r' = rc_failureCategory r" "rc_deliveredAt r' \<noteq> None"
    "rc_status r' = (if rc_status r \<in> set SEND_PHASE_RECIPIENT_STATUSES then confirmed_status status else rc_status r)"
  using assms unfolding confirm_recipient_def Let_def by (auto split: if_split_asm)

lemma fail_fields:
  assumes "fail_recipient env sid status code msg now r = Some r'"
  shows "rc_phoneE164 r' = rc_phoneE164 r" "rc_twilioMessageSid r' = rc_twilioMessageSid r" "rc_sentAt r' = rc_sentAt r"
    "rc_respondedAt r' = rc_respondedAt r" "rc_failureCategory r' \<noteq> None" "rc_deliveredAt r' = rc_deliveredAt r"
    "rc_status r' = (if rc_status r \<in> set FAILED_TRANSITIONABLE_STATUSES then failed_status status else rc_status r)"
  using assms unfolding fail_recipient_def Let_def by (simp_all split: if_split_asm) (auto split: if_split_asm)

lemma callback_recipient_typed:
  assumes "row_typed r" "rc_twilioMessageSid r = Some sid" "callback_recipient env sid status code msg now r = Some r'"
  shows "row_typed r'"
proof -
  consider "confirm_recipient env sid status now r = Some r'" | "fail_recipient env sid status code msg now r = Some r'"
    using assms(3) by (auto simp: callback_recipient_def split: if_split_asm)
  then show ?thesis
  proof cases
    case 1
    show ?thesis
      using assms(1,2) confirm_fields(6) [OF 1]
      by (cases "rc_status r") (simp_all add: row_typed_def confirm_fields(1-5,7) [OF 1] SEND_PHASE_RECIPIENT_STATUSES_def confirmed_status_def)
  next
    case 2
    show ?thesis
      using assms(1,2) fail_fields(5) [OF 2]
      by (cases "rc_status r") (simp_all add: row_typed_def fail_fields(1-4,6,7) [OF 2] FAILED_TRANSITIONABLE_STATUSES_def failed_status_def)
  qed
qed

lemma callback_message_fields:
  assumes "\<not> ou_transactional m" "callback_outbound status code msg m = Some m'"
  shows "ou_channel m' = ou_channel m" "\<not> ou_transactional m'" "ou_recipientId m' = ou_recipientId m"
    "ou_twilioMessageSid m' = ou_twilioMessageSid m" "ou_toPhone m' = ou_toPhone m" "ou_fromPhone m' = ou_fromPhone m"
    "ou_status m' \<in> {ou_status m, confirmed_status status, failed_status status}"
  using assms unfolding callback_outbound_def callback_marketing_def Let_def by (simp_all split: if_split_asm) auto

lemma callback_message_typed:
  assumes "message_typed m" "callback_outbound status code msg m = Some m'"
  shows "message_typed m'"
proof -
  have "\<not> ou_transactional m" using assms(1) by (simp add: message_typed_def)
  note same = callback_message_fields [OF this assms(2)]
  have "confirmed_status status \<in> {BlastRecipientStatus.DELIVERED, BlastRecipientStatus.READ}"
    "failed_status status \<in> {BlastRecipientStatus.FAILED, BlastRecipientStatus.UNDELIVERED}"
    by (simp_all add: confirmed_status_def failed_status_def)
  with same(7) assms(1) show ?thesis by (auto simp: message_typed_def same(1-6))
qed

lemma typed_recalculate_all [keeps_intro]: "keeps rows_typed (recalculate_all is us)"
  by (induction "is" arbitrary: us) (auto intro!: keeps_intro)

lemma typed_apply_callback: "keeps rows_typed (applyTwilioStatusCallback env p)"
proof -
  have rows: "rows_typed (st\<lparr>
      bs_recipients := apply_where (\<lambda>r. rc_twilioMessageSid r = Some sid) (callback_recipient env sid status code msg now) (bs_recipients st),
      bs_outbound := apply_where (\<lambda>m. ou_twilioMessageSid m = Some sid) (callback_outbound status code msg) (bs_outbound st)\<rparr>)"
    if "rows_typed st" for st sid status code msg now
  proof -
    have "row_typed (case callback_recipient env sid status code msg now r of None \<Rightarrow> r | Some r' \<Rightarrow> r')"
      if "r \<in> set (bs_recipients st)" "rc_twilioMessageSid r = Some sid" for r
      using callback_recipient_typed [OF _ that(2)] that(1) \<open>rows_typed st\<close> by (auto simp: rows_typed_def split: option.split)
    moreover have "message_typed (case callback_outbound status code msg m of None \<Rightarrow> m | Some m' \<Rightarrow> m')"
      if "m \<in> set (bs_outbound st)" for m
      using callback_message_typed [of m] that \<open>rows_typed st\<close> by (auto simp: rows_typed_def split: option.split)
    ultimately show ?thesis using that by (auto simp: rows_typed_def apply_where_def)
  qed
  show ?thesis
    unfolding applyTwilioStatusCallback_def Let_def
    by (intro keeps_if keeps_monad keeps_bind keeps_modify typed_recalculate_all rows)
qed

lemma typed_callback: "keeps rows_typed (handleTwilioStatusCallback env p)"
proof -
  have "keeps rows_typed (\<lambda>s. case applyTwilioStatusCallback env p s of
      (Inl e, s') \<Rightarrow> (Inl e, release_callback k s') | (Inr r, s') \<Rightarrow> (Inr r, s'))" for k
  proof (rule keepsI)
    fix st assume "rows_typed st"
    then have "rows_typed (snd (applyTwilioStatusCallback env p st))" by (rule keepsD [OF typed_apply_callback])
    then show "rows_typed (snd (case applyTwilioStatusCallback env p st of
        (Inl e, s') \<Rightarrow> (Inl e, release_callback k s') | (Inr r, s') \<Rightarrow> (Inr r, s')))"
      by (simp add: rows_typed_def release_callback_def split: prod.split sum.split)
  qed
  moreover have "keeps rows_typed (claim_callback k)" for k
    by (rule keepsI) (simp add: claim_callback_def rows_typed_def)
  ultimately show ?thesis
    unfolding handleTwilioStatusCallback_def Let_def by (intro keeps_if keeps_monad keeps_bind typed_apply_callback)
qed

lemma typed_reply: "keeps rows_typed (recordReply t p ch)"
proof -
  have rows: "rows_typed (st\<lparr>bs_recipients := map (\<lambda>r. if responds m p r
        then r\<lparr>rc_status := BlastRecipientStatus.RESPONDED, rc_respondedAt := Some (bs_now st)\<rparr> else r) (bs_recipients st)\<rparr>)"
    if "rows_typed st" for st m
  proof -
    have "row_typed (r\<lparr>rc_status := BlastRecipientStatus.RESPONDED, rc_respondedAt := Some t\<rparr>)" if "row_typed r" for r t
      using that by (simp add: row_typed_def)
    then show ?thesis using that by (auto simp: rows_typed_def)
  qed
  show ?thesis
    unfolding recordReply_def by (intro keeps_bind keeps_monad keeps_option keeps_if keeps_modify rows keeps_intro)
qed

lemma typed_drafts:
  "keeps rows_typed (createDraft t dto)" "keeps rows_typed (updateDraft t i upd)" "keeps rows_typed (deleteBlast t i)"
  "keeps rows_typed (markProofed t i)" "keeps rows_typed (schedule env t i runAt)"
proof -
  show "keeps rows_typed (createDraft t dto)" by (rule keepsI) (simp add: createDraft_def Let_def rows_typed_def)
  show "keeps rows_typed (updateDraft t i upd)" unfolding updateDraft_def by (intro keeps_intro) simp
  show "keeps rows_typed (deleteBlast t i)"
    unfolding deleteBlast_def by (intro keeps_bind keeps_monad keeps_modify) (auto simp: rows_typed_def message_typed_def)
  show "keeps rows_typed (markProofed t i)" unfolding markProofed_def by (intro keeps_intro)
  show "keeps rows_typed (schedule env t i runAt)" unfolding schedule_def by (intro keeps_intro)
qed

lemma typed_requests:
  "keeps rows_typed (requestSendNow env t i)" "keeps rows_typed (requestRetryFailed env t i)"
  "keeps rows_typed (dispatchDueScheduled env limit)" "keeps rows_typed (prepareP2pBlast env t i)"
  "keeps rows_typed (sendSingleRecipient env t r a)" "keeps rows_typed (processBlastJob env job)"
  unfolding requestSendNow_def requestRetryFailed_def dispatchDueScheduled_def prepareP2pBlast_def sendSingleRecipient_def
    processBlastJob_def
  by (intro keeps_intro)+

lemma typed_work: "keeps rows_typed (work env n)"
proof (rule keepsI)
  fix st assume "rows_typed st"
  then have "rows_typed (snd (processBlastJob env job st))" for job by (rule keepsD [OF typed_requests(6)])
  with \<open>rows_typed st\<close> show "rows_typed (snd (work env n st))"
    by (auto simp: work_def Let_def rows_typed_def split: prod.split sum.split) (metis snd_conv)+
qed

lemma run_op_typed: "rows_typed st \<Longrightarrow> rows_typed (run_op env op st)"
  by (cases op)
    (simp_all add: typed_drafts [THEN keepsD] typed_requests [THEN keepsD] typed_work [THEN keepsD] typed_claim [THEN keepsD]
      typed_callback [THEN keepsD] typed_reply [THEN keepsD], simp_all add: rows_typed_def)

lemma run_ops_typed: "rows_typed st \<Longrightarrow> rows_typed (run_ops env ops st)"
  unfolding run_ops_def by (induction ops arbitrary: st) (simp_all add: run_op_typed)

lemma empty_blasts_typed: "rows_typed empty_blasts"
  by (simp add: rows_typed_def empty_blasts_def)

text \<open>C20: Whatever operations ran, every recipient row is well formed: its phone is in the international format; a row
  with a message id has a time it was sent; a sent, delivered or read row has its message id, and a delivered or
  read one the time; a row that responded has the time; a failed, undelivered or
  skipped row has its category, and a skipped row that no provider took (it has no message id) carries exactly the
  category EXTERNAL_DUPLICATE_RECIPIENT and the message of a duplicate. Every message row has both phones, its id and its recipient.\<close>

theorem blast_rows_wellformed:
  "rows_typed (run_ops env ops empty_blasts)"
  by (rule run_ops_typed [OF empty_blasts_typed])

text \<open>No reply on WhatsApp is ever attributed to a blast: the message rows of a blast are SMS rows even when the
  blast went out on WhatsApp, so whatever operations ran the reply finds none and changes nothing.\<close>

lemma whatsapp_replies_unattributed:
  "attributedOutbound (run_ops env ops empty_blasts) t p Whatsapp = None \<and>
   run_op env (Reply t p Whatsapp) (run_ops env ops empty_blasts) = run_ops env ops empty_blasts"
proof -
  have "filter (\<lambda>m. ou_tenantId m = t \<and> ou_toPhone m = p \<and> ou_channel m = Whatsapp \<and>
       (ou_blastId m \<noteq> None \<or> ou_recipientId m \<noteq> None)) (bs_outbound (run_ops env ops empty_blasts)) = []"
    using run_ops_typed [OF empty_blasts_typed, of env ops] by (auto simp: rows_typed_def message_typed_def filter_empty_conv)
  then have none: "attributedOutbound (run_ops env ops empty_blasts) t p Whatsapp = None"
    by (simp add: attributedOutbound_def)
  then show ?thesis by (simp add: recordReply_def blast_run)
qed

end
