(* ===== verification/Blast_Callbacks.thy ===== *)
theory Blast_Callbacks
  imports Blast_Rows
begin

text \<open>
  Twilio's status callbacks arrive in any order and more than once: they only move a recipient forward, and a
  replayed one is ignored.
\<close>

fun recipient_rank :: "BlastRecipientStatus \<Rightarrow> nat" where
  "recipient_rank BlastRecipientStatus.PENDING = 0"
| "recipient_rank BlastRecipientStatus.QUEUED = 0"
| "recipient_rank BlastRecipientStatus.SENT = 1"
| "recipient_rank BlastRecipientStatus.DELIVERED = 2"
| "recipient_rank _ = 3"

lemma callback_forward:
  assumes "callback_recipient env sid status code msg now r = Some r'"
  shows "rc_id r' = rc_id r \<and> recipient_key r' = recipient_key r \<and>
    (rc_status r' = rc_status r \<or> recipient_rank (rc_status r) < recipient_rank (rc_status r'))"
proof -
  consider "confirm_recipient env sid status now r = Some r'" | "fail_recipient env sid status code msg now r = Some r'"
    using assms by (auto simp: callback_recipient_def split: if_split_asm)
  then have "rc_status r' = rc_status r \<or> recipient_rank (rc_status r) < recipient_rank (rc_status r')"
  proof cases
    case 1
    show ?thesis
      by (cases "rc_status r") (simp_all add: confirm_fields(7) [OF 1] SEND_PHASE_RECIPIENT_STATUSES_def confirmed_status_def)
  next
    case 2
    show ?thesis
      by (cases "rc_status r") (simp_all add: fail_fields(7) [OF 2] FAILED_TRANSITIONABLE_STATUSES_def failed_status_def)
  qed
  with callback_recipient_keeps [OF assms] show ?thesis by blast
qed

definition moved :: "string \<Rightarrow> BlastRecipient \<Rightarrow> BlastRecipient \<Rightarrow> bool" where
  "moved sid r r' \<longleftrightarrow> r' = r \<or>
     rc_twilioMessageSid r = Some sid \<and> rc_id r' = rc_id r \<and> recipient_key r' = recipient_key r \<and>
     (rc_status r' = rc_status r \<or> recipient_rank (rc_status r) < recipient_rank (rc_status r'))"

lemma moved_rows:
  "list_all2 (moved sid) rows
     (apply_where (\<lambda>r. rc_twilioMessageSid r = Some sid) (callback_recipient env sid status code msg now) rows)"
  by (induction rows) (auto simp: apply_where_def moved_def dest: callback_forward split: option.split)

lemma moved_refl: "list_all2 (moved sid) rows rows"
  by (rule list_all2_refl) (simp add: moved_def)

section \<open>What the rest of the handler leaves alone\<close>

lemma keeps_rows_blast:
  "keeps (\<lambda>st. bs_recipients st = rows) (recalculateBlastStatus i)" "keeps (\<lambda>st. C (bs_claims st)) (recalculateBlastStatus i)"
  unfolding recalculateBlastStatus_def Let_def
  by (intro keeps_bind keeps_monad keeps_if; simp add: update_blast_def append_outbox_def keeps_def blast_run)+

lemma keeps_rows_all: "keeps (\<lambda>st. bs_recipients st = rows) (recalculate_all is us)"
  by (induction "is" arbitrary: us) (auto intro!: keeps_monad keeps_bind keeps_rows_blast)

lemma keeps_claims_all: "keeps (\<lambda>st. C (bs_claims st)) (recalculate_all is us)"
  by (induction "is" arbitrary: us) (auto intro!: keeps_monad keeps_bind keeps_rows_blast)

lemma recalculate_all_keeps:
  assumes "recalculate_all is us s = (res, s')"
  shows "bs_recipients s' = bs_recipients s" "bs_claims s' = bs_claims s"
  using assms keepsD [OF keeps_rows_all [where rows = "bs_recipients s"], where st = s]
    keepsD [OF keeps_claims_all [where C = "\<lambda>c. c = bs_claims s"], where st = s] by (metis snd_conv)+

lemma apply_callback_run:
  obtains code msg now where
    "bs_recipients (snd (applyTwilioStatusCallback env p st)) = bs_recipients st \<or>
     bs_recipients (snd (applyTwilioStatusCallback env p st)) =
       apply_where (\<lambda>r. rc_twilioMessageSid r = Some (js_trim (cp_messageSid p)))
         (callback_recipient env (js_trim (cp_messageSid p)) (js_lower (js_trim (cp_messageStatus p))) code msg now) (bs_recipients st)"
    "bs_claims (snd (applyTwilioStatusCallback env p st)) = bs_claims st"
proof (rule that [of "trimmed_or_null (cp_errorCode p)" "trimmed_or_null (cp_errorMessage p)" "bs_now st"])
  show "bs_recipients (snd (applyTwilioStatusCallback env p st)) = bs_recipients st \<or>
     bs_recipients (snd (applyTwilioStatusCallback env p st)) =
       apply_where (\<lambda>r. rc_twilioMessageSid r = Some (js_trim (cp_messageSid p)))
         (callback_recipient env (js_trim (cp_messageSid p)) (js_lower (js_trim (cp_messageStatus p)))
           (trimmed_or_null (cp_errorCode p)) (trimmed_or_null (cp_errorMessage p)) (bs_now st)) (bs_recipients st)"
    by (auto simp: applyTwilioStatusCallback_def Let_def blast_run dest!: recalculate_all_keeps(1) split: prod.split sum.split)
  show "bs_claims (snd (applyTwilioStatusCallback env p st)) = bs_claims st"
    by (auto simp: applyTwilioStatusCallback_def Let_def blast_run dest!: recalculate_all_keeps(2) split: prod.split sum.split)
qed

lemma apply_callback_moves:
  "list_all2 (moved (js_trim (cp_messageSid p))) (bs_recipients st) (bs_recipients (snd (applyTwilioStatusCallback env p st)))"
  using apply_callback_run [of env p st] moved_rows moved_refl by metis

text \<open>C13: A status callback touches only the recipients of its message, and moves each of them forward or leaves its status
  alone: a delivered, read, answered, failed or skipped recipient never goes back, and none becomes pending again.\<close>

theorem callbacks_move_forward:
  "list_all2 (moved (js_trim (cp_messageSid p))) (bs_recipients st) (bs_recipients (snd (handleTwilioStatusCallback env p st)))"
proof -
  let ?k = "js_trim (cp_messageSid p) @ '':'' @ js_lower (js_trim (cp_messageStatus p))"
  let ?s = "st\<lparr>bs_claims := bs_claims st @ [(''twilio'', ?k)]\<rparr>"
  obtain r s' where run: "applyTwilioStatusCallback env p ?s = (r, s')" by (cases "applyTwilioStatusCallback env p ?s")
  have "bs_recipients (snd (handleTwilioStatusCallback env p st)) \<in>
      {bs_recipients st, bs_recipients s', bs_recipients (snd (applyTwilioStatusCallback env p st))}"
    by (cases r) (simp_all add: handleTwilioStatusCallback_def Let_def claim_callback_def blast_run release_callback_def run [simplified])
  then show ?thesis using apply_callback_moves [of p ?s env] apply_callback_moves [of p st env] run moved_refl by auto
qed

section \<open>Claims are kept\<close>

text \<open>No operation gives back the claim of a callback that was handled: the one release is of a claim the same
  delivery has just taken.\<close>

definition holds_claim :: "string \<times> string \<Rightarrow> BlastStore \<Rightarrow> bool" where
  "holds_claim c st \<longleftrightarrow> c \<in> set (bs_claims st)"

lemma holds_modify [keeps_intro]: "(\<And>st. bs_claims (g st) = bs_claims st) \<Longrightarrow> keeps (holds_claim c) (bmodify g)"
  by (rule keeps_modify) (simp add: holds_claim_def)

lemma holds_writes [keeps_intro]:
  "keeps (holds_claim c) (update_recipient i f)" "keeps (holds_claim c) (update_blast i g)"
  "keeps (holds_claim c) (append_outbox e)" "keeps (holds_claim c) (writeSnapshot t b k n)"
  unfolding update_recipient_def update_blast_def append_outbox_def writeSnapshot_def by (intro keeps_intro; simp)+

lemma create_many_claims [simp]: "bs_claims (create_many mks st) = bs_claims st"
  by (induction mks arbitrary: st) (simp_all add: Let_def)

lemma holds_row_ops [keeps_intro]:
  "keeps (holds_claim c) (mark_queued env r)" "keeps (holds_claim c) (mark_skipped env r s w)"
  "keeps (holds_claim c) (mark_sent env r s w m)" "keeps (holds_claim c) (mark_failed env r s w d t)"
  unfolding mark_queued_def mark_skipped_def mark_sent_def mark_failed_def write_recipient_def Let_def
  by (intro keeps_intro)+

lemma holds_stores [keeps_intro]:
  "keeps (holds_claim c) (enqueue_blast job)" "keeps (holds_claim c) (with_audience h)"
  "keeps (holds_claim c) (send_text env b to body ctx tag)" "keeps (holds_claim c) (create_outbound b r m)"
  by (rule keepsI;
      auto simp: holds_claim_def enqueue_blast_def with_audience_def send_text_def create_outbound_def split: sum.split)+

lemma holds_enqueue [keeps_intro]:
  "keeps (holds_claim c) (enqueueBlastSendBatch b q t k)" "keeps (holds_claim c) (enqueueBlastRetryFailed b)"
  unfolding enqueueBlastSendBatch_def enqueueBlastRetryFailed_def by (intro keeps_intro)+

lemma holds_send_recipient [keeps_intro]: "keeps (holds_claim c) (send_recipient env b r s tag w d)"
  unfolding send_recipient_def by (intro keeps_intro)

lemma holds_send_loop [keeps_intro]: "keeps (holds_claim c) (send_loop env b n ps rs k)"
  by (induction rs arbitrary: n ps k) (auto intro!: keeps_intro simp del: send_loop.simps(2) simp: send_loop.simps)

lemma holds_recalculate [keeps_intro]:
  "keeps (holds_claim c) (recalculateBlastStatus i)" "keeps (holds_claim c) (begin_sending b)"
  unfolding recalculateBlastStatus_def begin_sending_def Let_def by (intro keeps_intro)+

lemma holds_ensure [keeps_intro]: "keeps (holds_claim c) (ensureBlastRecipientRecords env b)"
proof -
  have "keeps (holds_claim c) (getBlastRecipients env b)"
    unfolding getBlastRecipients_def Let_def by (intro keeps_intro)
  moreover have "keeps (holds_claim c) (bmodify (create_many mks))" for mks by (intro keeps_intro) simp
  ultimately show ?thesis
    unfolding ensureBlastRecipientRecords_def by (intro keeps_intro) simp_all
qed

lemma holds_send [keeps_intro]: "keeps (holds_claim c) (sendNow env i q)"
  unfolding sendNow_def Let_def by (intro keeps_intro)

lemma holds_dispatch_loop [keeps_intro]: "keeps (holds_claim c) (dispatch_loop env q bs rs)"
  by (induction bs arbitrary: rs) (auto intro!: keeps_intro)

lemma holds_retry_one [keeps_intro]: "keeps (holds_claim c) (retry_one env b r)"
  unfolding retry_one_def write_recipient_def by (intro keeps_intro)

lemma holds_retry_loop [keeps_intro]: "keeps (holds_claim c) (retry_loop env b n rs k)"
  by (induction rs arbitrary: n k) (auto intro!: keeps_intro)

lemma holds_retry [keeps_intro]: "keeps (holds_claim c) (retryFailed env i)"
  unfolding retryFailed_def by (intro keeps_intro)

lemma holds_requests:
  "keeps (holds_claim c) (requestSendNow env t i)" "keeps (holds_claim c) (requestRetryFailed env t i)"
  "keeps (holds_claim c) (dispatchDueScheduled env limit)" "keeps (holds_claim c) (prepareP2pBlast env t i)"
  "keeps (holds_claim c) (sendSingleRecipient env t r a)" "keeps (holds_claim c) (processBlastJob env job)"
  unfolding requestSendNow_def requestRetryFailed_def dispatchDueScheduled_def prepareP2pBlast_def sendSingleRecipient_def
    processBlastJob_def
  by (intro keeps_intro)+

lemma holds_drafts:
  "keeps (holds_claim c) (createDraft t dto)" "keeps (holds_claim c) (updateDraft t i upd)"
  "keeps (holds_claim c) (deleteBlast t i)" "keeps (holds_claim c) (markProofed t i)"
  "keeps (holds_claim c) (schedule env t i runAt)" "keeps (holds_claim c) (claim_initial a i n)"
proof -
  show "keeps (holds_claim c) (createDraft t dto)" by (rule keepsI) (simp add: createDraft_def Let_def holds_claim_def)
  show "keeps (holds_claim c) (claim_initial a i n)" by (rule keepsI) (auto simp: claim_initial_def Let_def holds_claim_def)
qed (unfold updateDraft_def deleteBlast_def markProofed_def schedule_def, intro keeps_intro; simp)+

lemma holds_reply: "keeps (holds_claim c) (recordReply t p ch)"
  unfolding recordReply_def by (intro keeps_intro) simp_all

lemma apply_callback_claims: "bs_claims (snd (applyTwilioStatusCallback env p st)) = bs_claims st"
  using apply_callback_run [of env p st] by metis

lemma holds_callback: "keeps (holds_claim c) (handleTwilioStatusCallback env p)"
proof (rule keepsI)
  fix st assume c: "holds_claim c st"
  let ?k = "js_trim (cp_messageSid p) @ '':'' @ js_lower (js_trim (cp_messageStatus p))"
  let ?s = "st\<lparr>bs_claims := bs_claims st @ [(''twilio'', ?k)]\<rparr>"
  obtain r s' where run: "applyTwilioStatusCallback env p ?s = (r, s')" by (cases "applyTwilioStatusCallback env p ?s")
  have "bs_claims s' = bs_claims ?s" using apply_callback_claims [of env p ?s] run by simp
  then show "holds_claim c (snd (handleTwilioStatusCallback env p st))"
    using c apply_callback_claims [of env p st]
    by (cases r) (auto simp: handleTwilioStatusCallback_def Let_def claim_callback_def blast_run release_callback_def
        run [simplified] holds_claim_def)
qed

lemma holds_work: "keeps (holds_claim c) (work env n)"
proof (rule keepsI)
  fix st assume "holds_claim c st"
  then have "holds_claim c (snd (processBlastJob env job st))" for job by (rule keepsD [OF holds_requests(6)])
  with \<open>holds_claim c st\<close> show "holds_claim c (snd (work env n st))"
    by (auto simp: work_def Let_def holds_claim_def split: prod.split sum.split) (metis snd_conv)+
qed

lemma run_op_holds: "holds_claim c st \<Longrightarrow> holds_claim c (run_op env op st)"
  by (cases op)
    (simp_all add: holds_drafts [THEN keepsD] holds_requests [THEN keepsD] holds_work [THEN keepsD]
      holds_callback [THEN keepsD] holds_reply [THEN keepsD], simp_all add: holds_claim_def)

lemma run_ops_holds: "holds_claim c st \<Longrightarrow> holds_claim c (run_ops env ops st)"
  unfolding run_ops_def by (induction ops arbitrary: st) (simp_all add: run_op_holds)

lemma handled_claimed:
  assumes "handleTwilioStatusCallback env p st = (Inr res, st')"
    "js_trim (cp_messageSid p) \<noteq> []" "js_lower (js_trim (cp_messageStatus p)) \<noteq> []"
  shows "holds_claim (''twilio'', js_trim (cp_messageSid p) @ '':'' @ js_lower (js_trim (cp_messageStatus p))) st'"
proof -
  let ?k = "js_trim (cp_messageSid p) @ '':'' @ js_lower (js_trim (cp_messageStatus p))"
  show ?thesis
  proof (cases "(''twilio'', ?k) \<in> set (bs_claims st)")
    case True
    then show ?thesis using assms by (simp add: handleTwilioStatusCallback_def Let_def claim_callback_def blast_run holds_claim_def)
  next
    case False
    let ?s = "st\<lparr>bs_claims := bs_claims st @ [(''twilio'', ?k)]\<rparr>"
    have "applyTwilioStatusCallback env p ?s = (Inr res, st')"
      using assms False
      by (simp add: handleTwilioStatusCallback_def Let_def claim_callback_def blast_run split: prod.splits sum.splits)
    then have "bs_claims st' = bs_claims ?s" using apply_callback_claims [of env p ?s] by simp
    then show ?thesis by (simp add: holds_claim_def)
  qed
qed

text \<open>C28: A callback that was handled is handled once: after any sequence of operations of the workspace (drafts,
  sends, retries, presses, claims, replies, other callbacks, jobs) every later delivery of the same message id and
  status, whatever happened to its errors, is ignored and changes nothing.\<close>

theorem callback_replay_ignored:
  assumes "handleTwilioStatusCallback env p st = (Inr res, st')"
    "js_trim (cp_messageSid p) \<noteq> []" "js_lower (js_trim (cp_messageStatus p)) \<noteq> []"
    "js_trim (cp_messageSid p') = js_trim (cp_messageSid p)"
    "js_lower (js_trim (cp_messageStatus p')) = js_lower (js_trim (cp_messageStatus p))"
  shows "handleTwilioStatusCallback env p' (run_ops env ops st') = (Inr ignored_callback, run_ops env ops st')"
  using run_ops_holds [OF handled_claimed [OF assms(1-3)], of env ops] assms(2-5)
  by (simp add: handleTwilioStatusCallback_def Let_def claim_callback_def blast_run holds_claim_def)

definition demo_callback :: TwilioStatusCallbackPayload where
  "demo_callback = \<lparr>cp_messageSid = ''SM1'', cp_messageStatus = ''Delivered'', cp_errorCode = None, cp_errorMessage = None\<rparr>"

theorem callback_replay_ignored_witness:
  "\<forall>env. \<exists>st'. handleTwilioStatusCallback env demo_callback empty_blasts = (Inr \<lparr>cr_recipientUpdates = 0, cr_outboundUpdates = 0,
       cr_blastStatusUpdates = [], cr_ignored = False\<rparr>, st') \<and>
     handleTwilioStatusCallback env demo_callback (run_ops env [Clock 5, Work 0] st') =
       (Inr ignored_callback, run_ops env [Clock 5, Work 0] st')"
proof
  fix env
  have texts: "js_trim (cp_messageSid demo_callback) = ''SM1''" "js_lower (js_trim (cp_messageStatus demo_callback)) = ''delivered''"
    by code_simp+
  obtain st' where st': "handleTwilioStatusCallback env demo_callback empty_blasts = (Inr \<lparr>cr_recipientUpdates = 0, cr_outboundUpdates = 0,
       cr_blastStatusUpdates = [], cr_ignored = False\<rparr>, st')"
    by (simp add: handleTwilioStatusCallback_def texts claim_callback_def empty_blasts_def applyTwilioStatusCallback_def blast_run
        apply_where_def Let_def)
  from callback_replay_ignored [OF this, of demo_callback "[Clock 5, Work 0]"] texts
  have "handleTwilioStatusCallback env demo_callback (run_ops env [Clock 5, Work 0] st') =
      (Inr ignored_callback, run_ops env [Clock 5, Work 0] st')" by simp
  with st' show "\<exists>st'. handleTwilioStatusCallback env demo_callback empty_blasts = (Inr \<lparr>cr_recipientUpdates = 0, cr_outboundUpdates = 0,
       cr_blastStatusUpdates = [], cr_ignored = False\<rparr>, st') \<and>
     handleTwilioStatusCallback env demo_callback (run_ops env [Clock 5, Work 0] st') =
       (Inr ignored_callback, run_ops env [Clock 5, Work 0] st')" by blast
qed

end
