(* ===== verification/Text_Claims.thy ===== *)
theory Text_Claims
  imports Blast_Promises
begin














end
