(* ===== verification/Phone_Events.thy ===== *)
theory Phone_Events
  imports Fsm_Machines
begin

text \<open>
  The vocabulary calls and the dialler share: the events of \<^verbatim>\<open>packages/events/src/index.ts\<close> that the two append to
  the outbox, the enums of the dialler's tables, and the handlers, functions from a store to a result or error
  and the store they leave behind. The lemmas say when a handler keeps a predicate of the store.
\<close>

section \<open>Events\<close>

datatype DialerAttemptOutcome = PENDING | ANSWERED | MACHINE | NO_ANSWER | BUSY | FAILED | OPTED_OUT | CANCELED

datatype DialerSessionStatus = CREATED | CONNECTED | BRIDGED | ENDED | FAILED | EXPIRED

datatype StatusSource = Webhook | DialAction | Reconcile | Dispatch

datatype PhoneEvent =
    CallInitiated string string string
  | CallStatusChanged string string CallStatus StatusSource "string option" "string option"
  | CallCompleted string string "int option"
  | CampaignCreated string string string
  | CampaignActivated string string
  | CampaignPaused string string
  | CampaignCompleted string string nat
  | CampaignArchived string string
  | AttemptPlaced string string string string nat
  | AttemptFinished string string string string DialerAttemptOutcome
  | SurveyAnswerRecorded string string string "string option" string string string "string option" "string option"
  | ContactOptedOut string string string "string option"
  | TransferRecorded string string string "string option" string
  | SessionStarted string string string "string option"
  | SessionEnded string string string "int option"

section \<open>Handlers\<close>

type_synonym ('a, 's) handler = "'s \<Rightarrow> 'a res \<times> 's"

definition hret :: "'a \<Rightarrow> ('a, 's) handler" where
  "hret x = (\<lambda>st. (Inr x, st))"

definition hfail :: "api_error \<Rightarrow> ('a, 's) handler" where
  "hfail e = (\<lambda>st. (Inl e, st))"

definition hlift :: "'a res \<Rightarrow> ('a, 's) handler" where
  "hlift r = (\<lambda>st. (r, st))"

definition hbind :: "('a, 's) handler \<Rightarrow> ('a \<Rightarrow> ('b, 's) handler) \<Rightarrow> ('b, 's) handler" where
  "hbind m f = (\<lambda>st. case m st of (Inl e, st') \<Rightarrow> (Inl e, st') | (Inr x, st') \<Rightarrow> f x st')"

definition hget :: "('s \<Rightarrow> 'a) \<Rightarrow> ('a, 's) handler" where
  "hget f = (\<lambda>st. (Inr (f st), st))"

definition hmodify :: "('s \<Rightarrow> 's) \<Rightarrow> (unit, 's) handler" where
  "hmodify f = (\<lambda>st. (Inr (), f st))"

text \<open>\<open>try\<close> with a \<open>catch\<close>; what the body committed stays.\<close>

definition hcatch :: "('a, 's) handler \<Rightarrow> (api_error \<Rightarrow> ('a, 's) handler) \<Rightarrow> ('a, 's) handler" where
  "hcatch m f = (\<lambda>st. case m st of (Inl e, st') \<Rightarrow> f e st' | (Inr x, st') \<Rightarrow> (Inr x, st'))"

text \<open>A transaction: an error leaves nothing behind.\<close>

definition htransaction :: "('a, 's) handler \<Rightarrow> ('a, 's) handler" where
  "htransaction m = (\<lambda>st. case m st of (Inl e, st') \<Rightarrow> (Inl e, st) | (Inr x, st') \<Rightarrow> (Inr x, st'))"

fun heach :: "'a list \<Rightarrow> ('a \<Rightarrow> (unit, 's) handler) \<Rightarrow> (unit, 's) handler" where
  "heach [] f = hret ()"
| "heach (x # xs) f = hbind (f x) (\<lambda>_. heach xs f)"

section \<open>What a handler keeps\<close>

definition hkeeps :: "('s \<Rightarrow> bool) \<Rightarrow> ('a, 's) handler \<Rightarrow> bool" where
  "hkeeps P m \<longleftrightarrow> (\<forall>st. P st \<longrightarrow> P (snd (m st)))"

named_theorems keeps_intros

lemma hkeepsI: "(\<And>st. P st \<Longrightarrow> P (snd (m st))) \<Longrightarrow> hkeeps P m"
  by (simp add: hkeeps_def)

lemma hkeepsD: "hkeeps P m \<Longrightarrow> P st \<Longrightarrow> P (snd (m st))"
  by (simp add: hkeeps_def)

lemma hkeeps_pure [keeps_intros]:
  "hkeeps P (hret x)" "hkeeps P (hfail e)" "hkeeps P (hlift r)" "hkeeps P (hget g)"
  by (simp_all add: hkeeps_def hret_def hfail_def hlift_def hget_def)

lemma hkeeps_modify: "(\<And>st. P st \<Longrightarrow> P (f st)) \<Longrightarrow> hkeeps P (hmodify f)"
  by (simp add: hkeeps_def hmodify_def)

lemma hkeeps_bind [keeps_intros]: "hkeeps P m \<Longrightarrow> (\<And>x. hkeeps P (f x)) \<Longrightarrow> hkeeps P (hbind m f)"
  by (auto simp: hkeeps_def hbind_def split: prod.split sum.split)

lemma hkeeps_bind_result:
  "hkeeps P m \<Longrightarrow> (\<And>st x st'. m st = (Inr x, st') \<Longrightarrow> hkeeps P (f x)) \<Longrightarrow> hkeeps P (hbind m f)"
  by (fastforce simp: hkeeps_def hbind_def split: prod.split sum.split)

lemma hkeeps_catch [keeps_intros]: "hkeeps P m \<Longrightarrow> (\<And>e. hkeeps P (f e)) \<Longrightarrow> hkeeps P (hcatch m f)"
  by (auto simp: hkeeps_def hcatch_def split: prod.split sum.split)

lemma hkeeps_transaction [keeps_intros]: "hkeeps P m \<Longrightarrow> hkeeps P (htransaction m)"
  by (auto simp: hkeeps_def htransaction_def split: prod.split sum.split)

lemma hkeeps_if [keeps_intros]: "hkeeps P m \<Longrightarrow> hkeeps P m' \<Longrightarrow> hkeeps P (if c then m else m')"
  by simp

lemma hkeeps_option [keeps_intros]:
  "hkeeps P m \<Longrightarrow> (\<And>x. hkeeps P (f x)) \<Longrightarrow> hkeeps P (case v of None \<Rightarrow> m | Some x \<Rightarrow> f x)"
  by (cases v) simp_all

lemma hkeeps_each [keeps_intros]: "(\<And>x. hkeeps P (f x)) \<Longrightarrow> hkeeps P (heach xs f)"
  by (induction xs) (simp_all add: hkeeps_pure hkeeps_bind)

text \<open>A read followed by a handler that knows what was read.\<close>

lemma hkeeps_read: "(\<And>st. P st \<Longrightarrow> P (snd (f (g st) st))) \<Longrightarrow> hkeeps P (hbind (hget g) f)"
  by (simp add: hkeeps_def hbind_def hget_def)

lemmas handler_defs = hret_def hfail_def hlift_def hbind_def hget_def hmodify_def hcatch_def htransaction_def

end
