(* ===== verification/Calls.thy ===== *)
theory Calls
  imports Phone_Events Messaging_Consent
begin

text \<open>
  Telephone calls: \<^verbatim>\<open>apps/api/src/calls/calls.service.ts\<close>, with the webhook claims of
  \<^verbatim>\<open>common/webhooks/webhook-event.service.ts\<close>. \<open>vs_dialled\<close> is what the provider took, whatever the rows say. Every
  producer of a status loads the call, consults the machine and then swaps the status it loaded for the new
  one; the loaded row is an argument of \<open>applyCallStatus\<close>, so that other producers may run between the two. Times are
  milliseconds. Log lines are dropped.
\<close>

section \<open>Rows\<close>

record Call =
  cl_id :: string
  cl_tenantId :: string
  cl_contactId :: "string option"
  cl_toNumber :: string
  cl_fromNumber :: string
  cl_status :: CallStatus
  cl_providerCallId :: "string option"
  cl_durationSeconds :: "int option"
  cl_recordingUrl :: "string option"
  cl_priceCents :: "int option"
  cl_currency :: "string option"
  cl_startedAt :: "rat option"
  cl_endedAt :: "rat option"
  cl_errorCode :: "string option"
  cl_errorMessage :: "string option"
  cl_sipCode :: "string option"
  cl_answeredBy :: "string option"
  cl_machineDetected :: "bool option"
  cl_createdAt :: rat

text \<open>What the provider is asked for, and the optional fields of a status callback.\<close>

record PlaceRequest =
  pr_to :: string
  pr_from :: "string option"
  pr_url :: "string option"
  pr_sender :: "string option"
  pr_record :: bool
  pr_machineDetection :: bool
  pr_timeout :: "rat option"

record CallUpdate =
  cu_durationSeconds :: "int option"
  cu_recordingUrl :: "string option"
  cu_priceCents :: "int option"
  cu_currency :: "string option"
  cu_startedAt :: "rat option"
  cu_endedAt :: "rat option"
  cu_errorCode :: "string option"
  cu_errorMessage :: "string option"
  cu_sipCode :: "string option"

record VoiceStatusCallback =
  vc_callSid :: string
  vc_status :: string
  vc_update :: CallUpdate
  vc_accountSid :: "string option"

record RemoteCall =
  rm_status :: string
  rm_update :: CallUpdate

record CallStore =
  vs_calls :: "Call list"
  vs_events :: "PhoneEvent list"
  vs_claims :: "(string \<times> string) list"
  vs_accounts :: "(string \<times> string) list"
  vs_dialled :: "PlaceRequest list"
  vs_requests :: nat
  vs_nextCall :: nat
  vs_now :: rat

text \<open>The configuration, the provider, and the resolvers of a tenant's numbers.\<close>

record VoiceEnv =
  ve_platformSid :: string
  ve_voiceFrom :: string
  ve_phoneNumber :: string
  ve_place :: "nat \<Rightarrow> PlaceRequest \<Rightarrow> (string option \<times> string) + string"
  ve_fetch :: "string \<Rightarrow> string + RemoteCall option"
  ve_errorText :: "api_error \<Rightarrow> string"
  ve_senderByNumber :: "string \<Rightarrow> string \<Rightarrow> string option res"
  ve_callerIdForAccount :: "string \<Rightarrow> string \<Rightarrow> string res"

definition no_update :: CallUpdate where
  "no_update = \<lparr>cu_durationSeconds = None, cu_recordingUrl = None, cu_priceCents = None, cu_currency = None,
     cu_startedAt = None, cu_endedAt = None, cu_errorCode = None, cu_errorMessage = None, cu_sipCode = None\<rparr>"

definition failure_update :: "string option \<Rightarrow> string \<Rightarrow> CallUpdate" where
  "failure_update code msg = no_update\<lparr>cu_errorCode := code, cu_errorMessage := Some msg\<rparr>"

section \<open>Numbers\<close>

text \<open>\<open>/^\+[1-9]\d{6,14}$/\<close>\<close>

definition is_E164 :: "string \<Rightarrow> bool" where
  "is_E164 s \<longleftrightarrow> (case s of
     p # d # ds \<Rightarrow> p = CHR ''+'' \<and> is_digit d \<and> d \<noteq> CHR ''0'' \<and> list_all is_digit ds \<and> 6 \<le> length ds \<and> length ds \<le> 14
   | _ \<Rightarrow> False)"

definition isAuMobile :: "string \<Rightarrow> bool" where
  "isAuMobile e164 = starts_with (js_trim e164) ''+614''"

definition isVoiceCapable :: "string \<Rightarrow> bool" where
  "isVoiceCapable e164 \<longleftrightarrow> e164 \<noteq> [] \<and> \<not> isAuMobile e164"

text \<open>\<open>a || b || c\<close>\<close>

fun or_string :: "string list \<Rightarrow> string" where
  "or_string [] = []"
| "or_string (s # ss) = (if s \<noteq> [] then s else or_string ss)"

definition platform_from :: "VoiceEnv \<Rightarrow> string list" where
  "platform_from env = [js_trim (ve_voiceFrom env), js_trim (ve_phoneNumber env)]"

definition VOICE_NUMBER_REQUIRED :: api_error where
  "VOICE_NUMBER_REQUIRED = ApiHttpException ''VOICE_NUMBER_REQUIRED'' 422"

section \<open>Webhook claims\<close>

definition VOICE_PROVIDER :: string where "VOICE_PROVIDER = ''twilio-voice''"

definition claim_webhook :: "string \<Rightarrow> string \<Rightarrow> (bool, 'z CallStore_scheme) handler" where
  "claim_webhook provider eventId = (\<lambda>st.
     if eventId = [] then (Inr True, st)
     else if (provider, eventId) \<in> set (vs_claims st) then (Inr False, st)
     else (Inr True, st\<lparr>vs_claims := vs_claims st @ [(provider, eventId)]\<rparr>))"

definition release_webhook :: "string \<Rightarrow> string \<Rightarrow> (unit, 'z CallStore_scheme) handler" where
  "release_webhook provider eventId = hmodify (\<lambda>st.
     if eventId = [] then st else st\<lparr>vs_claims := filter (\<lambda>c. c \<noteq> (provider, eventId)) (vs_claims st)\<rparr>)"

text \<open>Claim before acting; a failure releases the claim, so that a retry is processed.\<close>

definition claimed :: "string \<Rightarrow> string \<Rightarrow> (unit, 'z CallStore_scheme) handler \<Rightarrow> (unit, 'z CallStore_scheme) handler" where
  "claimed provider eventId body = hbind (claim_webhook provider eventId) (\<lambda>fresh.
     if \<not> fresh then hret ()
     else hcatch body (\<lambda>e. hbind (release_webhook provider eventId) (\<lambda>_. hfail e)))"

section \<open>Rows by id\<close>

definition find_call :: "string \<Rightarrow> 'z CallStore_scheme \<Rightarrow> Call option" where
  "find_call i st = find (\<lambda>c. cl_id c = i) (vs_calls st)"

definition find_sid :: "string \<Rightarrow> 'z CallStore_scheme \<Rightarrow> Call option" where
  "find_sid sid st = find (\<lambda>c. cl_providerCallId c = Some sid) (vs_calls st)"

definition update_call :: "string \<Rightarrow> (Call \<Rightarrow> Call) \<Rightarrow> (unit, 'z CallStore_scheme) handler" where
  "update_call i f = hmodify (\<lambda>st. st\<lparr>vs_calls := map (\<lambda>c. if cl_id c = i then f c else c) (vs_calls st)\<rparr>)"

definition append_events :: "PhoneEvent list \<Rightarrow> (unit, 'z CallStore_scheme) handler" where
  "append_events es = hmodify (\<lambda>st. st\<lparr>vs_events := vs_events st @ es\<rparr>)"

text \<open>The provider's id is unique.\<close>

definition bind_sid :: "string \<Rightarrow> string \<Rightarrow> (unit, 'z CallStore_scheme) handler" where
  "bind_sid i sid = (\<lambda>st.
     if list_ex (\<lambda>c. cl_id c \<noteq> i \<and> cl_providerCallId c = Some sid) (vs_calls st) then (Inl UniqueViolation, st)
     else update_call i (\<lambda>c. c\<lparr>cl_providerCallId := Some sid\<rparr>) st)"

definition call_id :: "nat \<Rightarrow> string" where
  "call_id n = ''call'' @ nat_to_string n"

text \<open>A call row with its event, in one transaction.\<close>

definition create_call ::
  "string \<Rightarrow> string option \<Rightarrow> string \<Rightarrow> string \<Rightarrow> CallStatus \<Rightarrow> string option \<Rightarrow> rat option \<Rightarrow> (Call, 'z CallStore_scheme) handler" where
  "create_call tenantId contactId toNumber fromNumber status sid startedAt = (\<lambda>st.
     (let c = \<lparr>cl_id = call_id (vs_nextCall st), cl_tenantId = tenantId, cl_contactId = contactId,
            cl_toNumber = toNumber, cl_fromNumber = fromNumber, cl_status = status, cl_providerCallId = sid,
            cl_durationSeconds = None, cl_recordingUrl = None, cl_priceCents = None, cl_currency = None,
            cl_startedAt = startedAt, cl_endedAt = None, cl_errorCode = None, cl_errorMessage = None,
            cl_sipCode = None, cl_answeredBy = None, cl_machineDetected = None, cl_createdAt = vs_now st\<rparr> in
      (Inr c, st\<lparr>vs_calls := vs_calls st @ [c], vs_nextCall := vs_nextCall st + 1,
                 vs_events := vs_events st @ [CallInitiated (cl_id c) tenantId toNumber]\<rparr>)))"

section \<open>The change of a status\<close>

definition FAILED_STATUSES :: "CallStatus list" where
  "FAILED_STATUSES = [CallStatus.FAILED, CallStatus.BUSY, CallStatus.NO_ANSWER]"

definition LIVE_STATUSES :: "CallStatus list" where
  "LIVE_STATUSES = [CallStatus.INITIATED, CallStatus.RINGING, CallStatus.IN_PROGRESS]"

text \<open>\<open>x ?? y\<close> on the columns an update carries.\<close>

definition carry :: "'a option \<Rightarrow> 'a option \<Rightarrow> 'a option" where
  "carry new old = (case new of None \<Rightarrow> old | Some v \<Rightarrow> Some v)"

definition status_data :: "CallStatus \<Rightarrow> CallUpdate \<Rightarrow> rat \<Rightarrow> Call \<Rightarrow> Call" where
  "status_data target cb now c =
     (if target = CallStatus.IN_PROGRESS
      then c\<lparr>cl_status := target, cl_startedAt := carry (cu_startedAt cb) (cl_startedAt c)\<rparr>
      else if target = CallStatus.COMPLETED
      then c\<lparr>cl_status := target,
             cl_durationSeconds := carry (cu_durationSeconds cb) (cl_durationSeconds c),
             cl_recordingUrl := carry (cu_recordingUrl cb) (cl_recordingUrl c),
             cl_priceCents := carry (cu_priceCents cb) (cl_priceCents c),
             cl_currency := carry (cu_currency cb) (cl_currency c),
             cl_endedAt := carry (cu_endedAt cb) (Some now)\<rparr>
      else if target \<in> set FAILED_STATUSES
      then c\<lparr>cl_status := target, cl_endedAt := carry (cu_endedAt cb) (Some now), cl_errorCode := cu_errorCode cb,
             cl_errorMessage := cu_errorMessage cb, cl_sipCode := cu_sipCode cb\<rparr>
      else c\<lparr>cl_status := target\<rparr>)"

definition status_events :: "Call \<Rightarrow> CallStatus \<Rightarrow> CallUpdate \<Rightarrow> StatusSource \<Rightarrow> PhoneEvent list" where
  "status_events call target cb source =
     CallStatusChanged (cl_id call) (cl_tenantId call) target source
       (if target \<in> set FAILED_STATUSES then cu_errorCode cb else None)
       (if target \<in> set FAILED_STATUSES then cu_errorMessage cb else None) #
     (if target = CallStatus.COMPLETED then [CallCompleted (cl_id call) (cl_tenantId call) (cu_durationSeconds cb)] else [])"

text \<open>The row is written only while it still has the status that was loaded.\<close>

definition applyCallStatus :: "Call \<Rightarrow> CallStatus \<Rightarrow> CallUpdate \<Rightarrow> StatusSource \<Rightarrow> (unit, 'z CallStore_scheme) handler" where
  "applyCallStatus call target cb source = (\<lambda>st.
     if list_ex (\<lambda>c. cl_id c = cl_id call \<and> cl_status c = cl_status call) (vs_calls st)
     then (Inr (), st\<lparr>vs_calls := map (\<lambda>c. if cl_id c = cl_id call \<and> cl_status c = cl_status call
                                       then status_data target cb (vs_now st) c else c) (vs_calls st),
                      vs_events := vs_events st @ status_events call target cb source\<rparr>)
     else (Inr (), st))"

section \<open>Callbacks\<close>

definition webhookAccountMayTouchCall :: "VoiceEnv \<Rightarrow> Call \<Rightarrow> string option \<Rightarrow> 'z CallStore_scheme \<Rightarrow> bool" where
  "webhookAccountMayTouchCall env call accountSid st =
     (let platform = js_trim (ve_platformSid env) in
      \<not> truthy accountSid \<or> platform = [] \<or> accountSid = Some platform \<or>
      (case find (\<lambda>a. Some (fst a) = accountSid) (vs_accounts st) of
         None \<Rightarrow> False | Some a \<Rightarrow> snd a = cl_tenantId call))"

text \<open>The call a callback names by our id, or by the provider's.\<close>

definition callback_call :: "string option \<Rightarrow> string \<Rightarrow> 'z CallStore_scheme \<Rightarrow> Call option" where
  "callback_call callId sid st = (if truthy callId then find_call (the callId) st else find_sid sid st)"

definition status_event_id :: "VoiceStatusCallback \<Rightarrow> string" where
  "status_event_id cb = vc_callSid cb @ '':'' @ vc_status cb"

definition status_callback_body :: "VoiceEnv \<Rightarrow> VoiceStatusCallback \<Rightarrow> string option \<Rightarrow> (unit, 'z CallStore_scheme) handler" where
  "status_callback_body env cb callId = hbind (hget (callback_call callId (vc_callSid cb))) (\<lambda>found.
     case found of None \<Rightarrow> hret () | Some call \<Rightarrow>
     hbind (hget (webhookAccountMayTouchCall env call (vc_accountSid cb))) (\<lambda>entitled.
     if \<not> entitled then release_webhook VOICE_PROVIDER (status_event_id cb) else
     hbind (if \<not> truthy (cl_providerCallId call) then hbind (bind_sid (cl_id call) (vc_callSid cb)) (\<lambda>_. hret True)
            else hret (cl_providerCallId call = Some (vc_callSid cb))) (\<lambda>ours.
     if \<not> ours then hret () else
     case mapTwilioCallStatus (vc_status cb) of
       None \<Rightarrow> hret ()
     | Some target \<Rightarrow>
         if canTransitionCall (cl_status call) target then applyCallStatus call target (vc_update cb) Webhook else hret ())))"

definition processStatusCallback :: "VoiceEnv \<Rightarrow> VoiceStatusCallback \<Rightarrow> string option \<Rightarrow> (unit, 'z CallStore_scheme) handler" where
  "processStatusCallback env cb callId =
     claimed VOICE_PROVIDER (status_event_id cb) (status_callback_body env cb callId)"

definition mapDialCallStatus :: "string \<Rightarrow> CallStatus option" where
  "mapDialCallStatus raw =
     (if raw = ''busy'' then Some CallStatus.BUSY
      else if raw = ''no-answer'' then Some CallStatus.NO_ANSWER
      else if raw \<in> {''failed'', ''canceled''} then Some CallStatus.FAILED
      else None)"

record DialOutcome =
  do_callId :: string
  do_parentCallSid :: string
  do_dialCallStatus :: string
  do_dialCallSid :: "string option"
  do_accountSid :: "string option"

definition dial_outcome_body :: "VoiceEnv \<Rightarrow> string \<Rightarrow> DialOutcome \<Rightarrow> (unit, 'z CallStore_scheme) handler" where
  "dial_outcome_body env eventId input = hbind (hget (find_call (do_callId input))) (\<lambda>found.
     case found of None \<Rightarrow> hret () | Some call \<Rightarrow>
     hbind (hget (webhookAccountMayTouchCall env call (do_accountSid input))) (\<lambda>entitled.
     if \<not> entitled then release_webhook VOICE_PROVIDER eventId else
     hbind (if \<not> truthy (cl_providerCallId call) \<and> truthy (do_dialCallSid input)
            then bind_sid (cl_id call) (the (do_dialCallSid input)) else hret ()) (\<lambda>_.
     case mapDialCallStatus (do_dialCallStatus input) of
       None \<Rightarrow> hret ()
     | Some target \<Rightarrow>
         if canTransitionCall (cl_status call) target
         then applyCallStatus call target (no_update\<lparr>cu_errorMessage :=
                Some (''Dial ended without connecting ('' @ do_dialCallStatus input @ '')'')\<rparr>) DialAction
         else hret ())))"

definition processDialOutcome :: "VoiceEnv \<Rightarrow> DialOutcome \<Rightarrow> (unit, 'z CallStore_scheme) handler" where
  "processDialOutcome env input =
     (let eventId = do_parentCallSid input @ '':dial:'' @ do_dialCallStatus input in
      claimed VOICE_PROVIDER eventId (dial_outcome_body env eventId input))"

record RecordingCallback =
  rb_callSid :: string
  rb_recordingUrl :: "string option"
  rb_recordingStatus :: "string option"
  rb_accountSid :: "string option"

definition processRecordingCallback :: "VoiceEnv \<Rightarrow> RecordingCallback \<Rightarrow> string option \<Rightarrow> (unit, 'z CallStore_scheme) handler" where
  "processRecordingCallback env cb callId =
     (let status = (if truthy (rb_recordingStatus cb) then the (rb_recordingStatus cb) else ''completed'');
          eventId = rb_callSid cb @ '':recording:'' @ status in
      if status \<noteq> ''completed'' \<or> \<not> truthy (rb_recordingUrl cb) then hret () else
      claimed VOICE_PROVIDER eventId (hbind (hget (callback_call callId (rb_callSid cb))) (\<lambda>found.
        case found of None \<Rightarrow> hret () | Some call \<Rightarrow>
        hbind (hget (webhookAccountMayTouchCall env call (rb_accountSid cb))) (\<lambda>entitled.
        if \<not> entitled then release_webhook VOICE_PROVIDER eventId
        else update_call (cl_id call) (\<lambda>c. c\<lparr>cl_recordingUrl := rb_recordingUrl cb\<rparr>)))))"

section \<open>Placing a call\<close>

text \<open>The provider's answer, and the binding of its id: an error of either is the failure of the dispatch, as its
  code and message. The request counts in any case.\<close>

definition dispatch_call :: "VoiceEnv \<Rightarrow> string \<Rightarrow> PlaceRequest \<Rightarrow> ((string option \<times> string) option, 'z CallStore_scheme) handler" where
  "dispatch_call env i request = (\<lambda>st.
     (let n = vs_requests st; st = st\<lparr>vs_requests := n + 1\<rparr> in
      case ve_place env n request of
        Inl failure \<Rightarrow> (Inr (Some failure), st)
      | Inr sid \<Rightarrow>
          (case bind_sid i sid (st\<lparr>vs_dialled := vs_dialled st @ [request]\<rparr>) of
             (Inl e, st') \<Rightarrow> (Inr (Some (Some ''P2002'', ve_errorText env e)), st')
           | (Inr u, st') \<Rightarrow> (Inr None, st'))))"

definition createBrowserCall :: "string \<Rightarrow> string \<Rightarrow> string \<Rightarrow> string option \<Rightarrow> (Call, 'z CallStore_scheme) handler" where
  "createBrowserCall tenantId to fromNumber contactId =
     (let toNumber = js_trim to in
      if \<not> is_E164 toNumber then hfail (BadRequestException ''toNumber must be E.164'')
      else create_call tenantId contactId toNumber fromNumber CallStatus.INITIATED None None)"

text \<open>The TwiML is either a spoken refusal or the bridge to the callee of a new call, under the caller id.\<close>

datatype BrowserTwiml = NeedsLocalNumber | DialCallee Call string

definition startBrowserCall ::
  "VoiceEnv \<Rightarrow> string \<Rightarrow> string \<Rightarrow> string option \<Rightarrow> string option \<Rightarrow> string option \<Rightarrow> (BrowserTwiml, 'z CallStore_scheme) handler" where
  "startBrowserCall env tenantId toNumber contactId accountSid fromNumberId =
     hbind (if truthy fromNumberId
            then hbind (hlift (ve_senderByNumber env tenantId (the fromNumberId))) (\<lambda>picked.
                   hret (case picked of Some from \<Rightarrow> if from \<noteq> [] \<and> isVoiceCapable from then from else [] | None \<Rightarrow> []))
            else hret []) (\<lambda>chosen.
     hbind (if chosen \<noteq> [] then hret chosen
            else hlift (ve_callerIdForAccount env tenantId (case accountSid of None \<Rightarrow> [] | Some s \<Rightarrow> s))) (\<lambda>callerId.
     if \<not> isVoiceCapable callerId then hret NeedsLocalNumber
     else hbind (createBrowserCall tenantId toNumber callerId contactId) (\<lambda>call. hret (DialCallee call callerId))))"

record InitiateCallInput =
  ic_toNumber :: string
  ic_fromNumber :: "string option"
  ic_contactId :: "string option"
  ic_url :: "string option"

definition initiate :: "VoiceEnv \<Rightarrow> string \<Rightarrow> InitiateCallInput \<Rightarrow> (Call, 'z CallStore_scheme) handler" where
  "initiate env tenantId input =
     (let toNumber = js_trim (ic_toNumber input);
          fromNumber = or_string (js_trim (case ic_fromNumber input of None \<Rightarrow> [] | Some f \<Rightarrow> f) # platform_from env) in
      if \<not> is_E164 toNumber then hfail (BadRequestException ''toNumber must be E.164'')
      else if fromNumber \<noteq> [] \<and> \<not> is_E164 fromNumber then hfail (BadRequestException ''fromNumber must be E.164'')
      else if \<not> isVoiceCapable fromNumber then hfail VOICE_NUMBER_REQUIRED
      else hbind (create_call tenantId (ic_contactId input) toNumber fromNumber CallStatus.INITIATED None None) (\<lambda>call.
        hbind (dispatch_call env (cl_id call)
          \<lparr>pr_to = toNumber, pr_from = Some fromNumber, pr_url = ic_url input, pr_sender = None,
             pr_record = True, pr_machineDetection = False, pr_timeout = None\<rparr>) (\<lambda>failure.
        case failure of
          None \<Rightarrow> hget (\<lambda>st. case find_call (cl_id call) st of None \<Rightarrow> call | Some c \<Rightarrow> c)
        | Some (code, msg) \<Rightarrow>
            hbind (applyCallStatus call CallStatus.FAILED (failure_update code msg) Dispatch)
              (\<lambda>_. hfail (ThrownError msg)))))"

section \<open>Reconciliation\<close>

record ReconcileResult =
  rr_checked :: nat
  rr_updated :: nat
  rr_abandoned :: nat

definition stale_calls :: "'z CallStore_scheme \<Rightarrow> Call list" where
  "stale_calls st = take 50 (sort_key cl_createdAt
     (filter (\<lambda>c. cl_status c \<in> set LIVE_STATUSES \<and> cl_createdAt c < vs_now st - 10 * 60 * 1000) (vs_calls st)))"

definition failStaleCall :: "Call \<Rightarrow> string \<Rightarrow> (unit, 'z CallStore_scheme) handler" where
  "failStaleCall call reason =
     (if canTransitionCall (cl_status call) CallStatus.FAILED
      then applyCallStatus call CallStatus.FAILED (no_update\<lparr>cu_errorMessage := Some reason\<rparr>) Reconcile
      else hret ())"

definition remote_update :: "CallStatus \<Rightarrow> RemoteCall \<Rightarrow> CallUpdate" where
  "remote_update target remote =
     no_update\<lparr>cu_durationSeconds := cu_durationSeconds (rm_update remote), cu_priceCents := cu_priceCents (rm_update remote),
       cu_currency := cu_currency (rm_update remote), cu_startedAt := cu_startedAt (rm_update remote),
       cu_endedAt := cu_endedAt (rm_update remote),
       cu_errorMessage := (if target \<noteq> CallStatus.COMPLETED
         then Some (''Recovered by reconciliation (provider status: '' @ rm_status remote @ '')'') else None)\<rparr>"

text \<open>One stale call, at the time \<open>now\<close> the sweep began: \<open>None\<close> leaves it, \<open>Some False\<close> counts as updated, \<open>Some True\<close> as abandoned.\<close>

definition reconcile_one :: "VoiceEnv \<Rightarrow> rat \<Rightarrow> Call \<Rightarrow> (bool option, 'z CallStore_scheme) handler" where
  "reconcile_one env now call =
     (if truthy (cl_providerCallId call)
      then case ve_fetch env (the (cl_providerCallId call)) of
             Inl e \<Rightarrow> hfail (ThrownError e)
           | Inr (Some remote) \<Rightarrow>
               (case mapTwilioCallStatus (rm_status remote) of
                  None \<Rightarrow> hret None
                | Some target \<Rightarrow>
                    if canTransitionCall (cl_status call) target
                    then hbind (applyCallStatus call target (remote_update target remote) Reconcile) (\<lambda>_. hret (Some False))
                    else hret None)
           | Inr None \<Rightarrow>
               if cl_createdAt call < now - 24 * 60 * 60 * 1000
               then hbind (failStaleCall call ''No provider updates for 24h - failed by reconciliation'') (\<lambda>_. hret (Some True))
               else hret None
      else if cl_createdAt call < now - 60 * 60 * 1000
      then hbind (failStaleCall call ''No status callback received - failed by reconciliation'') (\<lambda>_. hret (Some True))
      else hret None)"

text \<open>A call that fails does not stop the sweep.\<close>

fun reconcile_loop :: "VoiceEnv \<Rightarrow> rat \<Rightarrow> Call list \<Rightarrow> ReconcileResult \<Rightarrow> (ReconcileResult, 'z CallStore_scheme) handler" where
  "reconcile_loop env now [] acc = hret acc"
| "reconcile_loop env now (call # calls) acc =
     hbind (hcatch (reconcile_one env now call) (\<lambda>_. hret None)) (\<lambda>outcome.
       reconcile_loop env now calls
         (case outcome of
            None \<Rightarrow> acc
          | Some False \<Rightarrow> acc\<lparr>rr_updated := rr_updated acc + 1\<rparr>
          | Some True \<Rightarrow> acc\<lparr>rr_abandoned := rr_abandoned acc + 1\<rparr>))"

definition reconcileStaleCalls :: "VoiceEnv \<Rightarrow> (ReconcileResult, 'z CallStore_scheme) handler" where
  "reconcileStaleCalls env = hbind (hget (\<lambda>st. (stale_calls st, vs_now st))) (\<lambda>(stale, now).
     reconcile_loop env now stale \<lparr>rr_checked = length stale, rr_updated = 0, rr_abandoned = 0\<rparr>)"

section \<open>Reads\<close>

record ListCallsFilter =
  lf_status :: "CallStatus list option"
  lf_contactId :: "string option"
  lf_search :: "string option"
  lf_from :: "rat option"
  lf_to :: "rat option"
  lf_limit :: "int option"
  lf_offset :: "int option"

definition call_where :: "string \<Rightarrow> ListCallsFilter \<Rightarrow> Call \<Rightarrow> bool" where
  "call_where tenantId f c \<longleftrightarrow> cl_tenantId c = tenantId \<and>
     (case lf_status f of None \<Rightarrow> True | Some [] \<Rightarrow> True | Some ss \<Rightarrow> cl_status c \<in> set ss) \<and>
     (truthy (lf_contactId f) \<longrightarrow> cl_contactId c = lf_contactId f) \<and>
     (truthy (lf_search f) \<longrightarrow>
        (let q = js_lower (js_trim (the (lf_search f))) in
         str_includes (js_lower (cl_toNumber c)) q \<or> str_includes (js_lower (cl_fromNumber c)) q)) \<and>
     (case lf_from f of None \<Rightarrow> True | Some t \<Rightarrow> t \<le> cl_createdAt c) \<and>
     (case lf_to f of None \<Rightarrow> True | Some t \<Rightarrow> cl_createdAt c \<le> t)"

text \<open>The newest first; the table is in creation order.\<close>

definition listCalls :: "string \<Rightarrow> ListCallsFilter \<Rightarrow> 'z CallStore_scheme \<Rightarrow> Call list \<times> nat" where
  "listCalls tenantId f st =
     (let rows = filter (call_where tenantId f) (vs_calls st);
          limit = min (max 1 (case lf_limit f of None \<Rightarrow> 25 | Some n \<Rightarrow> n)) 200;
          offset = max 0 (case lf_offset f of None \<Rightarrow> 0 | Some n \<Rightarrow> n) in
      (take (nat limit) (drop (nat offset) (rev rows)), length rows))"

definition call_stats :: "string \<Rightarrow> ListCallsFilter \<Rightarrow> 'z CallStore_scheme \<Rightarrow> nat \<times> (CallStatus \<times> nat) list \<times> int" where
  "call_stats tenantId f st =
     (let rows = filter (call_where tenantId f) (vs_calls st);
          groups = map (\<lambda>s. (s, length (filter (\<lambda>c. cl_status c = s) rows)))
            [CallStatus.INITIATED, CallStatus.RINGING, CallStatus.IN_PROGRESS, CallStatus.COMPLETED, CallStatus.BUSY,
             CallStatus.NO_ANSWER, CallStatus.FAILED];
          byStatus = filter (\<lambda>(s, n). 0 < n) groups in
      (sum_list (map snd byStatus), byStatus, sum_list (map (\<lambda>c. case cl_durationSeconds c of None \<Rightarrow> 0 | Some d \<Rightarrow> d) rows)))"

definition getCall :: "string \<Rightarrow> string \<Rightarrow> (Call, 'z CallStore_scheme) handler" where
  "getCall tenantId i = (\<lambda>st. (case find (\<lambda>c. cl_id c = i \<and> cl_tenantId c = tenantId) (vs_calls st) of
     None \<Rightarrow> Inl (NotFoundException ''Call not found'') | Some c \<Rightarrow> Inr c, st))"

end
