(* ===== verification/Dialer_Window.thy ===== *)
theory Dialer_Window
  imports Js_Values Audience_Recipients
begin

text \<open>
  When a campaign may call: \<^verbatim>\<open>apps/api/src/autodialer/dialer-window.util.ts\<close>. The zone names the runtime knows and the
  wall clock of a zone (\<open>Intl.DateTimeFormat\<close>) are arguments. The window is shown to be the one reading of
  the clock that wraps at midnight: the minutes since the start are fewer than the minutes the window lasts.
\<close>

record Clock =
  ck_knownZone :: "string \<Rightarrow> bool"
  ck_hour :: "string \<Rightarrow> rat \<Rightarrow> nat"
  ck_minute :: "string \<Rightarrow> rat \<Rightarrow> nat"

definition DEFAULT_TENANT_TIMEZONE :: string where
  "DEFAULT_TENANT_TIMEZONE = ''Australia/Sydney''"

definition resolveTenantTimezone :: "Clock \<Rightarrow> json option \<Rightarrow> string" where
  "resolveTenantTimezone clock settings =
     (case settings of
        Some (JObj kvs) \<Rightarrow>
          (case map_of kvs ''timezone'' of
             Some (JStr tz) \<Rightarrow>
               if js_trim tz \<noteq> [] \<and> ck_knownZone clock (js_trim tz) then js_trim tz else DEFAULT_TENANT_TIMEZONE
           | _ \<Rightarrow> DEFAULT_TENANT_TIMEZONE)
      | _ \<Rightarrow> DEFAULT_TENANT_TIMEZONE)"

text \<open>\<open>/^([01]\d|2[0-3]):([0-5]\d)$/\<close>\<close>

fun hhmm_match :: "string \<Rightarrow> (nat \<times> nat) option" where
  "hhmm_match [a, b, c, d, e] =
     (if (a \<in> {CHR ''0'', CHR ''1''} \<and> is_digit b \<or> a = CHR ''2'' \<and> b \<in> {CHR ''0'', CHR ''1'', CHR ''2'', CHR ''3''}) \<and>
         c = CHR '':'' \<and> is_digit d \<and> digit_val d \<le> 5 \<and> is_digit e
      then Some (digits_val [a, b], digits_val [d, e]) else None)"
| "hhmm_match _ = None"

definition parseHhMm :: "string \<Rightarrow> nat option" where
  "parseHhMm value = (case hhmm_match (js_trim value) of None \<Rightarrow> None | Some (h, m) \<Rightarrow> Some (h * 60 + m))"

definition minutesOfDayIn :: "Clock \<Rightarrow> string \<Rightarrow> rat \<Rightarrow> nat" where
  "minutesOfDayIn clock timeZone now = ck_hour clock timeZone now * 60 + ck_minute clock timeZone now"

definition isWithinCallingWindow :: "Clock \<Rightarrow> string \<Rightarrow> string \<Rightarrow> string \<Rightarrow> rat \<Rightarrow> bool" where
  "isWithinCallingWindow clock dailyStart dailyFinish timeZone now =
     (case (parseHhMm dailyStart, parseHhMm dailyFinish) of
        (Some start, Some finish) \<Rightarrow>
          if start = finish then False
          else let current = minutesOfDayIn clock timeZone now in
            if start < finish then start \<le> current \<and> current < finish
            else start \<le> current \<or> current < finish
      | _ \<Rightarrow> False)"

section \<open>The window wraps at midnight\<close>

lemma hhmm_bounds: "hhmm_match s = Some (h, m) \<Longrightarrow> h < 24 \<and> m < 60"
  by (cases s rule: hhmm_match.cases)
    (auto simp: digits_val_def is_digit_def digit_val_def split: if_splits)

lemma parse_bounds: "parseHhMm v = Some m \<Longrightarrow> m < 1440"
  using hhmm_bounds by (fastforce simp: parseHhMm_def split: option.splits prod.splits)

lemma window_wraps:
  fixes start finish current :: nat
  assumes "start < 1440" "finish < 1440" "current < 1440"
  shows "(if start = finish then False
      else if start < finish then start \<le> current \<and> current < finish else start \<le> current \<or> current < finish) \<longleftrightarrow>
    (current + 1440 - start) mod 1440 < (finish + 1440 - start) mod 1440"
proof -
  have m: "(x + 1440 - start) mod 1440 = (if start \<le> x then x - start else x + 1440 - start)" if "x < 1440" for x :: nat
    using that assms(1) by (auto simp: mod_if)
  show ?thesis unfolding m [OF assms(2)] m [OF assms(3)] using assms by auto
qed

end
