(* ===== verification/Dialer_Store.thy ===== *)
theory Dialer_Store
  imports Calls Dialer_Window Question_Graph
begin

text \<open>
  The dialler's tables: the \<open>autodialer\<close> schema of \<^verbatim>\<open>packages/db/prisma/schema.prisma\<close>. The store of calls is extended by
  the dialler's own tables, in creation order. A question row keeps its answers, as the queries include
  them; the payloads of the progress rows of a session are dropped. Times are milliseconds.
\<close>

section \<open>Rows\<close>

datatype DialerAnswerType = SMS | SET_LANGUAGE | REDIRECT | SWITCHBOARD

datatype DialerCallKind = PHONE | WEBRTC

record DialerAnswer =
  da_digit :: string
  da_value :: string
  da_nextKey :: "string option"
  da_type :: "DialerAnswerType option"
  da_content :: "string option"
  da_transfer :: bool
  da_dispositionCode :: "string option"
  da_supportLevel :: "string option"

record DialerNode =
  dn_key :: string
  dn_name :: string
  dn_type :: QuestionType
  dn_audioPrompt :: "json option"
  dn_answers :: "DialerAnswer list"

record DialerQuestion =
  dq_tenantId :: string
  dq_campaignId :: string
  dq_orderIndex :: nat
  dq_node :: DialerNode

record DialerCampaign =
  dc_id :: string
  dc_tenantId :: string
  dc_name :: string
  dc_status :: DialerCampaignStatus
  dc_outboundOnly :: bool
  dc_publicVisible :: bool
  dc_survey :: bool
  dc_electoralTarget :: bool
  dc_transparentTargetTransfer :: bool
  dc_audienceId :: "string option"
  dc_dailyStart :: string
  dc_dailyFinish :: string
  dc_dialerPeriodMinutes :: int
  dc_noCallWindowHours :: int
  dc_maxCallAttempts :: int
  dc_batchSize :: int
  dc_fromNumberId :: "string option"
  dc_intro :: "json option"
  dc_outro :: "json option"
  dc_optOut :: "json option"
  dc_targetNumbers :: "json option"
  dc_targetPoliticians :: "json option"
  dc_callerChoosesTarget :: bool
  dc_partyTargets :: "json option"
  dc_jurisdiction :: "string option"
  dc_officeTarget :: "string option"
  dc_amdEnabled :: bool
  dc_recordingEnabled :: bool
  dc_defaultLanguage :: string
  dc_lastDialedAt :: "rat option"
  dc_startedAt :: "rat option"
  dc_completedAt :: "rat option"
  dc_createdById :: "string option"

record DialerAttempt =
  dt_id :: string
  dt_tenantId :: string
  dt_campaignId :: string
  dt_contactId :: "string option"
  dt_phoneE164 :: string
  dt_attemptNo :: nat
  dt_kind :: DialerCallKind
  dt_callId :: "string option"
  dt_language :: string
  dt_postcode :: "string option"
  dt_outcome :: DialerAttemptOutcome
  dt_createdAt :: rat

record DialerCallSession =
  ss_id :: string
  ss_tenantId :: string
  ss_campaignId :: string
  ss_actionPageId :: "string option"
  ss_status :: DialerSessionStatus
  ss_callId :: "string option"
  ss_targetCallId :: "string option"
  ss_conferenceName :: "string option"
  ss_supporterName :: "string option"
  ss_supporterPhone :: "string option"
  ss_targetNumber :: "string option"
  ss_targetName :: "string option"
  ss_targetParty :: "string option"
  ss_targetElectorate :: "string option"
  ss_postcode :: "string option"
  ss_language :: string
  ss_expiresAt :: rat
  ss_endedAt :: "rat option"
  ss_createdAt :: rat

record DialerSurveyResult =
  sr_tenantId :: string
  sr_campaignId :: string
  sr_callId :: string
  sr_attemptId :: "string option"
  sr_sessionId :: "string option"
  sr_contactId :: "string option"
  sr_questionKey :: string
  sr_answerDigit :: string
  sr_answerValue :: string
  sr_dispositionCode :: "string option"
  sr_supportLevel :: "string option"

record DialerRedirect =
  rd_id :: string
  rd_tenantId :: string
  rd_campaignId :: string
  rd_callId :: "string option"
  rd_sessionId :: "string option"
  rd_contactId :: "string option"
  rd_targetNumber :: string
  rd_phoneNumber :: "string option"
  rd_targetName :: "string option"
  rd_targetParty :: "string option"
  rd_electorate :: "string option"
  rd_data :: "string option"

text \<open>A disposition the dialler wrote back: tenant, contact, code, campaign and support level.\<close>

record DialerDisposition =
  dd_tenantId :: string
  dd_contactId :: string
  dd_code :: string
  dd_campaignId :: string
  dd_supportLevel :: "string option"

datatype DialerWork =
    CampaignTick string string
  | PlaceCall string string
  | PlaceTarget string string

record DialerJob =
  dj_id :: string
  dj_work :: DialerWork
  dj_runAt :: rat

record DialerStore = CallStore +
  dl_campaigns :: "DialerCampaign list"
  dl_questions :: "DialerQuestion list"
  dl_attempts :: "DialerAttempt list"
  dl_sessions :: "DialerCallSession list"
  dl_results :: "DialerSurveyResult list"
  dl_redirects :: "DialerRedirect list"
  dl_progress :: "(string \<times> string) list"
  dl_dispositions :: "DialerDisposition list"
  dl_texts :: "(string \<times> string \<times> string) list"
  dl_jobs :: "DialerJob list"
  dl_handled :: "(string \<times> nat) list"
  dl_settings :: "(string \<times> json option) list"
  dl_audience :: AudienceStore
  dl_nextId :: nat

type_synonym 'a dialer = "('a, DialerStore) handler"

text \<open>\<open>de_enabled\<close> is the feature flag by tenant, \<open>de_queueUp\<close> says whether the queue takes a job; the politicians and
  the regions of a postcode are the civic and geographic tables.\<close>

record Politician =
  po_id :: string
  po_name :: string
  po_party :: "string option"
  po_electorate :: "string option"
  po_phone :: "string option"
  po_geoKind :: string
  po_geoCode :: string
  po_jurisdiction :: string
  po_chamber :: string

record PostcodeRegion =
  pc_postcode :: string
  pc_kind :: string
  pc_code :: string
  pc_name :: "string option"
  pc_addressCount :: nat

record DialerEnv =
  de_voice :: VoiceEnv
  de_clock :: Clock
  de_resolver :: ResolverEnv
  de_enabled :: "string \<Rightarrow> bool"
  de_queueUp :: "string \<Rightarrow> bool"
  de_voiceSender :: "string \<Rightarrow> string option res"
  de_baseUrl :: string
  de_ringTimeout :: "rat option"
  de_politicians :: "Politician list"
  de_regions :: "PostcodeRegion list"
  de_fileUrl :: "string \<Rightarrow> string \<Rightarrow> string option"
  de_sendSms :: "string \<Rightarrow> string \<Rightarrow> string \<Rightarrow> bool"

end
