(* ===== verification/Dialer_Campaigns.thy ===== *)
theory Dialer_Campaigns
  imports Dialer_Store
begin

text \<open>
  The dialler's campaigns: \<^verbatim>\<open>apps/api/src/autodialer/autodialer.service.ts\<close>. The \<open>detail\<close> of a preflight check is for
  humans and is dropped, and so are the descriptions of issues in an error.
\<close>

section \<open>Target numbers\<close>

text \<open>\<open>/^\+61[123478]\d{5,8}$/\<close>\<close>

definition isValidAuTargetNumber :: "string \<Rightarrow> bool" where
  "isValidAuTargetNumber v \<longleftrightarrow> (case v of
     p # a # b # d # ds \<Rightarrow> [p, a, b] = ''+61'' \<and> d \<in> set ''123478'' \<and> list_all is_digit ds \<and> 5 \<le> length ds \<and> length ds \<le> 8
   | _ \<Rightarrow> False)"

fun targetNumbers :: "json option \<Rightarrow> string list" where
  "targetNumbers (Some (JArr js)) = List.map_filter (\<lambda>j. case j of JStr s \<Rightarrow> Some s | _ \<Rightarrow> None) js"
| "targetNumbers (Some (JStr s)) = (if s = [] then [] else [s])"
| "targetNumbers _ = []"

section \<open>Reads\<close>

definition CAMPAIGN_NOT_FOUND :: api_error where
  "CAMPAIGN_NOT_FOUND = NotFoundException ''Campaign not found''"

definition find_campaign :: "string \<Rightarrow> DialerStore \<Rightarrow> DialerCampaign option" where
  "find_campaign i st = find (\<lambda>c. dc_id c = i) (dl_campaigns st)"

definition campaign_questions :: "string \<Rightarrow> DialerStore \<Rightarrow> DialerQuestion list" where
  "campaign_questions i st = sort_key dq_orderIndex (filter (\<lambda>q. dq_campaignId q = i) (dl_questions st))"

definition by_digit :: "DialerNode \<Rightarrow> DialerNode" where
  "by_digit n = n\<lparr>dn_answers := sort_key da_digit (dn_answers n)\<rparr>"

definition get_campaign :: "string \<Rightarrow> string \<Rightarrow> (DialerCampaign \<times> DialerNode list) dialer" where
  "get_campaign tenantId i = (\<lambda>st.
     (case find (\<lambda>c. dc_id c = i \<and> dc_tenantId c = tenantId) (dl_campaigns st) of
        None \<Rightarrow> Inl CAMPAIGN_NOT_FOUND
      | Some c \<Rightarrow> Inr (c, map (\<lambda>q. by_digit (dq_node q)) (campaign_questions i st)), st))"

definition behaviourWhere :: "string option \<Rightarrow> DialerCampaign \<Rightarrow> bool" where
  "behaviourWhere behaviour c \<longleftrightarrow>
     (if behaviour = Some ''broadcast'' then dc_outboundOnly c \<and> \<not> dc_survey c \<and> \<not> dc_electoralTarget c
      else if behaviour = Some ''survey'' then dc_survey c
      else if behaviour = Some ''electoral'' then dc_electoralTarget c
      else if behaviour = Some ''transfer'' then dc_transparentTargetTransfer c \<or> dc_targetNumbers c \<noteq> None
      else True)"

record ListCampaignsQuery =
  lq_status :: "DialerCampaignStatus option"
  lq_search :: "string option"
  lq_behaviour :: "string option"
  lq_limit :: nat
  lq_offset :: nat

definition list_campaigns :: "string \<Rightarrow> ListCampaignsQuery \<Rightarrow> DialerStore \<Rightarrow> DialerCampaign list \<times> nat" where
  "list_campaigns tenantId q st =
     (let rows = filter (\<lambda>c. dc_tenantId c = tenantId \<and>
            (case lq_status q of Some s \<Rightarrow> dc_status c = s | None \<Rightarrow> dc_status c \<noteq> DialerCampaignStatus.ARCHIVED) \<and>
            (truthy (lq_search q) \<longrightarrow> str_includes (js_lower (dc_name c)) (js_lower (the (lq_search q)))) \<and>
            behaviourWhere (lq_behaviour q) c) (dl_campaigns st) in
      (take (lq_limit q) (drop (lq_offset q) (rev rows)), length rows))"

section \<open>The activation gate\<close>

definition graph_answer :: "DialerAnswer \<Rightarrow> QuestionGraphAnswer" where
  "graph_answer a = \<lparr>qa_digit = da_digit a, qa_value = da_value a, qa_nextKey = da_nextKey a\<rparr>"

definition graph_node :: "DialerNode \<Rightarrow> QuestionGraphNode" where
  "graph_node n = \<lparr>qn_key = dn_key n, qn_name = Some (dn_name n), qn_type = Some (dn_type n),
     qn_answers = map graph_answer (dn_answers n)\<rparr>"

definition preflight_checks :: "DialerEnv \<Rightarrow> DialerCampaign \<Rightarrow> DialerNode list \<Rightarrow> (string \<times> bool) list" where
  "preflight_checks env c questions =
     (let targets = targetNumbers (dc_targetNumbers c) in
      [(''flag'', de_enabled env (dc_tenantId c)),
       (''audience'', \<not> dc_outboundOnly c \<or> truthy (dc_audienceId c)),
       (''window'', hhmm_match (dc_dailyStart c) \<noteq> None \<and> hhmm_match (dc_dailyFinish c) \<noteq> None)] @
      (if dc_survey c then [(''survey'', questionGraphActivatable (map graph_node questions))] else []) @
      (if dc_electoralTarget c then [(''jurisdiction'', truthy (dc_jurisdiction c))] else []) @
      (if dc_transparentTargetTransfer c \<and> \<not> dc_electoralTarget c then [(''targets'', targets \<noteq> [])] else []) @
      (if targets \<noteq> [] then [(''target-numbers'', list_all isValidAuTargetNumber targets)] else []))"

definition preflight :: "DialerEnv \<Rightarrow> string \<Rightarrow> string \<Rightarrow> (bool \<times> (string \<times> bool) list) dialer" where
  "preflight env tenantId i = hbind (get_campaign tenantId i) (\<lambda>(c, questions).
     let checks = preflight_checks env c questions in hret (list_all snd checks, checks))"

section \<open>Mutations\<close>

definition dialer_id :: "string \<Rightarrow> nat \<Rightarrow> string" where
  "dialer_id stem n = stem @ nat_to_string n"

record CreateCampaignDto =
  cd_name :: string
  cd_outboundOnly :: "bool option"
  cd_survey :: "bool option"
  cd_electoralTarget :: "bool option"
  cd_transparentTargetTransfer :: "bool option"

definition or_false :: "bool option \<Rightarrow> bool" where
  "or_false b \<longleftrightarrow> b = Some True"

text \<open>The column defaults of the schema.\<close>

definition fresh_campaign :: "string \<Rightarrow> string \<Rightarrow> string \<Rightarrow> string option \<Rightarrow> DialerCampaign" where
  "fresh_campaign i tenantId name createdById =
     \<lparr>dc_id = i, dc_tenantId = tenantId, dc_name = name, dc_status = DialerCampaignStatus.DRAFT, dc_outboundOnly = False,
       dc_publicVisible = False, dc_survey = False, dc_electoralTarget = False, dc_transparentTargetTransfer = False,
       dc_audienceId = None, dc_dailyStart = ''09:00'', dc_dailyFinish = ''20:00'', dc_dialerPeriodMinutes = 5,
       dc_noCallWindowHours = 24, dc_maxCallAttempts = 3, dc_batchSize = 20, dc_fromNumberId = None, dc_intro = None,
       dc_outro = None, dc_optOut = None, dc_targetNumbers = None, dc_targetPoliticians = None,
       dc_callerChoosesTarget = False, dc_partyTargets = None, dc_jurisdiction = None, dc_officeTarget = None,
       dc_amdEnabled = True, dc_recordingEnabled = False, dc_defaultLanguage = ''en'', dc_lastDialedAt = None,
       dc_startedAt = None, dc_completedAt = None, dc_createdById = createdById\<rparr>"

definition insert_campaign :: "DialerCampaign \<Rightarrow> DialerStore \<Rightarrow> DialerStore" where
  "insert_campaign c st = st\<lparr>dl_campaigns := dl_campaigns st @ [c], dl_nextId := dl_nextId st + 1,
     vs_events := vs_events st @ [CampaignCreated (dc_id c) (dc_tenantId c) (dc_name c)]\<rparr>"

definition create_campaign :: "string \<Rightarrow> CreateCampaignDto \<Rightarrow> string option \<Rightarrow> DialerCampaign dialer" where
  "create_campaign tenantId dto createdById = (\<lambda>st.
     (let c = (fresh_campaign (dialer_id ''dc'' (dl_nextId st)) tenantId (cd_name dto) createdById)
            \<lparr>dc_outboundOnly := or_false (cd_outboundOnly dto), dc_survey := or_false (cd_survey dto),
             dc_electoralTarget := or_false (cd_electoralTarget dto),
             dc_transparentTargetTransfer := or_false (cd_transparentTargetTransfer dto)\<rparr> in
      (Inr c, insert_campaign c st)))"

definition assertEditable :: "DialerCampaignStatus \<Rightarrow> unit res" where
  "assertEditable status =
     (if status \<noteq> DialerCampaignStatus.DRAFT \<and> status \<noteq> DialerCampaignStatus.PAUSED
      then Inl (ApiHttpException ''CAMPAIGN_NOT_EDITABLE'' 409) else Inr ())"

definition update_campaign :: "string \<Rightarrow> (DialerCampaign \<Rightarrow> DialerCampaign) \<Rightarrow> unit dialer" where
  "update_campaign i f = hmodify (\<lambda>st.
     st\<lparr>dl_campaigns := map (\<lambda>c. if dc_id c = i then f c else c) (dl_campaigns st)\<rparr>)"

text \<open>A field of the update is absent, or present with a value; a nullable one may be present with \<open>null\<close>.\<close>

record PinnedPolitician =
  pp_id :: string
  pp_name :: string
  pp_party :: "string option"
  pp_electorate :: "string option"

record UpdateCampaignDto =
  ud_name :: "string option"
  ud_outboundOnly :: "bool option"
  ud_publicVisible :: "bool option"
  ud_survey :: "bool option"
  ud_electoralTarget :: "bool option"
  ud_transparentTargetTransfer :: "bool option"
  ud_audienceId :: "string option option"
  ud_dailyStart :: "string option"
  ud_dailyFinish :: "string option"
  ud_dialerPeriodMinutes :: "int option"
  ud_noCallWindowHours :: "int option"
  ud_maxCallAttempts :: "int option"
  ud_batchSize :: "int option"
  ud_fromNumberId :: "string option option"
  ud_intro :: "json option option"
  ud_outro :: "json option option"
  ud_optOut :: "json option option"
  ud_targetNumbers :: "string list option option"
  ud_targetPoliticians :: "PinnedPolitician list option option"
  ud_callerChoosesTarget :: "bool option"
  ud_partyTargets :: "string list option option"
  ud_jurisdiction :: "string option option"
  ud_officeTarget :: "string option option"
  ud_amdEnabled :: "bool option"
  ud_recordingEnabled :: "bool option"
  ud_defaultLanguage :: "string option"

definition given :: "'a option \<Rightarrow> 'a \<Rightarrow> 'a" where
  "given new old = (case new of None \<Rightarrow> old | Some v \<Rightarrow> v)"

definition json_strings :: "string list option \<Rightarrow> json option" where
  "json_strings = map_option (\<lambda>xs. JArr (map JStr xs))"

definition json_nullable :: "string option \<Rightarrow> json" where
  "json_nullable v = (case v of None \<Rightarrow> JNull | Some s \<Rightarrow> JStr s)"

definition json_politicians :: "PinnedPolitician list option \<Rightarrow> json option" where
  "json_politicians = map_option (\<lambda>ps. JArr (map (\<lambda>p. JObj
     [(''id'', JStr (pp_id p)), (''name'', JStr (pp_name p)), (''party'', json_nullable (pp_party p)),
      (''electorate'', json_nullable (pp_electorate p))]) ps))"

definition patch_campaign :: "UpdateCampaignDto \<Rightarrow> DialerCampaign \<Rightarrow> DialerCampaign" where
  "patch_campaign d c = c\<lparr>
     dc_name := given (ud_name d) (dc_name c),
     dc_outboundOnly := given (ud_outboundOnly d) (dc_outboundOnly c),
     dc_publicVisible := given (ud_publicVisible d) (dc_publicVisible c),
     dc_survey := given (ud_survey d) (dc_survey c),
     dc_electoralTarget := given (ud_electoralTarget d) (dc_electoralTarget c),
     dc_transparentTargetTransfer := given (ud_transparentTargetTransfer d) (dc_transparentTargetTransfer c),
     dc_audienceId := given (ud_audienceId d) (dc_audienceId c),
     dc_dailyStart := given (ud_dailyStart d) (dc_dailyStart c),
     dc_dailyFinish := given (ud_dailyFinish d) (dc_dailyFinish c),
     dc_dialerPeriodMinutes := given (ud_dialerPeriodMinutes d) (dc_dialerPeriodMinutes c),
     dc_noCallWindowHours := given (ud_noCallWindowHours d) (dc_noCallWindowHours c),
     dc_maxCallAttempts := given (ud_maxCallAttempts d) (dc_maxCallAttempts c),
     dc_batchSize := given (ud_batchSize d) (dc_batchSize c),
     dc_fromNumberId := given (ud_fromNumberId d) (dc_fromNumberId c),
     dc_intro := given (ud_intro d) (dc_intro c),
     dc_outro := given (ud_outro d) (dc_outro c),
     dc_optOut := given (ud_optOut d) (dc_optOut c),
     dc_targetNumbers := given (map_option json_strings (ud_targetNumbers d)) (dc_targetNumbers c),
     dc_targetPoliticians := given (map_option json_politicians (ud_targetPoliticians d)) (dc_targetPoliticians c),
     dc_callerChoosesTarget := given (ud_callerChoosesTarget d) (dc_callerChoosesTarget c),
     dc_partyTargets := given (map_option json_strings (ud_partyTargets d)) (dc_partyTargets c),
     dc_jurisdiction := given (ud_jurisdiction d) (dc_jurisdiction c),
     dc_officeTarget := given (ud_officeTarget d) (dc_officeTarget c),
     dc_amdEnabled := given (ud_amdEnabled d) (dc_amdEnabled c),
     dc_recordingEnabled := given (ud_recordingEnabled d) (dc_recordingEnabled c),
     dc_defaultLanguage := given (ud_defaultLanguage d) (dc_defaultLanguage c)\<rparr>"

definition updateCampaign :: "string \<Rightarrow> string \<Rightarrow> UpdateCampaignDto \<Rightarrow> unit dialer" where
  "updateCampaign tenantId i dto = hbind (get_campaign tenantId i) (\<lambda>(c, questions).
     hbind (hlift (assertEditable (dc_status c))) (\<lambda>_.
     if (case ud_targetNumbers dto of Some (Some ts) \<Rightarrow> list_ex (\<lambda>t. \<not> isValidAuTargetNumber t) ts | _ \<Rightarrow> False)
     then hfail (ApiHttpException ''INVALID_TARGET_NUMBER'' 422)
     else update_campaign i (patch_campaign dto)))"

section \<open>The question graph of a campaign\<close>

text \<open>Issues that storage cannot hold block saving; everything else is work in progress, returned to the editor.\<close>

definition GRAPH_SAVE_BLOCKERS :: "IssueCode list" where
  "GRAPH_SAVE_BLOCKERS = [DUPLICATE_KEY, DUPLICATE_DIGIT, INVALID_DIGIT, EMPTY_GRAPH]"

datatype UpsertGraphDto =
    Questions "DialerNode list"
  | Authoring "(AuthoringQuestion \<times> json option) list"

definition authored_node :: "QuestionGraphNode \<Rightarrow> json option \<Rightarrow> DialerNode" where
  "authored_node n prompt =
     \<lparr>dn_key = qn_key n, dn_name = (case qn_name n of None \<Rightarrow> [] | Some x \<Rightarrow> x),
       dn_type = (if qn_type n = Some QuestionType.SWITCHBOARD then QuestionType.SWITCHBOARD else STANDARD),
       dn_audioPrompt = prompt,
       dn_answers = map (\<lambda>a. \<lparr>da_digit = qa_digit a, da_value = qa_value a, da_nextKey = qa_nextKey a, da_type = None,
         da_content = None, da_transfer = False, da_dispositionCode = None, da_supportLevel = None\<rparr>) (qn_answers n)\<rparr>"

fun graph_of :: "UpsertGraphDto \<Rightarrow> DialerNode list" where
  "graph_of (Questions qs) = qs"
| "graph_of (Authoring as) = map2 authored_node (expandAuthoringFormat (map fst as)) (map snd as)"

definition question_rows :: "string \<Rightarrow> string \<Rightarrow> DialerNode list \<Rightarrow> DialerQuestion list" where
  "question_rows tenantId campaignId ns =
     map (\<lambda>(index, n). \<lparr>dq_tenantId = tenantId, dq_campaignId = campaignId, dq_orderIndex = index, dq_node = n\<rparr>) (enumerate 0 ns)"

definition graph_blocked :: "DialerNode list \<Rightarrow> bool" where
  "graph_blocked graph = list_ex (\<lambda>i. qi_severity i = SevError \<and> qi_code i \<in> set GRAPH_SAVE_BLOCKERS)
     (validateQuestionGraph (map graph_node graph))"

definition upsertQuestionGraph ::
  "string \<Rightarrow> string \<Rightarrow> UpsertGraphDto \<Rightarrow> ((DialerCampaign \<times> DialerNode list) \<times> QuestionGraphIssue list) dialer" where
  "upsertQuestionGraph tenantId i dto = hbind (get_campaign tenantId i) (\<lambda>(c, questions).
     hbind (hlift (assertEditable (dc_status c))) (\<lambda>_.
     let graph = graph_of dto in
     if graph_blocked graph then hfail (ApiHttpException ''INVALID_QUESTION_GRAPH'' 422)
     else hbind (hmodify (\<lambda>st. st\<lparr>dl_questions :=
            filter (\<lambda>q. dq_campaignId q \<noteq> dc_id c) (dl_questions st) @ question_rows tenantId (dc_id c) graph\<rparr>)) (\<lambda>_.
       hbind (get_campaign tenantId i) (\<lambda>saved. hret (saved, validateQuestionGraph (map graph_node graph))))))"

section \<open>Clones\<close>

definition campaign_copy :: "string \<Rightarrow> string option \<Rightarrow> DialerCampaign \<Rightarrow> DialerCampaign" where
  "campaign_copy i createdById source =
     (fresh_campaign i (dc_tenantId source) (dc_name source @ '' (copy)'') createdById)
       \<lparr>dc_outboundOnly := dc_outboundOnly source, dc_publicVisible := dc_publicVisible source, dc_survey := dc_survey source,
        dc_electoralTarget := dc_electoralTarget source,
        dc_transparentTargetTransfer := dc_transparentTargetTransfer source, dc_audienceId := dc_audienceId source,
        dc_dailyStart := dc_dailyStart source, dc_dailyFinish := dc_dailyFinish source,
        dc_dialerPeriodMinutes := dc_dialerPeriodMinutes source, dc_noCallWindowHours := dc_noCallWindowHours source,
        dc_maxCallAttempts := dc_maxCallAttempts source, dc_batchSize := dc_batchSize source,
        dc_fromNumberId := dc_fromNumberId source, dc_intro := dc_intro source, dc_outro := dc_outro source,
        dc_optOut := dc_optOut source, dc_targetNumbers := dc_targetNumbers source, dc_partyTargets := dc_partyTargets source,
        dc_jurisdiction := dc_jurisdiction source, dc_officeTarget := dc_officeTarget source,
        dc_amdEnabled := dc_amdEnabled source, dc_recordingEnabled := dc_recordingEnabled source,
        dc_defaultLanguage := dc_defaultLanguage source\<rparr>"

definition clone_campaign :: "string \<Rightarrow> string \<Rightarrow> string option \<Rightarrow> DialerCampaign dialer" where
  "clone_campaign tenantId i createdById = hbind (get_campaign tenantId i) (\<lambda>(source, questions). (\<lambda>st.
     (let copy = campaign_copy (dialer_id ''dc'' (dl_nextId st)) createdById source;
          orders = map dq_orderIndex (campaign_questions i st) in
      (Inr copy, insert_campaign copy (st\<lparr>dl_questions := dl_questions st @
         map2 (\<lambda>n k. \<lparr>dq_tenantId = tenantId, dq_campaignId = dc_id copy, dq_orderIndex = k, dq_node = n\<rparr>) questions orders\<rparr>)))))"

section \<open>Transitions\<close>

text \<open>Lock, load, consult the machine, write and announce, in one transaction.\<close>

definition campaign_transition ::
  "string \<Rightarrow> string \<Rightarrow> DialerCampaignStatus \<Rightarrow> (DialerCampaign \<Rightarrow> DialerCampaign) \<Rightarrow> (DialerCampaign \<Rightarrow> DialerStore \<Rightarrow> PhoneEvent) \<Rightarrow>
     DialerCampaign dialer" where
  "campaign_transition tenantId i target extraData event = (\<lambda>st.
     (case find (\<lambda>c. dc_id c = i \<and> dc_tenantId c = tenantId) (dl_campaigns st) of
        None \<Rightarrow> (Inl CAMPAIGN_NOT_FOUND, st)
      | Some c \<Rightarrow>
          (case assertValidDialerCampaignTransition (dc_status c) target of
             Inl e \<Rightarrow> (Inl e, st)
           | Inr u \<Rightarrow>
               (Inr ((extraData c)\<lparr>dc_status := target\<rparr>),
                st\<lparr>dl_campaigns := map (\<lambda>d. if dc_id d = i then (extraData d)\<lparr>dc_status := target\<rparr> else d) (dl_campaigns st),
                   vs_events := vs_events st @ [event c st]\<rparr>))))"

definition activate :: "DialerEnv \<Rightarrow> string \<Rightarrow> string \<Rightarrow> DialerCampaign dialer" where
  "activate env tenantId i = hbind (preflight env tenantId i) (\<lambda>(ok, checks).
     if \<not> ok then hfail (ApiHttpException ''PREFLIGHT_FAILED'' 422)
     else hbind (hget vs_now) (\<lambda>now.
       campaign_transition tenantId i DialerCampaignStatus.ACTIVE
         (\<lambda>c. c\<lparr>dc_startedAt := Some (given (dc_startedAt c) now)\<rparr>) (\<lambda>c st. CampaignActivated (dc_id c) tenantId)))"

definition pause :: "string \<Rightarrow> string \<Rightarrow> DialerCampaign dialer" where
  "pause tenantId i = campaign_transition tenantId i DialerCampaignStatus.PAUSED id (\<lambda>c st. CampaignPaused (dc_id c) tenantId)"

definition resume :: "DialerEnv \<Rightarrow> string \<Rightarrow> string \<Rightarrow> DialerCampaign dialer" where
  "resume env tenantId i = activate env tenantId i"

definition complete :: "string \<Rightarrow> string \<Rightarrow> DialerCampaign dialer" where
  "complete tenantId i = hbind (hget vs_now) (\<lambda>now.
     campaign_transition tenantId i DialerCampaignStatus.COMPLETED (\<lambda>c. c\<lparr>dc_completedAt := Some now\<rparr>)
       (\<lambda>c st. CampaignCompleted (dc_id c) tenantId (length (filter (\<lambda>a. dt_campaignId a = dc_id c) (dl_attempts st)))))"

definition archive :: "string \<Rightarrow> string \<Rightarrow> DialerCampaign dialer" where
  "archive tenantId i = campaign_transition tenantId i DialerCampaignStatus.ARCHIVED id (\<lambda>c st. CampaignArchived (dc_id c) tenantId)"

end
