(* ===== verification/Dialer_Dispatch.thy ===== *)
theory Dialer_Dispatch
  imports Dialer_Campaigns
begin

text \<open>
  The dial engine: \<^verbatim>\<open>apps/api/src/autodialer/dialer-dispatch.service.ts\<close> (the cron, the pacing tick with its windowed walk
  over an audience) and \<^verbatim>\<open>dialer-call-placer.service.ts\<close> (the provider leg of an attempt, and of a transfer target).
  The tick is split where it claims the campaign: the campaign it loaded is an argument of \<open>tick_claimed\<close>, so that two ticks
  may load the same stamp. The ids in a URL are alphanumeric, so encoding them changes nothing.
\<close>

section \<open>The queue\<close>

definition getDialerTickJobId :: "string \<Rightarrow> nat \<Rightarrow> string" where
  "getDialerTickJobId campaignId bucket = ''dialer-dispatch_'' @ campaignId @ ''_'' @ nat_to_string bucket"

definition getDialerPlaceCallJobId :: "string \<Rightarrow> string" where
  "getDialerPlaceCallJobId attemptId = ''dialer-call_'' @ attemptId"

definition getDialerPlaceTargetJobId :: "string \<Rightarrow> string" where
  "getDialerPlaceTargetJobId sessionId = ''dialer-call-target_'' @ sessionId"

text \<open>The queue drops a job whose id it still holds, and throws when it is down.\<close>

definition enqueue_dialer :: "DialerEnv \<Rightarrow> DialerJob \<Rightarrow> unit dialer" where
  "enqueue_dialer env job = (\<lambda>st.
     if \<not> de_queueUp env (dj_id job) then (Inl (ThrownError ''queue''), st)
     else if list_ex (\<lambda>j. dj_id j = dj_id job) (dl_jobs st) then (Inr (), st)
     else (Inr (), st\<lparr>dl_jobs := dl_jobs st @ [job]\<rparr>))"

section \<open>The cron\<close>

definition tenantTimezone :: "DialerEnv \<Rightarrow> string \<Rightarrow> DialerStore \<Rightarrow> string" where
  "tenantTimezone env tenantId st =
     resolveTenantTimezone (de_clock env) (case map_of (dl_settings st) tenantId of None \<Rightarrow> None | Some s \<Rightarrow> s)"

definition window_open :: "DialerEnv \<Rightarrow> DialerCampaign \<Rightarrow> rat \<Rightarrow> DialerStore \<Rightarrow> bool" where
  "window_open env c now st =
     isWithinCallingWindow (de_clock env) (dc_dailyStart c) (dc_dailyFinish c) (tenantTimezone env (dc_tenantId c) st) now"

definition period_ms :: "DialerCampaign \<Rightarrow> rat" where
  "period_ms c = of_int (max 1 (dc_dialerPeriodMinutes c)) * 60000"

definition is_due :: "DialerCampaign \<Rightarrow> rat \<Rightarrow> bool" where
  "is_due c now = (case dc_lastDialedAt c of None \<Rightarrow> True | Some t \<Rightarrow> now - t \<ge> period_ms c)"

definition dispatch_one :: "DialerEnv \<Rightarrow> rat \<Rightarrow> DialerCampaign \<Rightarrow> bool dialer" where
  "dispatch_one env now c =
     (if \<not> is_due c now then hret False
      else if \<not> de_enabled env (dc_tenantId c) then hret False
      else hbind (hget (window_open env c now)) (\<lambda>open.
        if \<not> open then hret False
        else hbind (enqueue_dialer env
               \<lparr>dj_id = getDialerTickJobId (dc_id c) (nat \<lfloor>now / period_ms c\<rfloor>),
                dj_work = CampaignTick (dc_id c) (dc_tenantId c), dj_runAt = now\<rparr>) (\<lambda>_. hret True)))"

fun dispatch_all :: "DialerEnv \<Rightarrow> rat \<Rightarrow> DialerCampaign list \<Rightarrow> nat \<Rightarrow> nat dialer" where
  "dispatch_all env now [] enqueued = hret enqueued"
| "dispatch_all env now (c # cs) enqueued =
     hbind (dispatch_one env now c) (\<lambda>done. dispatch_all env now cs (if done then enqueued + 1 else enqueued))"

definition dispatchDue :: "DialerEnv \<Rightarrow> nat dialer" where
  "dispatchDue env = hbind (hget (\<lambda>st. (vs_now st, filter (\<lambda>c. dc_status c = DialerCampaignStatus.ACTIVE \<and>
       dc_outboundOnly c \<and> dc_audienceId c \<noteq> None) (dl_campaigns st)))) (\<lambda>(now, cs). dispatch_all env now cs 0)"

section \<open>The walk\<close>

type_synonym member = "string option \<times> string"

text \<open>\<open>/^\+61\d{8,9}$/\<close>\<close>

definition is_au_e164 :: "string \<Rightarrow> bool" where
  "is_au_e164 s \<longleftrightarrow> take 3 s = ''+61'' \<and> list_all is_digit (drop 3 s) \<and> length s \<in> {11, 12}"

definition DISPATCH_WINDOW_FACTOR :: nat where "DISPATCH_WINDOW_FACTOR = 4"

definition TERMINAL_OUTCOMES :: "DialerAttemptOutcome list" where
  "TERMINAL_OUTCOMES = [DialerAttemptOutcome.ANSWERED, DialerAttemptOutcome.OPTED_OUT]"

definition hydrateWindow :: "DialerStore \<Rightarrow> string \<Rightarrow> AudienceMemberOrder \<Rightarrow> nat \<Rightarrow> nat \<Rightarrow> member list" where
  "hydrateWindow st tenantId order offset windowSize =
     (case order of
        Members ms \<Rightarrow> take windowSize (drop offset ms)
      | ContactIds ids \<Rightarrow>
          List.map_filter (\<lambda>cid. map_option (\<lambda>(c, p). (Some c, p)) (contact_with_phone (dl_audience st) tenantId cid))
            (take windowSize (drop offset ids)))"

definition member_count :: "AudienceMemberOrder \<Rightarrow> nat" where
  "member_count order = (case order of Members ms \<Rightarrow> length ms | ContactIds ids \<Rightarrow> length ids)"

definition dial_db :: "DialerStore \<Rightarrow> AudienceDb" where
  "dial_db st = st_db (ad_store (dl_audience st))"

definition voice_opt_outs :: "DialerStore \<Rightarrow> string \<Rightarrow> string list \<Rightarrow> string list" where
  "voice_opt_outs st tenantId phones =
     map cc_phoneE164 (filter (\<lambda>c. cc_tenantId c = tenantId \<and> cc_channel c = ''VOICE'' \<and> cc_state c = ''OPTED_OUT'' \<and>
       cc_phoneE164 c \<in> set phones) (db_contactConsent (dial_db st)))"

definition suppressed_phones :: "DialerStore \<Rightarrow> string \<Rightarrow> string list \<Rightarrow> string list" where
  "suppressed_phones st tenantId phones =
     List.map_filter su_phoneE164 (filter (\<lambda>s. su_tenantId s = tenantId \<and>
       (case su_phoneE164 s of None \<Rightarrow> False | Some p \<Rightarrow> p \<in> set phones)) (db_suppression (dial_db st)))"

record PhoneAttemptStats =
  ps_total :: nat
  ps_lastAt :: rat
  ps_terminal :: bool

definition attempts_of :: "string \<Rightarrow> string \<Rightarrow> DialerStore \<Rightarrow> DialerAttempt list" where
  "attempts_of campaignId phone st = filter (\<lambda>a. dt_campaignId a = campaignId \<and> dt_phoneE164 a = phone) (dl_attempts st)"

definition attempt_stats :: "DialerStore \<Rightarrow> string \<Rightarrow> string list \<Rightarrow> string \<Rightarrow> PhoneAttemptStats option" where
  "attempt_stats st campaignId phones phone =
     (let rows = (if phone \<in> set phones then attempts_of campaignId phone st else []) in
      if rows = [] then None
      else Some \<lparr>ps_total = length rows, ps_lastAt = foldr max (map dt_createdAt rows) 0,
             ps_terminal = list_ex (\<lambda>a. dt_outcome a \<in> set TERMINAL_OUTCOMES) rows\<rparr>)"

datatype Verdict = Invalid | OptedOut | Suppressed | Capped | Recent | Dial nat

definition max_attempts :: "DialerCampaign \<Rightarrow> nat" where
  "max_attempts c = nat (max 1 (dc_maxCallAttempts c))"

definition batch_size :: "DialerCampaign \<Rightarrow> nat" where
  "batch_size c = nat (max 1 (dc_batchSize c))"

definition no_call_before :: "DialerCampaign \<Rightarrow> rat \<Rightarrow> rat" where
  "no_call_before c now = now - of_int (max 0 (dc_noCallWindowHours c)) * 3600000"

definition verdict :: "DialerStore \<Rightarrow> DialerCampaign \<Rightarrow> rat \<Rightarrow> string list \<Rightarrow> string \<Rightarrow> Verdict" where
  "verdict st c now phones phone =
     (if \<not> is_au_e164 phone then Invalid
      else if phone \<in> set (voice_opt_outs st (dc_tenantId c) phones) then OptedOut
      else if phone \<in> set (suppressed_phones st (dc_tenantId c) phones) then Suppressed
      else case attempt_stats st (dc_id c) phones phone of
        None \<Rightarrow> Dial 0
      | Some prior \<Rightarrow>
          if ps_terminal prior then Capped
          else if max_attempts c \<le> ps_total prior then Capped
          else if no_call_before c now < ps_lastAt prior then Recent
          else Dial (ps_total prior))"

record Skipped =
  sk_optedOut :: nat
  sk_suppressed :: nat
  sk_invalid :: nat
  sk_capped :: nat
  sk_recent :: nat

record Walk =
  wk_seen :: "string list"
  wk_candidates :: "(member \<times> nat) list"
  wk_skipped :: Skipped

definition no_skips :: Skipped where
  "no_skips = \<lparr>sk_optedOut = 0, sk_suppressed = 0, sk_invalid = 0, sk_capped = 0, sk_recent = 0\<rparr>"

fun skip :: "Verdict \<Rightarrow> Skipped \<Rightarrow> Skipped" where
  "skip Invalid s = s\<lparr>sk_invalid := sk_invalid s + 1\<rparr>"
| "skip OptedOut s = s\<lparr>sk_optedOut := sk_optedOut s + 1\<rparr>"
| "skip Suppressed s = s\<lparr>sk_suppressed := sk_suppressed s + 1\<rparr>"
| "skip Capped s = s\<lparr>sk_capped := sk_capped s + 1\<rparr>"
| "skip Recent s = s\<lparr>sk_recent := sk_recent s + 1\<rparr>"
| "skip (Dial n) s = s"

definition consider_member :: "(string \<Rightarrow> Verdict) \<Rightarrow> member \<Rightarrow> Walk \<Rightarrow> Walk" where
  "consider_member look m w =
     (if snd m \<in> set (wk_seen w) then w
      else let w = w\<lparr>wk_seen := snd m # wk_seen w\<rparr> in
        case look (snd m) of
          Dial prior \<Rightarrow> w\<lparr>wk_candidates := wk_candidates w @ [(m, prior)]\<rparr>
        | v \<Rightarrow> w\<lparr>wk_skipped := skip v (wk_skipped w)\<rparr>)"

fun walk_members :: "(string \<Rightarrow> Verdict) \<Rightarrow> nat \<Rightarrow> member list \<Rightarrow> Walk \<Rightarrow> Walk" where
  "walk_members look batch [] w = w"
| "walk_members look batch (m # ms) w =
     (if batch \<le> length (wk_candidates w) then w else walk_members look batch ms (consider_member look m w))"

function walk_windows ::
  "(nat \<Rightarrow> member list) \<Rightarrow> (string list \<Rightarrow> string \<Rightarrow> Verdict) \<Rightarrow> nat \<Rightarrow> nat \<Rightarrow> nat \<Rightarrow> nat \<Rightarrow> Walk \<Rightarrow> Walk" where
  "walk_windows hydrate look batch count windowSize offset w =
     (if offset < count \<and> length (wk_candidates w) < batch \<and> 0 < windowSize
      then let window = hydrate offset in
        walk_windows hydrate look batch count windowSize (offset + windowSize)
          (if window = [] then w else walk_members (look (js_set (map snd window))) batch window w)
      else w)"
  by pat_completeness auto
termination
  by (relation "measure (\<lambda>(hydrate, look, batch, count, windowSize, offset, w). count - offset)") auto

declare walk_windows.simps [simp del]

definition select_candidates :: "DialerStore \<Rightarrow> DialerCampaign \<Rightarrow> rat \<Rightarrow> AudienceMemberOrder \<Rightarrow> Walk" where
  "select_candidates st c now order =
     (let windowSize = batch_size c * DISPATCH_WINDOW_FACTOR in
      walk_windows (\<lambda>offset. hydrateWindow st (dc_tenantId c) order offset windowSize) (verdict st c now) (batch_size c)
        (member_count order) windowSize 0 \<lparr>wk_seen = [], wk_candidates = [], wk_skipped = no_skips\<rparr>)"

section \<open>The tick\<close>

record TickResult =
  tr_dialled :: nat
  tr_skipped :: Skipped
  tr_completed :: bool
  tr_claimed :: bool

definition empty_tick :: TickResult where
  "empty_tick = \<lparr>tr_dialled = 0, tr_skipped = no_skips, tr_completed = False, tr_claimed = False\<rparr>"

definition attempt_id :: "nat \<Rightarrow> string" where
  "attempt_id n = dialer_id ''att'' n"

definition create_attempt :: "DialerCampaign \<Rightarrow> member \<Rightarrow> nat \<Rightarrow> DialerAttempt dialer" where
  "create_attempt c m no = (\<lambda>st.
     (let a = \<lparr>dt_id = attempt_id (dl_nextId st), dt_tenantId = dc_tenantId c, dt_campaignId = dc_id c,
            dt_contactId = fst m, dt_phoneE164 = snd m, dt_attemptNo = no, dt_kind = PHONE, dt_callId = None,
            dt_language = dc_defaultLanguage c, dt_postcode = None, dt_outcome = DialerAttemptOutcome.PENDING,
            dt_createdAt = vs_now st\<rparr> in
      if list_ex (\<lambda>b. dt_campaignId b = dc_id c \<and> dt_phoneE164 b = snd m \<and> dt_attemptNo b = no) (dl_attempts st)
      then (Inl UniqueViolation, st)
      else (Inr a, st\<lparr>dl_attempts := dl_attempts st @ [a], dl_nextId := dl_nextId st + 1\<rparr>)))"

text \<open>\<open>n\<close> counts the attempts that are queued.\<close>

fun create_attempts :: "DialerEnv \<Rightarrow> DialerCampaign \<Rightarrow> (member \<times> nat) list \<Rightarrow> nat \<Rightarrow> nat dialer" where
  "create_attempts env c [] n = hret n"
| "create_attempts env c ((m, prior) # cs) n =
     hbind (create_attempt c m (prior + 1)) (\<lambda>a.
     hbind (hget vs_now) (\<lambda>now.
     hbind (enqueue_dialer env \<lparr>dj_id = getDialerPlaceCallJobId (dt_id a), dj_work = PlaceCall (dt_id a) (dc_tenantId c),
         dj_runAt = now\<rparr>) (\<lambda>_.
     create_attempts env c cs (n + 1))))"

definition pending_count :: "string \<Rightarrow> DialerStore \<Rightarrow> nat" where
  "pending_count campaignId st =
     length (filter (\<lambda>a. dt_campaignId a = campaignId \<and> dt_outcome a = DialerAttemptOutcome.PENDING) (dl_attempts st))"

definition resolve_members :: "DialerEnv \<Rightarrow> DialerCampaign \<Rightarrow> AudienceMemberOrder dialer" where
  "resolve_members env c = (\<lambda>st.
     (case resolveOrderedMembers (de_resolver env) (dl_audience st) (dc_tenantId c) (the (dc_audienceId c)) of
        Inl e \<Rightarrow> (Inl e, st)
      | Inr (order, audience) \<Rightarrow> (Inr order, st\<lparr>dl_audience := audience\<rparr>)))"

definition finish_tick :: "DialerEnv \<Rightarrow> DialerCampaign \<Rightarrow> Walk \<Rightarrow> TickResult dialer" where
  "finish_tick env c w =
     (let result = \<lparr>tr_dialled = 0, tr_skipped = wk_skipped w, tr_completed = False, tr_claimed = True\<rparr> in
      if wk_candidates w = []
      then hbind (hget (pending_count (dc_id c))) (\<lambda>pending.
        if pending = 0
        then hbind (hcatch (hbind (complete (dc_tenantId c) (dc_id c)) (\<lambda>_. hret ())) (\<lambda>_. hret ()))
               (\<lambda>_. hret (result\<lparr>tr_completed := True\<rparr>))
        else hret result)
      else hbind (create_attempts env c (wk_candidates w) 0) (\<lambda>n. hret (result\<lparr>tr_dialled := n\<rparr>)))"

text \<open>The campaign is claimed by swapping the stamp that was loaded; the loser of a race does nothing.\<close>

definition claim_tick :: "DialerCampaign \<Rightarrow> bool dialer" where
  "claim_tick c = (\<lambda>st.
     (let hit = (\<lambda>d. dc_id d = dc_id c \<and> dc_status d = DialerCampaignStatus.ACTIVE \<and> dc_lastDialedAt d = dc_lastDialedAt c) in
      if list_ex hit (dl_campaigns st)
      then (Inr True, st\<lparr>dl_campaigns := map (\<lambda>d. if hit d then d\<lparr>dc_lastDialedAt := Some (vs_now st)\<rparr> else d) (dl_campaigns st)\<rparr>)
      else (Inr False, st)))"

definition tick_claimed :: "DialerEnv \<Rightarrow> DialerCampaign \<Rightarrow> TickResult dialer" where
  "tick_claimed env c = hbind (claim_tick c) (\<lambda>claimed.
     if \<not> claimed then hret empty_tick
     else hbind (resolve_members env c) (\<lambda>order.
       hbind (hget (\<lambda>st. select_candidates st c (vs_now st) order)) (\<lambda>w. finish_tick env c w)))"

text \<open>The campaign a tick may claim: active, with an audience, and inside its window.\<close>

definition tick_campaign :: "DialerEnv \<Rightarrow> string \<Rightarrow> string \<Rightarrow> DialerStore \<Rightarrow> DialerCampaign option" where
  "tick_campaign env campaignId tenantId st =
     (case find (\<lambda>c. dc_id c = campaignId \<and> dc_tenantId c = tenantId) (dl_campaigns st) of
        None \<Rightarrow> None
      | Some c \<Rightarrow>
          if dc_status c \<noteq> DialerCampaignStatus.ACTIVE \<or> \<not> truthy (dc_audienceId c) then None
          else if \<not> window_open env c (vs_now st) st then None else Some c)"

definition runTick :: "DialerEnv \<Rightarrow> string \<Rightarrow> string \<Rightarrow> TickResult dialer" where
  "runTick env campaignId tenantId = hbind (hget (tick_campaign env campaignId tenantId)) (\<lambda>found.
     case found of None \<Rightarrow> hret empty_tick | Some c \<Rightarrow> tick_claimed env c)"

section \<open>Placing a leg\<close>

datatype PlaceOutcome =
    Placed | NotPlaceable | CampaignNotActive | OutsideWindow | VoiceOptedOut | NoVoiceSender | DispatchFailed
  | SessionNotFound | AlreadyPlaced | SessionNotConnected | NoTargetNumber

definition update_attempt :: "string \<Rightarrow> (DialerAttempt \<Rightarrow> DialerAttempt) \<Rightarrow> unit dialer" where
  "update_attempt i f = hmodify (\<lambda>st. st\<lparr>dl_attempts := map (\<lambda>a. if dt_id a = i then f a else a) (dl_attempts st)\<rparr>)"

definition update_session :: "string \<Rightarrow> (DialerCallSession \<Rightarrow> DialerCallSession) \<Rightarrow> unit dialer" where
  "update_session i f = hmodify (\<lambda>st. st\<lparr>dl_sessions := map (\<lambda>s. if ss_id s = i then f s else s) (dl_sessions st)\<rparr>)"

text \<open>\<^verbatim>\<open>session-progress.service.ts\<close>\<close>

definition publish :: "string option \<Rightarrow> string \<Rightarrow> unit dialer" where
  "publish sessionId name = (if truthy sessionId
     then hmodify (\<lambda>st. st\<lparr>dl_progress := dl_progress st @ [(the sessionId, name)]\<rparr>) else hret ())"

definition cancelAttempt :: "string \<Rightarrow> unit dialer" where
  "cancelAttempt i = update_attempt i (\<lambda>a. a\<lparr>dt_outcome := DialerAttemptOutcome.CANCELED\<rparr>)"

definition resolveSender :: "DialerEnv \<Rightarrow> string \<Rightarrow> string option \<Rightarrow> string option res" where
  "resolveSender env tenantId fromNumberId =
     (if truthy fromNumberId
      then rbind (ve_senderByNumber (de_voice env) tenantId (the fromNumberId)) (\<lambda>pinned.
        case pinned of Some s \<Rightarrow> Inr (Some s) | None \<Rightarrow> de_voiceSender env tenantId)
      else de_voiceSender env tenantId)"

definition effective_from :: "DialerEnv \<Rightarrow> string option \<Rightarrow> string" where
  "effective_from env sender =
     or_string ((case sender of None \<Rightarrow> [] | Some s \<Rightarrow> s) # platform_from (de_voice env))"

definition ringTimeoutSeconds :: "DialerEnv \<Rightarrow> rat" where
  "ringTimeoutSeconds env = (case de_ringTimeout env of None \<Rightarrow> 15 | Some s \<Rightarrow> if s \<ge> 5 then min s 60 else 15)"

definition ivr_url :: "DialerEnv \<Rightarrow> string \<Rightarrow> (string \<times> string) list \<Rightarrow> string" where
  "ivr_url env path params = de_baseUrl env @ ''/api/v1/autodialer/ivr/'' @ path @
     (case params of [] \<Rightarrow> [] | (k, v) # ps \<Rightarrow> ''?'' @ k @ ''='' @ v @ concat (map (\<lambda>(k, v). ''&'' @ k @ ''='' @ v) ps))"

text \<open>A dispatch the provider refused: the call fails unless it moved on, and \<open>finally\<close> runs in the same transaction.\<close>

definition fail_dispatch :: "string \<Rightarrow> string option \<Rightarrow> string \<Rightarrow> (DialerStore \<Rightarrow> DialerStore) \<Rightarrow> unit dialer" where
  "fail_dispatch callId code msg finally = (\<lambda>st.
     (let hit = (\<lambda>c. cl_id c = callId \<and> cl_status c = CallStatus.INITIATED) in
      case find hit (vs_calls st) of
        None \<Rightarrow> (Inr (), st)
      | Some call \<Rightarrow>
          (Inr (), finally (st\<lparr>
             vs_calls := map (\<lambda>c. if hit c then c\<lparr>cl_status := CallStatus.FAILED, cl_errorCode := code,
               cl_errorMessage := Some msg, cl_endedAt := Some (vs_now st)\<rparr> else c) (vs_calls st),
             vs_events := vs_events st @ [CallStatusChanged callId (cl_tenantId call) CallStatus.FAILED Dispatch code (Some msg)]\<rparr>))))"

definition markDispatchFailed :: "string \<Rightarrow> string \<Rightarrow> string option \<Rightarrow> string \<Rightarrow> unit dialer" where
  "markDispatchFailed callId attemptId code msg = fail_dispatch callId code msg (\<lambda>st.
     st\<lparr>dl_attempts := map (\<lambda>a. if dt_id a = attemptId then a\<lparr>dt_outcome := DialerAttemptOutcome.FAILED\<rparr> else a) (dl_attempts st)\<rparr>)"

text \<open>The call row, the attempt's reference to it and the events commit together; the provider is asked afterwards.\<close>

definition place_leg :: "DialerEnv \<Rightarrow> DialerAttempt \<Rightarrow> DialerCampaign \<Rightarrow> string option \<Rightarrow> string \<Rightarrow> PlaceOutcome dialer" where
  "place_leg env a c sender from =
     hbind (create_call (dt_tenantId a) (dt_contactId a) (dt_phoneE164 a) from CallStatus.INITIATED None None) (\<lambda>call.
     hbind (update_attempt (dt_id a) (\<lambda>x. x\<lparr>dt_callId := Some (cl_id call)\<rparr>)) (\<lambda>_.
     hbind (append_events [AttemptPlaced (dt_id a) (dt_campaignId a) (dt_tenantId a) (cl_id call) (dt_attemptNo a)]) (\<lambda>_.
     hbind (dispatch_call (de_voice env) (cl_id call)
       \<lparr>pr_to = dt_phoneE164 a, pr_from = Some from,
          pr_url = Some (ivr_url env ''answer'' [(''campaignId'', dc_id c), (''attemptId'', dt_id a)]),
          pr_sender = sender, pr_record = dc_recordingEnabled c, pr_machineDetection = dc_amdEnabled c,
          pr_timeout = Some (ringTimeoutSeconds env)\<rparr>) (\<lambda>failure.
     case failure of
       None \<Rightarrow> hret Placed
     | Some (code, msg) \<Rightarrow> hbind (markDispatchFailed (cl_id call) (dt_id a) code msg) (\<lambda>_. hret DispatchFailed)))))"

definition placeCall :: "DialerEnv \<Rightarrow> string \<Rightarrow> string \<Rightarrow> PlaceOutcome dialer" where
  "placeCall env attemptId tenantId =
     hbind (hget (\<lambda>st. find (\<lambda>a. dt_id a = attemptId \<and> dt_tenantId a = tenantId) (dl_attempts st))) (\<lambda>found.
     case found of None \<Rightarrow> hret NotPlaceable | Some a \<Rightarrow>
     if dt_outcome a \<noteq> DialerAttemptOutcome.PENDING \<or> truthy (dt_callId a) then hret NotPlaceable else
     hbind (hget (\<lambda>st. find (\<lambda>c. dc_id c = dt_campaignId a \<and> dc_tenantId c = dt_tenantId a) (dl_campaigns st))) (\<lambda>campaign.
     case campaign of None \<Rightarrow> hbind (cancelAttempt (dt_id a)) (\<lambda>_. hret CampaignNotActive) | Some c \<Rightarrow>
     if dc_status c \<noteq> DialerCampaignStatus.ACTIVE then hbind (cancelAttempt (dt_id a)) (\<lambda>_. hret CampaignNotActive) else
     hbind (hget (\<lambda>st. window_open env c (vs_now st) st)) (\<lambda>open.
     if \<not> open then hbind (cancelAttempt (dt_id a)) (\<lambda>_. hret OutsideWindow) else
     hbind (hget (\<lambda>st. voice_opt_outs st (dt_tenantId a) [dt_phoneE164 a] \<noteq> [])) (\<lambda>optedOut.
     if optedOut then hbind (update_attempt (dt_id a) (\<lambda>x. x\<lparr>dt_outcome := DialerAttemptOutcome.OPTED_OUT\<rparr>)) (\<lambda>_. hret VoiceOptedOut) else
     hbind (hlift (resolveSender env (dc_tenantId c) (dc_fromNumberId c))) (\<lambda>sender.
     let from = effective_from env sender in
     if \<not> isVoiceCapable from then hbind (cancelAttempt (dt_id a)) (\<lambda>_. hret NoVoiceSender)
     else place_leg env a c sender from)))))"

definition placeTargetLeg :: "DialerEnv \<Rightarrow> string \<Rightarrow> string \<Rightarrow> PlaceOutcome dialer" where
  "placeTargetLeg env sessionId tenantId =
     hbind (hget (\<lambda>st. find (\<lambda>s. ss_id s = sessionId \<and> ss_tenantId s = tenantId) (dl_sessions st))) (\<lambda>found.
     case found of None \<Rightarrow> hret SessionNotFound | Some s \<Rightarrow>
     if truthy (ss_targetCallId s) then hret AlreadyPlaced
     else if ss_status s \<noteq> DialerSessionStatus.CONNECTED then hret SessionNotConnected
     else if \<not> truthy (ss_targetNumber s) then hret NoTargetNumber else
     hbind (hget (\<lambda>st. find (\<lambda>c. dc_id c = ss_campaignId s \<and> dc_tenantId c = ss_tenantId s) (dl_campaigns st))) (\<lambda>campaign.
     case campaign of None \<Rightarrow> hret CampaignNotActive | Some c \<Rightarrow>
     if dc_status c \<noteq> DialerCampaignStatus.ACTIVE then hret CampaignNotActive else
     hbind (hlift (resolveSender env (dc_tenantId c) (dc_fromNumberId c))) (\<lambda>sender.
     let from = effective_from env sender; target = the (ss_targetNumber s) in
     if \<not> isVoiceCapable from then hbind (publish (Some (ss_id s)) ''error'') (\<lambda>_. hret NoVoiceSender) else
     hbind (hget vs_now) (\<lambda>now.
     hbind (create_call (ss_tenantId s) None target from CallStatus.INITIATED None (Some now)) (\<lambda>call.
     hbind (update_session (ss_id s) (\<lambda>x. x\<lparr>ss_targetCallId := Some (cl_id call)\<rparr>)) (\<lambda>_.
     hbind (dispatch_call (de_voice env) (cl_id call)
       \<lparr>pr_to = target, pr_from = Some from,
          pr_url = Some (ivr_url env ''conference-join'' [(''campaignId'', dc_id c), (''sessionId'', ss_id s)]),
          pr_sender = sender, pr_record = dc_recordingEnabled c, pr_machineDetection = False,
          pr_timeout = Some (ringTimeoutSeconds env)\<rparr>) (\<lambda>failure.
     case failure of
       None \<Rightarrow> hret Placed
     | Some (code, msg) \<Rightarrow> hbind (fail_dispatch (cl_id call) code msg id) (\<lambda>_.
         hbind (publish (Some (ss_id s)) ''error'') (\<lambda>_. hret DispatchFailed)))))))))"

end
