(* ===== verification/Dialer_Reactions.thy ===== *)
theory Dialer_Reactions
  imports Dialer_Dispatch
begin

text \<open>
  What the dialler does with events: \<^verbatim>\<open>apps/api/src/autodialer/autodialer.reactions.ts\<close> and the dispatch of
  \<^verbatim>\<open>common/reactions/reaction-registry.ts\<close>, which claims an event before it runs its reaction and drops what the reaction
  throws. The position of an event in the outbox is its id.
\<close>

definition map_dial_db :: "(AudienceDb \<Rightarrow> AudienceDb) \<Rightarrow> DialerStore \<Rightarrow> DialerStore" where
  "map_dial_db f st = st\<lparr>dl_audience := (dl_audience st)\<lparr>ad_store :=
     (ad_store (dl_audience st))\<lparr>st_db := f (st_db (ad_store (dl_audience st)))\<rparr>\<rparr>\<rparr>"

text \<open>The reaction passes no verdict of the answering machine; the row's is consulted later.\<close>

definition outcomeFor :: "CallStatus \<Rightarrow> bool option \<Rightarrow> DialerAttemptOutcome option" where
  "outcomeFor status machineDetected =
     (case status of
        CallStatus.COMPLETED \<Rightarrow>
          Some (if machineDetected = Some True then DialerAttemptOutcome.MACHINE else DialerAttemptOutcome.ANSWERED)
      | CallStatus.NO_ANSWER \<Rightarrow> Some DialerAttemptOutcome.NO_ANSWER
      | CallStatus.BUSY \<Rightarrow> Some DialerAttemptOutcome.BUSY
      | CallStatus.FAILED \<Rightarrow> Some DialerAttemptOutcome.FAILED
      | _ \<Rightarrow> None)"

definition mirror_attempt :: "string \<Rightarrow> DialerAttemptOutcome \<Rightarrow> unit dialer" where
  "mirror_attempt callId ended_as =
     hbind (hget (\<lambda>st. find (\<lambda>a. dt_callId a = Some callId) (dl_attempts st))) (\<lambda>found.
     case found of None \<Rightarrow> hret () | Some a \<Rightarrow>
     if dt_outcome a \<noteq> DialerAttemptOutcome.PENDING then hret () else
     hbind (update_attempt (dt_id a) (\<lambda>x. x\<lparr>dt_outcome := ended_as\<rparr>)) (\<lambda>_.
     append_events [AttemptFinished (dt_id a) (dt_campaignId a) (dt_tenantId a) callId ended_as]))"

definition end_session :: "DialerCallSession \<Rightarrow> int option \<Rightarrow> unit dialer" where
  "end_session s duration = hbind (hget vs_now) (\<lambda>now.
     hbind (update_session (ss_id s) (\<lambda>x. x\<lparr>ss_status := DialerSessionStatus.ENDED, ss_endedAt := Some now\<rparr>)) (\<lambda>_.
     append_events [SessionEnded (ss_id s) (ss_tenantId s) (ss_campaignId s) duration]))"

definition mirror_session :: "string \<Rightarrow> int option \<Rightarrow> unit dialer" where
  "mirror_session callId duration =
     hbind (hget (\<lambda>st. find (\<lambda>s. ss_callId s = Some callId \<or> ss_targetCallId s = Some callId) (dl_sessions st))) (\<lambda>found.
     case found of None \<Rightarrow> hret () | Some s \<Rightarrow>
     hbind (publish (Some (ss_id s)) ''call_disconnected'') (\<lambda>_.
     if ss_callId s = Some callId \<and> ss_status s \<noteq> DialerSessionStatus.ENDED
     then hbind (end_session s duration) (\<lambda>_. publish (Some (ss_id s)) ''call_ended'')
     else hret ()))"

definition mirrorCallStatus :: "string \<Rightarrow> CallStatus \<Rightarrow> int option \<Rightarrow> unit dialer" where
  "mirrorCallStatus callId status duration =
     (case outcomeFor status None of
        None \<Rightarrow> hret ()
      | Some outcome \<Rightarrow>
          hbind (hget (find_call callId)) (\<lambda>call.
          let ended_as = (if outcome = DialerAttemptOutcome.ANSWERED \<and> (case call of None \<Rightarrow> False | Some c \<Rightarrow> cl_machineDetected c = Some True)
                then DialerAttemptOutcome.MACHINE else outcome) in
          hbind (mirror_attempt callId ended_as) (\<lambda>_. mirror_session callId duration)))"

definition mirror_suppression :: "string \<Rightarrow> string \<Rightarrow> unit dialer" where
  "mirror_suppression tenantId phone = hmodify (\<lambda>st.
     if phone = [] \<or> list_ex (\<lambda>s. su_tenantId s = tenantId \<and> su_phoneE164 s = Some phone) (db_suppression (dial_db st)) then st
     else map_dial_db (\<lambda>db. db\<lparr>db_suppression := db_suppression db @
            [\<lparr>su_tenantId = tenantId, su_phoneE164 = Some phone, su_email = None\<rparr>]\<rparr>) st)"

definition write_disposition :: "string \<Rightarrow> string \<Rightarrow> string option \<Rightarrow> string option \<Rightarrow> string option \<Rightarrow> unit dialer" where
  "write_disposition tenantId campaignId contactId code support =
     (if \<not> truthy code \<or> \<not> truthy contactId then hret ()
      else hmodify (\<lambda>st. st\<lparr>dl_dispositions := dl_dispositions st @
        [\<lparr>dd_tenantId = tenantId, dd_contactId = the contactId, dd_code = the code, dd_campaignId = campaignId,
           dd_supportLevel = support\<rparr>]\<rparr>))"

definition react :: "PhoneEvent \<Rightarrow> unit dialer" where
  "react e =
     (case e of
        CallStatusChanged callId tenantId status src code msg \<Rightarrow> mirrorCallStatus callId status None
      | CallCompleted callId tenantId duration \<Rightarrow> mirrorCallStatus callId CallStatus.COMPLETED duration
      | SurveyAnswerRecorded tenantId campaignId callId contactId key digit value code support \<Rightarrow>
          write_disposition tenantId campaignId contactId code support
      | ContactOptedOut tenantId campaignId phone contactId \<Rightarrow> mirror_suppression tenantId phone
      | _ \<Rightarrow> hret ())"

definition dispatch_event :: "string \<Rightarrow> nat \<Rightarrow> unit dialer" where
  "dispatch_event source n = (\<lambda>st.
     if length (vs_events st) \<le> n \<or> (source, n) \<in> set (dl_handled st) then (Inr (), st)
     else hcatch (react (vs_events st ! n)) (\<lambda>_. hret ()) (st\<lparr>dl_handled := dl_handled st @ [(source, n)]\<rparr>))"

end
