(* ===== verification/Dialer_Ivr.thy ===== *)
theory Dialer_Ivr
  imports Dialer_Reactions
begin

text \<open>
  The call flow of the dialler: \<^verbatim>\<open>apps/api/src/autodialer/ivr-flow.service.ts\<close> with the prompts of
  \<^verbatim>\<open>audio-prompt.util.ts\<close>, the civic lookup of \<^verbatim>\<open>electoral-lookup.service.ts\<close> and the routes of
  \<^verbatim>\<open>dialer-ivr.controller.ts\<close>. A handler answers with TwiML, here a list of verbs. A request carries its roll of the
  dice, which picks among several configured targets. The webhook's signature is checked by the provider's library;
  the ids a request names are its query. A prompt's file is looked up directly, as the query collects the files
  of every prompt it renders. Dashes in spoken texts are written \<open>-\<close>.
\<close>

section \<open>TwiML\<close>

datatype Twiml =
    Say string
  | Play string
  | Redirect string
  | Hangup
  | Gather nat string "Twiml list"
  | DialNumber string
  | Conference string bool

section \<open>Prompts\<close>

datatype PromptAudio = NoAudio | OneFile string | PerLanguage "(string \<times> json) list"

definition audio_present :: "PromptAudio \<Rightarrow> bool" where
  "audio_present a = (case a of NoAudio \<Rightarrow> False | OneFile f \<Rightarrow> f \<noteq> [] | PerLanguage kvs \<Rightarrow> True)"

definition parsePrompt :: "json option \<Rightarrow> (string option \<times> PromptAudio) option" where
  "parsePrompt v =
     (case v of
        Some (JObj kvs) \<Rightarrow>
          (let name = (case map_of kvs ''name'' of Some (JStr s) \<Rightarrow> Some s | _ \<Rightarrow> None);
               audio = (case map_of kvs ''audio'' of Some (JStr s) \<Rightarrow> OneFile s | Some (JObj m) \<Rightarrow> PerLanguage m | _ \<Rightarrow> NoAudio) in
           if \<not> truthy name \<and> \<not> audio_present audio then None else Some (name, audio))
      | _ \<Rightarrow> None)"

definition file_entry :: "json option \<Rightarrow> string option" where
  "file_entry j = (case j of Some (JStr f) \<Rightarrow> if f \<noteq> [] then Some f else None | _ \<Rightarrow> None)"

definition resolveAudioFileId :: "PromptAudio \<Rightarrow> string \<Rightarrow> string option" where
  "resolveAudioFileId audio language =
     (case audio of
        NoAudio \<Rightarrow> None
      | OneFile f \<Rightarrow> if f = [] then None else Some f
      | PerLanguage kvs \<Rightarrow>
          (case file_entry (map_of kvs language) of
             Some f \<Rightarrow> Some f
           | None \<Rightarrow>
               (case file_entry (map_of kvs ''en'') of
                  Some f \<Rightarrow> Some f
                | None \<Rightarrow>
                    (case List.map_filter (\<lambda>kv. file_entry (Some (snd kv))) kvs of [] \<Rightarrow> None | f # fs \<Rightarrow> Some f))))"

definition resolveAudioUrl :: "(string \<Rightarrow> string option) \<Rightarrow> PromptAudio \<Rightarrow> string \<Rightarrow> string option" where
  "resolveAudioUrl urls audio language =
     (case resolveAudioFileId audio language of None \<Rightarrow> None | Some f \<Rightarrow> urls f)"

definition sayOrPlay :: "DialerEnv \<Rightarrow> string \<Rightarrow> json option \<Rightarrow> string \<Rightarrow> Twiml list" where
  "sayOrPlay env tenantId raw language =
     (case parsePrompt raw of
        None \<Rightarrow> []
      | Some (name, audio) \<Rightarrow>
          (let url = resolveAudioUrl (de_fileUrl env tenantId) audio language in
           if truthy url then [Play (the url)] else if truthy name then [Say (the name)] else []))"

definition SPOKEN_optOutInstruction :: string where
  "SPOKEN_optOutInstruction = ''To stop receiving calls from this campaign, press star at any time.''"
definition SPOKEN_optOutConfirmation :: string where
  "SPOKEN_optOutConfirmation =
     ''You have been removed from this campaign's calling list. Sorry to have bothered you. Goodbye.''"
definition SPOKEN_noInput :: string where "SPOKEN_noInput = ''Sorry, I didn't hear your response.''"
definition SPOKEN_invalidTarget :: string where
  "SPOKEN_invalidTarget = ''Sorry, we are unable to connect your call right now. Goodbye.''"
definition SPOKEN_postcodePrompt :: string where
  "SPOKEN_postcodePrompt = ''Using your keypad, please enter your four digit postcode so we can find your local member.''"
definition SPOKEN_postcodeInvalid :: string where
  "SPOKEN_postcodeInvalid = ''Sorry, that doesn't look like an Australian postcode.''"
definition SPOKEN_noElectorate :: string where
  "SPOKEN_noElectorate = ''Sorry, we couldn't find an electorate for that postcode.''"
definition SPOKEN_noTargetNumber :: string where
  "SPOKEN_noTargetNumber = ''Sorry, we don't have a number for your local member right now.''"
definition SPOKEN_multiElectorate :: string where
  "SPOKEN_multiElectorate = ''Your postcode covers more than one electorate.''"
definition SPOKEN_unsure :: string where "SPOKEN_unsure = ''If you are not sure, press 0.''"

section \<open>The context of a request\<close>

record IvrContext =
  ix_campaign :: DialerCampaign
  ix_attempt :: "DialerAttempt option"
  ix_session :: "DialerCallSession option"
  ix_callId :: "string option"
  ix_language :: string

record IvrQuery =
  iq_campaignId :: "string option"
  iq_attemptId :: "string option"
  iq_sessionId :: "string option"

record IvrBody =
  ib_callSid :: "string option"
  ib_answeredBy :: "string option"
  ib_digits :: "string option"
  ib_roll :: "nat \<Rightarrow> nat"

fun first_some :: "'a option list \<Rightarrow> 'a option" where
  "first_some [] = None"
| "first_some (Some x # xs) = Some x"
| "first_some (None # xs) = first_some xs"

definition loadContext :: "IvrQuery \<Rightarrow> IvrContext dialer" where
  "loadContext q = (\<lambda>st.
     (let a = (if truthy (iq_attemptId q) then find (\<lambda>a. Some (dt_id a) = iq_attemptId q) (dl_attempts st) else None);
          s = (if truthy (iq_sessionId q) then find (\<lambda>s. Some (ss_id s) = iq_sessionId q) (dl_sessions st) else None);
          campaignId = first_some [iq_campaignId q, map_option dt_campaignId a, map_option ss_campaignId s] in
      (case (if truthy campaignId then find_campaign (the campaignId) st else None) of
         None \<Rightarrow> Inl CAMPAIGN_NOT_FOUND
       | Some c \<Rightarrow>
           if (case a of None \<Rightarrow> False | Some x \<Rightarrow> dt_campaignId x \<noteq> dc_id c \<or> dt_tenantId x \<noteq> dc_tenantId c)
           then Inl (NotFoundException ''Attempt does not belong to this campaign'')
           else if (case s of None \<Rightarrow> False | Some x \<Rightarrow> ss_campaignId x \<noteq> dc_id c \<or> ss_tenantId x \<noteq> dc_tenantId c)
           then Inl (NotFoundException ''Session does not belong to this campaign'')
           else Inr \<lparr>ix_campaign = c, ix_attempt = a, ix_session = s,
             ix_callId = first_some [Option.bind a dt_callId, Option.bind s ss_callId],
             ix_language = the (first_some [map_option dt_language a, map_option ss_language s, Some (dc_defaultLanguage c)])\<rparr>,
       st)))"

definition idParams :: "IvrContext \<Rightarrow> (string \<times> string) list" where
  "idParams ctx = [(''campaignId'', dc_id (ix_campaign ctx))] @
     (case ix_attempt ctx of None \<Rightarrow> [] | Some a \<Rightarrow> [(''attemptId'', dt_id a)]) @
     (case ix_session ctx of None \<Rightarrow> [] | Some s \<Rightarrow> [(''sessionId'', ss_id s)])"

definition session_id :: "IvrContext \<Rightarrow> string option" where
  "session_id ctx = map_option ss_id (ix_session ctx)"

definition includeOptOut :: "IvrContext \<Rightarrow> bool" where
  "includeOptOut ctx = (case ix_attempt ctx of None \<Rightarrow> False | Some a \<Rightarrow> dt_kind a = PHONE)"

definition optOutInstruction :: "DialerCampaign \<Rightarrow> string" where
  "optOutInstruction c =
     (case parsePrompt (dc_optOut c) of Some (Some name, audio) \<Rightarrow> name | _ \<Rightarrow> SPOKEN_optOutInstruction)"

definition opt_out_verbs :: "IvrContext \<Rightarrow> Twiml list" where
  "opt_out_verbs ctx = (if includeOptOut ctx then [Say (optOutInstruction (ix_campaign ctx))] else [])"

definition resolveCallId :: "string option \<Rightarrow> DialerStore \<Rightarrow> string option" where
  "resolveCallId sid st = (if truthy sid then map_option cl_id (find_sid (the sid) st) else None)"

definition context_call :: "IvrContext \<Rightarrow> IvrBody \<Rightarrow> string option dialer" where
  "context_call ctx body = hget (\<lambda>st. case ix_callId ctx of Some i \<Rightarrow> Some i | None \<Rightarrow> resolveCallId (ib_callSid body) st)"

section \<open>The star\<close>

definition opt_out_row :: "string \<Rightarrow> string option \<Rightarrow> string \<Rightarrow> string \<Rightarrow> ConsentRow list \<Rightarrow> ConsentRow list" where
  "opt_out_row tenantId contactId phone channel rows =
     (if find_consent rows (tenantId, phone, channel) = None
      then rows @ [\<lparr>cc_tenantId = tenantId, cc_contactId = contactId, cc_phoneE164 = phone, cc_channel = channel,
                    cc_state = ''OPTED_OUT''\<rparr>]
      else map (\<lambda>r. if consent_key r = (tenantId, phone, channel) then r\<lparr>cc_state := ''OPTED_OUT''\<rparr> else r) rows)"

definition record_opt_out :: "DialerCampaign \<Rightarrow> DialerAttempt \<Rightarrow> unit dialer" where
  "record_opt_out c a =
     hbind (hmodify (map_dial_db (\<lambda>db. db\<lparr>db_contactConsent :=
       opt_out_row (dc_tenantId c) (dt_contactId a) (dt_phoneE164 a) ''SMS''
         (opt_out_row (dc_tenantId c) (dt_contactId a) (dt_phoneE164 a) ''VOICE'' (db_contactConsent db))\<rparr>))) (\<lambda>_.
     hbind (update_attempt (dt_id a) (\<lambda>x. x\<lparr>dt_outcome := DialerAttemptOutcome.OPTED_OUT\<rparr>)) (\<lambda>_.
     append_events [ContactOptedOut (dc_tenantId c) (dc_id c) (dt_phoneE164 a) (dt_contactId a)]))"

definition handleOptOut :: "DialerEnv \<Rightarrow> IvrContext \<Rightarrow> Twiml list dialer" where
  "handleOptOut env ctx =
     (let c = ix_campaign ctx in
      hbind (case ix_attempt ctx of None \<Rightarrow> hret () | Some a \<Rightarrow> record_opt_out c a) (\<lambda>_.
      hret ((if parsePrompt (dc_optOut c) \<noteq> None then sayOrPlay env (dc_tenantId c) (dc_optOut c) (ix_language ctx)
             else [Say SPOKEN_optOutConfirmation]) @ [Hangup])))"

section \<open>Answering\<close>

text \<open>\<open>/^(machine|fax)/i\<close>\<close>

definition machine_answered :: "string \<Rightarrow> bool" where
  "machine_answered answeredBy \<longleftrightarrow>
     starts_with (js_lower answeredBy) ''machine'' \<or> starts_with (js_lower answeredBy) ''fax''"

definition recordAnsweredBy :: "IvrContext \<Rightarrow> IvrBody \<Rightarrow> string \<Rightarrow> bool \<Rightarrow> unit dialer" where
  "recordAnsweredBy ctx body answeredBy machine = hbind (context_call ctx body) (\<lambda>callId.
     hbind (if truthy callId
            then hmodify (\<lambda>st. st\<lparr>vs_calls := map (\<lambda>c. if cl_id c = the callId \<and> cl_tenantId c = dc_tenantId (ix_campaign ctx)
                   then c\<lparr>cl_answeredBy := Some answeredBy, cl_machineDetected := Some machine\<rparr> else c) (vs_calls st)\<rparr>)
            else hret ()) (\<lambda>_.
     case ix_attempt ctx of
       None \<Rightarrow> hret ()
     | Some a \<Rightarrow> if machine then update_attempt (dt_id a) (\<lambda>x. x\<lparr>dt_outcome := DialerAttemptOutcome.MACHINE\<rparr>) else hret ()))"

definition to_redirect :: "DialerEnv \<Rightarrow> IvrContext \<Rightarrow> Twiml" where
  "to_redirect env ctx = Redirect (ivr_url env ''redirect'' (idParams ctx))"

definition answer_route :: "DialerEnv \<Rightarrow> IvrContext \<Rightarrow> Twiml list dialer" where
  "answer_route env ctx =
     (let c = ix_campaign ctx; intro = sayOrPlay env (dc_tenantId c) (dc_intro c) (ix_language ctx) in
      if dc_transparentTargetTransfer c then hret [to_redirect env ctx]
      else if (case ix_session ctx of None \<Rightarrow> False | Some s \<Rightarrow> truthy (ss_targetNumber s) \<or> truthy (ss_targetName s))
      then hret (intro @ [to_redirect env ctx])
      else if dc_survey c
      then hbind (hget (campaign_questions (dc_id c))) (\<lambda>questions.
        hret (case questions of
          [] \<Rightarrow> intro @ [Hangup]
        | q # qs \<Rightarrow> intro @ [Redirect (ivr_url env ''survey'' (idParams ctx @ [(''q'', dn_key (dq_node q))]))]))
      else if dc_electoralTarget c
      then hret (intro @ [Redirect (ivr_url env ''electoral-postcode'' (idParams ctx))])
      else hret ([Gather 1 (ivr_url env ''survey-result'' (idParams ctx @ [(''q'', ''__broadcast__'')]))
                   (intro @ opt_out_verbs ctx)] @
                 sayOrPlay env (dc_tenantId c) (dc_outro c) (ix_language ctx) @ [Hangup]))"

definition handleAnswer :: "DialerEnv \<Rightarrow> IvrContext \<Rightarrow> IvrBody \<Rightarrow> Twiml list dialer" where
  "handleAnswer env ctx body =
     (let answeredBy = js_trim (given (ib_answeredBy body) []);
          leg = ix_attempt ctx \<noteq> None \<and> answeredBy \<noteq> [];
          machine = machine_answered answeredBy in
      hbind (if leg then recordAnsweredBy ctx body answeredBy machine else hret ()) (\<lambda>_.
      if leg \<and> machine then hret [Hangup]
      else hbind (publish (session_id ctx) ''call_connected'') (\<lambda>_. answer_route env ctx)))"

section \<open>The survey\<close>

definition find_question :: "string \<Rightarrow> string \<Rightarrow> DialerStore \<Rightarrow> DialerNode option" where
  "find_question campaignId key st =
     map_option dq_node (find (\<lambda>q. dq_campaignId q = campaignId \<and> dn_key (dq_node q) = key) (dl_questions st))"

definition renderSurveyQuestion :: "DialerEnv \<Rightarrow> IvrContext \<Rightarrow> string \<Rightarrow> Twiml list dialer" where
  "renderSurveyQuestion env ctx key =
     (let c = ix_campaign ctx in
      hbind (hget (find_question (dc_id c) key)) (\<lambda>found.
      case found of None \<Rightarrow> hret [Hangup] | Some n \<Rightarrow>
      hbind (publish (session_id ctx) ''call_survey'') (\<lambda>_.
      let url = (case parsePrompt (dn_audioPrompt n) of None \<Rightarrow> None
                 | Some (name, audio) \<Rightarrow> resolveAudioUrl (de_fileUrl env (dc_tenantId c)) audio (ix_language ctx)) in
      hret [Gather 1 (ivr_url env ''survey-result'' (idParams ctx @ [(''q'', dn_key n)]))
        ((if truthy url then [Play (the url)]
          else Say (dn_name n) # map (\<lambda>a. Say (''Press '' @ da_digit a @ '' for '' @ da_value a @ ''.'')) (sort_key da_digit (dn_answers n))) @
         opt_out_verbs ctx)])))"

text \<open>One row for a call and a question, and an event for every time it is recorded.\<close>

definition recordSurveyResult :: "IvrContext \<Rightarrow> DialerNode \<Rightarrow> DialerAnswer \<Rightarrow> string \<Rightarrow> unit dialer" where
  "recordSurveyResult ctx n a callId =
     (let c = ix_campaign ctx; contactId = Option.bind (ix_attempt ctx) dt_contactId;
          hit = (\<lambda>r. sr_callId r = callId \<and> sr_questionKey r = dn_key n) in
      hbind (hmodify (\<lambda>st. st\<lparr>dl_results :=
        (if list_ex hit (dl_results st)
         then map (\<lambda>r. if hit r then r\<lparr>sr_answerDigit := da_digit a, sr_answerValue := da_value a,
                sr_dispositionCode := da_dispositionCode a, sr_supportLevel := da_supportLevel a\<rparr> else r) (dl_results st)
         else dl_results st @ [\<lparr>sr_tenantId = dc_tenantId c, sr_campaignId = dc_id c, sr_callId = callId,
                sr_attemptId = map_option dt_id (ix_attempt ctx), sr_sessionId = session_id ctx, sr_contactId = contactId,
                sr_questionKey = dn_key n, sr_answerDigit = da_digit a, sr_answerValue = da_value a,
                sr_dispositionCode = da_dispositionCode a, sr_supportLevel = da_supportLevel a\<rparr>])\<rparr>)) (\<lambda>_.
      append_events [SurveyAnswerRecorded (dc_tenantId c) (dc_id c) callId contactId (dn_key n) (da_digit a) (da_value a)
        (da_dispositionCode a) (da_supportLevel a)]))"

text \<open>The side effect of an answer, and the TwiML that takes the call over, if any.\<close>

definition applyAnswerType :: "DialerEnv \<Rightarrow> IvrContext \<Rightarrow> DialerAnswer \<Rightarrow> Twiml list option dialer" where
  "applyAnswerType env ctx a =
     (case da_type a of
        Some SMS \<Rightarrow>
          (let toPhone = first_some [map_option dt_phoneE164 (ix_attempt ctx), Option.bind (ix_session ctx) ss_supporterPhone];
               tenantId = dc_tenantId (ix_campaign ctx) in
           if truthy toPhone \<and> truthy (da_content a)
           then hbind (hmodify (\<lambda>st. if de_sendSms env tenantId (the toPhone) (the (da_content a))
                  then st\<lparr>dl_texts := dl_texts st @ [(tenantId, the toPhone, the (da_content a))]\<rparr> else st)) (\<lambda>_. hret None)
           else hret None)
      | Some SET_LANGUAGE \<Rightarrow>
          (let trimmed = js_trim (given (da_content a) []); language = (if trimmed = [] then ''en'' else trimmed) in
           hbind (case ix_attempt ctx of None \<Rightarrow> hret () | Some x \<Rightarrow> update_attempt (dt_id x) (\<lambda>y. y\<lparr>dt_language := language\<rparr>)) (\<lambda>_.
           hbind (case ix_session ctx of None \<Rightarrow> hret () | Some s \<Rightarrow> update_session (ss_id s) (\<lambda>y. y\<lparr>ss_language := language\<rparr>)) (\<lambda>_.
           hret None)))
      | Some REDIRECT \<Rightarrow> hret (if da_transfer a then Some [to_redirect env ctx] else None)
      | Some SWITCHBOARD \<Rightarrow> hret (Some [Redirect (ivr_url env ''electoral-postcode'' (idParams ctx))])
      | None \<Rightarrow> hret None)"

text \<open>The language the outro is spoken in: an answer may just have set it.\<close>

definition language_after :: "IvrContext \<Rightarrow> DialerAnswer \<Rightarrow> string" where
  "language_after ctx a =
     (if da_type a = Some SET_LANGUAGE
      then let trimmed = js_trim (given (da_content a) []) in if trimmed = [] then ''en'' else trimmed
      else ix_language ctx)"

definition handleSurveyResult :: "DialerEnv \<Rightarrow> IvrContext \<Rightarrow> string \<Rightarrow> IvrBody \<Rightarrow> Twiml list dialer" where
  "handleSurveyResult env ctx key body =
     (let c = ix_campaign ctx; digits = js_trim (given (ib_digits body) []);
          outro = (\<lambda>language. sayOrPlay env (dc_tenantId c) (dc_outro c) language @ [Hangup]);
          again = [Say SPOKEN_noInput, Redirect (ivr_url env ''survey'' (idParams ctx @ [(''q'', key)]))] in
      if digits = ''*'' then handleOptOut env ctx
      else if key = ''__broadcast__'' then hret (outro (ix_language ctx))
      else if digits = [] then hret again
      else hbind (hget (find_question (dc_id c) key)) (\<lambda>found.
        case found of None \<Rightarrow> hret [Hangup] | Some n \<Rightarrow>
        case find (\<lambda>a. da_digit a = digits) (dn_answers n) of None \<Rightarrow> hret again | Some a \<Rightarrow>
        hbind (context_call ctx body) (\<lambda>callId.
        hbind (if truthy callId then recordSurveyResult ctx n a (the callId) else hret ()) (\<lambda>_.
        hbind (publish (session_id ctx) ''call_survey_result'') (\<lambda>_.
        hbind (applyAnswerType env ctx a) (\<lambda>followUp.
        case followUp of Some verbs \<Rightarrow> hret verbs | None \<Rightarrow>
        hret (if da_nextKey a = Some NEXT_OUTRO then outro (language_after ctx a)
              else if truthy (da_nextKey a)
              then [Redirect (ivr_url env ''survey'' (idParams ctx @ [(''q'', the (da_nextKey a))]))]
              else [Hangup])))))))"

section \<open>Transfers\<close>

text \<open>The query's number when it is valid, else one of the configured ones.\<close>

definition resolveTargetNumber :: "DialerCampaign \<Rightarrow> string option \<Rightarrow> (nat \<Rightarrow> nat) \<Rightarrow> string option" where
  "resolveTargetNumber c queryTarget roll =
     (let fromQuery = js_trim (given queryTarget []);
          configured = (case dc_targetNumbers c of
            Some (JArr js) \<Rightarrow> filter isValidAuTargetNumber (List.map_filter (\<lambda>j. case j of JStr s \<Rightarrow> Some s | _ \<Rightarrow> None) js)
          | _ \<Rightarrow> []) in
      if fromQuery \<noteq> [] \<and> isValidAuTargetNumber fromQuery then Some fromQuery
      else if configured = [] then None
      else Some (configured ! (roll (length configured) mod length configured)))"

record TargetDetails =
  td_name :: "string option"
  td_party :: "string option"
  td_electorate :: "string option"

definition no_details :: TargetDetails where
  "no_details = \<lparr>td_name = None, td_party = None, td_electorate = None\<rparr>"

text \<open>One row for a call and a target.\<close>

definition recordTransfer :: "IvrContext \<Rightarrow> string \<Rightarrow> string option \<Rightarrow> string option \<Rightarrow> TargetDetails \<Rightarrow> unit dialer" where
  "recordTransfer ctx target callId data details = (\<lambda>st.
     (let c = ix_campaign ctx in
      if truthy callId \<and> list_ex (\<lambda>r. rd_callId r = callId \<and> rd_targetNumber r = target) (dl_redirects st) then (Inr (), st)
      else let row = \<lparr>rd_id = dialer_id ''rd'' (dl_nextId st), rd_tenantId = dc_tenantId c, rd_campaignId = dc_id c,
              rd_callId = callId, rd_sessionId = session_id ctx, rd_contactId = Option.bind (ix_attempt ctx) dt_contactId,
              rd_targetNumber = target, rd_phoneNumber = map_option dt_phoneE164 (ix_attempt ctx),
              rd_targetName = td_name details, rd_targetParty = td_party details, rd_electorate = td_electorate details,
              rd_data = (if truthy data then data else None)\<rparr> in
        (Inr (), st\<lparr>dl_redirects := dl_redirects st @ [row], dl_nextId := dl_nextId st + 1,
           vs_events := vs_events st @ [TransferRecorded (dc_tenantId c) (dc_id c) (rd_id row) callId target]\<rparr>)))"

definition is_webrtc :: "IvrContext \<Rightarrow> bool" where
  "is_webrtc ctx = (case ix_attempt ctx of None \<Rightarrow> False | Some a \<Rightarrow> dt_kind a = WEBRTC)"

definition sorry_verbs :: "Twiml list" where
  "sorry_verbs = [Say SPOKEN_invalidTarget, Hangup]"

definition conference_name :: "DialerCallSession \<Rightarrow> string" where
  "conference_name s = given (ss_conferenceName s) (''dialer-'' @ ss_id s)"

text \<open>A widget session: persist the target, record the transfer, queue the target leg and join the conference.\<close>

definition bridge_session :: "DialerEnv \<Rightarrow> IvrContext \<Rightarrow> IvrBody \<Rightarrow> string option \<Rightarrow> DialerCallSession \<Rightarrow> string \<Rightarrow> Twiml list dialer" where
  "bridge_session env ctx body data s target =
     hbind (if truthy (ss_targetNumber s) then hret ()
            else update_session (ss_id s) (\<lambda>x. x\<lparr>ss_targetNumber := Some target\<rparr>)) (\<lambda>_.
     hbind (context_call ctx body) (\<lambda>callId.
     hbind (recordTransfer ctx target callId data
       \<lparr>td_name = ss_targetName s, td_party = ss_targetParty s, td_electorate = ss_targetElectorate s\<rparr>) (\<lambda>_.
     hbind (hget vs_now) (\<lambda>now.
     hbind (enqueue_dialer env \<lparr>dj_id = getDialerPlaceTargetJobId (ss_id s),
         dj_work = PlaceTarget (ss_id s) (dc_tenantId (ix_campaign ctx)), dj_runAt = now + 1000\<rparr>) (\<lambda>_.
     hbind (publish (Some (ss_id s)) ''call_redirecting'') (\<lambda>_.
     hret [Conference (conference_name s) True]))))))"

definition handleRedirect :: "DialerEnv \<Rightarrow> IvrContext \<Rightarrow> IvrBody \<Rightarrow> string option \<Rightarrow> string option \<Rightarrow> Twiml list dialer" where
  "handleRedirect env ctx body queryTarget data =
     (let c = ix_campaign ctx in
      case ix_session ctx of
        Some s \<Rightarrow>
          (case first_some [ss_targetNumber s, resolveTargetNumber c queryTarget (ib_roll body)] of
             None \<Rightarrow> hret sorry_verbs
           | Some target \<Rightarrow> if target = [] then hret sorry_verbs else bridge_session env ctx body data s target)
      | None \<Rightarrow>
          if is_webrtc ctx then hret sorry_verbs
          else (case resolveTargetNumber c queryTarget (ib_roll body) of
                  None \<Rightarrow> hret sorry_verbs
                | Some target \<Rightarrow>
                    hbind (context_call ctx body) (\<lambda>callId.
                    hbind (recordTransfer ctx target callId data no_details) (\<lambda>_.
                    hret [DialNumber target]))))"

section \<open>Widget sessions\<close>

definition session_dead :: "DialerCallSession \<Rightarrow> rat \<Rightarrow> bool" where
  "session_dead s now \<longleftrightarrow>
     ss_status s \<in> {DialerSessionStatus.ENDED, DialerSessionStatus.FAILED, DialerSessionStatus.EXPIRED} \<or> ss_expiresAt s < now"

text \<open>The caller leg is a call of its own, bound once for a provider id.\<close>

definition bind_session_call :: "IvrContext \<Rightarrow> DialerCallSession \<Rightarrow> string \<Rightarrow> Call dialer" where
  "bind_session_call ctx s sid =
     hbind (hget (\<lambda>st. (find_sid sid st, vs_now st))) (\<lambda>(found, now).
     case found of
       None \<Rightarrow>
         hbind (create_call (dc_tenantId (ix_campaign ctx)) None (conference_name s) (''client:s'' @ ss_id s)
           CallStatus.IN_PROGRESS (Some sid) (Some now)) (\<lambda>call.
         hbind (update_session (ss_id s) (\<lambda>x. x\<lparr>ss_callId := Some (cl_id call), ss_status := DialerSessionStatus.CONNECTED\<rparr>)) (\<lambda>_.
         hbind (publish (Some (ss_id s)) ''call_started'') (\<lambda>_. hret call)))
     | Some call \<Rightarrow>
         hbind (if truthy (ss_callId s) then hret ()
                else update_session (ss_id s) (\<lambda>x. x\<lparr>ss_callId := Some (cl_id call), ss_status := DialerSessionStatus.CONNECTED\<rparr>))
           (\<lambda>_. hret call))"

definition handleSessionAnswer :: "DialerEnv \<Rightarrow> IvrContext \<Rightarrow> IvrBody \<Rightarrow> Twiml list dialer" where
  "handleSessionAnswer env ctx body =
     (let sid = js_trim (given (ib_callSid body) []) in
      case ix_session ctx of
        None \<Rightarrow> hret sorry_verbs
      | Some s \<Rightarrow>
          if sid = [] then hret sorry_verbs
          else hbind (hget (\<lambda>st. session_dead s (vs_now st))) (\<lambda>dead.
            if dead then hret [Say ''Sorry, this calling session has expired. Please start again from the page.'', Hangup]
            else hbind (bind_session_call ctx s sid) (\<lambda>call.
              handleAnswer env (ctx\<lparr>ix_session := Some (s\<lparr>ss_callId := Some (cl_id call), ss_status := DialerSessionStatus.CONNECTED\<rparr>),
                ix_callId := Some (cl_id call)\<rparr>) body)))"

definition renderConferenceJoin :: "IvrContext \<Rightarrow> Twiml list" where
  "renderConferenceJoin ctx =
     (case ix_session ctx of
        Some s \<Rightarrow>
          if ss_status s \<in> {DialerSessionStatus.CONNECTED, DialerSessionStatus.BRIDGED}
          then [Conference (conference_name s) False] else [Hangup]
      | None \<Rightarrow> [Hangup])"

record ConferenceBody =
  cf_event :: "string option"
  cf_callSid :: "string option"
  cf_conferenceSid :: "string option"

definition conference_seconds :: "rat \<Rightarrow> rat \<Rightarrow> int" where
  "conference_seconds endedAt createdAt = max 0 \<lfloor>(endedAt - createdAt) / 1000 + 1 / 2\<rfloor>"

definition end_conference :: "IvrContext \<Rightarrow> DialerCallSession \<Rightarrow> unit dialer" where
  "end_conference ctx s = hbind (hget (\<lambda>st. (vs_now st, list_ex (\<lambda>x. ss_id x = ss_id s \<and>
       ss_status x \<notin> {DialerSessionStatus.ENDED, DialerSessionStatus.FAILED}) (dl_sessions st)))) (\<lambda>(now, live).
     if \<not> live then hret ()
     else hbind (hmodify (\<lambda>st. st\<lparr>dl_sessions := map (\<lambda>x. if ss_id x = ss_id s \<and>
              ss_status x \<notin> {DialerSessionStatus.ENDED, DialerSessionStatus.FAILED}
              then x\<lparr>ss_status := DialerSessionStatus.ENDED, ss_endedAt := Some now\<rparr> else x) (dl_sessions st)\<rparr>)) (\<lambda>_.
          hbind (append_events [SessionEnded (ss_id s) (dc_tenantId (ix_campaign ctx)) (dc_id (ix_campaign ctx))
            (Some (conference_seconds now (ss_createdAt s)))]) (\<lambda>_.
          publish (Some (ss_id s)) ''call_ended'')))"

definition conference_body :: "IvrContext \<Rightarrow> DialerCallSession \<Rightarrow> string \<Rightarrow> string option \<Rightarrow> unit dialer" where
  "conference_body ctx s event sid =
     (if event = ''participant-join'' \<or> event = ''participant-leave''
      then hbind (hget (resolveCallId sid)) (\<lambda>leg.
        if \<not> truthy leg \<or> ss_targetCallId s \<noteq> leg then hret ()
        else if event = ''participant-join''
        then hbind (update_session (ss_id s) (\<lambda>x. if ss_status x = DialerSessionStatus.CONNECTED
               then x\<lparr>ss_status := DialerSessionStatus.BRIDGED\<rparr> else x)) (\<lambda>_.
             publish (Some (ss_id s)) ''call_connected_conference'')
        else publish (Some (ss_id s)) ''call_target_hangup'')
      else if event = ''conference-end'' then end_conference ctx s
      else hret ())"

definition handleConferenceStatus :: "IvrContext \<Rightarrow> ConferenceBody \<Rightarrow> unit dialer" where
  "handleConferenceStatus ctx body =
     (case ix_session ctx of
        None \<Rightarrow> hret ()
      | Some s \<Rightarrow>
          (let event = js_trim (given (cf_event body) []) in
           if event = [] then hret ()
           else claimed ''twilio'' (''dialer-conf-'' @ given (cf_conferenceSid body) (ss_id s) @ ''-'' @ event @ ''-'' @
               given (cf_callSid body) ''conference'') (conference_body ctx s event (cf_callSid body))))"

section \<open>Civic lookup\<close>

definition is_postcode :: "string \<Rightarrow> bool" where
  "is_postcode s \<longleftrightarrow> length s = 4 \<and> list_all is_digit s"

definition stateFromPostcode :: "string \<Rightarrow> string option" where
  "stateFromPostcode postcode =
     (if \<not> is_postcode postcode then None
      else let n = digits_val postcode in
        if 200 \<le> n \<and> n \<le> 299 \<or> 2600 \<le> n \<and> n \<le> 2618 \<or> 2900 \<le> n \<and> n \<le> 2920 then Some ''ACT''
        else if 1000 \<le> n \<and> n \<le> 2599 \<or> 2619 \<le> n \<and> n \<le> 2899 \<or> 2921 \<le> n \<and> n \<le> 2999 then Some ''NSW''
        else if 3000 \<le> n \<and> n \<le> 3999 \<or> 8000 \<le> n \<and> n \<le> 8999 then Some ''VIC''
        else if 4000 \<le> n \<and> n \<le> 4999 \<or> 9000 \<le> n \<and> n \<le> 9999 then Some ''QLD''
        else if 5000 \<le> n \<and> n \<le> 5999 then Some ''SA''
        else if 6000 \<le> n \<and> n \<le> 6999 then Some ''WA''
        else if 7000 \<le> n \<and> n \<le> 7999 then Some ''TAS''
        else if 800 \<le> n \<and> n \<le> 999 \<or> 100 \<le> n \<and> n \<le> 199 then Some ''NT''
        else None)"

record ElectorateOption =
  eo_code :: string
  eo_name :: string
  eo_addressCount :: nat

record ElectoralTarget =
  et_number :: string
  et_name :: string
  et_party :: "string option"
  et_electorate :: "string option"

definition isFederal :: "string option \<Rightarrow> bool" where
  "isFederal jurisdiction \<longleftrightarrow> \<not> truthy jurisdiction \<or> jurisdiction = Some ''FEDERAL''"

text \<open>The dominant electorate first; only those with a sitting member in the jurisdiction.\<close>

definition lookupPostcode :: "DialerEnv \<Rightarrow> string \<Rightarrow> string option \<Rightarrow> ElectorateOption list" where
  "lookupPostcode env postcode jurisdiction =
     (if \<not> is_postcode postcode then []
      else let kind = (if isFederal jurisdiction then ''ced'' else ''sed'');
               geoKind = (if isFederal jurisdiction then ''ced'' else ''sed_lower'');
               rows = filter (\<lambda>r. pc_postcode r = postcode \<and> pc_kind r = kind \<and>
                 list_ex (\<lambda>p. po_geoKind p = geoKind \<and> po_geoCode p = pc_code r \<and> po_jurisdiction p = given jurisdiction ''FEDERAL'')
                   (de_politicians env)) (de_regions env) in
        map (\<lambda>r. \<lparr>eo_code = pc_code r, eo_name = given (pc_name r) (pc_code r), eo_addressCount = pc_addressCount r\<rparr>)
          (sort_key (\<lambda>r. - int (pc_addressCount r)) (sort_key pc_code rows)))"

definition pickTarget :: "Politician list \<Rightarrow> json option \<Rightarrow> string option \<Rightarrow> ElectoralTarget option" where
  "pickTarget candidates partyTargets label =
     (let parties = (case partyTargets of
            Some (JArr js) \<Rightarrow> map (\<lambda>p. js_lower (js_trim p))
              (filter (\<lambda>p. js_trim p \<noteq> []) (List.map_filter (\<lambda>j. case j of JStr s \<Rightarrow> Some s | _ \<Rightarrow> None) js))
          | _ \<Rightarrow> []);
          pool = (if parties = [] then candidates
            else filter (\<lambda>p. truthy (po_party p) \<and> js_lower (js_trim (the (po_party p))) \<in> set parties) candidates) in
      case find (\<lambda>p. truthy (po_phone p) \<and> isValidAuTargetNumber (the (po_phone p))) pool of
        None \<Rightarrow> None
      | Some m \<Rightarrow> Some \<lparr>et_number = the (po_phone m), et_name = po_name m, et_party = po_party m,
          et_electorate = first_some [po_electorate m, label]\<rparr>)"

definition resolveTarget :: "DialerEnv \<Rightarrow> DialerCampaign \<Rightarrow> string \<Rightarrow> ElectorateOption option \<Rightarrow> ElectoralTarget option" where
  "resolveTarget env c postcode electorate =
     (let federal = isFederal (dc_jurisdiction c) in
      if dc_officeTarget c = Some ''upper''
      then (if \<not> federal then None
            else case stateFromPostcode postcode of
              None \<Rightarrow> None
            | Some state \<Rightarrow> pickTarget (sort_key po_name (filter (\<lambda>p. po_geoKind p = ''chamber_electorate'' \<and>
                po_geoCode p = ''SENATE-'' @ state \<and> po_jurisdiction p = ''FEDERAL'') (de_politicians env)))
                (dc_partyTargets c) (Some (''SENATE-'' @ state)))
      else case electorate of
        None \<Rightarrow> None
      | Some e \<Rightarrow> pickTarget (sort_key po_name (filter (\<lambda>p. po_geoKind p = (if federal then ''ced'' else ''sed_lower'') \<and>
          po_geoCode p = eo_code e \<and> po_jurisdiction p = given (dc_jurisdiction c) ''FEDERAL'') (de_politicians env)))
          (dc_partyTargets c) (Some (eo_name e)))"

section \<open>The electoral flow\<close>

definition renderElectoralPostcode :: "DialerEnv \<Rightarrow> IvrContext \<Rightarrow> Twiml list dialer" where
  "renderElectoralPostcode env ctx = hbind (publish (session_id ctx) ''call_electoral_postcode'') (\<lambda>_.
     hret [Gather 4 (ivr_url env ''electoral-lookup'' (idParams ctx)) (Say SPOKEN_postcodePrompt # opt_out_verbs ctx)])"

text \<open>No member, or none with a number: the campaign's own targets, else a polite end. \<open>apology\<close> was already spoken.\<close>

definition electoralFallback :: "DialerEnv \<Rightarrow> IvrContext \<Rightarrow> IvrBody \<Rightarrow> Twiml list \<Rightarrow> Twiml list dialer" where
  "electoralFallback env ctx body apology =
     (let c = ix_campaign ctx; goodbye = hret (apology @ sayOrPlay env (dc_tenantId c) (dc_outro c) (ix_language ctx) @ [Hangup]) in
      case resolveTargetNumber c None (ib_roll body) of
        None \<Rightarrow> goodbye
      | Some fallback \<Rightarrow>
          (case ix_session ctx of
             Some s \<Rightarrow> hbind (update_session (ss_id s) (\<lambda>x. x\<lparr>ss_targetNumber := Some fallback\<rparr>)) (\<lambda>_.
               hret (apology @ [Say ''Connecting you now.'', to_redirect env ctx]))
           | None \<Rightarrow>
               if is_webrtc ctx then goodbye
               else hbind (context_call ctx body) (\<lambda>callId.
                 hbind (recordTransfer ctx fallback callId None no_details) (\<lambda>_.
                 hret (apology @ [Say ''Connecting you now.'', DialNumber fallback])))))"

definition connecting :: "string \<Rightarrow> Twiml" where
  "connecting name = Say (''Connecting you to '' @ name @ ''. Please hold.'')"

definition connectElectoral :: "DialerEnv \<Rightarrow> IvrContext \<Rightarrow> IvrBody \<Rightarrow> string \<Rightarrow> ElectorateOption option \<Rightarrow> Twiml list dialer" where
  "connectElectoral env ctx body postcode electorate =
     (case resolveTarget env (ix_campaign ctx) postcode electorate of
        None \<Rightarrow> electoralFallback env ctx body [Say SPOKEN_noTargetNumber]
      | Some target \<Rightarrow>
          (case ix_session ctx of
             Some s \<Rightarrow>
               hbind (update_session (ss_id s) (\<lambda>x. x\<lparr>ss_targetNumber := Some (et_number target), ss_targetName := Some (et_name target),
                 ss_targetParty := et_party target, ss_targetElectorate := et_electorate target, ss_postcode := Some postcode\<rparr>)) (\<lambda>_.
               hbind (publish (Some (ss_id s)) ''call_electoral_target'') (\<lambda>_.
               hret [connecting (et_name target), to_redirect env ctx]))
           | None \<Rightarrow>
               if is_webrtc ctx then hret sorry_verbs
               else hbind (context_call ctx body) (\<lambda>callId.
                 hbind (recordTransfer ctx (et_number target) callId None
                   \<lparr>td_name = Some (et_name target), td_party = et_party target, td_electorate = et_electorate target\<rparr>) (\<lambda>_.
                 hret [connecting (et_name target), DialNumber (et_number target)]))))"

definition persistPostcode :: "IvrContext \<Rightarrow> string \<Rightarrow> unit dialer" where
  "persistPostcode ctx postcode =
     hbind (case ix_attempt ctx of None \<Rightarrow> hret () | Some a \<Rightarrow> update_attempt (dt_id a) (\<lambda>x. x\<lparr>dt_postcode := Some postcode\<rparr>)) (\<lambda>_.
     case ix_session ctx of None \<Rightarrow> hret () | Some s \<Rightarrow> update_session (ss_id s) (\<lambda>x. x\<lparr>ss_postcode := Some postcode\<rparr>))"

definition electorate_menu :: "DialerEnv \<Rightarrow> IvrContext \<Rightarrow> ElectorateOption list \<Rightarrow> Twiml list" where
  "electorate_menu env ctx options =
     [Gather 1 (ivr_url env ''select-electorate'' (idParams ctx))
       (Say SPOKEN_multiElectorate #
        map (\<lambda>(index, e). Say (''For '' @ eo_name e @ '', press '' @ nat_to_string (index + 1) @ ''.'')) (enumerate 0 (take 9 options)) @
        [Say SPOKEN_unsure])]"

definition handleElectoralLookup :: "DialerEnv \<Rightarrow> IvrContext \<Rightarrow> IvrBody \<Rightarrow> Twiml list dialer" where
  "handleElectoralLookup env ctx body =
     (let c = ix_campaign ctx; digits = js_trim (given (ib_digits body) []);
          again = Redirect (ivr_url env ''electoral-postcode'' (idParams ctx)) in
      if digits = ''*'' then handleOptOut env ctx
      else if digits = [] then hret [Say SPOKEN_noInput, again]
      else if \<not> is_postcode digits then hret [Say SPOKEN_postcodeInvalid, again]
      else hbind (persistPostcode ctx digits) (\<lambda>_.
        if dc_officeTarget c = Some ''upper'' then connectElectoral env ctx body digits None
        else let options = lookupPostcode env digits (dc_jurisdiction c) in
          hbind (publish (session_id ctx) ''call_electoral_lookup'') (\<lambda>_.
          case options of
            [] \<Rightarrow> electoralFallback env ctx body [Say SPOKEN_noElectorate]
          | [e] \<Rightarrow> connectElectoral env ctx body digits (Some e)
          | _ \<Rightarrow> hret (electorate_menu env ctx options))))"

text \<open>\<open>Number.parseInt(digits, 10)\<close>: the leading digits, if any; the keypad sends no sign.\<close>

definition menu_choice :: "string \<Rightarrow> ElectorateOption list \<Rightarrow> ElectorateOption" where
  "menu_choice digits options =
     (let lead = takeWhile is_digit digits; index = digits_val lead in
      if lead \<noteq> [] \<and> 1 \<le> index \<and> index \<le> length options then options ! (index - 1) else hd options)"

definition handleSelectElectorate :: "DialerEnv \<Rightarrow> IvrContext \<Rightarrow> IvrBody \<Rightarrow> Twiml list dialer" where
  "handleSelectElectorate env ctx body =
     (let c = ix_campaign ctx; digits = js_trim (given (ib_digits body) []);
          postcode = first_some [Option.bind (ix_attempt ctx) dt_postcode, Option.bind (ix_session ctx) ss_postcode] in
      if digits = ''*'' then handleOptOut env ctx
      else if \<not> truthy postcode then hret [Redirect (ivr_url env ''electoral-postcode'' (idParams ctx))]
      else (case lookupPostcode env (the postcode) (dc_jurisdiction c) of
          [] \<Rightarrow> electoralFallback env ctx body [Say SPOKEN_noElectorate]
        | e # es \<Rightarrow>
            hbind (publish (session_id ctx) ''call_select_electorate'') (\<lambda>_.
            connectElectoral env ctx body (the postcode) (Some (menu_choice digits (e # es))))))"

section \<open>Routes\<close>

datatype IvrRoute =
    Answer | Survey "string option" | SurveyResult "string option" | ConferenceJoin | ElectoralPostcode | ElectoralLookup
  | SelectElectorate | RedirectLeg "string option" "string option"

definition failSoft :: "Twiml list" where
  "failSoft = [Say ''Sorry, something went wrong with this call. Goodbye.'', Hangup]"

definition accountMayTouchTenant :: "DialerEnv \<Rightarrow> string option \<Rightarrow> string \<Rightarrow> DialerStore \<Rightarrow> bool" where
  "accountMayTouchTenant env accountSid tenantId st =
     (let platform = js_trim (ve_platformSid (de_voice env)) in
      \<not> truthy accountSid \<or> platform = [] \<or> accountSid = Some platform \<or>
      (case find (\<lambda>a. Some (fst a) = accountSid) (vs_accounts st) of None \<Rightarrow> False | Some a \<Rightarrow> snd a = tenantId))"

definition authenticate :: "DialerEnv \<Rightarrow> string option \<Rightarrow> IvrQuery \<Rightarrow> IvrContext dialer" where
  "authenticate env accountSid query = hbind (loadContext query) (\<lambda>ctx.
     hbind (hget (accountMayTouchTenant env accountSid (dc_tenantId (ix_campaign ctx)))) (\<lambda>ok.
     if ok then hret ctx else hfail (NotFoundException ''Not found'')))"

definition route_flow :: "DialerEnv \<Rightarrow> IvrContext \<Rightarrow> IvrBody \<Rightarrow> IvrRoute \<Rightarrow> Twiml list dialer" where
  "route_flow env ctx body route =
     (case route of
        Answer \<Rightarrow> handleAnswer env ctx body
      | Survey q \<Rightarrow> if truthy q then renderSurveyQuestion env ctx (the q) else hret failSoft
      | SurveyResult q \<Rightarrow> if truthy q then handleSurveyResult env ctx (the q) body else hret failSoft
      | ConferenceJoin \<Rightarrow> hret (renderConferenceJoin ctx)
      | ElectoralPostcode \<Rightarrow> renderElectoralPostcode env ctx
      | ElectoralLookup \<Rightarrow> handleElectoralLookup env ctx body
      | SelectElectorate \<Rightarrow> handleSelectElectorate env ctx body
      | RedirectLeg target data \<Rightarrow> handleRedirect env ctx body target data)"

text \<open>An error of the flow is answered with a spoken goodbye; a refused request is an HTTP error.\<close>

definition ivr_request :: "DialerEnv \<Rightarrow> string option \<Rightarrow> IvrQuery \<Rightarrow> IvrBody \<Rightarrow> IvrRoute \<Rightarrow> Twiml list dialer" where
  "ivr_request env accountSid query body route = hbind (authenticate env accountSid query) (\<lambda>ctx.
     hcatch (route_flow env ctx body route) (\<lambda>_. hret failSoft))"

text \<open>\<open>/^client:s([A-Za-z0-9]+)\.t([A-Za-z0-9]+)$/\<close>\<close>

definition is_alnum :: "char \<Rightarrow> bool" where
  "is_alnum c \<longleftrightarrow> is_digit c \<or> (let n = (of_char c :: nat) in 65 \<le> n \<and> n \<le> 90 \<or> 97 \<le> n \<and> n \<le> 122)"

definition sessionFromClientIdentity :: "string option \<Rightarrow> (string \<times> string) option" where
  "sessionFromClientIdentity from =
     (let s = js_trim (given from []); body = drop 8 s; sid = takeWhile is_alnum body; rest = dropWhile is_alnum body in
      if starts_with s ''client:s'' \<and> sid \<noteq> [] \<and> starts_with rest ''.t'' \<and> drop 2 rest \<noteq> [] \<and> list_all is_alnum (drop 2 rest)
      then Some (sid, drop 2 rest) else None)"

definition session_answer_request :: "DialerEnv \<Rightarrow> string option \<Rightarrow> string option \<Rightarrow> IvrBody \<Rightarrow> Twiml list dialer" where
  "session_answer_request env accountSid from body =
     (case sessionFromClientIdentity from of
        None \<Rightarrow> hret failSoft
      | Some (sessionId, tenantId) \<Rightarrow>
          hbind (authenticate env accountSid \<lparr>iq_campaignId = None, iq_attemptId = None, iq_sessionId = Some sessionId\<rparr>) (\<lambda>ctx.
          if dc_tenantId (ix_campaign ctx) \<noteq> tenantId then hfail (NotFoundException ''Not found'')
          else hcatch (handleSessionAnswer env ctx body) (\<lambda>_. hret failSoft)))"

definition conference_status_request :: "DialerEnv \<Rightarrow> string option \<Rightarrow> IvrQuery \<Rightarrow> ConferenceBody \<Rightarrow> unit dialer" where
  "conference_status_request env accountSid query body = hbind (authenticate env accountSid query) (\<lambda>ctx.
     hcatch (handleConferenceStatus ctx body) (\<lambda>_. hret ()))"

end
