(* ===== verification/Dialer_Sessions.thy ===== *)
theory Dialer_Sessions
  imports Dialer_Ivr
begin

text \<open>
  Click-to-call sessions and the dialler's reports: \<^verbatim>\<open>apps/api/src/actions/autodialer.facade.ts\<close> and
  \<^verbatim>\<open>apps/api/src/autodialer/dialer-reporting.service.ts\<close>. Minting the voice and progress tokens is an argument.
\<close>

section \<open>Campaigns as the actions see them\<close>

record CampaignSummary =
  cy_id :: string
  cy_name :: string
  cy_electoral :: bool
  cy_status :: DialerCampaignStatus
  cy_targets :: "nat option"
  cy_voiceReady :: bool

definition toSummary :: "DialerEnv \<Rightarrow> DialerCampaign \<Rightarrow> CampaignSummary" where
  "toSummary env c =
     (let targets = (case dc_targetNumbers c of Some (JArr js) \<Rightarrow> length js | _ \<Rightarrow> 0) in
      \<lparr>cy_id = dc_id c, cy_name = dc_name c, cy_electoral = dc_electoralTarget c, cy_status = dc_status c,
        cy_targets = (if dc_electoralTarget c \<or> targets = 0 then None else Some targets),
        cy_voiceReady = (truthy (dc_fromNumberId c) \<or> or_string (platform_from (de_voice env)) \<noteq> [])\<rparr>)"

definition getCampaignSummary :: "DialerEnv \<Rightarrow> string \<Rightarrow> string \<Rightarrow> DialerStore \<Rightarrow> CampaignSummary option" where
  "getCampaignSummary env tenantId campaignId st =
     map_option (toSummary env) (find (\<lambda>c. dc_id c = campaignId \<and> dc_tenantId c = tenantId) (dl_campaigns st))"

definition listCampaignSummaries :: "DialerEnv \<Rightarrow> string \<Rightarrow> DialerStore \<Rightarrow> CampaignSummary list" where
  "listCampaignSummaries env tenantId st = map (toSummary env)
     (rev (filter (\<lambda>c. dc_tenantId c = tenantId \<and> dc_status c \<noteq> DialerCampaignStatus.ARCHIVED) (dl_campaigns st)))"

section \<open>Members a caller may choose\<close>

record PublicTarget =
  pt_id :: string
  pt_name :: string
  pt_party :: "string option"
  pt_electorate :: "string option"

definition identityOf :: "Politician \<Rightarrow> PublicTarget" where
  "identityOf p = \<lparr>pt_id = po_id p, pt_name = po_name p, pt_party = po_party p, pt_electorate = po_electorate p\<rparr>"

definition json_string :: "json option \<Rightarrow> string option" where
  "json_string j = (case j of Some (JStr s) \<Rightarrow> Some s | _ \<Rightarrow> None)"

definition pinnedOf :: "DialerCampaign \<Rightarrow> (string \<times> string) list" where
  "pinnedOf c =
     (case dc_targetPoliticians c of
        Some (JArr js) \<Rightarrow> List.map_filter (\<lambda>j.
          case (json_string (jget j ''id''), json_string (jget j ''name'')) of (Some i, Some n) \<Rightarrow> Some (i, n) | _ \<Rightarrow> None) js
      | _ \<Rightarrow> [])"

definition find_politician :: "DialerEnv \<Rightarrow> string \<Rightarrow> Politician option" where
  "find_politician env i = find (\<lambda>p. po_id p = i) (de_politicians env)"

definition chooserWhere :: "DialerCampaign \<Rightarrow> Politician \<Rightarrow> bool" where
  "chooserWhere c p \<longleftrightarrow>
     (let parties = (case dc_partyTargets c of
            Some (JArr js) \<Rightarrow> filter (\<lambda>s. js_trim s \<noteq> []) (List.map_filter (\<lambda>j. json_string (Some j)) js) | _ \<Rightarrow> []) in
      po_jurisdiction p = given (dc_jurisdiction c) ''FEDERAL'' \<and>
      po_chamber p = (if dc_officeTarget c = Some ''upper'' then ''UPPER'' else ''LOWER'') \<and>
      (parties = [] \<or> list_ex (\<lambda>x. map_option js_lower (po_party p) = Some (js_lower x)) parties))"

definition getPublicTargets :: "DialerEnv \<Rightarrow> string \<Rightarrow> string \<Rightarrow> DialerStore \<Rightarrow> bool \<times> PublicTarget list" where
  "getPublicTargets env tenantId campaignId st =
     (case find (\<lambda>c. dc_id c = campaignId \<and> dc_tenantId c = tenantId) (dl_campaigns st) of
        None \<Rightarrow> (False, [])
      | Some c \<Rightarrow> (dc_callerChoosesTarget c, map (\<lambda>(i, n). case find_politician env i of
            Some p \<Rightarrow> identityOf p
          | None \<Rightarrow> \<lparr>pt_id = i, pt_name = n, pt_party = None, pt_electorate = None\<rparr>) (pinnedOf c)))"

definition searchPublicTargets :: "DialerEnv \<Rightarrow> string \<Rightarrow> string \<Rightarrow> string \<Rightarrow> DialerStore \<Rightarrow> PublicTarget list" where
  "searchPublicTargets env tenantId campaignId q st =
     (case find (\<lambda>c. dc_id c = campaignId \<and> dc_tenantId c = tenantId) (dl_campaigns st) of
        None \<Rightarrow> []
      | Some c \<Rightarrow>
          if \<not> dc_callerChoosesTarget c then []
          else let query = js_lower (js_trim q);
                   has = (\<lambda>s. str_includes (js_lower s) query) in
            map identityOf (take 20 (sort_key po_name (filter (\<lambda>p. chooserWhere c p \<and>
              (query = [] \<or> has (po_name p) \<or> (case po_electorate p of None \<Rightarrow> False | Some e \<Rightarrow> has e))) (de_politicians env)))))"

definition TARGET_NOT_ALLOWED :: api_error where
  "TARGET_NOT_ALLOWED = ApiHttpException ''TARGET_NOT_ALLOWED'' 400"

record SessionInput =
  si_tenantId :: string
  si_campaignId :: string
  si_actionPageId :: string
  si_supporterName :: "string option"
  si_supporterPhone :: "string option"
  si_targetPoliticianId :: "string option"

definition resolveChosenTarget :: "DialerEnv \<Rightarrow> SessionInput \<Rightarrow> DialerStore \<Rightarrow> Politician option res" where
  "resolveChosenTarget env input st =
     (case find (\<lambda>c. dc_id c = si_campaignId input \<and> dc_tenantId c = si_tenantId input) (dl_campaigns st) of
        None \<Rightarrow> Inr None
      | Some c \<Rightarrow>
          (let pinned = pinnedOf c in
           if \<not> truthy (si_targetPoliticianId input)
           then Inr (case pinned of [(i, n)] \<Rightarrow> find_politician env i | _ \<Rightarrow> None)
           else case find_politician env (the (si_targetPoliticianId input)) of
               None \<Rightarrow> Inl TARGET_NOT_ALLOWED
             | Some row \<Rightarrow>
                 if po_id row \<in> set (map fst pinned) then Inr (Some row)
                 else if \<not> dc_callerChoosesTarget c then Inl TARGET_NOT_ALLOWED
                 else if chooserWhere c row then Inr (Some row) else Inl TARGET_NOT_ALLOWED))"

section \<open>Sessions\<close>

definition SESSION_TTL_MS :: rat where "SESSION_TTL_MS = 15 * 60 * 1000"

definition fresh_session :: "SessionInput \<Rightarrow> Politician option \<Rightarrow> string \<Rightarrow> rat \<Rightarrow> DialerCallSession" where
  "fresh_session input chosen i now =
     \<lparr>ss_id = i, ss_tenantId = si_tenantId input, ss_campaignId = si_campaignId input,
       ss_actionPageId = Some (si_actionPageId input), ss_status = DialerSessionStatus.CREATED, ss_callId = None,
       ss_targetCallId = None, ss_conferenceName = Some (''dialer-'' @ i), ss_supporterName = si_supporterName input,
       ss_supporterPhone = si_supporterPhone input,
       ss_targetNumber = (case chosen of None \<Rightarrow> None
         | Some p \<Rightarrow> if truthy (po_phone p) \<and> isValidAuTargetNumber (the (po_phone p)) then po_phone p else None),
       ss_targetName = map_option po_name chosen, ss_targetParty = Option.bind chosen po_party,
       ss_targetElectorate = Option.bind chosen po_electorate, ss_postcode = None, ss_language = ''en'',
       ss_expiresAt = now + SESSION_TTL_MS, ss_endedAt = None, ss_createdAt = now\<rparr>"

text \<open>The session is committed before the tokens are minted for its identity.\<close>

definition createPublicCallSession ::
  "DialerEnv \<Rightarrow> (string \<Rightarrow> string res) \<Rightarrow> SessionInput \<Rightarrow> (string \<times> string \<times> PublicTarget option) dialer" where
  "createPublicCallSession env mint input = hbind (\<lambda>st. (resolveChosenTarget env input st, st)) (\<lambda>chosen.
     hbind (\<lambda>st. let s = fresh_session input chosen (dialer_id ''ses'' (dl_nextId st)) (vs_now st) in
       (Inr s, st\<lparr>dl_sessions := dl_sessions st @ [s], dl_nextId := dl_nextId st + 1, vs_events := vs_events st @
          [SessionStarted (ss_id s) (si_tenantId input) (si_campaignId input) (Some (si_actionPageId input))]\<rparr>)) (\<lambda>s.
     hbind (hlift (mint (''s'' @ ss_id s @ ''.t'' @ si_tenantId input))) (\<lambda>token.
     hret (ss_id s, token, map_option identityOf chosen))))"

definition LIVE_SESSIONS :: "DialerSessionStatus list" where
  "LIVE_SESSIONS = [DialerSessionStatus.CREATED, DialerSessionStatus.CONNECTED, DialerSessionStatus.BRIDGED]"

definition countSessions :: "string \<Rightarrow> rat option \<Rightarrow> bool \<Rightarrow> DialerStore \<Rightarrow> nat" where
  "countSessions actionPageId since activeOnly st = length (filter (\<lambda>s. ss_actionPageId s = Some actionPageId \<and>
     (case since of None \<Rightarrow> True | Some t \<Rightarrow> t \<le> ss_createdAt s) \<and> (activeOnly \<longrightarrow> ss_status s \<in> set LIVE_SESSIONS)) (dl_sessions st))"

record SessionStats =
  ts_started :: nat
  ts_connected :: nat
  ts_bridged :: nat
  ts_averageDurationSeconds :: "int option"

definition sessionStats :: "string \<Rightarrow> string \<Rightarrow> DialerStore \<Rightarrow> SessionStats" where
  "sessionStats tenantId actionPageId st =
     (let rows = filter (\<lambda>s. ss_tenantId s = tenantId \<and> ss_actionPageId s = Some actionPageId) (dl_sessions st);
          secs = filter (\<lambda>n. n \<ge> 0) (map (\<lambda>s. (the (ss_endedAt s) - ss_createdAt s) / 1000)
            (take 500 (rev (filter (\<lambda>s. ss_endedAt s \<noteq> None) rows)))) in
      \<lparr>ts_started = length rows,
        ts_connected = length (filter (\<lambda>s. ss_status s \<in> {DialerSessionStatus.CONNECTED, DialerSessionStatus.BRIDGED, DialerSessionStatus.ENDED}) rows),
        ts_bridged = length (filter (\<lambda>s. ss_status s \<in> {DialerSessionStatus.BRIDGED, DialerSessionStatus.ENDED}) rows),
        ts_averageDurationSeconds = (if secs = [] then None else Some \<lfloor>sum_list secs / of_nat (length secs) + 1 / 2\<rfloor>)\<rparr>)"

section \<open>Reports\<close>

definition DECIDED_OUTCOMES :: "DialerAttemptOutcome list" where
  "DECIDED_OUTCOMES = [DialerAttemptOutcome.ANSWERED, DialerAttemptOutcome.MACHINE, DialerAttemptOutcome.NO_ANSWER,
     DialerAttemptOutcome.BUSY, DialerAttemptOutcome.FAILED, DialerAttemptOutcome.OPTED_OUT]"

definition outcome_count :: "DialerAttempt list \<Rightarrow> DialerAttemptOutcome \<Rightarrow> nat" where
  "outcome_count rows oc = length (filter (\<lambda>a. dt_outcome a = oc) rows)"

text \<open>Tenths of a per cent.\<close>

definition connectRate :: "DialerAttempt list \<Rightarrow> rat option" where
  "connectRate rows =
     (let decided = sum_list (map (outcome_count rows) DECIDED_OUTCOMES) in
      if decided = 0 then None
      else Some (of_int \<lfloor>(of_nat (outcome_count rows DialerAttemptOutcome.ANSWERED) / of_nat decided * 1000 + 1 / 2 :: rat)\<rfloor> / 10))"

definition DIALER_STATS_WINDOW_DAYS :: rat where "DIALER_STATS_WINDOW_DAYS = 90"

record TenantStats =
  tn_active :: nat
  tn_callsToday :: nat
  tn_connectRate :: "rat option"
  tn_transfers :: nat

text \<open>\<open>today\<close> is midnight UTC.\<close>

definition tenantStats :: "string \<Rightarrow> rat \<Rightarrow> DialerStore \<Rightarrow> TenantStats" where
  "tenantStats tenantId today st =
     (let rows = filter (\<lambda>a. dt_tenantId a = tenantId) (dl_attempts st) in
      \<lparr>tn_active = length (filter (\<lambda>c. dc_tenantId c = tenantId \<and> dc_status c = DialerCampaignStatus.ACTIVE) (dl_campaigns st)),
        tn_callsToday = length (filter (\<lambda>a. today \<le> dt_createdAt a) rows),
        tn_connectRate = connectRate (filter (\<lambda>a. vs_now st - DIALER_STATS_WINDOW_DAYS * 86400000 \<le> dt_createdAt a) rows),
        tn_transfers = length (filter (\<lambda>r. rd_tenantId r = tenantId) (dl_redirects st))\<rparr>)"

record CampaignStats =
  cz_total :: nat
  cz_pending :: nat
  cz_byOutcome :: "(DialerAttemptOutcome \<times> nat) list"
  cz_callsToday :: nat
  cz_connectRate :: "rat option"
  cz_transfers :: nat
  cz_surveyAnswers :: nat
  cz_started :: nat
  cz_bridged :: nat
  cz_lastDialedAt :: "rat option"

definition campaignStats :: "string \<Rightarrow> string \<Rightarrow> rat \<Rightarrow> CampaignStats dialer" where
  "campaignStats tenantId campaignId today = (\<lambda>st.
     (case find (\<lambda>c. dc_id c = campaignId \<and> dc_tenantId c = tenantId) (dl_campaigns st) of
        None \<Rightarrow> Inl CAMPAIGN_NOT_FOUND
      | Some c \<Rightarrow>
          (let rows = filter (\<lambda>a. dt_campaignId a = campaignId) (dl_attempts st);
               ours = filter (\<lambda>s. ss_tenantId s = tenantId \<and> ss_campaignId s = campaignId) (dl_sessions st);
               byOutcome = filter (\<lambda>(oc, n). 0 < n) (map (\<lambda>oc. (oc, outcome_count rows oc))
                 (DialerAttemptOutcome.PENDING # DECIDED_OUTCOMES @ [DialerAttemptOutcome.CANCELED])) in
           Inr \<lparr>cz_total = sum_list (map snd byOutcome), cz_pending = outcome_count rows DialerAttemptOutcome.PENDING,
             cz_byOutcome = byOutcome, cz_callsToday = length (filter (\<lambda>a. today \<le> dt_createdAt a) rows),
             cz_connectRate = connectRate rows,
             cz_transfers = length (filter (\<lambda>r. rd_tenantId r = tenantId \<and> rd_campaignId r = campaignId) (dl_redirects st)),
             cz_surveyAnswers = length (filter (\<lambda>r. sr_campaignId r = campaignId) (dl_results st)),
             cz_started = length ours,
             cz_bridged = length (filter (\<lambda>s. ss_status s \<in> {DialerSessionStatus.BRIDGED, DialerSessionStatus.ENDED}) ours),
             cz_lastDialedAt = dc_lastDialedAt c\<rparr>),
      st))"

text \<open>The answers of a question with their counts, and the transfers, newest first.\<close>

definition question_counts :: "DialerSurveyResult list \<Rightarrow> DialerNode \<Rightarrow> string \<times> nat \<times> (DialerAnswer \<times> nat) list" where
  "question_counts results n =
     (let answers = map (\<lambda>a. (a, length (filter (\<lambda>r. sr_questionKey r = dn_key n \<and> sr_answerDigit r = da_digit a) results)))
            (sort_key da_digit (dn_answers n)) in
      (dn_key n, sum_list (map snd answers), answers))"

definition campaign_results ::
  "string \<Rightarrow> string \<Rightarrow> ((string \<times> nat \<times> (DialerAnswer \<times> nat) list) list \<times> nat \<times> DialerRedirect list) dialer" where
  "campaign_results tenantId campaignId = (\<lambda>st.
     (case find (\<lambda>c. dc_id c = campaignId \<and> dc_tenantId c = tenantId) (dl_campaigns st) of
        None \<Rightarrow> Inl CAMPAIGN_NOT_FOUND
      | Some c \<Rightarrow>
          (let results = filter (\<lambda>r. sr_campaignId r = campaignId) (dl_results st);
               transfers = filter (\<lambda>r. rd_tenantId r = tenantId \<and> rd_campaignId r = campaignId) (dl_redirects st) in
           Inr (map (\<lambda>q. question_counts results (dq_node q)) (campaign_questions campaignId st),
             length transfers, take 100 (rev transfers))),
      st))"

end
