(* ===== verification/Dialer_Walk.thy ===== *)
theory Dialer_Walk
  imports Dialer_Sessions
begin

text \<open>
  The windowed walk of a tick selects what a scan of the whole audience would: the first members, one per phone, that
  nothing excludes. The windows only bound what is read at a time.
\<close>

section \<open>A scan of the whole audience\<close>

fun scan :: "(string \<Rightarrow> Verdict) \<Rightarrow> string set \<Rightarrow> member list \<Rightarrow> (member \<times> nat) list" where
  "scan look seen [] = []"
| "scan look seen (m # ms) =
     (if snd m \<in> seen then scan look seen ms
      else (case look (snd m) of Dial n \<Rightarrow> [(m, n)] | _ \<Rightarrow> []) @ scan look (insert (snd m) seen) ms)"

definition members_of :: "DialerStore \<Rightarrow> string \<Rightarrow> AudienceMemberOrder \<Rightarrow> member list" where
  "members_of st tenantId order = hydrateWindow st tenantId order 0 (member_count order)"

definition eligible :: "DialerStore \<Rightarrow> DialerCampaign \<Rightarrow> rat \<Rightarrow> member list \<Rightarrow> (member \<times> nat) list" where
  "eligible st c now ms = scan (\<lambda>phone. verdict st c now [phone] phone) {} ms"

section \<open>One window\<close>

lemma scan_append: "scan look seen (ms @ ms') = scan look seen ms @ scan look (seen \<union> snd ` set ms) ms'"
  by (induction look seen ms rule: scan.induct) (auto simp: insert_absorb)

lemma scan_cong: "(\<And>m. m \<in> set ms \<Longrightarrow> look (snd m) = look' (snd m)) \<Longrightarrow> scan look seen ms = scan look' seen ms"
  by (induction ms arbitrary: seen) auto

lemma consider_seen [simp]: "set (wk_seen (consider_member look m w)) = insert (snd m) (set (wk_seen w))"
  by (auto simp: consider_member_def Let_def split: Verdict.split)

lemma consider_candidates:
  "wk_candidates (consider_member look m w) = wk_candidates w @ scan look (set (wk_seen w)) [m]"
  by (auto simp: consider_member_def Let_def split: Verdict.split)

lemma walk_members_candidates:
  "length (wk_candidates w) \<le> batch \<Longrightarrow>
   wk_candidates (walk_members look batch ms w) = take batch (wk_candidates w @ scan look (set (wk_seen w)) ms)"
proof (induction ms arbitrary: w)
  case (Cons m ms)
  show ?case
  proof (cases "batch \<le> length (wk_candidates w)")
    case True
    with Cons.prems show ?thesis by simp
  next
    case False
    have step: "scan look (set (wk_seen w)) (m # ms) =
        scan look (set (wk_seen w)) [m] @ scan look (insert (snd m) (set (wk_seen w))) ms"
      using scan_append [of look "set (wk_seen w)" "[m]" ms] by simp
    have one: "length (scan look (set (wk_seen w)) [m]) \<le> 1"
      by (auto split: Verdict.split)
    have "wk_candidates (walk_members look batch ms (consider_member look m w)) =
        take batch (wk_candidates (consider_member look m w) @ scan look (insert (snd m) (set (wk_seen w))) ms)"
      using Cons.IH [of "consider_member look m w"] False one by (simp add: consider_candidates del: scan.simps)
    with False show ?thesis by (simp add: consider_candidates step del: scan.simps)
  qed
qed simp

lemma walk_members_seen:
  "length (wk_candidates (walk_members look batch ms w)) < batch \<Longrightarrow>
   set (wk_seen (walk_members look batch ms w)) = set (wk_seen w) \<union> snd ` set ms"
  by (induction look batch ms w rule: walk_members.induct) (auto split: if_splits)

section \<open>All windows\<close>

lemma walk_windows_candidates:
  assumes window: "\<And>o'. hydrate o' @ rest (o' + sz) = rest o'" and last: "\<And>o'. count \<le> o' \<Longrightarrow> rest o' = []"
    and look: "\<And>phones phone. phone \<in> set phones \<Longrightarrow> look phones phone = look' phone"
    and sz: "0 < sz"
  shows "length (wk_candidates w) \<le> batch \<Longrightarrow>
    wk_candidates (walk_windows hydrate look batch count sz offset w) =
    take batch (wk_candidates w @ scan look' (set (wk_seen w)) (rest offset))"
proof (induction "count - offset" arbitrary: offset w rule: less_induct)
  case less
  show ?case
  proof (cases "offset < count \<and> length (wk_candidates w) < batch")
    case False
    then show ?thesis using less.prems last [of offset] sz by (auto simp: walk_windows.simps [of _ _ _ _ _ offset])
  next
    case True
    let ?window = "hydrate offset"
    let ?w = "if ?window = [] then w else walk_members (look (js_set (map snd ?window))) batch ?window w"
    have same: "scan (look (js_set (map snd ?window))) seen ?window = scan look' seen ?window" for seen
      by (intro scan_cong look) (auto simp: set_js_set)
    have c: "wk_candidates ?w = take batch (wk_candidates w @ scan look' (set (wk_seen w)) ?window)"
      using walk_members_candidates [OF less.prems, of "look (js_set (map snd ?window))" ?window] less.prems same by simp
    have s: "set (wk_seen ?w) = set (wk_seen w) \<union> snd ` set ?window" if "length (wk_candidates ?w) < batch"
      using that walk_members_seen [of "look (js_set (map snd ?window))" batch ?window w] by (auto split: if_splits)
    have split: "scan look' (set (wk_seen w)) (rest offset) =
        scan look' (set (wk_seen w)) ?window @ scan look' (set (wk_seen w) \<union> snd ` set ?window) (rest (offset + sz))"
      unfolding window [of offset, symmetric] by (rule scan_append)
    have "wk_candidates (walk_windows hydrate look batch count sz (offset + sz) ?w) =
        take batch (wk_candidates ?w @ scan look' (set (wk_seen ?w)) (rest (offset + sz)))"
      by (rule less.hyps) (use True sz c in auto)
    moreover have "\<dots> = take batch (wk_candidates w @ scan look' (set (wk_seen w)) (rest offset))"
    proof (cases "length (wk_candidates ?w) < batch")
      case True
      from s [OF True] True c show ?thesis unfolding split by simp
    next
      case False
      with c less.prems show ?thesis unfolding split by (simp add: min_absorb1)
    qed
    ultimately show ?thesis using True sz by (simp add: walk_windows.simps [of _ _ _ _ _ offset] Let_def)
  qed
qed

text \<open>What a window hydrates is the part of the audience it covers.\<close>

lemma hydrate_rest:
  "hydrateWindow st t order o' sz @ hydrateWindow st t order (o' + sz) (member_count order) =
   hydrateWindow st t order o' (member_count order)"
proof -
  have cut: "take sz (drop o' xs) @ take (length xs) (drop (o' + sz) xs) = take (length xs) (drop o' xs)" for xs :: "'a list"
  proof -
    have "take (length xs) (drop k xs) = drop k xs" for k by simp
    then show ?thesis by (metis append_take_drop_id drop_drop add.commute)
  qed
  have split: "List.map_filter f xs @ List.map_filter f ys = List.map_filter f (xs @ ys)" for f :: "string \<Rightarrow> member option" and xs ys
    by (simp add: List.map_filter_def)
  show ?thesis
    by (cases order) (simp_all only: hydrateWindow_def member_count_def AudienceMemberOrder.case split cut)
qed

lemma hydrate_end: "member_count order \<le> o' \<Longrightarrow> hydrateWindow st t order o' n = []"
  by (cases order) (simp_all add: hydrateWindow_def member_count_def List.map_filter_def)

lemma verdict_local: "phone \<in> set phones \<Longrightarrow> verdict st c now phones phone = verdict st c now [phone] phone"
proof -
  assume p: "phone \<in> set phones"
  have "phone \<in> set (voice_opt_outs st t phones) \<longleftrightarrow> phone \<in> set (voice_opt_outs st t [phone])" for t
    using p by (auto simp: voice_opt_outs_def)
  moreover have "phone \<in> set (suppressed_phones st t phones) \<longleftrightarrow> phone \<in> set (suppressed_phones st t [phone])" for t
    using p by (auto simp: suppressed_phones_def List.map_filter_def split: option.splits)
  ultimately show ?thesis
    using p by (simp add: verdict_def attempt_stats_def)
qed

lemma batch_pos: "0 < batch_size c"
  by (simp add: batch_size_def)

lemma walk_candidates_scan:
  "wk_candidates (select_candidates st c now order) =
     take (batch_size c) (eligible st c now (members_of st (dc_tenantId c) order))"
proof -
  let ?sz = "batch_size c * DISPATCH_WINDOW_FACTOR" and ?start = "\<lparr>wk_seen = [], wk_candidates = [], wk_skipped = no_skips\<rparr>"
  have "0 < ?sz" using batch_pos [of c] by (simp add: DISPATCH_WINDOW_FACTOR_def)
  then have "wk_candidates (walk_windows (\<lambda>offset. hydrateWindow st (dc_tenantId c) order offset ?sz) (verdict st c now)
        (batch_size c) (member_count order) ?sz 0 ?start) =
      take (batch_size c) (wk_candidates ?start @ scan (\<lambda>phone. verdict st c now [phone] phone) (set (wk_seen ?start))
        (hydrateWindow st (dc_tenantId c) order 0 (member_count order)))"
    by (intro walk_windows_candidates hydrate_rest hydrate_end verdict_local) auto
  then show ?thesis by (simp add: select_candidates_def eligible_def members_of_def Let_def)
qed

text \<open>C19: The candidates of a tick, found window by window with reads scoped to the phones of a window, are the first
  \<open>batchSize\<close> entries of a scan of the whole audience in its order: one member per phone, the first, that is an
  Australian number, has not opted out of calls, is not suppressed, was neither answered nor opted out before, has
  attempts left and was not called too recently.\<close>

theorem walk_is_prefix_of_scan:
  "wk_candidates (select_candidates st c now order) =
     take (batch_size c) (eligible st c now (members_of st (dc_tenantId c) order))"
  by (rule walk_candidates_scan)

end
