(* ===== verification/Dialer_Promises.thy ===== *)
theory Dialer_Promises
  imports Dialer_Walk
begin

text \<open>
  What the dialler promises to the people it rings: a tick creates attempts only for phones that may be called, within
  the campaign's caps, and a leg is placed only where the campaign, the hour, the person and the number allow it.
\<close>

section \<open>Whom a scan selects\<close>

lemma scan_sound:
  "(m, n) \<in> set (scan look seen ms) \<Longrightarrow> m \<in> set ms \<and> look (snd m) = Dial n \<and> snd m \<notin> seen"
  by (induction look seen ms rule: scan.induct) (auto split: if_splits Verdict.splits)

lemma scan_distinct: "distinct (map (snd \<circ> fst) (scan look seen ms))"
proof (induction look seen ms rule: scan.induct)
  case (2 look seen m ms)
  have "snd m \<notin> (snd \<circ> fst) ` set (scan look (insert (snd m) seen) ms)" using scan_sound by fastforce
  with 2 show ?case by (auto split: Verdict.split)
qed simp

text \<open>Why a phone may be called: nothing on record speaks against it.\<close>

definition may_call :: "DialerStore \<Rightarrow> DialerCampaign \<Rightarrow> rat \<Rightarrow> string \<Rightarrow> bool" where
  "may_call st c now phone \<longleftrightarrow>
     is_au_e164 phone \<and>
     (\<forall>r\<in>set (db_contactConsent (dial_db st)). cc_tenantId r = dc_tenantId c \<and> cc_channel r = ''VOICE'' \<and>
        cc_phoneE164 r = phone \<longrightarrow> cc_state r \<noteq> ''OPTED_OUT'') \<and>
     (\<forall>s\<in>set (db_suppression (dial_db st)). su_tenantId s = dc_tenantId c \<longrightarrow> su_phoneE164 s \<noteq> Some phone) \<and>
     (\<forall>a\<in>set (attempts_of (dc_id c) phone st). dt_outcome a \<noteq> DialerAttemptOutcome.ANSWERED \<and>
        dt_outcome a \<noteq> DialerAttemptOutcome.OPTED_OUT \<and>
        dt_createdAt a + of_int (dc_noCallWindowHours c) * 3600000 \<le> now) \<and>
     length (attempts_of (dc_id c) phone st) < max 1 (nat (dc_maxCallAttempts c))"

lemma last_at: "a \<in> set as \<Longrightarrow> dt_createdAt a \<le> foldr max (map dt_createdAt as) (0::rat)"
  by (induction as) (auto simp: le_max_iff_disj)

lemma dial_may_call:
  assumes "verdict st c now [phone] phone = Dial n"
  shows "may_call st c now phone \<and> n = length (attempts_of (dc_id c) phone st)"
proof -
  have au: "is_au_e164 phone" and out: "phone \<notin> set (voice_opt_outs st (dc_tenantId c) [phone])"
    and sup: "phone \<notin> set (suppressed_phones st (dc_tenantId c) [phone])"
    using assms by (auto simp: verdict_def split: if_split_asm)
  have consent: "cc_state r \<noteq> ''OPTED_OUT''"
    if "r \<in> set (db_contactConsent (dial_db st))" "cc_tenantId r = dc_tenantId c" "cc_channel r = ''VOICE''" "cc_phoneE164 r = phone" for r
    using out that by (auto simp: voice_opt_outs_def)
  have free: "su_phoneE164 s \<noteq> Some phone" if "s \<in> set (db_suppression (dial_db st))" "su_tenantId s = dc_tenantId c" for s
  proof
    assume "su_phoneE164 s = Some phone"
    with that have "phone \<in> set (suppressed_phones st (dc_tenantId c) [phone])"
      by (auto simp: suppressed_phones_def List.map_filter_def intro!: image_eqI [of _ _ s])
    with sup show False by blast
  qed
  let ?as = "attempts_of (dc_id c) phone st"
  show ?thesis
  proof (cases "?as = []")
    case True
    then have "n = 0" using assms au out sup by (simp add: verdict_def attempt_stats_def Let_def)
    with True au consent free show ?thesis by (auto simp: may_call_def)
  next
    case False
    then have "\<not> list_ex (\<lambda>a. dt_outcome a \<in> set TERMINAL_OUTCOMES) ?as" "length ?as < max_attempts c"
      "foldr max (map dt_createdAt ?as) 0 \<le> no_call_before c now" "n = length ?as"
      using assms au out sup by (auto simp: verdict_def attempt_stats_def Let_def not_le not_less split: if_split_asm)
    note facts = this
    have "dt_createdAt a + of_int (dc_noCallWindowHours c) * 3600000 \<le> now" if "a \<in> set ?as" for a
    proof -
      have "dt_createdAt a \<le> no_call_before c now" using last_at [OF that] facts(3) by simp
      moreover have "(of_int (dc_noCallWindowHours c) :: rat) \<le> of_int (max 0 (dc_noCallWindowHours c))" by simp
      ultimately show ?thesis by (simp add: no_call_before_def)
    qed
    moreover have "max_attempts c = max 1 (nat (dc_maxCallAttempts c))" by (simp add: max_attempts_def)
    ultimately show ?thesis
      using facts(1,2,4) au consent free by (auto simp: may_call_def list_ex_iff TERMINAL_OUTCOMES_def)
  qed
qed

section \<open>What a tick creates\<close>

definition attempt_of :: "DialerCampaign \<Rightarrow> member \<times> nat \<Rightarrow> DialerAttempt \<Rightarrow> bool" where
  "attempt_of c cand a \<longleftrightarrow> dt_tenantId a = dc_tenantId c \<and> dt_campaignId a = dc_id c \<and> dt_contactId a = fst (fst cand) \<and>
     dt_phoneE164 a = snd (fst cand) \<and> dt_attemptNo a = snd cand + 1 \<and> dt_callId a = None \<and>
     dt_outcome a = DialerAttemptOutcome.PENDING"

lemma enqueue_attempts: "dl_attempts (snd (enqueue_dialer env job st)) = dl_attempts st"
  by (simp add: enqueue_dialer_def)

lemma create_attempts_adds:
  "\<exists>new k. dl_attempts (snd (create_attempts env c cs n st)) = dl_attempts st @ new \<and> list_all2 (attempt_of c) (take k cs) new"
proof (induction cs arbitrary: n st)
  case Nil
  show ?case by (simp add: hret_def)
next
  case (Cons cand cs)
  obtain m prior where cand: "cand = (m, prior)" by (cases cand)
  show ?case
  proof (cases "create_attempt c m (prior + 1) st")
    case (Pair r st1)
    show ?thesis
    proof (cases r)
      case (Inl e)
      with Pair have "dl_attempts st1 = dl_attempts st" by (auto simp: create_attempt_def Let_def split: if_splits)
      then show ?thesis using Pair Inl by (intro exI [of _ "[]"] exI [of _ 0]) (simp add: cand hbind_def)
    next
      case (Inr a)
      with Pair have a: "dl_attempts st1 = dl_attempts st @ [a]" "attempt_of c cand a"
        by (auto simp: create_attempt_def Let_def attempt_of_def cand split: if_splits)
      let ?job = "\<lparr>dj_id = getDialerPlaceCallJobId (dt_id a), dj_work = PlaceCall (dt_id a) (dc_tenantId c), dj_runAt = vs_now st1\<rparr>"
      obtain q st2 where q: "enqueue_dialer env ?job st1 = (q, st2)" by (cases "enqueue_dialer env ?job st1")
      then have st2: "dl_attempts st2 = dl_attempts st @ [a]" using a(1) enqueue_attempts [of env ?job st1] by simp
      show ?thesis
      proof (cases q)
        case (Inl e)
        then show ?thesis
          using Pair Inr q st2 a(2) by (intro exI [of _ "[a]"] exI [of _ 1]) (simp add: cand hbind_def hget_def)
      next
        case queued: (Inr u)
        obtain new k where new: "dl_attempts (snd (create_attempts env c cs (n + 1) st2)) = dl_attempts st2 @ new"
          "list_all2 (attempt_of c) (take k cs) new" using Cons.IH [of "n + 1" st2] by blast
        have "snd (create_attempts env c (cand # cs) n st) = snd (create_attempts env c cs (n + 1) st2)"
          using Pair Inr q queued by (simp add: cand hbind_def hget_def)
        then show ?thesis using new st2 a(2) by (intro exI [of _ "a # new"] exI [of _ "Suc k"]) simp
      qed
    qed
  qed
qed

lemma complete_attempts: "dl_attempts (snd (complete t i st)) = dl_attempts st"
  by (auto simp: complete_def campaign_transition_def handler_defs Let_def append_events_def split: sum.splits option.splits prod.splits)

lemma finish_adds:
  "\<exists>new k. dl_attempts (snd (finish_tick env c w st)) = dl_attempts st @ new \<and>
     list_all2 (attempt_of c) (take k (wk_candidates w)) new"
proof (cases "wk_candidates w = []")
  case True
  obtain r s where cs: "complete (dc_tenantId c) (dc_id c) st = (r, s)" by (cases "complete (dc_tenantId c) (dc_id c) st")
  then have "dl_attempts s = dl_attempts st" using complete_attempts [of "dc_tenantId c" "dc_id c" st] by simp
  then show ?thesis using True cs
    by (intro exI [of _ "[]"] exI [of _ 0]) (auto simp: finish_tick_def handler_defs Let_def split: sum.split)
next
  case False
  obtain new k where "dl_attempts (snd (create_attempts env c (wk_candidates w) 0 st)) = dl_attempts st @ new"
    "list_all2 (attempt_of c) (take k (wk_candidates w)) new" using create_attempts_adds [of env c "wk_candidates w" 0 st] by blast
  moreover have "snd (finish_tick env c w st) = snd (create_attempts env c (wk_candidates w) 0 st)"
    using False by (simp add: finish_tick_def hbind_def hret_def Let_def split: prod.split sum.split)
  ultimately show ?thesis by auto
qed

section \<open>The tick\<close>

lemma resolve_members_same:
  assumes "resolve_members env c st = (Inr order, st')"
  shows "dl_attempts st' = dl_attempts st" "dial_db st' = dial_db st" "vs_now st' = vs_now st"
proof -
  obtain audience where a: "resolveOrderedMembers (de_resolver env) (dl_audience st) (dc_tenantId c) (the (dc_audienceId c)) = Inr (order, audience)"
    "st' = st\<lparr>dl_audience := audience\<rparr>"
    using assms by (auto simp: resolve_members_def split: sum.splits)
  have "st_db (ad_store audience) = st_db (ad_store (dl_audience st))"
    using a(1) by (auto simp: resolveOrderedMembers_def Let_def rbind_Inr_iff split: if_splits dest: ordered_ids(5))
  with a(2) show "dl_attempts st' = dl_attempts st" "dial_db st' = dial_db st" "vs_now st' = vs_now st"
    by (simp_all add: dial_db_def)
qed

text \<open>What is known of the attempts a tick creates.\<close>

definition allowed_batch :: "DialerEnv \<Rightarrow> DialerStore \<Rightarrow> string \<Rightarrow> string \<Rightarrow> DialerAttempt list \<Rightarrow> bool" where
  "allowed_batch env st i t new \<longleftrightarrow>
     (\<exists>c\<in>set (dl_campaigns st). dc_id c = i \<and> dc_tenantId c = t \<and> dc_status c = DialerCampaignStatus.ACTIVE \<and>
        window_open env c (vs_now st) st \<and> length new \<le> max 1 (nat (dc_batchSize c)) \<and> distinct (map dt_phoneE164 new) \<and>
        (\<forall>a\<in>set new. may_call st c (vs_now st) (dt_phoneE164 a) \<and>
           dt_attemptNo a = length (attempts_of i (dt_phoneE164 a) st) + 1 \<and>
           dt_tenantId a = t \<and> dt_campaignId a = i \<and> dt_callId a = None \<and> dt_outcome a = DialerAttemptOutcome.PENDING))"

lemma claimed_batch:
  assumes c: "c \<in> set (dl_campaigns st)" "dc_status c = DialerCampaignStatus.ACTIVE" "window_open env c (vs_now st) st"
    and cands: "cands = take (batch_size c) (eligible st1 c (vs_now st1) ms)"
    and same: "dl_attempts st1 = dl_attempts st" "dial_db st1 = dial_db st" "vs_now st1 = vs_now st"
    and new: "list_all2 (attempt_of c) (take k cands) new"
  shows "allowed_batch env st (dc_id c) (dc_tenantId c) new"
proof -
  let ?phone = "snd \<circ> fst"
  have sub: "set (take k cands) \<subseteq> set (eligible st1 c (vs_now st1) ms)"
    using cands by (auto dest!: in_set_takeD)
  have len: "length new \<le> batch_size c"
    using list_all2_lengthD [OF new] cands by simp
  have phones: "map dt_phoneE164 new = map ?phone (take k cands)"
    using new by (induction rule: list_all2_induct) (simp_all add: attempt_of_def)
  have "distinct (map ?phone cands)"
    unfolding cands take_map [symmetric] eligible_def by (intro distinct_take scan_distinct)
  then have dist: "distinct (map dt_phoneE164 new)"
    unfolding phones take_map [symmetric] by (rule distinct_take)
  have each: "may_call st c (vs_now st) (dt_phoneE164 a) \<and> dt_attemptNo a = length (attempts_of (dc_id c) (dt_phoneE164 a) st) + 1 \<and>
      dt_tenantId a = dc_tenantId c \<and> dt_campaignId a = dc_id c \<and> dt_callId a = None \<and> dt_outcome a = DialerAttemptOutcome.PENDING"
    if a: "a \<in> set new" for a
  proof -
    from a obtain j where j: "j < length new" "a = new ! j" by (auto simp: in_set_conv_nth)
    define cand where "cand = take k cands ! j"
    have "j < length (take k cands)" using j(1) list_all2_lengthD [OF new] by simp
    then have cand: "cand \<in> set (take k cands)" unfolding cand_def by (rule nth_mem)
    have "attempt_of c cand a" unfolding cand_def j(2) using new j(1) by (rule list_all2_nthD2)
    note cand = cand this
    obtain m n where mn: "cand = (m, n)" by (cases cand)
    have "(m, n) \<in> set (eligible st1 c (vs_now st1) ms)" using cand(1) sub mn by blast
    then have "verdict st1 c (vs_now st1) [snd m] (snd m) = Dial n" unfolding eligible_def by (drule_tac scan_sound) simp
    from dial_may_call [OF this] have "may_call st1 c (vs_now st1) (snd m)" "n = length (attempts_of (dc_id c) (snd m) st1)" by blast+
    moreover have "attempts_of i p st1 = attempts_of i p st" for i p by (simp add: attempts_of_def same(1))
    ultimately have "may_call st c (vs_now st) (snd m)" "n = length (attempts_of (dc_id c) (snd m) st)"
      by (simp_all add: may_call_def same)
    with cand(2) mn show ?thesis by (simp add: attempt_of_def)
  qed
  show ?thesis
    unfolding allowed_batch_def
    by (rule bexI [OF _ c(1)]) (use c len dist each in \<open>auto simp: batch_size_def\<close>)
qed

text \<open>C17: A tick of a campaign only adds attempts, and only for people it may call: where it adds any, the campaign is
  active and inside its calling window; there are at most as many as the batch size, each for a different phone; and
  each phone is an Australian number, has not opted out of calls with the workspace, is not on its suppression list,
  was neither answered nor opted out in the campaign before, has had fewer than the campaign's maximum of attempts, and
  none more recent than the no-call window. The attempts of a phone are numbered in sequence.\<close>

theorem tick_calls_only_the_allowed:
  "\<exists>new. dl_attempts (snd (runTick env i t st)) = dl_attempts st @ new \<and> (new = [] \<or> allowed_batch env st i t new)"
proof (cases "tick_campaign env i t st")
  case None
  then show ?thesis by (simp add: runTick_def handler_defs)
next
  case (Some c)
  then have found: "find (\<lambda>c. dc_id c = i \<and> dc_tenantId c = t) (dl_campaigns st) = Some c"
    and c: "dc_status c = DialerCampaignStatus.ACTIVE" "window_open env c (vs_now st) st"
    by (auto simp: tick_campaign_def split: option.splits if_splits)
  from find_Some_in [OF found] have c0: "c \<in> set (dl_campaigns st)" "dc_id c = i" "dc_tenantId c = t" by auto
  have run: "snd (runTick env i t st) = snd (tick_claimed env c st)" using Some by (simp add: runTick_def handler_defs)
  obtain claimed st1 where claim: "claim_tick c st = (Inr claimed, st1)"
  proof -
    have "\<exists>b. fst (claim_tick c st) = Inr b" by (auto simp add: claim_tick_def Let_def)
    then show thesis using that by (metis prod.collapse)
  qed
  then have st1: "dl_attempts st1 = dl_attempts st" "dial_db st1 = dial_db st" "vs_now st1 = vs_now st"
    by (auto simp: claim_tick_def Let_def dial_db_def split: if_splits)
  show ?thesis
  proof (cases claimed)
    case False
    then show ?thesis using run claim st1(1) by (simp add: tick_claimed_def hbind_def hret_def)
  next
    case True
    show ?thesis
    proof (cases "resolve_members env c st1")
      case (Pair r st2)
      show ?thesis
      proof (cases r)
        case (Inl e)
        with Pair have "st2 = st1" by (auto simp: resolve_members_def split: sum.splits)
        then show ?thesis using run claim True Pair Inl st1(1) by (simp add: tick_claimed_def hbind_def)
      next
        case (Inr order)
        note st2 = resolve_members_same [OF Pair [unfolded Inr]]
        let ?w = "select_candidates st2 c (vs_now st2) order"
        obtain new k where new: "dl_attempts (snd (finish_tick env c ?w st2)) = dl_attempts st2 @ new"
          "list_all2 (attempt_of c) (take k (wk_candidates ?w)) new" using finish_adds by blast
        have "snd (runTick env i t st) = snd (finish_tick env c ?w st2)"
          using run claim True Pair Inr by (simp add: tick_claimed_def hbind_def hget_def)
        moreover have "allowed_batch env st (dc_id c) (dc_tenantId c) new"
          by (rule claimed_batch [OF c0(1) c walk_candidates_scan _ _ _ new(2)]) (simp_all add: st1 st2)
        ultimately show ?thesis using new(1) c0(2,3) st1(1) st2(1) by auto
      qed
    qed
  qed
qed

end
