(* ===== verification/Call_Timeline.thy ===== *)
theory Call_Timeline
  imports Calls
begin

text \<open>
  The timeline of a call: whatever the producers of statuses are and however they interleave, the events of a call
  are a path of its machine that ends in the status of its row, and a completed call has exactly one completion
  event. Writers that loaded the same row are the \<open>pending\<close> swaps of a step relation.
\<close>

section \<open>What the outbox says of a call\<close>

definition statuses_of :: "string \<Rightarrow> PhoneEvent list \<Rightarrow> CallStatus list" where
  "statuses_of i es = List.map_filter (\<lambda>e. case e of
     CallStatusChanged j t s src code msg \<Rightarrow> if j = i then Some s else None | _ \<Rightarrow> None) es"

definition completions_of :: "string \<Rightarrow> PhoneEvent list \<Rightarrow> nat" where
  "completions_of i es = length (filter (\<lambda>e. case e of CallCompleted j t d \<Rightarrow> j = i | _ \<Rightarrow> False) es)"

definition status_event :: "PhoneEvent \<Rightarrow> bool" where
  "status_event e = (case e of CallStatusChanged j t s src code msg \<Rightarrow> True | CallCompleted j t d \<Rightarrow> True | _ \<Rightarrow> False)"

lemma no_events [simp]: "statuses_of i [] = []" "completions_of i [] = 0"
  by (simp_all add: statuses_of_def completions_of_def List.map_filter_def)

lemma statuses_append: "statuses_of i (es @ es') = statuses_of i es @ statuses_of i es'"
  by (simp add: statuses_of_def List.map_filter_def)

lemma completions_append: "completions_of i (es @ es') = completions_of i es + completions_of i es'"
  by (simp add: completions_of_def)

lemma no_status_events:
  assumes "\<forall>e\<in>set es. \<not> status_event e"
  shows "statuses_of i es = []" "completions_of i es = 0"
  using assms
  by (auto simp: statuses_of_def completions_of_def List.map_filter_def status_event_def filter_empty_conv split: PhoneEvent.splits)

lemma status_events_of:
  "statuses_of i (status_events call target cb src) = (if i = cl_id call then [target] else [])"
  "completions_of i (status_events call target cb src) =
     (if i = cl_id call \<and> target = CallStatus.COMPLETED then 1 else 0)"
  by (auto simp: statuses_of_def completions_of_def status_events_def List.map_filter_def)

definition call_ok :: "PhoneEvent list \<Rightarrow> Call \<Rightarrow> bool" where
  "call_ok es c \<longleftrightarrow>
     fsm_path CALL_TRANSITIONS CallStatus.INITIATED (statuses_of (cl_id c) es) (cl_status c) \<and>
     completions_of (cl_id c) es = (if cl_status c = CallStatus.COMPLETED then 1 else 0) \<and>
     (cl_status c \<notin> set LIVE_STATUSES \<longrightarrow> cl_endedAt c \<noteq> None)"

definition timeline :: "'z CallStore_scheme \<Rightarrow> bool" where
  "timeline st \<longleftrightarrow>
     distinct (map cl_id (vs_calls st)) \<and>
     (\<forall>c\<in>set (vs_calls st). call_ok (vs_events st) c \<and> (\<exists>k<vs_nextCall st. cl_id c = call_id k)) \<and>
     (\<forall>k\<ge>vs_nextCall st. statuses_of (call_id k) (vs_events st) = [] \<and> completions_of (call_id k) (vs_events st) = 0)"

lemma call_id_inject [simp]: "call_id m = call_id n \<longleftrightarrow> m = n"
  by (simp add: call_id_def)

lemma canTransition_iff: "canTransitionCall a b \<longleftrightarrow> b \<in> set (CALL_TRANSITIONS a)"
  by (simp add: canTransitionCall_def)

lemma call_edge: "b \<in> set (CALL_TRANSITIONS a) \<Longrightarrow> a \<in> set LIVE_STATUSES \<and> b \<noteq> a"
  by (cases a) (auto simp: LIVE_STATUSES_def)

lemma status_data_fields:
  "cl_id (status_data target cb now c) = cl_id c" "cl_status (status_data target cb now c) = target"
  "target \<notin> set LIVE_STATUSES \<Longrightarrow> cl_endedAt (status_data target cb now c) \<noteq> None"
  by (cases target; simp add: status_data_def FAILED_STATUSES_def LIVE_STATUSES_def carry_def split: option.split)+

lemma call_ok_other:
  "call_ok es c \<Longrightarrow> statuses_of (cl_id c) es' = [] \<Longrightarrow> completions_of (cl_id c) es' = 0 \<Longrightarrow> call_ok (es @ es') c"
  by (simp add: call_ok_def statuses_append completions_append)

lemma call_ok_same:
  "cl_id d = cl_id c \<and> cl_status d = cl_status c \<and> cl_endedAt d = cl_endedAt c \<Longrightarrow> call_ok es d = call_ok es c"
  by (simp add: call_ok_def)

lemma call_ok_moved:
  assumes ok: "call_ok es c" and edge: "target \<in> set (CALL_TRANSITIONS (cl_status c))" and i: "cl_id call = cl_id c"
  shows "call_ok (es @ status_events call target cb src) (status_data target cb now c)"
proof -
  have "cl_status c \<noteq> CallStatus.COMPLETED" using call_edge [OF edge] by (auto simp: LIVE_STATUSES_def)
  with ok edge i show ?thesis
    by (auto simp: call_ok_def statuses_append completions_append status_events_of status_data_fields fsm_path_append)
qed

text \<open>Rows are rewritten and events appended.\<close>

lemma timeline_rewrite:
  fixes f :: "Call \<Rightarrow> Call"
  assumes t: "timeline st" and i: "\<And>c. cl_id (f c) = cl_id c"
    and rows: "vs_calls st' = map f (vs_calls st)" "vs_events st' = vs_events st @ es" "vs_nextCall st' = vs_nextCall st"
    and ok: "\<And>c. c \<in> set (vs_calls st) \<Longrightarrow> call_ok (vs_events st @ es) (f c)"
    and later: "\<And>k. vs_nextCall st \<le> k \<Longrightarrow> statuses_of (call_id k) es = [] \<and> completions_of (call_id k) es = 0"
  shows "timeline st'"
proof -
  have ids: "map cl_id (map f (vs_calls st)) = map cl_id (vs_calls st)" using i by simp
  show ?thesis
    unfolding timeline_def rows ids
    using t ok later i by (auto simp: timeline_def statuses_append completions_append)
qed

section \<open>Every handler keeps it\<close>

lemma applyCallStatus_timeline [keeps_intros]:
  assumes "canTransitionCall (cl_status call) target"
  shows "hkeeps timeline (applyCallStatus call target cb src)"
proof (rule hkeepsI)
  fix st :: "'z CallStore_scheme" assume t: "timeline st"
  let ?f = "\<lambda>c. if cl_id c = cl_id call \<and> cl_status c = cl_status call then status_data target cb (vs_now st) c else c"
  let ?es = "status_events call target cb src"
  show "timeline (snd (applyCallStatus call target cb src st))"
  proof (cases "list_ex (\<lambda>c. cl_id c = cl_id call \<and> cl_status c = cl_status call) (vs_calls st)")
    case False
    with t show ?thesis by (simp add: applyCallStatus_def)
  next
    case True
    then obtain c0 where c0: "c0 \<in> set (vs_calls st)" "cl_id c0 = cl_id call" "cl_status c0 = cl_status call"
      by (auto simp: list_ex_iff)
    have known: "call_id k \<noteq> cl_id call" if "k \<ge> vs_nextCall st" for k
    proof -
      from t c0 obtain j where "j < vs_nextCall st" "cl_id call = call_id j" by (auto simp: timeline_def)
      with that show ?thesis by simp
    qed
    have "call_ok (vs_events st @ ?es) (?f c)" if c: "c \<in> set (vs_calls st)" for c
    proof (cases "c = c0")
      case True
      with t c c0 assms show ?thesis by (auto simp: timeline_def canTransition_iff intro!: call_ok_moved)
    next
      case False
      with t c c0 have "cl_id c \<noteq> cl_id call"
        by (metis (no_types, lifting) inj_on_def distinct_map timeline_def)
      with t c show ?thesis by (simp add: timeline_def call_ok_other status_events_of)
    qed
    then show ?thesis
      using True known
      by (intro timeline_rewrite [OF t, where f = ?f and es = ?es])
        (simp_all add: applyCallStatus_def status_data_fields status_events_of)
  qed
qed

text \<open>A write that leaves the identity, the status and the end of every call alone.\<close>

lemma update_call_timeline [keeps_intros]:
  assumes "\<And>c. cl_id (f c) = cl_id c \<and> cl_status (f c) = cl_status c \<and> cl_endedAt (f c) = cl_endedAt c"
  shows "hkeeps timeline (update_call i f)"
proof (rule hkeepsI)
  fix st :: "'z CallStore_scheme" assume t: "timeline st"
  have "call_ok (vs_events st) (if cl_id c = i then f c else c)" if "c \<in> set (vs_calls st)" for c
    using t that call_ok_same [OF assms, of "vs_events st" c] by (simp add: timeline_def)
  then show "timeline (snd (update_call i f st))"
    using assms
    by (intro timeline_rewrite [OF t, where f = "\<lambda>c. if cl_id c = i then f c else c" and es = "[]"])
      (simp_all add: update_call_def hmodify_def)
qed

lemma bind_sid_timeline [keeps_intros]: "hkeeps timeline (bind_sid i sid)"
  using hkeepsD [OF update_call_timeline [of "\<lambda>c. c\<lparr>cl_providerCallId := Some sid\<rparr>" i]]
  by (auto simp: hkeeps_def bind_sid_def)

lemma timeline_cong:
  "timeline st \<Longrightarrow> vs_calls st' = vs_calls st \<Longrightarrow> vs_events st' = vs_events st \<Longrightarrow> vs_nextCall st' = vs_nextCall st \<Longrightarrow> timeline st'"
  by (simp add: timeline_def)

lemma timeline_same:
  "(\<And>st. vs_calls (f st) = vs_calls st \<and> vs_events (f st) = vs_events st \<and> vs_nextCall (f st) = vs_nextCall st) \<Longrightarrow>
   hkeeps timeline (hmodify f)"
  by (rule hkeeps_modify) (auto elim: timeline_cong)

lemma claims_timeline [keeps_intros]: "hkeeps timeline (claim_webhook p e)" "hkeeps timeline (release_webhook p e)"
  by (auto simp: hkeeps_def claim_webhook_def release_webhook_def hmodify_def elim: timeline_cong)

lemma append_events_timeline:
  assumes "\<forall>e\<in>set es. \<not> status_event e"
  shows "hkeeps timeline (append_events es)"
  using no_status_events [OF assms]
  by (auto simp: hkeeps_def append_events_def hmodify_def timeline_def call_ok_other statuses_append completions_append)

lemma create_call_timeline [keeps_intros]:
  assumes "status = CallStatus.INITIATED"
  shows "hkeeps timeline (create_call t c to from status sid started)"
proof (rule hkeepsI)
  fix st :: "'z CallStore_scheme" assume ok: "timeline st"
  let ?n = "vs_nextCall st"
  have fresh: "statuses_of (call_id ?n) (vs_events st) = []" "completions_of (call_id ?n) (vs_events st) = 0"
    using ok by (auto simp: timeline_def)
  have new: "statuses_of j [CallInitiated i t to] = []" "completions_of j [CallInitiated i t to] = 0" for i j
    by (simp_all add: statuses_of_def completions_of_def List.map_filter_def)
  have ids: "cl_id d \<noteq> call_id ?n" if "d \<in> set (vs_calls st)" for d
    using ok that by (auto simp: timeline_def)
  from ok ids have "distinct (map cl_id (vs_calls st) @ [call_id ?n])" by (auto simp: timeline_def)
  with ok assms fresh new show "timeline (snd (create_call t c to from status sid started st))"
    by (auto simp: timeline_def create_call_def Let_def call_ok_other statuses_append completions_append call_ok_def
        LIVE_STATUSES_def less_Suc_eq)
qed

lemma hkeeps_bool_option [keeps_intros]:
  "(\<And>x. v = Some x \<Longrightarrow> hkeeps P (f x)) \<Longrightarrow> hkeeps P m \<Longrightarrow> hkeeps P (case v of None \<Rightarrow> m | Some x \<Rightarrow> f x)"
  by (cases v) simp_all

lemma guarded_timeline [keeps_intros]:
  "hkeeps timeline (if canTransitionCall (cl_status call) target then applyCallStatus call target cb src else hret ())"
  by (simp add: applyCallStatus_timeline hkeeps_pure)

lemma claimed_timeline [keeps_intros]: "hkeeps timeline body \<Longrightarrow> hkeeps timeline (claimed p e body)"
  by (auto simp: claimed_def intro!: keeps_intros)

lemma callbacks_timeline [keeps_intros]:
  "hkeeps timeline (processStatusCallback env cb callId)" "hkeeps timeline (processDialOutcome env input)"
  "hkeeps timeline (processRecordingCallback env rb callId)"
  by (auto simp: processStatusCallback_def status_callback_body_def processDialOutcome_def dial_outcome_body_def
      processRecordingCallback_def Let_def intro!: keeps_intros)

lemma dispatch_timeline [keeps_intros]: "hkeeps timeline (dispatch_call env i request)"
proof (rule hkeepsI)
  fix st :: "'z CallStore_scheme" assume "timeline st"
  then have "timeline (st\<lparr>vs_requests := vs_requests st + 1\<rparr>)"
    "timeline (st\<lparr>vs_requests := vs_requests st + 1, vs_dialled := vs_dialled st @ [request]\<rparr>)"
    by (auto elim: timeline_cong)
  then show "timeline (snd (dispatch_call env i request st))"
    by (auto simp: dispatch_call_def Let_def split: sum.split prod.split dest: hkeepsD [OF bind_sid_timeline] dest!: arg_cong [where f = snd])
qed

lemma browser_timeline [keeps_intros]:
  "hkeeps timeline (createBrowserCall t to from c)" "hkeeps timeline (startBrowserCall env t to c a n)"
  by (auto simp: createBrowserCall_def startBrowserCall_def Let_def intro!: keeps_intros)

lemma initiate_timeline [keeps_intros]: "hkeeps timeline (initiate env t input)"
proof -
  have failed: "hkeeps timeline (applyCallStatus call CallStatus.FAILED cb src)" if "cl_status call = CallStatus.INITIATED" for call :: Call and cb src
    using that by (intro applyCallStatus_timeline) (simp add: canTransition_iff)
  have created: "cl_status call = CallStatus.INITIATED"
    if "create_call t c to from CallStatus.INITIATED None None st = (Inr call, st')" for c to "from" call and st st' :: "'z CallStore_scheme"
    using that by (auto simp: create_call_def Let_def)
  show ?thesis
    unfolding initiate_def Let_def
    by (intro hkeeps_if hkeeps_pure; rule hkeeps_bind_result, rule create_call_timeline, simp, drule created,
        auto intro!: keeps_intros failed)
qed

lemma reconcile_timeline [keeps_intros]: "hkeeps timeline (reconcileStaleCalls env)"
proof -
  have one: "hkeeps timeline (reconcile_one env now call)" for now call
    by (auto simp: reconcile_one_def failStaleCall_def intro!: keeps_intros split: sum.split option.split)
  have "hkeeps timeline (reconcile_loop env now calls acc)" for now calls acc
    by (induction calls arbitrary: acc) (auto intro!: keeps_intros one)
  then show ?thesis by (auto simp: reconcileStaleCalls_def intro!: keeps_intros)
qed

section \<open>Interleaved writers\<close>

text \<open>A writer that loaded a call and was allowed its transition, and has not swapped yet.\<close>

record Swap =
  sw_call :: Call
  sw_target :: CallStatus
  sw_update :: CallUpdate
  sw_source :: StatusSource

inductive call_step :: "VoiceEnv \<Rightarrow> CallStore \<times> Swap list \<Rightarrow> CallStore \<times> Swap list \<Rightarrow> bool" for env where
  load: "c \<in> set (vs_calls st) \<Longrightarrow> canTransitionCall (cl_status c) target \<Longrightarrow>
     call_step env (st, ws) (st, ws @ [\<lparr>sw_call = c, sw_target = target, sw_update = cb, sw_source = src\<rparr>])"
| swap: "call_step env (st, ws @ w # ws')
     (snd (applyCallStatus (sw_call w) (sw_target w) (sw_update w) (sw_source w) st), ws @ ws')"
| status: "call_step env (st, ws) (snd (processStatusCallback env cb callId st), ws)"
| dial: "call_step env (st, ws) (snd (processDialOutcome env input st), ws)"
| recording: "call_step env (st, ws) (snd (processRecordingCallback env rb callId st), ws)"
| start: "call_step env (st, ws) (snd (initiate env tenantId ic st), ws)"
| browser: "call_step env (st, ws) (snd (startBrowserCall env tenantId to contactId accountSid numberId st), ws)"
| sweep: "call_step env (st, ws) (snd (reconcileStaleCalls env st), ws)"
| clock: "now \<ge> vs_now st \<Longrightarrow> call_step env (st, ws) (st\<lparr>vs_now := now\<rparr>, ws)"

definition no_calls :: "(string \<times> string) list \<Rightarrow> CallStore" where
  "no_calls accounts = \<lparr>vs_calls = [], vs_events = [], vs_claims = [], vs_accounts = accounts, vs_dialled = [], vs_requests = 0,
     vs_nextCall = 0, vs_now = 0\<rparr>"

definition swaps_ok :: "Swap list \<Rightarrow> bool" where
  "swaps_ok ws \<longleftrightarrow> (\<forall>w\<in>set ws. canTransitionCall (cl_status (sw_call w)) (sw_target w))"

lemma call_step_timeline:
  assumes "call_step env (st, ws) (st', ws')" "timeline st" "swaps_ok ws"
  shows "timeline st' \<and> swaps_ok ws'"
  using assms
  by (cases rule: call_step.cases)
    (auto simp: swaps_ok_def intro: applyCallStatus_timeline [THEN hkeepsD] callbacks_timeline [THEN hkeepsD]
      initiate_timeline [THEN hkeepsD] browser_timeline [THEN hkeepsD] reconcile_timeline [THEN hkeepsD] elim: timeline_cong)

lemma call_runs_timeline:
  assumes "(call_step env)\<^sup>*\<^sup>* s s'" "timeline (fst s)" "swaps_ok (snd s)"
  shows "timeline (fst s') \<and> swaps_ok (snd s')"
  using assms by (induction rule: rtranclp_induct) (auto dest: call_step_timeline)

text \<open>C18: Take the calls the service creates (a placed call or a browser call). However the producers of their statuses
  interleave (webhooks, the verdict of a bridge, the reconciliation sweep, failed dispatches, each with a row it may
  have loaded long ago), the status events of a call are a path of the call machine from INITIATED to the status of
  its row; a completed call has exactly one completion event and any other call none; and a call that ended has an
  end time.\<close>

theorem call_timeline_exact:
  assumes "(call_step env)\<^sup>*\<^sup>* (no_calls accounts, []) (st, ws)" "c \<in> set (vs_calls st)"
  shows "fsm_path CALL_TRANSITIONS CallStatus.INITIATED (statuses_of (cl_id c) (vs_events st)) (cl_status c) \<and>
    completions_of (cl_id c) (vs_events st) = (if cl_status c = CallStatus.COMPLETED then 1 else 0) \<and>
    (cl_status c \<notin> set LIVE_STATUSES \<longrightarrow> cl_endedAt c \<noteq> None)"
proof -
  have "timeline (no_calls accounts)" "swaps_ok []"
    by (simp_all add: timeline_def no_calls_def swaps_ok_def)
  with call_runs_timeline [OF assms(1)] have "timeline st" by simp
  with assms(2) have "call_ok (vs_events st) c" unfolding timeline_def by blast
  then show ?thesis unfolding call_ok_def .
qed

text \<open>Two webhooks load a ringing call, one says it was answered and completed, the other that it failed.\<close>

definition demo_voice :: VoiceEnv where
  "demo_voice = \<lparr>ve_platformSid = [], ve_voiceFrom = ''+61255501234'', ve_phoneNumber = [],
     ve_place = (\<lambda>n r. Inr (''CA'' @ nat_to_string n)), ve_fetch = (\<lambda>sid. Inr None), ve_errorText = (\<lambda>e. ''error''),
     ve_senderByNumber = (\<lambda>t n. Inr None), ve_callerIdForAccount = (\<lambda>t a. Inr ''+61255501234'')\<rparr>"

definition demo_browser :: CallStore where
  "demo_browser = snd (startBrowserCall demo_voice ''t1'' ''+61412345678'' None None None (no_calls []))"

definition demo_swap :: "CallStatus \<Rightarrow> Swap" where
  "demo_swap target = \<lparr>sw_call = hd (vs_calls demo_browser), sw_target = target, sw_update = no_update, sw_source = Webhook\<rparr>"

definition demo_raced :: CallStore where
  "demo_raced = (let st = snd (applyCallStatus (sw_call (demo_swap CallStatus.COMPLETED)) CallStatus.COMPLETED no_update Webhook demo_browser)
     in snd (applyCallStatus (sw_call (demo_swap CallStatus.FAILED)) CallStatus.FAILED no_update Webhook st))"

lemma demo_browser_facts:
  "map cl_status (vs_calls demo_browser) = [CallStatus.INITIATED]"
  "map cl_status (vs_calls demo_raced) = [CallStatus.COMPLETED]"
  "statuses_of (cl_id (hd (vs_calls demo_raced))) (vs_events demo_raced) = [CallStatus.COMPLETED]"
  by code_simp+

lemma demo_race: "(call_step demo_voice)\<^sup>*\<^sup>* (no_calls [], []) (demo_raced, [])"
proof -
  have one: "vs_calls demo_browser \<noteq> []" "cl_status (hd (vs_calls demo_browser)) = CallStatus.INITIATED"
    using demo_browser_facts(1) by auto
  have "call_step demo_voice (no_calls [], []) (demo_browser, [])"
    unfolding demo_browser_def by (rule call_step.browser)
  moreover have "call_step demo_voice (demo_browser, []) (demo_browser, [] @ [demo_swap CallStatus.COMPLETED])"
    unfolding demo_swap_def by (rule call_step.load) (use one in \<open>simp_all add: canTransition_iff\<close>)
  moreover have "call_step demo_voice (demo_browser, [demo_swap CallStatus.COMPLETED])
      (demo_browser, [demo_swap CallStatus.COMPLETED] @ [demo_swap CallStatus.FAILED])"
    unfolding demo_swap_def [of CallStatus.FAILED] by (rule call_step.load) (use one in \<open>simp_all add: canTransition_iff\<close>)
  moreover have "call_step demo_voice (demo_browser, [] @ demo_swap CallStatus.COMPLETED # [demo_swap CallStatus.FAILED])
      (snd (applyCallStatus (sw_call (demo_swap CallStatus.COMPLETED)) CallStatus.COMPLETED no_update Webhook demo_browser),
       [] @ [demo_swap CallStatus.FAILED])" (is "call_step _ _ (?mid, _)")
    using call_step.swap [of demo_voice demo_browser "[]" "demo_swap CallStatus.COMPLETED"] by (simp add: demo_swap_def)
  moreover have "call_step demo_voice (?mid, [] @ demo_swap CallStatus.FAILED # []) (demo_raced, [] @ [])"
    using call_step.swap [of demo_voice ?mid "[]" "demo_swap CallStatus.FAILED" "[]"]
    by (simp add: demo_swap_def demo_raced_def)
  ultimately show ?thesis by (simp add: rtranclp.rtrancl_into_rtrancl)
qed

theorem call_timeline_exact_witness:
  "statuses_of (cl_id (hd (vs_calls demo_raced))) (vs_events demo_raced) = [CallStatus.COMPLETED] \<and>
   completions_of (cl_id (hd (vs_calls demo_raced))) (vs_events demo_raced) = 1"
proof -
  have "hd (vs_calls demo_raced) \<in> set (vs_calls demo_raced)" "cl_status (hd (vs_calls demo_raced)) = CallStatus.COMPLETED"
    using demo_browser_facts(2) by (cases "vs_calls demo_raced"; simp)+
  with call_timeline_exact [OF demo_race this(1)] demo_browser_facts(3) show ?thesis by simp
qed

end
