(* ===== verification/Dialer_Placing.thy ===== *)
theory Dialer_Placing
  imports Dialer_Promises Call_Timeline
begin















end
